(* ===== verification/Prelude.thy ===== *)
theory Prelude
  imports Complex_Main "HOL-Library.Char_ord" "HOL-Library.Sublist"
begin

text \<open>
  Shared material of the development: the programs of the model (state passing with Python
  exceptions as values), their weakest preconditions as rewrite rules, lists of rows read as SQL
  tables, the string operations the code calls, and decimal rounding.
\<close>

section \<open>Collections of facts\<close>

named_theorems wp_simps \<open>equations for \<open>wp\<close>: one per program constructor and per statement\<close>
named_theorems row_simps \<open>equations for tables as lists of rows\<close>
named_theorems op_defs \<open>definitions of operations, unfolded to compute a witness\<close>

section \<open>Programs: state passing with exceptions\<close>

text \<open>
  The exceptions the modelled code raises or lets through. Messages with interpolated values keep
  their constant part; the integers that the exception object stores are arguments.
\<close>

datatype exn =
    ValueError string
  | LookupError
  | RuntimeError string
  | TypeError
  | OverflowError
  | PermissionError
  | JobAlreadyTerminal
  | InsufficientBalanceError int int
  | KeySpendLimitExceededError int int int
  | WalletDailySpendLimitExceededError int int int
  | WalletSessionBudgetExceededError int int int
  | IntegrityError
  | ProgrammingError
  | InvalidOperation
  | InFailedSqlTransaction
  | HTTPException nat

type_synonym ('s, 'a) prog = "'s \<Rightarrow> (exn + 'a) \<times> 's"

definition ret :: "'a \<Rightarrow> ('s, 'a) prog" where
  "ret x = (\<lambda>d. (Inr x, d))"

definition throw :: "exn \<Rightarrow> ('s, 'a) prog" where
  "throw ex = (\<lambda>d. (Inl ex, d))"

definition bindE :: "('s, 'a) prog \<Rightarrow> ('a \<Rightarrow> ('s, 'b) prog) \<Rightarrow> ('s, 'b) prog" where
  "bindE m f = (\<lambda>d. case m d of (Inl ex, d') \<Rightarrow> (Inl ex, d') | (Inr x, d') \<Rightarrow> f x d')"

definition catchE :: "('s, 'a) prog \<Rightarrow> (exn \<Rightarrow> ('s, 'a) prog) \<Rightarrow> ('s, 'a) prog" where
  "catchE m h = (\<lambda>d. case m d of (Inl ex, d') \<Rightarrow> h ex d' | (Inr x, d') \<Rightarrow> (Inr x, d'))"

definition raise_if :: "bool \<Rightarrow> exn \<Rightarrow> ('s, unit) prog" where
  "raise_if b ex = (if b then throw ex else ret ())"

definition whenE :: "bool \<Rightarrow> ('s, unit) prog \<Rightarrow> ('s, unit) prog" where
  "whenE b m = (if b then m else ret ())"

text \<open>\<open>try: ... except SomeError: ...\<close>: the handler takes the exceptions that \<open>p\<close> selects.\<close>

definition catch_when :: "(exn \<Rightarrow> bool) \<Rightarrow> ('s, 'a) prog \<Rightarrow> ('s, 'a) prog \<Rightarrow> ('s, 'a) prog" where
  "catch_when p m h = catchE m (\<lambda>ex. if p ex then h else throw ex)"

definition is_integrity :: "exn \<Rightarrow> bool" where
  "is_integrity ex \<longleftrightarrow> ex = IntegrityError"

fun is_value_error :: "exn \<Rightarrow> bool" where
  "is_value_error (ValueError _) = True"
| "is_value_error _ = False"

fun for_each :: "'a list \<Rightarrow> ('a \<Rightarrow> ('s, unit) prog) \<Rightarrow> ('s, unit) prog" where
  "for_each [] f = ret ()"
| "for_each (x # xs) f = bindE (f x) (\<lambda>_. for_each xs f)"

text \<open>A loop that counts the iterations whose body answers true.\<close>

fun count_each :: "'a list \<Rightarrow> ('a \<Rightarrow> ('s, bool) prog) \<Rightarrow> ('s, nat) prog" where
  "count_each [] f = ret 0"
| "count_each (x # xs) f =
     bindE (f x) (\<lambda>b. bindE (count_each xs f) (\<lambda>n. ret (if b then Suc n else n)))"

lemmas prog_defs = ret_def throw_def bindE_def catchE_def raise_if_def whenE_def

declare ret_def [op_defs] throw_def [op_defs] bindE_def [op_defs] catchE_def [op_defs]
  raise_if_def [op_defs] whenE_def [op_defs] catch_when_def [op_defs] is_integrity_def [op_defs]

section \<open>Weakest preconditions\<close>

definition wp :: "('s, 'a) prog \<Rightarrow> ('a \<Rightarrow> 's \<Rightarrow> bool) \<Rightarrow> (exn \<Rightarrow> 's \<Rightarrow> bool) \<Rightarrow> 's \<Rightarrow> bool" where
  "wp m Q E d = (case m d of (Inl ex, d') \<Rightarrow> E ex d' | (Inr x, d') \<Rightarrow> Q x d')"

lemma wp_ret [wp_simps]: "wp (ret x) Q E d = Q x d"
  by (simp add: wp_def ret_def)

lemma wp_throw [wp_simps]: "wp (throw ex) Q E d = E ex d"
  by (simp add: wp_def throw_def)

lemma wp_bindE [wp_simps]: "wp (bindE m f) Q E d = wp m (\<lambda>x. wp (f x) Q E) E d"
  by (auto simp: wp_def bindE_def split: prod.splits sum.splits)

lemma wp_catchE [wp_simps]: "wp (catchE m h) Q E d = wp m Q (\<lambda>ex. wp (h ex) Q E) d"
  by (auto simp: wp_def catchE_def split: prod.splits sum.splits)

lemma wp_if [wp_simps]: "wp (if b then m else n) Q E d = (if b then wp m Q E d else wp n Q E d)"
  by simp

lemma wp_let [wp_simps]: "wp (let x = v in m x) Q E d = (let x = v in wp (m x) Q E d)"
  by simp

lemma wp_case_option [wp_simps]:
  "wp (case x of None \<Rightarrow> m | Some y \<Rightarrow> n y) Q E d =
   (case x of None \<Rightarrow> wp m Q E d | Some y \<Rightarrow> wp (n y) Q E d)"
  by (simp split: option.split)

lemma wp_raise_if [wp_simps]: "wp (raise_if b ex) Q E d = (if b then E ex d else Q () d)"
  by (simp add: raise_if_def wp_simps)

lemma wp_whenE [wp_simps]: "wp (whenE b m) Q E d = (if b then wp m Q E d else Q () d)"
  by (simp add: whenE_def wp_simps)

lemma wp_catch_when [wp_simps]:
  "wp (catch_when p m h) Q E d = wp m Q (\<lambda>ex d'. if p ex then wp h Q E d' else E ex d') d"
  by (auto simp: wp_def catch_when_def catchE_def throw_def split: prod.splits sum.splits)

lemma is_integrity_simps [simp]:
  "is_integrity IntegrityError" "\<not> is_integrity InFailedSqlTransaction"
  by (simp_all add: is_integrity_def)

text \<open>The consequence rule: posts may be weakened, whatever the program.\<close>

lemma wp_mono:
  assumes "wp m Q E d"
    and "\<And>x d'. m d = (Inr x, d') \<Longrightarrow> Q x d' \<Longrightarrow> Q' x d'"
    and "\<And>ex d'. m d = (Inl ex, d') \<Longrightarrow> E ex d' \<Longrightarrow> E' ex d'"
  shows "wp m Q' E' d"
  using assms by (auto simp: wp_def split: prod.splits sum.splits)

lemma wp_post_mono:
  assumes "wp m Q E d" and "\<And>x d'. Q x d' \<Longrightarrow> Q' x d'" and "\<And>ex d'. E ex d' \<Longrightarrow> E' ex d'"
  shows "wp m Q' E' d"
  using assms by (auto simp: wp_def split: prod.splits sum.splits)

lemma wp_trivial: "(\<And>x d'. Q x d') \<Longrightarrow> (\<And>ex d'. E ex d') \<Longrightarrow> wp m Q E d"
  by (auto simp: wp_def split: prod.splits sum.splits)

lemma wp_bind_any: "(\<And>x d'. wp (f x) Q (\<lambda>_ _. True) d') \<Longrightarrow> wp (bindE m f) Q (\<lambda>_ _. True) d"
  by (simp add: wp_bindE wp_trivial)

lemma wp_conj:
  "wp m Q E d \<Longrightarrow> wp m Q' E' d \<Longrightarrow> wp m (\<lambda>x d. Q x d \<and> Q' x d) (\<lambda>ex d. E ex d \<and> E' ex d) d"
  by (auto simp: wp_def split: prod.splits sum.splits)

lemma wpD_Inr: "wp m Q E d \<Longrightarrow> m d = (Inr x, d') \<Longrightarrow> Q x d'"
  by (simp add: wp_def)

lemma wpD_Inl: "wp m Q E d \<Longrightarrow> m d = (Inl ex, d') \<Longrightarrow> E ex d'"
  by (simp add: wp_def)

lemma wp_snd: "wp m (\<lambda>_. P) (\<lambda>_. P) d \<Longrightarrow> P (snd (m d))"
  by (auto simp: wp_def split: prod.splits sum.splits)

lemma snd_wp: "P (snd (m d)) \<Longrightarrow> wp m (\<lambda>_. P) (\<lambda>_. P) d"
  by (auto simp: wp_def split: prod.splits sum.splits)

text \<open>
  Frames and invariants: \<open>keeps P m\<close> says that \<open>m\<close> keeps \<open>P\<close>, whether it returns or raises.
\<close>

definition keeps :: "('s \<Rightarrow> bool) \<Rightarrow> ('s, 'a) prog \<Rightarrow> bool" where
  "keeps P m \<longleftrightarrow> (\<forall>d. P d \<longrightarrow> P (snd (m d)))"

lemma keepsI: "(\<And>d. P d \<Longrightarrow> P (snd (m d))) \<Longrightarrow> keeps P m"
  by (simp add: keeps_def)

lemma keepsD: "keeps P m \<Longrightarrow> P d \<Longrightarrow> P (snd (m d))"
  by (simp add: keeps_def)

lemma keeps_wp: "keeps P m \<Longrightarrow> P d \<Longrightarrow> wp m (\<lambda>_. P) (\<lambda>_. P) d"
  by (simp add: keeps_def snd_wp)

lemma wp_keeps: "(\<And>d. P d \<Longrightarrow> wp m (\<lambda>_. P) (\<lambda>_. P) d) \<Longrightarrow> keeps P m"
  by (simp add: keeps_def wp_snd)

lemma keeps_ret [intro!]: "keeps P (ret x)"
  by (simp add: keeps_def ret_def)

lemma keeps_throw [intro!]: "keeps P (throw x)"
  by (simp add: keeps_def throw_def)

lemma keeps_bindE [intro!]: "keeps P m \<Longrightarrow> (\<And>x. keeps P (f x)) \<Longrightarrow> keeps P (bindE m f)"
  unfolding keeps_def bindE_def by (fastforce split: prod.splits sum.splits)

lemma keeps_catchE [intro!]: "keeps P m \<Longrightarrow> (\<And>x. keeps P (h x)) \<Longrightarrow> keeps P (catchE m h)"
  unfolding keeps_def catchE_def by (fastforce split: prod.splits sum.splits)

lemma keeps_catch_when [intro!]: "keeps P m \<Longrightarrow> keeps P h \<Longrightarrow> keeps P (catch_when p m h)"
  unfolding catch_when_def by (intro keeps_catchE) (auto simp: keeps_throw)

lemma keeps_if [intro!]:
  "(b \<Longrightarrow> keeps P m) \<Longrightarrow> (\<not> b \<Longrightarrow> keeps P n) \<Longrightarrow> keeps P (if b then m else n)"
  by simp

lemma keeps_case_option [intro!]:
  "(x = None \<Longrightarrow> keeps P m) \<Longrightarrow> (\<And>y. x = Some y \<Longrightarrow> keeps P (n y)) \<Longrightarrow>
   keeps P (case x of None \<Rightarrow> m | Some y \<Rightarrow> n y)"
  by (simp split: option.split)

lemma keeps_raise_if [intro!]: "keeps P (raise_if b ex)"
  by (simp add: raise_if_def keeps_ret keeps_throw)

lemma keeps_whenE [intro!]: "(b \<Longrightarrow> keeps P m) \<Longrightarrow> keeps P (whenE b m)"
  by (simp add: whenE_def keeps_ret)

lemma keeps_for_each [intro!]: "(\<And>x. x \<in> set xs \<Longrightarrow> keeps P (f x)) \<Longrightarrow> keeps P (for_each xs f)"
  by (induction xs) (auto intro: keeps_ret keeps_bindE)

lemma keeps_count_each [intro!]:
  "(\<And>x. x \<in> set xs \<Longrightarrow> keeps P (f x)) \<Longrightarrow> keeps P (count_each xs f)"
  by (induction xs) (auto intro: keeps_ret keeps_bindE)

lemma wp_bind_keeps:
  assumes "keeps P m" and "P d" and "\<And>x d'. P d' \<Longrightarrow> wp (f x) Q (\<lambda>_ _. True) d'"
  shows "wp (bindE m f) Q (\<lambda>_ _. True) d"
  using keeps_wp [OF assms(1,2)] assms(3) by (auto simp: wp_bindE elim: wp_post_mono)

section \<open>Tables as lists of rows\<close>

definition update_rows :: "('r \<Rightarrow> bool) \<Rightarrow> ('r \<Rightarrow> 'r) \<Rightarrow> 'r list \<Rightarrow> 'r list" where
  "update_rows p f rows = map (\<lambda>r. if p r then f r else r) rows"

definition count_where :: "('r \<Rightarrow> bool) \<Rightarrow> 'r list \<Rightarrow> nat" where
  "count_where p rows = length (filter p rows)"

definition sum_where :: "('r \<Rightarrow> bool) \<Rightarrow> ('r \<Rightarrow> int) \<Rightarrow> 'r list \<Rightarrow> int" where
  "sum_where p f rows = sum_list (map f (filter p rows))"

definition exists_row :: "('r \<Rightarrow> bool) \<Rightarrow> 'r list \<Rightarrow> bool" where
  "exists_row p rows = list_ex p rows"

lemma update_rows_simps [row_simps, simp]:
  "update_rows p f [] = []"
  "update_rows p f (r # rows) = (if p r then f r else r) # update_rows p f rows"
  "update_rows p f (xs @ ys) = update_rows p f xs @ update_rows p f ys"
  by (simp_all add: update_rows_def)

lemma sum_where_simps [row_simps, simp]:
  "sum_where p f [] = 0"
  "sum_where p f (r # rows) = (if p r then f r else 0) + sum_where p f rows"
  "sum_where p f (xs @ ys) = sum_where p f xs + sum_where p f ys"
  by (simp_all add: sum_where_def)

lemma count_where_simps [row_simps, simp]:
  "count_where p [] = 0"
  "count_where p (r # rows) = (if p r then Suc (count_where p rows) else count_where p rows)"
  by (simp_all add: count_where_def)

lemma exists_row_iff: "exists_row p rows \<longleftrightarrow> (\<exists>r\<in>set rows. p r)"
  by (simp add: exists_row_def list_ex_iff)

lemma exists_row_simps [row_simps, simp]:
  "exists_row p [] = False"
  "exists_row p (r # rows) = (p r \<or> exists_row p rows)"
  "exists_row p (xs @ ys) = (exists_row p xs \<or> exists_row p ys)"
  by (auto simp: exists_row_def)

lemma count_where_0: "count_where p rows = 0 \<longleftrightarrow> (\<forall>r\<in>set rows. \<not> p r)"
  by (simp add: count_where_def filter_empty_conv)

lemma set_update_rows: "set (update_rows p f rows) = {if p r then f r else r |r. r \<in> set rows}"
  by (auto simp: update_rows_def)

lemma ball_update_rows:
  "(\<forall>r\<in>set (update_rows p f rows). Q r) \<longleftrightarrow> (\<forall>r\<in>set rows. Q (if p r then f r else r))"
  by (induction rows) auto

lemma in_update_rows: "r \<in> set rows \<Longrightarrow> \<not> p r \<Longrightarrow> r \<in> set (update_rows p f rows)"
  by (auto simp: update_rows_def rev_image_eqI)

lemma length_update_rows [simp]: "length (update_rows p f rows) = length rows"
  by (simp add: update_rows_def)

lemma update_rows_none: "(\<And>r. r \<in> set rows \<Longrightarrow> \<not> p r) \<Longrightarrow> update_rows p f rows = rows"
  by (induction rows) auto

lemma map_update_rows_same:
  "(\<And>r. p r \<Longrightarrow> g (f r) = g r) \<Longrightarrow> map g (update_rows p f rows) = map g rows"
  by (induction rows) auto

lemma sum_where_update_same:
  "(\<And>r. p r \<Longrightarrow> q (f r) = q r \<and> g (f r) = g r) \<Longrightarrow>
   sum_where q g (update_rows p f rows) = sum_where q g rows"
  by (induction rows) auto

lemma find_update_same:
  "(\<And>r. p r \<Longrightarrow> q (f r) = q r) \<Longrightarrow>
   find q (update_rows p f rows) = map_option (\<lambda>r. if p r then f r else r) (find q rows)"
  by (induction rows) auto

lemma find_update_key:
  "(\<And>r. k (f r) = k r) \<Longrightarrow>
   find (\<lambda>r. k r = c) (update_rows (\<lambda>r. k r = c) f rows) = map_option f (find (\<lambda>r. k r = c) rows)"
  by (induction rows) auto

lemma find_None_iff_row: "find p rows = None \<longleftrightarrow> \<not> exists_row p rows"
  by (auto simp: find_None_iff exists_row_iff)

lemma find_SomeD: "find p rows = Some r \<Longrightarrow> r \<in> set rows \<and> p r"
  by (auto simp: find_Some_iff)

lemma update_rows_key_guard:
  assumes "distinct (map k rows)" and "r \<in> set rows" and "g r"
  shows "update_rows (\<lambda>s. k s = k r \<and> g s) f rows = update_rows (\<lambda>s. k s = k r) f rows"
proof -
  have "\<forall>s\<in>set rows. k s = k r \<longrightarrow> s = r"
    using assms(1,2) by (auto simp: distinct_map inj_on_def)
  then show ?thesis using assms(3) by (auto simp: update_rows_def)
qed

lemma find_append:
  "find p (xs @ ys) = (case find p xs of None \<Rightarrow> find p ys | Some x \<Rightarrow> Some x)"
  by (induction xs) auto

lemma find_distinct_key:
  assumes "distinct (map k rows)" and "r \<in> set rows"
  shows "find (\<lambda>s. k s = k r) rows = Some r"
  using assms by (induction rows) auto

lemma sum_where_nonneg: "(\<And>s. s \<in> set rows \<Longrightarrow> 0 \<le> g s) \<Longrightarrow> 0 \<le> sum_where p g rows"
  by (induction rows) auto

lemma sum_where_ge:
  "r \<in> set rows \<Longrightarrow> p r \<Longrightarrow> (\<And>s. s \<in> set rows \<Longrightarrow> 0 \<le> g s) \<Longrightarrow> g r \<le> sum_where p g rows"
proof (induction rows)
  case Nil
  then show ?case by simp
next
  case (Cons a rows)
  then show ?case using sum_where_nonneg [of rows g p] by (cases "r = a") fastforce+
qed

lemma find_distinct_key_and:
  "distinct (map k rows) \<Longrightarrow> r \<in> set rows \<Longrightarrow> q r \<Longrightarrow> find (\<lambda>s. k s = k r \<and> q s) rows = Some r"
  by (induction rows) auto

lemma exists_row_update:
  "(\<And>r. q (f r) = q r) \<Longrightarrow> exists_row q (update_rows p f rows) = exists_row q rows"
  by (induction rows) auto

text \<open>Changing one row of a keyed table moves a sum by what that row changed.\<close>

lemma sum_where_update_key:
  assumes "distinct (map k rows)" and "r \<in> set rows"
    and "\<And>s. k (f s) = k s"
  shows "sum_where q g (update_rows (\<lambda>s. k s = k r) f rows) =
         sum_where q g rows - (if q r then g r else 0) + (if q (f r) then g (f r) else 0)"
  using assms
proof (induction rows)
  case Nil
  then show ?case by simp
next
  case (Cons a rows)
  show ?case
  proof (cases "a = r")
    case True
    with Cons.prems have "update_rows (\<lambda>s. k s = k r) f rows = rows"
      by (intro update_rows_none) (auto simp: image_iff)
    with True show ?thesis by auto
  next
    case False
    with Cons show ?thesis by (auto simp: image_iff)
  qed
qed

text \<open>\<open>ORDER BY key LIMIT n\<close>: a stable sort, then a prefix.\<close>

definition order_limit :: "('r \<Rightarrow> 'k::linorder) \<Rightarrow> nat \<Rightarrow> 'r list \<Rightarrow> 'r list" where
  "order_limit k n rows = take n (sort_key k rows)"

lemma set_order_limit: "set (order_limit k n rows) \<subseteq> set rows"
  unfolding order_limit_def using set_take_subset by fastforce

section \<open>Strings\<close>

text \<open>
  Text is a list of ASCII characters. The operations are the ones of Python's \<open>str\<close> the code
  calls: \<open>strip\<close>, \<open>lower\<close>, \<open>startswith\<close>, slices, and \<open>x or y\<close> on an optional string.
\<close>

definition py_space :: "char \<Rightarrow> bool" where
  "py_space c \<longleftrightarrow> c \<in> {CHR 0x09, CHR 0x0A, CHR 0x0B, CHR 0x0C, CHR 0x0D, CHR 0x1C, CHR 0x1D,
                       CHR 0x1E, CHR 0x1F, CHR 0x20}"

definition py_strip :: "string \<Rightarrow> string" where
  "py_strip s = rev (dropWhile py_space (rev (dropWhile py_space s)))"

definition lower_char :: "char \<Rightarrow> char" where
  "lower_char c =
     (if 65 \<le> (of_char c :: nat) \<and> (of_char c :: nat) \<le> 90 then char_of ((of_char c :: nat) + 32) else c)"

definition py_lower :: "string \<Rightarrow> string" where
  "py_lower s = map lower_char s"

definition or_empty :: "string option \<Rightarrow> string" where
  "or_empty x = (case x of None \<Rightarrow> [] | Some s \<Rightarrow> s)"

definition none_if_empty :: "string \<Rightarrow> string option" where
  "none_if_empty s = (if s = [] then None else Some s)"

definition or_text :: "string \<Rightarrow> string \<Rightarrow> string" where
  "or_text s t = (if s = [] then t else s)"

lemma none_if_empty_Some [simp]: "none_if_empty s = Some t \<longleftrightarrow> s = t \<and> t \<noteq> []"
  by (auto simp: none_if_empty_def)

lemma none_if_empty_None [simp]: "none_if_empty s = None \<longleftrightarrow> s = []"
  by (auto simp: none_if_empty_def)

lemma dropWhile_idem: "dropWhile p (dropWhile p xs) = dropWhile p xs"
  by (induction xs) auto

lemma dropWhile_rev_prefix:
  assumes "dropWhile p xs = xs"
  shows "dropWhile p (rev (dropWhile p (rev xs))) = rev (dropWhile p (rev xs))"
proof (cases xs)
  case Nil
  then show ?thesis by simp
next
  case (Cons a ys)
  have "\<not> p a"
  proof
    assume "p a"
    with assms Cons have "dropWhile p ys = a # ys" by simp
    with length_dropWhile_le [of p ys] show False by simp
  qed
  then have "\<exists>zs. rev (dropWhile p (rev xs)) = a # zs"
    using Cons \<open>\<not> p a\<close> by (simp add: dropWhile_append) (metis rev_rev_ident)
  then show ?thesis using \<open>\<not> p a\<close> by auto
qed

lemma py_strip_idem [simp]: "py_strip (py_strip s) = py_strip s"
proof -
  have "dropWhile py_space (rev (dropWhile py_space (rev (dropWhile py_space s)))) =
        rev (dropWhile py_space (rev (dropWhile py_space s)))"
    by (rule dropWhile_rev_prefix) (simp add: dropWhile_idem)
  then show ?thesis by (simp add: py_strip_def dropWhile_idem)
qed

text \<open>\<open>str(n)\<close> for an integer.\<close>

fun nat_str :: "nat \<Rightarrow> string" where
  "nat_str n = (if n < 10 then [char_of (48 + n)] else nat_str (n div 10) @ [char_of (48 + n mod 10)])"

declare nat_str.simps [simp del]

definition int_str :: "int \<Rightarrow> string" where
  "int_str n = (if n < 0 then CHR ''-'' # nat_str (nat (- n)) else nat_str (nat n))"

section \<open>Decimal rounding\<close>

text \<open>
  A Python \<open>float\<close> that enters the code as a parameter is the rational number its decimal text
  denotes; \<open>Decimal(str(x))\<close> is that rational. \<open>quantize(Decimal("1"), ROUND_HALF_UP)\<close> rounds to
  the nearest integer, ties away from zero; the built-in \<open>round\<close> rounds ties to even.
\<close>

definition round_half_up :: "rat \<Rightarrow> int" where
  "round_half_up x = (if 0 \<le> x then \<lfloor>x + 1 / 2\<rfloor> else - \<lfloor>1 / 2 - x\<rfloor>)"

definition round_half_even :: "rat \<Rightarrow> int" where
  "round_half_even x =
     (if x - of_int \<lfloor>x\<rfloor> < 1 / 2 then \<lfloor>x\<rfloor>
      else if 1 / 2 < x - of_int \<lfloor>x\<rfloor> then \<lfloor>x\<rfloor> + 1
      else if even \<lfloor>x\<rfloor> then \<lfloor>x\<rfloor> else \<lfloor>x\<rfloor> + 1)"

lemma round_half_up_of_int [simp]: "round_half_up (of_int n) = n"
proof -
  have "\<lfloor>of_int n + 1 / 2 :: rat\<rfloor> = n" and "\<lfloor>1 / 2 - of_int n :: rat\<rfloor> = - n"
    by (rule floor_unique; simp)+
  then show ?thesis by (simp add: round_half_up_def)
qed

lemma round_half_up_0 [simp]: "round_half_up 0 = 0"
  using round_half_up_of_int [of 0] by simp

lemma round_half_even_of_int [simp]: "round_half_even (of_int n) = n"
  by (simp add: round_half_even_def)

lemma round_half_up_nonneg: "0 \<le> x \<Longrightarrow> 0 \<le> round_half_up x"
  by (simp add: round_half_up_def)

lemma round_half_up_mono: "0 \<le> x \<Longrightarrow> x \<le> y \<Longrightarrow> round_half_up x \<le> round_half_up y"
  by (simp add: round_half_up_def floor_mono)

lemma round_half_up_le: "0 \<le> x \<Longrightarrow> x \<le> of_int n \<Longrightarrow> round_half_up x \<le> n"
  using round_half_up_mono [of x "of_int n"] by simp

lemma round_half_up_near:
  "0 \<le> x \<Longrightarrow> x - 1 / 2 < of_int (round_half_up x) \<and> of_int (round_half_up x) \<le> x + 1 / 2"
  using floor_correct [of "x + 1 / 2"] by (auto simp: round_half_up_def)

lemma round_half_up_le_ceiling: "0 \<le> x \<Longrightarrow> round_half_up x \<le> \<lceil>x\<rceil>"
  by (rule round_half_up_le) simp_all

end
