(* ===== verification/Database.thy ===== *)
theory Database
  imports Prelude
begin

text \<open>
  The database the modelled modules share: one record per table of the schema that
  \<open>core/payments/base.py\<close>, \<open>core/payments/holds.py\<close>, \<open>core/payments/caller_escrow.py\<close>,
  \<open>core/jobs/db.py\<close>, \<open>core/disputes.py\<close>, \<open>core/registry/core_schema.py\<close> and
  \<open>server/application_parts/part_001.py\<close> create, the configuration the code reads, and the SQL
  statements with their constraint checks, for both back ends (\<open>core/db.py\<close>). A time stamp is the
  number of microseconds since the epoch: the code writes ISO strings in UTC, which compare in time
  order. A \<open>REAL\<close> column is a rational number.
\<close>

section \<open>Configuration and environment\<close>

datatype backend_kind = SQLite | Postgres

text \<open>
  What an operation reads of the outside world: the back end, the clock at the call, the
  identifiers that its successive calls of \<open>uuid.uuid4()\<close> return, and the settings read from the
  process environment.
\<close>

record env =
  backend :: backend_kind
  now :: int
  uuid :: "nat \<Rightarrow> string"
  PLATFORM_FEE_PCT :: int
  MAX_LONG_LEASE_SECONDS :: int
  operator_response_enabled :: bool
  operator_response_hours :: int
  dispute_resolution_hours :: int
  DISPUTE_HOLD_ENABLED :: bool
  REQUIRE_VERIFICATION :: bool
  DISPUTE_FILE_WINDOW_SECONDS :: int
  DEFAULT_JOB_DISPUTE_WINDOW_HOURS :: int
  sha256_hex :: "string \<Rightarrow> string"

definition micros_per_second :: int where "micros_per_second = 1000000"
definition micros_per_hour :: int where "micros_per_hour = 3600 * micros_per_second"
definition micros_per_day :: int where "micros_per_day = 24 * micros_per_hour"

section \<open>Rows\<close>

record wallet =
  wallet_id :: string
  owner_id :: string
  balance_cents :: int
  caller_trust :: rat
  daily_spend_limit_cents :: "int option"
  wallet_created_at :: int
  parent_wallet_id :: "string option"
  guarantor_enabled :: bool
  guarantor_cap_cents :: "int option"
  display_label :: "string option"
  session_budget_cents :: "int option"
  session_budget_set_at :: "int option"
  held_cents :: int

datatype tx_type = Deposit | Charge | Fee | Refund | Payout

record txn =
  tx_id :: string
  tx_wallet_id :: string
  tx_kind :: tx_type
  amount_cents :: int
  related_tx_id :: "string option"
  tx_agent_id :: "string option"
  charged_by_key_id :: "string option"
  memo :: string
  tx_created_at :: int

datatype hold_state = Active | Released | ClawedFull | ClawedPartial

record hold =
  hold_id :: string
  hold_wallet_id :: string
  hold_job_id :: string
  hold_amount_cents :: int
  hold_created_at :: int
  hold_until :: int
  hold_status :: hold_state
  hold_released_at :: "int option"
  hold_clawback_cents :: "int option"
  hold_release_reason :: "string option"

datatype escrow_state = EscrowActive | EscrowConsumed | EscrowReleased

record escrow =
  escrow_job_id :: string
  caller_escrow_wallet_id :: string
  escrow_amount_cents :: int
  escrow_created_at :: int
  escrow_expires_at :: int
  escrow_status :: escrow_state
  escrow_resolved_at :: "int option"
  escrow_resolution_note :: "string option"

record trust_event =
  event_id :: string
  trust_owner_id :: string
  trust_delta :: rat
  trust_before :: rat
  trust_after :: rat
  trust_reason :: string
  trust_related_id :: "string option"
  trust_created_at :: int

datatype job_status =
  Pending | Running | AwaitingClarification | Complete | Failed | Stopped | Cancelled

datatype dispute_outcome = CallerWins | AgentWins | Split | Void

fun outcome_text :: "dispute_outcome \<Rightarrow> string" where
  "outcome_text CallerWins = ''caller_wins''"
| "outcome_text AgentWins = ''agent_wins''"
| "outcome_text Split = ''split''"
| "outcome_text Void = ''void''"

text \<open>A JSON document, the type of the payload columns after \<open>json.loads\<close>.\<close>

datatype json =
    JNull
  | JBool bool
  | JNum rat
  | JStr string
  | JArr "json list"
  | JObj "(string \<times> json) list"

record job =
  job_id :: string
  agent_id :: string
  agent_owner_id :: string
  caller_owner_id :: string
  caller_wallet_id :: string
  agent_wallet_id :: string
  platform_wallet_id :: string
  job_state :: job_status
  price_cents :: int
  caller_charge_cents :: int
  platform_fee_pct_at_create :: int
  fee_bearer_policy :: string
  client_id :: "string option"
  charge_tx_id :: string
  input_payload :: json
  output_payload :: "json option"
  error_message :: "string option"
  created_at :: int
  updated_at :: int
  completed_at :: "int option"
  settled_at :: "int option"
  claim_owner_id :: "string option"
  claim_token :: "string option"
  claimed_at :: "int option"
  lease_expires_at :: "int option"
  last_heartbeat_at :: "int option"
  attempt_count :: int
  max_attempts :: int
  parent_job_id :: "string option"
  tree_depth :: int
  parent_cascade_policy :: string
  retry_count :: int
  next_retry_at :: "int option"
  last_retry_at :: "int option"
  timeout_count :: int
  last_timeout_at :: "int option"
  clarification_timeout_seconds :: int
  clarification_timeout_policy :: string
  clarification_requested_at :: "int option"
  clarification_deadline_at :: "int option"
  dispute_window_hours :: int
  job_dispute_outcome :: "string option"
  judge_agent_id :: "string option"
  judge_verdict :: "string option"
  quality_score :: "int option"
  callback_url :: "string option"
  callback_secret :: "string option"
  output_verification_window_seconds :: int
  output_verification_status :: string
  output_verification_deadline_at :: "int option"
  output_verification_decided_at :: "int option"
  output_verification_decision_owner_id :: "string option"
  output_verification_reason :: "string option"
  batch_id :: "string option"
  origin :: "string option"
  output_signature :: "string option"
  output_signature_alg :: "string option"
  output_signed_by_did :: "string option"
  output_signed_at :: "int option"
  per_job_cap_cents :: "int option"
  claim_deadline_at :: "int option"
  budget_cents :: "int option"
  stop_when_json :: "json option"
  partials_count :: int
  billing_unit :: "string option"
  steer_count :: int
  stop_reason_json :: "json option"
  terminal_at :: "int option"
  terminal_message_id :: "int option"

record job_message =
  message_id :: int
  msg_job_id :: string
  msg_from_id :: string
  msg_type :: string
  msg_payload :: json
  msg_correlation_id :: "string option"
  msg_created_at :: int

datatype dispute_status =
    DPending
  | DAwaitingOperator
  | DJudging
  | DConsensus
  | DTied
  | DResolved
  | DAppealed
  | DFinal

datatype dispute_side = CallerSide | AgentSide

record dispute =
  dispute_id :: string
  dispute_job_id :: string
  filed_by_owner_id :: string
  side :: dispute_side
  reason :: string
  evidence :: "string option"
  filing_deposit_cents :: int
  dispute_state :: dispute_status
  dispute_outcome :: "dispute_outcome option"
  split_caller_cents :: "int option"
  split_agent_cents :: "int option"
  filed_at :: int
  resolved_at :: "int option"
  tied_since :: "int option"
  operator_response_text :: "string option"
  operator_response_at :: "int option"
  operator_response_deadline :: "int option"
  resolution_deadline_at :: "int option"
  audit_log :: "json option"

datatype judge_kind = LlmPrimary | LlmSecondary | HumanAdmin

record judge_vote =
  judgment_id :: string
  judged_dispute_id :: string
  judge_kind :: judge_kind
  verdict :: dispute_outcome
  reasoning :: string
  judge_model :: "string option"
  admin_user_id :: "string option"
  judged_at :: int

record reconciliation_run =
  run_id :: string
  run_created_at :: int
  run_invariant_ok :: bool
  run_drift_cents :: int
  run_mismatch_count :: nat
  run_summary_json :: json

record pending_settlement =
  ps_job_id :: string
  ps_terminal_state :: string
  ps_terminal_at :: int
  ps_attempts :: nat
  ps_last_error :: "exn option"
  ps_settled_at :: "int option"
  ps_receipt_built_at :: "int option"

text \<open>The prices of a listing that charges by quantity, as \<open>validate_pricing_config\<close> stores them.\<close>

record pricing_terms =
  terms_model :: string
  input_field :: string
  fallback_input_fields :: "string list"
  unit_name :: string
  min_cents :: int
  max_cents :: "int option"
  multipliers :: "(string \<times> rat) list"
  rate_cents_per_unit :: rat
  tiers :: "(int \<times> int) list"

text \<open>The columns of \<open>agents\<close> that the settlement, health and decay code reads and writes.\<close>

record agent_row =
  listed_agent_id :: string
  price_per_call_usd :: rat
  call_latency_ring :: json
  avg_latency_ms :: rat
  total_calls :: int
  successful_calls :: int
  listing_status :: string
  trust_decay_multiplier :: rat
  last_decay_at :: int
  agent_created_at :: int
  price_per_call_cents :: "int option"
  latency_last_decay_at :: "int option"
  listed_owner_id :: string
  endpoint_url :: string
  endpoint_health_status :: string
  endpoint_consecutive_failures :: int
  endpoint_last_checked_at :: "int option"
  endpoint_last_error :: "string option"
  suspension_reason :: "string option"
  review_status :: string
  pricing_model :: string
  pricing_config :: "pricing_terms option"

record job_event =
  event_number :: nat
  event_job_id :: string
  event_agent_id :: string
  event_agent_owner_id :: string
  event_caller_owner_id :: string
  event_type :: string
  event_actor_owner_id :: "string option"
  event_payload :: json
  event_created_at :: int

text \<open>The leadership lease of a background worker, and the pipelines with their runs.\<close>

record worker_lease =
  lease_kind :: string
  lease_holder :: string
  lease_hostname :: string
  lease_pid :: int
  lease_acquired_at :: int
  lease_expires :: int
  lease_heartbeat_at :: int

record pipeline =
  pipeline_id :: string
  pipeline_owner_id :: string
  pipeline_name :: string
  pipeline_description :: string
  pipeline_definition :: json
  is_public :: bool
  pipeline_created_at :: int
  pipeline_updated_at :: int

record pipeline_run =
  pipeline_run_id :: string
  run_pipeline_id :: string
  run_caller_owner_id :: string
  run_status :: string
  run_input :: json
  run_output :: "json option"
  run_error_message :: "string option"
  step_results :: json
  total_charged_cents :: int
  run_workspace_id :: "string option"
  pipeline_run_created_at :: int
  run_updated_at :: int
  run_completed_at :: "int option"

record db =
  wallets :: "wallet list"
  transactions :: "txn list"
  wallet_holds :: "hold list"
  job_caller_escrow :: "escrow list"
  caller_trust_events :: "trust_event list"
  jobs :: "job list"
  job_messages :: "job_message list"
  disputes :: "dispute list"
  dispute_judgments :: "judge_vote list"
  reconciliation_runs :: "reconciliation_run list"
  pending_settlements :: "pending_settlement list"
  agent_rows :: "agent_row list"
  job_events :: "job_event list"
  background_worker_leases :: "worker_lease list"
  pipelines :: "pipeline list"
  pipeline_runs :: "pipeline_run list"
  tx_failed :: bool

section \<open>Statements\<close>

text \<open>
  \<open>tx_failed\<close> is the state of the open transaction on PostgreSQL: a statement that raised aborts
  the transaction, and every later statement of it is refused. SQLite undoes only the failed
  statement. \<open>stmt\<close> runs the body of one SQL statement under these rules.
\<close>

definition pg_failed :: "env \<Rightarrow> db \<Rightarrow> bool" where
  "pg_failed e d \<longleftrightarrow> backend e = Postgres \<and> tx_failed d"

definition abort_tx :: "env \<Rightarrow> db \<Rightarrow> db" where
  "abort_tx e d = d\<lparr>tx_failed := (backend e = Postgres)\<rparr>"

definition stmt :: "env \<Rightarrow> (db, 'a) prog \<Rightarrow> (db, 'a) prog" where
  "stmt e m d =
     (if pg_failed e d then (Inl InFailedSqlTransaction, d)
      else case m d of (Inl ex, _) \<Rightarrow> (Inl ex, abort_tx e d) | (Inr x, d') \<Rightarrow> (Inr x, d'))"

definition select :: "env \<Rightarrow> (db \<Rightarrow> 'a) \<Rightarrow> (db, 'a) prog" where
  "select e q = stmt e (\<lambda>d. (Inr (q d), d))"

text \<open>
  \<open>UPDATE\<close>: the rows that match are rewritten and counted; a \<open>CHECK\<close> that a rewritten row breaks
  fails the statement. \<open>INSERT\<close>: the row is appended when its constraints hold.
\<close>

definition update_stmt ::
  "env \<Rightarrow> (db \<Rightarrow> 'r list) \<Rightarrow> ('r list \<Rightarrow> db \<Rightarrow> db) \<Rightarrow> ('r \<Rightarrow> bool) \<Rightarrow> ('r \<Rightarrow> bool) \<Rightarrow> ('r \<Rightarrow> 'r) \<Rightarrow> (db, nat) prog" where
  "update_stmt e get put check p f =
     stmt e (\<lambda>d. if list_all (\<lambda>r. p r \<longrightarrow> check (f r)) (get d)
                then (Inr (count_where p (get d)), put (update_rows p f (get d)) d)
                else (Inl IntegrityError, d))"

definition insert_stmt ::
  "env \<Rightarrow> (db \<Rightarrow> 'r list) \<Rightarrow> ('r list \<Rightarrow> db \<Rightarrow> db) \<Rightarrow> ('r \<Rightarrow> db \<Rightarrow> bool) \<Rightarrow> 'r \<Rightarrow> (db, unit) prog" where
  "insert_stmt e get put ok r =
     stmt e (\<lambda>d. if ok r d then (Inr (), put (get d @ [r]) d) else (Inl IntegrityError, d))"

text \<open>
  \<open>with _conn() as conn\<close>: an exception rolls the transaction back, a normal exit commits it. To
  commit an aborted PostgreSQL transaction rolls it back.
\<close>

definition transact :: "(db, 'a) prog \<Rightarrow> (db, 'a) prog" where
  "transact m d =
     (let d0 = d\<lparr>tx_failed := False\<rparr> in
      case m d0 of
        (Inl ex, _) \<Rightarrow> (Inl ex, d0)
      | (Inr x, d') \<Rightarrow> (Inr x, if tx_failed d' then d0 else d'))"

text \<open>An explicit \<open>ROLLBACK\<close> inside the block, back to the state \<open>d0\<close> at its start.\<close>

definition rollback_to :: "db \<Rightarrow> (db, unit) prog" where
  "rollback_to d0 = (\<lambda>_. (Inr (), d0))"

text \<open>\<open>cursor.lastrowid\<close> of the connection wrapper: the key on SQLite, a constant on PostgreSQL.\<close>

definition lastrowid :: "env \<Rightarrow> int \<Rightarrow> int" where
  "lastrowid e k = (if backend e = Postgres then - 1 else k)"

definition get_state :: "(db, db) prog" where
  "get_state = (\<lambda>d. (Inr d, d))"

declare pg_failed_def [op_defs] abort_tx_def [op_defs] stmt_def [op_defs] select_def [op_defs]
  update_stmt_def [op_defs] insert_stmt_def [op_defs] transact_def [op_defs]
  rollback_to_def [op_defs] get_state_def [op_defs]

lemma abort_tx_simps [simp]:
  "wallets (abort_tx e d) = wallets d" "transactions (abort_tx e d) = transactions d"
  "wallet_holds (abort_tx e d) = wallet_holds d" "job_caller_escrow (abort_tx e d) = job_caller_escrow d"
  "caller_trust_events (abort_tx e d) = caller_trust_events d" "jobs (abort_tx e d) = jobs d"
  "job_messages (abort_tx e d) = job_messages d" "disputes (abort_tx e d) = disputes d"
  "dispute_judgments (abort_tx e d) = dispute_judgments d"
  "reconciliation_runs (abort_tx e d) = reconciliation_runs d"
  "pending_settlements (abort_tx e d) = pending_settlements d"
  "agent_rows (abort_tx e d) = agent_rows d" "job_events (abort_tx e d) = job_events d"
  "background_worker_leases (abort_tx e d) = background_worker_leases d"
  "pipelines (abort_tx e d) = pipelines d" "pipeline_runs (abort_tx e d) = pipeline_runs d"
  "tx_failed (abort_tx e d) \<longleftrightarrow> backend e = Postgres"
  "pg_failed e (abort_tx e d) \<longleftrightarrow> backend e = Postgres"
  by (simp_all add: abort_tx_def pg_failed_def)

text \<open>
  The environment of a later step of the same operation, whose identifiers start at the \<open>k\<close>-th, and of the
  \<open>i\<close>-th round of a loop, whose identifiers are those after the \<open>n\<close>-th that no other round uses.
\<close>

definition uuids_from :: "nat \<Rightarrow> env \<Rightarrow> env" where
  "uuids_from k e = e\<lparr>uuid := \<lambda>n. uuid e (k + n)\<rparr>"

definition uuids_round :: "nat \<Rightarrow> nat \<Rightarrow> env \<Rightarrow> env" where
  "uuids_round n i e = e\<lparr>uuid := \<lambda>k. uuid e (n + 2 ^ i * (2 * k + 1))\<rparr>"

lemma uuids_from_simps [simp]:
  "backend (uuids_from k e) = backend e" "now (uuids_from k e) = now e" "uuid (uuids_from k e) n = uuid e (k + n)"
  "PLATFORM_FEE_PCT (uuids_from k e) = PLATFORM_FEE_PCT e" "DISPUTE_HOLD_ENABLED (uuids_from k e) = DISPUTE_HOLD_ENABLED e"
  "pg_failed (uuids_from k e) = pg_failed e" "uuids_from 0 e = e"
  by (simp_all add: uuids_from_def pg_failed_def fun_eq_iff)

lemma uuids_round_simps [simp]:
  "backend (uuids_round n i e) = backend e" "now (uuids_round n i e) = now e"
  "uuid (uuids_round n i e) k = uuid e (n + 2 ^ i * (2 * k + 1))"
  "PLATFORM_FEE_PCT (uuids_round n i e) = PLATFORM_FEE_PCT e" "pg_failed (uuids_round n i e) = pg_failed e"
  by (simp_all add: uuids_round_def pg_failed_def fun_eq_iff)

text \<open>Different rounds, and different calls of one round, use different identifiers.\<close>

lemma uuids_round_eq: "2 ^ i * (2 * k + 1) = 2 ^ j * (2 * l + 1) \<longleftrightarrow> i = j \<and> k = l" for i j k l :: nat
proof (induction i arbitrary: j)
  case 0
  then show ?case by (cases j) (auto, presburger)
next
  case (Suc i)
  show ?case
  proof (cases j)
    case 0
    then show ?thesis by simp presburger
  next
    case (Suc m)
    have "2 ^ Suc i * (2 * k + 1) = 2 ^ Suc m * (2 * l + 1) \<longleftrightarrow> 2 ^ i * (2 * k + 1) = 2 ^ m * (2 * l + 1)"
      by (simp only: power_Suc mult.assoc mult_cancel1) simp
    then show ?thesis using Suc.IH [of m] Suc by simp
  qed
qed

lemma wp_select [wp_simps]:
  "wp (select e q) Q E d = (if pg_failed e d then E InFailedSqlTransaction d else Q (q d) d)"
  by (simp add: wp_def select_def stmt_def)

lemma wp_update_stmt [wp_simps]:
  "wp (update_stmt e get put check p f) Q E d =
     (if pg_failed e d then E InFailedSqlTransaction d
      else if \<forall>r\<in>set (get d). p r \<longrightarrow> check (f r)
           then Q (count_where p (get d)) (put (update_rows p f (get d)) d)
           else E IntegrityError (abort_tx e d))"
  by (auto simp: wp_def update_stmt_def stmt_def list_all_iff)

lemma wp_insert_stmt [wp_simps]:
  "wp (insert_stmt e get put ok r) Q E d =
     (if pg_failed e d then E InFailedSqlTransaction d
      else if ok r d then Q () (put (get d @ [r]) d) else E IntegrityError (abort_tx e d))"
  by (simp add: wp_def insert_stmt_def stmt_def)

lemma wp_transact [wp_simps]:
  "wp (transact m) Q E d =
     wp m (\<lambda>x d'. Q x (if tx_failed d' then d\<lparr>tx_failed := False\<rparr> else d'))
          (\<lambda>ex _. E ex (d\<lparr>tx_failed := False\<rparr>)) (d\<lparr>tx_failed := False\<rparr>)"
  by (auto simp: wp_def transact_def Let_def split: prod.splits sum.splits)

lemma wp_rollback_to [wp_simps]: "wp (rollback_to d0) Q E d = Q () d0"
  by (simp add: wp_def rollback_to_def)

lemma wp_get_state [wp_simps]: "wp get_state Q E d = Q d d"
  by (simp add: wp_def get_state_def)

text \<open>
  Properties of the tables do not depend on the transaction flag. \<open>ensures P m\<close> says that \<open>P\<close>
  holds again whenever \<open>m\<close> returns: what an exception leaves behind is rolled back by
  \<open>transact\<close>.
\<close>

definition flag_free :: "(db \<Rightarrow> bool) \<Rightarrow> bool" where
  "flag_free P \<longleftrightarrow> (\<forall>d b. P (d\<lparr>tx_failed := b\<rparr>) = P d)"

definition ensures :: "(db \<Rightarrow> bool) \<Rightarrow> (db, 'a) prog \<Rightarrow> bool" where
  "ensures P m \<longleftrightarrow> (\<forall>d. P d \<longrightarrow> wp m (\<lambda>_. P) (\<lambda>_ _. True) d)"

lemma flag_freeD: "flag_free P \<Longrightarrow> P (d\<lparr>tx_failed := b\<rparr>) = P d"
  by (simp add: flag_free_def)

lemma flag_free_abort: "flag_free P \<Longrightarrow> P (abort_tx e d) = P d"
  by (simp add: flag_free_def abort_tx_def)

lemma ensuresI: "(\<And>d. P d \<Longrightarrow> wp m (\<lambda>_. P) (\<lambda>_ _. True) d) \<Longrightarrow> ensures P m"
  by (simp add: ensures_def)

lemma ensuresD: "ensures P m \<Longrightarrow> P d \<Longrightarrow> wp m (\<lambda>_. P) (\<lambda>_ _. True) d"
  by (simp add: ensures_def)

lemma keeps_ensures: "keeps P m \<Longrightarrow> ensures P m"
  by (auto intro!: ensuresI elim: wp_post_mono dest: keeps_wp)

lemma keeps_transact:
  assumes "flag_free P" and "ensures P m"
  shows "keeps P (transact m)"
proof (rule wp_keeps)
  fix d assume "P d"
  then have "wp m (\<lambda>_. P) (\<lambda>_ _. True) (d\<lparr>tx_failed := False\<rparr>)"
    using assms by (simp add: ensuresD flag_freeD)
  then show "wp (transact m) (\<lambda>_. P) (\<lambda>_. P) d"
    using \<open>P d\<close> assms(1) by (auto simp: wp_simps flag_freeD elim!: wp_post_mono)
qed

text \<open>\<open>ensures\<close> goes through the program constructors like \<open>keeps\<close>, but for the handlers.\<close>

lemma ensures_ret [intro!]: "ensures P (ret x)"
  by (simp add: ensures_def wp_simps)

lemma ensures_throw [intro!]: "ensures P (throw x)"
  by (simp add: ensures_def wp_simps)

lemma ensures_bindE [intro!]:
  "ensures P m \<Longrightarrow> (\<And>x. ensures P (f x)) \<Longrightarrow> ensures P (bindE m f)"
  unfolding ensures_def by (fastforce simp: wp_simps elim: wp_post_mono)

lemma ensures_catchE:
  assumes "keeps P m" and "\<And>x. ensures P (h x)"
  shows "ensures P (catchE m h)"
proof (rule ensuresI)
  fix d assume "P d"
  then have "wp m (\<lambda>_. P) (\<lambda>_. P) d" using assms(1) by (rule keeps_wp [rotated])
  then show "wp (catchE m h) (\<lambda>_. P) (\<lambda>_ _. True) d"
    using assms(2) by (auto simp: wp_simps ensures_def elim: wp_post_mono)
qed

lemma ensures_catch_when:
  "keeps P m \<Longrightarrow> ensures P h \<Longrightarrow> ensures P (catch_when p m h)"
  unfolding catch_when_def by (intro ensures_catchE) (auto simp: ensures_throw)

lemma ensures_if [intro!]:
  "(b \<Longrightarrow> ensures P m) \<Longrightarrow> (\<not> b \<Longrightarrow> ensures P n) \<Longrightarrow> ensures P (if b then m else n)"
  by simp

lemma ensures_case_option [intro!]:
  "(x = None \<Longrightarrow> ensures P m) \<Longrightarrow> (\<And>y. x = Some y \<Longrightarrow> ensures P (n y)) \<Longrightarrow>
   ensures P (case x of None \<Rightarrow> m | Some y \<Rightarrow> n y)"
  by (simp split: option.split)

lemma ensures_raise_if [intro!]: "ensures P (raise_if b ex)"
  by (simp add: raise_if_def ensures_ret ensures_throw)

lemma ensures_whenE [intro!]: "(b \<Longrightarrow> ensures P m) \<Longrightarrow> ensures P (whenE b m)"
  by (simp add: whenE_def ensures_ret)

lemma ensures_for_each [intro!]:
  "(\<And>x. x \<in> set xs \<Longrightarrow> ensures P (f x)) \<Longrightarrow> ensures P (for_each xs f)"
  by (induction xs) (auto intro: ensures_ret ensures_bindE)

lemma ensures_get_state: "(\<And>d0. P d0 \<Longrightarrow> ensures P (f d0)) \<Longrightarrow> ensures P (bindE get_state f)"
  unfolding ensures_def by (simp add: wp_simps)

lemma keeps_rollback_to: "P d0 \<Longrightarrow> keeps P (rollback_to d0)"
  by (simp add: keeps_def rollback_to_def)

lemma keeps_stmt:
  "flag_free P \<Longrightarrow> (\<And>d x d'. P d \<Longrightarrow> m d = (Inr x, d') \<Longrightarrow> P d') \<Longrightarrow> keeps P (stmt e m)"
  by (rule keepsI) (auto simp: stmt_def flag_free_abort split: prod.splits sum.splits)

lemma keeps_select [intro!]: "keeps P (select e q)"
  by (rule keepsI) (auto simp: select_def stmt_def)

lemma ensures_select [intro!]: "ensures P (select e q)"
  by (rule keeps_ensures) (rule keeps_select)

lemma keeps_update_stmt:
  assumes "flag_free P"
    and "\<And>d. P d \<Longrightarrow> \<forall>r\<in>set (get d). p r \<longrightarrow> check (f r) \<Longrightarrow> P (put (update_rows p f (get d)) d)"
  shows "keeps P (update_stmt e get put check p f)"
  unfolding update_stmt_def using assms by (intro keeps_stmt) (auto simp: list_all_iff split: if_splits)

lemma keeps_insert_stmt:
  assumes "flag_free P" and "\<And>d. P d \<Longrightarrow> ok r d \<Longrightarrow> P (put (get d @ [r]) d)"
  shows "keeps P (insert_stmt e get put ok r)"
  unfolding insert_stmt_def using assms by (intro keeps_stmt) (auto split: if_splits)

text \<open>A program that returns without having caught an exception leaves the transaction usable.\<close>

definition clean :: "db \<Rightarrow> bool" where
  "clean d \<longleftrightarrow> \<not> tx_failed d"

lemma ensures_clean_update:
  "(\<And>rs d. tx_failed (put rs d) = tx_failed d) \<Longrightarrow> ensures clean (update_stmt e get put ck p f)"
  by (rule ensuresI) (simp add: wp_simps clean_def)

lemma ensures_clean_insert:
  "(\<And>rs d. tx_failed (put rs d) = tx_failed d) \<Longrightarrow> ensures clean (insert_stmt e get put ok r)"
  by (rule ensuresI) (simp add: wp_simps clean_def)

lemmas ensures_clean = ensures_bindE ensures_if ensures_ret ensures_throw ensures_select
  ensures_case_option ensures_whenE ensures_raise_if ensures_clean_update ensures_clean_insert

text \<open>After a transaction, a property that the program ensures and its exceptions keep.\<close>

lemma wp_transact_clean:
  assumes "ensures clean m" and "wp m (\<lambda>x d'. clean d' \<longrightarrow> Q x d') (\<lambda>ex _. E ex (d\<lparr>tx_failed := False\<rparr>)) (d\<lparr>tx_failed := False\<rparr>)"
  shows "wp (transact m) Q E d"
proof -
  have "wp m (\<lambda>_. clean) (\<lambda>_ _. True) (d\<lparr>tx_failed := False\<rparr>)"
    using assms(1) by (rule ensuresD) (simp add: clean_def)
  from wp_conj [OF this assms(2)] show ?thesis
    unfolding wp_transact by (rule wp_post_mono) (simp_all add: clean_def)
qed

end
