(* ===== verification/Fees.thy ===== *)
theory Fees
  imports Prelude
begin

text \<open>
  The pure money arithmetic: fee policies, platform fee and success distribution of
  \<open>core/payments/base.py\<close>, the reserve of \<open>core/payments/holds.py\<close>, the settlement helpers and
  the result type of \<open>core/functional.py\<close>. Integers are Python's, unbounded; \<open>Decimal\<close> arithmetic
  is exact for amounts below \<open>10 ^ 26\<close> cents, the precision of the default context.
\<close>

section \<open>Integer settings read from the environment\<close>

definition digit_value :: "char \<Rightarrow> int option" where
  "digit_value c =
     (let n = (of_char c :: int) in if 48 \<le> n \<and> n \<le> 57 then Some (n - 48) else None)"

text \<open>\<open>int(text)\<close>: white space around, a sign, digits with single underscores between them.\<close>

fun digits_value :: "int \<Rightarrow> bool \<Rightarrow> string \<Rightarrow> int option" where
  "digits_value acc after_digit [] = (if after_digit then Some acc else None)"
| "digits_value acc after_digit (c # cs) =
     (case digit_value c of
        Some n \<Rightarrow> digits_value (acc * 10 + n) True cs
      | None \<Rightarrow> if c = CHR 0x5F \<and> after_digit \<and> cs \<noteq> [] then digits_value acc False cs else None)"

definition py_int :: "string \<Rightarrow> int option" where
  "py_int s =
     (case py_strip s of
        [] \<Rightarrow> None
      | c # cs \<Rightarrow>
          if c = CHR 0x2D then map_option uminus (digits_value 0 False cs)
          else if c = CHR 0x2B then digits_value 0 False cs
          else digits_value 0 False (c # cs))"

definition env_int :: "string option \<Rightarrow> int \<Rightarrow> int option \<Rightarrow> int option \<Rightarrow> exn + int" where
  "env_int raw dflt minimum maximum =
     (case (case raw of None \<Rightarrow> Some dflt | Some s \<Rightarrow> py_int s) of
        None \<Rightarrow> Inl (RuntimeError ''must be an integer'')
      | Some value \<Rightarrow>
          if (case minimum of None \<Rightarrow> False | Some m \<Rightarrow> value < m)
          then Inl (RuntimeError ''must be >= minimum'')
          else if (case maximum of None \<Rightarrow> False | Some m \<Rightarrow> m < value)
          then Inl (RuntimeError ''must be <= maximum'')
          else Inr value)"

text \<open>The setting of the platform fee: a percentage between 0 and 100, 10 when it is unset.\<close>

definition PLATFORM_FEE_PCT_setting :: "string option \<Rightarrow> exn + int" where
  "PLATFORM_FEE_PCT_setting raw = env_int raw 10 (Some 0) (Some 100)"

lemma env_int_range:
  "env_int raw dflt (Some lo) (Some hi) = Inr v \<Longrightarrow> lo \<le> v \<and> v \<le> hi"
  by (auto simp: env_int_def split: option.splits if_splits)

section \<open>Fee policies\<close>

definition VALID_FEE_BEARER_POLICIES :: "string list" where
  "VALID_FEE_BEARER_POLICIES = [''worker'', ''caller'', ''split'']"

definition DEFAULT_FEE_BEARER_POLICY :: string where
  "DEFAULT_FEE_BEARER_POLICY = ''caller''"

definition normalize_fee_bearer_policy :: "string option \<Rightarrow> string" where
  "normalize_fee_bearer_policy value =
     (let normalized = or_text (py_lower (py_strip (or_empty value))) DEFAULT_FEE_BEARER_POLICY in
      if normalized \<notin> set VALID_FEE_BEARER_POLICIES then DEFAULT_FEE_BEARER_POLICY
      else normalized)"

lemma normalize_fee_bearer_policy_cases:
  "normalize_fee_bearer_policy v = ''worker'' \<or> normalize_fee_bearer_policy v = ''caller'' \<or>
   normalize_fee_bearer_policy v = ''split''"
  by (auto simp: normalize_fee_bearer_policy_def VALID_FEE_BEARER_POLICIES_def
      DEFAULT_FEE_BEARER_POLICY_def Let_def)

section \<open>Platform fee and success distribution\<close>

definition compute_platform_fee_cents :: "int \<Rightarrow> int \<Rightarrow> int option \<Rightarrow> exn + int" where
  "compute_platform_fee_cents platform_fee price platform_fee_pct =
     (let pct = (case platform_fee_pct of None \<Rightarrow> platform_fee | Some p \<Rightarrow> p) in
      if price < 0 then Inl (ValueError ''price_cents must be non-negative.'')
      else if pct < 0 then Inl (ValueError ''platform_fee_pct must be non-negative.'')
      else Inr (round_half_up (of_int price * of_int pct / 100)))"

record distribution =
  dist_caller_charge_cents :: int
  dist_agent_payout_cents :: int
  dist_platform_fee_cents :: int

definition compute_success_distribution ::
  "int \<Rightarrow> int \<Rightarrow> int option \<Rightarrow> string option \<Rightarrow> exn + distribution" where
  "compute_success_distribution platform_fee price platform_fee_pct fee_bearer =
     (if price < 0 then Inl (ValueError ''price_cents must be non-negative.'')
      else case compute_platform_fee_cents platform_fee price platform_fee_pct of
        Inl ex \<Rightarrow> Inl ex
      | Inr fee \<Rightarrow>
          let policy = normalize_fee_bearer_policy fee_bearer in
          if policy = ''worker'' then
            Inr \<lparr>dist_caller_charge_cents = price,
                 dist_agent_payout_cents = max 0 (price - fee),
                 dist_platform_fee_cents = fee\<rparr>
          else if policy = ''split'' then
            let caller_fee = (fee + 1) div 2; worker_fee = fee - caller_fee in
            Inr \<lparr>dist_caller_charge_cents = price + caller_fee,
                 dist_agent_payout_cents = max 0 (price - worker_fee),
                 dist_platform_fee_cents = fee\<rparr>
          else
            Inr \<lparr>dist_caller_charge_cents = price + fee,
                 dist_agent_payout_cents = price,
                 dist_platform_fee_cents = fee\<rparr>)"

lemma fee_nonneg: "compute_platform_fee_cents cfg price pct = Inr fee \<Longrightarrow> 0 \<le> fee"
  by (auto simp: compute_platform_fee_cents_def Let_def split: if_splits option.splits
      intro!: round_half_up_nonneg)

lemma fee_le_price:
  assumes "0 \<le> price" and "0 \<le> pct" and "pct \<le> 100"
  shows "round_half_up (of_int price * of_int pct / 100) \<le> price"
proof (rule round_half_up_le)
  have "of_int (price * pct) \<le> (of_int (price * 100) :: rat)"
    unfolding of_int_le_iff using assms by (intro mult_left_mono) auto
  then show "of_int price * of_int pct / 100 \<le> (of_int price :: rat)" by simp
qed (use assms in simp)

definition effective_pct :: "int \<Rightarrow> int option \<Rightarrow> int" where
  "effective_pct cfg pct = (case pct of None \<Rightarrow> cfg | Some p \<Rightarrow> p)"

lemma compute_platform_fee_cents_value:
  "0 \<le> price \<Longrightarrow> 0 \<le> effective_pct cfg pct \<Longrightarrow>
   compute_platform_fee_cents cfg price pct =
     Inr (round_half_up (of_int price * of_int (effective_pct cfg pct) / 100))"
  by (simp add: compute_platform_fee_cents_def effective_pct_def Let_def split: option.splits)

lemma distribution_facts:
  assumes "0 \<le> price" and "0 \<le> effective_pct cfg pct" and "effective_pct cfg pct \<le> 100"
  shows "\<exists>d. compute_success_distribution cfg price pct policy = Inr d \<and>
             price \<le> dist_caller_charge_cents d \<and>
             0 \<le> dist_caller_charge_cents d \<and> 0 \<le> dist_agent_payout_cents d \<and>
             0 \<le> dist_platform_fee_cents d \<and>
             dist_caller_charge_cents d - dist_agent_payout_cents d = dist_platform_fee_cents d"
proof -
  define fee where "fee = round_half_up (of_int price * of_int (effective_pct cfg pct) / 100)"
  have "compute_platform_fee_cents cfg price pct = Inr fee"
    using assms by (simp add: compute_platform_fee_cents_value fee_def)
  moreover have "0 \<le> fee" "fee \<le> price"
    using assms fee_nonneg [OF calculation] by (auto simp: fee_def fee_le_price)
  ultimately show ?thesis using assms(1)
    by (auto simp: compute_success_distribution_def Let_def)
qed

text \<open>
  C34. The distribution of a successful call loses and creates no cent: for a price and a
  percentage in range, whatever the fee policy, the call is priced, the three amounts are
  non-negative and the caller's charge is what the agent and the platform receive.
\<close>

theorem success_distribution_conserves:
  assumes "0 \<le> price" and "0 \<le> effective_pct cfg pct" and "effective_pct cfg pct \<le> 100"
  shows "\<exists>d. compute_success_distribution cfg price pct policy = Inr d \<and>
             0 \<le> dist_caller_charge_cents d \<and> 0 \<le> dist_agent_payout_cents d \<and>
             0 \<le> dist_platform_fee_cents d \<and>
             dist_caller_charge_cents d - dist_agent_payout_cents d = dist_platform_fee_cents d"
  using distribution_facts [OF assms] by blast

theorem success_distribution_conserves_witness:
  "\<exists>d. compute_success_distribution 10 1005 None (Some '' Split '') = Inr d \<and>
       0 \<le> dist_caller_charge_cents d \<and> 0 \<le> dist_agent_payout_cents d \<and>
       0 \<le> dist_platform_fee_cents d \<and>
       dist_caller_charge_cents d - dist_agent_payout_cents d = dist_platform_fee_cents d"
  using success_distribution_conserves [of 1005 10 None "Some '' Split ''"]
  by (simp add: effective_pct_def)

text \<open>
  The identity that the comment of \<open>compute_success_distribution\<close> states for every input does
  not hold above 100 per cent: under the worker policy the platform fee is then larger than
  what the caller pays, once the price is positive.
\<close>

theorem success_distribution_over_100_pct:
  assumes "1 \<le> price" and "150 \<le> effective_pct cfg pct"
  shows "\<exists>d. compute_success_distribution cfg price pct (Some ''worker'') = Inr d \<and>
             dist_caller_charge_cents d - dist_agent_payout_cents d < dist_platform_fee_cents d"
proof -
  define p where "p = effective_pct cfg pct"
  define fee where "fee = round_half_up (of_int price * of_int p / 100)"
  have "price * 150 \<le> price * p" using assms by (intro mult_left_mono) (auto simp: p_def)
  then have "price * 100 + 50 \<le> price * p" using assms(1) by linarith
  then have "(of_int (price * 100 + 50) :: rat) \<le> of_int (price * p)" unfolding of_int_le_iff .
  then have "of_int price + 1 / 2 \<le> (of_int price * of_int p / 100 :: rat)" by simp
  then have "of_int (price + 1) \<le> (of_int price * of_int p / 100 :: rat) + 1 / 2" by simp
  then have "price + 1 \<le> \<lfloor>(of_int price * of_int p / 100 :: rat) + 1 / 2\<rfloor>"
    by (simp only: le_floor_iff)
  moreover have "0 \<le> (of_int price * of_int p / 100 :: rat)"
    using assms by (simp add: p_def)
  ultimately have "price < fee" by (simp add: fee_def round_half_up_def)
  moreover have "compute_platform_fee_cents cfg price pct = Inr fee"
    using assms by (simp add: compute_platform_fee_cents_value fee_def p_def)
  ultimately show ?thesis
    using assms(1) by (auto simp: compute_success_distribution_def normalize_fee_bearer_policy_def
        VALID_FEE_BEARER_POLICIES_def py_strip_def py_space_def py_lower_def lower_char_def
        or_empty_def or_text_def)
qed

theorem success_distribution_over_100_pct_witness:
  "\<exists>d. compute_success_distribution 10 100 (Some 150) (Some ''worker'') = Inr d \<and>
       dist_caller_charge_cents d - dist_agent_payout_cents d < dist_platform_fee_cents d"
  using success_distribution_over_100_pct [of 100 10 "Some 150"] by (simp add: effective_pct_def)

section \<open>Settlement helpers of \<open>core/functional.py\<close>\<close>

definition compute_platform_fee :: "int \<Rightarrow> int \<Rightarrow> int" where
  "compute_platform_fee price fee_pct = price * fee_pct div 100"

definition compute_agent_payout :: "int \<Rightarrow> int \<Rightarrow> int" where
  "compute_agent_payout price fee_pct = price - compute_platform_fee price fee_pct"

definition compute_caller_refund :: "int \<Rightarrow> int \<Rightarrow> int" where
  "compute_caller_refund caller_charge price = caller_charge"

definition compute_partial_refund :: "int \<Rightarrow> int \<Rightarrow> int \<Rightarrow> int" where
  "compute_partial_refund caller_charge price quality_pct =
     (let effective_price = price * max 0 (min 100 quality_pct) div 100;
          overpaid = caller_charge - effective_price
      in max 0 overpaid)"

definition clamp01 :: "rat \<Rightarrow> rat" where
  "clamp01 x = max 0 (min 1 x)"

definition compute_clawback_cents :: "int \<Rightarrow> rat \<Rightarrow> int" where
  "compute_clawback_cents agent_payout payout_fraction =
     (let clamped = clamp01 payout_fraction in
      if 1 \<le> clamped then 0
      else max 0 (round_half_up (of_int agent_payout * (1 - clamped))))"

definition compute_hold_cents :: "int \<Rightarrow> (string \<times> rat) list option \<Rightarrow> int" where
  "compute_hold_cents agent_payout payout_curve =
     (let payout = max 0 agent_payout in
      if payout = 0 then 0
      else case payout_curve of
        None \<Rightarrow> payout
      | Some curve \<Rightarrow>
          if curve = [] then payout
          else
            let min_fraction = max 0 (min (Min (set (map snd curve))) 1);
                at_risk_fraction = 1 - min_fraction
            in if at_risk_fraction \<le> 0 then 0
               else let held = - ((- payout) * round_half_even (at_risk_fraction * 1000000) div 1000000)
                    in min payout (max 0 held))"

lemma clamp01_bounds: "0 \<le> clamp01 x" "clamp01 x \<le> 1"
  by (auto simp: clamp01_def)

lemma clamp01_mono: "x \<le> y \<Longrightarrow> clamp01 x \<le> clamp01 y"
  by (auto simp: clamp01_def)

lemma compute_clawback_cents_alt:
  "0 \<le> payout \<Longrightarrow>
   compute_clawback_cents payout f = round_half_up (of_int payout * (1 - clamp01 f))"
  using clamp01_bounds [of f] round_half_up_nonneg [of "of_int payout * (1 - clamp01 f)"]
  by (cases "clamp01 f = 1") (auto simp: compute_clawback_cents_def Let_def)

lemma neg_div_ceiling: "- ((- a) div (b :: int)) = \<lceil>(of_int a :: rat) / of_int b\<rceil>"
  using floor_divide_of_int_eq [of "- a" b, where ?'a = rat] by (simp add: ceiling_def)

text \<open>A fraction with at most six decimals: the precision at which the reserve is computed.\<close>

definition micro_fraction :: "rat \<Rightarrow> bool" where
  "micro_fraction f \<longleftrightarrow> (\<exists>k. f = of_int k / 1000000)"

lemma micro_fraction_clamp:
  "micro_fraction f \<Longrightarrow> \<exists>k. (1 - clamp01 f) * 1000000 = of_int k"
proof -
  assume "micro_fraction f"
  then obtain k where k: "f = of_int k / 1000000" by (auto simp: micro_fraction_def)
  show ?thesis
  proof (cases "f \<le> 0 \<or> 1 \<le> f")
    case True
    then consider "clamp01 f = 0" | "clamp01 f = 1" by (auto simp: clamp01_def)
    then show ?thesis by cases (auto intro: exI [of _ 0] exI [of _ 1000000])
  next
    case False
    then have "(1 - clamp01 f) * 1000000 = of_int (1000000 - k)"
      by (simp add: clamp01_def k algebra_simps)
    then show ?thesis by blast
  qed
qed

lemma compute_hold_cents_curve:
  assumes "0 < payout" and "curve \<noteq> []" and "\<forall>f\<in>set (map snd curve). micro_fraction f"
  shows "compute_hold_cents payout (Some curve) =
         \<lceil>of_int payout * (1 - clamp01 (Min (set (map snd curve))))\<rceil>"
proof -
  define m where "m = Min (set (map snd curve))"
  have "m \<in> set (map snd curve)" unfolding m_def using assms(2) by (intro Min_in) auto
  then obtain k where k: "(1 - clamp01 m) * 1000000 = of_int k"
    using assms(3) micro_fraction_clamp by blast
  let ?y = "of_int payout * (1 - clamp01 m)"
  have y: "?y = of_int (payout * k) / of_int 1000000" 
    using arg_cong [OF k, of "\<lambda>x. of_int payout * x / 1000000"] by simp
  have "0 \<le> ?y" "?y \<le> of_int payout"
    using assms(1) clamp01_bounds [of m] by (auto intro: mult_left_le)
  then have b: "0 \<le> \<lceil>?y\<rceil>" "\<lceil>?y\<rceil> \<le> payout" by (auto simp: ceiling_le_iff)
  have held: "- ((- payout) * k div 1000000) = \<lceil>?y\<rceil>"
    using neg_div_ceiling [of "payout * k" 1000000] by (simp add: y)
  have hold: "compute_hold_cents payout (Some curve) =
      (if 1 - clamp01 m \<le> 0 then 0
       else min payout (max 0 (- (- payout * round_half_even ((1 - clamp01 m) * 1000000) div 1000000))))"
    using assms(1,2) by (simp add: compute_hold_cents_def Let_def clamp01_def m_def min.commute)
  show ?thesis
  proof (cases "1 - clamp01 m \<le> 0")
    case True
    then have "clamp01 m = 1" using clamp01_bounds [of m] by simp
    then show ?thesis by (simp only: hold m_def [symmetric]) simp
  next
    case False
    have "round_half_even ((1 - clamp01 m) * 1000000) = k" by (simp only: k round_half_even_of_int)
    then show ?thesis using False held b by (simp only: hold if_False m_def [symmetric])
  qed
qed

text \<open>
  The reserve covers the curve: for a curve whose fractions have at most six decimals, no
  rating can claw back more than \<open>compute_hold_cents\<close> held at settlement, and no more than the
  payout is ever held.
\<close>

theorem hold_covers_clawback:
  assumes "0 \<le> payout" and "(rating, fraction) \<in> set curve"
    and "\<forall>f\<in>set (map snd curve). micro_fraction f"
  shows "compute_clawback_cents payout fraction \<le> compute_hold_cents payout (Some curve) \<and>
         compute_hold_cents payout (Some curve) \<le> payout"
proof (cases "payout = 0")
  case True
  then show ?thesis by (simp add: compute_hold_cents_def compute_clawback_cents_alt)
next
  case False
  let ?m = "Min (set (map snd curve))"
  have c: "curve \<noteq> []" using assms(2) by auto
  have "?m \<le> fraction" using assms(2) by (intro Min_le) force+
  then have "of_int payout * (1 - clamp01 fraction) \<le> of_int payout * (1 - clamp01 ?m)"
    using assms(1) by (intro mult_left_mono) (auto simp: clamp01_mono)
  then have "\<lceil>of_int payout * (1 - clamp01 fraction)\<rceil> \<le> \<lceil>of_int payout * (1 - clamp01 ?m)\<rceil>"
    by (rule ceiling_mono)
  moreover have "compute_clawback_cents payout fraction \<le> \<lceil>of_int payout * (1 - clamp01 fraction)\<rceil>"
    using assms(1) clamp01_bounds [of fraction]
    by (simp add: compute_clawback_cents_alt round_half_up_le_ceiling)
  moreover have "compute_hold_cents payout (Some curve) = \<lceil>of_int payout * (1 - clamp01 ?m)\<rceil>"
    using compute_hold_cents_curve [OF _ c assms(3), of payout] False assms(1) by simp
  moreover have "\<lceil>of_int payout * (1 - clamp01 ?m)\<rceil> \<le> payout"
    using assms(1) clamp01_bounds [of ?m] by (simp add: ceiling_le_iff mult_left_le)
  ultimately show ?thesis by simp
qed

theorem hold_covers_clawback_witness:
  "compute_clawback_cents 999 (1 / 2) \<le> compute_hold_cents 999 (Some [(''1'', 0), (''3'', 1 / 2), (''5'', 1)]) \<and>
   compute_hold_cents 999 (Some [(''1'', 0), (''3'', 1 / 2), (''5'', 1)]) \<le> 999"
proof (rule hold_covers_clawback [of _ "''3''"])
  have "micro_fraction 0" "micro_fraction (1 / 2)" "micro_fraction 1"
    unfolding micro_fraction_def
    by (rule exI [of _ 0] exI [of _ 500000] exI [of _ 1000000]; simp)+
  then show "\<forall>f\<in>set (map snd [(''1'', 0), (''3'', 1 / 2), (''5'', 1)]). micro_fraction f" by simp
qed simp_all

text \<open>
  Six decimals are needed: with the finer fraction 0.9999996 the reserve is 0 cents and a
  rating at that fraction claws 2 cents back from a payout of 50,000 dollars.
\<close>

theorem hold_misses_fine_fraction:
  "compute_hold_cents 5000000 (Some [(''1'', 9999996 / 10000000)]) = 0 \<and>
   compute_clawback_cents 5000000 (9999996 / 10000000) = 2"
proof
  have "\<lfloor>(2 / 5 :: rat)\<rfloor> = 0" by (rule floor_unique) simp_all
  then show "compute_hold_cents 5000000 (Some [(''1'', 9999996 / 10000000)]) = 0"
    by (simp add: compute_hold_cents_def round_half_even_def)
  have "\<lfloor>(5 / 2 :: rat)\<rfloor> = 2" by (rule floor_unique) simp_all
  then show "compute_clawback_cents 5000000 (9999996 / 10000000) = 2"
    by (simp add: compute_clawback_cents_def clamp01_def round_half_up_def)
qed

text \<open>
  The two fee computations of the code base differ by rounding only: the truncated fee of
  \<open>core/functional.py\<close> is the half-up fee the ledger uses or one cent less, and it is that fee
  when the fee comes out whole.
\<close>

theorem functional_fee_within_one_cent:
  assumes "0 \<le> price" and "0 \<le> pct"
    and "compute_platform_fee_cents cfg price (Some pct) = Inr fee"
  shows "compute_platform_fee price pct \<le> fee \<and> fee \<le> compute_platform_fee price pct + 1 \<and>
         (price * pct mod 100 = 0 \<longrightarrow> fee = compute_platform_fee price pct)"
proof -
  define x where "x = (of_int (price * pct) / of_int 100 :: rat)"
  have x0: "0 \<le> x" using assms(1,2) by (simp add: x_def)
  have fee: "fee = round_half_up x"
    using assms by (simp add: compute_platform_fee_cents_value effective_pct_def x_def)
  have trunc: "compute_platform_fee price pct = \<lfloor>x\<rfloor>"
    by (simp only: compute_platform_fee_def x_def floor_divide_of_int_eq)
  have "\<lfloor>x\<rfloor> \<le> \<lfloor>x + 1 / 2\<rfloor>" by (rule floor_mono) simp
  moreover have "\<lfloor>x + 1 / 2\<rfloor> \<le> \<lfloor>x + 1\<rfloor>" by (rule floor_mono) simp
  moreover have "fee = compute_platform_fee price pct" if "price * pct mod 100 = 0"
  proof -
    from that obtain k where "price * pct = 100 * k" by auto
    then have "x = of_int k" by (simp add: x_def)
    then show ?thesis by (simp add: fee trunc)
  qed
  ultimately show ?thesis using x0 by (auto simp: fee trunc round_half_up_def)
qed

theorem functional_fee_within_one_cent_witness:
  "compute_platform_fee 1005 10 = 100 \<and> compute_platform_fee_cents 10 1005 (Some 10) = Inr 101 \<and>
   (101 :: int) \<le> compute_platform_fee 1005 10 + 1"
proof -
  have "\<lfloor>(101 :: rat)\<rfloor> = 101" by simp
  then have f: "compute_platform_fee_cents 10 1005 (Some 10) = Inr 101"
    by (simp add: compute_platform_fee_cents_def round_half_up_def)
  from functional_fee_within_one_cent [OF _ _ f] show ?thesis
    using f by (simp add: compute_platform_fee_def)
qed

end
