(* ===== verification/Ledger.thy ===== *)
theory Ledger
  imports Database Fees
begin

text \<open>
  \<open>core/payments/base.py\<close>: the ledger primitives, the wallet settings, deposits, withdrawals,
  admin transfers and the pre-call charge with its spend limits and guarantor backstop.
\<close>

section \<open>Tables and their constraints\<close>

definition wallet_check :: "wallet \<Rightarrow> bool" where
  "wallet_check w \<longleftrightarrow> 0 \<le> balance_cents w \<and>
     (case daily_spend_limit_cents w of None \<Rightarrow> True | Some l \<Rightarrow> 0 \<le> l)"

definition wallet_insertable :: "wallet \<Rightarrow> db \<Rightarrow> bool" where
  "wallet_insertable w d \<longleftrightarrow> wallet_check w \<and>
     \<not> exists_row (\<lambda>v. wallet_id v = wallet_id w \<or> owner_id v = owner_id w) (wallets d) \<and>
     (case parent_wallet_id w of None \<Rightarrow> True
      | Some p \<Rightarrow> p = wallet_id w \<or> exists_row (\<lambda>v. wallet_id v = p) (wallets d))"

definition tx_insertable :: "txn \<Rightarrow> db \<Rightarrow> bool" where
  "tx_insertable t d \<longleftrightarrow>
     \<not> exists_row (\<lambda>u. tx_id u = tx_id t \<or>
         (related_tx_id t \<noteq> None \<and> related_tx_id u = related_tx_id t \<and> tx_kind u = tx_kind t \<and>
          tx_wallet_id u = tx_wallet_id t)) (transactions d)"

abbreviation update_wallets :: "env \<Rightarrow> (wallet \<Rightarrow> bool) \<Rightarrow> (wallet \<Rightarrow> wallet) \<Rightarrow> (db, nat) prog" where
  "update_wallets e \<equiv> update_stmt e wallets (\<lambda>ws d. d\<lparr>wallets := ws\<rparr>) wallet_check"

abbreviation insert_wallet :: "env \<Rightarrow> wallet \<Rightarrow> (db, unit) prog" where
  "insert_wallet e \<equiv> insert_stmt e wallets (\<lambda>ws d. d\<lparr>wallets := ws\<rparr>) wallet_insertable"

abbreviation insert_txn :: "env \<Rightarrow> txn \<Rightarrow> (db, unit) prog" where
  "insert_txn e \<equiv> insert_stmt e transactions (\<lambda>ts d. d\<lparr>transactions := ts\<rparr>) tx_insertable"

definition find_wallet :: "string \<Rightarrow> db \<Rightarrow> wallet option" where
  "find_wallet w d = find (\<lambda>v. wallet_id v = w) (wallets d)"

definition find_wallet_by_owner :: "string \<Rightarrow> db \<Rightarrow> wallet option" where
  "find_wallet_by_owner owner d = find (\<lambda>v. owner_id v = owner) (wallets d)"

definition find_txn :: "string \<Rightarrow> db \<Rightarrow> txn option" where
  "find_txn t d = find (\<lambda>u. tx_id u = t) (transactions d)"

definition add_balance :: "int \<Rightarrow> wallet \<Rightarrow> wallet" where
  "add_balance a w = w\<lparr>balance_cents := balance_cents w + a\<rparr>"

declare wallet_check_def [op_defs] wallet_insertable_def [op_defs] tx_insertable_def [op_defs]
  find_wallet_def [op_defs] find_wallet_by_owner_def [op_defs] find_txn_def [op_defs]
  add_balance_def [op_defs]

lemma add_balance_simps [simp]:
  "wallet_id (add_balance a w) = wallet_id w"
  "owner_id (add_balance a w) = owner_id w"
  "balance_cents (add_balance a w) = balance_cents w + a"
  "held_cents (add_balance a w) = held_cents w"
  "daily_spend_limit_cents (add_balance a w) = daily_spend_limit_cents w"
  by (simp_all add: add_balance_def)

section \<open>Ledger primitives\<close>

definition resolved_key :: "db \<Rightarrow> string option \<Rightarrow> string option \<Rightarrow> string option" where
  "resolved_key d key related =
     (let normalized = py_strip (or_empty key); rel = py_strip (or_empty related) in
      if normalized \<noteq> [] then Some normalized
      else if rel = [] then None
      else case find_txn rel d of
        None \<Rightarrow> None
      | Some t \<Rightarrow> none_if_empty (py_strip (or_empty (charged_by_key_id t))))"

definition resolve_charged_by_key_id ::
  "env \<Rightarrow> string option \<Rightarrow> string option \<Rightarrow> (db, string option) prog" where
  "resolve_charged_by_key_id e key related =
     (let normalized = py_strip (or_empty key) in
      if normalized \<noteq> [] then ret (Some normalized)
      else let rel = py_strip (or_empty related) in
      if rel = [] then ret None
      else bindE (select e (find_txn rel)) (\<lambda>row.
        case row of
          None \<Rightarrow> ret None
        | Some t \<Rightarrow> ret (none_if_empty (py_strip (or_empty (charged_by_key_id t))))))"

definition insert_tx_only ::
  "env \<Rightarrow> nat \<Rightarrow> string \<Rightarrow> tx_type \<Rightarrow> int \<Rightarrow> string option \<Rightarrow> string option \<Rightarrow> string \<Rightarrow>
   string option \<Rightarrow> (db, string) prog" where
  "insert_tx_only e k wid kind amount agent related memo_text key =
     bindE (resolve_charged_by_key_id e key related) (\<lambda>normalized_key_id.
     bindE (insert_txn e \<lparr>tx_id = uuid e k, tx_wallet_id = wid, tx_kind = kind,
              amount_cents = amount, related_tx_id = related, tx_agent_id = agent,
              charged_by_key_id = normalized_key_id, memo = memo_text, tx_created_at = now e\<rparr>) (\<lambda>_.
     ret (uuid e k)))"

definition insert_tx ::
  "env \<Rightarrow> nat \<Rightarrow> string \<Rightarrow> tx_type \<Rightarrow> int \<Rightarrow> string option \<Rightarrow> string option \<Rightarrow> string \<Rightarrow>
   string option \<Rightarrow> (db, string) prog" where
  "insert_tx e k wid kind amount agent related memo_text key =
     bindE (resolve_charged_by_key_id e key related) (\<lambda>normalized_key_id.
     bindE (insert_txn e \<lparr>tx_id = uuid e k, tx_wallet_id = wid, tx_kind = kind,
              amount_cents = amount, related_tx_id = related, tx_agent_id = agent,
              charged_by_key_id = normalized_key_id, memo = memo_text, tx_created_at = now e\<rparr>) (\<lambda>_.
     bindE (update_wallets e (\<lambda>w. wallet_id w = wid) (add_balance amount)) (\<lambda>_.
     ret (uuid e k))))"

text \<open>
  The guarded debit that every settlement path repeats: \<open>UPDATE wallets SET balance_cents =
  balance_cents - a WHERE wallet_id = w AND balance_cents >= a\<close>, the path's own reaction when no
  row matched, then the ledger row.
\<close>

definition guarded_debit ::
  "env \<Rightarrow> nat \<Rightarrow> string \<Rightarrow> int \<Rightarrow> (db, string) prog \<Rightarrow> string option \<Rightarrow> string option \<Rightarrow> string \<Rightarrow>
   string option \<Rightarrow> (db, string) prog" where
  "guarded_debit e k wid amount short agent related memo_text key =
     bindE (update_wallets e (\<lambda>w. wallet_id w = wid \<and> amount \<le> balance_cents w)
              (add_balance (- amount))) (\<lambda>updated.
     if updated = 0 then short
     else insert_tx_only e k wid Charge (- amount) agent related memo_text key)"

text \<open>The other order: \<open>UPDATE wallets\<close> for the credit, then the ledger row.\<close>

definition credit_then_record ::
  "env \<Rightarrow> nat \<Rightarrow> string \<Rightarrow> tx_type \<Rightarrow> int \<Rightarrow> string option \<Rightarrow> string option \<Rightarrow> string \<Rightarrow>
   string option \<Rightarrow> (db, string) prog" where
  "credit_then_record e k wid kind amount agent related memo_text key =
     bindE (update_wallets e (\<lambda>w. wallet_id w = wid) (add_balance amount)) (\<lambda>_.
     insert_tx_only e k wid kind amount agent related memo_text key)"

declare resolve_charged_by_key_id_def [op_defs] credit_then_record_def [op_defs] insert_tx_only_def [op_defs] insert_tx_def [op_defs]
  guarded_debit_def [op_defs]

section \<open>Ledger entries\<close>

text \<open>
  The entry that one call of the primitives writes, and what it means: \<open>post t d\<close> appends \<open>t\<close> and
  moves the cached balance of its wallet.
\<close>

definition tx_entry ::
  "env \<Rightarrow> nat \<Rightarrow> string \<Rightarrow> tx_type \<Rightarrow> int \<Rightarrow> string option \<Rightarrow> string option \<Rightarrow> string \<Rightarrow>
   string option \<Rightarrow> db \<Rightarrow> txn" where
  "tx_entry e k wid kind amount agent related memo_text key d =
     \<lparr>tx_id = uuid e k, tx_wallet_id = wid, tx_kind = kind, amount_cents = amount,
      related_tx_id = related, tx_agent_id = agent, charged_by_key_id = resolved_key d key related,
      memo = memo_text, tx_created_at = now e\<rparr>"

definition post :: "txn \<Rightarrow> db \<Rightarrow> db" where
  "post t d = d\<lparr>transactions := transactions d @ [t],
               wallets := update_rows (\<lambda>w. wallet_id w = tx_wallet_id t) (add_balance (amount_cents t))
                            (wallets d)\<rparr>"

lemma tx_entry_simps [simp]:
  "tx_id (tx_entry e k wid kind amount agent related memo_text key d) = uuid e k"
  "tx_wallet_id (tx_entry e k wid kind amount agent related memo_text key d) = wid"
  "tx_kind (tx_entry e k wid kind amount agent related memo_text key d) = kind"
  "amount_cents (tx_entry e k wid kind amount agent related memo_text key d) = amount"
  "related_tx_id (tx_entry e k wid kind amount agent related memo_text key d) = related"
  "tx_created_at (tx_entry e k wid kind amount agent related memo_text key d) = now e"
  "memo (tx_entry e k wid kind amount agent related memo_text key d) = memo_text"
  by (simp_all add: tx_entry_def)

lemma post_simps [simp]:
  "transactions (post t d) = transactions d @ [t]"
  "wallets (post t d) = update_rows (\<lambda>w. wallet_id w = tx_wallet_id t) (add_balance (amount_cents t)) (wallets d)"
  "wallet_holds (post t d) = wallet_holds d"
  "job_caller_escrow (post t d) = job_caller_escrow d"
  "jobs (post t d) = jobs d"
  "disputes (post t d) = disputes d"
  "tx_failed (post t d) = tx_failed d"
  "job_messages (post t d) = job_messages d"
  "caller_trust_events (post t d) = caller_trust_events d"
  by (simp_all add: post_def)

lemma pg_failed_post [simp]: "pg_failed e (post t d) = pg_failed e d"
  by (simp add: pg_failed_def)

lemma post_alt:
  "post t d = d\<lparr>wallets := update_rows (\<lambda>w. wallet_id w = tx_wallet_id t) (add_balance (amount_cents t)) (wallets d),
               transactions := transactions d @ [t]\<rparr>"
  by (simp add: post_def)

lemma wallets_update_frame [simp]:
  "tx_entry e k wid kind amount agent related memo_text key (d\<lparr>wallets := ws\<rparr>) =
     tx_entry e k wid kind amount agent related memo_text key d"
  "tx_insertable t (d\<lparr>wallets := ws\<rparr>) = tx_insertable t d"
  "pg_failed e (d\<lparr>wallets := ws\<rparr>) = pg_failed e d"
  by (simp_all add: tx_entry_def resolved_key_def find_txn_def tx_insertable_def pg_failed_def Let_def)

lemma wp_resolve_charged_by_key_id [wp_simps]:
  "wp (resolve_charged_by_key_id e key related) Q E d =
     (if pg_failed e d \<and> py_strip (or_empty key) = [] \<and> py_strip (or_empty related) \<noteq> []
      then E InFailedSqlTransaction d else Q (resolved_key d key related) d)"
  by (simp add: resolve_charged_by_key_id_def resolved_key_def wp_simps Let_def split: option.splits)

lemma wp_insert_tx_only [wp_simps]:
  "wp (insert_tx_only e k wid kind amount agent related memo_text key) Q E d =
     (let t = tx_entry e k wid kind amount agent related memo_text key d in
      if pg_failed e d then E InFailedSqlTransaction d
      else if tx_insertable t d then Q (uuid e k) (d\<lparr>transactions := transactions d @ [t]\<rparr>)
      else E IntegrityError (abort_tx e d))"
  by (simp add: insert_tx_only_def wp_simps tx_entry_def Let_def)

lemma wp_insert_tx:
  "wp (insert_tx e k wid kind amount agent related memo_text key) Q E d =
     (let t = tx_entry e k wid kind amount agent related memo_text key d in
      if pg_failed e d then E InFailedSqlTransaction d
      else if tx_insertable t d then
        if \<forall>w\<in>set (wallets d). wallet_id w = wid \<longrightarrow> wallet_check (add_balance amount w)
        then Q (uuid e k) (post t d)
        else E IntegrityError (abort_tx e (d\<lparr>transactions := transactions d @ [t]\<rparr>))
      else E IntegrityError (abort_tx e d))"
  by (auto simp add: insert_tx_def wp_simps tx_entry_def Let_def post_def pg_failed_def abort_tx_def)

section \<open>The ledger invariant\<close>

text \<open>
  \<open>balance_cents\<close> is a cache of the ledger: for every wallet it is the sum of the wallet's entries.
  With it, the constraints of the schema: identifiers are unique, no balance is negative, and an
  event is settled at most once per type and wallet (\<open>idx_tx_related_unique\<close>).
\<close>

definition ledger_sum :: "string \<Rightarrow> db \<Rightarrow> int" where
  "ledger_sum w d = sum_where (\<lambda>t. tx_wallet_id t = w) amount_cents (transactions d)"

definition settlement_key :: "txn \<Rightarrow> string option \<times> tx_type \<times> string" where
  "settlement_key t = (related_tx_id t, tx_kind t, tx_wallet_id t)"

definition ledger_ok :: "db \<Rightarrow> bool" where
  "ledger_ok d \<longleftrightarrow>
     distinct (map wallet_id (wallets d)) \<and>
     distinct (map tx_id (transactions d)) \<and>
     distinct (map settlement_key (filter (\<lambda>t. related_tx_id t \<noteq> None) (transactions d))) \<and>
     (\<forall>w\<in>set (wallets d). wallet_check w \<and> balance_cents w = ledger_sum (wallet_id w) d)"

definition funded :: "txn \<Rightarrow> db \<Rightarrow> bool" where
  "funded t d \<longleftrightarrow> (\<forall>w\<in>set (wallets d). wallet_id w = tx_wallet_id t \<longrightarrow>
                    0 \<le> balance_cents w + amount_cents t)"

definition can_pay :: "string \<Rightarrow> int \<Rightarrow> db \<Rightarrow> bool" where
  "can_pay wid a d \<longleftrightarrow> exists_row (\<lambda>w. wallet_id w = wid \<and> a \<le> balance_cents w) (wallets d)"

lemma flag_free_ledger_ok [intro!, simp]: "flag_free ledger_ok"
  by (simp add: flag_free_def ledger_ok_def ledger_sum_def)

lemma ledger_okD:
  assumes "ledger_ok d"
  shows "distinct (map wallet_id (wallets d))" "distinct (map tx_id (transactions d))"
    and "w \<in> set (wallets d) \<Longrightarrow> wallet_check w"
    and "w \<in> set (wallets d) \<Longrightarrow> 0 \<le> balance_cents w"
    and "w \<in> set (wallets d) \<Longrightarrow> balance_cents w = ledger_sum (wallet_id w) d"
  using assms by (auto simp: ledger_ok_def wallet_check_def)

lemma ledger_sum_post:
  "ledger_sum w (post t d) = ledger_sum w d + (if tx_wallet_id t = w then amount_cents t else 0)"
  by (simp add: ledger_sum_def)

lemma wallet_check_add:
  "wallet_check w \<Longrightarrow> wallet_check (add_balance a w) \<longleftrightarrow> 0 \<le> balance_cents w + a"
  by (simp add: wallet_check_def)

lemma funded_check:
  "ledger_ok d \<Longrightarrow> funded t d \<longleftrightarrow>
     (\<forall>w\<in>set (wallets d). wallet_id w = tx_wallet_id t \<longrightarrow> wallet_check (add_balance (amount_cents t) w))"
  by (auto simp: funded_def wallet_check_add ledger_okD)

lemma funded_nonneg: "ledger_ok d \<Longrightarrow> 0 \<le> amount_cents t \<Longrightarrow> funded t d"
  by (auto simp: funded_def dest: ledger_okD(4))

lemma ledger_ok_post:
  assumes "ledger_ok d" and "tx_insertable t d" and "funded t d"
  shows "ledger_ok (post t d)"
proof -
  have "map wallet_id (wallets (post t d)) = map wallet_id (wallets d)"
    by (simp add: map_update_rows_same)
  moreover have "\<forall>w\<in>set (wallets (post t d)).
      wallet_check w \<and> balance_cents w = ledger_sum (wallet_id w) (post t d)"
    unfolding post_simps ball_update_rows
    using assms by (auto simp: ledger_sum_post funded_check ledger_okD)
  ultimately show ?thesis using assms(1,2)
    by (auto simp: ledger_ok_def tx_insertable_def exists_row_iff settlement_key_def)
qed

lemma can_pay_funded:
  "ledger_ok d \<Longrightarrow> can_pay wid a d \<Longrightarrow> tx_wallet_id t = wid \<Longrightarrow> amount_cents t = - a \<Longrightarrow> funded t d"
  by (auto simp: can_pay_def funded_def exists_row_iff ledger_ok_def distinct_map inj_on_def)

lemma guarded_rows:
  assumes "ledger_ok d" and "can_pay wid a d"
  shows "update_rows (\<lambda>w. wallet_id w = wid \<and> a \<le> balance_cents w) f (wallets d) =
         update_rows (\<lambda>w. wallet_id w = wid) f (wallets d)"
proof -
  obtain w where w: "w \<in> set (wallets d)" "wallet_id w = wid" "a \<le> balance_cents w"
    using assms(2) by (auto simp: can_pay_def exists_row_iff)
  have "\<forall>v\<in>set (wallets d). wallet_id v = wid \<longrightarrow> v = w"
    using assms(1) w by (auto simp: ledger_ok_def distinct_map inj_on_def)
  then show ?thesis using w(3) by (auto simp: update_rows_def)
qed

lemma wp_insert_tx_ok [wp_simps]:
  assumes "ledger_ok d"
  shows "wp (insert_tx e k wid kind amount agent related memo_text key) Q E d =
     (let t = tx_entry e k wid kind amount agent related memo_text key d in
      if pg_failed e d then E InFailedSqlTransaction d
      else if tx_insertable t d then
        if funded t d then Q (uuid e k) (post t d)
        else E IntegrityError (abort_tx e (d\<lparr>transactions := transactions d @ [t]\<rparr>))
      else E IntegrityError (abort_tx e d))"
  using assms by (simp add: wp_insert_tx funded_check Let_def)

lemma wp_guarded_debit [wp_simps]:
  assumes "ledger_ok d"
  shows "wp (guarded_debit e k wid a short agent related memo_text key) Q E d =
     (let t = tx_entry e k wid Charge (- a) agent related memo_text key d in
      if pg_failed e d then E InFailedSqlTransaction d
      else if can_pay wid a d then
        if tx_insertable t d then Q (uuid e k) (post t d)
        else E IntegrityError (abort_tx e (d\<lparr>wallets := wallets (post t d)\<rparr>))
      else wp short Q E d)"
proof (cases "can_pay wid a d")
  case True
  then have "count_where (\<lambda>w. wallet_id w = wid \<and> a \<le> balance_cents w) (wallets d) \<noteq> 0"
    by (auto simp: can_pay_def exists_row_iff count_where_0 simp del: neq0_conv)
  moreover have "\<forall>w\<in>set (wallets d). wallet_id w = wid \<and> a \<le> balance_cents w \<longrightarrow>
      wallet_check (add_balance (- a) w)"
    using assms by (auto simp: wallet_check_add ledger_okD)
  ultimately show ?thesis using True guarded_rows [OF assms True]
    by (simp add: guarded_debit_def wp_simps Let_def post_alt)
next
  case False
  then have none: "\<And>w. w \<in> set (wallets d) \<Longrightarrow> \<not> (wallet_id w = wid \<and> a \<le> balance_cents w)"
    by (auto simp: can_pay_def exists_row_iff)
  then have "count_where (\<lambda>w. wallet_id w = wid \<and> a \<le> balance_cents w) (wallets d) = 0"
    by (simp add: count_where_0)
  then show ?thesis using False none
    by (auto simp: guarded_debit_def wp_simps Let_def update_rows_none)
qed

lemma wp_credit_then_record [wp_simps]:
  assumes "ledger_ok d"
  shows "wp (credit_then_record e k wid kind a agent related memo_text key) Q E d =
     (let t = tx_entry e k wid kind a agent related memo_text key d in
      if pg_failed e d then E InFailedSqlTransaction d
      else if funded t d then
        if tx_insertable t d then Q (uuid e k) (post t d)
        else E IntegrityError (abort_tx e (d\<lparr>wallets := wallets (post t d)\<rparr>))
      else E IntegrityError (abort_tx e d))"
  using assms by (auto simp: credit_then_record_def wp_simps funded_check Let_def post_alt)

section \<open>Properties that every posting keeps\<close>

text \<open>
  The contract between the ledger primitives and the properties of the operations built on them: a
  property that implies the invariant and that survives the posting of an insertable, funded entry
  is kept by the primitives, so by the operations.
\<close>

locale posting_invariant =
  fixes P :: "db \<Rightarrow> bool"
  assumes flag_free: "flag_free P"
    and ledger: "P d \<Longrightarrow> ledger_ok d"
    and posting: "P d \<Longrightarrow> tx_insertable t d \<Longrightarrow> funded t d \<Longrightarrow> P (post t d)"
begin

lemma P_flag [simp]: "P (d\<lparr>tx_failed := b\<rparr>) = P d"
  using flag_free by (rule flag_freeD)

lemma P_abort [simp]: "P (abort_tx e d) = P d"
  using flag_free by (rule flag_free_abort)

lemma ensures_insert_tx: "ensures P (insert_tx e k wid kind a agent related m key)"
  by (rule ensuresI) (simp add: wp_simps ledger posting Let_def)

lemma keeps_insert_tx: "0 \<le> a \<Longrightarrow> keeps P (insert_tx e k wid kind a agent related m key)"
  by (rule wp_keeps) (simp add: wp_simps ledger posting Let_def funded_nonneg)

lemma ensures_guarded_debit:
  assumes "ensures P short"
  shows "ensures P (guarded_debit e k wid a short agent related m key)"
proof (rule ensuresI)
  fix d assume "P d"
  then show "wp (guarded_debit e k wid a short agent related m key) (\<lambda>_. P) (\<lambda>_ _. True) d"
    using assms by (simp add: wp_simps ledger posting Let_def can_pay_funded ensuresD)
qed

lemma ensures_credit_then_record: "ensures P (credit_then_record e k wid kind a agent related m key)"
  by (rule ensuresI) (simp add: wp_simps ledger posting Let_def)

lemma keeps_transact_P: "ensures P m \<Longrightarrow> keeps P (transact m)"
  using flag_free by (rule keeps_transact)

end

text \<open>
  The contract for the operations that also open wallets, rewrite a wallet's other columns and
  touch other tables.
\<close>

locale ledger_invariant = posting_invariant +
  assumes tables: "wallets d = wallets d' \<Longrightarrow> transactions d = transactions d' \<Longrightarrow> P d = P d'"
    and rewriting: "P d \<Longrightarrow> (\<And>w. wallet_id (f w) = wallet_id w \<and> balance_cents (f w) = balance_cents w) \<Longrightarrow>
      \<forall>w\<in>set (wallets d). p w \<longrightarrow> wallet_check (f w) \<Longrightarrow>
      P (d\<lparr>wallets := update_rows p f (wallets d)\<rparr>)"
    and new_row: "P d \<Longrightarrow> wallet_insertable w d \<Longrightarrow> balance_cents w = 0 \<Longrightarrow>
      \<forall>t\<in>set (transactions d). tx_wallet_id t \<noteq> wallet_id w \<Longrightarrow>
      P (d\<lparr>wallets := wallets d @ [w]\<rparr>)"
begin

lemma keeps_rewriting:
  "(\<And>w. wallet_id (f w) = wallet_id w \<and> balance_cents (f w) = balance_cents w) \<Longrightarrow>
   keeps P (update_wallets e p f)"
  by (rule keeps_update_stmt [OF flag_free]) (rule rewriting)

lemma ensures_rewriting:
  "(\<And>w. wallet_id (f w) = wallet_id w \<and> balance_cents (f w) = balance_cents w) \<Longrightarrow>
   ensures P (update_wallets e p f)"
  by (rule keeps_ensures) (rule keeps_rewriting)

text \<open>Statements on the other tables.\<close>

lemma keeps_other_update:
  "(\<And>rs d. wallets (put rs d) = wallets d \<and> transactions (put rs d) = transactions d) \<Longrightarrow>
   keeps P (update_stmt e get put check p f)"
  by (rule keeps_update_stmt [OF flag_free]) (metis tables)

lemma keeps_other_insert:
  "(\<And>rs d. wallets (put rs d) = wallets d \<and> transactions (put rs d) = transactions d) \<Longrightarrow>
   keeps P (insert_stmt e get put ok r)"
  by (rule keeps_insert_stmt [OF flag_free]) (metis tables)

end

lemma ledger_ok_tables:
  "wallets d = wallets d' \<Longrightarrow> transactions d = transactions d' \<Longrightarrow> ledger_ok d = ledger_ok d'"
  by (simp add: ledger_ok_def ledger_sum_def)

lemma ledger_ok_rewriting:
  assumes "ledger_ok d" and "\<And>w. wallet_id (f w) = wallet_id w \<and> balance_cents (f w) = balance_cents w"
    and "\<forall>w\<in>set (wallets d). p w \<longrightarrow> wallet_check (f w)"
  shows "ledger_ok (d\<lparr>wallets := update_rows p f (wallets d)\<rparr>)"
  using assms by (auto simp: ledger_ok_def ledger_sum_def map_update_rows_same ball_update_rows)

lemma ledger_ok_opening:
  assumes "ledger_ok d" and "wallet_insertable w d" and "balance_cents w = 0"
    and "\<forall>t\<in>set (transactions d). tx_wallet_id t \<noteq> wallet_id w"
  shows "ledger_ok (d\<lparr>wallets := wallets d @ [w]\<rparr>)"
proof -
  have "ledger_sum (wallet_id w) d = 0"
    using assms(4) by (simp add: ledger_sum_def sum_where_def filter_empty_conv)
  then show ?thesis using assms(1-3)
    by (auto simp: ledger_ok_def wallet_insertable_def exists_row_iff ledger_sum_def)
qed

interpretation ledger_inv: ledger_invariant ledger_ok
proof unfold_locales
  show "flag_free ledger_ok" by simp
  show "ledger_ok d = ledger_ok d'" if "wallets d = wallets d'" "transactions d = transactions d'"
    for d d'
    using that by (rule ledger_ok_tables)
qed (simp_all add: ledger_ok_post ledger_ok_rewriting ledger_ok_opening)

text \<open>The ledger is insert-only: what was written stays, in order.\<close>

definition ledger_extends :: "txn list \<Rightarrow> db \<Rightarrow> bool" where
  "ledger_extends ts d \<longleftrightarrow> ledger_ok d \<and> prefix ts (transactions d)"

interpretation extend_inv: ledger_invariant "ledger_extends ts" for ts
proof unfold_locales
  show "ledger_extends ts d = ledger_extends ts d'"
    if "wallets d = wallets d'" "transactions d = transactions d'" for d d'
    using that ledger_ok_tables [OF that] by (simp add: ledger_extends_def)
qed (simp_all add: ledger_extends_def flag_free_def flag_freeD [OF flag_free_ledger_ok]
       ledger_ok_post ledger_ok_rewriting ledger_ok_opening)

end
