(* ===== verification/Sample.thy ===== *)
theory Sample
  imports Ledger
begin

text \<open>
  A small world at which the properties are instantiated: a caller with 500 cents, an agent, the
  platform and a sub-wallet of the caller with 20 cents and a guarantee of 300 cents a day.
\<close>

definition sample_env :: "backend_kind \<Rightarrow> env" where
  "sample_env b = \<lparr>backend = b, now = 1700000000000000, uuid = (\<lambda>k. CHR ''u'' # replicate k CHR ''x''),
     PLATFORM_FEE_PCT = 10, MAX_LONG_LEASE_SECONDS = 14400, operator_response_enabled = False,
     operator_response_hours = 24, dispute_resolution_hours = 48,
     DISPUTE_HOLD_ENABLED = False, REQUIRE_VERIFICATION = False, DISPUTE_FILE_WINDOW_SECONDS = 604800,
     DEFAULT_JOB_DISPUTE_WINDOW_HOURS = 72, sha256_hex = (\<lambda>s. s)\<rparr>"

definition sample_wallet :: "string \<Rightarrow> string \<Rightarrow> int \<Rightarrow> wallet" where
  "sample_wallet wid owner balance =
     \<lparr>wallet_id = wid, owner_id = owner, balance_cents = balance, caller_trust = 1 / 2,
      daily_spend_limit_cents = None, wallet_created_at = 1600000000000000, parent_wallet_id = None,
      guarantor_enabled = False, guarantor_cap_cents = None, display_label = None,
      session_budget_cents = None, session_budget_set_at = None, held_cents = 0\<rparr>"

definition sample_tx :: "string \<Rightarrow> string \<Rightarrow> int \<Rightarrow> txn" where
  "sample_tx t wid amount =
     \<lparr>tx_id = t, tx_wallet_id = wid, tx_kind = Deposit, amount_cents = amount, related_tx_id = None,
      tx_agent_id = None, charged_by_key_id = None, memo = ''manual deposit'',
      tx_created_at = 1600000000000000\<rparr>"

definition sample_caller :: wallet where
  "sample_caller = (sample_wallet ''w1'' ''user:alice'' 500)\<lparr>daily_spend_limit_cents := Some 1000,
     session_budget_cents := Some 400, session_budget_set_at := Some 1600000000000000\<rparr>"

definition sample_child :: wallet where
  "sample_child = (sample_wallet ''w4'' ''agent:kid'' 20)\<lparr>parent_wallet_id := Some ''w1'',
     guarantor_enabled := True, guarantor_cap_cents := Some 300\<rparr>"

definition sample_db :: db where
  "sample_db = \<lparr>wallets = [sample_caller, sample_wallet ''w2'' ''agent:bob'' 0,
       sample_wallet ''w3'' ''platform'' 0, sample_child],
     transactions = [sample_tx ''t1'' ''w1'' 500, sample_tx ''t2'' ''w4'' 20],
     wallet_holds = [], job_caller_escrow = [], caller_trust_events = [], jobs = [], job_messages = [],
     disputes = [], dispute_judgments = [], reconciliation_runs = [], pending_settlements = [], agent_rows = [], job_events = [],
     background_worker_leases = [], pipelines = [], pipeline_runs = [],
     tx_failed = False\<rparr>"

text \<open>A job of the caller at the agent, completed, and the dispute the caller filed on it.\<close>

definition sample_job :: job where
  "sample_job =
     \<lparr>job_id = ''j1'', agent_id = ''agent'', agent_owner_id = ''agent:bob'', caller_owner_id = ''user:alice'',
      caller_wallet_id = ''w1'', agent_wallet_id = ''w2'', platform_wallet_id = ''w3'', job_state = Complete,
      price_cents = 100, caller_charge_cents = 110, platform_fee_pct_at_create = 10,
      fee_bearer_policy = ''caller'', client_id = None, charge_tx_id = ''c1'', input_payload = JNull,
      output_payload = None, error_message = None, created_at = 1600000000000000,
      updated_at = 1600000000000000, completed_at = Some 1650000000000000, settled_at = Some 1650000000000000,
      claim_owner_id = None, claim_token = None, claimed_at = None, lease_expires_at = None,
      last_heartbeat_at = None, attempt_count = 1, max_attempts = 3, parent_job_id = None, tree_depth = 0,
      parent_cascade_policy = ''detach'', retry_count = 0, next_retry_at = None, last_retry_at = None,
      timeout_count = 0, last_timeout_at = None, clarification_timeout_seconds = 0,
      clarification_timeout_policy = ''fail'', clarification_requested_at = None,
      clarification_deadline_at = None, dispute_window_hours = 24, job_dispute_outcome = None,
      judge_agent_id = None, judge_verdict = None, quality_score = None, callback_url = None,
      callback_secret = None, output_verification_window_seconds = 0,
      output_verification_status = ''not_required'', output_verification_deadline_at = None,
      output_verification_decided_at = None, output_verification_decision_owner_id = None,
      output_verification_reason = None, batch_id = None, origin = None, output_signature = None,
      output_signature_alg = None, output_signed_by_did = None, output_signed_at = None,
      per_job_cap_cents = None, claim_deadline_at = None, budget_cents = None, stop_when_json = None,
      partials_count = 0, billing_unit = None, steer_count = 0, stop_reason_json = None,
      terminal_at = None, terminal_message_id = None\<rparr>"

definition sample_dispute :: dispute where
  "sample_dispute =
     \<lparr>dispute_id = ''d1'', dispute_job_id = ''j1'', filed_by_owner_id = ''user:alice'', side = CallerSide,
      reason = ''wrong'', evidence = None, filing_deposit_cents = 5, dispute_state = DPending,
      dispute_outcome = None, split_caller_cents = None, split_agent_cents = None,
      filed_at = 1660000000000000, resolved_at = None, tied_since = None, operator_response_text = None,
      operator_response_at = None, operator_response_deadline = None, resolution_deadline_at = None, audit_log = Some (JArr [])\<rparr>"

lemma sample_uuid [simp]:
  "uuid (sample_env b) i = uuid (sample_env b) j \<longleftrightarrow> i = j"
  by (auto simp: sample_env_def dest: arg_cong [where f = length])

lemma sample_env_simps [simp]:
  "backend (sample_env b) = b" "now (sample_env b) = 1700000000000000"
  "PLATFORM_FEE_PCT (sample_env b) = 10"
  by (simp_all add: sample_env_def)

lemma sample_uuid_new [simp]: "uuid (sample_env b) k \<noteq> CHR ''t'' # s" "CHR ''t'' # s \<noteq> uuid (sample_env b) k"
  by (simp_all add: sample_env_def)

lemmas sample_defs = sample_db_def sample_tx_def sample_wallet_def sample_caller_def sample_child_def

lemma sample_ledger_ok [simp]: "ledger_ok sample_db"
  by (simp add: sample_defs ledger_ok_def ledger_sum_def wallet_check_def)

lemma sample_tx_failed [simp]: "tx_failed sample_db = False"
  by (simp add: sample_db_def)

end
