(* ===== verification/Wallets.thy ===== *)
theory Wallets
  imports Sample
begin

text \<open>
  The wallet operations of \<open>core/payments/base.py\<close>: creation, lookups, spend limits and session
  budget, trust score, withdrawal, deposit, admin transfer and the wallet's history.
\<close>

section \<open>Wallet management\<close>

definition new_wallet ::
  "env \<Rightarrow> nat \<Rightarrow> string \<Rightarrow> string option \<Rightarrow> string option \<Rightarrow> wallet" where
  "new_wallet e k owner parent label =
     \<lparr>wallet_id = uuid e k, owner_id = owner, balance_cents = 0, caller_trust = 1 / 2,
      daily_spend_limit_cents = None, wallet_created_at = now e, parent_wallet_id = parent,
      guarantor_enabled = False, guarantor_cap_cents = None, display_label = label,
      session_budget_cents = None, session_budget_set_at = None, held_cents = 0\<rparr>"

text \<open>\<open>dict(row)\<close> raises on a row that was not found.\<close>

definition dict_row :: "'a option \<Rightarrow> (db, 'a) prog" where
  "dict_row row = (case row of None \<Rightarrow> throw TypeError | Some r \<Rightarrow> ret r)"

definition get_or_create_wallet ::
  "env \<Rightarrow> string \<Rightarrow> string option \<Rightarrow> string option \<Rightarrow> (db, wallet) prog" where
  "get_or_create_wallet e owner parent label =
     transact (bindE (select e (find_wallet_by_owner owner)) (\<lambda>row.
       case row of
         Some w \<Rightarrow> ret w
       | None \<Rightarrow>
           catch_when is_integrity
             (bindE (insert_wallet e (new_wallet e 0 owner parent label)) (\<lambda>_.
              ret (new_wallet e 0 owner parent label)))
             (bindE (select e (find_wallet_by_owner owner)) dict_row)))"

definition get_wallet :: "env \<Rightarrow> string \<Rightarrow> (db, wallet option) prog" where
  "get_wallet e wid = transact (select e (find_wallet wid))"

definition get_wallet_by_owner :: "env \<Rightarrow> string \<Rightarrow> (db, wallet option) prog" where
  "get_wallet_by_owner e owner = transact (select e (find_wallet_by_owner owner))"

definition DAILY_SPEND_LIMIT_MAX_CENTS :: int where
  "DAILY_SPEND_LIMIT_MAX_CENTS = 1000000"

text \<open>The tail of every setter: no row updated is an error, else the row is read back.\<close>

definition updated_wallet :: "env \<Rightarrow> string \<Rightarrow> nat \<Rightarrow> (db, wallet) prog" where
  "updated_wallet e wid updated =
     (if updated = 0 then throw (ValueError ''Wallet not found.'')
      else bindE (select e (find_wallet wid)) dict_row)"

definition set_wallet_daily_spend_limit :: "env \<Rightarrow> string \<Rightarrow> int option \<Rightarrow> (db, wallet) prog" where
  "set_wallet_daily_spend_limit e wid limit =
     bindE (case limit of
              None \<Rightarrow> ret ()
            | Some l \<Rightarrow>
                if l < 0 then throw (ValueError ''daily_spend_limit_cents must be >= 0.'')
                else raise_if (DAILY_SPEND_LIMIT_MAX_CENTS < l)
                       (ValueError ''daily_spend_limit_cents must be <= maximum'')) (\<lambda>_.
     transact
       (bindE (update_wallets e (\<lambda>w. wallet_id w = wid) (\<lambda>w. w\<lparr>daily_spend_limit_cents := limit\<rparr>))
         (updated_wallet e wid)))"

definition set_wallet_session_budget ::
  "env \<Rightarrow> string \<Rightarrow> int option \<Rightarrow> bool \<Rightarrow> (db, wallet) prog" where
  "set_wallet_session_budget e wid budget reset_counter =
     bindE (case budget of
              None \<Rightarrow> ret None
            | Some b \<Rightarrow>
                if b < 0 then throw (ValueError ''session_budget_cents must be >= 0.'')
                else if b = 0 then ret None
                else if DAILY_SPEND_LIMIT_MAX_CENTS < b
                then throw (ValueError ''session_budget_cents must be <= maximum'')
                else ret (Some b)) (\<lambda>normalized.
     let new_set_at = (if normalized \<noteq> None \<and> reset_counter then Some (now e) else None) in
     transact
       (bindE
          (if new_set_at \<noteq> None then
             update_wallets e (\<lambda>w. wallet_id w = wid)
               (\<lambda>w. w\<lparr>session_budget_cents := normalized, session_budget_set_at := new_set_at\<rparr>)
           else if normalized = None then
             update_wallets e (\<lambda>w. wallet_id w = wid)
               (\<lambda>w. w\<lparr>session_budget_cents := None, session_budget_set_at := None\<rparr>)
           else
             update_wallets e (\<lambda>w. wallet_id w = wid) (\<lambda>w. w\<lparr>session_budget_cents := normalized\<rparr>))
          (updated_wallet e wid)))"

text \<open>Net spend of a wallet: charges less refunds, over the entries that \<open>p\<close> selects.\<close>

definition net_spent :: "string \<Rightarrow> (txn \<Rightarrow> bool) \<Rightarrow> db \<Rightarrow> int" where
  "net_spent wid p d =
     sum_where (\<lambda>t. tx_wallet_id t = wid \<and> (tx_kind t = Charge \<or> tx_kind t = Refund) \<and> p t)
       (\<lambda>t. - amount_cents t) (transactions d)"

definition session_spent_cents_for_wallet :: "env \<Rightarrow> string \<Rightarrow> int option \<Rightarrow> (db, int) prog" where
  "session_spent_cents_for_wallet e wid set_at =
     (case set_at of
        None \<Rightarrow> ret 0
      | Some start \<Rightarrow>
          bindE (transact (select e (net_spent wid (\<lambda>t. start \<le> tx_created_at t)))) (\<lambda>spent.
          ret (max 0 spent)))"

definition update_wallet_caller_trust ::
  "env \<Rightarrow> string \<Rightarrow> rat option \<Rightarrow> (db, wallet option) prog" where
  "update_wallet_caller_trust e owner trust_score =
     (case trust_score of
        None \<Rightarrow> ret None
      | Some normalized \<Rightarrow>
          if normalized < 0 \<or> 1 < normalized
          then throw (ValueError ''trust_score must be in [0, 1].'')
          else transact
            (bindE (select e (find_wallet_by_owner owner)) (\<lambda>row.
             case row of
               None \<Rightarrow> ret None
             | Some _ \<Rightarrow>
                 bindE (update_wallets e (\<lambda>w. owner_id w = owner) (\<lambda>w. w\<lparr>caller_trust := normalized\<rparr>)) (\<lambda>_.
                 select e (find_wallet_by_owner owner)))))"

section \<open>Withdrawal, deposit and transfer\<close>

definition charge :: "env \<Rightarrow> string \<Rightarrow> int \<Rightarrow> string \<Rightarrow> (db, string) prog" where
  "charge e wid amount memo_text =
     (if amount \<le> 0 then throw (ValueError ''amount_cents must be positive.'')
      else transact
        (bindE (select e (find_wallet wid)) (\<lambda>row.
         case row of
           None \<Rightarrow> throw (ValueError ''Wallet not found.'')
         | Some w \<Rightarrow>
             guarded_debit e 0 wid amount (throw (InsufficientBalanceError (balance_cents w) amount))
               None None (or_text memo_text ''Withdrawal'') None)))"

definition deposit :: "env \<Rightarrow> string \<Rightarrow> int \<Rightarrow> string \<Rightarrow> (db, string) prog" where
  "deposit e wid amount memo_text =
     (if amount \<le> 0 then throw (ValueError ''Deposit amount must be positive'')
      else if 1000000 < amount then throw (ValueError ''Single deposit capped at 1,000,000'')
      else transact
        (bindE (select e (find_wallet wid)) (\<lambda>row.
         case row of
           None \<Rightarrow> throw (ValueError ''Wallet not found.'')
         | Some _ \<Rightarrow> insert_tx e 0 wid Deposit amount None None memo_text None)))"

definition admin_transfer_memo :: "string \<Rightarrow> string" where
  "admin_transfer_memo memo_text = ''[admin-transfer] '' @ memo_text"

definition admin_transfer ::
  "env \<Rightarrow> string \<Rightarrow> string \<Rightarrow> int \<Rightarrow> string \<Rightarrow> (db, string \<times> string \<times> int) prog" where
  "admin_transfer e src dst amount memo_text =
     (if amount \<le> 0 then throw (ValueError ''amount_cents must be positive.'')
      else if src = dst then throw (ValueError ''source and destination wallets must differ.'')
      else transact
        (bindE (select e (find_wallet src)) (\<lambda>src_row.
         case src_row of
           None \<Rightarrow> throw (ValueError ''Source wallet not found.'')
         | Some s \<Rightarrow>
             bindE (select e (find_wallet dst)) (\<lambda>dst_row.
             case dst_row of
               None \<Rightarrow> throw (ValueError ''Destination wallet not found.'')
             | Some _ \<Rightarrow>
                 bindE (guarded_debit e 0 src amount
                          (throw (InsufficientBalanceError (balance_cents s) amount))
                          None None (admin_transfer_memo memo_text) None) (\<lambda>debit_id.
                 bindE (credit_then_record e 1 dst Deposit amount None (Some debit_id)
                          (admin_transfer_memo memo_text) None) (\<lambda>credit_id.
                 ret (debit_id, credit_id, amount)))))))"

section \<open>History\<close>

text \<open>Newest first; rows of one instant come in ledger order, which SQL leaves open.\<close>

definition get_wallet_transactions :: "env \<Rightarrow> string \<Rightarrow> nat \<Rightarrow> (db, txn list) prog" where
  "get_wallet_transactions e wid limit =
     transact (select e (\<lambda>d.
       order_limit (\<lambda>t. - tx_created_at t) (min limit 100)
         (filter (\<lambda>t. tx_wallet_id t = wid) (transactions d))))"

record earnings =
  earned_agent_id :: string
  total_earned_cents :: int
  call_count :: nat
  last_earned_at :: int

definition agent_payout_row :: "string \<Rightarrow> string \<Rightarrow> txn \<Rightarrow> bool" where
  "agent_payout_row wid agent t \<longleftrightarrow>
     tx_wallet_id t = wid \<and> tx_kind t = Payout \<and> tx_agent_id t = Some agent"

definition get_agent_earnings_breakdown :: "env \<Rightarrow> string \<Rightarrow> (db, earnings list) prog" where
  "get_agent_earnings_breakdown e wid =
     transact (select e (\<lambda>d.
       let rows = filter (\<lambda>t. tx_wallet_id t = wid \<and> tx_kind t = Payout \<and> tx_agent_id t \<noteq> None)
                    (transactions d);
           agents = remdups (map (\<lambda>t. the (tx_agent_id t)) rows)
       in sort_key (\<lambda>r. - total_earned_cents r)
            (map (\<lambda>a. \<lparr>earned_agent_id = a,
                       total_earned_cents = sum_where (agent_payout_row wid a) amount_cents (transactions d),
                       call_count = count_where (agent_payout_row wid a) (transactions d),
                       last_earned_at = Max (set (map tx_created_at (filter (agent_payout_row wid a) (transactions d))))\<rparr>)
              agents)))"

declare new_wallet_def [op_defs] dict_row_def [op_defs] updated_wallet_def [op_defs]
  net_spent_def [op_defs]

lemma wp_dict_row [wp_simps]:
  "wp (dict_row row) Q E d = (case row of None \<Rightarrow> E TypeError d | Some r \<Rightarrow> Q r d)"
  by (simp add: dict_row_def wp_simps split: option.split)

lemma keeps_dict_row [intro!]: "keeps P (dict_row row)"
  by (auto simp: dict_row_def)

lemma ensures_dict_row [intro!]: "ensures P (dict_row row)"
  by (rule keeps_ensures) (rule keeps_dict_row)

section \<open>Balances\<close>

definition has_wallet :: "string \<Rightarrow> db \<Rightarrow> bool" where
  "has_wallet w d \<longleftrightarrow> exists_row (\<lambda>v. wallet_id v = w) (wallets d)"

definition balance_of :: "string \<Rightarrow> db \<Rightarrow> int" where
  "balance_of w d = (case find_wallet w d of None \<Rightarrow> 0 | Some v \<Rightarrow> balance_cents v)"

definition total_balance :: "db \<Rightarrow> int" where
  "total_balance d = sum_list (map balance_cents (wallets d))"

text \<open>An identifier that no entry has and that no entry refers to.\<close>

definition fresh_tx :: "string \<Rightarrow> db \<Rightarrow> bool" where
  "fresh_tx x d \<longleftrightarrow> (\<forall>t\<in>set (transactions d). tx_id t \<noteq> x \<and> related_tx_id t \<noteq> Some x)"

text \<open>A wallet is opened under an identifier that no ledger entry mentions.\<close>

definition no_entries_of :: "string \<Rightarrow> db \<Rightarrow> bool" where
  "no_entries_of w d \<longleftrightarrow> (\<forall>t\<in>set (transactions d). tx_wallet_id t \<noteq> w)"

lemma no_entries_frame [simp]:
  "no_entries_of w (d\<lparr>tx_failed := b\<rparr>) = no_entries_of w d"
  by (simp add: no_entries_of_def)

lemma has_wallet_find: "has_wallet w d \<longleftrightarrow> find_wallet w d \<noteq> None"
  by (simp add: has_wallet_def find_wallet_def find_None_iff_row)

lemma find_wallet_post:
  "find_wallet w (post t d) =
     map_option (\<lambda>v. if wallet_id v = tx_wallet_id t then add_balance (amount_cents t) v else v)
       (find_wallet w d)"
  by (simp add: find_wallet_def find_update_same)

lemma find_wallet_id: "find_wallet w d = Some v \<Longrightarrow> wallet_id v = w"
  by (auto simp: find_wallet_def dest: find_SomeD)

lemma find_wallet_in: "find_wallet w d = Some v \<Longrightarrow> v \<in> set (wallets d)"
  by (auto simp: find_wallet_def dest: find_SomeD)

lemma find_wallet_row: "ledger_ok d \<Longrightarrow> v \<in> set (wallets d) \<Longrightarrow> find_wallet (wallet_id v) d = Some v"
  by (simp add: find_wallet_def find_distinct_key ledger_okD)

lemma has_wallet_post [simp]: "has_wallet w (post t d) = has_wallet w d"
  by (simp add: has_wallet_find find_wallet_post)

lemma balance_of_post:
  "balance_of w (post t d) =
     balance_of w d + (if tx_wallet_id t = w \<and> has_wallet w d then amount_cents t else 0)"
  by (auto simp: balance_of_def find_wallet_post has_wallet_find dest: find_wallet_id split: option.splits)

lemma can_pay_iff:
  "ledger_ok d \<Longrightarrow> can_pay w a d \<longleftrightarrow> has_wallet w d \<and> a \<le> balance_of w d"
  by (auto simp: can_pay_def has_wallet_def exists_row_iff balance_of_def find_wallet_row
      dest: find_wallet_in find_wallet_id split: option.splits)

lemma find_wallet_ledger: "ledger_ok d \<Longrightarrow> find_wallet w d = Some v \<Longrightarrow> balance_cents v = ledger_sum w d"
  by (metis find_wallet_id find_wallet_in ledger_okD(5))

lemma balance_of_ledger:
  "ledger_ok d \<Longrightarrow> has_wallet w d \<Longrightarrow> balance_of w d = ledger_sum w d"
  by (auto simp: balance_of_def has_wallet_find find_wallet_ledger)

lemma balance_of_nonneg: "ledger_ok d \<Longrightarrow> 0 \<le> balance_of w d"
  by (auto simp: balance_of_def ledger_okD(4) dest: find_wallet_in split: option.splits)

lemma sum_list_update_key:
  fixes g :: "'r \<Rightarrow> int"
  assumes "distinct (map k rows)"
  shows "sum_list (map g (update_rows (\<lambda>r. k r = x) f rows)) =
         sum_list (map g rows) + (case find (\<lambda>r. k r = x) rows of None \<Rightarrow> 0 | Some r \<Rightarrow> g (f r) - g r)"
  using assms by (induction rows) (auto simp: update_rows_none rev_image_eqI split: option.splits dest!: find_SomeD)

lemma total_balance_post:
  "ledger_ok d \<Longrightarrow>
   total_balance (post t d) = total_balance d + (if has_wallet (tx_wallet_id t) d then amount_cents t else 0)"
  by (auto simp: total_balance_def sum_list_update_key ledger_okD(1) has_wallet_find find_wallet_def
      split: option.splits)

text \<open>What an insertion needs of the ledger, entry by entry.\<close>

definition new_id :: "string \<Rightarrow> db \<Rightarrow> bool" where
  "new_id x d \<longleftrightarrow> (\<forall>t\<in>set (transactions d). tx_id t \<noteq> x)"

definition unsettled :: "string \<Rightarrow> tx_type \<Rightarrow> string \<Rightarrow> db \<Rightarrow> bool" where
  "unsettled c kind wid d \<longleftrightarrow>
     (\<forall>t\<in>set (transactions d). \<not> (related_tx_id t = Some c \<and> tx_kind t = kind \<and> tx_wallet_id t = wid))"

lemma insertable_entry:
  "tx_insertable (tx_entry e k wid kind a agent related m key d') d \<longleftrightarrow>
     new_id (uuid e k) d \<and> (case related of None \<Rightarrow> True | Some c \<Rightarrow> unsettled c kind wid d)"
  by (auto simp: tx_insertable_def exists_row_iff new_id_def unsettled_def split: option.splits)

lemma new_id_post: "new_id x (post t d) \<longleftrightarrow> new_id x d \<and> tx_id t \<noteq> x"
  by (auto simp: new_id_def)

lemma unsettled_post:
  "unsettled c kind wid (post t d) \<longleftrightarrow> unsettled c kind wid d \<and>
     \<not> (related_tx_id t = Some c \<and> tx_kind t = kind \<and> tx_wallet_id t = wid)"
  by (auto simp: unsettled_def)

lemma fresh_tx_post: "fresh_tx x (post t d) \<longleftrightarrow> fresh_tx x d \<and> tx_id t \<noteq> x \<and> related_tx_id t \<noteq> Some x"
  by (auto simp: fresh_tx_def)

lemma fresh_txD: "fresh_tx x d \<Longrightarrow> new_id x d" "fresh_tx x d \<Longrightarrow> unsettled x kind wid d"
  by (auto simp: fresh_tx_def new_id_def unsettled_def)

lemma find_wallet_iff:
  "ledger_ok d \<Longrightarrow> find_wallet w d = Some v \<longleftrightarrow> v \<in> set (wallets d) \<and> wallet_id v = w"
  using find_wallet_row find_wallet_in find_wallet_id by blast

lemma funded_iff:
  assumes "ledger_ok d"
  shows "funded t d \<longleftrightarrow>
    (has_wallet (tx_wallet_id t) d \<longrightarrow> 0 \<le> balance_of (tx_wallet_id t) d + amount_cents t)"
proof (cases "find_wallet (tx_wallet_id t) d")
  case None
  have "wallet_id v \<noteq> tx_wallet_id t" if "v \<in> set (wallets d)" for v
    using find_wallet_row [OF assms that] None by auto
  with None show ?thesis by (simp add: funded_def has_wallet_find)
next
  case (Some v)
  have v: "v \<in> set (wallets d)" "wallet_id v = tx_wallet_id t"
    using Some find_wallet_in find_wallet_id by auto
  have u: "w = v" if "w \<in> set (wallets d)" "wallet_id w = tx_wallet_id t" for w
    using find_wallet_row [OF assms that(1)] that(2) Some by simp
  have "funded t d \<longleftrightarrow> 0 \<le> balance_cents v + amount_cents t"
    unfolding funded_def using v u by metis
  with Some show ?thesis by (simp add: has_wallet_find balance_of_def)
qed

lemmas posting_simps = insertable_entry new_id_post unsettled_post fresh_tx_post fresh_txD
  funded_iff can_pay_iff balance_of_post total_balance_post ledger_ok_post

lemma wallet_flag_frame [simp]:
  "find_wallet w (d\<lparr>tx_failed := b\<rparr>) = find_wallet w d"
  "find_wallet_by_owner w (d\<lparr>tx_failed := b\<rparr>) = find_wallet_by_owner w d"
  "has_wallet w (d\<lparr>tx_failed := b\<rparr>) = has_wallet w d"
  "balance_of w (d\<lparr>tx_failed := b\<rparr>) = balance_of w d"
  "total_balance (d\<lparr>tx_failed := b\<rparr>) = total_balance d"
  "fresh_tx x (d\<lparr>tx_failed := b\<rparr>) = fresh_tx x d"
  "new_id x (d\<lparr>tx_failed := b\<rparr>) = new_id x d"
  "unsettled c kind w (d\<lparr>tx_failed := b\<rparr>) = unsettled c kind w d"
  "ledger_ok (d\<lparr>tx_failed := b\<rparr>) = ledger_ok d"
  "can_pay w a (d\<lparr>tx_failed := b\<rparr>) = can_pay w a d"
  by (simp_all add: find_wallet_def find_wallet_by_owner_def has_wallet_def balance_of_def
      total_balance_def fresh_tx_def flag_freeD can_pay_def
      new_id_def unsettled_def)

lemma pg_failed_clear [simp]: "\<not> pg_failed e (d\<lparr>tx_failed := False\<rparr>)"
  by (simp add: pg_failed_def)

section \<open>The operations keep every posting invariant\<close>

context posting_invariant begin

lemma keeps_charge: "keeps P (charge e wid a m)"
  unfolding charge_def
  by (auto intro!: keeps_transact_P ensures_guarded_debit keeps_throw)

lemma keeps_deposit: "keeps P (deposit e wid a m)"
  unfolding deposit_def
  by (auto intro!: keeps_transact_P ensures_insert_tx keeps_throw)

lemma keeps_admin_transfer: "keeps P (admin_transfer e src dst a m)"
  unfolding admin_transfer_def
  by (auto intro!: keeps_transact_P ensures_guarded_debit ensures_credit_then_record keeps_throw
      simp: ensures_ret ensures_throw simp del: split_paired_All)

lemma keeps_get_wallet: "keeps P (get_wallet e w)"
  unfolding get_wallet_def by (auto intro!: keeps_transact_P)

lemma keeps_get_wallet_by_owner: "keeps P (get_wallet_by_owner e w)"
  unfolding get_wallet_by_owner_def by (auto intro!: keeps_transact_P)

lemma keeps_session_spent: "keeps P (session_spent_cents_for_wallet e w s)"
  unfolding session_spent_cents_for_wallet_def by (auto intro!: keeps_transact_P)

lemma keeps_get_wallet_transactions: "keeps P (get_wallet_transactions e w n)"
  unfolding get_wallet_transactions_def by (auto intro!: keeps_transact_P)

end

context ledger_invariant begin

lemma keeps_updated_wallet: "keeps P (updated_wallet e wid n)"
  unfolding updated_wallet_def by auto

lemma keeps_set_wallet_daily_spend_limit: "keeps P (set_wallet_daily_spend_limit e wid l)"
  unfolding set_wallet_daily_spend_limit_def
  by (auto intro!: keeps_transact_P ensures_bindE ensures_rewriting keeps_ensures [OF keeps_updated_wallet])

lemma keeps_set_wallet_session_budget: "keeps P (set_wallet_session_budget e wid b r)"
  unfolding set_wallet_session_budget_def Let_def
  by (intro keeps_bindE keeps_case_option keeps_if keeps_transact_P ensures_bindE ensures_if
      keeps_ensures [OF keeps_updated_wallet] ensures_rewriting) (auto simp: keeps_ret keeps_throw)

lemma keeps_update_wallet_caller_trust: "keeps P (update_wallet_caller_trust e owner t)"
  unfolding update_wallet_caller_trust_def
  by (auto intro!: keeps_transact_P ensures_rewriting)


lemma wp_insert_wallet_new:
  assumes "P d" and "no_entries_of (uuid e k) d"
  shows "wp (insert_wallet e (new_wallet e k owner parent label)) (\<lambda>_. P) (\<lambda>_. P) d"
  using assms by (auto simp: wp_simps no_entries_of_def new_wallet_def intro!: new_row)

lemma get_or_create_wallet_keeps:
  assumes "P d" and "no_entries_of (uuid e 0) d"
  shows "wp (get_or_create_wallet e owner parent label) (\<lambda>_. P) (\<lambda>_. P) d"
proof -
  let ?d = "d\<lparr>tx_failed := False\<rparr>"
  have "wp (insert_wallet e (new_wallet e 0 owner parent label)) (\<lambda>_. P) (\<lambda>_. P) ?d"
    using assms by (intro wp_insert_wallet_new) simp_all
  then show ?thesis using assms
    by (auto simp: get_or_create_wallet_def wp_simps split: option.splits if_splits)
qed

end

section \<open>What the operations do\<close>

lemma sample_has_wallet [simp]:
  "has_wallet ''w1'' sample_db" "has_wallet ''w2'' sample_db" "has_wallet ''w3'' sample_db"
  "has_wallet ''w4'' sample_db"
  by (simp_all add: sample_defs has_wallet_def)

lemma sample_fresh [simp]: "fresh_tx (uuid (sample_env b) k) sample_db"
  by (simp add: sample_db_def sample_tx_def fresh_tx_def)

text \<open>
  An admin transfer between two existing wallets moves exactly the amount or nothing: when it
  returns, the source had the funds, the two balances moved by the amount, no other balance
  moved, the total is unchanged and the ledger still balances; otherwise the source was short,
  and wallets and ledger are as before.
\<close>

theorem admin_transfer_moves_money:
  assumes "ledger_ok d" and "0 < a" and "src \<noteq> dst" and "has_wallet src d" and "has_wallet dst d"
    and "fresh_tx (uuid e 0) d" and "fresh_tx (uuid e 1) d" and "uuid e 0 \<noteq> uuid e 1"
  shows "wp (admin_transfer e src dst a memo_text)
           (\<lambda>r d'. r = (uuid e 0, uuid e 1, a) \<and> a \<le> balance_of src d \<and> ledger_ok d' \<and>
                   balance_of src d' = balance_of src d - a \<and>
                   balance_of dst d' = balance_of dst d + a \<and>
                   (\<forall>w. w \<noteq> src \<longrightarrow> w \<noteq> dst \<longrightarrow> balance_of w d' = balance_of w d) \<and>
                   total_balance d' = total_balance d)
           (\<lambda>ex d'. ex = InsufficientBalanceError (balance_of src d) a \<and> balance_of src d < a \<and>
                   wallets d' = wallets d \<and> transactions d' = transactions d)
           d"
proof -
  obtain s where s: "find_wallet src d = Some s" "balance_cents s = balance_of src d"
    using assms(4) by (auto simp: has_wallet_find balance_of_def)
  obtain t where t: "find_wallet dst d = Some t" using assms(5) by (auto simp: has_wallet_find)
  show ?thesis
    using assms s t balance_of_nonneg [OF assms(1), of dst]
    by (simp add: admin_transfer_def wp_simps Let_def posting_simps)
qed

theorem admin_transfer_moves_money_witness:
  "wp (admin_transfer (sample_env Postgres) ''w1'' ''w3'' 120 ''payout'')
     (\<lambda>r d'. balance_of ''w1'' d' = balance_of ''w1'' sample_db - 120 \<and>
             balance_of ''w3'' d' = balance_of ''w3'' sample_db + 120)
     (\<lambda>_ _. balance_of ''w1'' sample_db < 120) sample_db"
  by (rule wp_post_mono [OF admin_transfer_moves_money]) simp_all

text \<open>
  A withdrawal from an existing wallet debits exactly what was asked, or raises
  \<open>InsufficientBalanceError\<close> with the balance and changes nothing; it never overdraws.
\<close>

theorem charge_never_overdraws:
  assumes "ledger_ok d" and "0 < a" and "has_wallet wid d" and "fresh_tx (uuid e 0) d"
  shows "wp (charge e wid a memo_text)
           (\<lambda>r d'. r = uuid e 0 \<and> a \<le> balance_of wid d \<and> ledger_ok d' \<and>
                   balance_of wid d' = balance_of wid d - a \<and> 0 \<le> balance_of wid d' \<and>
                   (\<forall>w. w \<noteq> wid \<longrightarrow> balance_of w d' = balance_of w d) \<and>
                   (\<exists>t. transactions d' = transactions d @ [t] \<and> amount_cents t = - a))
           (\<lambda>ex d'. ex = InsufficientBalanceError (balance_of wid d) a \<and> balance_of wid d < a \<and>
                   wallets d' = wallets d \<and> transactions d' = transactions d)
           d"
proof -
  obtain w where "find_wallet wid d = Some w" "balance_cents w = balance_of wid d"
    using assms(3) by (auto simp: has_wallet_find balance_of_def)
  then show ?thesis using assms by (simp add: charge_def wp_simps Let_def posting_simps)
qed

theorem charge_never_overdraws_witness:
  "wp (charge (sample_env SQLite) ''w1'' 501 ''withdraw'') (\<lambda>_ _. 501 \<le> balance_of ''w1'' sample_db)
     (\<lambda>ex _. ex = InsufficientBalanceError (balance_of ''w1'' sample_db) 501) sample_db"
  by (rule wp_post_mono [OF charge_never_overdraws]) simp_all

text \<open>
  A deposit credits the wallet and nobody else, and refuses amounts that are not positive or
  that exceed 1,000,000 cents without touching the ledger.
\<close>

theorem deposit_credits_once:
  assumes "ledger_ok d" and "has_wallet wid d" and "fresh_tx (uuid e 0) d"
  shows "wp (deposit e wid a memo_text)
           (\<lambda>r d'. 0 < a \<and> a \<le> 1000000 \<and> r = uuid e 0 \<and> ledger_ok d' \<and>
                   (\<forall>w. balance_of w d' = balance_of w d + (if w = wid then a else 0)))
           (\<lambda>ex d'. (a \<le> 0 \<or> 1000000 < a) \<and> is_value_error ex \<and> d' = d)
           d"
proof -
  obtain w where "find_wallet wid d = Some w" using assms(2) by (auto simp: has_wallet_find)
  then show ?thesis using assms balance_of_nonneg [OF assms(1), of wid]
    by (auto simp: deposit_def wp_simps Let_def posting_simps)
qed

theorem deposit_credits_once_witness:
  "wp (deposit (sample_env SQLite) ''w2'' 75 ''top up'')
     (\<lambda>_ d'. balance_of ''w2'' d' = balance_of ''w2'' sample_db + 75) (\<lambda>_ _. False) sample_db"
  by (rule wp_post_mono [OF deposit_credits_once]) simp_all

text \<open>
  Creating a wallet is idempotent: a second call for the same owner, whatever parent and label
  it asks for, returns the wallet of the first and changes neither wallets nor ledger.
\<close>

theorem get_or_create_wallet_idempotent:
  assumes "get_or_create_wallet e owner parent label d = (Inr w, d')"
  shows "wp (get_or_create_wallet e2 owner parent2 label2)
           (\<lambda>w2 d2. w2 = w \<and> wallets d2 = wallets d' \<and> transactions d2 = transactions d')
           (\<lambda>_ _. False) d'"
proof -
  have "wp (get_or_create_wallet e owner parent label)
      (\<lambda>w d'. find_wallet_by_owner owner d' = Some w) (\<lambda>_ _. True) d"
    by (auto simp: get_or_create_wallet_def wp_simps find_wallet_by_owner_def new_wallet_def
        find_append split: option.splits)
  then have "find_wallet_by_owner owner d' = Some w" using assms by (simp add: wp_def)
  then show ?thesis by (simp add: get_or_create_wallet_def wp_simps)
qed

theorem get_or_create_wallet_idempotent_witness:
  "wp (get_or_create_wallet (sample_env Postgres) ''user:alice'' (Some ''w9'') None)
     (\<lambda>w _. w = sample_caller) (\<lambda>_ _. False) sample_db"
proof -
  have "get_or_create_wallet (sample_env Postgres) ''user:alice'' None None sample_db =
      (Inr sample_caller, sample_db)"
    by (simp add: get_or_create_wallet_def op_defs sample_defs)
  from get_or_create_wallet_idempotent [OF this] show ?thesis by (rule wp_post_mono) auto
qed

end
