(* ===== verification/Precall.thy ===== *)
theory Precall
  imports Wallets
begin

text \<open>
  \<open>pre_call_charge\<close> of \<open>core/payments/base.py\<close>: the charge taken before a call, with the owner
  backstop, the per-key cap, the daily limit and the session budget. The row locks of the
  PostgreSQL branch order concurrent transactions and change no row.
\<close>

definition validate_pre_call_params ::
  "int \<Rightarrow> string option \<Rightarrow> int option \<Rightarrow> string + (string option \<times> int option)" where
  "validate_pre_call_params price key max_spend =
     (if price < 0 then Inl ''price_cents must be non-negative.''
      else let normalized_key_id = none_if_empty (py_strip (or_empty key)) in
      case max_spend of
        None \<Rightarrow> Inr (normalized_key_id, None)
      | Some m \<Rightarrow> if m < 0 then Inl ''max_spend_cents must be >= 0.''
                  else Inr (normalized_key_id, Some m))"

text \<open>\<open>LIKE 'prefix%'\<close>: SQLite compares ASCII letters without case, PostgreSQL exactly.\<close>

definition sql_like_prefix :: "env \<Rightarrow> string \<Rightarrow> string \<Rightarrow> bool" where
  "sql_like_prefix e pre text =
     (case backend e of SQLite \<Rightarrow> prefix (py_lower pre) (py_lower text) | Postgres \<Rightarrow> prefix pre text)"

definition day_start :: "env \<Rightarrow> int" where
  "day_start e = now e - now e mod micros_per_day"

definition guarantor_used_today :: "env \<Rightarrow> string \<Rightarrow> db \<Rightarrow> int" where
  "guarantor_used_today e wid d =
     sum_where (\<lambda>t. tx_wallet_id t = wid \<and> tx_kind t = Deposit \<and>
                   sql_like_prefix e ''guarantor:'' (memo t) \<and> day_start e \<le> tx_created_at t)
       amount_cents (transactions d)"

definition backstop_charge_memo :: "string \<Rightarrow> string \<Rightarrow> string" where
  "backstop_charge_memo wid agent =
     ''guarantor: backstop for '' @ take 8 wid @ '' call to '' @ agent"

definition backstop_deposit_memo :: "string \<Rightarrow> string" where
  "backstop_deposit_memo parent = ''guarantor: from parent '' @ take 8 parent"

definition shortfall :: "wallet \<Rightarrow> int \<Rightarrow> int" where
  "shortfall w price = price - balance_cents w"

definition owner_backstop :: "env \<Rightarrow> wallet \<Rightarrow> int \<Rightarrow> string \<Rightarrow> (db, unit) prog" where
  "owner_backstop e w price agent =
     (case parent_wallet_id w of
        None \<Rightarrow> ret ()
      | Some parent \<Rightarrow>
          if balance_cents w < price \<and> parent \<noteq> [] \<and> guarantor_enabled w then
            bindE (select e (guarantor_used_today e (wallet_id w))) (\<lambda>used_today.
            let available_cap = (case guarantor_cap_cents w of None \<Rightarrow> None
                                 | Some cap \<Rightarrow> Some (max 0 (cap - used_today))) in
            if (case available_cap of None \<Rightarrow> False | Some c \<Rightarrow> c < shortfall w price) then ret ()
            else
              bindE (select e (balance_of parent)) (\<lambda>parent_balance.
              if shortfall w price \<le> parent_balance then
                bindE (insert_tx e 0 parent Charge (- shortfall w price) (Some agent) None
                         (backstop_charge_memo (wallet_id w) agent) None) (\<lambda>_.
                bindE (insert_tx e 1 (wallet_id w) Deposit (shortfall w price) (Some agent) None
                         (backstop_deposit_memo parent) None) (\<lambda>_.
                ret ()))
              else ret ()))
          else ret ())"

definition check_key_spend_cap ::
  "env \<Rightarrow> string \<Rightarrow> string option \<Rightarrow> int option \<Rightarrow> int \<Rightarrow> (db, unit) prog" where
  "check_key_spend_cap e wid key max_spend price =
     (case (key, max_spend) of
        (Some k, Some m) \<Rightarrow>
          bindE (select e (net_spent wid (\<lambda>t. charged_by_key_id t = Some k))) (\<lambda>spent.
          let spent = max 0 spent in
          raise_if (m < spent + price) (KeySpendLimitExceededError m spent price))
      | _ \<Rightarrow> ret ())"

definition check_daily_limit :: "env \<Rightarrow> wallet \<Rightarrow> int \<Rightarrow> (db, unit) prog" where
  "check_daily_limit e w price =
     (case daily_spend_limit_cents w of
        None \<Rightarrow> ret ()
      | Some limit \<Rightarrow>
          if 0 < price then
            bindE (select e (net_spent (wallet_id w) (\<lambda>t. now e - 24 * micros_per_hour \<le> tx_created_at t))) (\<lambda>spent.
            let spent = max 0 spent in
            raise_if (limit < spent + price) (WalletDailySpendLimitExceededError limit spent price))
          else ret ())"

definition check_session_budget :: "env \<Rightarrow> wallet \<Rightarrow> int \<Rightarrow> (db, unit) prog" where
  "check_session_budget e w price =
     (case session_budget_cents w of
        None \<Rightarrow> ret ()
      | Some budget \<Rightarrow>
          if 0 < price then
            let window_start = (case session_budget_set_at w of None \<Rightarrow> now e | Some s \<Rightarrow> s) in
            bindE (select e (net_spent (wallet_id w) (\<lambda>t. window_start \<le> tx_created_at t))) (\<lambda>spent.
            let spent = max 0 spent in
            raise_if (budget < spent + price) (WalletSessionBudgetExceededError budget spent price))
          else ret ())"

definition pre_call_charge ::
  "env \<Rightarrow> string \<Rightarrow> int \<Rightarrow> string \<Rightarrow> string option \<Rightarrow> int option \<Rightarrow> (db, string) prog" where
  "pre_call_charge e wid price agent key max_spend =
     (case validate_pre_call_params price key max_spend of
        Inl msg \<Rightarrow> throw (ValueError msg)
      | Inr (normalized_key_id, normalized_max_spend) \<Rightarrow>
          transact
            (bindE (select e (find_wallet wid)) (\<lambda>row.
             case row of
               None \<Rightarrow> throw (ValueError ''Wallet not found.'')
             | Some w \<Rightarrow>
                 bindE (owner_backstop e w price agent) (\<lambda>_.
                 bindE (check_key_spend_cap e wid normalized_key_id normalized_max_spend price) (\<lambda>_.
                 bindE (check_daily_limit e w price) (\<lambda>_.
                 bindE (check_session_budget e w price) (\<lambda>_.
                 guarded_debit e 2 wid price
                   (bindE (select e (balance_of wid)) (\<lambda>current.
                    throw (InsufficientBalanceError current price)))
                   (Some agent) None (''Call to agent '' @ agent) normalized_key_id))))))) "

context posting_invariant begin

lemma ensures_owner_backstop: "ensures P (owner_backstop e w price agent)"
  unfolding owner_backstop_def Let_def
  by (intro ensures_case_option ensures_if ensures_bindE ensures_select ensures_insert_tx ensures_ret)

lemma ensures_checks:
  "ensures P (check_key_spend_cap e wid k m price)"
  "ensures P (check_daily_limit e w price)"
  "ensures P (check_session_budget e w price)"
  unfolding check_key_spend_cap_def check_daily_limit_def check_session_budget_def Let_def
  by (auto split: option.splits)

lemma keeps_pre_call_charge: "keeps P (pre_call_charge e wid price agent key max_spend)"
  unfolding pre_call_charge_def
  by (auto intro!: keeps_transact_P ensures_guarded_debit ensures_owner_backstop ensures_checks
      keeps_throw split: sum.split)

end

section \<open>What a charge does\<close>

lemma sample_find_wallet:
  "find_wallet ''w1'' sample_db = Some sample_caller" "find_wallet ''w4'' sample_db = Some sample_child"
  by (simp_all add: sample_defs find_wallet_def)


lemma balance_of_pos: "0 < balance_of p d \<Longrightarrow> has_wallet p d"
  by (auto simp: balance_of_def has_wallet_find split: option.splits)

definition backstop_entries :: "env \<Rightarrow> wallet \<Rightarrow> int \<Rightarrow> string \<Rightarrow> string \<Rightarrow> db \<Rightarrow> db" where
  "backstop_entries e w price agent parent d =
     (let d1 = post (tx_entry e 0 parent Charge (- shortfall w price) (Some agent) None
                       (backstop_charge_memo (wallet_id w) agent) None d) d
      in post (tx_entry e 1 (wallet_id w) Deposit (shortfall w price) (Some agent) None
                 (backstop_deposit_memo parent) None d1) d1)"

definition backstopped :: "env \<Rightarrow> wallet \<Rightarrow> int \<Rightarrow> string \<Rightarrow> db \<Rightarrow> bool" where
  "backstopped e w price parent d \<longleftrightarrow>
     parent_wallet_id w = Some parent \<and> guarantor_enabled w \<and> 0 < shortfall w price \<and>
     (\<forall>cap. guarantor_cap_cents w = Some cap \<longrightarrow>
        guarantor_used_today e (wallet_id w) d + shortfall w price \<le> cap) \<and>
     shortfall w price \<le> balance_of parent d"

lemma wp_owner_backstop:
  assumes "ledger_ok d" and "\<not> pg_failed e d" and "Q () d" and "\<And>ex d'. E ex d'"
    and "\<And>parent. backstopped e w price parent d \<Longrightarrow>
           new_id (uuid e 0) d \<Longrightarrow> new_id (uuid e 1) d \<Longrightarrow> uuid e 1 \<noteq> uuid e 0 \<Longrightarrow>
           Q () (backstop_entries e w price agent parent d)"
  shows "wp (owner_backstop e w price agent) Q E d"
proof (cases "\<exists>parent. parent_wallet_id w = Some parent \<and> guarantor_enabled w \<and> 0 < shortfall w price")
  case False
  then show ?thesis using assms(3)
    by (auto simp: owner_backstop_def wp_simps shortfall_def split: option.split)
next
  case True
  then obtain parent where p: "parent_wallet_id w = Some parent" "guarantor_enabled w"
    "0 < shortfall w price" by blast
  have b: "balance_cents w < price" using p by (simp add: shortfall_def)
  have h: "has_wallet parent d" if "shortfall w price \<le> balance_of parent d"
    using that p(3) by (intro balance_of_pos) simp
  have q: "Q () (backstop_entries e w price agent parent d)"
    if "\<forall>cap. guarantor_cap_cents w = Some cap \<longrightarrow> guarantor_used_today e (wallet_id w) d + shortfall w price \<le> cap"
      "shortfall w price \<le> balance_of parent d" "new_id (uuid e 0) d" "new_id (uuid e (Suc 0)) d"
      "uuid e (Suc 0) \<noteq> uuid e 0"
    using that p by (intro assms(5)) (simp_all add: backstopped_def)
  show ?thesis
    using assms(1-4) p b h q [unfolded backstop_entries_def Let_def]
    by (auto simp: owner_backstop_def wp_simps Let_def posting_simps eq_commute [of "uuid e 0"] split: option.splits)
qed

lemma ledger_ok_backstop:
  assumes "ledger_ok d" and "backstopped e w price parent d"
    and "new_id (uuid e 0) d" "new_id (uuid e 1) d" "uuid e 1 \<noteq> uuid e 0"
  shows "ledger_ok (backstop_entries e w price agent parent d)"
  using assms balance_of_nonneg [OF assms(1), of "wallet_id w"]
  by (auto simp: backstop_entries_def Let_def posting_simps backstopped_def)

lemma backstop_entries_frame [simp]:
  "has_wallet v (backstop_entries e w price agent parent d) = has_wallet v d"
  "tx_failed (backstop_entries e w price agent parent d) = tx_failed d"
  "pg_failed e (backstop_entries e w price agent parent d) = pg_failed e d"
  by (simp_all add: backstop_entries_def Let_def)

lemma balance_of_backstop:
  assumes "ledger_ok d" and "backstopped e w price parent d"
  shows "balance_of v (backstop_entries e w price agent parent d) =
    balance_of v d - (if v = parent then shortfall w price else 0) +
      (if v = wallet_id w \<and> has_wallet v d then shortfall w price else 0)"
proof -
  have "has_wallet parent d"
    using assms(2) by (intro balance_of_pos) (auto simp: backstopped_def)
  then show ?thesis by (auto simp: backstop_entries_def Let_def posting_simps)
qed

lemma total_balance_backstop:
  assumes "ledger_ok d" and "backstopped e w price parent d" and "has_wallet (wallet_id w) d"
    and "new_id (uuid e 0) d" "new_id (uuid e 1) d" "uuid e 1 \<noteq> uuid e 0"
  shows "total_balance (backstop_entries e w price agent parent d) = total_balance d"
proof -
  have "has_wallet parent d"
    using assms(2) by (intro balance_of_pos) (auto simp: backstopped_def)
  then show ?thesis using assms by (simp add: backstop_entries_def Let_def posting_simps backstopped_def)
qed

lemma backstopped_flag [simp]:
  "backstopped e w price parent (d\<lparr>tx_failed := b\<rparr>) = backstopped e w price parent d"
  by (simp add: backstopped_def guarantor_used_today_def)

text \<open>The checks pass or raise: what is left when they pass.\<close>

definition within_key_cap :: "string \<Rightarrow> string option \<Rightarrow> int option \<Rightarrow> int \<Rightarrow> db \<Rightarrow> bool" where
  "within_key_cap wid key max_spend extra d \<longleftrightarrow>
     (\<forall>k m. key = Some k \<longrightarrow> max_spend = Some m \<longrightarrow>
        max 0 (net_spent wid (\<lambda>t. charged_by_key_id t = Some k) d) + extra \<le> m)"

definition within_daily_limit :: "env \<Rightarrow> wallet \<Rightarrow> int \<Rightarrow> db \<Rightarrow> bool" where
  "within_daily_limit e w extra d \<longleftrightarrow>
     (\<forall>l. daily_spend_limit_cents w = Some l \<longrightarrow>
        max 0 (net_spent (wallet_id w) (\<lambda>t. now e - 24 * micros_per_hour \<le> tx_created_at t) d) + extra \<le> l)"

definition within_session_budget :: "env \<Rightarrow> wallet \<Rightarrow> int \<Rightarrow> db \<Rightarrow> bool" where
  "within_session_budget e w extra d \<longleftrightarrow>
     (\<forall>b. session_budget_cents w = Some b \<longrightarrow>
        max 0 (net_spent (wallet_id w)
          (\<lambda>t. (case session_budget_set_at w of None \<Rightarrow> now e | Some s \<Rightarrow> s) \<le> tx_created_at t) d) + extra \<le> b)"

lemma wp_check_key_spend_cap:
  "\<not> pg_failed e d \<Longrightarrow> (within_key_cap wid k m price d \<Longrightarrow> Q () d) \<Longrightarrow> (\<And>ex. E ex d) \<Longrightarrow>
   wp (check_key_spend_cap e wid k m price) Q E d"
  by (auto simp: check_key_spend_cap_def within_key_cap_def wp_simps Let_def split: option.split)

lemma wp_check_daily_limit:
  "\<not> pg_failed e d \<Longrightarrow> ((0 < price \<longrightarrow> within_daily_limit e w price d) \<Longrightarrow> Q () d) \<Longrightarrow> (\<And>ex. E ex d) \<Longrightarrow>
   wp (check_daily_limit e w price) Q E d"
  by (auto simp: check_daily_limit_def within_daily_limit_def wp_simps Let_def split: option.split)

lemma wp_check_session_budget:
  "\<not> pg_failed e d \<Longrightarrow> ((0 < price \<longrightarrow> within_session_budget e w price d) \<Longrightarrow> Q () d) \<Longrightarrow> (\<And>ex. E ex d) \<Longrightarrow>
   wp (check_session_budget e w price) Q E d"
  by (auto simp: check_session_budget_def within_session_budget_def wp_simps Let_def split: option.split)

text \<open>
  The rule for a charge: what holds after it returns is what holds after posting the charge, to the
  state as it was or as the backstop left it, within every limit.
\<close>

definition call_entry :: "env \<Rightarrow> string \<Rightarrow> int \<Rightarrow> string \<Rightarrow> string option \<Rightarrow> db \<Rightarrow> txn" where
  "call_entry e wid price agent key d =
     tx_entry e 2 wid Charge (- price) (Some agent) None (''Call to agent '' @ agent) key d"

definition charge_ready ::
  "env \<Rightarrow> string \<Rightarrow> wallet \<Rightarrow> int \<Rightarrow> string \<Rightarrow> string option \<Rightarrow> int option \<Rightarrow> db \<Rightarrow> bool" where
  "charge_ready e wid w price agent k m d1 \<longleftrightarrow>
     ledger_ok d1 \<and> \<not> tx_failed d1 \<and> within_key_cap wid k m price d1 \<and>
     (0 < price \<longrightarrow> within_daily_limit e w price d1) \<and>
     (0 < price \<longrightarrow> within_session_budget e w price d1) \<and> can_pay wid price d1 \<and>
     tx_insertable (call_entry e wid price agent k d1) d1"

lemma wp_charge_steps:
  assumes "ledger_ok d1" and "\<not> tx_failed d1" and "\<And>ex d'. E ex d'"
    and "charge_ready e wid w price agent k m d1 \<Longrightarrow>
      Q (uuid e 2) (post (call_entry e wid price agent k d1) d1)"
  shows "wp (bindE (check_key_spend_cap e wid k m price) (\<lambda>_.
             bindE (check_daily_limit e w price) (\<lambda>_.
             bindE (check_session_budget e w price) (\<lambda>_.
             guarded_debit e 2 wid price
               (bindE (select e (balance_of wid)) (\<lambda>current.
                throw (InsufficientBalanceError current price)))
               (Some agent) None (''Call to agent '' @ agent) k)))) Q E d1"
proof -
  have "\<not> pg_failed e d1" using assms(2) by (simp add: pg_failed_def)
  then show ?thesis using assms unfolding wp_bindE
    by (intro wp_check_key_spend_cap wp_check_daily_limit wp_check_session_budget)
      (simp_all add: wp_simps Let_def charge_ready_def call_entry_def)
qed

lemma wp_pre_call_charge:
  assumes "ledger_ok d" and "find_wallet wid d = Some w" and "\<And>ex. E ex d"
    and "\<And>ex. E ex (d\<lparr>tx_failed := False\<rparr>)"
    and "\<And>d1 k m. validate_pre_call_params price key max_spend = Inr (k, m) \<Longrightarrow>
      charge_ready e wid w price agent k m d1 \<Longrightarrow>
      d1 = d\<lparr>tx_failed := False\<rparr> \<or>
      (\<exists>parent. backstopped e w price parent d \<and>
          new_id (uuid e 0) d \<and> new_id (uuid e 1) d \<and> uuid e 1 \<noteq> uuid e 0 \<and>
          d1 = backstop_entries e w price agent parent (d\<lparr>tx_failed := False\<rparr>)) \<Longrightarrow>
      Q (uuid e 2) (post (call_entry e wid price agent k d1) d1)"
  shows "wp (pre_call_charge e wid price agent key max_spend) Q E d"
proof (cases "validate_pre_call_params price key max_spend")
  case (Inl msg)
  then show ?thesis using assms(3) by (simp add: pre_call_charge_def wp_simps)
next
  case (Inr km)
  obtain k m where km: "km = (k, m)" by (cases km)
  let ?d = "d\<lparr>tx_failed := False\<rparr>"
  let ?R = "\<lambda>d1. d1 = ?d \<or> (\<exists>parent. backstopped e w price parent d \<and>
      new_id (uuid e 0) d \<and> new_id (uuid e 1) d \<and> uuid e 1 \<noteq> uuid e 0 \<and>
      d1 = backstop_entries e w price agent parent ?d)"
  have steps: "wp (bindE (check_key_spend_cap e wid k m price) (\<lambda>_.
             bindE (check_daily_limit e w price) (\<lambda>_.
             bindE (check_session_budget e w price) (\<lambda>_.
             guarded_debit e 2 wid price
               (bindE (select e (balance_of wid)) (\<lambda>current.
                throw (InsufficientBalanceError current price)))
               (Some agent) None (''Call to agent '' @ agent) k))))
       (\<lambda>x d'. Q x (if tx_failed d' then ?d else d')) (\<lambda>ex _. E ex ?d) d1"
    if "?R d1" "ledger_ok d1" "\<not> tx_failed d1" for d1
    using that assms(4) assms(5) [OF _ _ that(1)] Inr km
    by (intro wp_charge_steps) (auto simp: charge_ready_def)
  have "wp (owner_backstop e w price agent) (\<lambda>_. wp (bindE (check_key_spend_cap e wid k m price) (\<lambda>_.
             bindE (check_daily_limit e w price) (\<lambda>_.
             bindE (check_session_budget e w price) (\<lambda>_.
             guarded_debit e 2 wid price
               (bindE (select e (balance_of wid)) (\<lambda>current.
                throw (InsufficientBalanceError current price)))
               (Some agent) None (''Call to agent '' @ agent) k))))
       (\<lambda>x d'. Q x (if tx_failed d' then ?d else d')) (\<lambda>ex _. E ex ?d)) (\<lambda>ex _. E ex ?d) ?d"
    using assms(1,4)
    by (intro wp_owner_backstop steps) (auto intro: ledger_ok_backstop)
  then show ?thesis using assms(2) Inr km
    by (simp add: pre_call_charge_def wp_transact wp_bindE wp_select)
qed

lemma net_spent_post:
  "net_spent wid p (post t d) = net_spent wid p d +
     (if tx_wallet_id t = wid \<and> (tx_kind t = Charge \<or> tx_kind t = Refund) \<and> p t
      then - amount_cents t else 0)"
  by (simp add: net_spent_def)

lemma call_entry_simps [simp]:
  "tx_wallet_id (call_entry e wid price agent key d) = wid"
  "tx_kind (call_entry e wid price agent key d) = Charge"
  "amount_cents (call_entry e wid price agent key d) = - price"
  "related_tx_id (call_entry e wid price agent key d) = None"
  "tx_created_at (call_entry e wid price agent key d) = now e"
  "tx_id (call_entry e wid price agent key d) = uuid e 2"
  by (simp_all add: call_entry_def)

lemma validated_price: "validate_pre_call_params price key m = Inr r \<Longrightarrow> 0 \<le> price"
  by (auto simp: validate_pre_call_params_def split: if_splits)

text \<open>
  C9. The spend limits hold after every paid call that is admitted: with the call itself counted,
  the wallet's net spend of the last 24 hours is within its daily limit, its spend since the
  session started within the session budget, and the spend of the API key within the key's cap.
  A call that is refused leaves wallets and ledger as they were.
\<close>

theorem pre_call_charge_within_limits:
  assumes "ledger_ok d" and "find_wallet wid d = Some w" and "0 < price"
  shows "wp (pre_call_charge e wid price agent key max_spend)
           (\<lambda>_ d'. within_daily_limit e w 0 d' \<and> within_session_budget e w 0 d' \<and>
                   within_key_cap wid (none_if_empty (py_strip (or_empty key))) max_spend 0 d')
           (\<lambda>_ d'. wallets d' = wallets d \<and> transactions d' = transactions d) d"
proof (rule wp_pre_call_charge [OF assms(1,2)])
  fix d1 k m
  assume v: "validate_pre_call_params price key max_spend = Inr (k, m)"
    and r: "charge_ready e wid w price agent k m d1"
  let ?t = "call_entry e wid price agent k d1"
  have w: "wallet_id w = wid" using assms(2) by (rule find_wallet_id)
  have k: "k = none_if_empty (py_strip (or_empty key))" "m = max_spend"
    using v by (auto simp: validate_pre_call_params_def Let_def split: if_splits option.splits)
  have key: "charged_by_key_id ?t = k" if "k \<noteq> None"
    using that k by (auto simp: call_entry_def tx_entry_def resolved_key_def or_empty_def
        none_if_empty_def split: if_splits)
  show "within_daily_limit e w 0 (post ?t d1) \<and> within_session_budget e w 0 (post ?t d1) \<and>
      within_key_cap wid (none_if_empty (py_strip (or_empty key))) max_spend 0 (post ?t d1)"
    using r assms(3) key unfolding k [symmetric]
    by (fastforce simp: charge_ready_def within_daily_limit_def within_session_budget_def
        within_key_cap_def net_spent_post w)
qed simp_all

theorem pre_call_charge_within_limits_witness:
  "wp (pre_call_charge (sample_env SQLite) ''w1'' 300 ''bob'' (Some ''k1'') (Some 350))
     (\<lambda>_ d'. within_session_budget (sample_env SQLite) sample_caller 0 d')
     (\<lambda>_ d'. transactions d' = transactions sample_db) sample_db"
  by (rule wp_post_mono [OF pre_call_charge_within_limits [OF sample_ledger_ok sample_find_wallet(1)]])
    simp_all

text \<open>
  C8. A charge costs the platform's books exactly the price: the total of all balances falls by the
  price, the caller's balance falls by the price but never below zero, and what the caller lacked
  comes from the parent wallet, which must have enabled the guarantee, must have the funds, and
  gives within its daily cap. No other balance moves.
\<close>

theorem pre_call_charge_accounts:
  assumes "ledger_ok d" and "find_wallet wid d = Some w" and "parent_wallet_id w \<noteq> Some wid"
  shows "wp (pre_call_charge e wid price agent key max_spend)
           (\<lambda>r d'. ledger_ok d' \<and> total_balance d' = total_balance d - price \<and>
              balance_of wid d' = max 0 (balance_of wid d - price) \<and>
              (if price \<le> balance_of wid d
               then \<forall>v. v \<noteq> wid \<longrightarrow> balance_of v d' = balance_of v d
               else \<exists>p. parent_wallet_id w = Some p \<and> guarantor_enabled w \<and>
                     balance_of p d' = balance_of p d - (price - balance_of wid d) \<and> 0 \<le> balance_of p d' \<and>
                     (\<forall>cap. guarantor_cap_cents w = Some cap \<longrightarrow>
                        guarantor_used_today e wid d + (price - balance_of wid d) \<le> cap) \<and>
                     (\<forall>v. v \<noteq> wid \<longrightarrow> v \<noteq> p \<longrightarrow> balance_of v d' = balance_of v d)))
           (\<lambda>_ d'. wallets d' = wallets d \<and> transactions d' = transactions d) d"
proof (rule wp_pre_call_charge [OF assms(1,2)])
  fix d1 k m
  assume v: "validate_pre_call_params price key max_spend = Inr (k, m)"
    and r: "charge_ready e wid w price agent k m d1"
    and d1: "d1 = d\<lparr>tx_failed := False\<rparr> \<or> (\<exists>parent. backstopped e w price parent d \<and>
      new_id (uuid e 0) d \<and> new_id (uuid e 1) d \<and> uuid e 1 \<noteq> uuid e 0 \<and>
      d1 = backstop_entries e w price agent parent (d\<lparr>tx_failed := False\<rparr>))"
  let ?t = "call_entry e wid price agent k d1"
  have p: "0 \<le> price" using v by (rule validated_price)
  have w: "wallet_id w = wid" and b: "balance_cents w = balance_of wid d" and h: "has_wallet wid d"
    using assms(2) by (auto simp: balance_of_def has_wallet_find dest: find_wallet_id)
  have l1: "ledger_ok d1" and pay: "has_wallet wid d1" "price \<le> balance_of wid d1"
    and i: "tx_insertable ?t d1"
    using r by (auto simp: charge_ready_def can_pay_iff)
  have l2: "ledger_ok (post ?t d1)" using l1 pay i by (simp add: posting_simps)
  from d1 show "ledger_ok (post ?t d1) \<and> total_balance (post ?t d1) = total_balance d - price \<and>
      balance_of wid (post ?t d1) = max 0 (balance_of wid d - price) \<and>
      (if price \<le> balance_of wid d
       then \<forall>v. v \<noteq> wid \<longrightarrow> balance_of v (post ?t d1) = balance_of v d
       else \<exists>p. parent_wallet_id w = Some p \<and> guarantor_enabled w \<and>
          balance_of p (post ?t d1) = balance_of p d - (price - balance_of wid d) \<and>
          0 \<le> balance_of p (post ?t d1) \<and>
          (\<forall>cap. guarantor_cap_cents w = Some cap \<longrightarrow>
             guarantor_used_today e wid d + (price - balance_of wid d) \<le> cap) \<and>
          (\<forall>v. v \<noteq> wid \<longrightarrow> v \<noteq> p \<longrightarrow> balance_of v (post ?t d1) = balance_of v d))"
  proof (elim disjE exE conjE)
    assume "d1 = d\<lparr>tx_failed := False\<rparr>"
    then show ?thesis using l1 l2 pay h by (auto simp: posting_simps)
  next
    fix parent assume q: "backstopped e w price parent d" "new_id (uuid e 0) d" "new_id (uuid e 1) d"
      "uuid e 1 \<noteq> uuid e 0" and e: "d1 = backstop_entries e w price agent parent (d\<lparr>tx_failed := False\<rparr>)"
    have s: "shortfall w price = price - balance_of wid d" by (simp add: shortfall_def b)
    have tot: "total_balance d1 = total_balance d"
      using total_balance_backstop [of "d\<lparr>tx_failed := False\<rparr>" e w price parent agent] q assms(1) h
      by (simp add: e w)
    have bal: "balance_of v d1 = balance_of v d - (if v = parent then price - balance_of wid d else 0) +
        (if v = wid \<and> has_wallet v d then price - balance_of wid d else 0)" for v
      using balance_of_backstop [of "d\<lparr>tx_failed := False\<rparr>" e w price parent v agent] q(1) assms(1) h
      by (auto simp: e w s)
    have ne: "parent \<noteq> wid" using q(1) assms(3) by (auto simp: backstopped_def)
    have cap: "parent_wallet_id w = Some parent" "guarantor_enabled w" "balance_of wid d < price"
      "price - balance_of wid d \<le> balance_of parent d"
      "\<forall>cap. guarantor_cap_cents w = Some cap \<longrightarrow>
             guarantor_used_today e wid d + (price - balance_of wid d) \<le> cap"
      using q(1) by (auto simp: backstopped_def s w)
    show ?thesis using l1 l2 pay h tot cap ne balance_of_nonneg [OF assms(1)]
      by (auto simp: posting_simps bal)
  qed
qed simp_all

theorem pre_call_charge_accounts_witness:
  "wp (pre_call_charge (sample_env Postgres) ''w4'' 120 ''bob'' None None)
     (\<lambda>_ d'. total_balance d' = total_balance sample_db - 120)
     (\<lambda>_ d'. transactions d' = transactions sample_db) sample_db"
  by (rule wp_post_mono [OF pre_call_charge_accounts [OF sample_ledger_ok sample_find_wallet(2)]])
    (simp_all add: sample_defs)

text \<open>
  A free call is never blocked by a spend limit: whatever the daily limit and the session
  budget, a call at price 0 without a key cap is admitted and leaves every balance as it is.
\<close>

theorem free_call_admitted:
  assumes "ledger_ok d" and "has_wallet wid d" and "fresh_tx (uuid e 2) d"
  shows "wp (pre_call_charge e wid 0 agent key None)
           (\<lambda>r d'. r = uuid e 2 \<and> (\<forall>v. balance_of v d' = balance_of v d)) (\<lambda>_ _. False) d"
proof -
  obtain w where w: "find_wallet wid d = Some w" using assms(2) by (auto simp: has_wallet_find)
  have b: "0 \<le> balance_cents w" using assms(1) w by (auto dest: find_wallet_in ledger_okD(4))
  have "wp (owner_backstop e w 0 agent) Q E d1 = Q () d1" for Q E d1
    using b by (auto simp: owner_backstop_def wp_simps split: option.split)
  moreover have "check_daily_limit e w 0 = ret ()" "check_session_budget e w 0 = ret ()"
    "check_key_spend_cap e wid k None 0 = ret ()" for k
    by (auto simp: check_daily_limit_def check_session_budget_def check_key_spend_cap_def
        split: option.split)
  ultimately show ?thesis using assms w balance_of_nonneg [OF assms(1), of wid]
    by (simp add: pre_call_charge_def validate_pre_call_params_def wp_simps Let_def posting_simps)
qed

theorem free_call_admitted_witness:
  "wp (pre_call_charge (sample_env Postgres) ''w1'' 0 ''bob'' (Some ''k1'') None)
     (\<lambda>r d'. balance_of ''w1'' d' = balance_of ''w1'' sample_db) (\<lambda>_ _. False) sample_db"
  by (rule wp_post_mono [OF free_call_admitted]) simp_all

end
