(* ===== verification/Reservations.thy ===== *)
theory Reservations
  imports Wallets
begin

text \<open>
  The contract that agent holds and caller escrows share: a table of reservations whose active
  amounts are cached, per wallet, in the one column \<open>wallets.held_cents\<close>.
\<close>

definition add_held :: "int \<Rightarrow> wallet \<Rightarrow> wallet" where
  "add_held a w = w\<lparr>held_cents := held_cents w + a\<rparr>"

declare add_held_def [op_defs]

lemma add_held_simps [simp]:
  "wallet_id (add_held a w) = wallet_id w" "balance_cents (add_held a w) = balance_cents w"
  "held_cents (add_held a w) = held_cents w + a" "owner_id (add_held a w) = owner_id w"
  "wallet_check (add_held a w) = wallet_check w"
  by (simp_all add: add_held_def wallet_check_def)

text \<open>
  \<open>held_cache rows key owner amount active extra d\<close>: every wallet's \<open>held_cents\<close> is the sum of its
  active rows and of what \<open>extra\<close> says the other table reserves.
\<close>

definition held_cache ::
  "(db \<Rightarrow> 'r list) \<Rightarrow> ('r \<Rightarrow> string) \<Rightarrow> ('r \<Rightarrow> string) \<Rightarrow> ('r \<Rightarrow> int) \<Rightarrow> ('r \<Rightarrow> bool) \<Rightarrow> (string \<Rightarrow> int) \<Rightarrow> db \<Rightarrow> bool" where
  "held_cache rows key owner amount active extra d \<longleftrightarrow>
     distinct (map wallet_id (wallets d)) \<and> distinct (map key (rows d)) \<and>
     (\<forall>r\<in>set (rows d). 0 < amount r) \<and>
     (\<forall>w\<in>set (wallets d). wallet_check w \<and> held_cents w =
        sum_where (\<lambda>r. owner r = wallet_id w \<and> active r) amount (rows d) + extra (wallet_id w))"

locale reservation =
  fixes rows :: "db \<Rightarrow> 'r list" and put :: "'r list \<Rightarrow> db \<Rightarrow> db"
    and key :: "'r \<Rightarrow> string" and owner :: "'r \<Rightarrow> string" and amount :: "'r \<Rightarrow> int" and active :: "'r \<Rightarrow> bool"
  assumes rows_put: "rows (put rs d) = rs"
    and wallets_put: "wallets (put rs d) = wallets d"
    and rows_wallets: "rows (d\<lparr>wallets := ws\<rparr>) = rows d"
    and rows_flag: "rows (d\<lparr>tx_failed := b\<rparr>) = rows d"
begin

abbreviation cached :: "(string \<Rightarrow> int) \<Rightarrow> db \<Rightarrow> bool" where
  "cached \<equiv> held_cache rows key owner amount active"

lemma cached_flag_free: "flag_free (cached x)"
  by (simp add: flag_free_def held_cache_def rows_flag)

lemma cached_open:
  assumes "cached x d" and "active r" and "0 < amount r" and "\<forall>s\<in>set (rows d). key s \<noteq> key r"
  shows "cached x ((put (rows d @ [r]) d)
           \<lparr>wallets := update_rows (\<lambda>w. wallet_id w = owner r) (add_held (amount r)) (wallets d)\<rparr>)"
  using assms
  by (auto simp: held_cache_def rows_put rows_wallets map_update_rows_same ball_update_rows)

lemma cached_close:
  assumes "cached x d" and r: "r \<in> set (rows d)" and "active r"
    and f: "\<And>s. key (f s) = key s" "\<And>s. amount (f s) = amount s" "\<And>s. \<not> active (f s)"
  shows "cached x ((put (update_rows (\<lambda>s. key s = key r \<and> active s) f (rows d)) d)
           \<lparr>wallets := update_rows (\<lambda>w. wallet_id w = owner r) (add_held (- amount r)) (wallets d)\<rparr>)"
proof -
  have dist: "distinct (map key (rows d))" using assms(1) by (simp add: held_cache_def)
  have rw: "update_rows (\<lambda>s. key s = key r \<and> active s) f (rows d) = update_rows (\<lambda>s. key s = key r) f (rows d)"
    using dist r assms(3) by (rule update_rows_key_guard)
  have "sum_where (\<lambda>s. owner s = w \<and> active s) amount (update_rows (\<lambda>s. key s = key r) f (rows d)) =
        sum_where (\<lambda>s. owner s = w \<and> active s) amount (rows d) - (if owner r = w then amount r else 0)" for w
    using sum_where_update_key [OF dist r f(1), of "\<lambda>s. owner s = w \<and> active s" amount] f(3) assms(3) by simp
  then show ?thesis using assms(1) f
    by (auto simp: held_cache_def rows_put rows_wallets map_update_rows_same ball_update_rows rw)
qed

lemma reserved_ge:
  assumes "cached x d" and "r \<in> set (rows d)" and "active r"
  shows "amount r \<le> sum_where (\<lambda>s. owner s = owner r \<and> active s) amount (rows d)"
  using assms by (intro sum_where_ge) (auto simp: held_cache_def less_imp_le)

end

end
