(* ===== verification/Holds.thy ===== *)
theory Holds
  imports Reservations
begin

text \<open>
  \<open>core/payments/holds.py\<close>: the reserve taken from an agent's payout for the dispute window. A row of
  \<open>wallet_holds\<close> and the column \<open>wallets.held_cents\<close> move together: \<open>held_cache\<close> of
  \<open>Reservations\<close>, at which the contract of that theory is interpreted here.
\<close>

section \<open>Table\<close>

definition hold_insertable :: "hold \<Rightarrow> db \<Rightarrow> bool" where
  "hold_insertable h d \<longleftrightarrow> 0 < hold_amount_cents h \<and>
     \<not> exists_row (\<lambda>g. hold_id g = hold_id h \<or> hold_job_id g = hold_job_id h) (wallet_holds d) \<and>
     exists_row (\<lambda>w. wallet_id w = hold_wallet_id h) (wallets d)"

abbreviation update_holds :: "env \<Rightarrow> (hold \<Rightarrow> bool) \<Rightarrow> (hold \<Rightarrow> hold) \<Rightarrow> (db, nat) prog" where
  "update_holds e \<equiv> update_stmt e wallet_holds (\<lambda>hs d. d\<lparr>wallet_holds := hs\<rparr>) (\<lambda>h. 0 < hold_amount_cents h)"

abbreviation insert_hold :: "env \<Rightarrow> hold \<Rightarrow> (db, unit) prog" where
  "insert_hold e \<equiv> insert_stmt e wallet_holds (\<lambda>hs d. d\<lparr>wallet_holds := hs\<rparr>) hold_insertable"

definition RELEASE_REASON_WINDOW_EXPIRED :: string where "RELEASE_REASON_WINDOW_EXPIRED = ''window_expired''"
definition RELEASE_REASON_RATING_RELEASE :: string where "RELEASE_REASON_RATING_RELEASE = ''rating_release''"
definition RELEASE_REASON_RATING_CLAWBACK :: string where "RELEASE_REASON_RATING_CLAWBACK = ''rating_clawback''"
definition RELEASE_REASON_DISPUTE_CLAWBACK :: string where "RELEASE_REASON_DISPUTE_CLAWBACK = ''dispute_clawback''"

definition VALID_CONSUME_REASONS :: "string list" where
  "VALID_CONSUME_REASONS = [RELEASE_REASON_RATING_CLAWBACK, RELEASE_REASON_DISPUTE_CLAWBACK]"

definition VALID_RELEASE_REASONS :: "string list" where
  "VALID_RELEASE_REASONS = [RELEASE_REASON_WINDOW_EXPIRED, RELEASE_REASON_RATING_RELEASE]"

definition RELEASE_SWEEP_BATCH_LIMIT :: nat where "RELEASE_SWEEP_BATCH_LIMIT = 100"

section \<open>Operations\<close>

definition hold_until_of :: "env \<Rightarrow> int \<Rightarrow> int" where
  "hold_until_of e window_hours = now e + max 1 window_hours * micros_per_hour"

definition active_hold_of :: "string \<Rightarrow> db \<Rightarrow> hold option" where
  "active_hold_of job d = find (\<lambda>h. hold_job_id h = job \<and> hold_status h = Active) (wallet_holds d)"

definition get_active_hold_for_job_conn :: "env \<Rightarrow> string \<Rightarrow> (db, hold option) prog" where
  "get_active_hold_for_job_conn e job = select e (active_hold_of job)"

definition new_hold :: "env \<Rightarrow> nat \<Rightarrow> string \<Rightarrow> string \<Rightarrow> int \<Rightarrow> int \<Rightarrow> hold" where
  "new_hold e k wid job amount window_hours =
     \<lparr>hold_id = uuid e k, hold_wallet_id = wid, hold_job_id = job, hold_amount_cents = amount,
      hold_created_at = now e, hold_until = hold_until_of e window_hours, hold_status = Active,
      hold_released_at = None, hold_clawback_cents = None, hold_release_reason = None\<rparr>"

definition create_hold_conn ::
  "env \<Rightarrow> nat \<Rightarrow> string \<Rightarrow> string \<Rightarrow> int \<Rightarrow> int \<Rightarrow> (db, hold option) prog" where
  "create_hold_conn e k wid job amount window_hours =
     (if amount \<le> 0 then ret None
      else bindE (get_active_hold_for_job_conn e job) (\<lambda>existing.
        if existing \<noteq> None then ret existing
        else
          bindE (catch_when is_integrity
                   (bindE (insert_hold e (new_hold e k wid job amount window_hours)) (\<lambda>_. ret True))
                   (ret False)) (\<lambda>inserted.
          if \<not> inserted then get_active_hold_for_job_conn e job
          else
            bindE (update_wallets e (\<lambda>w. wallet_id w = wid) (add_held amount)) (\<lambda>updated.
            if updated = 0 then throw LookupError
            else get_active_hold_for_job_conn e job))))"

text \<open>Closing a hold: the guarded flip of the row, then the guarded decrement of the cache.\<close>

definition drop_held :: "env \<Rightarrow> hold \<Rightarrow> (db, unit) prog" where
  "drop_held e h =
     bindE (update_wallets e
              (\<lambda>w. wallet_id w = hold_wallet_id h \<and> hold_amount_cents h \<le> held_cents w)
              (add_held (- hold_amount_cents h))) (\<lambda>updated.
     raise_if (updated = 0) LookupError)"

definition close_hold ::
  "env \<Rightarrow> string \<Rightarrow> hold \<Rightarrow> (hold \<Rightarrow> hold) \<Rightarrow> (db, hold option) prog \<Rightarrow> (db, hold option) prog" where
  "close_hold e job h f result =
     bindE (update_holds e (\<lambda>g. hold_id g = hold_id h \<and> hold_status g = Active) f) (\<lambda>updated.
     if updated = 0 then get_active_hold_for_job_conn e job
     else bindE (drop_held e h) (\<lambda>_. result))"

definition clawed_row :: "env \<Rightarrow> int \<Rightarrow> string \<Rightarrow> hold \<Rightarrow> hold \<Rightarrow> hold" where
  "clawed_row e clawback reason_text h g =
     (let consumed = min clawback (hold_amount_cents h);
          new_status = (if hold_amount_cents h \<le> consumed then ClawedFull else ClawedPartial)
      in g\<lparr>hold_status := new_status, hold_released_at := Some (now e),
           hold_clawback_cents := Some consumed, hold_release_reason := Some reason_text\<rparr>)"

definition consume_hold_conn ::
  "env \<Rightarrow> string \<Rightarrow> int \<Rightarrow> string \<Rightarrow> (db, hold option) prog" where
  "consume_hold_conn e job clawback reason_text =
     (if reason_text \<notin> set VALID_CONSUME_REASONS then throw (ValueError ''consume_hold_conn: reason not in'')
      else if clawback \<le> 0 then ret None
      else bindE (get_active_hold_for_job_conn e job) (\<lambda>row.
        case row of
          None \<Rightarrow> ret None
        | Some h \<Rightarrow>
            close_hold e job h (clawed_row e clawback reason_text h)
              (select e (\<lambda>d. find (\<lambda>g. hold_id g = hold_id h) (wallet_holds d)))))"

definition release_hold_conn :: "env \<Rightarrow> string \<Rightarrow> string \<Rightarrow> (db, hold option) prog" where
  "release_hold_conn e job reason_text =
     (if reason_text \<notin> set VALID_RELEASE_REASONS then throw (ValueError ''release_hold_conn: reason not in'')
      else bindE (get_active_hold_for_job_conn e job) (\<lambda>row.
        case row of
          None \<Rightarrow> ret None
        | Some h \<Rightarrow>
            close_hold e job h
              (\<lambda>g. g\<lparr>hold_status := Released, hold_released_at := Some (now e),
                     hold_release_reason := Some reason_text\<rparr>)
              (ret (Some (h\<lparr>hold_status := Released, hold_release_reason := Some reason_text\<rparr>)))))"

text \<open>
  One tick of the sweeper: each expired hold in a transaction of its own; a hold that fails is
  skipped.
\<close>

definition release_step :: "env \<Rightarrow> string \<Rightarrow> (db, bool) prog" where
  "release_step e job =
     catchE
       (bindE (transact (release_hold_conn e job RELEASE_REASON_WINDOW_EXPIRED)) (\<lambda>result.
        ret (result \<noteq> None)))
       (\<lambda>_. ret False)"

definition release_expired_holds :: "env \<Rightarrow> nat \<Rightarrow> (db, nat) prog" where
  "release_expired_holds e limit =
     bindE (transact (select e (\<lambda>d.
       map hold_job_id
         (order_limit hold_until limit
           (filter (\<lambda>h. hold_status h = Active \<and> hold_until h < now e) (wallet_holds d)))))) (\<lambda>rows.
     count_each rows (release_step e))"

definition active_held :: "string \<Rightarrow> db \<Rightarrow> int" where
  "active_held wid d =
     sum_where (\<lambda>h. hold_wallet_id h = wid \<and> hold_status h = Active) hold_amount_cents (wallet_holds d)"

definition sum_active_held_cents_for_wallet :: "env \<Rightarrow> string \<Rightarrow> (db, int) prog" where
  "sum_active_held_cents_for_wallet e wid = transact (select e (active_held wid))"

record held_snapshot =
  snap_wallet_id :: string
  snap_owner_id :: string
  cached_held_cents :: int
  active_held_cents :: int
  held_drift_cents :: int

definition held_snapshot_conn :: "env \<Rightarrow> string \<Rightarrow> (db, held_snapshot) prog" where
  "held_snapshot_conn e wid =
     bindE (select e (find_wallet wid)) (\<lambda>row.
     case row of
       None \<Rightarrow> throw (ValueError ''Wallet not found.'')
     | Some w \<Rightarrow>
         bindE (select e (active_held wid)) (\<lambda>active.
         ret \<lparr>snap_wallet_id = wallet_id w, snap_owner_id = owner_id w, cached_held_cents = held_cents w,
              active_held_cents = active, held_drift_cents = held_cents w - active\<rparr>))"

definition repair_wallet_held_cache :: "env \<Rightarrow> string \<Rightarrow> (db, held_snapshot) prog" where
  "repair_wallet_held_cache e wid =
     transact
       (bindE (held_snapshot_conn e wid) (\<lambda>before.
        bindE (whenE (held_drift_cents before \<noteq> 0)
          (bindE (update_wallets e (\<lambda>w. wallet_id w = wid \<and> held_cents w = cached_held_cents before)
                   (\<lambda>w. w\<lparr>held_cents := active_held_cents before\<rparr>)) (\<lambda>updated.
           raise_if (updated = 0) (RuntimeError ''held_cache concurrent write'')))) (\<lambda>_.
        held_snapshot_conn e wid)))"

declare hold_insertable_def [op_defs] hold_until_of_def [op_defs]
  active_hold_of_def [op_defs] get_active_hold_for_job_conn_def [op_defs] new_hold_def [op_defs]
  create_hold_conn_def [op_defs] drop_held_def [op_defs] close_hold_def [op_defs] clawed_row_def [op_defs] consume_hold_conn_def [op_defs]
  release_hold_conn_def [op_defs] active_held_def [op_defs] held_snapshot_conn_def [op_defs]

section \<open>The ledger is not touched\<close>

context ledger_invariant begin

lemma keeps_get_active_hold: "keeps P (get_active_hold_for_job_conn e job)"
  unfolding get_active_hold_for_job_conn_def by auto

lemma keeps_create_hold: "keeps P (create_hold_conn e k wid job a h)"
  unfolding create_hold_conn_def
  by (auto intro!: keeps_get_active_hold keeps_other_insert keeps_rewriting)

lemma keeps_drop_held: "keeps P (drop_held e h)"
  unfolding drop_held_def by (auto intro!: keeps_rewriting)

lemma keeps_close_hold: "keeps P m \<Longrightarrow> keeps P (close_hold e job h f m)"
  unfolding close_hold_def
  by (intro keeps_if keeps_bindE keeps_get_active_hold keeps_other_update keeps_drop_held) simp_all

lemma keeps_consume_hold: "keeps P (consume_hold_conn e job c r)"
  unfolding consume_hold_conn_def Let_def
  by (intro keeps_if keeps_throw keeps_ret keeps_bindE keeps_get_active_hold keeps_case_option
      keeps_close_hold keeps_select)

lemma keeps_release_hold: "keeps P (release_hold_conn e job r)"
  unfolding release_hold_conn_def
  by (intro keeps_if keeps_throw keeps_ret keeps_bindE keeps_get_active_hold keeps_case_option
      keeps_close_hold keeps_select)

lemma keeps_release_expired_holds: "keeps P (release_expired_holds e n)"
  unfolding release_expired_holds_def release_step_def
  by (intro keeps_bindE keeps_transact_P ensures_select keeps_count_each keeps_catchE keeps_ret
      keeps_ensures keeps_release_hold)

lemma keeps_repair_wallet_held_cache: "keeps P (repair_wallet_held_cache e wid)"
  unfolding repair_wallet_held_cache_def held_snapshot_conn_def
  by (intro keeps_transact_P keeps_ensures keeps_bindE keeps_select keeps_case_option keeps_throw
      keeps_ret keeps_whenE keeps_rewriting keeps_raise_if) auto

end

section \<open>The held cache\<close>

definition hold_active :: "hold \<Rightarrow> bool" where
  "hold_active h \<longleftrightarrow> hold_status h = Active"

definition holds_cached :: "(string \<Rightarrow> int) \<Rightarrow> db \<Rightarrow> bool" where
  "holds_cached x d \<longleftrightarrow> held_cache wallet_holds hold_id hold_wallet_id hold_amount_cents hold_active x d"

interpretation hold_table: reservation wallet_holds "\<lambda>hs d. d\<lparr>wallet_holds := hs\<rparr>"
  hold_id hold_wallet_id hold_amount_cents hold_active
  by unfold_locales simp_all

lemma holds_cached_flag [simp]: "holds_cached x (d\<lparr>tx_failed := b\<rparr>) = holds_cached x d"
  unfolding holds_cached_def using hold_table.cached_flag_free by (rule flag_freeD)

lemma holds_cached_abort [simp]: "holds_cached x (abort_tx e d) = holds_cached x d"
  by (simp add: abort_tx_def)

lemma holds_cachedD:
  assumes "holds_cached x d"
  shows "distinct (map wallet_id (wallets d))" "distinct (map hold_id (wallet_holds d))"
    and "w \<in> set (wallets d) \<Longrightarrow> held_cents w = active_held (wallet_id w) d + x (wallet_id w)"
    and "h \<in> set (wallet_holds d) \<Longrightarrow> 0 < hold_amount_cents h"
    and "w \<in> set (wallets d) \<Longrightarrow> wallet_check w"
  using assms by (auto simp: holds_cached_def held_cache_def active_held_def hold_active_def)

lemma active_hold_of_in:
  "active_hold_of job d = Some h \<Longrightarrow> h \<in> set (wallet_holds d) \<and> hold_active h \<and> hold_job_id h = job"
  by (auto simp: active_hold_of_def hold_active_def dest: find_SomeD)

lemma holds_cached_open:
  assumes "holds_cached x d" and "hold_insertable h d" and "hold_status h = Active"
  shows "holds_cached x (d\<lparr>wallet_holds := wallet_holds d @ [h],
     wallets := update_rows (\<lambda>w. wallet_id w = hold_wallet_id h) (add_held (hold_amount_cents h)) (wallets d)\<rparr>)"
  using hold_table.cached_open [of x d h] assms
  by (auto simp: holds_cached_def hold_active_def hold_insertable_def exists_row_iff)

lemma ensures_create_hold: "ensures (holds_cached x) (create_hold_conn e k wid job a hours)"
proof (rule ensuresI)
  fix d assume "holds_cached x d"
  then show "wp (create_hold_conn e k wid job a hours) (\<lambda>_. holds_cached x) (\<lambda>_ _. True) d"
    using holds_cached_open [of x d "new_hold e k wid job a hours"]
    by (auto simp: create_hold_conn_def get_active_hold_for_job_conn_def wp_simps new_hold_def)
qed

lemma wp_close_hold:
  assumes c: "holds_cached x d" and h: "h \<in> set (wallet_holds d)" "hold_active h"
    and f: "\<And>g. hold_id (f g) = hold_id g" "\<And>g. hold_amount_cents (f g) = hold_amount_cents g"
      "\<And>g. hold_status (f g) \<noteq> Active"
    and Q: "\<And>d'. holds_cached x d' \<Longrightarrow> \<not> pg_failed e d' \<Longrightarrow>
      d' = d\<lparr>wallet_holds := update_rows (\<lambda>g. hold_id g = hold_id h \<and> hold_status g = Active) f (wallet_holds d),
        wallets := update_rows (\<lambda>w. wallet_id w = hold_wallet_id h) (add_held (- hold_amount_cents h)) (wallets d)\<rparr> \<Longrightarrow>
      wp n Q E d'"
    and pg: "\<not> pg_failed e d"
    and E: "\<And>d'. \<not> (\<exists>w\<in>set (wallets d). wallet_id w = hold_wallet_id h \<and> hold_amount_cents h \<le> held_cents w)
      \<Longrightarrow> E LookupError d'"
  shows "wp (close_hold e job h f n) Q E d"
proof -
  let ?hs = "update_rows (\<lambda>g. hold_id g = hold_id h \<and> hold_status g = Active) f (wallet_holds d)"
  have n0: "count_where (\<lambda>g. hold_id g = hold_id h \<and> hold_status g = Active) (wallet_holds d) \<noteq> 0"
    using h by (auto simp: count_where_0 hold_active_def simp del: neq0_conv)
  have pos: "\<forall>r\<in>set (wallet_holds d). 0 < hold_amount_cents (f r)"
    using holds_cachedD(4) [OF c] f(2) by simp
  have "wp (drop_held e h) (\<lambda>_. wp n Q E) E (d\<lparr>wallet_holds := ?hs\<rparr>)"
  proof (cases "\<exists>w\<in>set (wallets d). wallet_id w = hold_wallet_id h \<and> hold_amount_cents h \<le> held_cents w")
    case False
    then have "count_where (\<lambda>w. wallet_id w = hold_wallet_id h \<and> hold_amount_cents h \<le> held_cents w) (wallets d) = 0"
      by (auto simp: count_where_0)
    with False E show ?thesis
      by (auto simp: drop_held_def wp_simps update_rows_none pg_failed_def pg [unfolded pg_failed_def])
  next
    case True
    then obtain w where w: "w \<in> set (wallets d)" "wallet_id w = hold_wallet_id h"
      "hold_amount_cents h \<le> held_cents w" by blast
    then have "count_where (\<lambda>w. wallet_id w = hold_wallet_id h \<and> hold_amount_cents h \<le> held_cents w) (wallets d) \<noteq> 0"
      by (auto simp: count_where_0 simp del: neq0_conv)
    moreover have "update_rows (\<lambda>w. wallet_id w = hold_wallet_id h \<and> hold_amount_cents h \<le> held_cents w)
          (add_held (- hold_amount_cents h)) (wallets d) =
        update_rows (\<lambda>w. wallet_id w = hold_wallet_id h) (add_held (- hold_amount_cents h)) (wallets d)"
      using update_rows_key_guard [OF holds_cachedD(1) [OF c] w(1), of "\<lambda>w. hold_amount_cents h \<le> held_cents w"] w
      by simp
    moreover have "holds_cached x (d\<lparr>wallet_holds := ?hs,
        wallets := update_rows (\<lambda>w. wallet_id w = hold_wallet_id h) (add_held (- hold_amount_cents h)) (wallets d)\<rparr>)"
      using hold_table.cached_close [of x d h f] c h f by (simp add: holds_cached_def hold_active_def)
    ultimately show ?thesis using pg Q holds_cachedD(5) [OF c]
      by (auto simp: drop_held_def wp_simps pg_failed_def)
  qed
  then show ?thesis using n0 pos pg by (auto simp: close_hold_def wp_simps)
qed

lemma clawed_row_simps [simp]:
  "hold_id (clawed_row e c r h g) = hold_id g" "hold_amount_cents (clawed_row e c r h g) = hold_amount_cents g"
  "hold_status (clawed_row e c r h g) \<noteq> Active"
  by (simp_all add: clawed_row_def Let_def)

lemma ensures_consume_hold: "ensures (holds_cached x) (consume_hold_conn e job c r)"
proof (rule ensuresI)
  fix d assume c: "holds_cached x d"
  then show "wp (consume_hold_conn e job c r) (\<lambda>_. holds_cached x) (\<lambda>_ _. True) d"
    by (auto simp: consume_hold_conn_def get_active_hold_for_job_conn_def wp_simps Let_def
        dest: active_hold_of_in split: option.split intro!: wp_close_hold [OF c])
qed

lemma ensures_release_hold: "ensures (holds_cached x) (release_hold_conn e job r)"
proof (rule ensuresI)
  fix d assume c: "holds_cached x d"
  then show "wp (release_hold_conn e job r) (\<lambda>_. holds_cached x) (\<lambda>_ _. True) d"
    by (auto simp: release_hold_conn_def get_active_hold_for_job_conn_def wp_simps
        dest: active_hold_of_in split: option.split intro!: wp_close_hold [OF c])
qed

lemma flag_free_holds_cached: "flag_free (holds_cached x)"
  by (simp add: flag_free_def)

text \<open>
  C22. The sweeper keeps the cache: whatever the other reservations, a tick of
  \<open>release_expired_holds\<close> leaves every wallet's \<open>held_cents\<close> equal to its active holds and those.
\<close>

theorem sweep_keeps_held_cache:
  "keeps (holds_cached x) (release_expired_holds e n)"
  unfolding release_expired_holds_def release_step_def
  by (intro keeps_bindE keeps_transact flag_free_holds_cached ensures_select keeps_count_each
      keeps_catchE keeps_ret ensures_release_hold)

section \<open>What the operations do\<close>

definition holds_ok :: "(string \<Rightarrow> int) \<Rightarrow> db \<Rightarrow> bool" where
  "holds_ok x d \<longleftrightarrow> holds_cached x d \<and> (\<forall>w. 0 \<le> x w) \<and> distinct (map hold_job_id (wallet_holds d)) \<and>
     (\<forall>h\<in>set (wallet_holds d). has_wallet (hold_wallet_id h) d)"

lemma holds_ok_flag [simp]: "holds_ok x (d\<lparr>tx_failed := b\<rparr>) = holds_ok x d"
  by (simp add: holds_ok_def)

lemma active_hold_of_row:
  assumes "holds_ok x d" and "h \<in> set (wallet_holds d)" and "hold_active h"
  shows "active_hold_of (hold_job_id h) d = Some h"
  using find_distinct_key_and [of hold_job_id "wallet_holds d" h hold_active] assms
  by (simp add: holds_ok_def active_hold_of_def hold_active_def)

lemma backed_hold:
  assumes "holds_ok x d" and h: "h \<in> set (wallet_holds d)" "hold_active h"
  shows "\<exists>w\<in>set (wallets d). wallet_id w = hold_wallet_id h \<and> hold_amount_cents h \<le> held_cents w"
proof -
  have c: "holds_cached x d" and x: "0 \<le> x (hold_wallet_id h)" and "has_wallet (hold_wallet_id h) d"
    using assms by (auto simp: holds_ok_def)
  then obtain w where w: "w \<in> set (wallets d)" "wallet_id w = hold_wallet_id h"
    by (auto simp: has_wallet_def exists_row_iff)
  have "hold_amount_cents h \<le> active_held (hold_wallet_id h) d"
    using hold_table.reserved_ge [of x d h] c h by (simp add: holds_cached_def active_held_def hold_active_def)
  then show ?thesis using w x holds_cachedD(3) [OF c w(1)] by auto
qed

definition released_row :: "env \<Rightarrow> string \<Rightarrow> hold \<Rightarrow> hold" where
  "released_row e r g =
     g\<lparr>hold_status := Released, hold_released_at := Some (now e), hold_release_reason := Some r\<rparr>"

lemma release_hold_spec:
  assumes ok: "holds_ok x d" and h: "h \<in> set (wallet_holds d)" "hold_active h"
    and r: "r \<in> set VALID_RELEASE_REASONS" and pg: "\<not> tx_failed d"
  shows "wp (release_hold_conn e (hold_job_id h) r)
     (\<lambda>res d'. res \<noteq> None \<and> holds_ok x d' \<and> \<not> tx_failed d' \<and>
        wallet_holds d' = update_rows (\<lambda>g. hold_id g = hold_id h) (released_row e r) (wallet_holds d))
     (\<lambda>_ _. False) d"
proof -
  have c: "holds_cached x d" using ok by (simp add: holds_ok_def)
  have rw: "update_rows (\<lambda>g. hold_id g = hold_id h \<and> hold_status g = Active) (released_row e r) (wallet_holds d) =
      update_rows (\<lambda>g. hold_id g = hold_id h) (released_row e r) (wallet_holds d)"
    using update_rows_key_guard [OF holds_cachedD(2) [OF c] h(1), of hold_active] h(2)
    by (simp add: hold_active_def)
  show ?thesis
    using r pg active_hold_of_row [OF ok h]
    apply (simp add: release_hold_conn_def get_active_hold_for_job_conn_def wp_simps pg_failed_def
        flip: released_row_def)
    apply (rule wp_close_hold [OF c h])
    subgoal by (simp add: released_row_def)
    subgoal by (simp add: released_row_def)
    subgoal by (simp add: released_row_def)
    subgoal using ok by (auto simp: wp_simps holds_ok_def rw has_wallet_def exists_row_update
          map_update_rows_same ball_update_rows released_row_def)
    subgoal using pg by (simp add: pg_failed_def)
    subgoal using backed_hold [OF ok h] by blast
    done
qed

lemma release_step_spec:
  assumes "holds_ok x d" and "h \<in> set (wallet_holds d)" "hold_active h"
  shows "wp (release_step e (hold_job_id h))
     (\<lambda>b d'. b \<and> holds_ok x d' \<and>
        wallet_holds d' = update_rows (\<lambda>g. hold_id g = hold_id h)
          (released_row e RELEASE_REASON_WINDOW_EXPIRED) (wallet_holds d))
     (\<lambda>_ _. False) d"
proof -
  have "wp (release_hold_conn e (hold_job_id h) RELEASE_REASON_WINDOW_EXPIRED)
     (\<lambda>res d'. res \<noteq> None \<and> holds_ok x d' \<and> \<not> tx_failed d' \<and>
        wallet_holds d' = update_rows (\<lambda>g. hold_id g = hold_id h)
          (released_row e RELEASE_REASON_WINDOW_EXPIRED) (wallet_holds d))
     (\<lambda>_ _. False) (d\<lparr>tx_failed := False\<rparr>)"
    using release_hold_spec [of x "d\<lparr>tx_failed := False\<rparr>" h RELEASE_REASON_WINDOW_EXPIRED e] assms
    by (simp add: VALID_RELEASE_REASONS_def)
  then show ?thesis
    unfolding release_step_def wp_catchE wp_bindE wp_transact
    by (rule wp_post_mono) (auto simp: wp_simps)
qed

lemma release_batch:
  assumes "holds_ok x d" and "distinct (map hold_id hs)"
    and "\<forall>h\<in>set hs. h \<in> set (wallet_holds d) \<and> hold_active h"
  shows "wp (count_each (map hold_job_id hs) (release_step e))
     (\<lambda>k d'. k = length hs \<and> holds_ok x d' \<and>
        wallet_holds d' = update_rows (\<lambda>g. hold_id g \<in> hold_id ` set hs)
          (released_row e RELEASE_REASON_WINDOW_EXPIRED) (wallet_holds d))
     (\<lambda>_ _. False) d"
  using assms
proof (induction hs arbitrary: d)
  case Nil
  then show ?case by (simp add: wp_simps update_rows_def)
next
  case (Cons h hs)
  let ?f = "released_row e RELEASE_REASON_WINDOW_EXPIRED"
  have IH: "wp (count_each (map hold_job_id hs) (release_step e))
      (\<lambda>k d2. k = length hs \<and> holds_ok x d2 \<and>
         wallet_holds d2 = update_rows (\<lambda>g. hold_id g \<in> hold_id ` set hs) ?f (wallet_holds d1))
      (\<lambda>_ _. False) d1"
    if "holds_ok x d1" "wallet_holds d1 = update_rows (\<lambda>g. hold_id g = hold_id h) ?f (wallet_holds d)" for d1
    using that Cons.prems by (intro Cons.IH) (auto intro!: in_update_rows simp: image_iff)
  have two: "update_rows (\<lambda>g. hold_id g \<in> hold_id ` set hs) ?f
        (update_rows (\<lambda>g. hold_id g = hold_id h) ?f rows) =
      update_rows (\<lambda>g. hold_id g \<in> hold_id ` set (h # hs)) ?f rows" for rows
    by (induction rows) (auto simp: released_row_def)
  have "wp (release_step e (hold_job_id h))
     (\<lambda>b d'. b \<and> holds_ok x d' \<and> wallet_holds d' = update_rows (\<lambda>g. hold_id g = hold_id h) ?f (wallet_holds d))
     (\<lambda>_ _. False) d"
    using Cons.prems by (intro release_step_spec) simp_all
  then have "wp (release_step e (hold_job_id h))
     (\<lambda>b d'. b \<and> wp (count_each (map hold_job_id hs) (release_step e))
        (\<lambda>k d2. k = length hs \<and> holds_ok x d2 \<and>
           wallet_holds d2 = update_rows (\<lambda>g. hold_id g \<in> hold_id ` set (h # hs)) ?f (wallet_holds d))
        (\<lambda>_ _. False) d')
     (\<lambda>_ _. False) d"
    by (rule wp_post_mono) (use IH two in auto)
  then show ?case
    by (simp add: wp_simps) (erule wp_post_mono; auto simp: wp_simps elim: wp_post_mono)
qed

definition hold_expired :: "env \<Rightarrow> hold \<Rightarrow> bool" where
  "hold_expired e h \<longleftrightarrow> hold_status h = Active \<and> hold_until h < now e"

text \<open>
  A tick of the sweeper with a large enough batch releases exactly the holds whose window has
  closed: it does not fail, it counts them, no expired hold is left active, every other hold row
  is untouched, and the held cache still agrees with the active holds.
\<close>

theorem sweep_releases_expired:
  assumes "holds_ok x d" and "length (filter (hold_expired e) (wallet_holds d)) \<le> n"
  shows "wp (release_expired_holds e n)
     (\<lambda>k d'. k = length (filter (hold_expired e) (wallet_holds d)) \<and> holds_ok x d' \<and>
        (\<forall>h\<in>set (wallet_holds d'). \<not> hold_expired e h) \<and>
        wallet_holds d' = update_rows (hold_expired e)
          (released_row e RELEASE_REASON_WINDOW_EXPIRED) (wallet_holds d))
     (\<lambda>_ _. False) d"
proof -
  define hs where "hs = order_limit hold_until n (filter (hold_expired e) (wallet_holds d))"
  let ?f = "released_row e RELEASE_REASON_WINDOW_EXPIRED"
  let ?d = "d\<lparr>tx_failed := False\<rparr>"
  have hs: "set hs = set (filter (hold_expired e) (wallet_holds d))"
    and len: "length hs = length (filter (hold_expired e) (wallet_holds d))"
    using assms(2) by (simp_all add: hs_def order_limit_def)
  have dist: "distinct (map hold_id (wallet_holds d))"
    using assms(1) by (auto simp: holds_ok_def dest: holds_cachedD(2))
  then have "distinct (map hold_id hs)"
    using assms(2) by (auto simp: hs_def order_limit_def distinct_map inj_on_def)
  then have "wp (count_each (map hold_job_id hs) (release_step e))
     (\<lambda>k d'. k = length hs \<and> holds_ok x d' \<and>
        wallet_holds d' = update_rows (\<lambda>g. hold_id g \<in> hold_id ` set hs) ?f (wallet_holds ?d))
     (\<lambda>_ _. False) ?d"
    using assms(1) by (intro release_batch) (auto simp: hs hold_expired_def hold_active_def)
  moreover have "update_rows (\<lambda>g. hold_id g \<in> hold_id ` set hs) ?f (wallet_holds d) =
      update_rows (hold_expired e) ?f (wallet_holds d)"
    using dist by (auto simp: update_rows_def hs distinct_map inj_on_def)
  moreover have "\<not> hold_expired e (if hold_expired e h then ?f h else h)" for h
    by (simp add: hold_expired_def released_row_def)
  ultimately show ?thesis
    unfolding release_expired_holds_def
    by (simp add: wp_simps hs_def [symmetric] hold_expired_def [symmetric])
      (erule wp_post_mono; simp add: len ball_update_rows)
qed

definition sample_hold :: "string \<Rightarrow> string \<Rightarrow> int \<Rightarrow> int \<Rightarrow> hold" where
  "sample_hold hid job amount until =
     \<lparr>hold_id = hid, hold_wallet_id = ''w2'', hold_job_id = job, hold_amount_cents = amount,
      hold_created_at = 1600000000000000, hold_until = until, hold_status = Active,
      hold_released_at = None, hold_clawback_cents = None, hold_release_reason = None\<rparr>"

text \<open>Two holds on the agent's wallet: one whose window closed, one whose window is open.\<close>

definition sample_hold_db :: db where
  "sample_hold_db = sample_db\<lparr>
     wallets := [sample_caller, (sample_wallet ''w2'' ''agent:bob'' 0)\<lparr>held_cents := 100\<rparr>],
     wallet_holds := [sample_hold ''h1'' ''j1'' 60 1600000100000000, sample_hold ''h2'' ''j2'' 40 1900000000000000]\<rparr>"

lemma sample_holds_ok: "holds_ok (\<lambda>_. 0) sample_hold_db"
  by (auto simp: holds_ok_def holds_cached_def held_cache_def hold_active_def sample_hold_db_def
      sample_hold_def sample_defs wallet_check_def has_wallet_def)

theorem sweep_releases_expired_witness:
  "wp (release_expired_holds (sample_env SQLite) 100)
     (\<lambda>k d'. k = length (filter (hold_expired (sample_env SQLite)) (wallet_holds sample_hold_db)) \<and>
             holds_ok (\<lambda>_. 0) d')
     (\<lambda>_ _. False) sample_hold_db"
proof -
  have "length (filter (hold_expired (sample_env SQLite)) (wallet_holds sample_hold_db)) \<le> 100"
    by (rule order_trans [OF length_filter_le]) (simp add: sample_hold_db_def)
  from sweep_releases_expired [OF sample_holds_ok this] show ?thesis by (rule wp_post_mono) auto
qed

lemma consume_hold_spec:
  assumes ok: "holds_ok x d" and a: "active_hold_of job d = Some h" and "0 < c"
    and r: "r \<in> set VALID_CONSUME_REASONS" and pg: "\<not> tx_failed d"
  shows "wp (consume_hold_conn e job c r)
     (\<lambda>res d'. (\<exists>h'. res = Some h' \<and> hold_id h' = hold_id h \<and>
                    hold_clawback_cents h' = Some (min c (hold_amount_cents h)) \<and>
                    hold_status h' = (if hold_amount_cents h \<le> c then ClawedFull else ClawedPartial)) \<and>
        active_hold_of job d' = None \<and> holds_ok x d' \<and>
        wallets d' = update_rows (\<lambda>w. wallet_id w = hold_wallet_id h) (add_held (- hold_amount_cents h)) (wallets d) \<and>
        filter (\<lambda>g. hold_id g \<noteq> hold_id h) (wallet_holds d') = filter (\<lambda>g. hold_id g \<noteq> hold_id h) (wallet_holds d) \<and>
        transactions d' = transactions d \<and> \<not> tx_failed d')
     (\<lambda>_ _. False) d"
proof -
  have c: "holds_cached x d" using ok by (simp add: holds_ok_def)
  have h: "h \<in> set (wallet_holds d)" "hold_active h" and j: "hold_job_id h = job"
    using active_hold_of_in [OF a] by auto
  define f where "f = clawed_row e c r h"
  have f: "hold_id (f g) = hold_id g" "hold_job_id (f g) = hold_job_id g" "hold_wallet_id (f g) = hold_wallet_id g"
    "hold_amount_cents (f g) = hold_amount_cents g" "hold_status (f g) \<noteq> Active"
    "hold_clawback_cents (f g) = Some (min c (hold_amount_cents h))"
    "hold_status (f g) = (if hold_amount_cents h \<le> c then ClawedFull else ClawedPartial)" for g
    by (simp_all add: f_def clawed_row_def Let_def)
  have rw: "update_rows (\<lambda>g. hold_id g = hold_id h \<and> hold_status g = Active) f (wallet_holds d) =
      update_rows (\<lambda>g. hold_id g = hold_id h) f (wallet_holds d)"
    using update_rows_key_guard [OF holds_cachedD(2) [OF c] h(1), of hold_active] h(2)
    by (simp add: hold_active_def)
  have fnd: "find (\<lambda>g. hold_id g = hold_id h) (update_rows (\<lambda>g. hold_id g = hold_id h) f (wallet_holds d)) = Some (f h)"
    using find_distinct_key [OF holds_cachedD(2) [OF c] h(1)] by (simp add: find_update_same f)
  have none: "find (\<lambda>g. hold_job_id g = job \<and> hold_status g = Active)
      (update_rows (\<lambda>g. hold_id g = hold_id h) f (wallet_holds d)) = None"
  proof -
    have "\<forall>g\<in>set (wallet_holds d). hold_job_id g = job \<longrightarrow> g = h"
      using ok h(1) j by (auto simp: holds_ok_def distinct_map inj_on_def)
    then show ?thesis by (auto simp: find_None_iff set_update_rows f split: if_splits)
  qed
  have flt: "filter (\<lambda>g. hold_id g \<noteq> hold_id h) (update_rows (\<lambda>g. hold_id g = hold_id h) f rows) =
      filter (\<lambda>g. hold_id g \<noteq> hold_id h) rows" for rows
    by (induction rows) (auto simp: f)
  show ?thesis
    using r assms(3) pg a
    apply (simp add: consume_hold_conn_def get_active_hold_for_job_conn_def wp_simps pg_failed_def
        flip: f_def split del: if_split)
    apply (rule wp_close_hold [OF c h f(1,4,5)])
    subgoal using ok by (simp add: wp_simps holds_ok_def rw has_wallet_def exists_row_update fnd none flt
          active_hold_of_def map_update_rows_same ball_update_rows f)
    subgoal using pg by (simp add: pg_failed_def)
    subgoal using backed_hold [OF ok h] by blast
    done
qed

text \<open>
  A clawback closes the hold: the row records what was taken, at most its amount, and whether
  that is all of it; the whole amount leaves \<open>held_cents\<close>, even when the clawback is partial; a
  second clawback on the job finds no hold; no other hold, no balance and no entry moves.
\<close>

theorem consume_hold_closes:
  assumes ok: "holds_ok x d" and a: "active_hold_of job d = Some h" and "0 < c"
    and r: "r \<in> set VALID_CONSUME_REASONS" and pg: "\<not> tx_failed d"
  shows "wp (consume_hold_conn e job c r)
     (\<lambda>res d'. (\<exists>h'. res = Some h' \<and> hold_id h' = hold_id h \<and>
                    hold_clawback_cents h' = Some (min c (hold_amount_cents h)) \<and>
                    hold_status h' = (if hold_amount_cents h \<le> c then ClawedFull else ClawedPartial)) \<and>
        active_hold_of job d' = None \<and> holds_ok x d' \<and>
        wallets d' = update_rows (\<lambda>w. wallet_id w = hold_wallet_id h) (add_held (- hold_amount_cents h)) (wallets d) \<and>
        filter (\<lambda>g. hold_id g \<noteq> hold_id h) (wallet_holds d') = filter (\<lambda>g. hold_id g \<noteq> hold_id h) (wallet_holds d) \<and>
        transactions d' = transactions d \<and> \<not> tx_failed d')
     (\<lambda>_ _. False) d"
  using assms by (rule consume_hold_spec)

theorem consume_hold_closes_witness:
  "wp (consume_hold_conn (sample_env Postgres) ''j2'' 15 RELEASE_REASON_DISPUTE_CLAWBACK)
     (\<lambda>_ d'. active_hold_of ''j2'' d' = None \<and> holds_ok (\<lambda>_. 0) d') (\<lambda>_ _. False) sample_hold_db"
  by (rule wp_post_mono [OF consume_hold_closes
        [OF sample_holds_ok, of _ "sample_hold ''h2'' ''j2'' 40 1900000000000000"]])
    (simp_all add: active_hold_of_def sample_hold_db_def sample_hold_def VALID_CONSUME_REASONS_def sample_db_def)

end
