(* ===== verification/Caller_Escrow.thy ===== *)
theory Caller_Escrow
  imports Holds
begin

text \<open>
  \<open>core/payments/caller_escrow.py\<close>: funds of the caller reserved for an asynchronous job, debited
  when the job completes and released when it fails. The reservations share the column
  \<open>held_cents\<close> with the agent's holds.
\<close>

section \<open>Table and sentinel identifiers\<close>

definition escrow_insertable :: "escrow \<Rightarrow> db \<Rightarrow> bool" where
  "escrow_insertable r d \<longleftrightarrow> 0 < escrow_amount_cents r \<and>
     \<not> exists_row (\<lambda>s. escrow_job_id s = escrow_job_id r) (job_caller_escrow d) \<and>
     exists_row (\<lambda>j. job_id j = escrow_job_id r) (jobs d) \<and>
     exists_row (\<lambda>w. wallet_id w = caller_escrow_wallet_id r) (wallets d)"

abbreviation update_escrows :: "env \<Rightarrow> (escrow \<Rightarrow> bool) \<Rightarrow> (escrow \<Rightarrow> escrow) \<Rightarrow> (db, nat) prog" where
  "update_escrows e \<equiv> update_stmt e job_caller_escrow (\<lambda>rs d. d\<lparr>job_caller_escrow := rs\<rparr>)
     (\<lambda>r. 0 < escrow_amount_cents r)"

abbreviation insert_escrow :: "env \<Rightarrow> escrow \<Rightarrow> (db, unit) prog" where
  "insert_escrow e \<equiv> insert_stmt e job_caller_escrow (\<lambda>rs d. d\<lparr>job_caller_escrow := rs\<rparr>) escrow_insertable"

definition ESCROW_TX_PREFIX :: string where "ESCROW_TX_PREFIX = ''escrow:''"

definition is_escrow_tx_id :: "string \<Rightarrow> bool" where
  "is_escrow_tx_id tx = prefix ESCROW_TX_PREFIX tx"

definition job_id_from_sentinel :: "string \<Rightarrow> exn + string" where
  "job_id_from_sentinel tx =
     (if \<not> is_escrow_tx_id tx then Inl (ValueError ''is not an escrow sentinel.'')
      else Inr (drop (length ESCROW_TX_PREFIX) tx))"

definition flag_on :: "string option \<Rightarrow> bool" where
  "flag_on raw = (py_lower (case raw of None \<Rightarrow> ''0'' | Some s \<Rightarrow> s) \<in> {''1'', ''true'', ''yes'', ''on''})"

definition caller_escrow_enabled :: "string option \<Rightarrow> bool" where
  "caller_escrow_enabled raw = flag_on raw"

text \<open>A number of hours, at least 1; a value that is not an integer gives the default.\<close>

definition hours_setting :: "string option \<Rightarrow> int \<Rightarrow> int" where
  "hours_setting raw dflt =
     (case raw of None \<Rightarrow> max 1 dflt
      | Some s \<Rightarrow> case py_int s of None \<Rightarrow> dflt | Some n \<Rightarrow> max 1 n)"

definition escrow_hours :: "string option \<Rightarrow> int" where
  "escrow_hours raw = hours_setting raw 48"

section \<open>Operations\<close>

definition find_escrow :: "string \<Rightarrow> db \<Rightarrow> escrow option" where
  "find_escrow job d = find (\<lambda>r. escrow_job_id r = job) (job_caller_escrow d)"

definition new_escrow :: "env \<Rightarrow> int \<Rightarrow> string \<Rightarrow> string \<Rightarrow> int \<Rightarrow> escrow" where
  "new_escrow e hours job wid amount =
     \<lparr>escrow_job_id = job, caller_escrow_wallet_id = wid, escrow_amount_cents = amount,
      escrow_created_at = now e, escrow_expires_at = now e + hours * micros_per_hour,
      escrow_status = EscrowActive, escrow_resolved_at = None, escrow_resolution_note = None\<rparr>"

definition reserve :: "env \<Rightarrow> int \<Rightarrow> string \<Rightarrow> string \<Rightarrow> int \<Rightarrow> (db, escrow) prog" where
  "reserve e hours job wid amount =
     (if amount \<le> 0 then throw (ValueError ''amount_cents must be > 0'')
      else bindE (select e (find_escrow job)) (\<lambda>existing.
        case existing of
          Some r \<Rightarrow> ret r
        | None \<Rightarrow>
            bindE (insert_escrow e (new_escrow e hours job wid amount)) (\<lambda>_.
            bindE (update_wallets e (\<lambda>w. wallet_id w = wid) (add_held amount)) (\<lambda>_.
            ret (new_escrow e hours job wid amount)))))"

text \<open>\<open>CASE WHEN held_cents > a THEN held_cents - a ELSE 0 END\<close>.\<close>

definition drop_reserved :: "int \<Rightarrow> wallet \<Rightarrow> wallet" where
  "drop_reserved a w = w\<lparr>held_cents := (if a < held_cents w then held_cents w - a else 0)\<rparr>"

definition escrow_resolved :: "env \<Rightarrow> escrow_state \<Rightarrow> string option \<Rightarrow> escrow \<Rightarrow> escrow" where
  "escrow_resolved e final note s =
     s\<lparr>escrow_status := final, escrow_resolved_at := Some (now e),
       escrow_resolution_note := none_if_empty (or_empty note)\<rparr>"

lemma escrow_resolved_simps [simp]:
  "escrow_job_id (escrow_resolved e final note s) = escrow_job_id s"
  "caller_escrow_wallet_id (escrow_resolved e final note s) = caller_escrow_wallet_id s"
  "escrow_amount_cents (escrow_resolved e final note s) = escrow_amount_cents s"
  "escrow_status (escrow_resolved e final note s) = final"
  by (simp_all add: escrow_resolved_def)

definition resolve_escrow ::
  "env \<Rightarrow> escrow_state \<Rightarrow> string \<Rightarrow> string option \<Rightarrow> (db, escrow option) prog" where
  "resolve_escrow e final job note =
     bindE (select e (find_escrow job)) (\<lambda>row.
     case row of
       None \<Rightarrow> ret None
     | Some r \<Rightarrow>
         if escrow_status r = final then ret (Some r)
         else if escrow_status r \<noteq> EscrowActive then throw (ValueError ''job_caller_escrow is in another status'')
         else
           bindE (update_escrows e (\<lambda>s. escrow_job_id s = job \<and> escrow_status s = EscrowActive)
                    (escrow_resolved e final note)) (\<lambda>_.
           bindE (if 0 < escrow_amount_cents r \<and> caller_escrow_wallet_id r \<noteq> []
                  then update_wallets e (\<lambda>w. wallet_id w = caller_escrow_wallet_id r)
                         (drop_reserved (escrow_amount_cents r))
                  else ret 0) (\<lambda>_.
           select e (find_escrow job))))"

definition consume_escrow :: "env \<Rightarrow> string \<Rightarrow> string option \<Rightarrow> (db, escrow option) prog" where
  "consume_escrow e job note = resolve_escrow e EscrowConsumed job note"

definition release_escrow :: "env \<Rightarrow> string \<Rightarrow> string option \<Rightarrow> (db, escrow option) prog" where
  "release_escrow e job note = resolve_escrow e EscrowReleased job note"

definition active_escrowed :: "string \<Rightarrow> db \<Rightarrow> int" where
  "active_escrowed wid d =
     sum_where (\<lambda>r. caller_escrow_wallet_id r = wid \<and> escrow_status r = EscrowActive) escrow_amount_cents
       (job_caller_escrow d)"

definition active_for_wallet :: "env \<Rightarrow> string \<Rightarrow> (db, int) prog" where
  "active_for_wallet e wid = select e (active_escrowed wid)"

definition reserve_for_async_job ::
  "env \<Rightarrow> int \<Rightarrow> string \<Rightarrow> string \<Rightarrow> int \<Rightarrow> bool \<Rightarrow> (db, string) prog" where
  "reserve_for_async_job e hours job wid amount require_balance =
     (if amount < 0 then throw (ValueError ''amount_cents must be >= 0'')
      else transact
        (bindE (if require_balance \<and> 0 < amount then
                  bindE (select e (find_wallet wid)) (\<lambda>row.
                  case row of
                    None \<Rightarrow> throw (ValueError ''Wallet not found.'')
                  | Some w \<Rightarrow> raise_if (balance_cents w - held_cents w < amount)
                                (ValueError ''insufficient_available_balance''))
                else ret ()) (\<lambda>_.
         bindE (whenE (0 < amount) (bindE (reserve e hours job wid amount) (\<lambda>_. ret ()))) (\<lambda>_.
         ret (ESCROW_TX_PREFIX @ job)))))"

text \<open>
  The conversion of an escrow into a charge. The arguments of \<open>_insert_tx\<close> are those of the source:
  the amount is positive, and the agent's identifier stands in the position of \<open>related_tx_id\<close>.
\<close>

definition escrow_charge_memo :: "string \<Rightarrow> string" where
  "escrow_charge_memo job = ''escrow_consumed:'' @ job"

definition settle_escrow_to_charge ::
  "env \<Rightarrow> nat \<Rightarrow> string \<Rightarrow> string \<Rightarrow> (db, string option) prog" where
  "settle_escrow_to_charge e k job agent =
     bindE (select e (find_escrow job)) (\<lambda>row.
     case row of
       None \<Rightarrow> ret None
     | Some r \<Rightarrow>
         if escrow_status r \<noteq> EscrowActive then ret None
         else
           bindE (consume_escrow e job (Some ''escrow_consumed'')) (\<lambda>_.
           if escrow_amount_cents r \<le> 0 then ret None
           else
             bindE (insert_tx e k (caller_escrow_wallet_id r) Charge (escrow_amount_cents r) None (Some agent)
                      (escrow_charge_memo job) None) (\<lambda>tx.
             bindE (update_wallets e (\<lambda>w. wallet_id w = caller_escrow_wallet_id r)
                      (add_balance (- escrow_amount_cents r))) (\<lambda>_.
             ret (Some tx)))))"

definition release_expired_escrows :: "env \<Rightarrow> int \<Rightarrow> (db, nat) prog" where
  "release_expired_escrows e limit =
     transact
       (bindE (select e (\<lambda>d.
          map escrow_job_id (take (nat (min (max 1 limit) 500))
            (filter (\<lambda>r. escrow_status r = EscrowActive \<and> escrow_expires_at r < now e)
              (job_caller_escrow d))))) (\<lambda>rows.
        count_each rows (\<lambda>job.
          catch_when is_value_error
            (bindE (release_escrow e job (Some ''window_expired'')) (\<lambda>result. ret (result \<noteq> None)))
            (ret False))))"

lemma drop_reserved_simps [simp]:
  "wallet_id (drop_reserved a w) = wallet_id w" "balance_cents (drop_reserved a w) = balance_cents w"
  "wallet_check (drop_reserved a w) = wallet_check w"
  by (simp_all add: drop_reserved_def wallet_check_def)

lemma reserved_frame [simp]:
  "active_held w (d\<lparr>wallets := ws\<rparr>) = active_held w d" "active_held w (d\<lparr>tx_failed := b\<rparr>) = active_held w d"
  "active_escrowed w (d\<lparr>wallets := ws\<rparr>) = active_escrowed w d"
  "active_escrowed w (d\<lparr>tx_failed := b\<rparr>) = active_escrowed w d"
  by (simp_all add: active_held_def active_escrowed_def)

section \<open>The ledger is not touched by reservations\<close>

context ledger_invariant begin

lemma keeps_reserve: "keeps P (reserve e hours job wid a)"
  unfolding reserve_def
  by (intro keeps_if keeps_throw keeps_bindE keeps_select keeps_case_option keeps_ret
      keeps_other_insert keeps_rewriting) simp_all

lemma keeps_resolve_escrow: "keeps P (resolve_escrow e final job note)"
  unfolding resolve_escrow_def
  by (intro keeps_if keeps_throw keeps_bindE keeps_select keeps_case_option keeps_ret
      keeps_other_update keeps_rewriting) simp_all

lemma keeps_reserve_for_async_job: "keeps P (reserve_for_async_job e hours job wid a b)"
  unfolding reserve_for_async_job_def
  by (intro keeps_if keeps_throw keeps_transact_P keeps_ensures keeps_bindE keeps_select
      keeps_case_option keeps_raise_if keeps_whenE keeps_reserve keeps_ret)

lemma keeps_release_expired_escrows: "keeps P (release_expired_escrows e n)"
  unfolding release_expired_escrows_def release_escrow_def
  by (intro keeps_transact_P keeps_ensures keeps_bindE keeps_select keeps_count_each
      keeps_catch_when keeps_resolve_escrow keeps_ret)

end

section \<open>The held cache\<close>

definition escrow_active :: "escrow \<Rightarrow> bool" where
  "escrow_active r \<longleftrightarrow> escrow_status r = EscrowActive"

definition escrows_cached :: "(string \<Rightarrow> int) \<Rightarrow> db \<Rightarrow> bool" where
  "escrows_cached x d \<longleftrightarrow>
     held_cache job_caller_escrow escrow_job_id caller_escrow_wallet_id escrow_amount_cents escrow_active x d"

interpretation escrow_table: reservation job_caller_escrow "\<lambda>rs d. d\<lparr>job_caller_escrow := rs\<rparr>"
  escrow_job_id caller_escrow_wallet_id escrow_amount_cents escrow_active
  by unfold_locales simp_all

lemma escrows_cached_flag [simp]: "escrows_cached x (d\<lparr>tx_failed := b\<rparr>) = escrows_cached x d"
  unfolding escrows_cached_def using escrow_table.cached_flag_free by (rule flag_freeD)

lemma escrows_cached_abort [simp]: "escrows_cached x (abort_tx e d) = escrows_cached x d"
  by (simp add: abort_tx_def)

lemma escrows_cachedD:
  assumes "escrows_cached x d"
  shows "distinct (map wallet_id (wallets d))" "distinct (map escrow_job_id (job_caller_escrow d))"
    and "w \<in> set (wallets d) \<Longrightarrow> held_cents w = active_escrowed (wallet_id w) d + x (wallet_id w)"
    and "w \<in> set (wallets d) \<Longrightarrow> wallet_check w"
    and "r \<in> set (job_caller_escrow d) \<Longrightarrow> 0 < escrow_amount_cents r"
  using assms by (auto simp: escrows_cached_def held_cache_def active_escrowed_def escrow_active_def)

lemma find_escrow_in: "find_escrow job d = Some r \<Longrightarrow> r \<in> set (job_caller_escrow d) \<and> escrow_job_id r = job"
  by (auto simp: find_escrow_def dest: find_SomeD)

lemma keeps_reserve_cached: "keeps (escrows_cached x) (reserve e hours job wid a)"
proof (rule wp_keeps)
  fix d assume c: "escrows_cached x d"
  have "escrows_cached x (d\<lparr>job_caller_escrow := job_caller_escrow d @ [new_escrow e hours job wid a],
      wallets := update_rows (\<lambda>w. wallet_id w = wid) (add_held a) (wallets d)\<rparr>)"
    if "escrow_insertable (new_escrow e hours job wid a) d"
    using escrow_table.cached_open [of x d "new_escrow e hours job wid a"] that c
    by (auto simp: escrows_cached_def escrow_active_def escrow_insertable_def exists_row_iff new_escrow_def)
  then show "wp (reserve e hours job wid a) (\<lambda>_. escrows_cached x) (\<lambda>_. escrows_cached x) d"
    using c escrows_cachedD(4) [OF c]
    by (auto simp: reserve_def wp_simps pg_failed_def split: option.split)
qed

definition resolve_state :: "env \<Rightarrow> escrow_state \<Rightarrow> string option \<Rightarrow> escrow \<Rightarrow> db \<Rightarrow> db" where
  "resolve_state e final note r d =
     d\<lparr>job_caller_escrow := update_rows (\<lambda>s. escrow_job_id s = escrow_job_id r) (escrow_resolved e final note)
         (job_caller_escrow d),
       wallets := update_rows (\<lambda>w. wallet_id w = caller_escrow_wallet_id r)
         (add_held (- escrow_amount_cents r)) (wallets d)\<rparr>"

lemma wp_resolve_escrow:
  assumes c: "escrows_cached x d" and x: "\<And>w. 0 \<le> x w" and r: "find_escrow job d = Some r" "escrow_active r"
    and w: "caller_escrow_wallet_id r \<noteq> []" and final: "final \<noteq> EscrowActive" and pg: "\<not> pg_failed e d"
  shows "wp (resolve_escrow e final job note) Q E d =
     Q (Some (escrow_resolved e final note r)) (resolve_state e final note r d)"
proof -
  have rin: "r \<in> set (job_caller_escrow d)" and j: "escrow_job_id r = job"
    using find_escrow_in [OF r(1)] by auto
  have pos: "0 < escrow_amount_cents r" using escrows_cachedD(5) [OF c rin] .
  have rows: "update_rows (\<lambda>s. escrow_job_id s = job \<and> escrow_status s = EscrowActive) f (job_caller_escrow d) =
      update_rows (\<lambda>s. escrow_job_id s = escrow_job_id r) f (job_caller_escrow d)" for f
    using update_rows_key_guard [OF escrows_cachedD(2) [OF c] rin, of escrow_active] r(2) j
    by (simp add: escrow_active_def)
  have "drop_reserved (escrow_amount_cents r) v = add_held (- escrow_amount_cents r) v"
    if "v \<in> set (wallets d)" "wallet_id v = caller_escrow_wallet_id r" for v
  proof -
    have "escrow_amount_cents r \<le> held_cents v"
      using escrow_table.reserved_ge [of x d r] c rin r(2) escrows_cachedD(3) [OF c that(1)] x [of "wallet_id v"] that(2)
      by (simp add: escrows_cached_def active_escrowed_def escrow_active_def)
    then show ?thesis by (simp add: drop_reserved_def add_held_def)
  qed
  then have ws: "update_rows (\<lambda>w. wallet_id w = caller_escrow_wallet_id r) (drop_reserved (escrow_amount_cents r)) (wallets d) =
      update_rows (\<lambda>w. wallet_id w = caller_escrow_wallet_id r) (add_held (- escrow_amount_cents r)) (wallets d)"
    by (auto simp: update_rows_def)
  have fnd: "find (\<lambda>s. escrow_job_id s = job) (update_rows (\<lambda>s. escrow_job_id s = escrow_job_id r)
      (escrow_resolved e final note) (job_caller_escrow d)) = Some (escrow_resolved e final note r)"
    using r(1) j by (simp add: find_update_same find_escrow_def)
  show ?thesis
    using pg r final pos w escrows_cachedD(4,5) [OF c]
    by (auto simp: resolve_escrow_def wp_simps escrow_active_def pg_failed_def rows ws resolve_state_def
        find_escrow_def fnd)
qed

lemma resolve_state_cached:
  assumes "escrows_cached x d" and "r \<in> set (job_caller_escrow d)" and "escrow_active r" and "final \<noteq> EscrowActive"
  shows "escrows_cached x (resolve_state e final note r d)"
proof -
  have "update_rows (\<lambda>s. escrow_job_id s = escrow_job_id r \<and> escrow_active s) (escrow_resolved e final note) (job_caller_escrow d) =
      update_rows (\<lambda>s. escrow_job_id s = escrow_job_id r) (escrow_resolved e final note) (job_caller_escrow d)"
    using update_rows_key_guard [OF escrows_cachedD(2) [OF assms(1)] assms(2)] assms(3) .
  then show ?thesis
    using escrow_table.cached_close [of x d r "escrow_resolved e final note"] assms
    by (simp add: escrows_cached_def resolve_state_def escrow_active_def)
qed

section \<open>What the operations do\<close>

definition escrow_ok :: "(string \<Rightarrow> int) \<Rightarrow> db \<Rightarrow> bool" where
  "escrow_ok x d \<longleftrightarrow> escrows_cached x d \<and> (\<forall>w. 0 \<le> x w)"

definition held_of :: "string \<Rightarrow> db \<Rightarrow> int" where
  "held_of w d = (case find_wallet w d of None \<Rightarrow> 0 | Some v \<Rightarrow> held_cents v)"

definition sample_escrow :: escrow where
  "sample_escrow = \<lparr>escrow_job_id = ''j1'', caller_escrow_wallet_id = ''w1'', escrow_amount_cents = 80,
     escrow_created_at = 1600000000000000, escrow_expires_at = 1800000000000000,
     escrow_status = EscrowActive, escrow_resolved_at = None, escrow_resolution_note = None\<rparr>"

definition sample_escrow_db :: db where
  "sample_escrow_db = sample_db\<lparr>wallets := [sample_caller\<lparr>held_cents := 80\<rparr>, sample_wallet ''w2'' ''agent:bob'' 0],
     transactions := [sample_tx ''t1'' ''w1'' 500], job_caller_escrow := [sample_escrow]\<rparr>"

lemmas sample_escrow_defs = sample_escrow_db_def sample_escrow_def sample_defs

lemma sample_escrow_facts:
  "ledger_ok sample_escrow_db" "escrow_ok (\<lambda>_. 0) sample_escrow_db"
  "escrows_cached (\<lambda>w. active_held w sample_escrow_db) sample_escrow_db"
  "find_escrow ''j1'' sample_escrow_db = Some sample_escrow" "find_escrow ''j2'' sample_escrow_db = None"
  "has_wallet ''w1'' sample_escrow_db" "\<not> tx_failed sample_escrow_db"
  "new_id (uuid (sample_env b) k) sample_escrow_db" "unsettled agent Charge w sample_escrow_db"
  by (simp_all add: sample_escrow_defs ledger_ok_def ledger_sum_def wallet_check_def escrow_ok_def
      escrows_cached_def held_cache_def escrow_active_def active_held_def find_escrow_def has_wallet_def
      new_id_def unsettled_def)

text \<open>
  A reservation is granted only against available funds, and it is all that changes: when
  \<open>reserve_for_async_job\<close> returns for a job that has no reservation yet, the wallet had balance less
  reservations of at least the amount, its reservations grew by the amount, no balance moved and
  nothing was written to the ledger; a refusal changes nothing.
\<close>

theorem reserve_secures_available_funds:
  assumes "escrow_ok x d" and "find_escrow job d = None" and "0 < a"
  shows "wp (reserve_for_async_job e hours job wid a True)
     (\<lambda>tx d'. is_escrow_tx_id tx \<and> job_id_from_sentinel tx = Inr job \<and> escrow_ok x d' \<and>
        a \<le> balance_of wid d - held_of wid d \<and> held_of wid d' = held_of wid d + a \<and>
        active_escrowed wid d' = active_escrowed wid d + a \<and>
        (\<forall>w. balance_of w d' = balance_of w d) \<and> (\<forall>w. w \<noteq> wid \<longrightarrow> held_of w d' = held_of w d) \<and>
        transactions d' = transactions d)
     (\<lambda>ex d'. wallets d' = wallets d \<and> transactions d' = transactions d \<and>
        job_caller_escrow d' = job_caller_escrow d) d"
proof -
  have c: "escrows_cached x (d\<lparr>tx_failed := False\<rparr>)" and x: "\<forall>w. 0 \<le> x w"
    using assms(1) by (simp_all add: escrow_ok_def)
  let ?d' = "d\<lparr>tx_failed := False, job_caller_escrow := job_caller_escrow d @ [new_escrow e hours job wid a],
      wallets := update_rows (\<lambda>w. wallet_id w = wid) (add_held a) (wallets d)\<rparr>"
  have c': "escrows_cached x ?d'" if "escrow_insertable (new_escrow e hours job wid a) (d\<lparr>tx_failed := False\<rparr>)"
    using escrow_table.cached_open [of x "d\<lparr>tx_failed := False\<rparr>" "new_escrow e hours job wid a"] that c
    by (auto simp: escrows_cached_def escrow_active_def escrow_insertable_def exists_row_iff new_escrow_def)
  have fw: "find (\<lambda>v. wallet_id v = w) (update_rows (\<lambda>w. wallet_id w = wid) (add_held a) (wallets d)) =
      map_option (\<lambda>v. if wallet_id v = wid then add_held a v else v) (find_wallet w d)" for w
    by (simp add: find_update_same find_wallet_def)
  have b: "balance_of w ?d' = balance_of w d" for w
    by (simp add: balance_of_def find_wallet_def [of w ?d'] fw split: option.split)
  have h: "held_of w ?d' = held_of w d + (if w = wid then a else 0)" if "find_wallet wid d \<noteq> None" for w
    using that by (auto simp: held_of_def find_wallet_def [of w ?d'] fw dest: find_wallet_id split: option.splits)
  have act: "active_escrowed wid ?d' = active_escrowed wid d + a"
    by (simp add: active_escrowed_def new_escrow_def)
  have tx: "is_escrow_tx_id (ESCROW_TX_PREFIX @ job)" "job_id_from_sentinel (ESCROW_TX_PREFIX @ job) = Inr job"
    by (simp_all add: is_escrow_tx_id_def job_id_from_sentinel_def)
  have fe: "find_escrow job (d\<lparr>tx_failed := False\<rparr>) = None" using assms(2) by (simp add: find_escrow_def)
  show ?thesis
  proof (cases "find_wallet wid d")
    case None
    then show ?thesis using assms(3) by (simp add: reserve_for_async_job_def wp_simps)
  next
    case (Some w)
    then have bw: "balance_of wid d = balance_cents w" "held_of wid d = held_cents w"
      by (simp_all add: balance_of_def held_of_def)
    show ?thesis
      using assms(3) x fe Some c' b h act tx bw escrows_cachedD(4) [OF c]
      by (auto simp: reserve_for_async_job_def reserve_def wp_simps pg_failed_def escrow_ok_def)
  qed
qed

theorem reserve_secures_available_funds_witness:
  "wp (reserve_for_async_job (sample_env SQLite) 48 ''j2'' ''w1'' 420 True)
     (\<lambda>_ d'. held_of ''w1'' d' = held_of ''w1'' sample_escrow_db + 420)
     (\<lambda>_ d'. wallets d' = wallets sample_escrow_db) sample_escrow_db"
  by (rule wp_post_mono [OF reserve_secures_available_funds [OF sample_escrow_facts(2,5)]]) simp_all

text \<open>
  Reserving and releasing is a round trip: releasing the reservation of a job gives the wallet
  back exactly what was reserved, without a movement of money, and a second release is a no-op.
\<close>

theorem release_escrow_restores:
  assumes "escrow_ok x d" and "find_escrow job d = Some r" and "escrow_active r"
    and "caller_escrow_wallet_id r \<noteq> []" and "\<not> tx_failed d"
  shows "wp (bindE (release_escrow e job note) (\<lambda>_. release_escrow e job note2))
     (\<lambda>res d'. res = Some (escrow_resolved e EscrowReleased note r) \<and> escrow_ok x d' \<and>
        wallets d' = update_rows (\<lambda>w. wallet_id w = caller_escrow_wallet_id r)
          (add_held (- escrow_amount_cents r)) (wallets d) \<and>
        active_escrowed (caller_escrow_wallet_id r) d' =
          active_escrowed (caller_escrow_wallet_id r) d - escrow_amount_cents r \<and>
        transactions d' = transactions d)
     (\<lambda>_ _. False) d"
proof -
  let ?d1 = "resolve_state e EscrowReleased note r d"
  have c: "escrows_cached x d" and x: "\<And>w. 0 \<le> x w" using assms(1) by (auto simp: escrow_ok_def)
  have rin: "r \<in> set (job_caller_escrow d)" and j: "escrow_job_id r = job"
    using find_escrow_in [OF assms(2)] by auto
  have c1: "escrows_cached x ?d1" using resolve_state_cached [OF c rin assms(3)] by simp
  have pg: "\<not> pg_failed e d" using assms(5) by (simp add: pg_failed_def)
  then have pg1: "\<not> pg_failed e ?d1" by (simp add: pg_failed_def resolve_state_def)
  have f1: "find_escrow job ?d1 = Some (escrow_resolved e EscrowReleased note r)"
    using assms(2) j by (simp add: resolve_state_def find_update_same find_escrow_def)
  have act: "active_escrowed (caller_escrow_wallet_id r) ?d1 =
      active_escrowed (caller_escrow_wallet_id r) d - escrow_amount_cents r"
    using sum_where_update_key [OF escrows_cachedD(2) [OF c] rin, of "escrow_resolved e EscrowReleased note"
        "\<lambda>s. caller_escrow_wallet_id s = caller_escrow_wallet_id r \<and> escrow_status s = EscrowActive"
        escrow_amount_cents] assms(3)
    by (simp add: active_escrowed_def resolve_state_def escrow_active_def)
  have "wp (release_escrow e job note2) Q E ?d1 = Q (Some (escrow_resolved e EscrowReleased note r)) ?d1" for Q E
    using f1 pg1 by (simp add: release_escrow_def resolve_escrow_def wp_simps)
  then show ?thesis
    using wp_resolve_escrow [OF c x assms(2,3,4), of EscrowReleased e "note"] pg c1 x act
    by (simp add: wp_bindE release_escrow_def escrow_ok_def resolve_state_def)
qed

theorem release_escrow_restores_witness:
  "wp (bindE (release_escrow (sample_env SQLite) ''j1'' None) (\<lambda>_. release_escrow (sample_env SQLite) ''j1'' None))
     (\<lambda>_ d'. transactions d' = transactions sample_escrow_db) (\<lambda>_ _. False) sample_escrow_db"
  by (rule wp_post_mono [OF release_escrow_restores [OF sample_escrow_facts(2,4)]])
    (simp_all add: sample_escrow_def escrow_active_def sample_escrow_facts(7))

text \<open>
  C39. Settling an escrow does not charge the caller. The entry is written with the positive amount,
  so the credit it applies cancels the debit that follows: no balance moves, the caller's ledger
  grows by the amount, and the balance cache no longer agrees with the ledger.
\<close>

theorem escrow_settlement_does_not_debit:
  assumes "ledger_ok d" and "escrow_ok x d" and "find_escrow job d = Some r" and "escrow_active r"
    and "has_wallet (caller_escrow_wallet_id r) d" and "caller_escrow_wallet_id r \<noteq> []"
    and "new_id (uuid e k) d" and "unsettled agent Charge (caller_escrow_wallet_id r) d" and "\<not> tx_failed d"
  shows "wp (settle_escrow_to_charge e k job agent)
     (\<lambda>tx d'. tx = Some (uuid e k) \<and> (\<forall>w. balance_of w d' = balance_of w d) \<and>
        ledger_sum (caller_escrow_wallet_id r) d' =
          ledger_sum (caller_escrow_wallet_id r) d + escrow_amount_cents r \<and>
        \<not> ledger_ok d')
     (\<lambda>_ _. False) d"
proof -
  let ?w = "caller_escrow_wallet_id r" and ?a = "escrow_amount_cents r"
  let ?n = "Some ''escrow_consumed''"
  define d1 where "d1 = resolve_state e EscrowConsumed ?n r d"
  define t where "t = tx_entry e k ?w Charge ?a None (Some agent) (escrow_charge_memo job) None d1"
  define d2 where "d2 = (post t d1)\<lparr>wallets :=
     update_rows (\<lambda>w. wallet_id w = ?w) (add_balance (- ?a)) (wallets (post t d1))\<rparr>"
  have c: "escrows_cached x d" and x: "\<And>w. 0 \<le> x w" using assms(2) by (auto simp: escrow_ok_def)
  have a: "0 < ?a" using escrows_cachedD(5) [OF c] find_escrow_in [OF assms(3)] by auto
  have pg: "\<not> pg_failed e d" "\<not> pg_failed e d1" using assms(9) by (simp_all add: pg_failed_def d1_def resolve_state_def)
  have l1: "ledger_ok d1"
    using ledger_ok_rewriting [of "d\<lparr>job_caller_escrow := job_caller_escrow d1\<rparr>" "add_held (- ?a)" "\<lambda>w. wallet_id w = ?w"]
      assms(1) ledger_ok_tables [of "d\<lparr>job_caller_escrow := job_caller_escrow d1\<rparr>" d] ledger_okD(3) [OF assms(1)]
    by (simp add: d1_def resolve_state_def)
  have tr: "transactions d1 = transactions d" by (simp add: d1_def resolve_state_def)
  have h1: "has_wallet ?w d1" using assms(5) by (simp add: has_wallet_def d1_def resolve_state_def exists_row_update)
  have i: "tx_insertable t d1"
    using assms(7,8) by (simp add: t_def insertable_entry new_id_def unsettled_def tr)
  have f: "funded t d1" using l1 a by (intro funded_nonneg) (simp_all add: t_def)
  have l2: "ledger_ok (post t d1)" using l1 i f by (rule ledger_ok_post)
  have d2w: "wallets d2 = wallets d1"
    by (auto simp: d2_def t_def update_rows_def add_balance_def intro!: map_idI)
  have b: "balance_of w d2 = balance_of w d" for w
    by (simp add: balance_of_def find_wallet_def d2w d1_def resolve_state_def find_update_same split: option.split)
  have s: "ledger_sum ?w d2 = ledger_sum ?w d + ?a" by (simp add: ledger_sum_def d2_def t_def tr)
  have "\<not> ledger_ok d2"
  proof
    assume "ledger_ok d2"
    moreover have "has_wallet ?w d2" using h1 by (simp add: has_wallet_def d2w)
    ultimately have "balance_of ?w d2 = ledger_sum ?w d2" by (rule balance_of_ledger)
    with b s a balance_of_ledger [OF assms(1,5)] show False by simp
  qed
  moreover have "\<forall>v\<in>set (wallets (post t d1)). wallet_id v = ?w \<longrightarrow> wallet_check (add_balance (- ?a) v)"
    using ledger_okD(3) [OF l1] by (auto simp: ball_update_rows t_def wallet_check_def)
  ultimately show ?thesis
    using assms(3,4) a pg b s wp_resolve_escrow [OF c x assms(3,4,6), of EscrowConsumed e ?n] l1 i f
    by (simp add: settle_escrow_to_charge_def consume_escrow_def wp_simps escrow_active_def Let_def
        d2_def [simplified, symmetric] flip: d1_def t_def)
qed

theorem escrow_settlement_does_not_debit_witness:
  "wp (settle_escrow_to_charge (sample_env SQLite) 0 ''j1'' ''bob'')
     (\<lambda>_ d'. balance_of ''w1'' d' = balance_of ''w1'' sample_escrow_db \<and> \<not> ledger_ok d')
     (\<lambda>_ _. False) sample_escrow_db"
  by (rule wp_post_mono [OF escrow_settlement_does_not_debit [OF sample_escrow_facts(1,2,4)]])
    (simp_all add: escrow_active_def sample_escrow_facts, simp_all add: sample_escrow_def sample_escrow_facts)

text \<open>
  Two jobs of one caller with one agent: the second escrow cannot be settled. The unique index
  on (related_tx_id, type, wallet_id) sees the agent's identifier twice and the statement fails.
\<close>

theorem second_escrow_settlement_fails:
  assumes "ledger_ok d" and "escrow_ok x d" and "find_escrow job d = Some r" and "escrow_active r"
    and "caller_escrow_wallet_id r \<noteq> []"
    and "\<not> unsettled agent Charge (caller_escrow_wallet_id r) d" and "\<not> tx_failed d"
  shows "wp (settle_escrow_to_charge e k job agent) (\<lambda>_ _. False) (\<lambda>ex _. ex = IntegrityError) d"
proof -
  let ?w = "caller_escrow_wallet_id r" and ?a = "escrow_amount_cents r"
  let ?n = "Some ''escrow_consumed''"
  define d1 where "d1 = resolve_state e EscrowConsumed ?n r d"
  have c: "escrows_cached x d" and x: "\<And>w. 0 \<le> x w" using assms(2) by (auto simp: escrow_ok_def)
  have a: "0 < ?a" using escrows_cachedD(5) [OF c] find_escrow_in [OF assms(3)] by auto
  have pg: "\<not> pg_failed e d" "\<not> pg_failed e d1" using assms(7) by (simp_all add: pg_failed_def d1_def resolve_state_def)
  have "\<not> tx_insertable (tx_entry e k ?w Charge ?a None (Some agent) (escrow_charge_memo job) None d1) d1"
    using assms(6) by (simp add: insertable_entry unsettled_def d1_def resolve_state_def)
  then show ?thesis
    using assms(3,4) a pg wp_resolve_escrow [OF c x assms(3,4,5), of EscrowConsumed e ?n]
    by (simp add: settle_escrow_to_charge_def consume_escrow_def wp_bindE wp_select wp_if wp_insert_tx
        escrow_active_def Let_def flip: d1_def)
qed

theorem second_escrow_settlement_fails_witness:
  "wp (settle_escrow_to_charge (sample_env Postgres) 0 ''j1'' ''bob'') (\<lambda>_ _. False)
     (\<lambda>ex _. ex = IntegrityError)
     (sample_escrow_db\<lparr>transactions := [sample_tx ''t1'' ''w1'' 420,
        (sample_tx ''t9'' ''w1'' 80)\<lparr>tx_kind := Charge, related_tx_id := Some ''bob''\<rparr>]\<rparr>)"
  by (rule second_escrow_settlement_fails [where x = "\<lambda>_. 0" and r = sample_escrow])
    (simp_all add: sample_escrow_defs ledger_ok_def ledger_sum_def wallet_check_def escrow_ok_def
      escrows_cached_def held_cache_def escrow_active_def find_escrow_def unsettled_def settlement_key_def)

text \<open>
  Repairing the held cache of a wallet with an active caller reservation erases the reservation
  from the cache: \<open>repair_wallet_held_cache\<close> counts the agent holds only, while the reservation
  row stays active, so the reserved funds read as available again.
\<close>

theorem repair_erases_reservations:
  assumes "escrows_cached (\<lambda>w. active_held w d) d" and "has_wallet wid d"
  shows "wp (repair_wallet_held_cache e wid)
     (\<lambda>snap d'. held_of wid d' = held_of wid d - active_escrowed wid d \<and>
        active_escrowed wid d' = active_escrowed wid d \<and> held_drift_cents snap = 0)
     (\<lambda>_ _. False) d"
proof -
  obtain w where w: "find_wallet wid d = Some w" using assms(2) by (auto simp: has_wallet_find)
  have win: "w \<in> set (wallets d)" "wallet_id w = wid" using w by (auto dest: find_wallet_in find_wallet_id)
  have held: "held_cents w = active_escrowed wid d + active_held wid d"
    using escrows_cachedD(3) [OF assms(1) win(1)] win(2) by simp
  have n: "count_where (\<lambda>v. wallet_id v = wid \<and> held_cents v = held_cents w) (wallets d) \<noteq> 0"
    using win by (auto simp: count_where_0 simp del: neq0_conv)
  have ck: "\<forall>v\<in>set (wallets d). wallet_check (v\<lparr>held_cents := h\<rparr>)" for h
    using escrows_cachedD(4) [OF assms(1)] by (simp add: wallet_check_def)
  have rw: "update_rows (\<lambda>v. wallet_id v = wid \<and> held_cents v = held_cents w) f (wallets d) =
      update_rows (\<lambda>v. wallet_id v = wid) f (wallets d)" for f
    using update_rows_key_guard [OF escrows_cachedD(1) [OF assms(1)] win(1), of "\<lambda>v. held_cents v = held_cents w"] win(2)
    by simp
  have fw: "find (\<lambda>v. wallet_id v = wid) (update_rows (\<lambda>v. wallet_id v = wid) (\<lambda>v. v\<lparr>held_cents := h\<rparr>) (wallets d)) =
      Some (w\<lparr>held_cents := h\<rparr>)" for h
    using w win(2) by (simp add: find_update_same find_wallet_def)
  show ?thesis
    using w held n [unfolded held] ck fw
    by (auto simp: repair_wallet_held_cache_def held_snapshot_conn_def wp_simps find_wallet_def
        rw [unfolded held] held_of_def pg_failed_def)
qed
theorem repair_erases_reservations_witness:
  "wp (repair_wallet_held_cache (sample_env Postgres) ''w1'')
     (\<lambda>_ d'. held_of ''w1'' d' = held_of ''w1'' sample_escrow_db - active_escrowed ''w1'' sample_escrow_db)
     (\<lambda>_ _. False) sample_escrow_db"
  by (rule wp_post_mono [OF repair_erases_reservations [OF sample_escrow_facts(3,6)]]) simp_all

end
