(* ===== verification/Settlement.thy ===== *)
theory Settlement
  imports Caller_Escrow
begin

text \<open>
  Settlement of a call: \<open>post_call_payout\<close>, \<open>post_call_refund\<close> and \<open>post_call_partial_settle\<close> of
  \<open>core/payments/base.py\<close>, and \<open>post_call_refund_difference\<close> of
  \<open>core/payments/variable_pricing.py\<close>. Logging and metrics are left out; the \<open>FOR UPDATE\<close> read of
  the charge row orders concurrent transactions and changes no row.
\<close>

section \<open>Payout\<close>

definition has_related :: "string \<Rightarrow> tx_type list \<Rightarrow> db \<Rightarrow> bool" where
  "has_related c kinds d =
     exists_row (\<lambda>t. related_tx_id t = Some c \<and> tx_kind t \<in> set kinds) (transactions d)"

definition update_jobs_unchecked ::
  "env \<Rightarrow> (job \<Rightarrow> bool) \<Rightarrow> (job \<Rightarrow> job) \<Rightarrow> (db, nat) prog" where
  "update_jobs_unchecked e = update_stmt e jobs (\<lambda>js d. d\<lparr>jobs := js\<rparr>) (\<lambda>_. True)"

definition payout_memo :: "string \<Rightarrow> string" where
  "payout_memo charge_tx = ''Agent payout for call '' @ take 8 charge_tx"

definition fee_memo :: "string \<Rightarrow> string" where
  "fee_memo charge_tx = ''Platform fee for call '' @ take 8 charge_tx"

definition refund_memo :: "string \<Rightarrow> string" where
  "refund_memo charge_tx = ''Refund for failed call '' @ take 8 charge_tx"

text \<open>\<open>try: _insert_tx(...) except IntegrityError: pass\<close>, run only for a positive amount.\<close>

definition insert_once ::
  "env \<Rightarrow> nat \<Rightarrow> string \<Rightarrow> tx_type \<Rightarrow> int \<Rightarrow> string \<Rightarrow> string \<Rightarrow> string \<Rightarrow> (db, unit) prog" where
  "insert_once e k wid kind amount agent charge_tx memo_text =
     catch_when is_integrity
       (whenE (0 < amount)
          (bindE (insert_tx e k wid kind amount (Some agent) (Some charge_tx) memo_text None) (\<lambda>_. ret ())))
       (ret ())"

definition hold_amount ::
  "string option \<Rightarrow> int option \<Rightarrow> int \<Rightarrow> (string \<times> rat) list option \<Rightarrow> int" where
  "hold_amount job window agent_cents payout_curve =
     (case (job, window) of
        (Some j, Some h) \<Rightarrow>
          if j \<noteq> [] \<and> h \<noteq> 0 \<and> 0 < agent_cents then compute_hold_cents agent_cents payout_curve else 0
      | _ \<Rightarrow> 0)"

text \<open>The deferred debit of an escrowed job, in a transaction of its own.\<close>

definition charge_escrow :: "env \<Rightarrow> nat \<Rightarrow> string \<Rightarrow> string \<Rightarrow> (db, string option) prog" where
  "charge_escrow e k charge_tx agent =
     (case job_id_from_sentinel charge_tx of
        Inl ex \<Rightarrow> throw ex
      | Inr escrow_job \<Rightarrow>
          transact
            (bindE get_state (\<lambda>d0.
             bindE (settle_escrow_to_charge e k escrow_job agent) (\<lambda>real_tx.
             case real_tx of
               None \<Rightarrow> bindE (rollback_to d0) (\<lambda>_. ret None)
             | Some tx \<Rightarrow>
                 bindE (update_jobs_unchecked e (\<lambda>j. job_id j = escrow_job) (\<lambda>j. j\<lparr>charge_tx_id := tx\<rparr>)) (\<lambda>_.
                 ret (Some tx))))))"

text \<open>
  The payout transaction. The handler of \<open>LookupError\<close> rolls back and raises again, as leaving the
  block with the exception does.
\<close>

definition payout_transaction ::
  "env \<Rightarrow> string \<Rightarrow> string \<Rightarrow> string \<Rightarrow> int \<Rightarrow> int \<Rightarrow> string \<Rightarrow> int \<Rightarrow> string option \<Rightarrow> int option \<Rightarrow> (db, unit) prog" where
  "payout_transaction e agent_wallet platform_wallet charge_tx agent_cents fee_cents agent hold_cents job window =
     transact
       (bindE (select e (has_related charge_tx [Refund])) (\<lambda>refund_exists.
        if refund_exists then ret ()
        else
          bindE (insert_once e 1 agent_wallet Payout agent_cents agent charge_tx (payout_memo charge_tx)) (\<lambda>_.
          bindE (insert_once e 2 platform_wallet Fee fee_cents agent charge_tx (fee_memo charge_tx)) (\<lambda>_.
          whenE (0 < hold_cents)
            (bindE (create_hold_conn e 3 agent_wallet (or_empty job) hold_cents
                      (case window of None \<Rightarrow> 0 | Some h \<Rightarrow> h)) (\<lambda>_. ret ()))))))"

definition post_call_payout ::
  "env \<Rightarrow> string \<Rightarrow> string \<Rightarrow> string \<Rightarrow> int \<Rightarrow> string \<Rightarrow> int option \<Rightarrow> string option \<Rightarrow> string option \<Rightarrow>
   int option \<Rightarrow> (string \<times> rat) list option \<Rightarrow> (db, unit) prog" where
  "post_call_payout e agent_wallet platform_wallet charge_tx price agent fee_pct fee_bearer job window payout_curve =
     (case compute_success_distribution (PLATFORM_FEE_PCT e) price fee_pct fee_bearer of
        Inl ex \<Rightarrow> throw ex
      | Inr shares \<Rightarrow>
          let fee_cents = dist_platform_fee_cents shares;
              agent_cents = dist_agent_payout_cents shares;
              hold_cents = hold_amount job window agent_cents payout_curve
          in bindE (if is_escrow_tx_id charge_tx then charge_escrow e 0 charge_tx agent
                    else ret (Some charge_tx)) (\<lambda>resolved.
             case resolved of
               None \<Rightarrow> ret ()
             | Some tx \<Rightarrow>
                 payout_transaction e agent_wallet platform_wallet tx agent_cents fee_cents agent hold_cents
                   job window))"

section \<open>Refund\<close>

definition release_escrow_of :: "env \<Rightarrow> string \<Rightarrow> (db, unit) prog" where
  "release_escrow_of e charge_tx =
     (case job_id_from_sentinel charge_tx of
        Inl ex \<Rightarrow> throw ex
      | Inr escrow_job \<Rightarrow>
          transact
            (bindE get_state (\<lambda>d0.
             catch_when is_value_error
               (bindE (release_escrow e escrow_job (Some ''post_call_refund'')) (\<lambda>_. ret ()))
               (rollback_to d0))))"

definition post_call_refund :: "env \<Rightarrow> string \<Rightarrow> string \<Rightarrow> int \<Rightarrow> string \<Rightarrow> (db, unit) prog" where
  "post_call_refund e caller_wallet charge_tx price agent =
     (if price < 0 then throw (ValueError ''price_cents must be non-negative.'')
      else if is_escrow_tx_id charge_tx then release_escrow_of e charge_tx
      else transact
        (bindE (select e (has_related charge_tx [Payout, Fee])) (\<lambda>payout_exists.
         if payout_exists then ret ()
         else
           catch_when is_integrity
             (bindE (insert_tx e 0 caller_wallet Refund price (Some agent) (Some charge_tx)
                       (refund_memo charge_tx) None) (\<lambda>_. ret ()))
             (ret ()))))"

section \<open>Partial settlement\<close>

record partial_amounts =
  partial_refund_cents :: int
  partial_agent_cents :: int
  partial_fee_cents :: int

definition partial_split :: "distribution \<Rightarrow> int option \<Rightarrow> rat \<Rightarrow> partial_amounts" where
  "partial_split shares caller_charge refund_fraction =
     (let total_charge = (case caller_charge of
            None \<Rightarrow> dist_caller_charge_cents shares | Some c \<Rightarrow> max 0 c);
          total_success = dist_agent_payout_cents shares + dist_platform_fee_cents shares;
          fraction = clamp01 refund_fraction;
          refund_cents = round_half_up (of_int total_charge * fraction);
          kept_cents = max 0 (total_charge - refund_cents)
      in if total_success \<le> 0 \<or> kept_cents \<le> 0
         then \<lparr>partial_refund_cents = refund_cents, partial_agent_cents = 0, partial_fee_cents = 0\<rparr>
         else
           let ratio = of_int (dist_platform_fee_cents shares) / of_int total_success;
               fee_cents = max 0 (min (round_half_up (of_int kept_cents * ratio)) kept_cents)
           in \<lparr>partial_refund_cents = refund_cents, partial_agent_cents = kept_cents - fee_cents,
               partial_fee_cents = fee_cents\<rparr>)"

definition insert_positive ::
  "env \<Rightarrow> nat \<Rightarrow> string \<Rightarrow> tx_type \<Rightarrow> int \<Rightarrow> string \<Rightarrow> string \<Rightarrow> string \<Rightarrow> (db, unit) prog" where
  "insert_positive e k wid kind amount agent charge_tx memo_text =
     whenE (0 < amount)
       (bindE (insert_tx e k wid kind amount (Some agent) (Some charge_tx) memo_text None) (\<lambda>_. ret ()))"

definition partial_memo :: "string \<Rightarrow> rat \<Rightarrow> string \<Rightarrow> string" where
  "partial_memo what fraction charge_tx =
     ''Partial '' @ what @ '' ('' @ int_str \<lfloor>fraction * 100\<rfloor> @ ''%) for call '' @ take 8 charge_tx"

definition partial_fee_memo :: "string \<Rightarrow> string" where
  "partial_fee_memo charge_tx = ''Platform fee for partial call '' @ take 8 charge_tx"

definition post_call_partial_settle ::
  "env \<Rightarrow> string \<Rightarrow> string \<Rightarrow> string \<Rightarrow> string \<Rightarrow> int \<Rightarrow> rat \<Rightarrow> string \<Rightarrow> int option \<Rightarrow> string option \<Rightarrow>
   int option \<Rightarrow> (db, unit) prog" where
  "post_call_partial_settle e caller_wallet agent_wallet platform_wallet charge_tx price refund_fraction agent
     fee_pct fee_bearer caller_charge =
     (case compute_success_distribution (PLATFORM_FEE_PCT e) price fee_pct fee_bearer of
        Inl ex \<Rightarrow> throw ex
      | Inr shares \<Rightarrow>
          let amounts = partial_split shares caller_charge refund_fraction in
          transact
            (bindE (select e (has_related charge_tx [Deposit, Charge, Fee, Refund, Payout])) (\<lambda>already.
             if already then ret ()
             else
               catch_when is_integrity
                 (bindE (insert_positive e 0 caller_wallet Refund (partial_refund_cents amounts) agent charge_tx
                           (partial_memo ''refund'' (clamp01 refund_fraction) charge_tx)) (\<lambda>_.
                  bindE (insert_positive e 1 agent_wallet Payout (partial_agent_cents amounts) agent charge_tx
                           (partial_memo ''payout'' (1 - clamp01 refund_fraction) charge_tx)) (\<lambda>_.
                  insert_positive e 2 platform_wallet Fee (partial_fee_cents amounts) agent charge_tx
                           (partial_fee_memo charge_tx))))
                 (ret ()))))"

context posting_invariant begin

lemma keeps_insert_once: "keeps P (insert_once e k wid kind a agent c m)"
  unfolding insert_once_def
  by (intro keeps_catch_when keeps_whenE keeps_bindE keeps_insert_tx keeps_ret) simp

lemma keeps_insert_positive: "keeps P (insert_positive e k wid kind a agent c m)"
  unfolding insert_positive_def by (intro keeps_whenE keeps_bindE keeps_insert_tx keeps_ret) simp

lemma keeps_post_call_partial_settle:
  "keeps P (post_call_partial_settle e cw aw pw c price f agent pct fb cc)"
  unfolding post_call_partial_settle_def Let_def
  by (auto split: sum.split intro!: keeps_throw keeps_transact_P ensures_bindE ensures_select ensures_if
      ensures_ret ensures_catch_when keeps_bindE keeps_insert_positive)

end

section \<open>Variable pricing\<close>

definition PRICING_DIFF_MEMO_TAG :: string where "PRICING_DIFF_MEMO_TAG = ''[pricing-diff]''"

definition contains :: "string \<Rightarrow> string \<Rightarrow> bool" where
  "contains pat text = sublist pat text"

text \<open>\<open>LIKE '%tag%'\<close>, with the case rules of the back end.\<close>

definition sql_like_contains :: "env \<Rightarrow> string \<Rightarrow> string \<Rightarrow> bool" where
  "sql_like_contains e tag text =
     (case backend e of SQLite \<Rightarrow> contains (py_lower tag) (py_lower text) | Postgres \<Rightarrow> contains tag text)"

definition pricing_diff_memo :: "string \<Rightarrow> string \<Rightarrow> string" where
  "pricing_diff_memo memo_text charge_tx =
     (let normalized = py_strip memo_text in
      if contains PRICING_DIFF_MEMO_TAG normalized then normalized
      else PRICING_DIFF_MEMO_TAG @ '' '' @
        or_text normalized (''Variable-pricing refund for call '' @ take 8 charge_tx))"

definition clawback_memo :: "string \<Rightarrow> string \<Rightarrow> string" where
  "clawback_memo who charge_tx =
     PRICING_DIFF_MEMO_TAG @ '' '' @ who @ '' clawback for call '' @ take 8 charge_tx"

definition find_charge :: "string \<Rightarrow> db \<Rightarrow> txn option" where
  "find_charge tx d = find (\<lambda>t. tx_id t = tx \<and> tx_kind t = Charge) (transactions d)"

definition prior_pricing_diff :: "env \<Rightarrow> string \<Rightarrow> db \<Rightarrow> bool" where
  "prior_pricing_diff e charge_tx d =
     exists_row (\<lambda>t. related_tx_id t = Some charge_tx \<and> tx_kind t = Refund \<and>
                    sql_like_contains e PRICING_DIFF_MEMO_TAG (memo t)) (transactions d)"

definition refunded_cents :: "string \<Rightarrow> db \<Rightarrow> int" where
  "refunded_cents charge_tx d =
     sum_where (\<lambda>t. related_tx_id t = Some charge_tx \<and> tx_kind t = Refund) amount_cents (transactions d)"

definition refund_legs ::
  "env \<Rightarrow> string \<Rightarrow> string \<Rightarrow> int \<Rightarrow> string \<Rightarrow> string \<Rightarrow> string \<Rightarrow> int \<Rightarrow> int \<Rightarrow> string \<Rightarrow> (db, string option) prog" where
  "refund_legs e caller_wallet charge_tx caller_refund agent agent_wallet platform_wallet agent_clawback
     platform_clawback memo_text =
     bindE (whenE (0 < agent_clawback)
       (bindE (insert_tx e 0 agent_wallet Refund (- agent_clawback) (Some agent) (Some charge_tx)
                 (clawback_memo ''agent'' charge_tx) None) (\<lambda>_. ret ()))) (\<lambda>_.
     bindE (whenE (0 < platform_clawback)
       (bindE (insert_tx e 1 platform_wallet Refund (- platform_clawback) (Some agent) (Some charge_tx)
                 (clawback_memo ''platform'' charge_tx) None) (\<lambda>_. ret ()))) (\<lambda>_.
     bindE (insert_tx e 2 caller_wallet Refund caller_refund (Some agent) (Some charge_tx)
              (pricing_diff_memo memo_text charge_tx) None) (\<lambda>tx. ret (Some tx))))"

definition post_call_refund_difference ::
  "env \<Rightarrow> string \<Rightarrow> string \<Rightarrow> int \<Rightarrow> string \<Rightarrow> string \<Rightarrow> string \<Rightarrow> int \<Rightarrow> int \<Rightarrow> string option \<Rightarrow>
   (db, string option) prog" where
  "post_call_refund_difference e caller_wallet charge_tx caller_refund agent agent_wallet platform_wallet
     agent_clawback platform_clawback memo_text =
     (if caller_refund < 0 \<or> agent_clawback < 0 \<or> platform_clawback < 0
      then throw (ValueError ''All pricing-diff amounts must be non-negative.'')
      else if caller_refund = 0 \<and> agent_clawback = 0 \<and> platform_clawback = 0 then ret None
      else if caller_refund \<noteq> agent_clawback + platform_clawback
      then throw (ValueError ''Pricing-diff legs must net to zero'')
      else transact
        (bindE (select e (find_charge charge_tx)) (\<lambda>charge_row.
         case charge_row of
           None \<Rightarrow> throw (ValueError ''Original charge tx not found; cannot refund difference.'')
         | Some c \<Rightarrow>
             bindE (select e (prior_pricing_diff e charge_tx)) (\<lambda>prior.
             if prior then ret None
             else
               bindE (select e (refunded_cents charge_tx)) (\<lambda>already_refunded.
               let remaining = max 0 (- amount_cents c - already_refunded) in
               if remaining \<le> 0 \<or> remaining < caller_refund then ret None
               else catch_when is_integrity
                 (refund_legs e caller_wallet charge_tx caller_refund agent agent_wallet platform_wallet
                    agent_clawback platform_clawback (or_empty memo_text))
                 (ret None))))))"

section \<open>Payout and refund exclude each other\<close>

text \<open>Properties of the ledger alone.\<close>

lemma keeps_ledger_update:
  "(\<And>rs d. transactions (put rs d) = transactions d) \<Longrightarrow>
     keeps (\<lambda>d. L (transactions d)) (update_stmt e get put ck p f)"
  by (intro keeps_update_stmt; simp add: flag_free_def)

lemma keeps_ledger_insert:
  "(\<And>rs d. transactions (put rs d) = transactions d) \<Longrightarrow>
     keeps (\<lambda>d. L (transactions d)) (insert_stmt e get put ok r)"
  by (intro keeps_insert_stmt; simp add: flag_free_def)

lemma keeps_ledger_create_hold: "keeps (\<lambda>d. L (transactions d)) (create_hold_conn e k wid job a h)"
  unfolding create_hold_conn_def get_active_hold_for_job_conn_def
  by (intro keeps_if keeps_ret keeps_bindE keeps_select keeps_catch_when keeps_ledger_insert
      keeps_ledger_update keeps_throw) simp_all

lemma keeps_ledger_resolve_escrow: "keeps (\<lambda>d. L (transactions d)) (resolve_escrow e final job n)"
  unfolding resolve_escrow_def
  by (intro keeps_if keeps_ret keeps_bindE keeps_select keeps_case_option keeps_ledger_update
      keeps_throw) simp_all

lemma keeps_ledger_insert_tx:
  assumes "\<And>ts t. L ts \<Longrightarrow> tx_kind t = kind \<Longrightarrow> related_tx_id t = related \<Longrightarrow> L (ts @ [t])"
  shows "keeps (\<lambda>d. L (transactions d)) (insert_tx e k wid kind a agent related m key)"
  unfolding insert_tx_def resolve_charged_by_key_id_def Let_def
  by (intro keeps_bindE keeps_insert_stmt keeps_ledger_update keeps_if keeps_ret keeps_select
      keeps_case_option) (simp_all add: assms flag_free_def)

lemma keeps_ledger_transact: "ensures (\<lambda>d. L (transactions d)) m \<Longrightarrow> keeps (\<lambda>d. L (transactions d)) (transact m)"
  by (rule keeps_transact) (simp_all add: flag_free_def)

definition related_in :: "string \<Rightarrow> tx_type list \<Rightarrow> txn list \<Rightarrow> bool" where
  "related_in c ks ts \<longleftrightarrow> exists_row (\<lambda>t. related_tx_id t = Some c \<and> tx_kind t \<in> set ks) ts"

definition settled_one_way :: "txn list \<Rightarrow> bool" where
  "settled_one_way ts \<longleftrightarrow> (\<forall>c. \<not> (related_in c [Refund] ts \<and> related_in c [Payout, Fee] ts))"

lemma has_related_in: "has_related c ks d = related_in c ks (transactions d)"
  by (simp add: has_related_def related_in_def)

lemma related_in_append [simp]:
  "related_in c ks (ts @ [t]) \<longleftrightarrow> related_in c ks ts \<or> (related_tx_id t = Some c \<and> tx_kind t \<in> set ks)"
  by (simp add: related_in_def)

lemma ensures_payout_guard:
  fixes m :: "(db, 'a) prog"
  assumes "keeps (\<lambda>d. settled_one_way (transactions d) \<and> \<not> related_in c ks (transactions d)) m"
    and "ensures (\<lambda>d. settled_one_way (transactions d)) n"
  shows "ensures (\<lambda>d. settled_one_way (transactions d))
    (bindE (select e (has_related c ks)) (\<lambda>b. if b then n else m))"
proof (rule ensuresI)
  fix d :: db assume s: "settled_one_way (transactions d)"
  have "wp m (\<lambda>_ d. settled_one_way (transactions d)) (\<lambda>_ _. True) d" if "\<not> has_related c ks d"
    using keeps_wp [OF assms(1), of d] s that
    by (auto simp: has_related_in elim: wp_post_mono)
  then show "wp (bindE (select e (has_related c ks)) (\<lambda>b. if b then n else m))
      (\<lambda>_ d. settled_one_way (transactions d)) (\<lambda>_ _. True) d"
    using ensuresD [OF assms(2), of d] s by (auto simp: wp_simps)
qed

lemma keeps_one_way_payout_transaction:
  "keeps (\<lambda>d. settled_one_way (transactions d)) (payout_transaction e aw pw c a f agent h job w)"
proof -
  have leg: "keeps (\<lambda>d. settled_one_way (transactions d) \<and> \<not> related_in c [Refund] (transactions d))
      (insert_once e k wid kind x agent c m)" if "kind = Payout \<or> kind = Fee" for k wid kind x m
    unfolding insert_once_def
    by (intro keeps_catch_when keeps_whenE keeps_bindE keeps_ret
        keeps_ledger_insert_tx [where L = "\<lambda>ts. settled_one_way ts \<and> \<not> related_in c [Refund] ts"])
      (use that in \<open>auto simp: settled_one_way_def\<close>)
  show ?thesis unfolding payout_transaction_def
    by (intro keeps_ledger_transact ensures_payout_guard keeps_bindE keeps_whenE leg keeps_ret ensures_ret
        keeps_ledger_create_hold [where L = "\<lambda>ts. settled_one_way ts \<and> \<not> related_in c [Refund] ts"]) simp_all
qed

lemma keeps_one_way_charge_escrow:
  "keeps (\<lambda>d. settled_one_way (transactions d)) (charge_escrow e k c agent)"
proof -
  have leg: "keeps (\<lambda>d. settled_one_way (transactions d)) (settle_escrow_to_charge e k job agent)" for job
    unfolding settle_escrow_to_charge_def consume_escrow_def
    by (intro keeps_bindE keeps_select keeps_case_option keeps_if keeps_ret keeps_ledger_resolve_escrow
        keeps_ledger_insert_tx keeps_ledger_update) (auto simp: settled_one_way_def)
  have "ensures (\<lambda>d. settled_one_way (transactions d))
      (bindE get_state (\<lambda>d0. bindE (settle_escrow_to_charge e k job agent) (\<lambda>real_tx.
         case real_tx of None \<Rightarrow> bindE (rollback_to d0) (\<lambda>_. ret None)
         | Some tx \<Rightarrow> bindE (update_jobs_unchecked e (\<lambda>j. job_id j = job) (\<lambda>j. j\<lparr>charge_tx_id := tx\<rparr>)) (\<lambda>_. ret (Some tx)))))"
    for job
    unfolding update_jobs_unchecked_def
    by (intro ensures_get_state keeps_ensures keeps_bindE leg keeps_case_option keeps_rollback_to keeps_ret
        keeps_ledger_update) simp_all
  from keeps_ledger_transact [OF this] show ?thesis
    by (cases "job_id_from_sentinel c") (simp_all add: charge_escrow_def keeps_throw)
qed

text \<open>
  C4. A charge is settled one way: neither \<open>post_call_payout\<close> nor \<open>post_call_refund\<close>, on whatever
  charge, with whatever arguments, whether it returns or raises, brings about a charge that has both
  a refund and a payout or fee.
\<close>

theorem settlement_is_one_way:
  "keeps (\<lambda>d. settled_one_way (transactions d))
     (post_call_payout e aw pw c price agent pct policy job window curve) \<and>
   keeps (\<lambda>d. settled_one_way (transactions d)) (post_call_refund e2 cw c2 price2 agent2)"
proof
  show "keeps (\<lambda>d. settled_one_way (transactions d))
     (post_call_payout e aw pw c price agent pct policy job window curve)"
    unfolding post_call_payout_def Let_def
    by (auto split: sum.split intro!: keeps_throw keeps_bindE keeps_ret keeps_if keeps_case_option
        keeps_one_way_charge_escrow keeps_one_way_payout_transaction)
  have leg: "keeps (\<lambda>d. settled_one_way (transactions d) \<and> \<not> related_in c2 [Payout, Fee] (transactions d))
      (insert_tx e2 0 cw Refund price2 (Some agent2) (Some c2) m None)" for m
    by (rule keeps_ledger_insert_tx [where L = "\<lambda>ts. settled_one_way ts \<and> \<not> related_in c2 [Payout, Fee] ts"])
      (auto simp: settled_one_way_def)
  have esc: "keeps (\<lambda>d. settled_one_way (transactions d)) (release_escrow_of e2 c2)"
  proof -
    have "ensures (\<lambda>d. settled_one_way (transactions d))
        (bindE get_state (\<lambda>d0. catch_when is_value_error
          (bindE (release_escrow e2 job (Some n)) (\<lambda>_. ret ())) (rollback_to d0)))" for job n
      unfolding release_escrow_def
      by (intro ensures_get_state keeps_ensures keeps_catch_when keeps_bindE keeps_ledger_resolve_escrow
          keeps_ret keeps_rollback_to)
    from keeps_ledger_transact [OF this] show ?thesis
      by (cases "job_id_from_sentinel c2") (simp_all add: release_escrow_of_def keeps_throw)
  qed
  show "keeps (\<lambda>d. settled_one_way (transactions d)) (post_call_refund e2 cw c2 price2 agent2)"
    unfolding post_call_refund_def
    by (intro keeps_if keeps_throw esc keeps_ledger_transact ensures_payout_guard keeps_catch_when
        keeps_bindE leg keeps_ret ensures_ret)
qed

section \<open>What settlement does\<close>

lemma hold_amount_le: "0 \<le> a \<Longrightarrow> 0 \<le> hold_amount job window a curve \<and> hold_amount job window a curve \<le> a"
  by (auto simp: hold_amount_def compute_hold_cents_def Let_def split: option.split)

lemma shares_nonneg:
  "compute_success_distribution cfg price pct fb = Inr s \<Longrightarrow>
     0 \<le> dist_agent_payout_cents s \<and> 0 \<le> dist_platform_fee_cents s"
  by (auto simp: compute_success_distribution_def Let_def split: sum.splits if_splits dest: fee_nonneg)

lemma holds_update_frame [simp]:
  "tx_insertable t (d\<lparr>wallet_holds := hs\<rparr>) = tx_insertable t d"
  "pg_failed e (d\<lparr>wallet_holds := hs\<rparr>) = pg_failed e d"
  by (simp_all add: tx_insertable_def pg_failed_def)

text \<open>Opening a reserve for a job that has none.\<close>

definition no_hold_for :: "string \<Rightarrow> string \<Rightarrow> db \<Rightarrow> bool" where
  "no_hold_for hid job d \<longleftrightarrow> (\<forall>g\<in>set (wallet_holds d). hold_id g \<noteq> hid \<and> hold_job_id g \<noteq> job)"

definition with_hold :: "hold \<Rightarrow> db \<Rightarrow> db" where
  "with_hold h d = d\<lparr>wallet_holds := wallet_holds d @ [h],
     wallets := update_rows (\<lambda>w. wallet_id w = hold_wallet_id h) (add_held (hold_amount_cents h)) (wallets d)\<rparr>"

lemma wp_create_hold_new:
  assumes "ledger_ok d" and "\<not> pg_failed e d" and "0 < a" and "no_hold_for (uuid e k) job d"
    and "has_wallet wid d"
    and Q: "Q (Some (new_hold e k wid job a hours)) (with_hold (new_hold e k wid job a hours) d)"
  shows "wp (create_hold_conn e k wid job a hours) Q E d"
proof -
  let ?h = "new_hold e k wid job a hours"
  have none: "find (\<lambda>h. hold_job_id h = job \<and> hold_status h = Active) (wallet_holds d) = None"
    using assms(4) by (auto simp: find_None_iff no_hold_for_def)
  have ins: "hold_insertable ?h d"
    using assms(3-5) by (auto simp: hold_insertable_def new_hold_def exists_row_iff no_hold_for_def has_wallet_def)
  have n0: "count_where (\<lambda>w. wallet_id w = wid) (wallets d) \<noteq> 0"
    using assms(5) by (auto simp: count_where_0 has_wallet_def exists_row_iff simp del: neq0_conv)
  have chk: "\<forall>w\<in>set (wallets d). wallet_check (add_held a w)"
    using ledger_okD(3) [OF assms(1)] by (simp add: wallet_check_def add_held_def)
  show ?thesis
    using assms(2,3) Q none ins n0 chk
    by (simp add: create_hold_conn_def get_active_hold_for_job_conn_def active_hold_of_def wp_simps
        find_append with_hold_def) (simp add: new_hold_def)
qed

lemma with_hold_simps [simp]:
  "transactions (with_hold h d) = transactions d" "tx_failed (with_hold h d) = tx_failed d"
  "balance_of w (with_hold h d) = balance_of w d" "has_wallet w (with_hold h d) = has_wallet w d"
  "active_held w (with_hold h d) =
     active_held w d + (if hold_wallet_id h = w \<and> hold_status h = Active then hold_amount_cents h else 0)"
  by (simp_all add: with_hold_def balance_of_def find_wallet_def find_update_same add_held_def
      has_wallet_def exists_row_update active_held_def option.map_comp comp_def split: option.split)

lemma ledger_ok_with_hold:
  assumes "ledger_ok d"
  shows "ledger_ok (with_hold h d)"
proof -
  have "\<forall>w\<in>set (wallets d). wallet_check (add_held (hold_amount_cents h) w)"
    using ledger_okD(3) [OF assms] by (simp add: wallet_check_def add_held_def)
  then have "ledger_ok (d\<lparr>wallets := update_rows (\<lambda>w. wallet_id w = hold_wallet_id h)
      (add_held (hold_amount_cents h)) (wallets d)\<rparr>)"
    using assms by (intro ledger_ok_rewriting) (simp_all add: add_held_def)
  then show ?thesis by (rule ledger_ok_tables [THEN iffD1, rotated 2]) (simp_all add: with_hold_def)
qed

lemma post_hold_frame [simp]:
  "wallet_holds (post t d) = wallet_holds d" "active_held w (post t d) = active_held w d"
  "no_hold_for x j (post t d) = no_hold_for x j d"
  "no_hold_for x j (d\<lparr>tx_failed := b\<rparr>) = no_hold_for x j d"
  "active_held w (d\<lparr>tx_failed := b\<rparr>) = active_held w d"
  by (simp_all add: active_held_def no_hold_for_def)

lemma wp_insert_once:
  assumes "ledger_ok d" and "\<not> pg_failed e d" and "new_id (uuid e k) d" and "unsettled c kind wid d"
    and "0 < a \<Longrightarrow> Q () (post (tx_entry e k wid kind a (Some agent) (Some c) m None d) d)"
    and "a \<le> 0 \<Longrightarrow> Q () d"
  shows "wp (insert_once e k wid kind a agent c m) Q E d"
  using assms balance_of_nonneg [OF assms(1), of wid]
  by (auto simp: insert_once_def wp_simps Let_def posting_simps)

text \<open>No entry of the ledger settles the charge yet.\<close>

definition open_charge :: "string \<Rightarrow> db \<Rightarrow> bool" where
  "open_charge c d \<longleftrightarrow> \<not> related_in c [Refund, Payout, Fee] (transactions d)"

lemma open_chargeD:
  assumes "open_charge c d"
  shows "kind \<in> {Refund, Payout, Fee} \<Longrightarrow> unsettled c kind w d" and "\<not> has_related c [Refund] d"
    and "\<not> has_related c [Payout, Fee] d"
  using assms by (auto simp: open_charge_def related_in_def unsettled_def exists_row_iff has_related_def)

lemma open_charge_flag [simp]: "open_charge c (d\<lparr>tx_failed := b\<rparr>) = open_charge c d"
  by (simp add: open_charge_def)

lemma has_related_flag [simp]: "has_related c ks (d\<lparr>tx_failed := b\<rparr>) = has_related c ks d"
  by (simp add: has_related_def)

lemma wp_post_call_payout_marked:
  assumes ok: "ledger_ok d"
    and s: "compute_success_distribution (PLATFORM_FEE_PCT e) price pct policy = Inr s"
    and w: "has_wallet aw d" "has_wallet pw d"
    and c: "\<not> is_escrow_tx_id c" "open_charge c d"
    and new: "new_id (uuid e 1) d" "new_id (uuid e 2) d" "uuid e 1 \<noteq> uuid e 2"
    and h: "no_hold_for (uuid e 3) (or_empty job) d"
  shows "wp (post_call_payout e aw pw c price agent pct policy job window curve)
     (\<lambda>_ d'. ledger_ok d' \<and>
        (\<forall>w. balance_of w d' = balance_of w d + (if w = aw then dist_agent_payout_cents s else 0) +
               (if w = pw then dist_platform_fee_cents s else 0)) \<and>
        (let held = hold_amount job window (dist_agent_payout_cents s) curve in
           held \<le> dist_agent_payout_cents s \<and>
           (\<forall>w. active_held w d' = active_held w d + (if w = aw then held else 0))) \<and>
        (0 < dist_agent_payout_cents s \<or> 0 < dist_platform_fee_cents s \<longrightarrow> related_in c [Payout, Fee] (transactions d')))
     (\<lambda>_ _. False) d"
proof -
  let ?a = "dist_agent_payout_cents s" and ?f = "dist_platform_fee_cents s"
  let ?h = "hold_amount job window ?a curve"
  have nn: "0 \<le> ?a" "0 \<le> ?f" using shares_nonneg [OF s] by auto
  have hh: "0 \<le> ?h" "?h \<le> ?a" using hold_amount_le [OF nn(1)] by auto
  note oc = open_chargeD [OF c(2)]
  define g where "g d' \<longleftrightarrow> ledger_ok d' \<and>
        (\<forall>w. balance_of w d' = balance_of w d + (if w = aw then ?a else 0) + (if w = pw then ?f else 0)) \<and>
        (\<forall>w. active_held w d' = active_held w d + (if w = aw then ?h else 0)) \<and>
        (0 < ?a \<or> 0 < ?f \<longrightarrow> related_in c [Payout, Fee] (transactions d'))" for d'
  let ?d = "d\<lparr>tx_failed := False\<rparr>"
  have fin: "wp (whenE (0 < ?h) (bindE (create_hold_conn e 3 aw (or_empty job) ?h
        (case window of None \<Rightarrow> 0 | Some h \<Rightarrow> h)) (\<lambda>_. ret ())))
      (\<lambda>_ d'. g d' \<and> \<not> tx_failed d') (\<lambda>_ _. False) d2"
    if "ledger_ok d2" "\<not> tx_failed d2" "no_hold_for (uuid e 3) (or_empty job) d2" "has_wallet aw d2"
      "\<forall>w. balance_of w d2 = balance_of w d + (if w = aw then ?a else 0) + (if w = pw then ?f else 0)"
      "\<forall>w. active_held w d2 = active_held w d" "0 < ?a \<or> 0 < ?f \<longrightarrow> related_in c [Payout, Fee] (transactions d2)" for d2
    using that hh by (auto simp: wp_simps pg_failed_def ledger_ok_with_hold new_hold_def g_def
        intro!: wp_create_hold_new)
  have leg2: "wp (bindE (insert_once e 2 pw Fee ?f agent c (fee_memo c)) (\<lambda>_.
        whenE (0 < ?h) (bindE (create_hold_conn e 3 aw (or_empty job) ?h
          (case window of None \<Rightarrow> 0 | Some h \<Rightarrow> h)) (\<lambda>_. ret ()))))
      (\<lambda>_ d'. g d' \<and> \<not> tx_failed d') (\<lambda>_ _. False) d1"
    if "ledger_ok d1" "\<not> tx_failed d1" "no_hold_for (uuid e 3) (or_empty job) d1" "has_wallet aw d1"
      "has_wallet pw d1" "new_id (uuid e 2) d1" "unsettled c Fee pw d1"
      "\<forall>w. balance_of w d1 = balance_of w d + (if w = aw then ?a else 0)"
      "\<forall>w. active_held w d1 = active_held w d" "0 < ?a \<longrightarrow> related_in c [Payout, Fee] (transactions d1)" for d1
    unfolding wp_bindE using that nn balance_of_nonneg [OF that(1), of pw]
    by (intro wp_insert_once fin) (auto simp: posting_simps pg_failed_def)
  have "wp (bindE (insert_once e 1 aw Payout ?a agent c (payout_memo c)) (\<lambda>_.
        bindE (insert_once e 2 pw Fee ?f agent c (fee_memo c)) (\<lambda>_.
        whenE (0 < ?h) (bindE (create_hold_conn e 3 aw (or_empty job) ?h
          (case window of None \<Rightarrow> 0 | Some h \<Rightarrow> h)) (\<lambda>_. ret ())))))
      (\<lambda>_ d'. g d' \<and> \<not> tx_failed d') (\<lambda>_ _. False) ?d"
    unfolding wp_bindE [of "insert_once e 1 aw Payout ?a agent c (payout_memo c)"]
    using ok w new h nn balance_of_nonneg [OF ok, of aw]
    by (intro wp_insert_once leg2) (auto simp: posting_simps oc(1))
  then have "wp (payout_transaction e aw pw c ?a ?f agent ?h job window) (\<lambda>_. g) (\<lambda>_ _. False) d"
    unfolding payout_transaction_def wp_transact
    by (simp add: wp_simps oc(2)) (auto simp: wp_simps elim: wp_post_mono)
  then show ?thesis
    using hh by (auto simp: post_call_payout_def s c wp_simps Let_def g_def elim!: wp_post_mono)
qed

lemma wp_post_call_payout:
  assumes ok: "ledger_ok d"
    and s: "compute_success_distribution (PLATFORM_FEE_PCT e) price pct policy = Inr s"
    and w: "has_wallet aw d" "has_wallet pw d"
    and c: "\<not> is_escrow_tx_id c" "open_charge c d"
    and new: "new_id (uuid e 1) d" "new_id (uuid e 2) d" "uuid e 1 \<noteq> uuid e 2"
    and h: "no_hold_for (uuid e 3) (or_empty job) d"
  shows "wp (post_call_payout e aw pw c price agent pct policy job window curve)
     (\<lambda>_ d'. ledger_ok d' \<and>
        (\<forall>w. balance_of w d' = balance_of w d + (if w = aw then dist_agent_payout_cents s else 0) +
               (if w = pw then dist_platform_fee_cents s else 0)) \<and>
        (let held = hold_amount job window (dist_agent_payout_cents s) curve in
           held \<le> dist_agent_payout_cents s \<and>
           (\<forall>w. active_held w d' = active_held w d + (if w = aw then held else 0))))
     (\<lambda>_ _. False) d"
  by (rule wp_post_mono [OF wp_post_call_payout_marked [OF assms]]) simp_all

text \<open>
  C27. A successful call is paid once and in full: on a charge that nothing settled yet, a payout
  returns, the agent's balance grows by the agent's share and the platform's by the fee, nobody
  else's balance moves, the ledger balances, and exactly the reserve is held on the agent's
  wallet, which never exceeds the payout.
\<close>

theorem payout_settles_call:
  assumes ok: "ledger_ok d"
    and s: "compute_success_distribution (PLATFORM_FEE_PCT e) price pct policy = Inr s"
    and w: "has_wallet aw d" "has_wallet pw d"
    and c: "\<not> is_escrow_tx_id c" "open_charge c d"
    and new: "new_id (uuid e 1) d" "new_id (uuid e 2) d" "uuid e 1 \<noteq> uuid e 2"
    and h: "no_hold_for (uuid e 3) (or_empty job) d"
  shows "wp (post_call_payout e aw pw c price agent pct policy job window curve)
     (\<lambda>_ d'. ledger_ok d' \<and>
        (\<forall>w. balance_of w d' = balance_of w d + (if w = aw then dist_agent_payout_cents s else 0) +
               (if w = pw then dist_platform_fee_cents s else 0)) \<and>
        (let held = hold_amount job window (dist_agent_payout_cents s) curve in
           held \<le> dist_agent_payout_cents s \<and>
           (\<forall>w. active_held w d' = active_held w d + (if w = aw then held else 0))))
     (\<lambda>_ _. False) d"
  using assms by (rule wp_post_call_payout)

lemma sample_payout_open [simp]: "open_charge c sample_db"
  by (simp add: open_charge_def related_in_def sample_db_def sample_tx_def)

lemma sample_new_id [simp]: "new_id (uuid (sample_env b) k) sample_db"
  by (simp add: new_id_def sample_db_def sample_tx_def)

lemma sample_fresh_charge [simp]: "fresh_tx (CHR ''c'' # s) sample_db"
  by (simp add: fresh_tx_def sample_db_def sample_tx_def)

lemma sample_no_hold [simp]: "no_hold_for x j sample_db"
  by (simp add: no_hold_for_def sample_db_def)

lemmas policy_defs = normalize_fee_bearer_policy_def VALID_FEE_BEARER_POLICIES_def
  DEFAULT_FEE_BEARER_POLICY_def py_strip_def py_space_def py_lower_def lower_char_def or_empty_def or_text_def

lemma sample_shares:
  "compute_success_distribution (PLATFORM_FEE_PCT (sample_env b)) 100 None None =
     Inr \<lparr>dist_caller_charge_cents = 110, dist_agent_payout_cents = 100, dist_platform_fee_cents = 10\<rparr>"
  by (simp add: compute_success_distribution_def compute_platform_fee_cents_value effective_pct_def
      policy_defs Let_def) (simp add: round_half_up_def floor_eq_iff)

theorem payout_settles_call_witness:
  "wp (post_call_payout (sample_env Postgres) ''w2'' ''w3'' ''t1'' 100 ''agent'' None None (Some ''j1'') (Some 24) None)
     (\<lambda>_ d'. balance_of ''w2'' d' = balance_of ''w2'' sample_db + 100 \<and>
             balance_of ''w3'' d' = balance_of ''w3'' sample_db + 10 \<and>
             active_held ''w2'' d' = active_held ''w2'' sample_db + 100)
     (\<lambda>_ _. False) sample_db"
  by (rule wp_post_mono [OF payout_settles_call [OF sample_ledger_ok sample_shares]])
    (simp_all add: is_escrow_tx_id_def ESCROW_TX_PREFIX_def hold_amount_def compute_hold_cents_def Let_def)

text \<open>
  A replayed payout pays nobody twice. On SQLite the replay of a payout whose two entries are
  on the ledger returns and leaves wallets, ledger and reserves as they are; on PostgreSQL the
  duplicate insertion aborts the transaction, so the replay raises
  \<open>InFailedSqlTransaction\<close> instead of returning, with nothing changed either.
\<close>

theorem payout_replay:
  assumes ok: "ledger_ok d"
    and s: "compute_success_distribution (PLATFORM_FEE_PCT e) price pct policy = Inr s"
    and pos: "0 < dist_agent_payout_cents s" "0 < dist_platform_fee_cents s"
    and c: "\<not> is_escrow_tx_id c" "\<not> related_in c [Refund] (transactions d)"
    and paid: "\<not> unsettled c Payout aw d" "\<not> unsettled c Fee pw d"
    and h: "hold_amount job window (dist_agent_payout_cents s) curve = 0 \<or>
      (\<exists>h\<in>set (wallet_holds d). hold_job_id h = or_empty job)"
  shows "wp (post_call_payout e aw pw c price agent pct policy job window curve)
     (\<lambda>_ d'. backend e = SQLite \<and> wallets d' = wallets d \<and> transactions d' = transactions d \<and>
             wallet_holds d' = wallet_holds d)
     (\<lambda>ex d'. backend e = Postgres \<and> ex = InFailedSqlTransaction \<and> wallets d' = wallets d \<and>
             transactions d' = transactions d \<and> wallet_holds d' = wallet_holds d) d"
proof -
  let ?d = "d\<lparr>tx_failed := False\<rparr>"
  have nh: "\<not> hold_insertable (new_hold e k wid (or_empty job)
        (hold_amount job window (dist_agent_payout_cents s) curve) hours) d'"
    if "wallet_holds d' = wallet_holds d" for k wid hours d'
    using h that by (auto simp: hold_insertable_def new_hold_def exists_row_iff)
  have "\<not> has_related c [Refund] d" using c(2) by (simp add: has_related_in)
  then show ?thesis
    using ok pos c(1) paid
    by (cases "backend e")
      (simp_all add: post_call_payout_def payout_transaction_def insert_once_def create_hold_conn_def
        get_active_hold_for_job_conn_def s Let_def wp_simps insertable_entry pg_failed_def abort_tx_def nh)
qed

text \<open>
  A failed call is refunded once and to the caller only: on a charge that nothing settled yet a
  refund returns, the caller's balance grows by the price and no other balance moves; and
  whatever the state, once the charge has a payout or a fee the refund returns without a change.
\<close>

theorem refund_settles_call:
  assumes ok: "ledger_ok d" and p: "0 \<le> price" and c: "\<not> is_escrow_tx_id c"
    and new: "new_id (uuid e 0) d" and w: "has_wallet cw d"
    and un: "unsettled c Refund cw d \<or> related_in c [Payout, Fee] (transactions d)"
  shows "wp (post_call_refund e cw c price agent)
     (\<lambda>_ d'. ledger_ok d' \<and> (\<forall>w. balance_of w d' = balance_of w d +
         (if w = cw \<and> \<not> related_in c [Payout, Fee] (transactions d) then price else 0)))
     (\<lambda>_ _. False) d"
proof (cases "related_in c [Payout, Fee] (transactions d)")
  case True
  then show ?thesis using ok p c
    by (simp add: post_call_refund_def wp_simps has_related_in)
next
  case False
  then show ?thesis using ok p c new w un balance_of_nonneg [OF ok, of cw]
    by (simp add: post_call_refund_def wp_simps has_related_in Let_def posting_simps)
qed

theorem refund_settles_call_witness:
  "wp (post_call_refund (sample_env SQLite) ''w1'' ''t9'' 110 ''agent'')
     (\<lambda>_ d'. balance_of ''w1'' d' = balance_of ''w1'' sample_db + 110) (\<lambda>_ _. False) sample_db"
proof -
  have "unsettled ''t9'' Refund ''w1'' sample_db" "\<not> related_in ''t9'' [Payout, Fee] (transactions sample_db)"
    using open_chargeD(1,3) [OF sample_payout_open] by (auto simp: has_related_in)
  then show ?thesis
    by (intro wp_post_mono [OF refund_settles_call])
      (simp_all add: is_escrow_tx_id_def ESCROW_TX_PREFIX_def)
qed

section \<open>Partial settlement\<close>

text \<open>
  A partial settlement splits the caller's charge without losing or creating a cent: for every
  price, percentage, policy and fraction the three legs are non-negative and, when anything is
  kept, add up to the charge; the refund grows with the fraction, a fraction of one refunds the
  whole charge, and a fraction of zero refunds nothing.
\<close>

theorem partial_split_conserves:
  assumes s: "compute_success_distribution cfg price pct policy = Inr s" and p: "1 \<le> price"
    and pct: "0 \<le> effective_pct cfg pct" "effective_pct cfg pct \<le> 100"
  shows "(let r = partial_split s cc f in
     0 \<le> partial_refund_cents r \<and> 0 \<le> partial_agent_cents r \<and> 0 \<le> partial_fee_cents r \<and>
     partial_refund_cents r + partial_agent_cents r + partial_fee_cents r =
       (case cc of None \<Rightarrow> dist_caller_charge_cents s | Some c \<Rightarrow> max 0 c)) \<and>
     (f \<le> g \<longrightarrow> partial_refund_cents (partial_split s cc f) \<le> partial_refund_cents (partial_split s cc g)) \<and>
     (f \<le> 0 \<longrightarrow> partial_refund_cents (partial_split s cc f) = 0) \<and>
     (1 \<le> f \<longrightarrow> partial_agent_cents (partial_split s cc f) = 0 \<and> partial_fee_cents (partial_split s cc f) = 0)"
proof -
  define t where "t = (case cc of None \<Rightarrow> dist_caller_charge_cents s | Some c \<Rightarrow> max 0 c)"
  define n where "n = dist_agent_payout_cents s + dist_platform_fee_cents s"
  have sv: "1 \<le> n" "0 \<le> t"
    using distribution_facts [of price cfg pct policy] s p pct by (auto simp: n_def t_def split: option.split)
  have nn: "0 \<le> dist_platform_fee_cents s" using shares_nonneg [OF s] by simp
  let ?r = "\<lambda>f. round_half_up (of_int t * clamp01 f)"
  have r: "0 \<le> ?r f" "?r f \<le> t" for f
    using sv(2) clamp01_bounds [of f] mult_left_mono [of "clamp01 f" 1 "of_int t :: rat"]
    by (auto intro!: round_half_up_nonneg round_half_up_le)
  have ref: "partial_refund_cents (partial_split s cc f) = ?r f" for f
    by (simp add: partial_split_def t_def [symmetric] Let_def)
  have mono: "?r f \<le> ?r g" if "f \<le> g"
    using sv(2) clamp01_mono [OF that] clamp01_bounds [of f] by (intro round_half_up_mono mult_left_mono) auto
  have sum: "partial_agent_cents (partial_split s cc f) + partial_fee_cents (partial_split s cc f) = t - ?r f"
    "0 \<le> partial_fee_cents (partial_split s cc f)" "0 \<le> partial_agent_cents (partial_split s cc f)" for f
    using r [of f] sv(1) by (auto simp: partial_split_def t_def [symmetric] n_def [symmetric] Let_def)
  have zero: "?r f = 0" if "f \<le> 0" using that by (simp add: clamp01_def)
  have one: "?r f = t" if "1 \<le> f" using that by (simp add: clamp01_def)
  show ?thesis unfolding t_def [symmetric] Let_def ref
    using r mono zero one sum [of f] by (smt (verit))
qed

theorem partial_split_conserves_witness:
  "\<exists>s. compute_success_distribution 10 1005 (Some 15) (Some ''split'') = Inr s \<and>
     (let r = partial_split s None (1 / 3) in
        partial_refund_cents r + partial_agent_cents r + partial_fee_cents r = dist_caller_charge_cents s)"
proof -
  obtain s where "compute_success_distribution 10 1005 (Some 15) (Some ''split'') = Inr s"
    using distribution_facts [of 1005 10 "Some 15" "Some ''split''"] by (auto simp: effective_pct_def)
  then show ?thesis
    using partial_split_conserves [of 10 1005 "Some 15" "Some ''split''" s None "1 / 3" 0]
    by (auto simp: effective_pct_def Let_def)
qed

text \<open>A call that was paid out: the sample world after the payout of a call of 100 cents.\<close>

definition settled_tx :: "string \<Rightarrow> string \<Rightarrow> tx_type \<Rightarrow> int \<Rightarrow> txn" where
  "settled_tx t wid kind a = (sample_tx t wid a)\<lparr>tx_kind := kind, related_tx_id := Some ''c1''\<rparr>"

definition sample_paid_db :: db where
  "sample_paid_db = with_hold (sample_hold ''h1'' ''j1'' 100 1900000000000000)
     (post (settled_tx ''t4'' ''w3'' Fee 10) (post (settled_tx ''t3'' ''w2'' Payout 100) sample_db))"

lemma sample_paid_ok: "ledger_ok sample_paid_db"
  by (simp add: sample_paid_db_def settled_tx_def sample_defs ledger_ok_def ledger_sum_def wallet_check_def
      settlement_key_def with_hold_def add_held_def sample_hold_def)

lemma sample_paid_holds: "holds_ok (\<lambda>_. 0) sample_paid_db"
  by (simp add: holds_ok_def holds_cached_def held_cache_def hold_active_def sample_paid_db_def
      settled_tx_def sample_defs with_hold_def add_held_def sample_hold_def has_wallet_def wallet_check_def)

theorem payout_replay_witness:
  "wp (post_call_payout (sample_env Postgres) ''w2'' ''w3'' ''c1'' 100 ''agent'' None None (Some ''j1'') (Some 24) None)
     (\<lambda>_ _. False)
     (\<lambda>ex d'. ex = InFailedSqlTransaction \<and> wallets d' = wallets sample_paid_db) sample_paid_db"
  by (rule wp_post_mono [OF payout_replay [OF sample_paid_ok sample_shares]])
    (simp_all add: is_escrow_tx_id_def ESCROW_TX_PREFIX_def related_in_def unsettled_def sample_paid_db_def
      settled_tx_def sample_db_def sample_tx_def sample_hold_def or_empty_def with_hold_def)

text \<open>
  A partial settlement pays exactly the three legs of the split: on a charge that no entry
  refers to, the caller, the agent and the platform each receive their leg, no other balance
  moves and the ledger balances.
\<close>

theorem partial_settles_call:
  assumes ok: "ledger_ok d"
    and s: "compute_success_distribution (PLATFORM_FEE_PCT e) price pct policy = Inr s"
    and w: "has_wallet cw d" "has_wallet aw d" "has_wallet pw d"
    and c: "fresh_tx c d" and new: "new_id (uuid e 0) d" "new_id (uuid e 1) d" "new_id (uuid e 2) d"
      "distinct [uuid e 0, uuid e 1, uuid e 2]"
  shows "wp (post_call_partial_settle e cw aw pw c price f agent pct policy cc)
     (\<lambda>_ d'. ledger_ok d' \<and>
        (\<forall>w. balance_of w d' = balance_of w d +
           (if w = cw then max 0 (partial_refund_cents (partial_split s cc f)) else 0) +
           (if w = aw then max 0 (partial_agent_cents (partial_split s cc f)) else 0) +
           (if w = pw then max 0 (partial_fee_cents (partial_split s cc f)) else 0)))
     (\<lambda>_ _. False) d"
proof -
  have free: "\<not> has_related c [Deposit, Charge, Fee, Refund, Payout] d"
    using c by (auto simp: has_related_def exists_row_iff fresh_tx_def)
  show ?thesis
    using ok w new fresh_txD(2) [OF c] free balance_of_nonneg [OF ok]
    by (simp add: post_call_partial_settle_def s wp_simps Let_def insert_positive_def posting_simps pg_failed_def)
qed

theorem partial_settles_call_witness:
  "wp (post_call_partial_settle (sample_env Postgres) ''w1'' ''w2'' ''w3'' ''c1'' 100 1 ''agent'' None None None)
     (\<lambda>_ d'. balance_of ''w1'' d' = balance_of ''w1'' sample_db + 110 \<and>
             balance_of ''w2'' d' = balance_of ''w2'' sample_db) (\<lambda>_ _. False) sample_db"
  by (rule wp_post_mono [OF partial_settles_call [OF sample_ledger_ok sample_shares]])
    (simp_all add: partial_split_def clamp01_def Let_def round_half_up_of_int [of 110, simplified])

section \<open>Variable pricing\<close>

text \<open>The charge is on the ledger with enough of it not refunded, and no difference was paid yet.\<close>

definition refundable :: "env \<Rightarrow> string \<Rightarrow> int \<Rightarrow> db \<Rightarrow> bool" where
  "refundable e c a d \<longleftrightarrow> \<not> prior_pricing_diff e c d \<and>
     (\<exists>t. find_charge c d = Some t \<and> a \<le> - amount_cents t - refunded_cents c d)"

lemma refundable_flag [simp]: "refundable e c a (d\<lparr>tx_failed := b\<rparr>) = refundable e c a d"
  by (simp add: refundable_def prior_pricing_diff_def find_charge_def refunded_cents_def)

lemma wp_refund_difference:
  assumes "0 \<le> a" "0 \<le> p" "0 < a + p" and "refundable e c (a + p) d"
    and "wp (catch_when is_integrity (refund_legs e cw c (a + p) agent aw pw a p (or_empty m)) (ret None))
           (\<lambda>x d'. Q x (if tx_failed d' then d\<lparr>tx_failed := False\<rparr> else d'))
           (\<lambda>ex _. E ex (d\<lparr>tx_failed := False\<rparr>)) (d\<lparr>tx_failed := False\<rparr>)"
  shows "wp (post_call_refund_difference e cw c (a + p) agent aw pw a p m) Q E d"
proof -
  let ?d = "d\<lparr>tx_failed := False\<rparr>"
  obtain t where t: "find_charge c ?d = Some t" "\<not> prior_pricing_diff e c ?d"
    "a + p \<le> - amount_cents t - refunded_cents c ?d"
    using assms(4) by (auto simp: refundable_def prior_pricing_diff_def find_charge_def refunded_cents_def)
  then have "\<not> (max 0 (- amount_cents t - refunded_cents c ?d) \<le> 0 \<or>
      max 0 (- amount_cents t - refunded_cents c ?d) < a + p)" using assms(3) by auto
  then show ?thesis
    using assms(1-3,5) t
    by (simp add: post_call_refund_difference_def Let_def wp_transact wp_bindE wp_select wp_if del: max_less_iff_conj)
qed

text \<open>
  When the agent and the platform can pay their clawbacks, the refund of a price difference
  moves exactly the clawbacks to the caller: it returns an entry, the ledger balances and the
  total of the balances is unchanged.
\<close>

theorem refund_difference_nets:
  assumes ok: "ledger_ok d" and a: "0 \<le> a" "0 \<le> p" "0 < a + p" and r: "refundable e c (a + p) d"
    and w: "has_wallet cw d" "has_wallet aw d" "has_wallet pw d" "distinct [cw, aw, pw]"
    and new: "new_id (uuid e 0) d" "new_id (uuid e 1) d" "new_id (uuid e 2) d"
      "distinct [uuid e 0, uuid e 1, uuid e 2]"
    and un: "unsettled c Refund cw d" "unsettled c Refund aw d" "unsettled c Refund pw d"
    and pay: "a \<le> balance_of aw d" "p \<le> balance_of pw d"
  shows "wp (post_call_refund_difference e cw c (a + p) agent aw pw a p m)
     (\<lambda>x d'. x = Some (uuid e 2) \<and> ledger_ok d' \<and> total_balance d' = total_balance d \<and>
        (\<forall>w. balance_of w d' = balance_of w d + (if w = cw then a + p else 0) -
           (if w = aw then a else 0) - (if w = pw then p else 0)))
     (\<lambda>_ _. False) d"
  using ok a w new un pay balance_of_nonneg [OF ok, of cw]
  by (intro wp_refund_difference [OF a r])
    (auto simp: refund_legs_def wp_simps Let_def posting_simps pg_failed_def)

text \<open>
  When the agent cannot pay its clawback, the function returns \<open>None\<close> and no balance moves; on
  PostgreSQL the ledger is untouched too, but on SQLite the clawback entry stays on the ledger
  with no debit behind it, because the handler returns inside the transaction instead of rolling
  it back: the ledger no longer balances.
\<close>

theorem refund_difference_short_agent:
  assumes ok: "ledger_ok d" and a: "0 < a" "0 \<le> p" and r: "refundable e c (a + p) d"
    and w: "has_wallet aw d" and new: "new_id (uuid e 0) d" and un: "unsettled c Refund aw d"
    and short: "balance_of aw d < a"
  shows "wp (post_call_refund_difference e cw c (a + p) agent aw pw a p m)
     (\<lambda>x d'. x = None \<and> wallets d' = wallets d \<and>
        (case backend e of Postgres \<Rightarrow> transactions d' = transactions d
         | SQLite \<Rightarrow> ledger_sum aw d' = ledger_sum aw d - a \<and> \<not> ledger_ok d'))
     (\<lambda>_ _. False) d"
proof -
  have "wp (catch_when is_integrity (refund_legs e cw c (a + p) agent aw pw a p (or_empty m)) (ret None))
      (\<lambda>x d'. x = None \<and> wallets d' = wallets d \<and>
        (case backend e of Postgres \<Rightarrow> tx_failed d'
         | SQLite \<Rightarrow> \<not> tx_failed d' \<and> ledger_sum aw d' = ledger_sum aw d - a))
      (\<lambda>_ _. False) (d\<lparr>tx_failed := False\<rparr>)"
    using ok a w new un short
    by (cases "backend e")
      (simp_all add: refund_legs_def wp_simps Let_def posting_simps pg_failed_def ledger_sum_def abort_tx_def)
  moreover have "\<not> ledger_ok d'" if "wallets d' = wallets d" "ledger_sum aw d' = ledger_sum aw d - a" for d'
  proof
    assume k: "ledger_ok d'"
    have "has_wallet aw d'" "balance_of aw d' = balance_of aw d"
      using that(1) w by (simp_all add: has_wallet_def balance_of_def find_wallet_def)
    then show False
      using balance_of_ledger [OF k] balance_of_ledger [OF ok w] that(2) a(1) by simp
  qed
  ultimately show ?thesis
    using a by (intro wp_refund_difference [OF _ a(2) _ r])
      (auto elim!: wp_post_mono split: backend_kind.splits)
qed

text \<open>A charge of 110 cents that was paid out, with a platform that kept its fee.\<close>

definition sample_charge_tx :: txn where
  "sample_charge_tx = (sample_tx ''c1'' ''w1'' (- 110))\<lparr>tx_kind := Charge\<rparr>"

definition sample_charged_db :: db where
  "sample_charged_db = post sample_charge_tx sample_paid_db"

lemma sample_charged_facts:
  "ledger_ok sample_charged_db" "has_wallet ''w1'' sample_charged_db" "has_wallet ''w2'' sample_charged_db"
  "has_wallet ''w3'' sample_charged_db" "balance_of ''w2'' sample_charged_db = 100"
  "balance_of ''w3'' sample_charged_db = 10" "new_id (uuid (sample_env b) k) sample_charged_db"
  "unsettled ''c1'' Refund w sample_charged_db" "refundable e ''c1'' 50 sample_charged_db"
  by (simp_all add: sample_charged_db_def sample_charge_tx_def sample_paid_db_def settled_tx_def sample_defs
      ledger_ok_def ledger_sum_def wallet_check_def settlement_key_def has_wallet_def balance_of_def
      find_wallet_def new_id_def unsettled_def refundable_def prior_pricing_diff_def find_charge_def
      refunded_cents_def add_balance_def sample_env_def with_hold_def add_held_def sample_hold_def)

theorem refund_difference_nets_witness:
  "wp (post_call_refund_difference (sample_env SQLite) ''w1'' ''c1'' (45 + 5) ''agent'' ''w2'' ''w3'' 45 5 None)
     (\<lambda>x d'. x \<noteq> None \<and> balance_of ''w1'' d' = balance_of ''w1'' sample_charged_db + 50) (\<lambda>_ _. False)
     sample_charged_db"
  by (rule wp_post_mono [OF refund_difference_nets])
    (simp_all add: sample_charged_facts)

theorem refund_difference_short_agent_witness:
  "wp (post_call_refund_difference (sample_env SQLite) ''w1'' ''c1'' (50 + 0) ''agent'' ''w4'' ''w3'' 50 0 None)
     (\<lambda>x d'. x = None \<and> \<not> ledger_ok d') (\<lambda>_ _. False) sample_charged_db"
  by (rule wp_post_mono [OF refund_difference_short_agent])
    (simp_all add: sample_charged_facts, simp_all add: sample_charged_db_def sample_charge_tx_def
      sample_paid_db_def settled_tx_def sample_defs has_wallet_def balance_of_def find_wallet_def add_balance_def
      with_hold_def add_held_def sample_hold_def)

section \<open>Settlement keeps the ledger\<close>

context ledger_invariant begin

lemma keeps_payout_transaction: "keeps P (payout_transaction e aw pw c a f agent h job w)"
  unfolding payout_transaction_def
  by (intro keeps_transact_P keeps_ensures keeps_bindE keeps_select keeps_if keeps_whenE keeps_insert_once
      keeps_create_hold keeps_ret)

lemma keeps_post_call_payout:
  assumes "\<not> is_escrow_tx_id c"
  shows "keeps P (post_call_payout e aw pw c price agent pct policy job window curve)"
proof (cases "compute_success_distribution (PLATFORM_FEE_PCT e) price pct policy")
  case (Inl ex)
  then show ?thesis by (simp add: post_call_payout_def keeps_throw)
next
  case (Inr s)
  show ?thesis unfolding post_call_payout_def Inr Let_def using assms
    by (auto intro!: keeps_bindE keeps_ret keeps_payout_transaction keeps_case_option)
qed

lemma keeps_release_escrow_of: "keeps P (release_escrow_of e c)"
proof (cases "job_id_from_sentinel c")
  case (Inl ex)
  then show ?thesis by (simp add: release_escrow_of_def keeps_throw)
next
  case (Inr job)
  show ?thesis unfolding release_escrow_of_def Inr sum.case release_escrow_def resolve_escrow_def
    by (intro keeps_transact_P ensures_get_state keeps_ensures keeps_catch_when keeps_bindE keeps_ret
        keeps_rollback_to keeps_if keeps_select keeps_case_option keeps_other_update keeps_rewriting
        keeps_throw) (simp_all add: add_held_def)
qed

lemma keeps_post_call_refund: "keeps P (post_call_refund e cw c price agent)"
proof (cases "price < 0")
  case False
  then have "keeps P (insert_tx e 0 cw Refund price (Some agent) (Some c) (refund_memo c) None)"
    by (intro keeps_insert_tx) simp
  then show ?thesis unfolding post_call_refund_def using False
    by (auto intro!: keeps_release_escrow_of keeps_transact_P ensures_bindE ensures_select ensures_if
        ensures_ret ensures_catch_when keeps_bindE keeps_ret)
qed (simp add: post_call_refund_def keeps_throw)

end

end
