(* ===== verification/Payout_Curve.thy ===== *)
theory Payout_Curve
  imports Settlement
begin

text \<open>
  \<open>core/payout_curve.py\<close>: the clawback that a rating triggers on an agent with a payout curve. The
  parsing of curves is not modelled; a parsed curve is the association list of its stars.
\<close>

section \<open>Operations\<close>

definition fraction_for_rating :: "(string \<times> rat) list option \<Rightarrow> int \<Rightarrow> rat" where
  "fraction_for_rating curve rating =
     (case curve of
        None \<Rightarrow> 1
      | Some c \<Rightarrow> if c = [] then 1
                  else (case map_of c (int_str rating) of None \<Rightarrow> 1 | Some f \<Rightarrow> f))"

definition curve_wallet_balance_conn :: "env \<Rightarrow> string \<Rightarrow> (db, int option) prog" where
  "curve_wallet_balance_conn e wid = select e (\<lambda>d. map_option balance_cents (find_wallet wid d))"

text \<open>What the debit raises when no row matched.\<close>

definition curve_short :: "env \<Rightarrow> string \<Rightarrow> int \<Rightarrow> (db, string) prog" where
  "curve_short e wid amount =
     bindE (curve_wallet_balance_conn e wid) (\<lambda>b.
     case b of None \<Rightarrow> throw LookupError | Some balance \<Rightarrow> throw (InsufficientBalanceError balance amount))"

definition curve_debit_wallet_conn ::
  "env \<Rightarrow> nat \<Rightarrow> string \<Rightarrow> int \<Rightarrow> string \<Rightarrow> string \<Rightarrow> string \<Rightarrow> (db, unit) prog" where
  "curve_debit_wallet_conn e k wid amount agent related memo_text =
     bindE (guarded_debit e k wid amount (curve_short e wid amount) (Some agent) (Some related) memo_text None)
       (\<lambda>_. ret ())"

definition curve_credit_wallet_conn ::
  "env \<Rightarrow> nat \<Rightarrow> string \<Rightarrow> int \<Rightarrow> string \<Rightarrow> string \<Rightarrow> string \<Rightarrow> (db, unit) prog" where
  "curve_credit_wallet_conn e k wid amount agent related memo_text =
     bindE (update_wallets e (\<lambda>w. wallet_id w = wid) (add_balance amount)) (\<lambda>updated.
     if updated = 0 then throw LookupError
     else bindE (insert_tx_only e k wid Refund amount (Some agent) (Some related) memo_text None) (\<lambda>_. ret ()))"

record clawback_result =
  result_clawback_cents :: int
  result_payout_fraction :: rat
  result_applied :: bool
  result_reason :: "string option"

definition clawback_result_of :: "int \<Rightarrow> rat \<Rightarrow> bool \<Rightarrow> string option \<Rightarrow> clawback_result" where
  "clawback_result_of c f applied reason_text =
     \<lparr>result_clawback_cents = c, result_payout_fraction = f, result_applied = applied, result_reason = reason_text\<rparr>"

text \<open>The exceptions that skip the clawback, and the reason each is reported under.\<close>

fun skip_reason :: "exn \<Rightarrow> string option" where
  "skip_reason (InsufficientBalanceError _ _) = Some ''underflow''"
| "skip_reason LookupError = Some ''wallet_missing''"
| "skip_reason _ = None"

definition curve_idempotency_key :: "string \<Rightarrow> string" where
  "curve_idempotency_key job = ''payout_curve:'' @ job"

definition curve_legs ::
  "env \<Rightarrow> string \<Rightarrow> string \<Rightarrow> string \<Rightarrow> string \<Rightarrow> int \<Rightarrow> rat \<Rightarrow> (db, clawback_result) prog" where
  "curve_legs e job agent agent_wallet caller_wallet clawback fraction =
     bindE (curve_debit_wallet_conn e 0 agent_wallet clawback agent job (curve_idempotency_key job)) (\<lambda>_.
     bindE (curve_credit_wallet_conn e 1 caller_wallet clawback agent job (curve_idempotency_key job)) (\<lambda>_.
     ret (clawback_result_of clawback fraction True None)))"

definition curve_transaction ::
  "env \<Rightarrow> string \<Rightarrow> string \<Rightarrow> string \<Rightarrow> string \<Rightarrow> int \<Rightarrow> rat \<Rightarrow> (db, clawback_result) prog" where
  "curve_transaction e job agent agent_wallet caller_wallet clawback fraction =
     transact
       (bindE get_state (\<lambda>d0.
        bindE (select e (\<lambda>d. exists_row (\<lambda>t. memo t = curve_idempotency_key job) (transactions d))) (\<lambda>existing.
        if existing then ret (clawback_result_of clawback fraction False (Some ''already_applied''))
        else
          bindE (consume_hold_conn e job clawback RELEASE_REASON_RATING_CLAWBACK) (\<lambda>_.
          catchE (curve_legs e job agent agent_wallet caller_wallet clawback fraction)
            (\<lambda>ex. case skip_reason ex of
                None \<Rightarrow> throw ex
              | Some r \<Rightarrow> bindE (rollback_to d0) (\<lambda>_. ret (clawback_result_of clawback fraction False (Some r))))))))"

definition apply_curve_clawback ::
  "env \<Rightarrow> string \<Rightarrow> string \<Rightarrow> string \<Rightarrow> string \<Rightarrow> int \<Rightarrow> rat \<Rightarrow> (db, clawback_result) prog" where
  "apply_curve_clawback e job agent agent_wallet caller_wallet agent_payout fraction =
     (if 1 \<le> fraction then
        bindE (transact (release_hold_conn e job RELEASE_REASON_RATING_RELEASE)) (\<lambda>_.
        ret (clawback_result_of 0 1 False None))
      else
        let clawback = compute_clawback_cents agent_payout fraction in
        if clawback \<le> 0 then ret (clawback_result_of 0 fraction False None)
        else curve_transaction e job agent agent_wallet caller_wallet clawback fraction)"

section \<open>Invariants\<close>

lemma wp_curve_short:
  "ledger_ok d \<Longrightarrow> wp (curve_short e wid a) Q E d =
     (if pg_failed e d then E InFailedSqlTransaction d
      else if has_wallet wid d then E (InsufficientBalanceError (balance_of wid d) a) d else E LookupError d)"
  by (auto simp: curve_short_def curve_wallet_balance_conn_def wp_simps has_wallet_find balance_of_def
      split: option.splits)

text \<open>The credit with a check is the credit without, on a wallet that exists.\<close>

lemma count_wallet: "count_where (\<lambda>w. wallet_id w = wid) (wallets d) = 0 \<longleftrightarrow> \<not> has_wallet wid d"
  by (auto simp: count_where_0 has_wallet_def exists_row_iff simp del: neq0_conv)

lemma wp_curve_credit:
  assumes "ledger_ok d" and "0 \<le> a"
  shows "wp (curve_credit_wallet_conn e k wid a agent related m) Q E d =
     (let t = tx_entry e k wid Refund a (Some agent) (Some related) m None d in
      if pg_failed e d then E InFailedSqlTransaction d
      else if has_wallet wid d then
        if tx_insertable t d then Q () (post t d)
        else E IntegrityError (abort_tx e (d\<lparr>wallets := wallets (post t d)\<rparr>))
      else E LookupError d)"
  using assms ledger_okD(3,4) [OF assms(1)] count_wallet [of wid d]
  by (auto simp: curve_credit_wallet_conn_def wp_simps Let_def post_alt wallet_check_add update_rows_none
      has_wallet_def exists_row_iff simp del: neq0_conv)

context posting_invariant begin

lemma ensures_curve_debit: "ensures P (curve_debit_wallet_conn e k wid a agent related m)"
  unfolding curve_debit_wallet_conn_def curve_short_def curve_wallet_balance_conn_def
  by (auto intro!: ensures_bindE ensures_guarded_debit ensures_select ensures_case_option ensures_throw)

lemma ensures_curve_credit: "0 \<le> a \<Longrightarrow> ensures P (curve_credit_wallet_conn e k wid a agent related m)"
  by (rule ensuresI) (simp add: wp_curve_credit ledger posting funded_nonneg Let_def)

end

context ledger_invariant begin

lemma ensures_curve_legs: "0 \<le> c \<Longrightarrow> ensures P (curve_legs e job agent aw cw c f)"
  unfolding curve_legs_def by (intro ensures_bindE ensures_curve_debit ensures_curve_credit ensures_ret)

lemma keeps_apply_curve_clawback: "keeps P (apply_curve_clawback e job agent aw cw payout f)"
proof -
  have legs: "ensures P (catchE (curve_legs e job agent aw cw c f) (\<lambda>ex. case skip_reason ex of
      None \<Rightarrow> throw ex
    | Some r \<Rightarrow> bindE (rollback_to d0) (\<lambda>_. ret (clawback_result_of c f False (Some r)))))"
    if "P d0" "0 \<le> c" for c d0
    using ensures_curve_legs [OF that(2), of e job agent aw cw f] that(1)
    unfolding ensures_def
    by (auto simp: wp_simps elim!: wp_post_mono split: option.splits)
  have "keeps P (curve_transaction e job agent aw cw c f)" if "0 \<le> c" for c
    unfolding curve_transaction_def
    by (intro keeps_transact_P ensures_get_state ensures_bindE ensures_select ensures_if ensures_ret
        keeps_ensures [OF keeps_consume_hold] legs that)
  then show ?thesis unfolding apply_curve_clawback_def Let_def
    by (auto intro!: keeps_bindE keeps_transact_P keeps_ensures [OF keeps_release_hold])
qed

end

section \<open>What the clawback does\<close>

lemma held_update_frame:
  assumes "wallets d' = update_rows p (add_held a) (wallets d)"
  shows "balance_of w d' = balance_of w d" "has_wallet w d' = has_wallet w d"
    "total_balance d' = total_balance d"
proof -
  have "map balance_cents (wallets d') = map balance_cents (wallets d)"
    using assms by (simp add: map_update_rows_same add_held_def)
  then show "total_balance d' = total_balance d" by (simp add: total_balance_def)
qed (use assms in \<open>simp_all add: balance_of_def find_wallet_def find_update_same add_held_def has_wallet_def
      exists_row_update split: option.split\<close>)

text \<open>Consuming the reserve of a job, if there is one: never an error, and no balance or entry moves.\<close>

definition same_money :: "db \<Rightarrow> db \<Rightarrow> bool" where
  "same_money d d' \<longleftrightarrow> transactions d' = transactions d \<and> total_balance d' = total_balance d \<and>
     (\<forall>w. balance_of w d' = balance_of w d \<and> has_wallet w d' = has_wallet w d)"

lemma consume_hold_money:
  assumes ok: "ledger_ok d" "holds_ok x d" and "0 < c" and r: "r \<in> set VALID_CONSUME_REASONS"
    and pg: "\<not> tx_failed d"
  shows "wp (consume_hold_conn e job c r)
     (\<lambda>_ d'. ledger_ok d' \<and> \<not> tx_failed d' \<and> same_money d d' \<and> active_hold_of job d' = None \<and> holds_ok x d')
     (\<lambda>_ _. False) d"
proof (cases "active_hold_of job d")
  case None
  then show ?thesis using assms
    by (simp add: consume_hold_conn_def get_active_hold_for_job_conn_def wp_simps pg_failed_def same_money_def)
next
  case (Some h)
  have "wp (consume_hold_conn e job c r) (\<lambda>_. ledger_ok) (\<lambda>_. ledger_ok) d"
    using ok(1) by (rule keeps_wp [OF ledger_inv.keeps_consume_hold])
  from wp_conj [OF this consume_hold_spec [OF ok(2) Some assms(3) r pg, of e]] show ?thesis
    by (rule wp_post_mono) (auto simp: same_money_def held_update_frame)
qed

lemma tx_entry_same:
  "transactions d' = transactions d \<Longrightarrow>
     new_id x d' = new_id x d \<and> unsettled c kind w d' = unsettled c kind w d"
  by (simp add: new_id_def unsettled_def)

definition curve_unapplied :: "string \<Rightarrow> db \<Rightarrow> bool" where
  "curve_unapplied job d \<longleftrightarrow> (\<forall>t\<in>set (transactions d). memo t \<noteq> curve_idempotency_key job)"

lemma wp_curve_transaction:
  assumes "ledger_ok d" "holds_ok x d" and "0 < c" and "curve_unapplied job d"
    and legs: "\<And>d1. ledger_ok d1 \<Longrightarrow> \<not> tx_failed d1 \<Longrightarrow> same_money d d1 \<Longrightarrow> active_hold_of job d1 = None \<Longrightarrow>
      wp (curve_legs e job agent aw cw c f) (\<lambda>r d'. Q r d' \<and> \<not> tx_failed d')
        (\<lambda>ex d'. \<exists>r. skip_reason ex = Some r \<and>
                    Q (clawback_result_of c f False (Some r)) (d\<lparr>tx_failed := False\<rparr>)) d1"
  shows "wp (curve_transaction e job agent aw cw c f) Q E d"
proof -
  have r: "RELEASE_REASON_RATING_CLAWBACK \<in> set VALID_CONSUME_REASONS"
    by (simp add: VALID_CONSUME_REASONS_def)
  have ex: "\<not> exists_row (\<lambda>t. memo t = curve_idempotency_key job) (transactions d)"
    using assms(4) by (auto simp: curve_unapplied_def exists_row_iff)
  have sm: "same_money (d\<lparr>tx_failed := False\<rparr>) d1 = same_money d d1" for d1
    by (simp add: same_money_def)
  show ?thesis
    unfolding curve_transaction_def
    using assms(1,2) ex
    apply (simp add: wp_simps)
    apply (rule wp_post_mono [OF consume_hold_money [where x = x]])
    using assms(3) r by (auto simp: sm intro!: wp_post_mono [OF legs] simp: wp_simps)
qed

lemma curve_clawback_spec:
  assumes ok: "ledger_ok d" "holds_ok x d" and f: "f < 1" "compute_clawback_cents payout f = c" "0 < c"
    and u: "curve_unapplied job d" and w: "has_wallet aw d" "has_wallet cw d" "aw \<noteq> cw"
    and pay: "c \<le> balance_of aw d"
    and new: "new_id (uuid e 0) d" "new_id (uuid e 1) d" "uuid e 0 \<noteq> uuid e 1"
    and un: "unsettled job Charge aw d" "unsettled job Refund cw d"
  shows "wp (apply_curve_clawback e job agent aw cw payout f)
     (\<lambda>r d'. result_applied r \<and> result_clawback_cents r = c \<and> ledger_ok d' \<and>
        active_hold_of job d' = None \<and> total_balance d' = total_balance d \<and>
        (\<forall>w. balance_of w d' = balance_of w d + (if w = cw then c else 0) - (if w = aw then c else 0)))
     (\<lambda>_ _. False) d"
proof -
  define Q where "Q r d' \<longleftrightarrow> result_applied r \<and> result_clawback_cents r = c \<and> ledger_ok d' \<and>
        active_hold_of job d' = None \<and> total_balance d' = total_balance d \<and>
        (\<forall>w. balance_of w d' = balance_of w d + (if w = cw then c else 0) - (if w = aw then c else 0))"
    for r :: clawback_result and d'
  have "wp (curve_transaction e job agent aw cw c f) Q (\<lambda>_ _. False) d"
  proof (rule wp_curve_transaction [OF ok f(3) u])
    fix d1 assume d1: "ledger_ok d1" "\<not> tx_failed d1" "same_money d d1" "active_hold_of job d1 = None"
    let ?m = "curve_idempotency_key job"
    let ?t = "tx_entry e 0 aw Charge (- c) (Some agent) (Some job) ?m None d1"
    have t: "transactions d1 = transactions d" and b: "balance_of v d1 = balance_of v d"
      "has_wallet v d1 = has_wallet v d" "total_balance d1 = total_balance d" for v
      using d1(3) by (auto simp: same_money_def)
    note same = tx_entry_same [OF t]
    have a: "active_hold_of job (post u d') = active_hold_of job d'" for u d'
      by (simp add: active_hold_of_def)
    have l: "ledger_ok (post ?t d1)"
      using d1(1) w pay new un f(3) by (auto simp: posting_simps same b)
    show "wp (curve_legs e job agent aw cw c f) (\<lambda>r d'. Q r d' \<and> \<not> tx_failed d')
       (\<lambda>ex d'. \<exists>r. skip_reason ex = Some r \<and>
          Q (clawback_result_of c f False (Some r)) (d\<lparr>tx_failed := False\<rparr>)) d1"
      using d1(1,2,4) w pay new un f(3) l balance_of_nonneg [OF ok(1), of cw]
      by (auto simp: curve_legs_def curve_debit_wallet_conn_def wp_simps wp_curve_credit Let_def
          posting_simps same b a pg_failed_def clawback_result_of_def Q_def)
  qed
  then show ?thesis using f by (simp add: apply_curve_clawback_def Let_def flip: Q_def)
qed

text \<open>
  The clawback of a rating moves exactly its amount from the agent to the caller and closes the
  job's reserve: with an agent that can pay and no clawback yet, it reports that it applied, no
  other balance moves, the total is unchanged and the ledger balances.
\<close>

theorem curve_clawback_applies:
  assumes ok: "ledger_ok d" "holds_ok x d" and f: "f < 1" "compute_clawback_cents payout f = c" "0 < c"
    and u: "curve_unapplied job d" and w: "has_wallet aw d" "has_wallet cw d" "aw \<noteq> cw"
    and pay: "c \<le> balance_of aw d"
    and new: "new_id (uuid e 0) d" "new_id (uuid e 1) d" "uuid e 0 \<noteq> uuid e 1"
    and un: "unsettled job Charge aw d" "unsettled job Refund cw d"
  shows "wp (apply_curve_clawback e job agent aw cw payout f)
     (\<lambda>r d'. result_applied r \<and> result_clawback_cents r = c \<and> ledger_ok d' \<and>
        active_hold_of job d' = None \<and> total_balance d' = total_balance d \<and>
        (\<forall>w. balance_of w d' = balance_of w d + (if w = cw then c else 0) - (if w = aw then c else 0)))
     (\<lambda>_ _. False) d"
  using assms by (rule curve_clawback_spec)

lemma sample_paid_facts:
  "has_wallet ''w1'' sample_paid_db" "has_wallet ''w2'' sample_paid_db"
  "balance_of ''w2'' sample_paid_db = 100" "new_id (uuid (sample_env b) k) sample_paid_db"
  "unsettled ''j1'' kind w sample_paid_db" "curve_unapplied ''j1'' sample_paid_db"
  by (simp_all add: sample_paid_db_def settled_tx_def sample_defs has_wallet_def balance_of_def
      find_wallet_def add_balance_def with_hold_def add_held_def sample_hold_def new_id_def unsettled_def
      curve_unapplied_def curve_idempotency_key_def sample_env_def)

lemma sample_clawback: "compute_clawback_cents 100 (1 / 4) = 75"
  using round_half_up_of_int [of 75] by (simp add: compute_clawback_cents_def clamp01_def)

theorem curve_clawback_applies_witness:
  "wp (apply_curve_clawback (sample_env Postgres) ''j1'' ''agent'' ''w2'' ''w1'' 100 (1 / 4))
     (\<lambda>r d'. result_applied r \<and> balance_of ''w1'' d' = balance_of ''w1'' sample_paid_db + 75 \<and>
             active_hold_of ''j1'' d' = None) (\<lambda>_ _. False) sample_paid_db"
  by (rule wp_post_mono [OF curve_clawback_applies [OF sample_paid_ok sample_paid_holds _ sample_clawback]])
    (simp_all add: sample_paid_facts)

text \<open>
  A reserve does not make the clawback certain. Whatever is held for the job, when the agent's
  balance has dropped below the clawback the adjustment is skipped: it reports \<open>underflow\<close>, and
  the transaction, the closing of the reserve included, is rolled back.
\<close>

theorem curve_clawback_underflow:
  assumes ok: "ledger_ok d" "holds_ok x d" and f: "f < 1" "compute_clawback_cents payout f = c" "0 < c"
    and u: "curve_unapplied job d" and w: "has_wallet aw d" and short: "balance_of aw d < c"
  shows "wp (apply_curve_clawback e job agent aw cw payout f)
     (\<lambda>r d'. r = clawback_result_of c f False (Some ''underflow'') \<and> d' = d\<lparr>tx_failed := False\<rparr>)
     (\<lambda>_ _. False) d"
proof -
  have "wp (curve_transaction e job agent aw cw c f)
     (\<lambda>r d'. r = clawback_result_of c f False (Some ''underflow'') \<and> d' = d\<lparr>tx_failed := False\<rparr>)
     (\<lambda>_ _. False) d"
    using w short
    by (intro wp_curve_transaction [OF ok f(3) u])
      (auto simp: curve_legs_def curve_debit_wallet_conn_def wp_simps wp_curve_short can_pay_iff same_money_def
        pg_failed_def)
  then show ?thesis using f by (simp add: apply_curve_clawback_def Let_def)
qed

theorem curve_clawback_underflow_witness:
  "wp (apply_curve_clawback (sample_env SQLite) ''j1'' ''agent'' ''w2'' ''w1'' 180 0)
     (\<lambda>r d'. \<not> result_applied r \<and> wallet_holds d' = wallet_holds sample_paid_db) (\<lambda>_ _. False) sample_paid_db"
proof -
  have "compute_clawback_cents 180 0 = 180"
    using round_half_up_of_int [of 180] by (simp add: compute_clawback_cents_def clamp01_def)
  from curve_clawback_underflow [OF sample_paid_ok sample_paid_holds _ this] show ?thesis
    by (rule wp_post_mono) (simp_all add: sample_paid_facts clawback_result_of_def)
qed

lemma keeps_ledger_close_hold:
  "keeps (\<lambda>d. L (transactions d)) m \<Longrightarrow> keeps (\<lambda>d. L (transactions d)) (close_hold e job h f m)"
  unfolding close_hold_def drop_held_def get_active_hold_for_job_conn_def
  by (intro keeps_if keeps_bindE keeps_select keeps_ledger_update keeps_raise_if) simp_all

lemma keeps_ledger_release_hold: "keeps (\<lambda>d. L (transactions d)) (release_hold_conn e job r)"
  unfolding release_hold_conn_def get_active_hold_for_job_conn_def
  by (intro keeps_if keeps_throw keeps_bindE keeps_select keeps_case_option keeps_ret keeps_ledger_close_hold)

text \<open>
  The clawback is applied once: after a call that applied it, no later call for the job, with
  whatever rating, wallets and amounts, applies it again or writes a ledger entry.
\<close>

theorem curve_clawback_once:
  assumes "apply_curve_clawback e job agent aw cw payout f d = (Inr r, d')" and "result_applied r"
  shows "wp (apply_curve_clawback e2 job agent2 aw2 cw2 payout2 f2)
     (\<lambda>r2 d2. \<not> result_applied r2 \<and> transactions d2 = transactions d')
     (\<lambda>_ d2. transactions d2 = transactions d') d'"
proof -
  have legs: "wp (curve_legs e job agent aw cw c f)
      (\<lambda>r d'. \<not> curve_unapplied job d' \<and> \<not> tx_failed d') (\<lambda>_ _. True) d1" if "\<not> tx_failed d1" for c d1
    using that unfolding curve_legs_def curve_debit_wallet_conn_def curve_credit_wallet_conn_def guarded_debit_def
    by (auto simp: wp_simps curve_short_def curve_wallet_balance_conn_def curve_unapplied_def Let_def
        split: option.split)
  have clean: "wp (consume_hold_conn e job c r) (\<lambda>_ d'. \<not> tx_failed d') (\<lambda>_ _. True) d1"
    if "\<not> tx_failed d1" for c r d1
    using that by (auto simp: consume_hold_conn_def get_active_hold_for_job_conn_def close_hold_def
        drop_held_def wp_simps split: option.split)
  have "wp (curve_transaction e job agent aw cw c f)
      (\<lambda>r d'. result_applied r \<longrightarrow> \<not> curve_unapplied job d') (\<lambda>_ _. True) d" for c
    unfolding curve_transaction_def
    by (auto simp: wp_simps clawback_result_of_def intro!: wp_post_mono [OF clean] wp_post_mono [OF legs]
        split: option.split)
  then have "wp (apply_curve_clawback e job agent aw cw payout f)
      (\<lambda>r d'. result_applied r \<longrightarrow> \<not> curve_unapplied job d') (\<lambda>_ _. True) d"
    unfolding apply_curve_clawback_def Let_def
    by (simp add: wp_if wp_bindE wp_ret clawback_result_of_def wp_trivial)
  then have applied: "exists_row (\<lambda>t. memo t = curve_idempotency_key job) (transactions d')"
    using assms by (auto simp: wp_def curve_unapplied_def exists_row_iff)
  have rel: "keeps (\<lambda>d2. transactions d2 = transactions d') (transact (release_hold_conn e2 job r0))" for r0
    by (intro keeps_ledger_transact keeps_ensures keeps_ledger_release_hold)
  show ?thesis using applied keeps_wp [OF rel, of d' RELEASE_REASON_RATING_RELEASE]
    by (auto simp: apply_curve_clawback_def curve_transaction_def Let_def wp_bindE wp_if wp_ret
        clawback_result_of_def wp_simps elim!: wp_post_mono)
qed

theorem curve_clawback_once_witness:
  "\<exists>r d'. apply_curve_clawback (sample_env SQLite) ''j1'' ''agent'' ''w2'' ''w1'' 100 (1 / 4) sample_paid_db = (Inr r, d') \<and>
     result_applied r \<and>
     wp (apply_curve_clawback (sample_env SQLite) ''j1'' ''agent'' ''w2'' ''w1'' 100 0)
       (\<lambda>r2 _. \<not> result_applied r2) (\<lambda>_ _. True) d'"
proof -
  let ?m = "apply_curve_clawback (sample_env SQLite) ''j1'' ''agent'' ''w2'' ''w1'' 100 (1 / 4)"
  have "wp ?m (\<lambda>r _. result_applied r) (\<lambda>_ _. False) sample_paid_db"
    by (rule wp_post_mono [OF curve_clawback_spec [OF sample_paid_ok sample_paid_holds _ sample_clawback]])
      (simp_all add: sample_paid_facts)
  then obtain r d' where r: "?m sample_paid_db = (Inr r, d')" "result_applied r"
    by (auto simp: wp_def split: prod.splits sum.splits)
  have "wp (apply_curve_clawback (sample_env SQLite) ''j1'' ''agent'' ''w2'' ''w1'' 100 0)
       (\<lambda>r2 _. \<not> result_applied r2) (\<lambda>_ _. True) d'"
    by (rule wp_post_mono [OF curve_clawback_once [OF r]]) simp_all
  with r show ?thesis by (intro exI conjI)
qed

end
