(* ===== verification/Trust_Disputes.thy ===== *)
theory Trust_Disputes
  imports Payout_Curve "HOL-Library.List_Lexorder"
begin

text \<open>
  \<open>core/payments/trust_disputes.py\<close>: caller trust, the judge's fee, and the money of a dispute: the
  filing deposit, the clawback of a settled call into the dispute's escrow wallet, and the final
  settlement of each outcome.
\<close>

section \<open>Caller trust\<close>

definition trust_insertable :: "trust_event \<Rightarrow> db \<Rightarrow> bool" where
  "trust_insertable v d \<longleftrightarrow> \<not> exists_row (\<lambda>u. event_id u = event_id v) (caller_trust_events d)"

abbreviation insert_trust_event :: "env \<Rightarrow> trust_event \<Rightarrow> (db, unit) prog" where
  "insert_trust_event e \<equiv>
     insert_stmt e caller_trust_events (\<lambda>vs d. d\<lparr>caller_trust_events := vs\<rparr>) trust_insertable"

definition get_caller_trust :: "env \<Rightarrow> string \<Rightarrow> (db, rat) prog" where
  "get_caller_trust e owner =
     bindE (get_or_create_wallet e owner None None) (\<lambda>w. ret (clamp01 (caller_trust w)))"

record trust_change =
  change_owner_id :: string
  change_before :: rat
  change_after :: rat
  change_delta :: rat

definition adjust_caller_trust ::
  "env \<Rightarrow> string \<Rightarrow> rat \<Rightarrow> string \<Rightarrow> string option \<Rightarrow> (db, trust_change) prog" where
  "adjust_caller_trust e owner delta reason_text related =
     (let owner = py_strip owner; reason_text = or_text (py_strip reason_text) ''manual'' in
      if owner = [] then throw (ValueError ''owner_id must be a non-empty string.'')
      else transact
        (bindE (select e (find_wallet_by_owner owner)) (\<lambda>row.
         bindE (case row of
                  None \<Rightarrow> bindE (insert_wallet e (new_wallet e 0 owner None None)) (\<lambda>_. ret (1 / 2))
                | Some w \<Rightarrow> ret (caller_trust w)) (\<lambda>before.
         let after = clamp01 (before + delta) in
         bindE (update_wallets e (\<lambda>w. owner_id w = owner) (\<lambda>w. w\<lparr>caller_trust := after\<rparr>)) (\<lambda>_.
         bindE (insert_trust_event e
                  \<lparr>event_id = uuid e 1, trust_owner_id = owner, trust_delta = delta, trust_before = before,
                   trust_after = after, trust_reason = reason_text,
                   trust_related_id = (case related of None \<Rightarrow> None
                                       | Some r \<Rightarrow> if r = [] then None else Some (py_strip r)),
                   trust_created_at = now e\<rparr>) (\<lambda>_.
         ret \<lparr>change_owner_id = owner, change_before = before, change_after = after,
              change_delta = delta\<rparr>))))))"

definition adjust_caller_trust_once ::
  "env \<Rightarrow> string \<Rightarrow> rat \<Rightarrow> string \<Rightarrow> string \<Rightarrow> (db, trust_change) prog" where
  "adjust_caller_trust_once e owner delta reason_text related =
     bindE (transact (select e (\<lambda>d.
       exists_row (\<lambda>v. trust_owner_id v = owner \<and> trust_reason v = reason_text \<and> trust_related_id v = Some related)
         (caller_trust_events d)))) (\<lambda>recorded.
     if recorded then
       bindE (get_caller_trust e owner) (\<lambda>current.
       ret \<lparr>change_owner_id = owner, change_before = current, change_after = current, change_delta = 0\<rparr>)
     else adjust_caller_trust e owner delta reason_text (Some related))"

section \<open>Moving money inside a transaction\<close>

definition get_or_create_wallet_id_conn :: "env \<Rightarrow> nat \<Rightarrow> string \<Rightarrow> (db, string) prog" where
  "get_or_create_wallet_id_conn e k owner =
     bindE (select e (find_wallet_by_owner owner)) (\<lambda>row.
     case row of
       Some w \<Rightarrow> ret (wallet_id w)
     | None \<Rightarrow> bindE (insert_wallet e (new_wallet e k owner None None)) (\<lambda>_. ret (uuid e k)))"

definition wallet_balance_conn :: "env \<Rightarrow> string \<Rightarrow> (db, int) prog" where
  "wallet_balance_conn e wid =
     bindE (select e (find_wallet wid)) (\<lambda>row.
     case row of None \<Rightarrow> throw (ValueError ''Wallet not found.'') | Some w \<Rightarrow> ret (balance_cents w))"

definition debit_wallet_conn ::
  "env \<Rightarrow> nat \<Rightarrow> string \<Rightarrow> int \<Rightarrow> string \<Rightarrow> string \<Rightarrow> string \<Rightarrow> (db, unit) prog" where
  "debit_wallet_conn e k wid amount agent related memo_text =
     (if amount < 0 then throw (ValueError ''amount_cents must be non-negative.'')
      else if amount = 0 then ret ()
      else bindE (guarded_debit e k wid amount
                    (bindE (wallet_balance_conn e wid) (\<lambda>balance. throw (InsufficientBalanceError balance amount)))
                    (Some agent) (Some related) memo_text None) (\<lambda>_. ret ()))"

definition credit_wallet_conn ::
  "env \<Rightarrow> nat \<Rightarrow> string \<Rightarrow> tx_type \<Rightarrow> int \<Rightarrow> string \<Rightarrow> string \<Rightarrow> string \<Rightarrow> (db, unit) prog" where
  "credit_wallet_conn e k wid kind amount agent related memo_text =
     (if amount < 0 then throw (ValueError ''amount_cents must be non-negative.'')
      else bindE (insert_tx e k wid kind amount (Some agent) (Some related) memo_text None) (\<lambda>_. ret ()))"

definition judge_fee_key :: "string \<Rightarrow> string" where
  "judge_fee_key charge_tx = ''judge_fee:'' @ charge_tx"

definition record_judge_fee :: "env \<Rightarrow> string \<Rightarrow> string \<Rightarrow> string \<Rightarrow> string \<Rightarrow> int \<Rightarrow> (db, unit) prog" where
  "record_judge_fee e platform_wallet judge_wallet charge_tx agent fee =
     (if fee \<le> 0 then ret ()
      else transact
        (bindE (select e (\<lambda>d. exists_row (\<lambda>t. related_tx_id t = Some (judge_fee_key charge_tx) \<and>
                  tx_wallet_id t = judge_wallet \<and> tx_kind t = Fee) (transactions d))) (\<lambda>existing.
         if existing then ret ()
         else
           bindE (debit_wallet_conn e 0 platform_wallet fee agent (judge_fee_key charge_tx)
                    (''Quality judge fee for call '' @ take 8 charge_tx)) (\<lambda>_.
           credit_wallet_conn e 1 judge_wallet Fee fee agent (judge_fee_key charge_tx)
             (''Quality judge fee receipt for call '' @ take 8 charge_tx)))))"

section \<open>Locking the funds of a dispute\<close>

definition dispute_with_job :: "string \<Rightarrow> db \<Rightarrow> (dispute \<times> job) option" where
  "dispute_with_job dis d =
     (case find (\<lambda>x. dispute_id x = dis) (disputes d) of
        None \<Rightarrow> None
      | Some x \<Rightarrow> map_option (Pair x) (find (\<lambda>j. job_id j = dispute_job_id x) (jobs d)))"

definition dispute_context_conn :: "env \<Rightarrow> string \<Rightarrow> (db, dispute \<times> job) prog" where
  "dispute_context_conn e dis =
     bindE (select e (dispute_with_job dis)) (\<lambda>row.
     case row of
       None \<Rightarrow> throw (ValueError ''Dispute not found.'')
     | Some ctx \<Rightarrow>
         if agent_wallet_id (snd ctx) = [] \<or> platform_wallet_id (snd ctx) = [] \<or> caller_wallet_id (snd ctx) = []
         then throw (ValueError ''Dispute context incomplete'')
         else ret ctx)"

definition related_sum :: "string \<Rightarrow> string \<Rightarrow> tx_type \<Rightarrow> db \<Rightarrow> int" where
  "related_sum related wid kind d =
     sum_where (\<lambda>t. related_tx_id t = Some related \<and> tx_wallet_id t = wid \<and> tx_kind t = kind)
       amount_cents (transactions d)"

definition dispute_escrow_owner :: "string \<Rightarrow> string" where
  "dispute_escrow_owner dis = ''dispute_escrow:'' @ dis"

definition dispute_deposit_owner :: "string \<Rightarrow> string" where
  "dispute_deposit_owner dis = ''dispute_deposit:'' @ dis"

definition dispute_memo :: "string \<Rightarrow> string \<Rightarrow> string" where
  "dispute_memo what dis = ''Dispute '' @ what @ '' for '' @ take 8 dis"

record locked_funds =
  locked_escrow_wallet :: string
  locked_cents :: int

definition claw_back ::
  "env \<Rightarrow> string \<Rightarrow> job \<Rightarrow> string \<Rightarrow> int \<Rightarrow> int \<Rightarrow> (db, unit) prog" where
  "claw_back e dis j escrow_wallet agent_paid platform_paid =
     bindE (consume_hold_conn e (job_id j) agent_paid RELEASE_REASON_DISPUTE_CLAWBACK) (\<lambda>_.
     bindE (debit_wallet_conn e 1 (agent_wallet_id j) agent_paid (agent_id j) dis
              (dispute_memo ''clawback from agent'' dis)) (\<lambda>_.
     bindE (debit_wallet_conn e 2 (platform_wallet_id j) platform_paid (agent_id j) dis
              (dispute_memo ''clawback from platform'' dis)) (\<lambda>_.
     credit_wallet_conn e 3 escrow_wallet Deposit (agent_paid + platform_paid) (agent_id j) dis
       (dispute_memo ''escrow lock'' dis))))"

definition lock_into :: "env \<Rightarrow> string \<Rightarrow> job \<Rightarrow> string \<Rightarrow> (db, locked_funds) prog" where
  "lock_into e dis j escrow_wallet =
     bindE (select e (related_sum dis escrow_wallet Deposit)) (\<lambda>already_locked.
     if 0 < already_locked
     then ret \<lparr>locked_escrow_wallet = escrow_wallet, locked_cents = already_locked\<rparr>
     else
       bindE (select e (related_sum (charge_tx_id j) (agent_wallet_id j) Payout)) (\<lambda>agent_paid.
       bindE (select e (related_sum (charge_tx_id j) (platform_wallet_id j) Fee)) (\<lambda>platform_paid.
       bindE (whenE (0 < agent_paid + platform_paid)
         (claw_back e dis j escrow_wallet agent_paid platform_paid)) (\<lambda>_.
       ret \<lparr>locked_escrow_wallet = escrow_wallet, locked_cents = agent_paid + platform_paid\<rparr>))))"

definition lock_dispute_funds_conn :: "env \<Rightarrow> string \<Rightarrow> (db, locked_funds) prog" where
  "lock_dispute_funds_conn e dis =
     bindE (dispute_context_conn e dis) (\<lambda>(x, j).
     bindE (get_or_create_wallet_id_conn e 0 (dispute_escrow_owner dis)) (lock_into e dis j))"

definition lock_dispute_funds :: "env \<Rightarrow> string \<Rightarrow> (db, locked_funds) prog" where
  "lock_dispute_funds e dis = transact (lock_dispute_funds_conn e dis)"

section \<open>The filing deposit\<close>

record collected_deposit =
  deposit_wallet :: string
  collected_cents :: int

definition collect_dispute_filing_deposit_conn ::
  "env \<Rightarrow> string \<Rightarrow> string \<Rightarrow> int \<Rightarrow> (db, collected_deposit) prog" where
  "collect_dispute_filing_deposit_conn e dis filed_by amount =
     (if amount < 0 then throw (ValueError ''amount_cents must be non-negative.'')
      else
        bindE (get_or_create_wallet_id_conn e 0 (dispute_deposit_owner dis)) (\<lambda>dep.
        if amount = 0 then ret \<lparr>deposit_wallet = dep, collected_cents = 0\<rparr>
        else
          bindE (select e (related_sum dis dep Deposit)) (\<lambda>already_collected.
          if 0 < already_collected then ret \<lparr>deposit_wallet = dep, collected_cents = already_collected\<rparr>
          else
            bindE (dispute_context_conn e dis) (\<lambda>(x, j).
            bindE (get_or_create_wallet_id_conn e 1 filed_by) (\<lambda>filer.
            bindE (debit_wallet_conn e 2 filer amount (agent_id j) dis (dispute_memo ''filing deposit'' dis)) (\<lambda>_.
            bindE (credit_wallet_conn e 3 dep Deposit amount (agent_id j) dis
                     (dispute_memo ''filing deposit escrow'' dis)) (\<lambda>_.
            bindE (whenE (DISPUTE_HOLD_ENABLED e)
              (catchE (bindE (update_wallets e (\<lambda>w. wallet_id w = filer) (add_held amount)) (\<lambda>_. ret ()))
                 (\<lambda>_. ret ()))) (\<lambda>_.
            ret \<lparr>deposit_wallet = dep, collected_cents = amount\<rparr>))))))))"

definition collect_dispute_filing_deposit ::
  "env \<Rightarrow> string \<Rightarrow> string \<Rightarrow> int \<Rightarrow> (db, collected_deposit) prog" where
  "collect_dispute_filing_deposit e dis filed_by amount =
     transact (collect_dispute_filing_deposit_conn e dis filed_by amount)"

text \<open>
  \<open>MAX(0, x)\<close> with two arguments is SQLite's; PostgreSQL has no such function and refuses the
  statement.
\<close>

definition drop_filer_held :: "env \<Rightarrow> string \<Rightarrow> int \<Rightarrow> (db, unit) prog" where
  "drop_filer_held e wid amount =
     (case backend e of
        SQLite \<Rightarrow>
          bindE (update_wallets e (\<lambda>w. wallet_id w = wid) (\<lambda>w. w\<lparr>held_cents := max 0 (held_cents w - amount)\<rparr>))
            (\<lambda>_. ret ())
      | Postgres \<Rightarrow> stmt e (throw ProgrammingError))"

definition filer_won :: "dispute_side \<Rightarrow> dispute_outcome \<Rightarrow> bool" where
  "filer_won s outcome \<longleftrightarrow> (s = CallerSide \<and> outcome = CallerWins) \<or> (s = AgentSide \<and> outcome = AgentWins)"

definition refund_to_filer :: "dispute_side \<Rightarrow> dispute_outcome \<Rightarrow> bool" where
  "refund_to_filer s outcome \<longleftrightarrow> filer_won s outcome \<or> outcome \<in> {Split, Void}"

record released_deposit =
  filing_deposit :: int
  filing_deposit_refunded :: int
  filing_deposit_forfeited :: int

definition unmoved_deposit :: "int \<Rightarrow> released_deposit" where
  "unmoved_deposit configured =
     \<lparr>filing_deposit = configured, filing_deposit_refunded = 0, filing_deposit_forfeited = 0\<rparr>"

text \<open>The part of \<open>_release_dispute_filing_deposit_conn\<close> after its early returns.\<close>

definition move_filing_deposit ::
  "env \<Rightarrow> dispute \<Rightarrow> dispute_outcome \<Rightarrow> string \<Rightarrow> string \<Rightarrow> string \<Rightarrow> int \<Rightarrow> (db, released_deposit) prog" where
  "move_filing_deposit e x outcome agent platform_wallet dep deposit_balance =
     (let dis = dispute_id x;
          filer_owner = py_strip (filed_by_owner_id x);
          to_filer = refund_to_filer (side x) outcome in
      bindE (if to_filer \<and> filer_owner \<noteq> [] then get_or_create_wallet_id_conn e 7 filer_owner
             else ret platform_wallet) (\<lambda>target.
      bindE (debit_wallet_conn e 8 dep deposit_balance agent dis (dispute_memo ''filing deposit release'' dis)) (\<lambda>_.
      bindE (credit_wallet_conn e 9 target Deposit deposit_balance agent dis
               (dispute_memo (if to_filer \<and> filer_owner \<noteq> [] then ''filing deposit to filer''
                              else ''filing deposit to platform'') dis)) (\<lambda>_.
      bindE (whenE (DISPUTE_HOLD_ENABLED e \<and> filer_owner \<noteq> [])
        (catchE
           (bindE (get_or_create_wallet_id_conn e 10 filer_owner) (\<lambda>filer.
            drop_filer_held e filer (filing_deposit_cents x)))
           (\<lambda>_. ret ()))) (\<lambda>_.
      ret \<lparr>filing_deposit = filing_deposit_cents x,
           filing_deposit_refunded = (if to_filer then deposit_balance else 0),
           filing_deposit_forfeited = (if to_filer then 0 else deposit_balance)\<rparr>)))))"

definition release_dispute_filing_deposit_conn ::
  "env \<Rightarrow> string \<Rightarrow> dispute_outcome \<Rightarrow> string \<Rightarrow> string \<Rightarrow> (db, released_deposit) prog" where
  "release_dispute_filing_deposit_conn e dis outcome agent platform_wallet =
     bindE (dispute_context_conn e dis) (\<lambda>(x, j).
     bindE (get_or_create_wallet_id_conn e 6 (dispute_deposit_owner dis)) (\<lambda>dep.
     if filing_deposit_cents x \<le> 0 then ret (unmoved_deposit 0)
     else
       bindE (wallet_balance_conn e dep) (\<lambda>deposit_balance.
       if deposit_balance \<le> 0 then ret (unmoved_deposit (filing_deposit_cents x))
       else move_filing_deposit e x outcome agent platform_wallet dep deposit_balance)))"

section \<open>Final settlement\<close>

definition parse_outcome :: "string \<Rightarrow> dispute_outcome option" where
  "parse_outcome text = find (\<lambda>x. outcome_text x = py_lower (py_strip text)) [CallerWins, AgentWins, Split, Void]"

definition FINAL_MEMO_PREFIX :: string where "FINAL_MEMO_PREFIX = ''Dispute final settlement (''"

definition final_memo :: "dispute_outcome \<Rightarrow> string" where
  "final_memo outcome = FINAL_MEMO_PREFIX @ outcome_text outcome @ '')''"

text \<open>\<open>LIKE 'prefix%'\<close>, with the case rules of the back end.\<close>

definition sql_like_prefix :: "env \<Rightarrow> string \<Rightarrow> string \<Rightarrow> bool" where
  "sql_like_prefix e pat text =
     (case backend e of SQLite \<Rightarrow> prefix (py_lower pat) (py_lower text) | Postgres \<Rightarrow> prefix pat text)"

definition finalized_row :: "env \<Rightarrow> string \<Rightarrow> string \<Rightarrow> db \<Rightarrow> txn option" where
  "finalized_row e dis escrow_wallet d =
     find (\<lambda>t. related_tx_id t = Some dis \<and> tx_wallet_id t = escrow_wallet \<and>
              sql_like_prefix e FINAL_MEMO_PREFIX (memo t)) (transactions d)"

text \<open>\<open>s.rfind(c)\<close>, and the text between the last opening and the last closing parenthesis.\<close>

definition rfind :: "char \<Rightarrow> string \<Rightarrow> int" where
  "rfind c s = int (length (dropWhile (\<lambda>x. x \<noteq> c) (rev s))) - 1"

definition persisted_outcome :: "string \<Rightarrow> string \<Rightarrow> string" where
  "persisted_outcome memo_text requested =
     (let opening = rfind (CHR ''('') memo_text; closing = rfind (CHR '')'') memo_text in
      if opening \<noteq> - 1 \<and> opening < closing
      then take (nat (closing - opening - 1)) (drop (nat (opening + 1)) memo_text)
      else requested)"

record settlement_deltas =
  caller_delta :: int
  agent_delta :: int
  platform_delta :: int

definition deltas :: "int \<Rightarrow> int \<Rightarrow> int \<Rightarrow> settlement_deltas" where
  "deltas c a p = \<lparr>caller_delta = c, agent_delta = a, platform_delta = p\<rparr>"

record dispute_settlement =
  settled_outcome :: string
  settled_deltas :: settlement_deltas
  already_finalized :: bool
  released :: released_deposit

definition settle_caller_wins ::
  "env \<Rightarrow> string \<Rightarrow> job \<Rightarrow> string \<Rightarrow> int \<Rightarrow> (db, settlement_deltas) prog" where
  "settle_caller_wins e dis j escrow_wallet escrow_balance =
     (if 0 < escrow_balance then
        let payout_cents = min (caller_charge_cents j) escrow_balance in
        bindE (debit_wallet_conn e 1 escrow_wallet payout_cents (agent_id j) dis (dispute_memo ''release to caller'' dis)) (\<lambda>_.
        bindE (credit_wallet_conn e 2 (caller_wallet_id j) Refund payout_cents (agent_id j) dis
                 (dispute_memo ''caller win refund'' dis)) (\<lambda>_.
        ret (deltas payout_cents 0 0)))
      else
        bindE (credit_wallet_conn e 2 (caller_wallet_id j) Refund (caller_charge_cents j) (agent_id j) dis
                 (dispute_memo ''caller win refund'' dis)) (\<lambda>_.
        ret (deltas (caller_charge_cents j) 0 0)))"

definition settle_agent_wins ::
  "env \<Rightarrow> string \<Rightarrow> job \<Rightarrow> distribution \<Rightarrow> string \<Rightarrow> int \<Rightarrow> (db, settlement_deltas) prog" where
  "settle_agent_wins e dis j shares escrow_wallet escrow_balance =
     (if 0 < escrow_balance then
        let payout_cents = min (dist_agent_payout_cents shares) escrow_balance;
            fee_release = min (dist_platform_fee_cents shares) (max 0 (escrow_balance - payout_cents)) in
        bindE (whenE (0 < payout_cents + fee_release)
          (debit_wallet_conn e 1 escrow_wallet (payout_cents + fee_release) (agent_id j) dis
             (dispute_memo ''release to agent/platform'' dis))) (\<lambda>_.
        bindE (whenE (0 < payout_cents)
          (credit_wallet_conn e 2 (agent_wallet_id j) Payout payout_cents (agent_id j) dis
             (dispute_memo ''agent win payout'' dis))) (\<lambda>_.
        bindE (whenE (0 < fee_release)
          (credit_wallet_conn e 3 (platform_wallet_id j) Fee fee_release (agent_id j) dis
             (dispute_memo ''agent win platform fee'' dis))) (\<lambda>_.
        ret (deltas 0 (max 0 payout_cents) (max 0 fee_release)))))
      else
        bindE (credit_wallet_conn e 2 (agent_wallet_id j) Payout (dist_agent_payout_cents shares) (agent_id j) dis
                 (dispute_memo ''agent win payout'' dis)) (\<lambda>_.
        bindE (credit_wallet_conn e 3 (platform_wallet_id j) Fee (dist_platform_fee_cents shares) (agent_id j) dis
                 (dispute_memo ''agent win platform fee'' dis)) (\<lambda>_.
        ret (deltas 0 (dist_agent_payout_cents shares) (dist_platform_fee_cents shares)))))"

definition settle_split ::
  "env \<Rightarrow> string \<Rightarrow> job \<Rightarrow> string \<Rightarrow> int \<Rightarrow> int option \<Rightarrow> int option \<Rightarrow> (db, settlement_deltas) prog" where
  "settle_split e dis j escrow_wallet escrow_balance split_caller split_agent =
     (case (split_caller, split_agent) of
        (Some caller_share, Some agent_share) \<Rightarrow>
          if caller_share < 0 \<or> agent_share < 0 then throw (ValueError ''split shares must be non-negative.'')
          else if caller_charge_cents j < caller_share + agent_share
          then throw (ValueError ''split shares cannot exceed job price.'')
          else
            let platform_share = caller_charge_cents j - caller_share - agent_share;
                total_release = caller_share + agent_share + platform_share in
            bindE (whenE (total_release \<le> escrow_balance \<and> 0 < total_release)
              (debit_wallet_conn e 1 escrow_wallet total_release (agent_id j) dis
                 (dispute_memo ''split release'' dis))) (\<lambda>_.
            bindE (whenE (0 < caller_share)
              (credit_wallet_conn e 2 (caller_wallet_id j) Refund caller_share (agent_id j) dis
                 (dispute_memo ''split caller portion'' dis))) (\<lambda>_.
            bindE (whenE (0 < agent_share)
              (credit_wallet_conn e 3 (agent_wallet_id j) Payout agent_share (agent_id j) dis
                 (dispute_memo ''split agent portion'' dis))) (\<lambda>_.
            bindE (whenE (0 < platform_share)
              (credit_wallet_conn e 4 (platform_wallet_id j) Fee platform_share (agent_id j) dis
                 (dispute_memo ''split platform portion'' dis))) (\<lambda>_.
            ret (deltas caller_share agent_share platform_share)))))
      | _ \<Rightarrow> throw (ValueError ''split outcomes require split_caller_cents and split_agent_cents.''))"

definition settle_void ::
  "env \<Rightarrow> string \<Rightarrow> job \<Rightarrow> string \<Rightarrow> int \<Rightarrow> (db, settlement_deltas) prog" where
  "settle_void e dis j escrow_wallet escrow_balance =
     (if 0 < escrow_balance then
        bindE (debit_wallet_conn e 1 escrow_wallet escrow_balance (agent_id j) dis (dispute_memo ''void release'' dis)) (\<lambda>_.
        bindE (credit_wallet_conn e 2 (caller_wallet_id j) Refund escrow_balance (agent_id j) dis
                 (dispute_memo ''void refund'' dis)) (\<lambda>_.
        ret (deltas escrow_balance 0 0)))
      else ret (deltas 0 0 0))"

definition settle_outcome ::
  "env \<Rightarrow> string \<Rightarrow> job \<Rightarrow> distribution \<Rightarrow> string \<Rightarrow> int \<Rightarrow> dispute_outcome \<Rightarrow> int option \<Rightarrow> int option \<Rightarrow>
   (db, settlement_deltas) prog" where
  "settle_outcome e dis j shares escrow_wallet escrow_balance outcome split_caller split_agent =
     (case outcome of
        CallerWins \<Rightarrow> settle_caller_wins e dis j escrow_wallet escrow_balance
      | AgentWins \<Rightarrow> settle_agent_wins e dis j shares escrow_wallet escrow_balance
      | Split \<Rightarrow> settle_split e dis j escrow_wallet escrow_balance split_caller split_agent
      | Void \<Rightarrow> settle_void e dis j escrow_wallet escrow_balance)"

definition settle_once ::
  "env \<Rightarrow> string \<Rightarrow> job \<Rightarrow> distribution \<Rightarrow> string \<Rightarrow> dispute_outcome \<Rightarrow> int option \<Rightarrow> int option \<Rightarrow>
   (db, dispute_settlement) prog" where
  "settle_once e dis j shares escrow_wallet outcome split_caller split_agent =
     bindE (wallet_balance_conn e escrow_wallet) (\<lambda>escrow_balance.
     bindE (settle_outcome e dis j shares escrow_wallet escrow_balance outcome split_caller split_agent) (\<lambda>moved.
     bindE (insert_tx_only e 5 escrow_wallet Fee 0 (Some (agent_id j)) (Some dis) (final_memo outcome) None) (\<lambda>_.
     bindE (release_dispute_filing_deposit_conn e dis outcome (agent_id j) (platform_wallet_id j)) (\<lambda>dep.
     ret \<lparr>settled_outcome = outcome_text outcome, settled_deltas = moved, already_finalized = False,
          released = dep\<rparr>))))"

definition final_already :: "txn \<Rightarrow> dispute_outcome \<Rightarrow> dispute_settlement" where
  "final_already t outcome =
     \<lparr>settled_outcome = persisted_outcome (memo t) (outcome_text outcome), settled_deltas = deltas 0 0 0,
      already_finalized = True, released = unmoved_deposit 0\<rparr>"

definition dispute_settlement_body ::
  "env \<Rightarrow> string \<Rightarrow> dispute_outcome \<Rightarrow> int option \<Rightarrow> int option \<Rightarrow> (db, dispute_settlement) prog" where
  "dispute_settlement_body e dis outcome split_caller split_agent =
     bindE (dispute_context_conn e dis) (\<lambda>(x, j).
     case compute_success_distribution (PLATFORM_FEE_PCT e) (price_cents j) (Some (platform_fee_pct_at_create j))
            (Some (normalize_fee_bearer_policy (Some (fee_bearer_policy j)))) of
       Inl ex \<Rightarrow> throw ex
     | Inr shares \<Rightarrow>
         bindE (get_or_create_wallet_id_conn e 0 (dispute_escrow_owner dis)) (\<lambda>escrow_wallet.
         bindE (select e (finalized_row e dis escrow_wallet)) (\<lambda>finalized.
         case finalized of
           Some t \<Rightarrow> ret (final_already t outcome)
         | None \<Rightarrow> settle_once e dis j shares escrow_wallet outcome split_caller split_agent)))"

definition post_dispute_settlement ::
  "env \<Rightarrow> string \<Rightarrow> string \<Rightarrow> int option \<Rightarrow> int option \<Rightarrow> (db, dispute_settlement) prog" where
  "post_dispute_settlement e dis outcome_arg split_caller split_agent =
     (case parse_outcome outcome_arg of
        None \<Rightarrow> throw (ValueError ''Invalid dispute outcome.'')
      | Some outcome \<Rightarrow> transact (dispute_settlement_body e dis outcome split_caller split_agent))"

definition get_settlement_transactions :: "env \<Rightarrow> string \<Rightarrow> (db, txn list) prog" where
  "get_settlement_transactions e charge_tx =
     transact (select e (\<lambda>d. sort_key tx_created_at (sort_key tx_id
       (filter (\<lambda>t. tx_id t = charge_tx \<or> related_tx_id t = Some charge_tx) (transactions d)))))"

section \<open>A ledger whose entries belong to wallets\<close>

text \<open>
  The settings in which the operations of this theory run: the ledger balances, its entries belong
  to existing wallets, the total is \<open>T\<close>, the identifiers of \<open>K\<close> are not taken by a wallet and the
  wallets of \<open>W\<close> exist.
\<close>

definition entries_owned :: "db \<Rightarrow> bool" where
  "entries_owned d \<longleftrightarrow> (\<forall>t\<in>set (transactions d). has_wallet (tx_wallet_id t) d)"

definition world :: "env \<Rightarrow> int \<Rightarrow> nat set \<Rightarrow> string set \<Rightarrow> db \<Rightarrow> bool" where
  "world e T K W d \<longleftrightarrow> ledger_ok d \<and> entries_owned d \<and> total_balance d = T \<and> inj_on (uuid e) K \<and>
     (\<forall>k\<in>K. \<not> has_wallet (uuid e k) d) \<and> (\<forall>w\<in>W. has_wallet w d) \<and> \<not> tx_failed d"

lemma worldD:
  assumes "world e T K W d"
  shows "ledger_ok d" "entries_owned d" "total_balance d = T" "w \<in> W \<Longrightarrow> has_wallet w d"
    "k \<in> K \<Longrightarrow> \<not> has_wallet (uuid e k) d"
  using assms by (auto simp: world_def)

lemma entries_owned_flag [simp]: "entries_owned (d\<lparr>tx_failed := b\<rparr>) = entries_owned d"
  by (simp add: entries_owned_def)

lemma dispute_with_job_flag [simp]: "dispute_with_job dis (d\<lparr>tx_failed := b\<rparr>) = dispute_with_job dis d"
  by (simp add: dispute_with_job_def cong: option.case_cong)

lemma world_mono: "world e T K W d \<Longrightarrow> K' \<subseteq> K \<Longrightarrow> W' \<subseteq> W \<Longrightarrow> world e T K' W' d"
  by (auto simp: world_def intro: inj_on_subset)

lemma world_post:
  assumes "world e T K W d" and "tx_insertable t d" and "funded t d" and "has_wallet (tx_wallet_id t) d"
  shows "world e (T + amount_cents t) K W (post t d)"
  using assms by (auto simp: world_def ledger_ok_post total_balance_post entries_owned_def)

lemma world_debit:
  assumes w: "world e T K W d" and Q: "\<And>d'. world e (T - a) K W d' \<Longrightarrow> Q () d'" and E: "\<And>ex d'. E ex d'"
  shows "wp (debit_wallet_conn e k wid a agent rel m) Q E d"
proof -
  have "Q () (post (tx_entry e k wid Charge (- a) (Some agent) (Some rel) m None d) d)"
    if "can_pay wid a d" "tx_insertable (tx_entry e k wid Charge (- a) (Some agent) (Some rel) m None d) d"
    using world_post [OF w that(2)] that(1) worldD(1) [OF w] Q
    by (auto simp: can_pay_funded can_pay_iff)
  then show ?thesis using worldD(1) [OF w] w Q E
    by (auto simp: debit_wallet_conn_def wp_simps wallet_balance_conn_def Let_def split: option.split)
qed

lemma world_credit:
  assumes w: "world e T K W d" and "wid \<in> W"
    and Q: "\<And>d'. 0 \<le> a \<Longrightarrow> world e (T + a) K W d' \<Longrightarrow> Q () d'" and E: "\<And>ex d'. E ex d'"
  shows "wp (credit_wallet_conn e k wid kind a agent rel m) Q E d"
proof -
  have "Q () (post (tx_entry e k wid kind a (Some agent) (Some rel) m None d) d)"
    if "0 \<le> a" "tx_insertable (tx_entry e k wid kind a (Some agent) (Some rel) m None d) d"
    using world_post [OF w that(2)] that(1) worldD(1) [OF w] Q worldD(4) [OF w assms(2)]
    by (auto simp: funded_nonneg)
  then show ?thesis using worldD(1) [OF w] E
    by (auto simp: credit_wallet_conn_def wp_simps Let_def)
qed

definition owner_balance :: "string \<Rightarrow> db \<Rightarrow> int" where
  "owner_balance owner d = (case find_wallet_by_owner owner d of None \<Rightarrow> 0 | Some w \<Rightarrow> balance_cents w)"

lemma world_create:
  assumes w: "world e T K W d" and "k \<in> K"
    and Q: "\<And>wid d'. world e T (K - {k}) (insert wid W) d' \<Longrightarrow> transactions d' = transactions d \<Longrightarrow>
      balance_of wid d' = owner_balance owner d \<Longrightarrow> disputes d' = disputes d \<Longrightarrow> jobs d' = jobs d \<Longrightarrow>
      wallet_holds d' = wallet_holds d \<Longrightarrow> Q wid d'"
    and E: "\<And>ex d'. E ex d'"
  shows "wp (get_or_create_wallet_id_conn e k owner) Q E d"
proof (cases "find_wallet_by_owner owner d")
  case (Some v)
  then have v: "v \<in> set (wallets d)" by (auto simp: find_wallet_by_owner_def dest: find_SomeD)
  then have "has_wallet (wallet_id v) d" by (auto simp: has_wallet_def exists_row_iff)
  then have "world e T (K - {k}) (insert (wallet_id v) W) d" using w by (auto simp: world_def intro: inj_on_diff)
  moreover have "balance_of (wallet_id v) d = owner_balance owner d"
    using find_wallet_row [OF worldD(1) [OF w] v] Some by (simp add: balance_of_def owner_balance_def)
  ultimately show ?thesis using Some Q E by (simp add: get_or_create_wallet_id_conn_def wp_simps)
next
  case None
  let ?v = "new_wallet e k owner None None"
  let ?d = "d\<lparr>wallets := wallets d @ [?v]\<rparr>"
  have id: "\<not> has_wallet (uuid e k) d" using w assms(2) by (auto simp: world_def)
  have hw: "has_wallet x ?d \<longleftrightarrow> has_wallet x d \<or> x = uuid e k" for x
    by (auto simp: has_wallet_def new_wallet_def)
  have no: "\<forall>t\<in>set (transactions d). tx_wallet_id t \<noteq> uuid e k"
    using w id by (auto simp: world_def entries_owned_def)
  have "Q (uuid e k) ?d" if ins: "wallet_insertable ?v d"
  proof (rule Q)
    have "ledger_ok ?d"
      using ledger_ok_opening [OF worldD(1) [OF w] ins] no by (simp add: new_wallet_def)
    then show "world e T (K - {k}) (insert (uuid e k) W) ?d"
      using w assms(2) hw by (auto simp: world_def entries_owned_def total_balance_def new_wallet_def
          inj_on_def)
    have "find_wallet (uuid e k) d = None" using id by (simp add: has_wallet_find)
    then show "balance_of (uuid e k) ?d = owner_balance owner d"
      using None by (simp add: balance_of_def owner_balance_def find_wallet_def find_append new_wallet_def)
  qed simp_all
  then show ?thesis using None E
    by (auto simp: get_or_create_wallet_id_conn_def wp_simps)
qed

lemma world_balance:
  assumes "has_wallet wid d" and "Q (balance_of wid d) d" and "\<And>ex d'. E ex d'"
  shows "wp (wallet_balance_conn e wid) Q E d"
  using assms by (auto simp: wallet_balance_conn_def wp_simps has_wallet_find balance_of_def)

lemma world_record:
  assumes w: "world e T K W d" and "wid \<in> W" and Q: "\<And>d'. world e T K W d' \<Longrightarrow> Q (uuid e k) d'"
    and E: "\<And>ex d'. E ex d'"
  shows "wp (insert_tx_only e k wid kind 0 (Some agent) (Some rel) m None) Q E d"
proof -
  have p: "d\<lparr>transactions := transactions d @ [t]\<rparr> = post t d" if "amount_cents t = 0" for t
  proof -
    have "update_rows (\<lambda>w. wallet_id w = tx_wallet_id t) (add_balance 0) rows = rows" for rows
      by (induction rows) (simp_all add: add_balance_def)
    then show ?thesis using that by (simp add: post_def)
  qed
  let ?t = "tx_entry e k wid kind 0 (Some agent) (Some rel) m None d"
  have "world e T K W (post ?t d)" if "tx_insertable ?t d"
    using world_post [OF w that] worldD(1,4) [OF w] assms(2) by (simp add: funded_nonneg)
  then show ?thesis using Q E by (auto simp: wp_simps Let_def p)
qed

lemma world_context:
  assumes "\<And>x j. dispute_with_job dis d = Some (x, j) \<Longrightarrow> Q (x, j) d" and "\<And>ex d'. E ex d'"
  shows "wp (dispute_context_conn e dis) Q E d"
  using assms by (auto simp: dispute_context_conn_def wp_simps split: option.split)

lemma world_when:
  assumes "b \<Longrightarrow> wp m Q E d" and "\<not> b \<Longrightarrow> Q () d"
  shows "wp (whenE b m) Q E d"
  using assms by (auto simp: wp_simps)

lemma world_credit_when:
  assumes "world e T K W d" and "wid \<in> W" and Q: "\<And>d'. world e (T + max 0 a) K W d' \<Longrightarrow> Q () d'"
    and E: "\<And>ex d'. E ex d'"
  shows "wp (whenE (0 < a) (credit_wallet_conn e k wid kind a agent rel m)) Q E d"
  using assms by (auto intro!: world_when world_credit E simp: max_def split: if_splits)

lemmas world_rules = world_debit world_credit world_record world_when

section \<open>The total after a settlement\<close>

text \<open>
  What a settlement adds to the total of the balances, from the balance of the escrow wallet. A
  call that was never paid out has an empty escrow: its charge is still held, and the settlement
  pays it out.
\<close>

definition settlement_created :: "dispute_outcome \<Rightarrow> int \<Rightarrow> int \<Rightarrow> distribution \<Rightarrow> int" where
  "settlement_created outcome escrow charged shares =
     (case outcome of
        CallerWins \<Rightarrow> if 0 < escrow then 0 else charged
      | AgentWins \<Rightarrow> if 0 < escrow then 0 else dist_agent_payout_cents shares + dist_platform_fee_cents shares
      | Split \<Rightarrow> if charged \<le> escrow then 0 else charged
      | Void \<Rightarrow> 0)"

lemma world_settle_outcome:
  assumes w: "world e T K W d" and W: "ew \<in> W" "caller_wallet_id j \<in> W" "agent_wallet_id j \<in> W"
      "platform_wallet_id j \<in> W" and s: "0 \<le> dist_agent_payout_cents s" "0 \<le> dist_platform_fee_cents s"
    and Q: "\<And>r d' T'. world e T' K W d' \<Longrightarrow>
      T' = T + settlement_created outcome eb (caller_charge_cents j) s \<Longrightarrow> Q r d'"
    and E: "\<And>ex d'. E ex d'"
  shows "wp (settle_outcome e dis j s ew eb outcome sc sa) Q E d"
proof (cases outcome)
  case CallerWins
  show ?thesis unfolding settle_outcome_def CallerWins dispute_outcome.case settle_caller_wins_def Let_def wp_if wp_bindE wp_ret
    using w W CallerWins
    by (auto intro!: Q world_debit world_credit E simp: CallerWins settlement_created_def)
next
  case AgentWins
  show ?thesis unfolding settle_outcome_def AgentWins dispute_outcome.case settle_agent_wins_def Let_def wp_if wp_bindE wp_ret
    using w W AgentWins s
    by (auto intro!: Q world_debit world_credit world_when E simp: AgentWins settlement_created_def max_def min_def add.assoc)
next
  case Split
  let ?c = "caller_charge_cents j"
  have "wp (settle_split e dis j ew eb (Some x) (Some y)) Q E d" for x y
  proof (cases "x < 0 \<or> y < 0 \<or> ?c < x + y")
    case True
    then show ?thesis using E by (auto simp: settle_split_def wp_simps)
  next
    case False
    define z where "z = ?c - x - y"
    define rest where "rest = bindE (whenE (0 < x) (credit_wallet_conn e 2 (caller_wallet_id j) Refund x (agent_id j) dis
          (dispute_memo ''split caller portion'' dis))) (\<lambda>_.
        bindE (whenE (0 < y) (credit_wallet_conn e 3 (agent_wallet_id j) Payout y (agent_id j) dis
          (dispute_memo ''split agent portion'' dis))) (\<lambda>_.
        bindE (whenE (0 < z) (credit_wallet_conn e 4 (platform_wallet_id j) Fee z (agent_id j) dis
          (dispute_memo ''split platform portion'' dis))) (\<lambda>_.
        ret (deltas x y z))))"
    have legs: "wp rest Q E d0" if "world e T0 K W d0" "T0 + ?c = T + settlement_created outcome eb ?c s" for d0 T0
      unfolding rest_def wp_bindE wp_ret
    proof (rule world_credit_when [OF that(1) W(2) _ E], rule world_credit_when [OF _ W(3) _ E], assumption,
        rule world_credit_when [OF _ W(4) _ E], assumption, erule Q)
      show "T0 + max 0 x + max 0 y + max 0 z = T + settlement_created outcome eb ?c s"
        using False that(2) by (simp add: z_def)
    qed
    have body: "settle_split e dis j ew eb (Some x) (Some y) =
        bindE (whenE (?c \<le> eb \<and> 0 < ?c) (debit_wallet_conn e 1 ew ?c (agent_id j) dis (dispute_memo ''split release'' dis)))
          (\<lambda>_. rest)"
      using False by (simp add: settle_split_def rest_def z_def Let_def)
    show ?thesis unfolding body wp_bindE
      by (rule world_when; (rule world_debit [OF w _ E] legs)?) 
        (use w False in \<open>auto intro!: legs simp: Split settlement_created_def\<close>)
  qed
  then show ?thesis using E
    by (auto simp: settle_outcome_def Split settle_split_def wp_throw split: option.split)
next
  case Void
  show ?thesis unfolding settle_outcome_def Void dispute_outcome.case settle_void_def Let_def wp_if wp_bindE wp_ret
    using w W Void
    by (auto intro!: Q world_debit world_credit E simp: Void settlement_created_def)
qed

lemma world_release_deposit:
  assumes w: "world e T K W d" and K: "{6, 7, 10} \<subseteq> K" and W: "pw \<in> W" and h: "\<not> DISPUTE_HOLD_ENABLED e"
    and Q: "\<And>r d'. world e T {} W d' \<Longrightarrow> Q r d'" and E: "\<And>ex d'. E ex d'"
  shows "wp (release_dispute_filing_deposit_conn e dis outcome agent pw) Q E d"
proof -
  have fin: "Q r d2" if "world e T K1 W1 d2" "W \<subseteq> W1" for r d2 K1 W1
    using world_mono [OF that(1) empty_subsetI that(2)] Q by simp
  have leg: "wp (bindE (debit_wallet_conn e 8 dep a agent dis' m1) (\<lambda>_.
        bindE (credit_wallet_conn e 9 target Deposit a agent dis' m2) (\<lambda>_.
        bindE (whenE (DISPUTE_HOLD_ENABLED e \<and> b) n) (\<lambda>_. ret r)))) Q E d1"
    if d1: "world e T K1 W1 d1" and W1: "target \<in> W1" "W \<subseteq> W1" for dep a dis' m1 m2 target b n r K1 W1 d1
    by (subst wp_bindE, rule world_debit [OF d1 _ E], subst wp_bindE, rule world_credit [OF _ W1(1) _ E],
        assumption) (use fin [OF _ W1(2)] in \<open>simp add: h wp_simps\<close>)
  have move: "wp (move_filing_deposit e x outcome agent pw dep a) Q E d1"
    if d1: "world e T (K - {6}) (insert dep W) d1" for x dep a d1
  proof (cases "refund_to_filer (side x) outcome \<and> py_strip (filed_by_owner_id x) \<noteq> []")
    case True
    show ?thesis unfolding move_filing_deposit_def Let_def if_P [OF True]
      by (subst wp_bindE) (rule world_create [OF d1 _ _ E], use K in simp, erule leg; auto)
  next
    case False
    show ?thesis unfolding move_filing_deposit_def Let_def if_not_P [OF False]
      by (subst wp_bindE, subst wp_ret, rule leg [OF d1]) (use W in auto)
  qed
  have rest: "wp (if filing_deposit_cents x \<le> 0 then ret (unmoved_deposit 0)
     else bindE (wallet_balance_conn e dep) (\<lambda>deposit_balance.
       if deposit_balance \<le> 0 then ret (unmoved_deposit (filing_deposit_cents x))
       else move_filing_deposit e x outcome agent pw dep deposit_balance)) Q E d1"
    if "world e T (K - {6}) (insert dep W) d1" for x dep d1
    using that worldD(4) [OF that, of dep] move [OF that] fin [OF that subset_insertI]
    by (auto simp: wp_simps intro!: world_balance E)
  show ?thesis
    unfolding release_dispute_filing_deposit_conn_def
    by (subst wp_bindE, rule world_context [OF _ E], unfold prod.case, subst wp_bindE,
      rule world_create [OF w _ _ E], use K in simp, erule rest)
qed

definition opened_ids :: "nat set" where "opened_ids = {0, 6, 7, 10}"

text \<open>
  C1. What a settlement does to the total of all balances, exactly and outcome by outcome, while the hold on
  filing deposits is switched off. A settlement either raises and changes no wallet and no entry, or returns with
  the ledger balanced; one that was already final moves nothing. When the caller or the agent wins, money that the
  escrow wallet holds is moved and none is created; when that wallet is empty, the caller is credited the whole charge,
  or the agent and the platform their shares, without any wallet being debited: the code takes the charge to be held
  still and does not look. A split credits its shares in full, and takes the charge out of the escrow wallet only
  when that holds all of it; a void moves what the escrow wallet holds.
\<close>

theorem dispute_settlement_total:
  assumes ok: "ledger_ok d" "entries_owned d" and x: "dispute_with_job dis d = Some (x, j)"
    and k: "inj_on (uuid e) opened_ids" "\<forall>i\<in>opened_ids. \<not> has_wallet (uuid e i) d"
    and w: "has_wallet (caller_wallet_id j) d" "has_wallet (agent_wallet_id j) d" "has_wallet (platform_wallet_id j) d"
    and s: "compute_success_distribution (PLATFORM_FEE_PCT e) (price_cents j) (Some (platform_fee_pct_at_create j))
              (Some (normalize_fee_bearer_policy (Some (fee_bearer_policy j)))) = Inr s"
    and o: "parse_outcome text = Some outcome" and h: "\<not> DISPUTE_HOLD_ENABLED e"
  shows "wp (post_dispute_settlement e dis text sc sa)
     (\<lambda>r d'. ledger_ok d' \<and> total_balance d' = total_balance d +
        (if already_finalized r then 0
         else settlement_created outcome (owner_balance (dispute_escrow_owner dis) d) (caller_charge_cents j) s))
     (\<lambda>_ d'. wallets d' = wallets d \<and> transactions d' = transactions d) d"
proof -
  let ?d = "d\<lparr>tx_failed := False\<rparr>" and ?T = "total_balance d"
  let ?W = "{caller_wallet_id j, agent_wallet_id j, platform_wallet_id j}"
  let ?new = "settlement_created outcome (owner_balance (dispute_escrow_owner dis) d) (caller_charge_cents j) s"
  have w0: "world e ?T opened_ids ?W ?d" using ok k w by (auto simp: world_def)
  define Q where "Q r d' \<longleftrightarrow> world e (?T + (if already_finalized r then 0 else ?new)) {} {} d'"
    for r :: dispute_settlement and d'
  have fin: "Q r d'" if "world e T' K W d'" "T' = ?T + (if already_finalized r then 0 else ?new)" for r T' K W d'
    using world_mono [OF that(1) empty_subsetI empty_subsetI] that(2) by (simp add: Q_def)
  have body: "wp (dispute_settlement_body e dis outcome sc sa) Q (\<lambda>_ _. True) ?d"
    unfolding dispute_settlement_body_def
  proof (subst wp_bindE, rule world_context)
    fix x' j' assume "dispute_with_job dis ?d = Some (x', j')"
    then have [simp]: "x' = x" "j' = j" using x by simp_all
    have settle: "wp (settle_once e dis j s ew outcome sc sa) Q (\<lambda>_ _. True) d1"
      if d1: "world e ?T (opened_ids - {0}) (insert ew ?W) d1"
        and b: "balance_of ew d1 = owner_balance (dispute_escrow_owner dis) d" for ew d1
      unfolding settle_once_def
    proof (subst wp_bindE, rule world_balance)
      show "has_wallet ew d1" using worldD(4) [OF d1, of ew] by simp
      show "wp (bindE (settle_outcome e dis j s ew (balance_of ew d1) outcome sc sa) (\<lambda>moved.
         bindE (insert_tx_only e 5 ew Fee 0 (Some (agent_id j)) (Some dis) (final_memo outcome) None) (\<lambda>_.
         bindE (release_dispute_filing_deposit_conn e dis outcome (agent_id j) (platform_wallet_id j)) (\<lambda>dep.
         ret \<lparr>settled_outcome = outcome_text outcome, settled_deltas = moved, already_finalized = False,
              released = dep\<rparr>)))) Q (\<lambda>_ _. True) d1"
        by (subst wp_bindE, rule world_settle_outcome [OF d1], simp_all add: shares_nonneg [OF s] b,
            subst wp_bindE, rule world_record, assumption, simp,
            subst wp_bindE, rule world_release_deposit, assumption)
          (auto simp: h wp_ret opened_ids_def intro!: fin)
    qed simp
    have "wp (bindE (get_or_create_wallet_id_conn e 0 (dispute_escrow_owner dis)) (\<lambda>escrow_wallet.
         bindE (select e (finalized_row e dis escrow_wallet)) (\<lambda>finalized.
         case finalized of
           Some t \<Rightarrow> ret (final_already t outcome)
         | None \<Rightarrow> settle_once e dis j s escrow_wallet outcome sc sa))) Q (\<lambda>_ _. True) ?d"
      by (subst wp_bindE, rule world_create [OF w0])
        (auto simp: opened_ids_def owner_balance_def wp_simps final_already_def
          intro!: settle [unfolded opened_ids_def owner_balance_def] fin split: option.split)
    then show "wp (case (x', j') of (x, j) \<Rightarrow>
       case compute_success_distribution (PLATFORM_FEE_PCT e) (price_cents j) (Some (platform_fee_pct_at_create j))
            (Some (normalize_fee_bearer_policy (Some (fee_bearer_policy j)))) of
         Inl ex \<Rightarrow> throw ex
       | Inr shares \<Rightarrow>
         bindE (get_or_create_wallet_id_conn e 0 (dispute_escrow_owner dis)) (\<lambda>escrow_wallet.
         bindE (select e (finalized_row e dis escrow_wallet)) (\<lambda>finalized.
         case finalized of
           Some t \<Rightarrow> ret (final_already t outcome)
         | None \<Rightarrow> settle_once e dis j shares escrow_wallet outcome sc sa))) Q (\<lambda>_ _. True) ?d"
      by (simp add: s)
  qed simp
  show ?thesis
    unfolding post_dispute_settlement_def o option.case wp_transact
    by (rule wp_post_mono [OF body]) (auto simp: Q_def world_def)
qed

text \<open>The disputed job, with an escrow wallet that holds less than the charge.\<close>

definition sample_escrow_wallet :: "int \<Rightarrow> wallet" where
  "sample_escrow_wallet b = sample_wallet ''w5'' ''dispute_escrow:d1'' b"

definition sample_dispute_db :: "int \<Rightarrow> db" where
  "sample_dispute_db b = sample_db\<lparr>
     wallets := wallets sample_db @ [sample_escrow_wallet b],
     transactions := transactions sample_db @ [sample_tx ''t9'' ''w5'' b],
     jobs := [sample_job], disputes := [sample_dispute]\<rparr>"

lemma sample_dispute_facts:
  assumes "0 \<le> b"
  shows "ledger_ok (sample_dispute_db b)" "entries_owned (sample_dispute_db b)"
    "dispute_with_job ''d1'' (sample_dispute_db b) = Some (sample_dispute, sample_job)"
    "has_wallet w (sample_dispute_db b) \<longleftrightarrow> w \<in> {''w1'', ''w2'', ''w3'', ''w4'', ''w5''}"
    "owner_balance (dispute_escrow_owner ''d1'') (sample_dispute_db b) = b"
  using assms
  by (auto simp: sample_dispute_db_def sample_escrow_wallet_def sample_defs ledger_ok_def ledger_sum_def
      wallet_check_def entries_owned_def has_wallet_def dispute_with_job_def sample_job_def
      sample_dispute_def owner_balance_def dispute_escrow_owner_def find_wallet_by_owner_def)

lemma sample_job_shares:
  "compute_success_distribution (PLATFORM_FEE_PCT (sample_env b)) (price_cents sample_job)
     (Some (platform_fee_pct_at_create sample_job))
     (Some (normalize_fee_bearer_policy (Some (fee_bearer_policy sample_job)))) =
   Inr \<lparr>dist_caller_charge_cents = 110, dist_agent_payout_cents = 100, dist_platform_fee_cents = 10\<rparr>"
  by (simp add: sample_job_def compute_success_distribution_def compute_platform_fee_cents_value effective_pct_def
      policy_defs Let_def) (simp add: round_half_up_def floor_eq_iff)

lemma sample_uuids [simp]: "inj_on (uuid (sample_env b)) K" "uuid (sample_env b) k \<noteq> CHR ''w'' # s"
    "CHR ''w'' # s \<noteq> uuid (sample_env b) k"
  by (auto simp: inj_on_def sample_env_def)

theorem dispute_settlement_total_witness:
  "wp (post_dispute_settlement (sample_env SQLite) ''d1'' '' split '' (Some 60) (Some 50))
     (\<lambda>r d'. already_finalized r \<or> total_balance d' = total_balance (sample_dispute_db 40) + 110)
     (\<lambda>_ d'. wallets d' = wallets (sample_dispute_db 40)) (sample_dispute_db 40)"
proof -
  have o: "parse_outcome '' split '' = Some Split"
    by (simp add: parse_outcome_def py_strip_def py_space_def py_lower_def lower_char_def)
  have f: "ledger_ok (sample_dispute_db 40)" "entries_owned (sample_dispute_db 40)"
    "dispute_with_job ''d1'' (sample_dispute_db 40) = Some (sample_dispute, sample_job)"
    by (simp_all add: sample_dispute_facts)
  have c: "settlement_created Split 40 (caller_charge_cents sample_job) s = 110" for s
    by (simp add: settlement_created_def sample_job_def)
  show ?thesis
    by (rule wp_post_mono [OF dispute_settlement_total [OF f _ _ _ _ _ sample_job_shares o]])
      (auto simp: sample_dispute_facts c, auto simp: sample_job_def sample_env_def)
qed

end
