(* ===== verification/Dispute_Settlement.thy ===== *)
theory Dispute_Settlement
  imports Trust_Disputes
begin

text \<open>
  What the dispute operations of \<open>Trust_Disputes\<close> guarantee: locking claws a settled call back,
  a settlement is final, what the held-funds flag does on PostgreSQL, and caller trust.
\<close>

section \<open>Locking\<close>

lemma wp_create_wallet_id_new:
  assumes "find_wallet_by_owner owner d = None" and "\<not> has_wallet (uuid e k) d" and "\<not> pg_failed e d"
    and "Q (uuid e k) (d\<lparr>wallets := wallets d @ [new_wallet e k owner None None]\<rparr>)"
  shows "wp (get_or_create_wallet_id_conn e k owner) Q E d"
proof -
  have "wallet_insertable (new_wallet e k owner None None) d"
    using assms(1,2) by (auto simp: wallet_insertable_def new_wallet_def wallet_check_def exists_row_iff
        has_wallet_def find_wallet_by_owner_def find_None_iff)
  then show ?thesis using assms by (simp add: get_or_create_wallet_id_conn_def wp_simps)
qed

definition with_wallet :: "wallet \<Rightarrow> db \<Rightarrow> db" where
  "with_wallet w d = d\<lparr>wallets := wallets d @ [w]\<rparr>"

lemma with_wallet_simps [simp]:
  "transactions (with_wallet w d) = transactions d" "disputes (with_wallet w d) = disputes d"
  "jobs (with_wallet w d) = jobs d" "tx_failed (with_wallet w d) = tx_failed d"
  "wallet_holds (with_wallet w d) = wallet_holds d"
  "total_balance (with_wallet w d) = total_balance d + balance_cents w"
  "has_wallet v (with_wallet w d) \<longleftrightarrow> has_wallet v d \<or> wallet_id w = v"
  "related_sum rel v kind (with_wallet w d) = related_sum rel v kind d"
  by (simp_all add: with_wallet_def total_balance_def has_wallet_def related_sum_def)

lemma with_wallet_balance:
  "\<not> has_wallet (wallet_id w) d \<Longrightarrow>
     balance_of v (with_wallet w d) = (if v = wallet_id w then balance_cents w else balance_of v d)"
  by (auto simp: with_wallet_def balance_of_def find_wallet_def find_append has_wallet_find split: option.split)

lemma with_wallet_ledger:
  assumes "world e T K W d" and "k \<in> K" and "find_wallet_by_owner owner d = None"
  shows "ledger_ok (with_wallet (new_wallet e k owner None None) d)"
proof -
  have id: "\<not> has_wallet (uuid e k) d" using assms(1,2) by (auto simp: world_def)
  have "wallet_insertable (new_wallet e k owner None None) d"
    using id assms(3) by (auto simp: wallet_insertable_def new_wallet_def wallet_check_def exists_row_iff
        has_wallet_def find_wallet_by_owner_def find_None_iff)
  moreover have "\<forall>t\<in>set (transactions d). tx_wallet_id t \<noteq> uuid e k"
    using assms(1) id by (auto simp: world_def entries_owned_def)
  ultimately show ?thesis unfolding with_wallet_def
    using worldD(1) [OF assms(1)] by (intro ledger_ok_opening) (simp_all add: new_wallet_def)
qed

lemma with_wallet_holds:
  assumes "holds_ok x d" and "held_cents w = x (wallet_id w)" and "\<not> has_wallet (wallet_id w) d"
    and "wallet_check w"
  shows "holds_ok x (with_wallet w d)"
proof -
  have none: "\<forall>h\<in>set (wallet_holds d). hold_wallet_id h \<noteq> wallet_id w"
    using assms(1,3) by (auto simp: holds_ok_def)
  then have "active_held (wallet_id w) d = 0"
    by (auto simp: active_held_def sum_where_def filter_empty_conv)
  then show ?thesis using assms
    by (auto simp: holds_ok_def holds_cached_def held_cache_def with_wallet_def has_wallet_def active_held_def
        hold_active_def exists_row_iff)
qed

text \<open>
  C17. Locking a dispute takes the money of a settled call back: the agent's payout and the
  platform's fee move into the dispute's new escrow wallet, which then holds exactly their sum,
  the job's reserve is closed, no other balance moves, the total is unchanged and the ledger
  balances. Entries that the dispute already has, as those of the filing deposit which is collected first,
  do not matter, as long as they did not charge the agent's or the platform's wallet.
\<close>

theorem lock_claws_settlement_back:
  assumes ok: "ledger_ok d" "entries_owned d" "holds_ok x d" and x0: "x (uuid e 0) = 0"
    and c: "dispute_with_job dis d = Some (y, j)" and ne: "agent_wallet_id j \<noteq> []" "platform_wallet_id j \<noteq> []"
      "caller_wallet_id j \<noteq> []" "agent_wallet_id j \<noteq> platform_wallet_id j"
    and id: "\<not> has_wallet (uuid e 0) d" "find_wallet_by_owner (dispute_escrow_owner dis) d = None"
    and a: "a = related_sum (charge_tx_id j) (agent_wallet_id j) Payout d" "0 < a" "a \<le> balance_of (agent_wallet_id j) d"
    and p: "p = related_sum (charge_tx_id j) (platform_wallet_id j) Fee d" "0 \<le> p" "p \<le> balance_of (platform_wallet_id j) d"
    and w: "has_wallet (agent_wallet_id j) d" "has_wallet (platform_wallet_id j) d"
    and new: "\<forall>k\<in>{1, 2, 3}. new_id (uuid e k) d" "inj_on (uuid e) {0, 1, 2, 3}"
    and dis: "unsettled dis Charge (agent_wallet_id j) d" "unsettled dis Charge (platform_wallet_id j) d"
  shows "wp (lock_dispute_funds e dis)
     (\<lambda>r d'. locked_escrow_wallet r = uuid e 0 \<and> locked_cents r = a + p \<and> ledger_ok d' \<and>
        total_balance d' = total_balance d \<and> active_hold_of (job_id j) d' = None \<and>
        (\<forall>w. balance_of w d' = (if w = uuid e 0 then a + p else balance_of w d
            - (if w = agent_wallet_id j then a else 0) - (if w = platform_wallet_id j then p else 0))))
     (\<lambda>_ _. False) d"
proof -
  let ?aw = "agent_wallet_id j" and ?pw = "platform_wallet_id j" and ?ew = "uuid e 0"
  define d1 where "d1 = with_wallet (new_wallet e 0 (dispute_escrow_owner dis) None None) (d\<lparr>tx_failed := False\<rparr>)"
  have wld: "world e (total_balance d) {0} {} (d\<lparr>tx_failed := False\<rparr>)"
    using ok(1,2) id(1) by (auto simp: world_def)
  have f: "find_wallet_by_owner (dispute_escrow_owner dis) (d\<lparr>tx_failed := False\<rparr>) = None" using id(2) by simp
  have l1: "ledger_ok d1" unfolding d1_def by (rule with_wallet_ledger [OF wld _ f]) simp
  have h1: "holds_ok x d1" unfolding d1_def
    using ok(3) x0 id(1) by (intro with_wallet_holds) (simp_all add: new_wallet_def wallet_check_def)
  have b1: "balance_of v d1 = (if v = ?ew then 0 else balance_of v d)" "has_wallet v d1 \<longleftrightarrow> has_wallet v d \<or> v = ?ew" for v
    using id(1) by (auto simp: d1_def with_wallet_balance new_wallet_def)
  have t1: "transactions d1 = transactions d" "\<not> tx_failed d1" "total_balance d1 = total_balance d"
    "related_sum rel v kind d1 = related_sum rel v kind d" for rel v kind
    by (simp_all add: d1_def new_wallet_def related_sum_def)
  have none: "\<forall>t\<in>set (transactions d). tx_wallet_id t \<noteq> ?ew" using ok(2) id(1) by (auto simp: entries_owned_def)
  then have z: "related_sum dis ?ew Deposit d = 0"
    by (auto simp: related_sum_def sum_where_def filter_empty_conv)
  have r: "RELEASE_REASON_DISPUTE_CLAWBACK \<in> set VALID_CONSUME_REASONS" by (simp add: VALID_CONSUME_REASONS_def)
  define Q where "Q d' \<longleftrightarrow> ledger_ok d' \<and> total_balance d' = total_balance d \<and> active_hold_of (job_id j) d' = None \<and>
        (\<forall>w. balance_of w d' = (if w = ?ew then a + p else balance_of w d
            - (if w = ?aw then a else 0) - (if w = ?pw then p else 0)))" for d'
  have legs: "wp (bindE (debit_wallet_conn e 1 ?aw a (agent_id j) dis m1) (\<lambda>_.
      bindE (debit_wallet_conn e 2 ?pw p (agent_id j) dis m2) (\<lambda>_.
      credit_wallet_conn e 3 ?ew Deposit (a + p) (agent_id j) dis m3)))
        (\<lambda>_ d'. Q d' \<and> \<not> tx_failed d') (\<lambda>_ _. False) d2"
    if d2: "ledger_ok d2" "\<not> tx_failed d2" "same_money d1 d2" "active_hold_of (job_id j) d2 = None" for d2 m1 m2 m3
  proof -
    have t: "transactions d2 = transactions d" and b: "total_balance d2 = total_balance d"
      "balance_of v d2 = (if v = ?ew then 0 else balance_of v d)" "has_wallet v d2 \<longleftrightarrow> has_wallet v d \<or> v = ?ew" for v
      using d2(3) by (auto simp: same_money_def b1 t1)
    have n: "new_id (uuid e k) d2" if "k \<in> {1, 2, 3}" for k using new(1) that t by (auto simp: new_id_def)
    have u: "unsettled dis Charge ?aw d2" "unsettled dis Charge ?pw d2" "unsettled dis kind ?ew d2" for kind
      using dis none t by (auto simp: unsettled_def)
    have o: "active_hold_of i (post t d') = active_hold_of i d'" for i t d' by (simp add: active_hold_of_def)
    have ne': "?aw \<noteq> ?ew" "?pw \<noteq> ?ew" using w id(1) by auto
    show ?thesis
      using d2(1,2,4) a(2,3) p(2,3) w ne ne' new(2) n u
      by (auto simp: debit_wallet_conn_def credit_wallet_conn_def wp_simps Let_def posting_simps b o pg_failed_def Q_def)
  qed
  have claw: "wp (claw_back e dis j ?ew a p) (\<lambda>_ d'. Q d' \<and> \<not> tx_failed d') (\<lambda>_ _. False) d1"
    unfolding claw_back_def
    by (subst wp_bindE, rule wp_post_mono [OF consume_hold_money [OF l1 h1 a(2) r t1(2)]])
      (auto intro!: legs simp del: One_nat_def)
  have core: "wp (lock_into e dis j ?ew)
      (\<lambda>r d'. locked_escrow_wallet r = ?ew \<and> locked_cents r = a + p \<and> Q d' \<and> \<not> tx_failed d') (\<lambda>_ _. False) d1"
    unfolding lock_into_def
    using a(2) p(2) z t1 claw
    by (auto simp: wp_simps pg_failed_def a(1) [symmetric] p(1) [symmetric] elim!: wp_post_mono)
  have "wp (lock_dispute_funds_conn e dis)
      (\<lambda>r d'. locked_escrow_wallet r = ?ew \<and> locked_cents r = a + p \<and> Q d' \<and> \<not> tx_failed d') (\<lambda>_ _. False)
      (d\<lparr>tx_failed := False\<rparr>)"
    unfolding lock_dispute_funds_conn_def dispute_context_conn_def
    by (simp add: c ne wp_simps, rule wp_create_wallet_id_new [OF f])
      (use id core in \<open>simp_all add: d1_def with_wallet_def\<close>)
  then show ?thesis
    unfolding lock_dispute_funds_def wp_transact by (rule wp_post_mono) (auto simp: Q_def)
qed

definition sample_locked_db :: db where
  "sample_locked_db = sample_paid_db\<lparr>jobs := [sample_job], disputes := [sample_dispute]\<rparr>"

text \<open>The same world after the caller's deposit of five cents was collected.\<close>

definition deposit_entry :: "string \<Rightarrow> string \<Rightarrow> tx_type \<Rightarrow> int \<Rightarrow> txn" where
  "deposit_entry t wid kind a = (sample_tx t wid a)\<lparr>tx_kind := kind, related_tx_id := Some ''d1''\<rparr>"

definition sample_filed_db :: db where
  "sample_filed_db = post (deposit_entry ''t6'' ''w6'' Deposit 5) (post (deposit_entry ''t5'' ''w1'' Charge (- 5))
     (with_wallet (sample_wallet ''w6'' (dispute_deposit_owner ''d1'') 0) sample_locked_db))"

lemmas sample_filed_defs = sample_filed_db_def deposit_entry_def with_wallet_def sample_locked_db_def sample_paid_db_def settled_tx_def
  sample_defs with_hold_def add_held_def sample_hold_def dispute_deposit_owner_def

lemma sample_filed_money:
  "ledger_ok sample_filed_db" "entries_owned sample_filed_db" "holds_ok (\<lambda>_. 0) sample_filed_db"
  by (simp_all add: sample_filed_defs ledger_ok_def ledger_sum_def wallet_check_def settlement_key_def entries_owned_def has_wallet_def
      holds_ok_def holds_cached_def held_cache_def hold_active_def)

lemma sample_filed_facts:
  "dispute_with_job ''d1'' sample_filed_db = Some (sample_dispute, sample_job)"
  "has_wallet w sample_filed_db \<longleftrightarrow> w \<in> {''w1'', ''w2'', ''w3'', ''w4'', ''w6''}"
  "find_wallet_by_owner (dispute_escrow_owner ''d1'') sample_filed_db = None"
  "related_sum ''c1'' ''w2'' Payout sample_filed_db = 100" "related_sum ''c1'' ''w3'' Fee sample_filed_db = 10"
  "balance_of ''w2'' sample_filed_db = 100" "balance_of ''w3'' sample_filed_db = 10"
  "new_id (uuid (sample_env b) k) sample_filed_db"
  "unsettled ''d1'' Charge ''w2'' sample_filed_db" "unsettled ''d1'' Charge ''w3'' sample_filed_db"
  by (auto simp: sample_filed_defs has_wallet_def dispute_with_job_def sample_job_def sample_dispute_def dispute_escrow_owner_def
      related_sum_def find_wallet_by_owner_def balance_of_def find_wallet_def add_balance_def new_id_def unsettled_def sample_env_def)

theorem lock_claws_settlement_back_witness:
  "wp (lock_dispute_funds (sample_env SQLite) ''d1'')
     (\<lambda>r d'. locked_cents r = 110 \<and> balance_of ''w2'' d' = 0 \<and> balance_of ''w3'' d' = 0 \<and>
             total_balance d' = total_balance sample_filed_db) (\<lambda>_ _. False) sample_filed_db"
proof -
  have j: "agent_wallet_id sample_job = ''w2''" "platform_wallet_id sample_job = ''w3''"
    "caller_wallet_id sample_job = ''w1''" "charge_tx_id sample_job = ''c1''"
    by (simp_all add: sample_job_def)
  show ?thesis
    by (rule wp_post_mono [OF lock_claws_settlement_back [OF sample_filed_money(1-3) _ sample_filed_facts(1)
            _ _ _ _ _ sample_filed_facts(3), where a = 100 and p = 10]])
      (simp_all add: sample_filed_facts j)
qed

section \<open>A settlement is final\<close>

text \<open>
  The escrow wallet of the dispute, and the finalisation row found on it. The row stays found
  whatever is appended; as long as there is none, entries whose memo is not a finalisation memo
  do not make one.
\<close>

definition escrow_state :: "env \<Rightarrow> string \<Rightarrow> string \<Rightarrow> txn option \<Rightarrow> db \<Rightarrow> bool" where
  "escrow_state e dis w row d \<longleftrightarrow>
     map_option wallet_id (find_wallet_by_owner (dispute_escrow_owner dis) d) = Some w \<and>
     finalized_row e dis w d = row"

definition quiet :: "env \<Rightarrow> txn option \<Rightarrow> string \<Rightarrow> bool" where
  "quiet e row memo_text \<longleftrightarrow> row \<noteq> None \<or> \<not> sql_like_prefix e FINAL_MEMO_PREFIX memo_text"

lemma flag_free_escrow_state: "flag_free (escrow_state e dis w row)"
  by (simp add: flag_free_def escrow_state_def finalized_row_def)

lemma keeps_es_update:
  assumes "\<And>v. wallet_id (f v) = wallet_id v \<and> owner_id (f v) = owner_id v"
  shows "keeps (escrow_state e dis w row) (update_wallets e' p f)"
proof -
  have "map_option wallet_id (find_wallet_by_owner o' (d\<lparr>wallets := update_rows p f (wallets d)\<rparr>)) =
      map_option wallet_id (find_wallet_by_owner o' d)" for o' d
    using assms by (simp add: find_wallet_by_owner_def find_update_same option.map_comp comp_def if_distrib cong: if_cong)
  then show ?thesis
    by (intro keeps_update_stmt flag_free_escrow_state) (simp add: escrow_state_def finalized_row_def)
qed

lemma keeps_es_insert_wallet: "keeps (escrow_state e dis w row) (insert_wallet e' v)"
  by (intro keeps_insert_stmt flag_free_escrow_state)
    (auto simp: escrow_state_def finalized_row_def find_wallet_by_owner_def find_append)

lemma keeps_es_insert_txn:
  "quiet e row (memo t) \<Longrightarrow> keeps (escrow_state e dis w row) (insert_txn e' t)"
  by (intro keeps_insert_stmt flag_free_escrow_state)
    (auto simp: escrow_state_def finalized_row_def find_wallet_by_owner_def find_append quiet_def
      split: option.split)

lemma keeps_es_other:
  "(\<And>rs d. wallets (put rs d) = wallets d \<and> transactions (put rs d) = transactions d) \<Longrightarrow>
   keeps (escrow_state e dis w row) (update_stmt e' get put ck p f)"
  by (intro keeps_update_stmt flag_free_escrow_state)
    (auto simp: escrow_state_def finalized_row_def find_wallet_by_owner_def)

lemma keeps_es_insert_tx_only:
  "quiet e row m \<Longrightarrow> keeps (escrow_state e dis w row) (insert_tx_only e' k wid kind a agent rel m key)"
  unfolding insert_tx_only_def resolve_charged_by_key_id_def Let_def
  by (intro keeps_bindE keeps_if keeps_ret keeps_select keeps_case_option keeps_es_insert_txn) simp

lemma keeps_es_debit:
  "quiet e row m \<Longrightarrow> keeps (escrow_state e dis w row) (debit_wallet_conn e' k wid a agent rel m)"
  unfolding debit_wallet_conn_def guarded_debit_def wallet_balance_conn_def
  by (intro keeps_bindE keeps_if keeps_ret keeps_throw keeps_select keeps_case_option keeps_es_update
      keeps_es_insert_tx_only) simp_all

lemma keeps_es_credit:
  "quiet e row m \<Longrightarrow> keeps (escrow_state e dis w row) (credit_wallet_conn e' k wid kind a agent rel m)"
  unfolding credit_wallet_conn_def insert_tx_def resolve_charged_by_key_id_def Let_def
  by (intro keeps_bindE keeps_if keeps_ret keeps_throw keeps_select keeps_case_option keeps_es_update
      keeps_es_insert_txn) simp_all

lemma keeps_es_create: "keeps (escrow_state e dis w row) (get_or_create_wallet_id_conn e' k owner)"
  unfolding get_or_create_wallet_id_conn_def
  by (intro keeps_bindE keeps_ret keeps_select keeps_case_option keeps_es_insert_wallet)

lemmas keeps_es = keeps_bindE keeps_if keeps_ret keeps_throw keeps_select keeps_case_option keeps_whenE
  keeps_catchE keeps_es_debit keeps_es_credit keeps_es_create

lemma quiet_dispute_memo:
  assumes "lower_char c \<noteq> CHR ''f''"
  shows "quiet e row (dispute_memo (c # what) dis)"
proof -
  have low: "lower_char (CHR ''f'') = CHR ''f''" by (simp add: lower_char_def)
  have c: "c \<noteq> CHR ''f''" using assms low by auto
  have at: "prefix p s \<Longrightarrow> n < length p \<Longrightarrow> s ! n = p ! n" for p s :: string and n
    by (auto simp: prefix_def nth_append)
  have m: "dispute_memo (c # what) dis ! 8 = c" "8 < length (dispute_memo (c # what) dis)"
    by (simp_all add: dispute_memo_def)
  have "\<not> prefix FINAL_MEMO_PREFIX (dispute_memo (c # what) dis)"
    using at [of FINAL_MEMO_PREFIX "dispute_memo (c # what) dis" 8] m c by (auto simp: FINAL_MEMO_PREFIX_def)
  moreover have "\<not> prefix (py_lower FINAL_MEMO_PREFIX) (py_lower (dispute_memo (c # what) dis))"
    using at [of "py_lower FINAL_MEMO_PREFIX" "py_lower (dispute_memo (c # what) dis)" 8] m assms low
    by (auto simp: py_lower_def) (simp add: FINAL_MEMO_PREFIX_def)
  ultimately show ?thesis by (simp add: quiet_def sql_like_prefix_def split: backend_kind.split)
qed

lemma keeps_es_settle_outcome:
  "keeps (escrow_state e dis w None) (settle_outcome e' dis' j s ew eb outcome sc sa)"
proof (cases outcome)
  case CallerWins
  then show ?thesis by (simp add: settle_outcome_def settle_caller_wins_def Let_def)
      (intro conjI impI keeps_es quiet_dispute_memo; simp add: lower_char_def)
next
  case AgentWins
  then show ?thesis by (simp add: settle_outcome_def settle_agent_wins_def Let_def)
      (intro conjI impI keeps_es quiet_dispute_memo; simp add: lower_char_def)
next
  case Split
  then show ?thesis by (simp add: settle_outcome_def settle_split_def Let_def split: option.split)
      (intro conjI allI impI keeps_es quiet_dispute_memo; simp add: lower_char_def)
next
  case Void
  then show ?thesis by (simp add: settle_outcome_def settle_void_def Let_def)
      (intro conjI impI keeps_es quiet_dispute_memo; simp add: lower_char_def)
qed

lemma quiet_Some [simp]: "quiet e (Some t) m"
  by (simp add: quiet_def)

lemma keeps_es_release:
  "keeps (escrow_state e dis w (Some t)) (release_dispute_filing_deposit_conn e' dis' outcome agent pw)"
proof -
  have drop: "keeps (escrow_state e dis w (Some t)) (drop_filer_held e' wid a)" for wid a
    unfolding drop_filer_held_def
    by (cases "backend e'") (auto intro!: keeps_bindE keeps_es_update keeps_ret keeps_stmt flag_free_escrow_state
        simp: throw_def)
  have "keeps (escrow_state e dis w (Some t)) (move_filing_deposit e' x outcome agent pw dep b)" for x dep b
    unfolding move_filing_deposit_def Let_def by (intro keeps_es drop) simp_all
  then show ?thesis
    unfolding release_dispute_filing_deposit_conn_def dispute_context_conn_def wallet_balance_conn_def case_prod_beta
    by (intro keeps_es)
qed

lemma persisted_final [simp]: "persisted_outcome (final_memo outcome) requested = outcome_text outcome"
  by (cases outcome) (simp_all add: persisted_outcome_def final_memo_def FINAL_MEMO_PREFIX_def rfind_def)

lemma clean_insert_tx_only: "ensures clean (insert_tx_only e k wid kind a agent rel m key)"
  unfolding insert_tx_only_def resolve_charged_by_key_id_def Let_def by (intro ensures_clean) simp_all

lemma clean_debit: "ensures clean (debit_wallet_conn e k wid a agent rel m)"
  unfolding debit_wallet_conn_def guarded_debit_def wallet_balance_conn_def
  by (intro ensures_clean clean_insert_tx_only) simp_all

lemma clean_credit: "ensures clean (credit_wallet_conn e k wid kind a agent rel m)"
  unfolding credit_wallet_conn_def insert_tx_def resolve_charged_by_key_id_def Let_def
  by (intro ensures_clean) simp_all

lemma clean_create: "ensures clean (get_or_create_wallet_id_conn e k owner)"
  unfolding get_or_create_wallet_id_conn_def by (intro ensures_clean) simp_all

lemma clean_settlement:
  assumes "\<not> DISPUTE_HOLD_ENABLED e"
  shows "ensures clean (dispute_settlement_body e dis outcome sc sa)"
proof -
  have o: "ensures clean (settle_outcome e dis j s ew eb outcome sc sa)" for j s ew eb
    by (cases outcome; simp add: settle_outcome_def settle_caller_wins_def settle_agent_wins_def
        settle_split_def settle_void_def Let_def split: option.split;
        intro conjI allI impI ensures_clean clean_debit clean_credit)
  have m: "ensures clean (move_filing_deposit e x outcome agent pw dep b)" for x agent pw dep b
    unfolding move_filing_deposit_def Let_def
    by (intro ensures_clean clean_debit clean_credit clean_create) (use assms in simp)
  have r: "ensures clean (release_dispute_filing_deposit_conn e dis outcome agent pw)" for agent pw
    unfolding release_dispute_filing_deposit_conn_def dispute_context_conn_def wallet_balance_conn_def case_prod_beta
    by (intro ensures_clean clean_create m)
  show ?thesis
    unfolding dispute_settlement_body_def dispute_context_conn_def settle_once_def wallet_balance_conn_def case_prod_beta
    by (intro ensures_clean clean_create, simp split: sum.split,
        intro allI impI conjI ensures_clean clean_create o clean_insert_tx_only r)
qed

text \<open>
  C18. A dispute is settled once. After a settlement went through, every later one for the dispute,
  whatever outcome and split it asks for, answers \<open>already_finalized\<close> with the first outcome and
  zero deltas, or raises; it changes no wallet and no ledger entry.
\<close>

theorem dispute_settlement_final:
  assumes first: "post_dispute_settlement e dis text sc sa d = (Inr r, d')" "\<not> already_finalized r"
    and h: "\<not> DISPUTE_HOLD_ENABLED e" and b: "backend e2 = backend e"
  shows "wp (post_dispute_settlement e2 dis text2 sc2 sa2)
     (\<lambda>r2 d2. already_finalized r2 \<and> settled_outcome r2 = settled_outcome r \<and>
        settled_deltas r2 = deltas 0 0 0 \<and> wallets d2 = wallets d' \<and> transactions d2 = transactions d')
     (\<lambda>_ d2. wallets d2 = wallets d' \<and> transactions d2 = transactions d') d'"
proof -
  obtain outcome where o: "parse_outcome text = Some outcome"
    using first(1) by (cases "parse_outcome text") (auto simp: post_dispute_settlement_def throw_def)
  define F where "F r d' \<longleftrightarrow> already_finalized r \<or> (\<exists>w t. escrow_state e dis w (Some t) d' \<and>
      (\<forall>x. persisted_outcome (memo t) x = settled_outcome r))" for r :: dispute_settlement and d'
  have once: "wp (settle_once e dis j s ew outcome sc sa) F (\<lambda>_ _. True) d1"
    if d1: "escrow_state e dis ew None d1" for j s ew d1
  proof -
    have rel: "wp (release_dispute_filing_deposit_conn e dis outcome (agent_id j) (platform_wallet_id j))
        (\<lambda>_. escrow_state e dis ew (Some t)) (\<lambda>_ _. True) d2" if "escrow_state e dis ew (Some t) d2" for t d2
      using keeps_es_release [THEN keeps_ensures] that by (rule ensuresD)
    have row: "escrow_state e dis ew (Some t) (d2\<lparr>transactions := transactions d2 @ [t]\<rparr>)"
      if "escrow_state e dis ew None d2" "related_tx_id t = Some dis" "tx_wallet_id t = ew" "memo t = final_memo outcome" for t d2
      using that by (auto simp: escrow_state_def finalized_row_def find_append find_wallet_by_owner_def
          final_memo_def sql_like_prefix_def py_lower_def split: backend_kind.split)
    have tail: "wp (bindE (insert_tx_only e 5 ew Fee 0 (Some (agent_id j)) (Some dis) (final_memo outcome) None) (\<lambda>_.
        bindE (release_dispute_filing_deposit_conn e dis outcome (agent_id j) (platform_wallet_id j)) (\<lambda>dep.
        ret \<lparr>settled_outcome = outcome_text outcome, settled_deltas = moved, already_finalized = False,
             released = dep\<rparr>))) F (\<lambda>_ _. True) d2" if d2: "escrow_state e dis ew None d2" for d2 moved
    proof -
      let ?t = "tx_entry e 5 ew Fee 0 (Some (agent_id j)) (Some dis) (final_memo outcome) None d2"
      have "escrow_state e dis ew (Some ?t) (d2\<lparr>transactions := transactions d2 @ [?t]\<rparr>)"
        using d2 by (rule row) simp_all
      from rel [OF this] show ?thesis
        by (auto simp: wp_simps Let_def F_def elim!: wp_post_mono intro!: exI)
    qed
    have out: "wp (settle_outcome e dis j s ew b outcome sc sa) (\<lambda>_. escrow_state e dis ew None) (\<lambda>_ _. True) d1" for b
      using keeps_es_settle_outcome [THEN keeps_ensures] d1 by (rule ensuresD)
    show ?thesis
      unfolding settle_once_def wallet_balance_conn_def
      by (auto simp: wp_bindE [of "select e f" for f] wp_bindE [of "bindE m f" for m f] wp_select wp_ret wp_throw
          wp_bindE [of "settle_outcome e dis j s ew b outcome sc sa" for b] split: option.split
          intro!: wp_post_mono [OF out] tail)
  qed
  have create: "wp (get_or_create_wallet_id_conn e 0 (dispute_escrow_owner dis))
      (\<lambda>ew d1. escrow_state e dis ew (finalized_row e dis ew d1) d1) (\<lambda>_ _. True) d0" for d0
    by (auto simp: get_or_create_wallet_id_conn_def wp_simps escrow_state_def find_wallet_by_owner_def
        find_append new_wallet_def split: option.split)
  have "wp (dispute_settlement_body e dis outcome sc sa) F (\<lambda>_ _. True) (d\<lparr>tx_failed := False\<rparr>)"
    unfolding dispute_settlement_body_def dispute_context_conn_def
    by (auto simp: wp_simps split: option.split sum.split intro!: wp_post_mono [OF create] once)
      (auto simp: F_def final_already_def)
  then have "wp (post_dispute_settlement e dis text sc sa) F (\<lambda>_ _. True) d"
    unfolding post_dispute_settlement_def o option.case
    by (intro wp_transact_clean clean_settlement h) (auto elim: wp_post_mono)
  then obtain w t where wt: "escrow_state e dis w (Some t) d'" "\<And>x. persisted_outcome (memo t) x = settled_outcome r"
    using first by (auto simp: F_def wp_def)
  have fin: "finalized_row e2 dis w' = finalized_row e dis w'" for w'
    using b by (simp add: finalized_row_def sql_like_prefix_def fun_eq_iff)
  have flag: "finalized_row e dis w' (x\<lparr>tx_failed := y\<rparr>) = finalized_row e dis w' x" for w' x y
    by (simp add: finalized_row_def)
  show ?thesis using wt
    by (auto simp: flag post_dispute_settlement_def dispute_settlement_body_def dispute_context_conn_def
        get_or_create_wallet_id_conn_def escrow_state_def fin wp_simps final_already_def split: option.split sum.split)
qed

theorem dispute_settlement_final_witness:
  "\<exists>r d'. post_dispute_settlement (sample_env SQLite) ''d1'' ''void'' None None (sample_dispute_db 0) = (Inr r, d') \<and>
     \<not> already_finalized r \<and>
     wp (post_dispute_settlement (sample_env SQLite) ''d1'' ''caller_wins'' None None)
       (\<lambda>r2 d2. already_finalized r2 \<and> transactions d2 = transactions d') (\<lambda>_ d2. transactions d2 = transactions d') d'"
proof -
  let ?m = "post_dispute_settlement (sample_env SQLite) ''d1'' ''void'' None None"
  let ?d = "sample_dispute_db 0"
  have o: "parse_outcome ''void'' = Some Void"
    by (simp add: parse_outcome_def py_strip_def py_space_def py_lower_def lower_char_def)
  have "wp (dispute_settlement_body (sample_env SQLite) ''d1'' Void None None)
      (\<lambda>r d'. \<not> already_finalized r \<and> \<not> tx_failed d') (\<lambda>_ _. False) (?d\<lparr>tx_failed := False\<rparr>)"
    by (simp add: dispute_settlement_body_def dispute_context_conn_def get_or_create_wallet_id_conn_def
        settle_once_def settle_outcome_def settle_void_def wallet_balance_conn_def sample_dispute_db_def
        release_dispute_filing_deposit_conn_def sample_escrow_wallet_def sample_defs sample_job_def sample_dispute_def
        wp_simps dispute_with_job_def finalized_row_def find_wallet_by_owner_def find_wallet_def
        dispute_escrow_owner_def dispute_deposit_owner_def new_wallet_def wallet_insertable_def wallet_check_def
        insertable_entry new_id_def unsettled_def Let_def pg_failed_def sample_job_shares [unfolded sample_job_def, simplified])
  then have "wp ?m (\<lambda>r _. \<not> already_finalized r) (\<lambda>_ _. False) ?d"
    by (simp add: post_dispute_settlement_def o wp_transact)
      (erule wp_post_mono; simp)
  then obtain r d' where r: "?m ?d = (Inr r, d')" "\<not> already_finalized r"
    by (auto simp: wp_def split: prod.splits sum.splits)
  have "wp (post_dispute_settlement (sample_env SQLite) ''d1'' ''caller_wins'' None None)
       (\<lambda>r2 d2. already_finalized r2 \<and> transactions d2 = transactions d') (\<lambda>_ d2. transactions d2 = transactions d') d'"
    by (rule wp_post_mono [OF dispute_settlement_final [OF r]]) (simp_all add: sample_env_def)
  with r show ?thesis by (intro exI conjI)
qed

section \<open>The held-funds flag on PostgreSQL\<close>

lemma keeps_disputes_update:
  "(\<And>rs d. disputes (put rs d) = disputes d) \<Longrightarrow> keeps (\<lambda>d. disputes d = ds) (update_stmt e get put ck p f)"
  by (intro keeps_update_stmt) (simp_all add: flag_free_def)

lemma keeps_disputes_insert:
  "(\<And>rs d. disputes (put rs d) = disputes d) \<Longrightarrow> keeps (\<lambda>d. disputes d = ds) (insert_stmt e get put ok r)"
  by (intro keeps_insert_stmt) (simp_all add: flag_free_def)

lemmas keeps_disputes = keeps_bindE keeps_if keeps_ret keeps_throw keeps_select keeps_case_option keeps_whenE
  keeps_disputes_update keeps_disputes_insert

lemma keeps_disputes_settle:
  "keeps (\<lambda>d. disputes d = ds) (settle_outcome e dis j s ew eb outcome sc sa)"
  "keeps (\<lambda>d. disputes d = ds) (insert_tx_only e k wid kind a agent rel m key)"
  "keeps (\<lambda>d. disputes d = ds) (get_or_create_wallet_id_conn e k owner)"
proof -
  have o: "keeps (\<lambda>d. disputes d = ds) (insert_tx_only e k wid kind a agent rel m key)" for k wid kind a agent rel m key
    unfolding insert_tx_only_def resolve_charged_by_key_id_def Let_def by (intro keeps_disputes) simp_all
  have d: "keeps (\<lambda>d. disputes d = ds) (debit_wallet_conn e k wid a agent rel m)" for k wid a agent rel m
    unfolding debit_wallet_conn_def guarded_debit_def wallet_balance_conn_def by (intro keeps_disputes o) simp_all
  have c: "keeps (\<lambda>d. disputes d = ds) (credit_wallet_conn e k wid kind a agent rel m)" for k wid kind a agent rel m
    unfolding credit_wallet_conn_def insert_tx_def resolve_charged_by_key_id_def Let_def by (intro keeps_disputes) simp_all
  show "keeps (\<lambda>d. disputes d = ds) (settle_outcome e dis j s ew eb outcome sc sa)"
    by (cases outcome; simp add: settle_outcome_def settle_caller_wins_def settle_agent_wins_def
        settle_split_def settle_void_def Let_def split: option.split; intro conjI allI impI keeps_disputes d c)
  show "keeps (\<lambda>d. disputes d = ds) (get_or_create_wallet_id_conn e k owner)"
    unfolding get_or_create_wallet_id_conn_def by (intro keeps_disputes) simp_all
qed (unfold insert_tx_only_def resolve_charged_by_key_id_def Let_def, intro keeps_disputes, simp_all)

lemma move_deposit_aborts:
  assumes h: "DISPUTE_HOLD_ENABLED e" "backend e = Postgres" and f: "py_strip (filed_by_owner_id x) \<noteq> []"
  shows "wp (move_filing_deposit e x outcome agent pw dep b) (\<lambda>_. tx_failed) (\<lambda>_ _. True) d"
proof -
  have "wp (catchE (bindE (get_or_create_wallet_id_conn e 10 owner) (\<lambda>filer. drop_filer_held e filer a)) (\<lambda>_. ret ()))
      (\<lambda>_. tx_failed) (\<lambda>_ _. True) d" for owner a d
    using h by (auto simp: get_or_create_wallet_id_conn_def wp_simps drop_filer_held_def wp_def [of "stmt e m" for m]
        stmt_def throw_def pg_failed_def abort_tx_def split: option.split)
  note held = this
  show ?thesis
    unfolding move_filing_deposit_def Let_def
    by (rule wp_bind_any, rule wp_bind_any, rule wp_bind_any, subst wp_bindE, subst wp_whenE)
      (auto simp: h f wp_ret intro!: wp_post_mono [OF held])
qed

text \<open>
  With the held-funds flag on, settling a dispute on PostgreSQL loses the settlement: the
  decrement of the filer's \<open>held_cents\<close> fails, its handler goes on, and the commit of the aborted
  transaction rolls it back. Whatever is returned as a new settlement of a dispute with a deposit
  in escrow and a filer, every table is as before.
\<close>

theorem settlement_lost_with_hold_flag:
  assumes h: "DISPUTE_HOLD_ENABLED e" "backend e = Postgres"
    and f: "\<forall>x\<in>set (disputes d). py_strip (filed_by_owner_id x) \<noteq> []"
  shows "wp (post_dispute_settlement e dis text sc sa)
     (\<lambda>r d'. 0 < filing_deposit_refunded (released r) \<or> 0 < filing_deposit_forfeited (released r) \<longrightarrow>
             d' = d\<lparr>tx_failed := False\<rparr>)
     (\<lambda>_ d'. d' = d \<or> d' = d\<lparr>tx_failed := False\<rparr>) d"
proof -
  let ?D = "\<lambda>d'. disputes d' = disputes d"
  define moved where "moved r \<longleftrightarrow> 0 < filing_deposit_refunded r \<or> 0 < filing_deposit_forfeited r"
    for r :: released_deposit
  have unm: "\<not> moved (unmoved_deposit c)" for c by (simp add: moved_def unmoved_deposit_def)
  note step = wp_bind_keeps [where P = ?D]
  have rel: "wp (release_dispute_filing_deposit_conn e dis outcome agent pw)
      (\<lambda>r d'. moved r \<longrightarrow> tx_failed d') (\<lambda>_ _. True) d1" if d1: "?D d1" for outcome agent pw d1
  proof -
    have tail: "wp (bindE (get_or_create_wallet_id_conn e 6 (dispute_deposit_owner dis)) (\<lambda>dep.
        if filing_deposit_cents x \<le> 0 then ret (unmoved_deposit 0)
        else bindE (wallet_balance_conn e dep) (\<lambda>b. if b \<le> 0 then ret (unmoved_deposit (filing_deposit_cents x))
             else move_filing_deposit e x outcome agent pw dep b)))
        (\<lambda>r d'. moved r \<longrightarrow> tx_failed d') (\<lambda>_ _. True) d2"
      if "x \<in> set (disputes d)" for x d2
    proof (rule wp_bind_any)
      have "py_strip (filed_by_owner_id x) \<noteq> []" using f that by blast
      note mv = wp_post_mono [OF move_deposit_aborts [OF h this]]
      show "wp (if filing_deposit_cents x \<le> 0 then ret (unmoved_deposit 0)
        else bindE (wallet_balance_conn e dep) (\<lambda>b. if b \<le> 0 then ret (unmoved_deposit (filing_deposit_cents x))
             else move_filing_deposit e x outcome agent pw dep b))
        (\<lambda>r d'. moved r \<longrightarrow> tx_failed d') (\<lambda>_ _. True) d3" for dep d3
      proof (cases "filing_deposit_cents x \<le> 0")
        case True
        then show ?thesis by (simp add: wp_ret unm)
      next
        case False
        show ?thesis unfolding if_not_P [OF False]
          by (rule wp_bind_any) (auto simp: wp_ret unm intro!: mv)
      qed
    qed
    show ?thesis
      unfolding release_dispute_filing_deposit_conn_def dispute_context_conn_def
      using d1 tail by (auto simp: wp_bindE [of "bindE m k" for m k] wp_bindE [of "select e k" for k] wp_select
          wp_throw wp_ret dispute_with_job_def split: option.split dest!: find_SomeD)
  qed
  have once: "wp (settle_once e dis j s ew outcome sc sa) (\<lambda>r d'. moved (released r) \<longrightarrow> tx_failed d') (\<lambda>_ _. True) d1"
    if "?D d1" for j s ew outcome d1
  proof -
    have bal: "keeps ?D (wallet_balance_conn e ew)" unfolding wallet_balance_conn_def by (intro keeps_disputes)
    show ?thesis unfolding settle_once_def
      by (rule step [OF bal that], rule step [OF keeps_disputes_settle(1)], assumption,
          rule step [OF keeps_disputes_settle(2)], assumption, subst wp_bindE, rule wp_post_mono [OF rel])
        (auto simp: wp_ret)
  qed
  have "wp (dispute_settlement_body e dis outcome sc sa) (\<lambda>r d'. moved (released r) \<longrightarrow> tx_failed d') (\<lambda>_ _. True)
      (d\<lparr>tx_failed := False\<rparr>)" for outcome
  proof -
    have ctx: "keeps ?D (dispute_context_conn e dis)" unfolding dispute_context_conn_def by (intro keeps_disputes)
    have tail: "wp (bindE (get_or_create_wallet_id_conn e 0 (dispute_escrow_owner dis)) (\<lambda>ew.
         bindE (select e (finalized_row e dis ew)) (\<lambda>finalized.
         case finalized of Some t \<Rightarrow> ret (final_already t outcome)
         | None \<Rightarrow> settle_once e dis j s ew outcome sc sa)))
         (\<lambda>r d'. moved (released r) \<longrightarrow> tx_failed d') (\<lambda>_ _. True) d1" if "?D d1" for j s d1
      by (rule step [OF keeps_disputes_settle(3) that])
        (auto simp: wp_bindE [of "select e k" for k] wp_select wp_ret final_already_def unm
          intro!: once split: option.split)
    show ?thesis unfolding dispute_settlement_body_def case_prod_beta
      by (rule step [OF ctx]) (auto intro!: tail simp: wp_throw split: sum.split)
  qed
  note body = this
  show ?thesis
    unfolding post_dispute_settlement_def
    by (auto simp: wp_throw wp_transact intro!: wp_post_mono [OF body] split: option.split) (auto simp: moved_def)
qed

theorem settlement_lost_with_hold_flag_witness:
  "wp (post_dispute_settlement ((sample_env Postgres)\<lparr>DISPUTE_HOLD_ENABLED := True\<rparr>) ''d1'' ''split'' (Some 60) (Some 50))
     (\<lambda>r d'. 0 < filing_deposit_refunded (released r) \<longrightarrow> transactions d' = transactions (sample_dispute_db 40))
     (\<lambda>_ d'. transactions d' = transactions (sample_dispute_db 40)) (sample_dispute_db 40)"
  by (rule wp_post_mono [OF settlement_lost_with_hold_flag])
    (auto simp: sample_dispute_db_def sample_dispute_def py_strip_def py_space_def)

section \<open>Caller trust\<close>

definition trust_ok :: "db \<Rightarrow> bool" where
  "trust_ok d \<longleftrightarrow> (\<forall>w\<in>set (wallets d). 0 \<le> caller_trust w \<and> caller_trust w \<le> 1)"

lemma flag_free_trust_ok: "flag_free trust_ok"
  by (simp add: flag_free_def trust_ok_def)

text \<open>
  Trust stays a probability: the wallets' trust scores are between zero and one after any
  adjustment, whatever its sign and size, after setting a score, and on the wallets these
  operations open.
\<close>

theorem trust_stays_in_unit_interval:
  "keeps trust_ok (adjust_caller_trust e owner delta r rel) \<and>
   keeps trust_ok (adjust_caller_trust_once e owner delta r rel2) \<and>
   keeps trust_ok (update_wallet_caller_trust e owner score)"
proof -
  have ins: "keeps trust_ok (insert_wallet e (new_wallet e k owner None None))" for k owner
    by (intro keeps_insert_stmt flag_free_trust_ok) (auto simp: trust_ok_def new_wallet_def)
  have upd: "keeps trust_ok (update_wallets e p (\<lambda>w. w\<lparr>caller_trust := x\<rparr>))" if "0 \<le> x" "x \<le> 1" for p x
    by (intro keeps_update_stmt flag_free_trust_ok) (use that in \<open>auto simp: trust_ok_def ball_update_rows\<close>)
  have ev: "keeps trust_ok (insert_trust_event e v)" for v
    by (intro keeps_insert_stmt flag_free_trust_ok) (auto simp: trust_ok_def)
  note rules = keeps_bindE keeps_if keeps_ret keeps_throw keeps_select keeps_case_option
    keeps_transact flag_free_trust_ok keeps_ensures keeps_catch_when
  have adj: "keeps trust_ok (adjust_caller_trust e owner delta r rel)" for rel
    unfolding adjust_caller_trust_def Let_def
    by (intro rules ins upd ev clamp01_bounds)
  have get: "keeps trust_ok (get_caller_trust e owner)"
    unfolding get_caller_trust_def get_or_create_wallet_def dict_row_def by (intro rules ins)
  have "keeps trust_ok (update_wallet_caller_trust e owner score)"
    unfolding update_wallet_caller_trust_def by (intro rules upd) auto
  then show ?thesis unfolding adjust_caller_trust_once_def by (intro conjI adj rules get)
qed

text \<open>
  A trust event is applied once: after \<open>adjust_caller_trust_once\<close> returned for an owner, reason
  and event, the same call returns a delta of zero and records nothing, provided the three texts
  have no surrounding blanks and are not empty.
\<close>

theorem trust_event_once:
  assumes clean: "py_strip owner = owner" "owner \<noteq> []" "py_strip r = r" "r \<noteq> []" "py_strip rel = rel" "rel \<noteq> []"
    and first: "adjust_caller_trust_once e owner delta r rel d = (Inr x, d')"
  shows "wp (adjust_caller_trust_once e2 owner delta2 r rel)
     (\<lambda>y d2. change_delta y = 0 \<and> change_before y = change_after y \<and> caller_trust_events d2 = caller_trust_events d')
     (\<lambda>_ d2. caller_trust_events d2 = caller_trust_events d') d'"
proof -
  define done_ev where "done_ev d \<longleftrightarrow> exists_row (\<lambda>v. trust_owner_id v = owner \<and> trust_reason v = r \<and>
      trust_related_id v = Some rel) (caller_trust_events d)" for d :: db
  have get: "wp (get_caller_trust e owner) (\<lambda>_ d1. caller_trust_events d1 = caller_trust_events d0)
      (\<lambda>_ d1. caller_trust_events d1 = caller_trust_events d0) d0" for e d0
    by (auto simp: get_caller_trust_def get_or_create_wallet_def dict_row_def wp_simps split: option.split)
  have adj: "wp (adjust_caller_trust e owner delta r (Some rel)) (\<lambda>_. done_ev) (\<lambda>_ _. True) d0" for d0
    using clean by (auto simp: adjust_caller_trust_def Let_def or_text_def done_ev_def wp_simps intro!: ensures_bindE
        split: option.split)
  have "wp (adjust_caller_trust_once e owner delta r rel) (\<lambda>_. done_ev) (\<lambda>_ _. True) d"
    unfolding adjust_caller_trust_once_def done_ev_def [symmetric]
    by (auto simp: wp_bindE wp_transact wp_select wp_ret intro!: adj wp_post_mono [OF get])
      (auto simp: done_ev_def)
  then have "done_ev d'" using first by (simp add: wp_def)
  then show ?thesis
    by (auto simp: adjust_caller_trust_once_def wp_simps done_ev_def intro!: wp_post_mono [OF get])
qed

theorem trust_event_once_witness:
  "\<exists>x d'. adjust_caller_trust_once (sample_env SQLite) ''user:alice'' (1 / 10) ''rating'' ''j1'' sample_db = (Inr x, d') \<and>
     wp (adjust_caller_trust_once (sample_env SQLite) ''user:alice'' (1 / 10) ''rating'' ''j1'')
       (\<lambda>y _. change_delta y = 0) (\<lambda>_ _. True) d'"
proof -
  let ?m = "adjust_caller_trust_once (sample_env SQLite) ''user:alice'' (1 / 10) ''rating'' ''j1''"
  have c: "py_strip ''user:alice'' = ''user:alice''" "py_strip ''rating'' = ''rating''" "py_strip ''j1'' = ''j1''"
    by (simp_all add: py_strip_def py_space_def)
  have "wp ?m (\<lambda>_ _. True) (\<lambda>_ _. False) sample_db"
    by (simp add: adjust_caller_trust_once_def adjust_caller_trust_def wp_simps c Let_def or_text_def
        trust_insertable_def sample_defs find_wallet_by_owner_def wallet_check_def pg_failed_def)
  then obtain x d' where m: "?m sample_db = (Inr x, d')"
    by (auto simp: wp_def split: prod.splits sum.splits)
  have "wp ?m (\<lambda>y _. change_delta y = 0) (\<lambda>_ _. True) d'"
    by (rule wp_post_mono [OF trust_event_once [OF c(1) _ c(2) _ c(3) _ m]]) simp_all
  with m show ?thesis by blast
qed

end
