(* ===== verification/Ledger_Audit.thy ===== *)
theory Ledger_Audit
  imports Holds "HOL-Library.List_Lexorder"
begin

text \<open>
  The audit of the ledger: \<open>compute_ledger_invariants\<close> and the run log of
  \<open>core/payments/trust_disputes.py\<close>, and the repair of drifted caches in \<open>core/payments/audit.py\<close>.
\<close>

section \<open>Computing the invariants\<close>

text \<open>A row of either mismatch list: the cached column and the sum it should be.\<close>

record mismatch_row =
  mm_wallet_id :: string
  mm_owner_id :: string
  mm_cached_cents :: int
  mm_actual_cents :: int

record ledger_report =
  report_ok :: bool
  wallet_total_cents :: int
  ledger_total_cents :: int
  drift_cents :: int
  wallet_count :: nat
  transaction_count :: nat
  mismatch_count :: nat
  mismatches :: "mismatch_row list"
  held_cache_total_cents :: int
  held_active_total_cents :: int
  report_held_drift_cents :: int
  held_mismatch_count :: nat
  held_mismatches :: "mismatch_row list"

definition drifted_rows :: "(wallet \<Rightarrow> int) \<Rightarrow> (wallet \<Rightarrow> int) \<Rightarrow> db \<Rightarrow> mismatch_row list" where
  "drifted_rows cached actual d =
     filter (\<lambda>r. mm_cached_cents r \<noteq> mm_actual_cents r)
       (map (\<lambda>w. \<lparr>mm_wallet_id = wallet_id w, mm_owner_id = owner_id w, mm_cached_cents = cached w,
                  mm_actual_cents = actual w\<rparr>) (wallets d))"

text \<open>\<open>ORDER BY ABS(cached - actual) DESC, wallet_id ASC LIMIT n\<close>.\<close>

definition worst_first :: "nat \<Rightarrow> mismatch_row list \<Rightarrow> mismatch_row list" where
  "worst_first n rows =
     take n (sort_key (\<lambda>r. - \<bar>mm_cached_cents r - mm_actual_cents r\<bar>) (sort_key mm_wallet_id rows))"

definition balance_mismatches :: "nat \<Rightarrow> db \<Rightarrow> mismatch_row list" where
  "balance_mismatches n d = worst_first n (drifted_rows balance_cents (\<lambda>w. ledger_sum (wallet_id w) d) d)"

definition held_mismatch_rows :: "nat \<Rightarrow> db \<Rightarrow> mismatch_row list" where
  "held_mismatch_rows n d = worst_first n (drifted_rows held_cents (\<lambda>w. active_held (wallet_id w) d) d)"

definition report_of ::
  "int \<Rightarrow> int \<Rightarrow> int \<Rightarrow> int \<Rightarrow> mismatch_row list \<Rightarrow> mismatch_row list \<Rightarrow> nat \<Rightarrow> nat \<Rightarrow> ledger_report" where
  "report_of wallet_total ledger_total held_cached held_active held_rows rows n_wallets n_txns =
     \<lparr>report_ok = (wallet_total - ledger_total = 0 \<and> length rows = 0 \<and> held_cached - held_active = 0 \<and>
        length held_rows = 0),
      wallet_total_cents = wallet_total, ledger_total_cents = ledger_total,
      drift_cents = wallet_total - ledger_total, wallet_count = n_wallets, transaction_count = n_txns,
      mismatch_count = length rows, mismatches = rows, held_cache_total_cents = held_cached,
      held_active_total_cents = held_active, report_held_drift_cents = held_cached - held_active,
      held_mismatch_count = length held_rows, held_mismatches = held_rows\<rparr>"

definition compute_ledger_invariants :: "env \<Rightarrow> int \<Rightarrow> (db, ledger_report) prog" where
  "compute_ledger_invariants e max_mismatches =
     (let capped = nat (min (max 1 max_mismatches) 1000) in
      transact
        (bindE (select e (\<lambda>d. sum_list (map balance_cents (wallets d)))) (\<lambda>wallet_total.
         bindE (select e (\<lambda>d. sum_list (map amount_cents (transactions d)))) (\<lambda>ledger_total.
         bindE (select e (\<lambda>d. sum_list (map held_cents (wallets d)))) (\<lambda>held_cached.
         bindE (select e (\<lambda>d. sum_where (\<lambda>h. hold_status h = Active) hold_amount_cents (wallet_holds d)))
           (\<lambda>held_active.
         bindE (select e (held_mismatch_rows capped)) (\<lambda>held_rows.
         bindE (select e (balance_mismatches capped)) (\<lambda>rows.
         bindE (select e (\<lambda>d. length (wallets d))) (\<lambda>n_wallets.
         bindE (select e (\<lambda>d. length (transactions d))) (\<lambda>n_txns.
         ret (report_of wallet_total ledger_total held_cached held_active held_rows rows n_wallets n_txns)))))))))))"

section \<open>The run log\<close>

definition int_json :: "int \<Rightarrow> json" where
  "int_json n = JNum (of_int n)"

definition balance_mismatch_json :: "mismatch_row \<Rightarrow> json" where
  "balance_mismatch_json r = JObj
     [(''wallet_id'', JStr (mm_wallet_id r)), (''owner_id'', JStr (mm_owner_id r)),
      (''balance_cents'', int_json (mm_cached_cents r)), (''ledger_balance_cents'', int_json (mm_actual_cents r))]"

definition held_mismatch_json :: "mismatch_row \<Rightarrow> json" where
  "held_mismatch_json r = JObj
     [(''wallet_id'', JStr (mm_wallet_id r)), (''owner_id'', JStr (mm_owner_id r)),
      (''held_cents'', int_json (mm_cached_cents r)), (''active_held_cents'', int_json (mm_actual_cents r))]"

definition report_json :: "ledger_report \<Rightarrow> json" where
  "report_json s = JObj
     [(''invariant_ok'', JBool (report_ok s)),
      (''wallet_total_cents'', int_json (wallet_total_cents s)),
      (''ledger_total_cents'', int_json (ledger_total_cents s)),
      (''drift_cents'', int_json (drift_cents s)),
      (''wallet_count'', int_json (int (wallet_count s))),
      (''transaction_count'', int_json (int (transaction_count s))),
      (''mismatch_count'', int_json (int (mismatch_count s))),
      (''mismatches'', JArr (map balance_mismatch_json (mismatches s))),
      (''held_cache_total_cents'', int_json (held_cache_total_cents s)),
      (''held_active_total_cents'', int_json (held_active_total_cents s)),
      (''held_drift_cents'', int_json (report_held_drift_cents s)),
      (''held_mismatch_count'', int_json (int (held_mismatch_count s))),
      (''held_mismatches'', JArr (map held_mismatch_json (held_mismatches s)))]"

definition run_insertable :: "reconciliation_run \<Rightarrow> db \<Rightarrow> bool" where
  "run_insertable r d \<longleftrightarrow> \<not> exists_row (\<lambda>q. run_id q = run_id r) (reconciliation_runs d)"

definition record_reconciliation_run ::
  "env \<Rightarrow> int \<Rightarrow> (db, string \<times> int \<times> ledger_report) prog" where
  "record_reconciliation_run e max_mismatches =
     bindE (compute_ledger_invariants e max_mismatches) (\<lambda>summary.
     bindE (transact (insert_stmt e reconciliation_runs (\<lambda>rs d. d\<lparr>reconciliation_runs := rs\<rparr>) run_insertable
              \<lparr>run_id = uuid e 0, run_created_at = now e, run_invariant_ok = report_ok summary,
               run_drift_cents = drift_cents summary, run_mismatch_count = mismatch_count summary,
               run_summary_json = report_json summary\<rparr>)) (\<lambda>_.
     ret (uuid e 0, now e, summary)))"

text \<open>An item of the list: the run's columns and the document of its \<open>summary_json\<close>.\<close>

definition run_item :: "reconciliation_run \<Rightarrow> reconciliation_run" where
  "run_item r = r\<lparr>run_summary_json := (case run_summary_json r of JObj kvs \<Rightarrow> JObj kvs | _ \<Rightarrow> JObj [])\<rparr>"

definition list_reconciliation_runs :: "env \<Rightarrow> int \<Rightarrow> (db, reconciliation_run list) prog" where
  "list_reconciliation_runs e limit =
     bindE (transact (select e (\<lambda>d.
       order_limit (\<lambda>r. - run_created_at r) (nat (min (max 1 limit) 200)) (reconciliation_runs d)))) (\<lambda>rows.
     ret (map run_item rows))"

section \<open>Snapshots and repairs\<close>

record balance_snapshot =
  bs_wallet_id :: string
  bs_owner_id :: string
  cached_balance_cents :: int
  ledger_balance_cents :: int
  bs_drift_cents :: int
  bs_invariant_ok :: bool
  bs_cached_held_cents :: int
  bs_active_held_cents :: int
  bs_held_drift_cents :: int

definition snapshot_of :: "wallet \<Rightarrow> int \<Rightarrow> int \<Rightarrow> balance_snapshot" where
  "snapshot_of w ledger active =
     (let held_drift = held_cents w - active in
      \<lparr>bs_wallet_id = wallet_id w, bs_owner_id = owner_id w, cached_balance_cents = balance_cents w,
       ledger_balance_cents = ledger, bs_drift_cents = balance_cents w - ledger,
       bs_invariant_ok = (balance_cents w = ledger \<and> held_drift = 0),
       bs_cached_held_cents = held_cents w, bs_active_held_cents = active,
       bs_held_drift_cents = held_drift\<rparr>)"

definition wallet_balance_snapshot_conn :: "env \<Rightarrow> string \<Rightarrow> (db, balance_snapshot) prog" where
  "wallet_balance_snapshot_conn e wid =
     bindE (select e (\<lambda>d. map_option (\<lambda>w. (w, ledger_sum wid d)) (find_wallet wid d))) (\<lambda>row.
     case row of
       None \<Rightarrow> throw (ValueError ''Wallet not found.'')
     | Some wl \<Rightarrow>
         bindE (select e (active_held wid)) (\<lambda>active.
         ret (snapshot_of (fst wl) (snd wl) active)))"

definition get_wallet_balance_snapshot :: "env \<Rightarrow> string \<Rightarrow> (db, balance_snapshot) prog" where
  "get_wallet_balance_snapshot e wid = transact (wallet_balance_snapshot_conn e wid)"

definition repair_wallet_balance_cache :: "env \<Rightarrow> string \<Rightarrow> (db, balance_snapshot) prog" where
  "repair_wallet_balance_cache e wid =
     transact
       (bindE (wallet_balance_snapshot_conn e wid) (\<lambda>snapshot.
        bindE (whenE (bs_drift_cents snapshot \<noteq> 0)
          (bindE (update_wallets e (\<lambda>w. wallet_id w = wid)
                    (\<lambda>w. w\<lparr>balance_cents := ledger_balance_cents snapshot\<rparr>)) (\<lambda>_. ret ()))) (\<lambda>_.
        wallet_balance_snapshot_conn e wid)))"

section \<open>Automatic repair\<close>

definition AXIS_BALANCE :: string where "AXIS_BALANCE = ''balance_cents''"
definition AXIS_HELD :: string where "AXIS_HELD = ''held_cents''"

record repair_item =
  item_wallet_id :: string
  item_axis :: string
  item_drift_cents :: int

definition drift_of_row :: "mismatch_row \<Rightarrow> int" where
  "drift_of_row r = mm_cached_cents r - mm_actual_cents r"

fun partition_mismatches ::
  "string \<Rightarrow> int \<Rightarrow> mismatch_row list \<Rightarrow> repair_item list \<times> repair_item list" where
  "partition_mismatches axis threshold [] = ([], [])"
| "partition_mismatches axis threshold (row # rows) =
     (let (below, above) = partition_mismatches axis threshold rows;
          item = \<lparr>item_wallet_id = mm_wallet_id row, item_axis = axis, item_drift_cents = drift_of_row row\<rparr>
      in if mm_wallet_id row = [] then (below, above)
         else if \<bar>drift_of_row row\<bar> \<le> threshold then (item # below, above)
         else (below, item # above))"

definition apply_repair :: "repair_item \<Rightarrow> (string \<Rightarrow> (db, 'a) prog) \<Rightarrow> (db, exn option) prog" where
  "apply_repair target repair_fn =
     catchE (bindE (repair_fn (item_wallet_id target)) (\<lambda>_. ret None)) (\<lambda>ex. ret (Some ex))"

text \<open>One of the two repair loops: what was repaired, and what failed with its error.\<close>

fun repair_each ::
  "repair_item list \<Rightarrow> (string \<Rightarrow> (db, 'a) prog) \<Rightarrow> (db, repair_item list \<times> (repair_item \<times> exn) list) prog" where
  "repair_each [] repair_fn = ret ([], [])"
| "repair_each (target # targets) repair_fn =
     bindE (apply_repair target repair_fn) (\<lambda>err.
     bindE (repair_each targets repair_fn) (\<lambda>(repaired, failed).
     ret (case err of None \<Rightarrow> (target # repaired, failed) | Some ex \<Rightarrow> (repaired, (target, ex) # failed))))"

record repair_report =
  wallets_checked :: nat
  wallets_drifted :: nat
  wallets_repaired :: "repair_item list"
  wallets_skipped_above_threshold :: "repair_item list"
  wallets_failed_repair :: "(repair_item \<times> exn) list"
  repair_threshold_cents :: int

definition auto_repair_with ::
  "(string \<Rightarrow> (db, 'a) prog) \<Rightarrow> (string \<Rightarrow> (db, 'b) prog) \<Rightarrow> ledger_report \<Rightarrow> int \<Rightarrow> (db, repair_report) prog" where
  "auto_repair_with balance_repair_fn held_repair_fn summary threshold =
     (let (balance_below, balance_above) = partition_mismatches AXIS_BALANCE threshold (mismatches summary);
          (held_below, held_above) = partition_mismatches AXIS_HELD threshold (held_mismatches summary)
      in bindE (repair_each balance_below balance_repair_fn) (\<lambda>(repaired1, failed1).
         bindE (repair_each held_below held_repair_fn) (\<lambda>(repaired2, failed2).
         ret \<lparr>wallets_checked = wallet_count summary,
              wallets_drifted = length (remdups (map item_wallet_id
                (balance_below @ balance_above @ held_below @ held_above))),
              wallets_repaired = repaired1 @ repaired2,
              wallets_skipped_above_threshold = balance_above @ held_above,
              wallets_failed_repair = failed1 @ failed2, repair_threshold_cents = threshold\<rparr>)))"

definition auto_repair_reconciliation_summary ::
  "env \<Rightarrow> ledger_report \<Rightarrow> int \<Rightarrow> (db, repair_report) prog" where
  "auto_repair_reconciliation_summary e summary threshold =
     auto_repair_with (repair_wallet_balance_cache e) (repair_wallet_held_cache e) summary threshold"

declare drifted_rows_def [op_defs] worst_first_def [op_defs] balance_mismatches_def [op_defs]
  held_mismatch_rows_def [op_defs] report_of_def [op_defs] compute_ledger_invariants_def [op_defs]

section \<open>The verdict of the audit\<close>

text \<open>
  Amounts no wallet answers for: entries, and active holds, whose wallet does not exist. Neither
  column \<open>transactions.wallet_id\<close> nor the audit's sums over tables exclude them.
\<close>

definition orphan_entries :: "db \<Rightarrow> int" where
  "orphan_entries d = sum_where (\<lambda>t. \<not> has_wallet (tx_wallet_id t) d) amount_cents (transactions d)"

definition orphan_holds :: "db \<Rightarrow> int" where
  "orphan_holds d = sum_where (\<lambda>h. hold_status h = Active \<and> \<not> has_wallet (hold_wallet_id h) d)
     hold_amount_cents (wallet_holds d)"

definition caches_agree :: "db \<Rightarrow> bool" where
  "caches_agree d \<longleftrightarrow> (\<forall>w\<in>set (wallets d). balance_cents w = ledger_sum (wallet_id w) d \<and>
     held_cents w = active_held (wallet_id w) d)"

lemma sum_one_key:
  fixes c :: int
  assumes "distinct (map k rows)"
  shows "sum_list (map (\<lambda>r. if x = k r then c else 0) rows) = (if exists_row (\<lambda>r. k r = x) rows then c else 0)"
  using assms by (induction rows) (auto simp: exists_row_iff image_iff)

lemma sum_by_wallet:
  assumes "distinct (map k ws)"
  shows "sum_list (map (\<lambda>w. sum_where (\<lambda>t. o_id t = k w \<and> q t) g rows) ws) =
         sum_where (\<lambda>t. q t \<and> exists_row (\<lambda>w. k w = o_id t) ws) g rows"
proof (induction rows)
  case Nil
  then show ?case by (simp add: sum_list_0)
next
  case (Cons t rows)
  have "sum_list (map (\<lambda>w. sum_where (\<lambda>t. o_id t = k w \<and> q t) g (t # rows)) ws) =
        sum_list (map (\<lambda>w. if o_id t = k w then (if q t then g t else 0) else 0) ws) +
        sum_list (map (\<lambda>w. sum_where (\<lambda>t. o_id t = k w \<and> q t) g rows) ws)"
    unfolding sum_list_addf [symmetric] by (intro arg_cong [where f = sum_list] map_cong) auto
  then show ?case using sum_one_key [OF assms] Cons.IH by simp
qed

lemma sum_where_split: "sum_where p g rows = sum_where (\<lambda>r. p r \<and> q r) g rows + sum_where (\<lambda>r. p r \<and> \<not> q r) g rows"
  by (induction rows) auto

lemma sum_all_where: "sum_list (map g rows) = sum_where (\<lambda>_. True) g rows"
  by (simp add: sum_where_def)

lemma drift_orphans:
  assumes "distinct (map wallet_id (wallets d))" and "caches_agree d"
  shows "sum_list (map balance_cents (wallets d)) - sum_list (map amount_cents (transactions d)) = - orphan_entries d"
    and "sum_list (map held_cents (wallets d)) -
         sum_where (\<lambda>h. hold_status h = Active) hold_amount_cents (wallet_holds d) = - orphan_holds d"
proof -
  have bal: "map balance_cents (wallets d) = map (\<lambda>w. sum_where (\<lambda>t. tx_wallet_id t = wallet_id w \<and> True) amount_cents (transactions d)) (wallets d)"
    using assms(2) by (auto simp: caches_agree_def ledger_sum_def)
  have "sum_list (map balance_cents (wallets d)) =
      sum_where (\<lambda>t. True \<and> has_wallet (tx_wallet_id t) d) amount_cents (transactions d)"
    unfolding bal using sum_by_wallet [OF assms(1), of tx_wallet_id "\<lambda>_. True"] by (simp add: has_wallet_def)
  then show "sum_list (map balance_cents (wallets d)) - sum_list (map amount_cents (transactions d)) = - orphan_entries d"
    using sum_where_split [of "\<lambda>_. True" amount_cents "transactions d" "\<lambda>t. has_wallet (tx_wallet_id t) d"]
    by (simp add: orphan_entries_def sum_all_where)
  have held: "map held_cents (wallets d) = map (\<lambda>w. sum_where (\<lambda>h. hold_wallet_id h = wallet_id w \<and> hold_status h = Active)
      hold_amount_cents (wallet_holds d)) (wallets d)"
    using assms(2) by (auto simp: caches_agree_def active_held_def)
  have "sum_list (map held_cents (wallets d)) =
      sum_where (\<lambda>h. hold_status h = Active \<and> has_wallet (hold_wallet_id h) d) hold_amount_cents (wallet_holds d)"
    unfolding held using sum_by_wallet [OF assms(1), of hold_wallet_id "\<lambda>h. hold_status h = Active"] by (simp add: has_wallet_def)
  then show "sum_list (map held_cents (wallets d)) -
      sum_where (\<lambda>h. hold_status h = Active) hold_amount_cents (wallet_holds d) = - orphan_holds d"
    using sum_where_split [of "\<lambda>h. hold_status h = Active" hold_amount_cents "wallet_holds d" "\<lambda>h. has_wallet (hold_wallet_id h) d"]
    by (simp add: orphan_holds_def)
qed

lemma set_worst_first: "length rows \<le> n \<Longrightarrow> set (worst_first n rows) = set rows"
  by (simp add: worst_first_def)

lemma worst_first_empty: "0 < n \<Longrightarrow> worst_first n rows = [] \<longleftrightarrow> rows = []"
  by (simp add: worst_first_def) (metis length_0_conv length_sort)

lemma drifted_rows_empty: "drifted_rows cached actual d = [] \<longleftrightarrow> (\<forall>w\<in>set (wallets d). cached w = actual w)"
  by (auto simp: drifted_rows_def filter_empty_conv)

lemma no_mismatches:
  "0 < n \<Longrightarrow> (balance_mismatches n d = [] \<and> held_mismatch_rows n d = []) \<longleftrightarrow> caches_agree d"
  by (auto simp: balance_mismatches_def held_mismatch_rows_def worst_first_empty drifted_rows_empty caches_agree_def)

lemma audit_frame [simp]:
  "balance_mismatches n (d\<lparr>tx_failed := b\<rparr>) = balance_mismatches n d"
  "held_mismatch_rows n (d\<lparr>tx_failed := b\<rparr>) = held_mismatch_rows n d"
  "orphan_entries (d\<lparr>tx_failed := b\<rparr>) = orphan_entries d" "orphan_holds (d\<lparr>tx_failed := b\<rparr>) = orphan_holds d"
  "caches_agree (d\<lparr>tx_failed := b\<rparr>) = caches_agree d"
  by (simp_all add: balance_mismatches_def held_mismatch_rows_def drifted_rows_def ledger_sum_def active_held_def
      orphan_entries_def orphan_holds_def caches_agree_def has_wallet_def)

lemma wp_compute_ledger_invariants:
  "wp (compute_ledger_invariants e m) Q E d =
     (let n = nat (min (max 1 m) 1000); d0 = d\<lparr>tx_failed := False\<rparr> in
      Q (report_of (sum_list (map balance_cents (wallets d))) (sum_list (map amount_cents (transactions d)))
           (sum_list (map held_cents (wallets d)))
           (sum_where (\<lambda>h. hold_status h = Active) hold_amount_cents (wallet_holds d))
           (held_mismatch_rows n d) (balance_mismatches n d) (length (wallets d)) (length (transactions d))) d0)"
  by (simp add: compute_ledger_invariants_def wp_simps Let_def pg_failed_def)

text \<open>
  C21. The audit is exact. Whatever the list limit, the report says \<open>invariant_ok\<close> if and only if every
  wallet's \<open>balance_cents\<close> is the sum of its entries, every \<open>held_cents\<close> is the sum of its active
  holds, and the entries and the active holds that belong to no wallet cancel out; the limit and
  the ordering hide nothing, and nothing is written.
\<close>

theorem audit_is_exact:
  assumes "distinct (map wallet_id (wallets d))"
  shows "wp (compute_ledger_invariants e m)
     (\<lambda>s d'. d' = d\<lparr>tx_failed := False\<rparr> \<and>
        (report_ok s \<longleftrightarrow> caches_agree d \<and> orphan_entries d = 0 \<and> orphan_holds d = 0))
     (\<lambda>_ _. False) d"
proof -
  let ?n = "nat (min (max 1 m) 1000)"
  have "(balance_mismatches ?n d = [] \<and> held_mismatch_rows ?n d = []) \<longleftrightarrow> caches_agree d"
    by (rule no_mismatches) simp
  then show ?thesis
    using drift_orphans [OF assms] by (auto simp: wp_compute_ledger_invariants Let_def report_of_def)
qed

lemma audit_is_exact_witness:
  "wp (compute_ledger_invariants (sample_env SQLite) 1)
     (\<lambda>s _. report_ok s \<longleftrightarrow> caches_agree sample_db \<and> orphan_entries sample_db = 0 \<and> orphan_holds sample_db = 0)
     (\<lambda>_ _. False) sample_db"
  by (rule wp_post_mono [OF audit_is_exact]) (simp_all add: sample_defs)

section \<open>What the automatic repair does\<close>

definition schema_ok :: "db \<Rightarrow> bool" where
  "schema_ok d \<longleftrightarrow> distinct (map wallet_id (wallets d)) \<and> (\<forall>w\<in>set (wallets d). wallet_check w)"

definition rebalanced :: "txn list \<Rightarrow> wallet \<Rightarrow> wallet" where
  "rebalanced ts w =
     (let b = sum_where (\<lambda>t. tx_wallet_id t = wallet_id w) amount_cents ts
      in if 0 \<le> b then w\<lparr>balance_cents := b\<rparr> else w)"

definition reheld :: "hold list \<Rightarrow> wallet \<Rightarrow> wallet" where
  "reheld hs w = w\<lparr>held_cents := sum_where (\<lambda>h. hold_wallet_id h = wallet_id w \<and> hold_status h = Active)
     hold_amount_cents hs\<rparr>"

definition books :: "txn list \<Rightarrow> hold list \<Rightarrow> db \<Rightarrow> bool" where
  "books ts hs d \<longleftrightarrow> schema_ok d \<and> transactions d = ts \<and> wallet_holds d = hs"

lemma rebalanced_simps [simp]:
  "wallet_id (rebalanced ts w) = wallet_id w" "rebalanced ts (rebalanced ts w) = rebalanced ts w"
  "held_cents (rebalanced ts w) = held_cents w"
  "wallet_check w \<Longrightarrow> wallet_check (rebalanced ts w)"
  by (simp_all add: rebalanced_def wallet_check_def Let_def)

lemma reheld_simps [simp]:
  "wallet_id (reheld hs w) = wallet_id w" "reheld hs (reheld hs w) = reheld hs w"
  "wallet_check (reheld hs w) = wallet_check w"
  by (simp_all add: reheld_def wallet_check_def)

lemma books_flag [simp]: "books ts hs (d\<lparr>tx_failed := b\<rparr>) = books ts hs d"
  by (simp add: books_def schema_ok_def)

lemma books_update:
  assumes "books ts hs d" and "\<And>w. wallet_id (f w) = wallet_id w" and "\<And>w. wallet_check w \<Longrightarrow> wallet_check (f w)"
  shows "books ts hs (d\<lparr>wallets := update_rows p f (wallets d)\<rparr>)"
  using assms by (auto simp: books_def schema_ok_def map_update_rows_same ball_update_rows)

lemma books_row:
  assumes "books ts hs d" and "has_wallet wid d"
  obtains w where "w \<in> set (wallets d)" "wallet_id w = wid" "find_wallet wid d = Some w"
    "\<And>v. v \<in> set (wallets d) \<Longrightarrow> wallet_id v = wid \<Longrightarrow> v = w"
proof -
  have d: "distinct (map wallet_id (wallets d))" using assms(1) by (simp add: books_def schema_ok_def)
  obtain w where w: "w \<in> set (wallets d)" "wallet_id w = wid"
    using assms(2) by (auto simp: has_wallet_def exists_row_iff)
  moreover have "find_wallet wid d = Some w" using find_distinct_key [OF d w(1)] w(2) by (simp add: find_wallet_def)
  moreover have "v = w" if "v \<in> set (wallets d)" "wallet_id v = wid" for v
    using d w that by (auto simp: distinct_map inj_on_def)
  ultimately show thesis by (rule that)
qed

lemma update_one:
  assumes "w \<in> set rows" and "\<And>v. v \<in> set rows \<Longrightarrow> k v = x \<Longrightarrow> v = w" and "f w = g w"
  shows "update_rows (\<lambda>v. k v = x) f rows = update_rows (\<lambda>v. k v = x) g rows"
  unfolding update_rows_def using assms(2,3) by (intro map_cong) auto

lemma wp_snapshot [wp_simps]:
  "wp (wallet_balance_snapshot_conn e wid) Q E d =
     (if pg_failed e d then E InFailedSqlTransaction d
      else case find_wallet wid d of
        None \<Rightarrow> E (ValueError ''Wallet not found.'') d
      | Some w \<Rightarrow> Q (snapshot_of w (ledger_sum wid d) (active_held wid d)) d)"
  by (simp add: wallet_balance_snapshot_conn_def wp_simps split: option.split)

lemma snapshot_of_simps [simp]:
  "bs_drift_cents (snapshot_of w l a) = balance_cents w - l" "ledger_balance_cents (snapshot_of w l a) = l"
  by (simp_all add: snapshot_of_def Let_def)

lemma repair_balance_step:
  assumes b: "books ts hs d" and "has_wallet wid d"
  shows "wp (repair_wallet_balance_cache e wid)
     (\<lambda>_ d'. books ts hs d' \<and> wallets d' = update_rows (\<lambda>w. wallet_id w = wid) (rebalanced ts) (wallets d))
     (\<lambda>_ d'. books ts hs d' \<and> wallets d' = update_rows (\<lambda>w. wallet_id w = wid) (rebalanced ts) (wallets d)) d"
proof -
  obtain w where w: "w \<in> set (wallets d)" "wallet_id w = wid" "find_wallet wid d = Some w"
    and one: "\<And>v. v \<in> set (wallets d) \<Longrightarrow> wallet_id v = wid \<Longrightarrow> v = w"
    using books_row [OF assms] by blast
  let ?b = "ledger_sum wid d"
  have sum: "sum_where (\<lambda>t. tx_wallet_id t = wid) amount_cents ts = ?b"
    using b by (simp add: books_def ledger_sum_def)
  have check: "wallet_check w" using b w(1) by (simp add: books_def schema_ok_def)
  have new: "update_rows (\<lambda>v. wallet_id v = wid) (\<lambda>w. w\<lparr>balance_cents := ?b\<rparr>) (wallets d) =
      update_rows (\<lambda>w. wallet_id w = wid) (rebalanced ts) (wallets d)" if "0 \<le> ?b"
    by (rule update_one [OF w(1) one]) (use that w(2) sum in \<open>simp_all add: rebalanced_def\<close>)
  have old: "update_rows (\<lambda>w. wallet_id w = wid) (rebalanced ts) (wallets d) = wallets d"
    if "?b < 0 \<or> ?b = balance_cents w"
  proof -
    have "rebalanced ts w = w" using that w(2) sum by (cases w) (auto simp: rebalanced_def Let_def)
    then show ?thesis unfolding update_rows_def by (intro map_idI) (use one in auto)
  qed
  have bad: "\<not> (\<forall>v\<in>set (wallets d). wallet_id v = wid \<longrightarrow> wallet_check (v\<lparr>balance_cents := ?b\<rparr>))" if "?b < 0"
    using that w(1,2) by (auto simp: wallet_check_def intro!: bexI [of _ w])
  have good: "\<forall>v\<in>set (wallets d). wallet_id v = wid \<longrightarrow> wallet_check (v\<lparr>balance_cents := ?b\<rparr>)" if "0 \<le> ?b"
    using that check one by (auto simp: wallet_check_def)
  obtain w2 where find2: "find_wallet wid (d\<lparr>tx_failed := False,
      wallets := update_rows (\<lambda>w. wallet_id w = wid) (rebalanced ts) (wallets d)\<rparr>) = Some w2"
    using w(3) by (simp add: find_wallet_def find_update_same)
  have keep: "books ts hs (d\<lparr>tx_failed := False, wallets := update_rows (\<lambda>w. wallet_id w = wid) (rebalanced ts) (wallets d)\<rparr>)"
    using books_update [of ts hs "d\<lparr>tx_failed := False\<rparr>" "rebalanced ts"] b by simp
  have sel: "ledger_sum wid (d\<lparr>tx_failed := c\<rparr>) = ?b" for c by (simp add: ledger_sum_def)
  show ?thesis
  proof (cases "?b < 0")
    case True
    then have "\<not> (\<forall>v\<in>set (wallets d). wallet_id v = wid \<longrightarrow> wallet_check (v\<lparr>balance_cents := ?b\<rparr>))"
      and "balance_cents w \<noteq> ?b" and "update_rows (\<lambda>w. wallet_id w = wid) (rebalanced ts) (wallets d) = wallets d"
      using bad old check by (auto simp: wallet_check_def)
    then show ?thesis using b
      by (simp add: repair_wallet_balance_cache_def wp_simps pg_failed_def sel w(3)) blast
  next
    case False
    then show ?thesis using good new old b keep find2
      by (simp add: repair_wallet_balance_cache_def wp_simps pg_failed_def sel w(3) split: option.split)
  qed
qed

lemma wp_held_snapshot [wp_simps]:
  "wp (held_snapshot_conn e wid) Q E d =
     (if pg_failed e d then E InFailedSqlTransaction d
      else case find_wallet wid d of
        None \<Rightarrow> E (ValueError ''Wallet not found.'') d
      | Some w \<Rightarrow> Q \<lparr>snap_wallet_id = wallet_id w, snap_owner_id = owner_id w, cached_held_cents = held_cents w,
          active_held_cents = active_held wid d, held_drift_cents = held_cents w - active_held wid d\<rparr> d)"
  by (simp add: held_snapshot_conn_def wp_simps split: option.split)

lemma repair_held_step:
  assumes b: "books ts hs d" and "has_wallet wid d"
  shows "wp (repair_wallet_held_cache e wid)
     (\<lambda>_ d'. books ts hs d' \<and> wallets d' = update_rows (\<lambda>w. wallet_id w = wid) (reheld hs) (wallets d))
     (\<lambda>_ d'. books ts hs d' \<and> wallets d' = update_rows (\<lambda>w. wallet_id w = wid) (reheld hs) (wallets d)) d"
proof -
  obtain w where w: "w \<in> set (wallets d)" "wallet_id w = wid" "find_wallet wid d = Some w"
    and one: "\<And>v. v \<in> set (wallets d) \<Longrightarrow> wallet_id v = wid \<Longrightarrow> v = w"
    using books_row [OF assms] by blast
  let ?a = "active_held wid d"
  have sel: "active_held wid (d\<lparr>tx_failed := c\<rparr>) = ?a" for c by (simp add: active_held_def)
  have sum: "sum_where (\<lambda>h. hold_wallet_id h = wid \<and> hold_status h = Active) hold_amount_cents hs = ?a"
    using b by (simp add: books_def active_held_def)
  have new: "update_rows (\<lambda>v. wallet_id v = wid \<and> held_cents v = held_cents w) (\<lambda>w. w\<lparr>held_cents := ?a\<rparr>) (wallets d) =
      update_rows (\<lambda>w. wallet_id w = wid) (reheld hs) (wallets d)"
    unfolding update_rows_def by (intro map_cong) (use one w(2) sum in \<open>auto simp: reheld_def\<close>)
  have old: "update_rows (\<lambda>w. wallet_id w = wid) (reheld hs) (wallets d) = wallets d" if "held_cents w = ?a"
  proof -
    have "reheld hs w = w" using that w(2) sum by (cases w) (auto simp: reheld_def)
    then show ?thesis unfolding update_rows_def by (intro map_idI) (use one in auto)
  qed
  have hit: "count_where (\<lambda>v. wallet_id v = wid \<and> held_cents v = held_cents w) (wallets d) \<noteq> 0"
    using w by (auto simp: count_where_0 simp del: neq0_conv)
  have check: "\<forall>v\<in>set (wallets d). wallet_id v = wid \<and> held_cents v = held_cents w \<longrightarrow> wallet_check (v\<lparr>held_cents := ?a\<rparr>)"
    using b by (auto simp: books_def schema_ok_def wallet_check_def)
  obtain w2 where find2: "find_wallet wid (d\<lparr>tx_failed := False,
      wallets := update_rows (\<lambda>w. wallet_id w = wid) (reheld hs) (wallets d)\<rparr>) = Some w2"
    using w(3) by (simp add: find_wallet_def find_update_same)
  have keep: "books ts hs (d\<lparr>tx_failed := False, wallets := update_rows (\<lambda>w. wallet_id w = wid) (reheld hs) (wallets d)\<rparr>)"
    using books_update [of ts hs "d\<lparr>tx_failed := False\<rparr>" "reheld hs"] b by simp
  show ?thesis
  proof (cases "held_cents w = ?a")
    case True
    then show ?thesis using old b
      by (simp add: repair_wallet_held_cache_def wp_simps pg_failed_def sel w(3) split: option.split)
  next
    case False
    then show ?thesis using new check hit b keep find2
      by (simp add: repair_wallet_held_cache_def wp_simps pg_failed_def sel w(3) split: option.split)
  qed
qed

text \<open>A repair loop rewrites the rows of its targets, whichever of them fail.\<close>

lemma has_wallet_rows:
  assumes "map wallet_id (wallets d') = map wallet_id (wallets d)"
  shows "has_wallet w d' = has_wallet w d"
proof -
  have "has_wallet w x \<longleftrightarrow> w \<in> set (map wallet_id (wallets x))" for x
    by (auto simp: has_wallet_def exists_row_iff)
  then show ?thesis by (simp only: assms)
qed

lemma update_rows_twice:
  assumes "\<And>w. f (f w) = f w" and "\<And>w. q (f w) = q w"
  shows "update_rows q f (update_rows p f rows) = update_rows (\<lambda>w. p w \<or> q w) f rows"
  using assms by (induction rows) auto

lemma repair_batch:
  assumes step: "\<And>d wid. books ts hs d \<Longrightarrow> has_wallet wid d \<Longrightarrow>
      wp (fn wid) (\<lambda>_ d'. books ts hs d' \<and> wallets d' = update_rows (\<lambda>w. wallet_id w = wid) f (wallets d))
        (\<lambda>_ d'. books ts hs d' \<and> wallets d' = update_rows (\<lambda>w. wallet_id w = wid) f (wallets d)) d"
    and f: "\<And>w. f (f w) = f w" "\<And>w. wallet_id (f w) = wallet_id w"
    and b: "books ts hs d" and "\<forall>x\<in>set targets. has_wallet (item_wallet_id x) d"
  shows "wp (repair_each targets fn)
     (\<lambda>_ d'. books ts hs d' \<and> wallets d' = update_rows (\<lambda>w. wallet_id w \<in> item_wallet_id ` set targets) f (wallets d))
     (\<lambda>_ _. False) d"
  using assms(4,5)
proof (induction targets arbitrary: d)
  case Nil
  then show ?case by (simp add: wp_simps update_rows_def)
next
  case (Cons x targets)
  let ?x = "\<lambda>w. wallet_id w = item_wallet_id x"
  have rest: "wp (repair_each targets fn)
      (\<lambda>_ d2. books ts hs d2 \<and> wallets d2 = update_rows (\<lambda>w. wallet_id w \<in> item_wallet_id ` set (x # targets)) f (wallets d))
      (\<lambda>_ _. False) d1"
    if "books ts hs d1" "wallets d1 = update_rows ?x f (wallets d)" for d1
  proof -
    have ids: "map wallet_id (wallets d1) = map wallet_id (wallets d)"
      unfolding that(2) by (rule map_update_rows_same) (rule f(2))
    have "\<forall>y\<in>set targets. has_wallet (item_wallet_id y) d1"
      using Cons.prems(2) by (simp add: has_wallet_rows [OF ids])
    moreover have "update_rows (\<lambda>w. wallet_id w \<in> item_wallet_id ` set targets) f (update_rows ?x f (wallets d)) =
        update_rows (\<lambda>w. wallet_id w \<in> item_wallet_id ` set (x # targets)) f (wallets d)"
      by (simp add: update_rows_twice f)
    ultimately show ?thesis using Cons.IH [OF that(1)] that(2) by simp
  qed
  let ?R = "\<lambda>_ d2. books ts hs d2 \<and>
      wallets d2 = update_rows (\<lambda>w. wallet_id w \<in> item_wallet_id ` set (x # targets)) f (wallets d)"
  have "wp (fn (item_wallet_id x)) (\<lambda>_ d'. books ts hs d' \<and> wallets d' = update_rows ?x f (wallets d))
      (\<lambda>_ d'. books ts hs d' \<and> wallets d' = update_rows ?x f (wallets d)) d"
    using Cons.prems by (intro step) simp_all
  then have "wp (fn (item_wallet_id x)) (\<lambda>_. wp (repair_each targets fn) ?R (\<lambda>_ _. False))
      (\<lambda>_. wp (repair_each targets fn) ?R (\<lambda>_ _. False)) d"
    by (rule wp_post_mono) (use rest in simp_all)
  then show ?case unfolding repair_each.simps apply_repair_def wp_bindE wp_catchE wp_ret
    by (rule wp_post_mono) (erule wp_post_mono; simp add: wp_simps split: prod.split)+
qed

lemma partition_below:
  "item_wallet_id ` set (fst (partition_mismatches axis t rows)) =
     {mm_wallet_id r |r. r \<in> set rows \<and> mm_wallet_id r \<noteq> [] \<and> \<bar>drift_of_row r\<bar> \<le> t}"
  by (induction rows) (auto simp: Let_def split: prod.split)

definition repaired_wallet :: "int \<Rightarrow> db \<Rightarrow> wallet \<Rightarrow> wallet" where
  "repaired_wallet t d w =
     (let b = ledger_sum (wallet_id w) d; h = active_held (wallet_id w) d in
      w\<lparr>balance_cents := (if \<bar>balance_cents w - b\<bar> \<le> t \<and> 0 \<le> b then b else balance_cents w),
        held_cents := (if \<bar>held_cents w - h\<bar> \<le> t then h else held_cents w)\<rparr>)"

definition near_ids :: "(wallet \<Rightarrow> int) \<Rightarrow> (wallet \<Rightarrow> int) \<Rightarrow> int \<Rightarrow> db \<Rightarrow> string set" where
  "near_ids c a t d = {wallet_id w |w. w \<in> set (wallets d) \<and> c w \<noteq> a w \<and> wallet_id w \<noteq> [] \<and> \<bar>c w - a w\<bar> \<le> t}"

lemma drifted_row_ids:
  "{mm_wallet_id r |r. r \<in> set (drifted_rows c a d) \<and> mm_wallet_id r \<noteq> [] \<and> \<bar>drift_of_row r\<bar> \<le> t} = near_ids c a t d"
proof -
  have "r \<in> set (drifted_rows c a d) \<longleftrightarrow> (\<exists>w\<in>set (wallets d). c w \<noteq> a w \<and>
      r = \<lparr>mm_wallet_id = wallet_id w, mm_owner_id = owner_id w, mm_cached_cents = c w, mm_actual_cents = a w\<rparr>)" for r
    by (auto simp: drifted_rows_def)
  then show ?thesis by (force simp: near_ids_def drift_of_row_def)
qed

lemma near_ids_row:
  assumes "distinct (map wallet_id (wallets d))" and "w \<in> set (wallets d)" and "wallet_id w \<noteq> []"
  shows "wallet_id w \<in> near_ids c a t d \<longleftrightarrow> c w \<noteq> a w \<and> \<bar>c w - a w\<bar> \<le> t"
proof -
  have "v = w" if "v \<in> set (wallets d)" "wallet_id v = wallet_id w" for v
    using assms(1,2) that by (auto simp: distinct_map inj_on_def)
  then show ?thesis using assms(2,3) by (auto simp: near_ids_def)
qed

lemma length_drifted_rows: "length (drifted_rows c a d) \<le> length (wallets d)"
  unfolding drifted_rows_def by (rule order_trans [OF length_filter_le]) simp

lemma repaired_rows:
  assumes B: "\<And>w. w \<in> set (wallets d) \<Longrightarrow> wallet_id w \<in> B \<longleftrightarrow>
      balance_cents w \<noteq> ledger_sum (wallet_id w) d \<and> \<bar>balance_cents w - ledger_sum (wallet_id w) d\<bar> \<le> t"
    and H: "\<And>w. w \<in> set (wallets d) \<Longrightarrow> wallet_id w \<in> H \<longleftrightarrow>
      held_cents w \<noteq> active_held (wallet_id w) d \<and> \<bar>held_cents w - active_held (wallet_id w) d\<bar> \<le> t"
  shows "update_rows (\<lambda>w. wallet_id w \<in> H) (reheld (wallet_holds d))
      (update_rows (\<lambda>w. wallet_id w \<in> B) (rebalanced (transactions d)) (wallets d)) = map (repaired_wallet t d) (wallets d)"
proof -
  have "(\<lambda>r. if wallet_id r \<in> H then reheld (wallet_holds d) r else r)
      ((\<lambda>r. if wallet_id r \<in> B then rebalanced (transactions d) r else r) w) = repaired_wallet t d w"
    if "w \<in> set (wallets d)" for w
    using B [OF that] H [OF that]
    by (cases w) (auto simp: repaired_wallet_def rebalanced_def reheld_def ledger_sum_def active_held_def Let_def)
  then show ?thesis unfolding update_rows_def map_map comp_def by (intro map_cong) simp_all
qed

text \<open>
  The automatic repair does exactly what it says. Run on a fresh audit whose lists are not cut
  off, it never fails and touches nothing but the two caches: every balance that is off by at most
  the threshold becomes the ledger's sum, unless that sum is negative, which the schema refuses;
  every held amount off by at most the threshold becomes the sum of the active holds; larger drift
  stays as it is for an operator; no entry and no hold changes.
\<close>

theorem auto_repair_effect:
  assumes ok: "schema_ok d" and ids: "\<forall>w\<in>set (wallets d). wallet_id w \<noteq> []"
    and n: "length (wallets d) \<le> nat (min (max 1 m) 1000)"
  shows "wp (bindE (compute_ledger_invariants e m) (\<lambda>s. auto_repair_reconciliation_summary e s t))
     (\<lambda>_ d'. wallets d' = map (repaired_wallet t d) (wallets d) \<and> transactions d' = transactions d \<and>
        wallet_holds d' = wallet_holds d)
     (\<lambda>_ _. False) d"
proof -
  let ?n = "nat (min (max 1 m) 1000)"
  let ?d0 = "d\<lparr>tx_failed := False\<rparr>"
  let ?ts = "transactions d" and ?hs = "wallet_holds d"
  obtain bb ba where pb: "partition_mismatches AXIS_BALANCE t (balance_mismatches ?n d) = (bb, ba)" by fastforce
  obtain hb ha where ph: "partition_mismatches AXIS_HELD t (held_mismatch_rows ?n d) = (hb, ha)" by fastforce
  have dist: "distinct (map wallet_id (wallets d))" using ok by (simp add: schema_ok_def)
  have setb: "set (balance_mismatches ?n d) = set (drifted_rows balance_cents (\<lambda>w. ledger_sum (wallet_id w) d) d)"
    and seth: "set (held_mismatch_rows ?n d) = set (drifted_rows held_cents (\<lambda>w. active_held (wallet_id w) d) d)"
    unfolding balance_mismatches_def held_mismatch_rows_def
    using n length_drifted_rows order_trans by (blast intro!: set_worst_first)+
  let ?B = "item_wallet_id ` set bb" and ?H = "item_wallet_id ` set hb"
  have B: "?B = near_ids balance_cents (\<lambda>w. ledger_sum (wallet_id w) d) t d"
    using partition_below [of AXIS_BALANCE t "balance_mismatches ?n d"] by (simp only: pb fst_conv setb drifted_row_ids)
  have H: "?H = near_ids held_cents (\<lambda>w. active_held (wallet_id w) d) t d"
    using partition_below [of AXIS_HELD t "held_mismatch_rows ?n d"] by (simp only: ph fst_conv seth drifted_row_ids)
  have "has_wallet x d" if "x \<in> near_ids c a t d" for x c a
    using that by (auto simp: near_ids_def has_wallet_def exists_row_iff)
  then have in_d: "\<forall>x\<in>set bb. has_wallet (item_wallet_id x) d" "\<forall>x\<in>set hb. has_wallet (item_wallet_id x) d"
    using B H by (metis image_eqI)+
  have rows: "update_rows (\<lambda>w. wallet_id w \<in> ?H) (reheld ?hs) (update_rows (\<lambda>w. wallet_id w \<in> ?B) (rebalanced ?ts) (wallets d)) =
      map (repaired_wallet t d) (wallets d)"
    unfolding B H using ids by (intro repaired_rows dist near_ids_row) auto
  have "books ?ts ?hs ?d0" using ok by (simp add: books_def schema_ok_def)
  then have first: "wp (repair_each bb (repair_wallet_balance_cache e))
     (\<lambda>_ d'. books ?ts ?hs d' \<and> wallets d' = update_rows (\<lambda>w. wallet_id w \<in> ?B) (rebalanced ?ts) (wallets d)) (\<lambda>_ _. False) ?d0"
    using repair_batch [of ?ts ?hs "repair_wallet_balance_cache e" "rebalanced ?ts" ?d0 bb, OF repair_balance_step]
      in_d(1) by (simp add: has_wallet_def)
  have second: "wp (repair_each hb (repair_wallet_held_cache e))
     (\<lambda>_ d'. books ?ts ?hs d' \<and> wallets d' = map (repaired_wallet t d) (wallets d)) (\<lambda>_ _. False) d1"
    if "books ?ts ?hs d1" "wallets d1 = update_rows (\<lambda>w. wallet_id w \<in> ?B) (rebalanced ?ts) (wallets d)" for d1
  proof -
    have ids1: "map wallet_id (wallets d1) = map wallet_id (wallets d)" by (simp add: that(2) map_update_rows_same)
    have "\<forall>x\<in>set hb. has_wallet (item_wallet_id x) d1" using in_d(2) by (simp add: has_wallet_rows [OF ids1])
    then show ?thesis
      using repair_batch [of ?ts ?hs "repair_wallet_held_cache e" "reheld ?hs" d1 hb, OF repair_held_step] that rows
      by simp
  qed
  have "wp (auto_repair_reconciliation_summary e s t)
     (\<lambda>_ d'. wallets d' = map (repaired_wallet t d) (wallets d) \<and> transactions d' = ?ts \<and> wallet_holds d' = ?hs)
     (\<lambda>_ _. False) ?d0"
    if "mismatches s = balance_mismatches ?n d" "held_mismatches s = held_mismatch_rows ?n d" for s
    unfolding auto_repair_reconciliation_summary_def auto_repair_with_def that pb ph Let_def prod.case wp_bindE
    by (rule wp_post_mono [OF first])
      (auto simp: wp_simps books_def split: prod.split intro!: second [THEN wp_post_mono])
  then show ?thesis
    by (simp add: wp_bindE wp_compute_ledger_invariants Let_def report_of_def)
qed

definition sample_drifted_db :: db where
  "sample_drifted_db = sample_db\<lparr>wallets := [sample_wallet ''w1'' ''user:alice'' 503, sample_wallet ''w4'' ''agent:kid'' 60]\<rparr>"

lemma auto_repair_effect_witness:
  "wp (bindE (compute_ledger_invariants (sample_env Postgres) 100)
        (\<lambda>s. auto_repair_reconciliation_summary (sample_env Postgres) s 5))
     (\<lambda>_ d'. map balance_cents (wallets d') = [500, 60]) (\<lambda>_ _. False) sample_drifted_db"
  by (rule wp_post_mono [OF auto_repair_effect])
    (simp_all add: sample_drifted_db_def sample_defs schema_ok_def wallet_check_def repaired_wallet_def ledger_sum_def
      active_held_def Let_def)

section \<open>The run log\<close>

text \<open>
  What an audit run records is what the log lists: the newest item is the run, with the report's
  verdict, drift and mismatch count in its columns and the whole report as its summary document.
\<close>

theorem run_log_roundtrip:
  assumes "\<forall>q\<in>set (reconciliation_runs d). run_id q \<noteq> uuid e 0 \<and> run_created_at q < now e"
  shows "wp (bindE (record_reconciliation_run e m) (\<lambda>r. bindE (list_reconciliation_runs e2 1) (\<lambda>items. ret (r, items))))
     (\<lambda>((rid, stamp, s), items) d'. items = [\<lparr>run_id = rid, run_created_at = stamp, run_invariant_ok = report_ok s,
          run_drift_cents = drift_cents s, run_mismatch_count = mismatch_count s, run_summary_json = report_json s\<rparr>] \<and>
        rid = uuid e 0 \<and> wallets d' = wallets d \<and> transactions d' = transactions d)
     (\<lambda>_ _. False) d"
proof -
  have newest: "order_limit (\<lambda>r. - run_created_at r) (Suc 0) (reconciliation_runs d @ [x]) = [x]"
    if "run_created_at x = now e" for x
  proof -
    have last: "sort_key f (xs @ [x]) = x # sort_key f xs" if "\<forall>q\<in>set xs. f x < f q" for f :: "reconciliation_run \<Rightarrow> int" and xs
      using that by (induction xs) (auto simp: insort_key.simps)
    show ?thesis unfolding order_limit_def using assms that by (subst last) auto
  qed
  show ?thesis
    using assms
    by (simp add: record_reconciliation_run_def list_reconciliation_runs_def wp_simps wp_compute_ledger_invariants Let_def
        pg_failed_def run_insertable_def exists_row_iff newest run_item_def report_json_def)
qed

lemma run_log_roundtrip_witness:
  "wp (bindE (record_reconciliation_run (sample_env SQLite) 10)
        (\<lambda>r. bindE (list_reconciliation_runs (sample_env SQLite) 1) (\<lambda>items. ret (r, items))))
     (\<lambda>(r, items) _. length items = 1) (\<lambda>_ _. False) sample_db"
  by (rule wp_post_mono [OF run_log_roundtrip]) (auto simp: sample_defs)

end
