(* ===== verification/Subwallets.thy ===== *)
theory Subwallets
  imports Wallets "HOL-Library.Multiset"
begin

text \<open>
  \<open>core/payments/subwallets.py\<close>: the wallets below a parent wallet, their guarantor policy and label,
  the sweep of a sub-wallet into its parent and the earnings per sub-wallet; and the pure split of
  \<open>core/payments/action_escrow.py\<close>.
\<close>

section \<open>Operations\<close>

definition list_child_wallets :: "env \<Rightarrow> string \<Rightarrow> (db, wallet list) prog" where
  "list_child_wallets e parent =
     transact (select e (\<lambda>d. sort_key wallet_created_at
       (filter (\<lambda>w. parent_wallet_id w = Some parent) (wallets d))))"

definition set_wallet_guarantor :: "env \<Rightarrow> string \<Rightarrow> bool \<Rightarrow> int option \<Rightarrow> (db, wallet) prog" where
  "set_wallet_guarantor e wid enabled cap =
     (if case cap of None \<Rightarrow> False | Some c \<Rightarrow> c < 0
      then throw (ValueError ''guarantor_cap_cents must be >= 0.'')
      else transact
        (bindE (update_wallets e (\<lambda>w. wallet_id w = wid)
                  (\<lambda>w. w\<lparr>guarantor_enabled := enabled, guarantor_cap_cents := cap\<rparr>)) (\<lambda>updated.
         updated_wallet e wid updated)))"

definition set_wallet_label :: "env \<Rightarrow> string \<Rightarrow> string option \<Rightarrow> (db, wallet) prog" where
  "set_wallet_label e wid text =
     (let label = none_if_empty (py_strip (or_empty text)) in
      if case label of None \<Rightarrow> False | Some l \<Rightarrow> 80 < length l
      then throw (ValueError ''display_label must be 80 characters or fewer.'')
      else transact
        (bindE (update_wallets e (\<lambda>w. wallet_id w = wid) (\<lambda>w. w\<lparr>display_label := label\<rparr>)) (\<lambda>updated.
         updated_wallet e wid updated)))"

record sweep_result =
  sweep_tx_id :: "string option"
  parent_deposit_tx_id :: "string option"
  swept_cents :: int

definition sweep_legs ::
  "env \<Rightarrow> string \<Rightarrow> string \<Rightarrow> int \<Rightarrow> string \<Rightarrow> (db, sweep_result) prog" where
  "sweep_legs e wid parent amount sweep_memo =
     bindE (insert_tx e 0 wid Charge (- amount) None None sweep_memo None) (\<lambda>charge_id.
     bindE (insert_tx e 1 parent Deposit amount None (Some charge_id) sweep_memo None) (\<lambda>deposit_id.
     ret \<lparr>sweep_tx_id = Some charge_id, parent_deposit_tx_id = Some deposit_id, swept_cents = amount\<rparr>))"

definition sweep_to_parent :: "env \<Rightarrow> string \<Rightarrow> int option \<Rightarrow> string \<Rightarrow> (db, sweep_result) prog" where
  "sweep_to_parent e wid amount memo_text =
     transact
       (bindE (select e (find_wallet wid)) (\<lambda>row.
        case row of
          None \<Rightarrow> throw (ValueError ''Wallet not found.'')
        | Some w \<Rightarrow>
            if or_empty (parent_wallet_id w) = []
            then throw (ValueError ''Wallet has no parent_wallet_id; cannot sweep.'')
            else if case amount of None \<Rightarrow> False | Some a \<Rightarrow> a < 0
            then throw (ValueError ''amount_cents must be >= 0.'')
            else
              let sweep_amount = (case amount of None \<Rightarrow> balance_cents w | Some a \<Rightarrow> a) in
              if sweep_amount = 0
              then ret \<lparr>sweep_tx_id = None, parent_deposit_tx_id = None, swept_cents = 0\<rparr>
              else if balance_cents w < sweep_amount
              then throw (InsufficientBalanceError (balance_cents w) sweep_amount)
              else sweep_legs e wid (or_empty (parent_wallet_id w)) sweep_amount
                     (or_text memo_text ''sub-wallet sweep to parent'')))"

record child_earnings =
  ce_agent_id :: "string option"
  ce_wallet_id :: string
  ce_display_label :: "string option"
  ce_current_balance_cents :: int
  ce_total_earned_cents :: int
  ce_total_spent_cents :: int
  ce_call_count :: nat
  ce_last_earned_at :: "int option"
  ce_guarantor_enabled :: bool
  ce_guarantor_cap_cents :: "int option"
  ce_daily_spend_limit_cents :: "int option"

definition payout_of :: "string \<Rightarrow> txn \<Rightarrow> bool" where
  "payout_of wid t \<longleftrightarrow> tx_wallet_id t = wid \<and> tx_kind t = Payout"

definition spend_of :: "string \<Rightarrow> txn \<Rightarrow> bool" where
  "spend_of wid t \<longleftrightarrow> tx_wallet_id t = wid \<and> tx_kind t \<in> {Charge, Fee} \<and> amount_cents t < 0"

definition agent_of_owner :: "string \<Rightarrow> string option" where
  "agent_of_owner owner = (if prefix ''agent:'' owner then Some (drop 6 owner) else None)"

definition earnings_of_child :: "db \<Rightarrow> wallet \<Rightarrow> child_earnings" where
  "earnings_of_child d w =
     (let stamps = map tx_created_at (filter (payout_of (wallet_id w)) (transactions d)) in
      \<lparr>ce_agent_id = agent_of_owner (owner_id w), ce_wallet_id = wallet_id w, ce_display_label = display_label w,
       ce_current_balance_cents = balance_cents w,
       ce_total_earned_cents = sum_where (payout_of (wallet_id w)) amount_cents (transactions d),
       ce_total_spent_cents = sum_where (spend_of (wallet_id w)) (\<lambda>t. - amount_cents t) (transactions d),
       ce_call_count = count_where (payout_of (wallet_id w)) (transactions d),
       ce_last_earned_at = (if stamps = [] then None else Some (fold max stamps (hd stamps))),
       ce_guarantor_enabled = guarantor_enabled w, ce_guarantor_cap_cents = guarantor_cap_cents w,
       ce_daily_spend_limit_cents = daily_spend_limit_cents w\<rparr>)"

definition get_agent_earnings_breakdown_v2 :: "env \<Rightarrow> string \<Rightarrow> (db, child_earnings list) prog" where
  "get_agent_earnings_breakdown_v2 e parent =
     transact (select e (\<lambda>d.
       sort_key (\<lambda>r. - ce_total_earned_cents r)
         (map (earnings_of_child d) (sort_key wallet_created_at
           (filter (\<lambda>w. parent_wallet_id w = Some parent) (wallets d))))))"

declare sweep_legs_def [op_defs]

section \<open>The split of a completed web action\<close>

record action_settlement =
  as_caller_charge_cents :: int
  as_agent_payout_cents :: int
  as_platform_fee_cents :: int

definition within_cap :: "int \<Rightarrow> int \<Rightarrow> int \<Rightarrow> bool" where
  "within_cap cost agent_fee max_spend \<longleftrightarrow> cost + agent_fee \<le> max_spend"

definition compute_action_settlement :: "int \<Rightarrow> int \<Rightarrow> int \<Rightarrow> exn + action_settlement" where
  "compute_action_settlement cost fee pct =
     (if cost < 0 \<or> fee < 0 \<or> \<not> (0 \<le> pct \<and> pct \<le> 100)
      then Inl (ValueError ''invalid settlement inputs (negative cents or pct out of 0..100)'')
      else let platform_fee = (fee * pct) div 100 in
        Inr \<lparr>as_caller_charge_cents = cost + fee, as_agent_payout_cents = cost + fee - platform_fee,
             as_platform_fee_cents = platform_fee\<rparr>)"

text \<open>
  The split of an action balances and never skims the merchant's cost: on every input it accepts,
  what the agent and the platform get is what the caller pays, the fee stays within the agent's
  service fee, and the agent recovers at least the cost it fronted; it refuses the other inputs.
\<close>

theorem action_settlement_balances:
  "case compute_action_settlement cost fee pct of
     Inl ex \<Rightarrow> is_value_error ex \<and> (cost < 0 \<or> fee < 0 \<or> pct < 0 \<or> 100 < pct)
   | Inr s \<Rightarrow> as_agent_payout_cents s + as_platform_fee_cents s = as_caller_charge_cents s \<and>
       0 \<le> as_platform_fee_cents s \<and> as_platform_fee_cents s \<le> fee \<and> cost \<le> as_agent_payout_cents s \<and>
       (within_cap cost fee cap \<longleftrightarrow> as_caller_charge_cents s \<le> cap)"
proof (cases "cost < 0 \<or> fee < 0 \<or> \<not> (0 \<le> pct \<and> pct \<le> 100)")
  case True
  then show ?thesis by (auto simp: compute_action_settlement_def)
next
  case False
  then have "0 \<le> fee * pct" "fee * pct \<le> fee * 100" by (auto intro: mult_left_mono)
  then have "0 \<le> fee * pct div 100 \<and> fee * pct div 100 \<le> fee" by auto
  with False show ?thesis by (auto simp: compute_action_settlement_def within_cap_def Let_def)
qed

section \<open>What the operations keep\<close>

context ledger_invariant begin

lemma keeps_updated_wallet: "keeps P (updated_wallet e wid n)"
  unfolding updated_wallet_def by auto

lemma keeps_set_wallet_guarantor: "keeps P (set_wallet_guarantor e wid b cap)"
  unfolding set_wallet_guarantor_def
  by (intro keeps_if keeps_throw keeps_transact_P keeps_ensures keeps_bindE keeps_rewriting keeps_updated_wallet) simp

lemma keeps_set_wallet_label: "keeps P (set_wallet_label e wid l)"
  unfolding set_wallet_label_def Let_def
  by (intro keeps_if keeps_throw keeps_transact_P keeps_ensures keeps_bindE keeps_rewriting keeps_updated_wallet) simp

end

context posting_invariant begin

lemma keeps_sweep_to_parent: "keeps P (sweep_to_parent e wid a m)"
  unfolding sweep_to_parent_def sweep_legs_def Let_def
  by (intro keeps_transact_P ensures_bindE ensures_select ensures_case_option ensures_if ensures_throw ensures_ret
      ensures_insert_tx)

end

text \<open>
  A sweep moves the balance up. Out of a sub-wallet whose parent exists it moves exactly the
  requested amount, the whole balance when none is named, or raises and moves nothing; it never
  overdraws, no other balance moves, the total is unchanged and the ledger balances.
\<close>

theorem sweep_moves_to_parent:
  assumes ok: "ledger_ok d" and w: "find_wallet wid d = Some w" "parent_wallet_id w = Some p" "p \<noteq> []" "p \<noteq> wid"
    and p: "has_wallet p d" and new: "new_id (uuid e 0) d" "new_id (uuid e 1) d" "uuid e 0 \<noteq> uuid e 1"
      "unsettled (uuid e 0) Deposit p d"
  shows "wp (sweep_to_parent e wid amount m)
     (\<lambda>r d'. swept_cents r = (case amount of None \<Rightarrow> balance_of wid d | Some a \<Rightarrow> a) \<and>
        0 \<le> swept_cents r \<and> swept_cents r \<le> balance_of wid d \<and> ledger_ok d' \<and> total_balance d' = total_balance d \<and>
        (\<forall>v. balance_of v d' = balance_of v d + (if v = p then swept_cents r else 0) -
           (if v = wid then swept_cents r else 0)) \<and>
        (sweep_tx_id r = None \<longleftrightarrow> swept_cents r = 0))
     (\<lambda>ex d'. d' = d\<lparr>tx_failed := False\<rparr> \<and>
        (\<exists>a. amount = Some a \<and> (a < 0 \<and> is_value_error ex \<or>
           balance_of wid d < a \<and> ex = InsufficientBalanceError (balance_of wid d) a))) d"
proof -
  let ?d = "d\<lparr>tx_failed := False\<rparr>"
  have ok0: "ledger_ok ?d" using ok by simp
  have bal: "balance_of wid d = balance_cents w" using w(1) by (simp add: balance_of_def)
  have nonneg: "0 \<le> balance_cents w" using balance_of_nonneg [OF ok, of wid] bal by simp
  have hw: "has_wallet wid d" using w(1) by (simp add: has_wallet_find)
  have legs: "wp (sweep_legs e wid p a sm)
      (\<lambda>r d'. swept_cents r = a \<and> ledger_ok d' \<and> total_balance d' = total_balance d \<and> \<not> tx_failed d' \<and>
        (\<forall>v. balance_of v d' = balance_of v d + (if v = p then a else 0) - (if v = wid then a else 0)) \<and>
        sweep_tx_id r \<noteq> None)
      (\<lambda>_ _. False) ?d" if a: "0 < a" "a \<le> balance_cents w" for a sm
  proof -
    let ?t = "tx_entry e 0 wid Charge (- a) None None sm None ?d"
    have ins: "tx_insertable ?t ?d" "funded ?t ?d"
      using new(1) a bal by (auto simp: insertable_entry funded_iff [OF ok0])
    have ok1: "ledger_ok (post ?t ?d)" by (rule ledger_ok_post [OF ok0 ins])
    let ?u = "tx_entry e 1 p Deposit a None (Some (uuid e 0)) sm None (post ?t ?d)"
    have ins2: "tx_insertable ?u (post ?t ?d)" "funded ?u (post ?t ?d)"
      using new a by (auto simp: insertable_entry new_id_post unsettled_post funded_nonneg [OF ok1])
    have ok2: "ledger_ok (post ?u (post ?t ?d))" by (rule ledger_ok_post [OF ok1 ins2])
    show ?thesis using ins ins2 ok2 hw p w(4)
      by (simp add: sweep_legs_def wp_simps ok ok1 pg_failed_def Let_def balance_of_post total_balance_post)
  qed
  have p0: "or_empty (Some p) = p" by (simp add: or_empty_def)
  show ?thesis
    using legs w nonneg bal ok
    by (auto simp: sweep_to_parent_def wp_simps pg_failed_def p0 Let_def split: option.split
        intro!: wp_post_mono [OF legs])
qed

theorem sweep_moves_to_parent_witness:
  "wp (sweep_to_parent (sample_env SQLite) ''w4'' None [])
     (\<lambda>r d'. swept_cents r = 20 \<and> balance_of ''w1'' d' = 520 \<and> balance_of ''w4'' d' = 0) (\<lambda>_ _. False) sample_db"
  by (rule wp_post_mono [OF sweep_moves_to_parent [OF sample_ledger_ok, where w = sample_child and p = "''w1''"]])
    (auto simp: sample_defs balance_of_def find_wallet_def has_wallet_def new_id_def unsettled_def)

section \<open>Earnings\<close>

lemma sum_where_cases:
  fixes g :: "'r \<Rightarrow> int"
  assumes "\<And>r. \<not> (p r \<and> q r)" and "\<And>r. p r \<or> q r \<Longrightarrow> k r"
  shows "sum_where k g rows = sum_where p g rows - sum_where q (\<lambda>r. - g r) rows + sum_where (\<lambda>r. k r \<and> \<not> p r \<and> \<not> q r) g rows"
proof (induction rows)
  case (Cons r rows)
  then show ?case using assms [of r] by auto
qed simp

text \<open>
  The breakdown accounts for every sub-wallet and every cent: it lists each child wallet of the
  parent exactly once, best earner first, and for each of them the balance shown is what it earned
  less what it spent plus its other entries, the deposits, refunds and corrections.
\<close>

theorem earnings_v2_accounts:
  assumes ok: "ledger_ok d"
  shows "wp (get_agent_earnings_breakdown_v2 e parent)
     (\<lambda>rs d'. d' = d\<lparr>tx_failed := False\<rparr> \<and>
        mset (map ce_wallet_id rs) = mset (map wallet_id (filter (\<lambda>w. parent_wallet_id w = Some parent) (wallets d))) \<and>
        sorted (map (\<lambda>r. - ce_total_earned_cents r) rs) \<and>
        (\<forall>r\<in>set rs. ce_current_balance_cents r = ce_total_earned_cents r - ce_total_spent_cents r +
           sum_where (\<lambda>t. tx_wallet_id t = ce_wallet_id r \<and> \<not> payout_of (ce_wallet_id r) t \<and> \<not> spend_of (ce_wallet_id r) t)
             amount_cents (transactions d)))
     (\<lambda>_ _. False) d"
proof -
  let ?ws = "filter (\<lambda>w. parent_wallet_id w = Some parent) (wallets d)"
  have id: "ce_wallet_id (earnings_of_child x w) = wallet_id w" for x w
    by (simp add: earnings_of_child_def Let_def)
  have bal: "ce_current_balance_cents r = ce_total_earned_cents r - ce_total_spent_cents r +
      sum_where (\<lambda>t. tx_wallet_id t = ce_wallet_id r \<and> \<not> payout_of (ce_wallet_id r) t \<and> \<not> spend_of (ce_wallet_id r) t)
        amount_cents (transactions d)"
    if r: "r = earnings_of_child d w" and w: "w \<in> set (wallets d)" for r w
  proof -
    have "sum_where (\<lambda>t. tx_wallet_id t = wallet_id w) amount_cents (transactions d) =
        sum_where (payout_of (wallet_id w)) amount_cents (transactions d) -
        sum_where (spend_of (wallet_id w)) (\<lambda>t. - amount_cents t) (transactions d) +
        sum_where (\<lambda>t. tx_wallet_id t = wallet_id w \<and> \<not> payout_of (wallet_id w) t \<and> \<not> spend_of (wallet_id w) t)
          amount_cents (transactions d)"
      by (rule sum_where_cases) (auto simp: payout_of_def spend_of_def)
    then show ?thesis using ledger_okD(5) [OF ok w]
      by (simp add: r earnings_of_child_def ledger_sum_def Let_def)
  qed
  have flag: "earnings_of_child (d\<lparr>tx_failed := False\<rparr>) = earnings_of_child d"
    by (intro ext) (simp add: earnings_of_child_def)
  have result: "wp (get_agent_earnings_breakdown_v2 e parent) Q E d =
      Q (sort_key (\<lambda>r. - ce_total_earned_cents r) (map (earnings_of_child d) (sort_key wallet_created_at ?ws)))
        (d\<lparr>tx_failed := False\<rparr>)" for Q E
    by (simp add: get_agent_earnings_breakdown_v2_def wp_transact wp_select pg_failed_def flag)
  show ?thesis unfolding result
  proof (intro conjI ballI refl)
    fix r assume "r \<in> set (sort_key (\<lambda>r. - ce_total_earned_cents r) (map (earnings_of_child d) (sort_key wallet_created_at ?ws)))"
    then obtain w where "r = earnings_of_child d w" "w \<in> set (wallets d)" by auto
    then show "ce_current_balance_cents r = ce_total_earned_cents r - ce_total_spent_cents r +
        sum_where (\<lambda>t. tx_wallet_id t = ce_wallet_id r \<and> \<not> payout_of (ce_wallet_id r) t \<and> \<not> spend_of (ce_wallet_id r) t)
          amount_cents (transactions d)" by (rule bal)
  qed (simp_all add: id comp_def multiset.map_comp del: map_map)
qed

lemma earnings_v2_accounts_witness:
  "wp (get_agent_earnings_breakdown_v2 (sample_env Postgres) ''w1'')
     (\<lambda>rs _. mset (map ce_wallet_id rs) = {#''w4''#}) (\<lambda>_ _. False) sample_db"
  by (rule wp_post_mono [OF earnings_v2_accounts [OF sample_ledger_ok]]) (simp_all add: sample_defs)

end
