(* ===== verification/Functional.thy ===== *)
theory Functional
  imports Prelude
begin

text \<open>
  \<open>core/functional.py\<close>: the \<open>Result\<close> type with its combinators, function pipelines and the validation
  helpers that return a \<open>Result\<close> in place of raising.
\<close>

section \<open>Results\<close>

datatype ('a, 'e) result = Ok 'a | Err 'e

fun result_map :: "('a \<Rightarrow> 'b) \<Rightarrow> ('a, 'e) result \<Rightarrow> ('b, 'e) result" where
  "result_map f (Ok x) = Ok (f x)"
| "result_map f (Err e) = Err e"

fun map_err :: "('e \<Rightarrow> 'f) \<Rightarrow> ('a, 'e) result \<Rightarrow> ('a, 'f) result" where
  "map_err f (Ok x) = Ok x"
| "map_err f (Err e) = Err (f e)"

fun and_then :: "('a, 'e) result \<Rightarrow> ('a \<Rightarrow> ('b, 'e) result) \<Rightarrow> ('b, 'e) result" where
  "and_then (Ok x) f = f x"
| "and_then (Err e) f = Err e"

fun unwrap :: "('a, string) result \<Rightarrow> exn + 'a" where
  "unwrap (Ok x) = Inr x"
| "unwrap (Err e) = Inl (ValueError (''Called unwrap() on Err: '' @ e))"

fun unwrap_or :: "('a, 'e) result \<Rightarrow> 'a \<Rightarrow> 'a" where
  "unwrap_or (Ok x) dflt = x"
| "unwrap_or (Err e) dflt = dflt"

fun raise_on_err :: "('a, string) result \<Rightarrow> exn + 'a" where
  "raise_on_err (Ok x) = Inr x"
| "raise_on_err (Err e) = Inl (ValueError e)"

fun result_bool :: "('a, 'e) result \<Rightarrow> bool" where
  "result_bool (Ok x) = True"
| "result_bool (Err e) = False"

fun_cases raise_on_errE: "raise_on_err r = Inr x"

section \<open>Pipelines\<close>

text \<open>
  A value that flows through a pipeline is a plain value or a result; \<open>is_err\<close> is the test
  \<open>isinstance(acc, Err)\<close>.
\<close>

fun pipe :: "('v \<Rightarrow> bool) \<Rightarrow> 'v \<Rightarrow> ('v \<Rightarrow> 'v) list \<Rightarrow> 'v" where
  "pipe is_err acc [] = acc"
| "pipe is_err acc (f # fs) = (if is_err acc then acc else pipe is_err (f acc) fs)"

definition compose_fns :: "('v \<Rightarrow> 'v) list \<Rightarrow> 'v \<Rightarrow> 'v" where
  "compose_fns fs v = fold (\<lambda>f acc. f acc) (rev fs) v"

definition pipeline :: "('v \<Rightarrow> bool) \<Rightarrow> ('v \<Rightarrow> 'v) list \<Rightarrow> 'v \<Rightarrow> 'v" where
  "pipeline is_err fs v = pipe is_err v fs"

section \<open>Validation\<close>

definition validate :: "'a \<Rightarrow> ('a \<Rightarrow> bool) \<Rightarrow> 'e \<Rightarrow> ('a, 'e) result" where
  "validate v p err = (if p v then Ok v else Err err)"

text \<open>A Python object as the integer checks see it: an \<open>int\<close>, a \<open>bool\<close>, or another type by its name.\<close>

datatype py_value = PyInt int | PyBool bool | PyOther string

fun type_name :: "py_value \<Rightarrow> string" where
  "type_name (PyInt _) = ''int''"
| "type_name (PyBool _) = ''bool''"
| "type_name (PyOther t) = t"

definition not_an_int :: "string \<Rightarrow> py_value \<Rightarrow> string" where
  "not_an_int field v = field @ '' must be an integer, got '' @ type_name v"

fun require_positive_int :: "py_value \<Rightarrow> string \<Rightarrow> (int, string) result" where
  "require_positive_int (PyInt n) field =
     (if n \<le> 0 then Err (field @ '' must be positive, got '' @ int_str n) else Ok n)"
| "require_positive_int v field = Err (not_an_int field v)"

fun require_non_negative_int :: "py_value \<Rightarrow> string \<Rightarrow> (int, string) result" where
  "require_non_negative_int (PyInt n) field =
     (if n < 0 then Err (field @ '' must be non-negative, got '' @ int_str n) else Ok n)"
| "require_non_negative_int v field = Err (not_an_int field v)"

text \<open>\<open>from_try\<close>: an exception of the caught class becomes its text, any other goes on.\<close>

definition from_try :: "(exn \<Rightarrow> bool) \<Rightarrow> (exn \<Rightarrow> string) \<Rightarrow> exn + 'a \<Rightarrow> exn + ('a, string) result" where
  "from_try caught text call =
     (case call of Inr x \<Rightarrow> Inr (Ok x) | Inl ex \<Rightarrow> if caught ex then Inr (Err (text ex)) else Inl ex)"

section \<open>Laws\<close>

lemma result_bool_iff: "result_bool r \<longleftrightarrow> (\<exists>x. r = Ok x)"
  by (cases r) auto

lemma and_then_assoc: "and_then (and_then r f) g = and_then r (\<lambda>x. and_then (f x) g)"
  by (cases r) auto

lemma and_then_Ok [simp]: "and_then r Ok = r"
  by (cases r) auto

lemma result_map_and_then: "result_map f r = and_then r (\<lambda>x. Ok (f x))"
  by (cases r) auto

lemma and_then_is_Ok: "and_then r f = Ok y \<longleftrightarrow> (\<exists>x. r = Ok x \<and> f x = Ok y)"
  by (cases r) auto

lemma validate_is_Ok [simp]: "validate v p err = Ok w \<longleftrightarrow> p v \<and> w = v"
  by (auto simp: validate_def)

lemma raise_on_err_is_Inr [simp]: "raise_on_err r = Inr x \<longleftrightarrow> r = Ok x"
  by (cases r) auto

lemma pipe_err: "is_err acc \<Longrightarrow> pipe is_err acc fs = acc"
  by (cases fs) auto

lemma pipe_append: "pipe is_err acc (fs @ gs) = pipe is_err (pipe is_err acc fs) gs"
  by (induction fs arbitrary: acc) (auto simp: pipe_err)

text \<open>
  The two ways of chaining agree: when no stage yields an error, \<open>pipeline\<close> and \<open>compose\<close> of the
  reversed list are the same function, and a pipeline stops at the first error, whatever follows.
\<close>

lemma pipeline_chains:
  "((\<forall>v. \<not> is_err v) \<longrightarrow> pipeline is_err fs v = compose_fns (rev fs) v) \<and>
   (is_err (pipeline is_err fs v) \<longrightarrow> pipeline is_err (fs @ gs) v = pipeline is_err fs v) \<and>
   (\<not> is_err (pipeline is_err fs v) \<longrightarrow> pipeline is_err (fs @ [g]) v = g (pipeline is_err fs v))"
proof -
  have "pipe is_err v fs = fold (\<lambda>f acc. f acc) fs v" if "\<forall>v. \<not> is_err v"
    using that by (induction fs arbitrary: v) auto
  then show ?thesis by (auto simp: pipeline_def compose_fns_def pipe_append pipe_err)
qed

lemma require_non_negative_sound: "require_non_negative_int v field = Ok n \<longleftrightarrow> v = PyInt n \<and> 0 \<le> n"
  by (cases v) auto

lemma require_positive_sound: "require_positive_int v field = Ok n \<longleftrightarrow> v = PyInt n \<and> 0 < n"
  by (cases v) auto

end
