(* ===== verification/Jobs.thy ===== *)
theory Jobs
  imports Functional Wallets "HOL-Library.List_Lexorder" "HOL-Library.Product_Lexorder" "HOL-Library.Multiset"
begin

text \<open>
  \<open>core/jobs/db.py\<close> and \<open>core/jobs/crud.py\<close>: the job statuses and the normalising helpers, the table
  with its constraints, the creation of a job and the queries over jobs. A time stamp column is a
  number, so \<open>_parse_ts\<close> and \<open>isoformat\<close> disappear; the JSON columns hold documents.
\<close>

section \<open>Statuses\<close>

fun status_text :: "job_status \<Rightarrow> string" where
  "status_text Pending = ''pending''"
| "status_text Running = ''running''"
| "status_text AwaitingClarification = ''awaiting_clarification''"
| "status_text Complete = ''complete''"
| "status_text Failed = ''failed''"
| "status_text Stopped = ''stopped''"
| "status_text Cancelled = ''cancelled''"

definition VALID_STATUSES :: "job_status list" where
  "VALID_STATUSES = [Pending, Running, AwaitingClarification, Complete, Failed, Stopped, Cancelled]"

definition parse_status :: "string \<Rightarrow> job_status option" where
  "parse_status s = find (\<lambda>x. status_text x = s) VALID_STATUSES"

definition TERMINAL_STATUSES :: "job_status set" where
  "TERMINAL_STATUSES = {Complete, Failed, Stopped}"

definition CLAIMABLE_STATUSES :: "job_status set" where
  "CLAIMABLE_STATUSES = {Pending, Running, AwaitingClarification}"

definition ACTIVE_LEASE_STATUSES :: "job_status set" where
  "ACTIVE_LEASE_STATUSES = {Running, AwaitingClarification}"

definition PARENT_CASCADE_POLICIES :: "string list" where
  "PARENT_CASCADE_POLICIES = [''detach'', ''fail_children_on_parent_fail'']"

definition CLARIFICATION_TIMEOUT_POLICIES :: "string list" where
  "CLARIFICATION_TIMEOUT_POLICIES = [''fail'', ''proceed'']"

definition FEE_BEARER_POLICIES :: "string list" where
  "FEE_BEARER_POLICIES = [''worker'', ''caller'', ''split'']"

definition OUTPUT_VERIFICATION_STATUSES :: "string list" where
  "OUTPUT_VERIFICATION_STATUSES =
     [''not_required'', ''armed'', ''pending'', ''accepted'', ''rejected'', ''expired'']"

lemma parse_status_text [simp]: "parse_status (status_text x) = Some x"
  by (cases x) (simp_all add: parse_status_def VALID_STATUSES_def)

section \<open>Normalisation\<close>

definition DEFAULT_LEASE_SECONDS :: int where "DEFAULT_LEASE_SECONDS = 300"

definition validate_lease_seconds :: "env \<Rightarrow> int \<Rightarrow> exn + int" where
  "validate_lease_seconds e n =
     (if n \<le> 0 then Inl (ValueError ''lease_seconds must be > 0'')
      else if MAX_LONG_LEASE_SECONDS e < n then Inl (ValueError ''lease_seconds must be <= MAX_LONG_LEASE_SECONDS'')
      else Inr n)"

definition to_non_negative_int :: "int option \<Rightarrow> int \<Rightarrow> int" where
  "to_non_negative_int v dflt = (case v of None \<Rightarrow> dflt | Some n \<Rightarrow> if n < 0 then dflt else n)"

definition clean_optional_text :: "string option \<Rightarrow> string option" where
  "clean_optional_text v = none_if_empty (py_strip (or_empty v))"

definition lowered :: "string option \<Rightarrow> string \<Rightarrow> string" where
  "lowered v dflt = or_text (py_lower (py_strip (or_empty v))) dflt"

definition normalize_parent_cascade_policy :: "string option \<Rightarrow> exn + string" where
  "normalize_parent_cascade_policy v =
     (let normalized = lowered v ''detach'' in
      if normalized \<in> set PARENT_CASCADE_POLICIES then Inr normalized
      else Inl (ValueError ''parent_cascade_policy must be one of: detach, fail_children_on_parent_fail.''))"

definition normalize_clarification_timeout_policy :: "string option \<Rightarrow> exn + string" where
  "normalize_clarification_timeout_policy v =
     (let normalized = lowered v ''fail'' in
      if normalized \<in> set CLARIFICATION_TIMEOUT_POLICIES then Inr normalized
      else Inl (ValueError ''clarification_timeout_policy must be one of: fail, proceed.''))"

definition normalize_output_verification_status :: "string option \<Rightarrow> string" where
  "normalize_output_verification_status v =
     (let normalized = lowered v ''not_required'' in
      if normalized \<in> set OUTPUT_VERIFICATION_STATUSES then normalized else ''not_required'')"

definition jobs_normalize_fee_bearer_policy :: "string option \<Rightarrow> string" where
  "jobs_normalize_fee_bearer_policy v =
     (let normalized = lowered v ''caller'' in
      if normalized \<in> set FEE_BEARER_POLICIES then normalized else ''caller'')"

section \<open>The table\<close>

definition job_check :: "job \<Rightarrow> bool" where
  "job_check j \<longleftrightarrow> 0 \<le> price_cents j \<and> 0 \<le> caller_charge_cents j \<and>
     0 \<le> platform_fee_pct_at_create j \<and> platform_fee_pct_at_create j \<le> 100 \<and> 0 \<le> attempt_count j \<and>
     1 \<le> max_attempts j \<and> 0 \<le> tree_depth j \<and> 0 \<le> retry_count j \<and> 0 \<le> timeout_count j \<and>
     0 \<le> clarification_timeout_seconds j \<and> 1 \<le> dispute_window_hours j \<and>
     0 \<le> output_verification_window_seconds j"

definition job_insertable :: "job \<Rightarrow> db \<Rightarrow> bool" where
  "job_insertable j d \<longleftrightarrow> job_check j \<and> \<not> exists_row (\<lambda>i. job_id i = job_id j) (jobs d)"

abbreviation update_jobs :: "env \<Rightarrow> (job \<Rightarrow> bool) \<Rightarrow> (job \<Rightarrow> job) \<Rightarrow> (db, nat) prog" where
  "update_jobs e \<equiv> update_stmt e jobs (\<lambda>js d. d\<lparr>jobs := js\<rparr>) job_check"

abbreviation insert_job :: "env \<Rightarrow> job \<Rightarrow> (db, unit) prog" where
  "insert_job e \<equiv> insert_stmt e jobs (\<lambda>js d. d\<lparr>jobs := js\<rparr>) job_insertable"

definition find_job :: "string \<Rightarrow> db \<Rightarrow> job option" where
  "find_job job d = find (\<lambda>j. job_id j = job) (jobs d)"

definition get_job :: "env \<Rightarrow> string \<Rightarrow> (db, job option) prog" where
  "get_job e job = transact (select e (find_job job))"

section \<open>Creation\<close>

definition MAX_CALLER_CHARGE_BUFFER_CENTS :: int where "MAX_CALLER_CHARGE_BUFFER_CENTS = 1000"
definition DEFAULT_CLAIM_DEADLINE_SECONDS :: int where "DEFAULT_CLAIM_DEADLINE_SECONDS = 1800"
definition DEFAULT_PLATFORM_FEE_PCT :: int where "DEFAULT_PLATFORM_FEE_PCT = 10"

text \<open>The argument is the setting \<open>AZTEA_JOB_CLAIM_DEADLINE_SECONDS\<close>.\<close>

definition compute_claim_deadline :: "string option \<Rightarrow> int \<Rightarrow> int" where
  "compute_claim_deadline raw now_us =
     now_us + micros_per_second *
       (case raw of
          None \<Rightarrow> DEFAULT_CLAIM_DEADLINE_SECONDS
        | Some s \<Rightarrow> if s = [] then DEFAULT_CLAIM_DEADLINE_SECONDS
            else case py_int s of None \<Rightarrow> DEFAULT_CLAIM_DEADLINE_SECONDS | Some n \<Rightarrow> max 60 n)"

definition ALLOWED_JOB_ORIGINS :: "string list" where
  "ALLOWED_JOB_ORIGINS = [''direct'', ''auto_hire'', ''pipeline'', ''compare'', ''recipe'', ''watcher'']"

definition validate_origin :: "string option \<Rightarrow> exn + string option" where
  "validate_origin v =
     (case v of None \<Rightarrow> Inr None
      | Some o1 \<Rightarrow> if o1 \<in> set ALLOWED_JOB_ORIGINS then Inr (Some o1) else Inl (ValueError ''invalid job origin''))"

definition price_check :: "int \<Rightarrow> int \<Rightarrow> (int, string) result" where
  "price_check price charged =
     and_then (and_then (and_then
       (validate price (\<lambda>p. 0 \<le> p) ''price_cents must be non-negative.'')
       (\<lambda>p. validate p (\<lambda>x. \<not> (charged \<le> 0 \<and> 0 < x))
          ''invalid_charge_amount: caller_charge_cents must be positive when price is non-zero.''))
       (\<lambda>p. validate p (\<lambda>x. x \<le> charged) ''caller_charge_cents must be >= price_cents.''))
       (\<lambda>p. validate p (\<lambda>x. charged \<le> max (x * 2) (x + MAX_CALLER_CHARGE_BUFFER_CENTS))
          ''charge_exceeds_listed_price: caller_charge_cents must not exceed 2x price_cents.'')"

definition validate_create_job_pricing :: "int \<Rightarrow> int \<Rightarrow> exn + unit" where
  "validate_create_job_pricing price charged =
     (case raise_on_err (price_check price charged) of Inl ex \<Rightarrow> Inl ex | Inr _ \<Rightarrow> Inr ())"

text \<open>The parameters of \<open>create_job\<close>.\<close>

record job_request =
  rq_agent_id :: string
  rq_caller_owner_id :: string
  rq_caller_wallet_id :: string
  rq_agent_wallet_id :: string
  rq_platform_wallet_id :: string
  rq_price_cents :: int
  rq_charge_tx_id :: string
  rq_input_payload :: json
  rq_caller_charge_cents :: "int option"
  rq_platform_fee_pct :: int
  rq_fee_bearer_policy :: string
  rq_client_id :: "string option"
  rq_agent_owner_id :: "string option"
  rq_max_attempts :: int
  rq_parent_job_id :: "string option"
  rq_tree_depth :: int
  rq_parent_cascade_policy :: string
  rq_clarification_timeout_seconds :: "int option"
  rq_clarification_timeout_policy :: string
  rq_dispute_window_hours :: int
  rq_judge_agent_id :: "string option"
  rq_callback_url :: "string option"
  rq_callback_secret :: "string option"
  rq_output_verification_window_seconds :: "int option"
  rq_batch_id :: "string option"
  rq_origin :: "string option"
  rq_budget_cents :: "int option"

record job_inputs =
  in_caller_charge_cents :: int
  in_platform_fee_pct :: int
  in_fee_bearer_policy :: string
  in_max_attempts :: int
  in_tree_depth :: int
  in_parent_cascade_policy :: string
  in_clarification_timeout_seconds :: int
  in_clarification_timeout_policy :: string
  in_dispute_window_hours :: int
  in_output_verification_window_seconds :: int
  in_owner_id :: string

definition sum_bind :: "exn + 'a \<Rightarrow> ('a \<Rightarrow> exn + 'b) \<Rightarrow> exn + 'b" where
  "sum_bind m f = (case m of Inl ex \<Rightarrow> Inl ex | Inr x \<Rightarrow> f x)"

definition guard_sum :: "bool \<Rightarrow> string \<Rightarrow> exn + unit" where
  "guard_sum bad msg = (if bad then Inl (ValueError msg) else Inr ())"

text \<open>\<open>(agent_owner_id or f"agent:{agent_id}").strip()\<close>.\<close>

definition effective_owner :: "string option \<Rightarrow> string \<Rightarrow> string" where
  "effective_owner owner agent = py_strip (or_text (or_empty owner) (''agent:'' @ agent))"

definition normalize_create_job_inputs :: "job_request \<Rightarrow> exn + job_inputs" where
  "normalize_create_job_inputs r =
     (let charged = to_non_negative_int (rq_caller_charge_cents r) (rq_price_cents r);
          pct = to_non_negative_int (Some (rq_platform_fee_pct r)) DEFAULT_PLATFORM_FEE_PCT;
          attempts = to_non_negative_int (Some (rq_max_attempts r)) 0;
          window = to_non_negative_int (Some (rq_dispute_window_hours r)) 0;
          owner = effective_owner (rq_agent_owner_id r) (rq_agent_id r) in
      sum_bind (validate_create_job_pricing (rq_price_cents r) charged) (\<lambda>_.
      sum_bind (guard_sum (100 < pct) ''platform_fee_pct_at_create must be <= 100.'') (\<lambda>_.
      sum_bind (guard_sum (attempts < 1) ''max_attempts must be >= 1.'') (\<lambda>_.
      sum_bind (guard_sum (window < 1) ''dispute_window_hours must be >= 1.'') (\<lambda>_.
      sum_bind (guard_sum (owner = []) ''agent_owner_id must be a non-empty string.'') (\<lambda>_.
      sum_bind (normalize_parent_cascade_policy (Some (rq_parent_cascade_policy r))) (\<lambda>cascade.
      sum_bind (normalize_clarification_timeout_policy (Some (rq_clarification_timeout_policy r))) (\<lambda>clar.
      Inr \<lparr>in_caller_charge_cents = charged, in_platform_fee_pct = pct,
           in_fee_bearer_policy = jobs_normalize_fee_bearer_policy (Some (rq_fee_bearer_policy r)),
           in_max_attempts = attempts, in_tree_depth = to_non_negative_int (Some (rq_tree_depth r)) 0,
           in_parent_cascade_policy = cascade,
           in_clarification_timeout_seconds = to_non_negative_int (rq_clarification_timeout_seconds r) 0,
           in_clarification_timeout_policy = clar, in_dispute_window_hours = window,
           in_output_verification_window_seconds = to_non_negative_int (rq_output_verification_window_seconds r) 0,
           in_owner_id = owner\<rparr>))))))))"

text \<open>The inserted row: the columns the statement names, the others with their defaults.\<close>

definition new_job :: "env \<Rightarrow> job_request \<Rightarrow> job_inputs \<Rightarrow> string option \<Rightarrow> job" where
  "new_job e r n org =
     \<lparr>job_id = uuid e 0, agent_id = rq_agent_id r, agent_owner_id = in_owner_id n,
      caller_owner_id = rq_caller_owner_id r, caller_wallet_id = rq_caller_wallet_id r,
      agent_wallet_id = rq_agent_wallet_id r, platform_wallet_id = rq_platform_wallet_id r,
      job_state = Pending, price_cents = rq_price_cents r, caller_charge_cents = in_caller_charge_cents n,
      platform_fee_pct_at_create = in_platform_fee_pct n, fee_bearer_policy = in_fee_bearer_policy n,
      client_id = clean_optional_text (rq_client_id r), charge_tx_id = rq_charge_tx_id r,
      input_payload = rq_input_payload r, output_payload = None, error_message = None,
      created_at = now e, updated_at = now e, completed_at = None, settled_at = None,
      claim_owner_id = None, claim_token = None, claimed_at = None, lease_expires_at = None,
      last_heartbeat_at = None, attempt_count = 0, max_attempts = in_max_attempts n,
      parent_job_id = clean_optional_text (rq_parent_job_id r), tree_depth = in_tree_depth n,
      parent_cascade_policy = in_parent_cascade_policy n, retry_count = 0, next_retry_at = None,
      last_retry_at = None, timeout_count = 0, last_timeout_at = None,
      clarification_timeout_seconds = in_clarification_timeout_seconds n,
      clarification_timeout_policy = in_clarification_timeout_policy n,
      clarification_requested_at = None, clarification_deadline_at = None,
      dispute_window_hours = in_dispute_window_hours n, job_dispute_outcome = None,
      judge_agent_id = clean_optional_text (rq_judge_agent_id r), judge_verdict = None, quality_score = None,
      callback_url = clean_optional_text (rq_callback_url r),
      callback_secret = clean_optional_text (rq_callback_secret r),
      output_verification_window_seconds = in_output_verification_window_seconds n,
      output_verification_status =
        (if 0 < in_output_verification_window_seconds n then ''armed'' else ''not_required''),
      output_verification_deadline_at = None, output_verification_decided_at = None,
      output_verification_decision_owner_id = None, output_verification_reason = None,
      batch_id = clean_optional_text (rq_batch_id r), origin = org, output_signature = None,
      output_signature_alg = None, output_signed_by_did = None, output_signed_at = None,
      per_job_cap_cents = None, claim_deadline_at = None, budget_cents = None, stop_when_json = None,
      partials_count = 0, billing_unit = None, steer_count = 0, stop_reason_json = None,
      terminal_at = None, terminal_message_id = None\<rparr>"

definition create_job :: "env \<Rightarrow> string option \<Rightarrow> job_request \<Rightarrow> (db, job option) prog" where
  "create_job e deadline_setting r =
     (case validate_origin (rq_origin r) of
        Inl ex \<Rightarrow> throw ex
      | Inr org \<Rightarrow>
          case normalize_create_job_inputs r of
            Inl ex \<Rightarrow> throw ex
          | Inr n \<Rightarrow>
              bindE (transact
                (bindE (insert_job e (new_job e r n org)) (\<lambda>_.
                 bindE (update_jobs e (\<lambda>j. job_id j = uuid e 0)
                          (\<lambda>j. j\<lparr>claim_deadline_at := Some (compute_claim_deadline deadline_setting (now e))\<rparr>)) (\<lambda>_.
                 case rq_budget_cents r of
                   None \<Rightarrow> ret ()
                 | Some b \<Rightarrow>
                     bindE (update_jobs e (\<lambda>j. job_id j = uuid e 0) (\<lambda>j. j\<lparr>budget_cents := Some b\<rparr>))
                       (\<lambda>_. ret ()))))) (\<lambda>_.
              get_job e (uuid e 0)))"

section \<open>Queries\<close>

definition job_cursor :: "job \<Rightarrow> int \<times> string" where
  "job_cursor j = (created_at j, job_id j)"

definition oldest_first :: "job list \<Rightarrow> job list" where
  "oldest_first js = sort_key job_cursor js"

definition newest_first :: "job list \<Rightarrow> job list" where
  "newest_first js = rev (sort_key job_cursor js)"

definition clamp_limit :: "int \<Rightarrow> int \<Rightarrow> nat" where
  "clamp_limit limit cap = nat (min (max 1 limit) cap)"

definition list_jobs_for_batch :: "env \<Rightarrow> string option \<Rightarrow> string option \<Rightarrow> (db, job list) prog" where
  "list_jobs_for_batch e batch owner =
     (case (clean_optional_text batch, clean_optional_text owner) of
        (Some b, Some w) \<Rightarrow>
          transact (select e (\<lambda>d. oldest_first (filter (\<lambda>j. batch_id j = Some b \<and> caller_owner_id j = w) (jobs d))))
      | _ \<Rightarrow> ret [])"

text \<open>Unknown statuses are dropped from the filter; an empty filter is no filter.\<close>

definition wanted_statuses :: "string list option \<Rightarrow> job_status list" where
  "wanted_statuses statuses = List.map_filter parse_status (case statuses of None \<Rightarrow> [] | Some ss \<Rightarrow> ss)"

definition list_child_jobs :: "env \<Rightarrow> string option \<Rightarrow> string list option \<Rightarrow> int \<Rightarrow> (db, job list) prog" where
  "list_child_jobs e parent statuses limit =
     (case clean_optional_text parent of
        None \<Rightarrow> ret []
      | Some p \<Rightarrow>
          transact (select e (\<lambda>d. take (clamp_limit limit 500) (oldest_first
            (filter (\<lambda>j. parent_job_id j = Some p \<and>
               (wanted_statuses statuses = [] \<or> job_state j \<in> set (wanted_statuses statuses))) (jobs d))))))"

record authorization_context =
  ctx_job_id :: string
  ctx_agent_id :: string
  ctx_agent_owner_id :: string
  ctx_caller_owner_id :: string
  ctx_claim_owner_id :: "string option"

definition get_job_authorization_context :: "env \<Rightarrow> string \<Rightarrow> (db, authorization_context option) prog" where
  "get_job_authorization_context e job =
     bindE (get_job e job) (\<lambda>row. ret (map_option (\<lambda>j.
       \<lparr>ctx_job_id = job_id j, ctx_agent_id = agent_id j, ctx_agent_owner_id = agent_owner_id j,
        ctx_caller_owner_id = caller_owner_id j, ctx_claim_owner_id = claim_owner_id j\<rparr>) row))"

definition is_worker_authorized :: "job \<Rightarrow> string \<Rightarrow> bool" where
  "is_worker_authorized j worker \<longleftrightarrow>
     py_strip (agent_owner_id j) \<noteq> [] \<and> py_strip worker = py_strip (agent_owner_id j)"

definition is_worker_authorized_for_job :: "env \<Rightarrow> string \<Rightarrow> string \<Rightarrow> (db, bool) prog" where
  "is_worker_authorized_for_job e job worker =
     bindE (get_job e job) (\<lambda>row. ret (case row of None \<Rightarrow> False | Some j \<Rightarrow> is_worker_authorized j worker))"

text \<open>
  The keyset condition \<open>created_at < t OR (created_at = t AND job_id < j)\<close>. Without a job identifier
  the cursor is U+FFFF, after every identifier.
\<close>

definition before_cursor :: "int option \<Rightarrow> string option \<Rightarrow> job \<Rightarrow> bool" where
  "before_cursor before_created before_job j \<longleftrightarrow>
     (case before_created of
        None \<Rightarrow> True
      | Some t \<Rightarrow> created_at j < t \<or> (created_at j = t \<and>
          (or_empty before_job = [] \<or> job_id j < or_empty before_job)))"

definition status_filter :: "string option \<Rightarrow> job \<Rightarrow> bool" where
  "status_filter status j \<longleftrightarrow> or_empty status = [] \<or> status_text (job_state j) = or_empty status"

definition jobs_page ::
  "(job \<Rightarrow> bool) \<Rightarrow> int \<Rightarrow> string option \<Rightarrow> int option \<Rightarrow> string option \<Rightarrow> db \<Rightarrow> job list" where
  "jobs_page p limit status before_created before_job d =
     take (clamp_limit limit 200) (newest_first
       (filter (\<lambda>j. p j \<and> status_filter status j \<and> before_cursor before_created before_job j) (jobs d)))"

definition list_jobs_for_owner ::
  "env \<Rightarrow> string \<Rightarrow> int \<Rightarrow> string option \<Rightarrow> int option \<Rightarrow> string option \<Rightarrow> (db, job list) prog" where
  "list_jobs_for_owner e owner limit status before_created before_job =
     transact (select e (jobs_page (\<lambda>j. caller_owner_id j = owner) limit status before_created before_job))"

definition list_jobs_for_agent ::
  "env \<Rightarrow> string \<Rightarrow> int \<Rightarrow> string option \<Rightarrow> int option \<Rightarrow> string option \<Rightarrow> (db, job list) prog" where
  "list_jobs_for_agent e agent limit status before_created before_job =
     transact (select e (jobs_page (\<lambda>j. agent_id j = agent) limit status before_created before_job))"

definition pending_for :: "string list option \<Rightarrow> job \<Rightarrow> bool" where
  "pending_for agents j \<longleftrightarrow> job_state j = Pending \<and>
     (let ids = filter (\<lambda>a. a \<noteq> []) (case agents of None \<Rightarrow> [] | Some as \<Rightarrow> as)
      in ids = [] \<or> agent_id j \<in> set ids)"

definition list_pending_jobs :: "env \<Rightarrow> int \<Rightarrow> string list option \<Rightarrow> (db, job list) prog" where
  "list_pending_jobs e limit agents =
     transact (select e (\<lambda>d. take (clamp_limit limit 5000) (oldest_first (filter (pending_for agents) (jobs d)))))"

definition count_pending_jobs :: "env \<Rightarrow> string list option \<Rightarrow> (db, nat) prog" where
  "count_pending_jobs e agents = transact (select e (\<lambda>d. count_where (pending_for agents) (jobs d)))"

definition list_jobs_for_agent_in_states ::
  "env \<Rightarrow> string \<Rightarrow> string list \<Rightarrow> int \<Rightarrow> (db, job list) prog" where
  "list_jobs_for_agent_in_states e agent states limit =
     (if states = [] then ret []
      else transact (select e (\<lambda>d. take (clamp_limit limit 1000) (newest_first
        (filter (\<lambda>j. agent_id j = agent \<and> status_text (job_state j) \<in> set states) (jobs d))))))"

section \<open>What is created\<close>

lemma clean_None [simp]: "clean_optional_text None = None"
  by (simp add: clean_optional_text_def or_empty_def py_strip_def)

lemma lowered_strip: "lowered v dflt = or_text (py_lower (py_strip (or_empty v))) dflt"
  by (simp add: lowered_def)

lemma sum_bind_Inr: "sum_bind m f = Inr y \<longleftrightarrow> (\<exists>x. m = Inr x \<and> f x = Inr y)"
  by (auto simp: sum_bind_def split: sum.splits)

lemma sum_bind_Inl: "sum_bind m f = Inl ex \<longleftrightarrow> m = Inl ex \<or> (\<exists>x. m = Inr x \<and> f x = Inl ex)"
  by (auto simp: sum_bind_def split: sum.splits)

lemma guard_sum_simps: "guard_sum b m = Inr u \<longleftrightarrow> \<not> b" "guard_sum b m = Inl ex \<longleftrightarrow> b \<and> ex = ValueError m"
  by (auto simp: guard_sum_def)

lemma to_non_negative_ge: "0 \<le> dflt \<Longrightarrow> 0 \<le> to_non_negative_int v dflt"
  by (auto simp: to_non_negative_int_def split: option.split)

lemma price_check_iff:
  "price_check p c = Ok q \<longleftrightarrow> q = p \<and> 0 \<le> p \<and> p \<le> c \<and> c \<le> max (p * 2) (p + MAX_CALLER_CHARGE_BUFFER_CENTS)"
  unfolding price_check_def and_then_is_Ok validate_is_Ok by auto

lemma validate_pricing_Inr: "validate_create_job_pricing p c = Inr u \<longleftrightarrow> (\<exists>q. price_check p c = Ok q)"
  by (cases "price_check p c") (auto simp: validate_create_job_pricing_def)

lemma normalized_inputs:
  assumes "normalize_create_job_inputs r = Inr n"
  shows "0 \<le> rq_price_cents r \<and> rq_price_cents r \<le> in_caller_charge_cents n \<and>
     in_caller_charge_cents n \<le> max (rq_price_cents r * 2) (rq_price_cents r + MAX_CALLER_CHARGE_BUFFER_CENTS) \<and>
     0 \<le> in_platform_fee_pct n \<and> in_platform_fee_pct n \<le> 100 \<and> 1 \<le> in_max_attempts n \<and> 0 \<le> in_tree_depth n \<and>
     0 \<le> in_clarification_timeout_seconds n \<and> 1 \<le> in_dispute_window_hours n \<and>
     0 \<le> in_output_verification_window_seconds n \<and> in_owner_id n \<noteq> [] \<and>
     in_fee_bearer_policy n \<in> set FEE_BEARER_POLICIES"
  using assms
  by (auto simp: normalize_create_job_inputs_def Let_def sum_bind_Inr guard_sum_simps validate_pricing_Inr price_check_iff
      to_non_negative_ge DEFAULT_PLATFORM_FEE_PCT_def jobs_normalize_fee_bearer_policy_def FEE_BEARER_POLICIES_def)

lemma new_job_check: "normalize_create_job_inputs r = Inr n \<Longrightarrow> job_check (new_job e r n org)"
  using normalized_inputs [of r n] by (auto simp: job_check_def new_job_def)

text \<open>
  Creating a job writes one well-formed row. Every request is refused with a \<open>ValueError\<close> and no
  change, or stored: the new row is pending, unclaimed and unsettled, its charge lies between the
  price and the cap, it satisfies every constraint of the schema, its claim deadline is at least a
  minute away and the other jobs, the wallets and the ledger stay as they were.
\<close>

theorem create_job_stores_checked_row:
  assumes "\<forall>i\<in>set (jobs d). job_id i \<noteq> uuid e 0"
  shows "wp (create_job e setting r)
     (\<lambda>res d'. \<exists>j. res = Some j \<and> jobs d' = jobs d @ [j] \<and> job_check j \<and> job_id j = uuid e 0 \<and>
        job_state j = Pending \<and> claim_owner_id j = None \<and> completed_at j = None \<and> settled_at j = None \<and>
        attempt_count j = 0 \<and> price_cents j \<le> caller_charge_cents j \<and>
        caller_charge_cents j \<le> max (price_cents j * 2) (price_cents j + MAX_CALLER_CHARGE_BUFFER_CENTS) \<and>
        (\<exists>t. claim_deadline_at j = Some t \<and> now e + 60 * micros_per_second \<le> t) \<and>
        budget_cents j = rq_budget_cents r \<and> wallets d' = wallets d \<and> transactions d' = transactions d)
     (\<lambda>ex d'. is_value_error ex \<and> jobs d' = jobs d \<and> wallets d' = wallets d \<and> transactions d' = transactions d) d"
proof (cases "validate_origin (rq_origin r)")
  case (Inl ex)
  then have "is_value_error ex" by (auto simp: validate_origin_def split: option.splits if_splits)
  with Inl show ?thesis by (simp add: create_job_def wp_simps)
next
  case (Inr org)
  show ?thesis
  proof (cases "normalize_create_job_inputs r")
    case (Inl ex)
    then have "is_value_error ex"
      by (auto simp: normalize_create_job_inputs_def Let_def sum_bind_Inl guard_sum_simps validate_create_job_pricing_def
          normalize_parent_cascade_policy_def normalize_clarification_timeout_policy_def split: if_splits sum.splits
          elim: raise_on_err.elims)
    with Inl Inr show ?thesis by (simp add: create_job_def wp_simps)
  next
    case n: (Inr n)
    let ?j = "(new_job e r n org)\<lparr>claim_deadline_at := Some (compute_claim_deadline setting (now e)), budget_cents := rq_budget_cents r\<rparr>"
    have deadline: "now e + 60 * micros_per_second \<le> compute_claim_deadline setting (now e)"
      by (auto simp: compute_claim_deadline_def micros_per_second_def DEFAULT_CLAIM_DEADLINE_SECONDS_def split: option.split)
    have check: "job_check (new_job e r n org)" using n by (rule new_job_check)
    have row: "job_id (new_job e r n org) = uuid e 0" by (simp add: new_job_def)
    have other: "update_rows (\<lambda>j. job_id j = uuid e 0) f (jobs d) = jobs d" for f
      using assms by (intro update_rows_none) auto
    have find: "find (\<lambda>j. job_id j = uuid e 0) (jobs d) = None"
      using assms by (auto simp: find_None_iff)
    have checks: "job_check ((new_job e r n org)\<lparr>claim_deadline_at := t, budget_cents := b\<rparr>)"
      "job_check ((new_job e r n org)\<lparr>claim_deadline_at := t\<rparr>)" for t b
      using check by (simp_all add: job_check_def)
    have no_budget: "(new_job e r n org)\<lparr>claim_deadline_at := t, budget_cents := None\<rparr> =
        (new_job e r n org)\<lparr>claim_deadline_at := t\<rparr>" for t
      by (simp add: new_job_def)
    have run: "wp (create_job e setting r) Q E d =
        Q (Some ?j) (d\<lparr>jobs := jobs d @ [?j], tx_failed := False\<rparr>)" for Q E
      using Inr n row check checks other find assms
      by (cases "rq_budget_cents r")
        (auto simp: create_job_def wp_simps pg_failed_def job_insertable_def exists_row_iff get_job_def find_job_def
          find_append no_budget)
    show ?thesis unfolding run
      using normalized_inputs [OF n] deadline checks by (auto simp: new_job_def job_check_def)
  qed
qed

definition sample_request :: job_request where
  "sample_request =
     \<lparr>rq_agent_id = ''agent'', rq_caller_owner_id = ''user:alice'', rq_caller_wallet_id = ''w1'',
      rq_agent_wallet_id = ''w2'', rq_platform_wallet_id = ''w3'', rq_price_cents = 100, rq_charge_tx_id = ''c1'',
      rq_input_payload = JObj [], rq_caller_charge_cents = Some 110, rq_platform_fee_pct = 10,
      rq_fee_bearer_policy = ''caller'', rq_client_id = None, rq_agent_owner_id = Some ''agent:bob'',
      rq_max_attempts = 3, rq_parent_job_id = None, rq_tree_depth = 0, rq_parent_cascade_policy = ''detach'',
      rq_clarification_timeout_seconds = None, rq_clarification_timeout_policy = ''fail'',
      rq_dispute_window_hours = 72, rq_judge_agent_id = None, rq_callback_url = None, rq_callback_secret = None,
      rq_output_verification_window_seconds = None, rq_batch_id = None, rq_origin = Some ''direct'',
      rq_budget_cents = Some 500\<rparr>"

lemma create_job_stores_checked_row_witness:
  "wp (create_job (sample_env SQLite) None sample_request)
     (\<lambda>res d'. \<exists>j. res = Some j \<and> jobs d' = [j] \<and> job_state j = Pending \<and> budget_cents j = Some 500)
     (\<lambda>ex d'. is_value_error ex \<and> jobs d' = []) sample_db"
  by (rule wp_post_mono [OF create_job_stores_checked_row]) (auto simp: sample_db_def sample_request_def)

section \<open>Pagination\<close>

lemma job_cursor_less: "job_cursor i < job_cursor j \<longleftrightarrow> created_at i < created_at j \<or> (created_at i = created_at j \<and> job_id i < job_id j)"
  by (auto simp: job_cursor_def less_prod_def)

lemma before_cursor_less:
  "job_id j \<noteq> [] \<Longrightarrow> before_cursor (Some (created_at j)) (Some (job_id j)) i \<longleftrightarrow> job_cursor i < job_cursor j"
  by (auto simp: before_cursor_def job_cursor_less or_empty_def)

lemma newest_first_filter: "filter q (newest_first js) = newest_first (filter q js)"
  by (simp add: newest_first_def filter_sort rev_filter [symmetric])

lemma newest_first_strict:
  assumes "distinct (map job_id js)"
  shows "sorted_wrt (\<lambda>i j. job_cursor j < job_cursor i) (newest_first js)"
proof -
  have "inj_on job_cursor (set js)" using assms by (auto simp: inj_on_def distinct_map job_cursor_def)
  then have "distinct (map job_cursor (sort_key job_cursor js))"
    using assms by (auto simp: distinct_map)
  then have "sorted_wrt (<) (map job_cursor (sort_key job_cursor js))"
    by (simp add: strict_sorted_iff)
  then show ?thesis by (simp add: newest_first_def sorted_wrt_rev sorted_wrt_map)
qed

lemma filter_after:
  assumes "sorted_wrt (\<lambda>i j. job_cursor j < job_cursor i) xs" and "m < length xs"
  shows "filter (\<lambda>i. job_cursor i < job_cursor (xs ! m)) xs = drop (Suc m) xs"
proof -
  have "filter (\<lambda>i. job_cursor i < job_cursor (xs ! m)) (take (Suc m) xs) = []"
  proof (unfold filter_empty_conv, intro ballI)
    fix i assume "i \<in> set (take (Suc m) xs)"
    then obtain k where k: "k < Suc m" "k < length xs" "i = xs ! k" by (auto simp: in_set_conv_nth)
    then show "\<not> job_cursor i < job_cursor (xs ! m)"
      using assms sorted_wrt_nth_less [OF assms(1), of k m] by (cases "k = m") auto
  qed
  moreover have "filter (\<lambda>i. job_cursor i < job_cursor (xs ! m)) (drop (Suc m) xs) = drop (Suc m) xs"
  proof (rule filter_True, intro ballI)
    fix i assume "i \<in> set (drop (Suc m) xs)"
    then obtain k where "k < length xs - Suc m" "i = xs ! (Suc m + k)" by (auto simp: in_set_conv_nth)
    then show "job_cursor i < job_cursor (xs ! m)"
      using sorted_wrt_nth_less [OF assms(1), of m "Suc m + k"] by auto
  qed
  ultimately show ?thesis
    by (metis append_take_drop_id filter_append self_append_conv2)
qed

text \<open>All jobs of a listing, newest first, and a client that follows the cursor of the last row it got.\<close>

definition full_listing :: "(job \<Rightarrow> bool) \<Rightarrow> string option \<Rightarrow> db \<Rightarrow> job list" where
  "full_listing p status d = newest_first (filter (\<lambda>j. p j \<and> status_filter status j) (jobs d))"

fun follow_pages ::
  "nat \<Rightarrow> (job \<Rightarrow> bool) \<Rightarrow> int \<Rightarrow> string option \<Rightarrow> int option \<Rightarrow> string option \<Rightarrow> db \<Rightarrow> job list" where
  "follow_pages 0 p limit status created job d = []"
| "follow_pages (Suc n) p limit status created job d =
     (case jobs_page p limit status created job d of
        [] \<Rightarrow> []
      | j # js \<Rightarrow> (j # js) @ follow_pages n p limit status (Some (created_at (last (j # js))))
                    (Some (job_id (last (j # js)))) d)"

lemma first_page: "jobs_page p limit status None None d = take (clamp_limit limit 200) (full_listing p status d)"
  by (simp add: jobs_page_def full_listing_def before_cursor_def)

lemma next_page:
  assumes "distinct (map job_id (jobs d))" and "\<forall>j\<in>set (jobs d). job_id j \<noteq> []" and m: "m < length (full_listing p status d)"
  defines "j \<equiv> full_listing p status d ! m"
  shows "jobs_page p limit status (Some (created_at j)) (Some (job_id j)) d =
     take (clamp_limit limit 200) (drop (Suc m) (full_listing p status d))"
proof -
  let ?L = "full_listing p status d"
  have "j \<in> set ?L" unfolding j_def using m by (rule nth_mem)
  then have "j \<in> set (jobs d)" by (auto simp: full_listing_def newest_first_def)
  then have "job_id j \<noteq> []" using assms(2) by blast
  then have "filter (before_cursor (Some (created_at j)) (Some (job_id j))) ?L = filter (\<lambda>i. job_cursor i < job_cursor j) ?L"
    by (simp add: before_cursor_less cong: filter_cong)
  also have "\<dots> = drop (Suc m) ?L"
    unfolding j_def using m assms(1)
    by (intro filter_after) (auto simp: full_listing_def intro!: newest_first_strict distinct_map_filter)
  finally have "filter (before_cursor (Some (created_at j)) (Some (job_id j))) ?L = drop (Suc m) ?L" .
  then show ?thesis
    by (simp add: jobs_page_def full_listing_def newest_first_filter conj_assoc flip: filter_filter)
qed

text \<open>
  C25. Pagination loses and repeats nothing. A client that starts without a cursor and passes the last
  row of each page as the next cursor gets, page by page, the whole listing in order, newest first,
  every job exactly once, whatever the page size.
\<close>

theorem follow_pages_lists_all:
  assumes ids: "distinct (map job_id (jobs d))" "\<forall>j\<in>set (jobs d). job_id j \<noteq> []"
    and fuel: "length (full_listing p status d) \<le> n"
  shows "follow_pages n p limit status None None d = full_listing p status d \<and>
     mset (full_listing p status d) = mset (filter (\<lambda>j. p j \<and> status_filter status j) (jobs d))"
proof -
  let ?L = "full_listing p status d" and ?k = "clamp_limit limit 200"
  have k: "0 < ?k" by (simp add: clamp_limit_def)
  have step: "follow_pages n p limit status c b d = drop m ?L"
    if "\<And>n'. jobs_page p limit status c b d = take ?k (drop m ?L)" "length ?L \<le> m + n" for n m c b
    using that
  proof (induction n arbitrary: m c b)
    case 0
    then show ?case by simp
  next
    case (Suc n)
    show ?case
    proof (cases "drop m ?L")
      case Nil
      with Suc.prems(1) show ?thesis by simp
    next
      case (Cons j js)
      let ?pg = "take ?k (drop m ?L)"
      let ?e = "min (m + ?k) (length ?L) - 1"
      have len: "m < length ?L" using Cons by (metis drop_eq_Nil not_le list.distinct(1))
      have pg: "?pg \<noteq> []" "last ?pg = ?L ! ?e"
        using len k by (cases "m + ?k < length ?L"; simp add: last_conv_nth min_def)+
      have "drop (Suc ?e) ?L = drop (m + ?k) ?L" using len k by (simp add: min_def)
      moreover have "follow_pages n p limit status (Some (created_at (?L ! ?e))) (Some (job_id (?L ! ?e))) d = drop (Suc ?e) ?L"
        using len k Suc.prems(2) by (intro Suc.IH next_page [OF ids]) (auto simp: min_def)
      moreover have "?pg @ drop (m + ?k) ?L = drop m ?L"
        by (metis append_take_drop_id drop_drop add.commute)
      ultimately show ?thesis
        using pg Suc.prems(1) by (cases ?pg) auto
    qed
  qed
  have "follow_pages n p limit status None None d = drop 0 ?L"
    by (rule step) (simp_all add: first_page fuel)
  then show ?thesis by (simp add: full_listing_def newest_first_def)
qed

definition sample_jobs_db :: db where
  "sample_jobs_db = sample_db\<lparr>jobs := [sample_job, sample_job\<lparr>job_id := ''j2'', job_state := Running\<rparr>,
     sample_job\<lparr>job_id := ''j3'', created_at := 1600000000000001\<rparr>]\<rparr>"

lemma follow_pages_lists_all_witness:
  "follow_pages 5 (\<lambda>j. caller_owner_id j = ''user:alice'') 1 None None None sample_jobs_db =
   full_listing (\<lambda>j. caller_owner_id j = ''user:alice'') None sample_jobs_db"
  by (rule follow_pages_lists_all [THEN conjunct1])
    (simp_all add: sample_jobs_db_def sample_job_def full_listing_def newest_first_def status_filter_def or_empty_def)

end
