(* ===== verification/Leases.thy ===== *)
theory Leases
  imports Jobs
begin

text \<open>
  \<open>core/jobs/leases.py\<close>: claiming a job and keeping, releasing and losing the lease, retries and
  timeouts, the status update, settlement marks and the output-verification window, with the queries
  of the sweeper. Claim events go to \<open>job_messages\<close>; a time stamp in their payload is a number.
\<close>

section \<open>Messages and claim events\<close>

definition next_message_id :: "db \<Rightarrow> int" where
  "next_message_id d = 1 + fold max (map message_id (job_messages d)) 0"

definition insert_job_message_row ::
  "env \<Rightarrow> string \<Rightarrow> string \<Rightarrow> string \<Rightarrow> json \<Rightarrow> string option \<Rightarrow> int \<Rightarrow> (db, int) prog" where
  "insert_job_message_row e job from_id kind payload correlation created =
     stmt e (\<lambda>d. let k = next_message_id d in
       (Inr (lastrowid e k), d\<lparr>job_messages := job_messages d @
          [\<lparr>message_id = k, msg_job_id = job, msg_from_id = from_id, msg_type = kind, msg_payload = payload,
            msg_correlation_id = correlation, msg_created_at = created\<rparr>]\<rparr>))"

definition CLAIM_EVENT_MSG_TYPE :: string where "CLAIM_EVENT_MSG_TYPE = ''claim_event''"
definition CLAIM_EVENT_ACTOR :: string where "CLAIM_EVENT_ACTOR = ''system:jobs''"

definition claim_token_sha256 :: "env \<Rightarrow> string option \<Rightarrow> string option" where
  "claim_token_sha256 e token = map_option (sha256_hex e) (clean_optional_text token)"

definition text_json :: "string option \<Rightarrow> json" where
  "text_json v = (case v of None \<Rightarrow> JNull | Some s \<Rightarrow> JStr s)"

definition time_json :: "int option \<Rightarrow> json" where
  "time_json v = (case v of None \<Rightarrow> JNull | Some t \<Rightarrow> JNum (of_int t))"

definition claim_event_payload ::
  "env \<Rightarrow> string \<Rightarrow> string option \<Rightarrow> string option \<Rightarrow> int option \<Rightarrow> int option \<Rightarrow> (string \<times> json) list \<Rightarrow> json" where
  "claim_event_payload e kind owner token started expires metadata =
     JObj ([(''event_type'', JStr kind), (''claim_owner_id'', text_json (clean_optional_text owner)),
            (''claim_token_sha256'', text_json (claim_token_sha256 e token)),
            (''lease_started_at'', time_json started), (''lease_expires_at'', time_json expires)] @
           (if metadata = [] then [] else [(''metadata'', JObj metadata)]))"

definition insert_claim_event_row ::
  "env \<Rightarrow> string \<Rightarrow> string \<Rightarrow> string option \<Rightarrow> string option \<Rightarrow> int option \<Rightarrow> int option \<Rightarrow> string option \<Rightarrow>
   (string \<times> json) list \<Rightarrow> (db, int) prog" where
  "insert_claim_event_row e job kind owner token started expires actor metadata =
     insert_job_message_row e job (or_text (or_empty actor) CLAIM_EVENT_ACTOR) CLAIM_EVENT_MSG_TYPE
       (claim_event_payload e kind owner token started expires metadata) None (now e)"

section \<open>Leases\<close>

definition lease_is_active :: "job \<Rightarrow> int \<Rightarrow> bool" where
  "lease_is_active j t \<longleftrightarrow> clean_optional_text (claim_owner_id j) \<noteq> None \<and>
     (case lease_expires_at j of None \<Rightarrow> False | Some x \<Rightarrow> t < x)"

definition lease_is_expired :: "job \<Rightarrow> int \<Rightarrow> bool" where
  "lease_is_expired j t \<longleftrightarrow> clean_optional_text (claim_owner_id j) \<noteq> None \<and>
     (case lease_expires_at j of None \<Rightarrow> True | Some x \<Rightarrow> x \<le> t)"

definition after_seconds :: "env \<Rightarrow> int \<Rightarrow> int" where
  "after_seconds e n = now e + n * micros_per_second"

definition validate_claim_params :: "env \<Rightarrow> string \<Rightarrow> int \<Rightarrow> (string \<times> int, exn) result" where
  "validate_claim_params e owner lease =
     (let owner_id = py_strip owner in
      if owner_id = [] then Err (ValueError ''claim_owner_id must be a non-empty string.'')
      else case validate_lease_seconds e lease of Inl ex \<Rightarrow> Err ex | Inr n \<Rightarrow> Ok (owner_id, n))"

text \<open>
  The decision of \<open>claim_job\<close> on the row it read: refused, or the new claim token and the row after
  the \<open>UPDATE\<close>.
\<close>

definition claim_refused :: "env \<Rightarrow> string \<Rightarrow> bool \<Rightarrow> job \<Rightarrow> bool" where
  "claim_refused e owner require j \<longleftrightarrow>
     job_state j \<notin> CLAIMABLE_STATUSES \<or> settled_at j \<noteq> None \<or> completed_at j \<noteq> None \<or>
     (job_state j = Pending \<and> (case next_retry_at j of None \<Rightarrow> False | Some t \<Rightarrow> now e < t)) \<or>
     (require \<and> \<not> is_worker_authorized j owner) \<or>
     (lease_is_active j (now e) \<and> clean_optional_text (claim_owner_id j) \<noteq> Some owner)"

definition same_owner_reclaim :: "env \<Rightarrow> string \<Rightarrow> job \<Rightarrow> bool" where
  "same_owner_reclaim e owner j \<longleftrightarrow>
     lease_is_active j (now e) \<and> clean_optional_text (claim_owner_id j) = Some owner"

definition attempts_of :: "job \<Rightarrow> int" where
  "attempts_of j = to_non_negative_int (Some (attempt_count j)) 0"

definition max_attempts_of :: "job \<Rightarrow> int" where
  "max_attempts_of j = max 1 (to_non_negative_int (Some (max_attempts j)) 3)"

definition claimed_row :: "env \<Rightarrow> string \<Rightarrow> int \<Rightarrow> job \<Rightarrow> job \<Rightarrow> job" where
  "claimed_row e owner lease j i =
     (let again = same_owner_reclaim e owner j;
          token = (if again then or_text (or_empty (clean_optional_text (claim_token j))) (uuid e 0) else uuid e 0);
          at0 = (if again then (case claimed_at j of None \<Rightarrow> now e | Some t \<Rightarrow> t) else now e)
      in i\<lparr>job_state := (if job_state j = Pending then Running else job_state j),
           claim_owner_id := Some owner, claim_token := Some token, claimed_at := Some at0,
           lease_expires_at := Some (after_seconds e lease), last_heartbeat_at := Some (now e),
           attempt_count := (if again then attempts_of j else attempts_of j + 1),
           next_retry_at := None, updated_at := now e\<rparr>)"

definition claim_event :: "env \<Rightarrow> string \<Rightarrow> int \<Rightarrow> job \<Rightarrow> (db, int) prog" where
  "claim_event e owner lease j =
     (let k = claimed_row e owner lease j j in
      insert_claim_event_row e (job_id j)
        (if clean_optional_text (claim_owner_id j) = Some owner then ''claim_reclaimed'' else ''claim_acquired'')
        (Some owner) (claim_token k) (Some (now e)) (lease_expires_at k) (Some owner)
        [(''status_after'', JStr (status_text (job_state k))), (''attempt_count'', JNum (of_int (attempt_count k)))])"

definition claim_in_transaction :: "env \<Rightarrow> string \<Rightarrow> string \<Rightarrow> int \<Rightarrow> bool \<Rightarrow> (db, bool) prog" where
  "claim_in_transaction e job owner lease require =
     bindE (select e (find_job job)) (\<lambda>row.
     case row of
       None \<Rightarrow> ret False
     | Some j \<Rightarrow>
         if claim_refused e owner require j then ret False
         else if \<not> same_owner_reclaim e owner j \<and> max_attempts_of j \<le> attempts_of j then ret False
         else
           bindE (update_jobs e (\<lambda>i. job_id i = job) (claimed_row e owner lease j)) (\<lambda>_.
           bindE (claim_event e owner lease j) (\<lambda>_. ret True)))"

definition claim_job :: "env \<Rightarrow> string \<Rightarrow> string \<Rightarrow> int \<Rightarrow> bool \<Rightarrow> (db, job option) prog" where
  "claim_job e job owner lease_seconds require =
     (case validate_claim_params e owner lease_seconds of
        Err ex \<Rightarrow> throw ex
      | Ok p \<Rightarrow>
          bindE (transact (claim_in_transaction e job (fst p) (snd p) require)) (\<lambda>claimed.
          if claimed then get_job e job else ret None))"

definition token_mismatch :: "string option \<Rightarrow> job \<Rightarrow> bool" where
  "token_mismatch token j \<longleftrightarrow> token \<noteq> None \<and> clean_optional_text (claim_token j) \<noteq> token"

definition heartbeat_row :: "env \<Rightarrow> int \<Rightarrow> job \<Rightarrow> job" where
  "heartbeat_row e lease i =
     i\<lparr>lease_expires_at := (case lease_expires_at i of
          Some x \<Rightarrow> if after_seconds e lease < x then Some x else Some (after_seconds e lease)
        | None \<Rightarrow> Some (after_seconds e lease)),
       last_heartbeat_at := Some (now e), updated_at := now e\<rparr>"

definition heartbeat_in_transaction ::
  "env \<Rightarrow> string \<Rightarrow> string \<Rightarrow> int \<Rightarrow> string option \<Rightarrow> bool \<Rightarrow> (db, bool) prog" where
  "heartbeat_in_transaction e job owner lease token require =
     bindE (select e (find_job job)) (\<lambda>row.
     case row of
       None \<Rightarrow> ret False
     | Some j \<Rightarrow>
         if require \<and> \<not> is_worker_authorized j owner then ret False
         else if job_state j \<notin> ACTIVE_LEASE_STATUSES then ret False
         else if clean_optional_text (claim_owner_id j) \<noteq> Some owner then ret False
         else if token_mismatch token j then ret False
         else if (case lease_expires_at j of None \<Rightarrow> True | Some x \<Rightarrow> x \<le> now e) then ret False
         else
           bindE (update_jobs e
                    (\<lambda>i. job_id i = job \<and> job_state i \<in> ACTIVE_LEASE_STATUSES \<and> claim_owner_id i = Some owner \<and>
                         (case lease_expires_at i of None \<Rightarrow> False | Some x \<Rightarrow> now e < x))
                    (heartbeat_row e lease)) (\<lambda>updated.
           if updated = 0 then ret False
           else
             bindE (insert_claim_event_row e job ''claim_heartbeat'' (Some owner)
                      (clean_optional_text (claim_token j)) (Some (now e))
                      (lease_expires_at (heartbeat_row e lease j)) (Some owner)
                      [(''lease_seconds'', JNum (of_int lease))]) (\<lambda>_. ret True)))"

definition heartbeat_job_lease ::
  "env \<Rightarrow> string \<Rightarrow> string \<Rightarrow> int \<Rightarrow> string option \<Rightarrow> bool \<Rightarrow> (db, job option) prog" where
  "heartbeat_job_lease e job owner lease token require =
     (let owner_id = py_strip owner in
      if owner_id = [] then throw (ValueError ''claim_owner_id must be a non-empty string.'')
      else if lease \<le> 0 then throw (ValueError ''lease_seconds must be > 0.'')
      else bindE (transact (heartbeat_in_transaction e job owner_id lease token require)) (\<lambda>extended.
        if extended then get_job e job else ret None))"

definition unclaimed_row :: "job \<Rightarrow> job" where
  "unclaimed_row i = i\<lparr>claim_owner_id := None, claim_token := None, claimed_at := None,
     lease_expires_at := None, last_heartbeat_at := None\<rparr>"

definition release_in_transaction ::
  "env \<Rightarrow> string \<Rightarrow> string \<Rightarrow> string option \<Rightarrow> bool \<Rightarrow> (db, bool) prog" where
  "release_in_transaction e job owner token require =
     bindE (select e (find_job job)) (\<lambda>row.
     case row of
       None \<Rightarrow> ret False
     | Some j \<Rightarrow>
         if require \<and> \<not> is_worker_authorized j owner then ret False
         else if clean_optional_text (claim_owner_id j) \<noteq> Some owner then ret False
         else if token_mismatch token j then ret False
         else
           bindE (update_jobs e (\<lambda>i. job_id i = job)
                    (\<lambda>i. (unclaimed_row i)\<lparr>job_state := Pending, updated_at := now e\<rparr>)) (\<lambda>_.
           bindE (insert_claim_event_row e job ''claim_released'' (Some owner)
                    (clean_optional_text (claim_token j)) (Some (now e)) (lease_expires_at j) (Some owner) [])
             (\<lambda>_. ret True)))"

definition release_job_claim ::
  "env \<Rightarrow> string \<Rightarrow> string \<Rightarrow> string option \<Rightarrow> bool \<Rightarrow> (db, job option) prog" where
  "release_job_claim e job owner token require =
     (let owner_id = py_strip owner in
      if owner_id = [] then throw (ValueError ''claim_owner_id must be a non-empty string.'')
      else bindE (transact (release_in_transaction e job owner_id token require)) (\<lambda>released.
        if released then get_job e job else ret None))"

section \<open>Retries and timeouts\<close>

definition requeued_row :: "env \<Rightarrow> bool \<Rightarrow> int \<Rightarrow> string option \<Rightarrow> job \<Rightarrow> job \<Rightarrow> job" where
  "requeued_row e can_retry delay err j i =
     (unclaimed_row i)\<lparr>job_state := (if can_retry then Pending else Failed), error_message := err,
        updated_at := now e,
        completed_at := (if can_retry then None
                         else Some (case completed_at j of None \<Rightarrow> now e | Some t \<Rightarrow> t)),
        retry_count := to_non_negative_int (Some (retry_count j)) 0 + 1,
        next_retry_at := (if can_retry then Some (after_seconds e delay) else None),
        last_retry_at := Some (now e)\<rparr>"

definition retry_in_transaction ::
  "env \<Rightarrow> string \<Rightarrow> int \<Rightarrow> string option \<Rightarrow> string option \<Rightarrow> string option \<Rightarrow> bool \<Rightarrow> (db, bool) prog" where
  "retry_in_transaction e job delay err owner token require =
     bindE (select e (find_job job)) (\<lambda>row.
     case row of
       None \<Rightarrow> ret False
     | Some j \<Rightarrow>
         if settled_at j \<noteq> None then ret False
         else if completed_at j \<noteq> None then ret False
         else if (case owner of None \<Rightarrow> False
                  | Some w \<Rightarrow> (require \<and> \<not> is_worker_authorized j w) \<or> clean_optional_text (claim_owner_id j) \<noteq> Some w)
         then ret False
         else if token_mismatch token j then ret False
         else
           bindE (update_jobs e (\<lambda>i. job_id i = job)
                    (requeued_row e (attempts_of j < max_attempts_of j) delay
                       (if err \<noteq> None then err else error_message j) j)) (\<lambda>_. ret True))"

definition schedule_job_retry ::
  "env \<Rightarrow> string \<Rightarrow> int \<Rightarrow> string option \<Rightarrow> string option \<Rightarrow> string option \<Rightarrow> bool \<Rightarrow> (db, job option) prog" where
  "schedule_job_retry e job delay err owner token require =
     (if delay < 0 then throw (ValueError ''retry_delay_seconds must be >= 0.'')
      else bindE (transact (retry_in_transaction e job delay err (clean_optional_text owner) token require)) (\<lambda>done.
        if done then get_job e job else ret None))"

definition timed_out_row :: "env \<Rightarrow> bool \<Rightarrow> int \<Rightarrow> string \<Rightarrow> job \<Rightarrow> job \<Rightarrow> job" where
  "timed_out_row e can_retry delay err j i =
     (requeued_row e can_retry delay (Some err) j i)
       \<lparr>timeout_count := to_non_negative_int (Some (timeout_count j)) 0 + 1, last_timeout_at := Some (now e)\<rparr>"

definition timeout_in_transaction :: "env \<Rightarrow> string \<Rightarrow> int \<Rightarrow> string \<Rightarrow> bool \<Rightarrow> (db, bool) prog" where
  "timeout_in_transaction e job delay err allow_retry =
     bindE (select e (find_job job)) (\<lambda>row.
     case row of
       None \<Rightarrow> ret False
     | Some j \<Rightarrow>
         if settled_at j \<noteq> None then ret False
         else if job_state j \<notin> ACTIVE_LEASE_STATUSES then ret False
         else if \<not> lease_is_expired j (now e) then ret False
         else
           let can_retry = allow_retry \<and> attempts_of j < max_attempts_of j;
               k = timed_out_row e can_retry delay err j j in
           bindE (update_jobs e (\<lambda>i. job_id i = job) (timed_out_row e can_retry delay err j)) (\<lambda>_.
           bindE (insert_claim_event_row e job ''claim_timed_out'' (clean_optional_text (claim_owner_id j))
                    (clean_optional_text (claim_token j)) (Some (now e)) (lease_expires_at j) None
                    [(''status_after'', JStr (status_text (job_state k))),
                     (''retry_count'', JNum (of_int (retry_count k))),
                     (''timeout_count'', JNum (of_int (timeout_count k))),
                     (''allow_retry'', JBool allow_retry)]) (\<lambda>_. ret True)))"

definition mark_job_timeout :: "env \<Rightarrow> string \<Rightarrow> int \<Rightarrow> string \<Rightarrow> bool \<Rightarrow> (db, job option) prog" where
  "mark_job_timeout e job delay err allow_retry =
     (if delay < 0 then throw (ValueError ''retry_delay_seconds must be >= 0.'')
      else bindE (transact (timeout_in_transaction e job delay err allow_retry)) (\<lambda>done.
        if done then get_job e job else ret None))"

text \<open>The optional argument \<open>now\<close> of the sweeper's queries; without it, the clock.\<close>

definition now_or :: "env \<Rightarrow> int option \<Rightarrow> int" where
  "now_or e t = (case t of None \<Rightarrow> now e | Some x \<Rightarrow> x)"

definition open_job :: "job \<Rightarrow> bool" where
  "open_job j \<longleftrightarrow> completed_at j = None \<and> settled_at j = None"

text \<open>\<open>ORDER BY k ASC, created_at ASC LIMIT n\<close>.\<close>

definition due_first :: "(job \<Rightarrow> int) \<Rightarrow> nat \<Rightarrow> job list \<Rightarrow> job list" where
  "due_first k n js = take n (sort_key k (sort_key created_at js))"

definition at_or :: "int \<Rightarrow> int option \<Rightarrow> int" where
  "at_or dflt v = (case v of None \<Rightarrow> dflt | Some t \<Rightarrow> t)"

definition due_for_retry :: "int \<Rightarrow> job \<Rightarrow> bool" where
  "due_for_retry t j \<longleftrightarrow> job_state j = Pending \<and> open_job j \<and>
     (case next_retry_at j of None \<Rightarrow> False | Some x \<Rightarrow> x \<le> t) \<and> retry_count j < max_attempts j"

definition list_jobs_due_for_retry :: "env \<Rightarrow> int \<Rightarrow> int option \<Rightarrow> (db, job list) prog" where
  "list_jobs_due_for_retry e limit at_time =
     transact (select e (\<lambda>d. due_first (\<lambda>j. at_or 0 (next_retry_at j)) (clamp_limit limit 200)
       (filter (due_for_retry (now_or e at_time)) (jobs d))))"

definition mark_retry_ready :: "env \<Rightarrow> string \<Rightarrow> int option \<Rightarrow> (db, job option) prog" where
  "mark_retry_ready e job at_time =
     bindE (transact
       (update_jobs e
          (\<lambda>i. job_id i = job \<and> job_state i = Pending \<and>
               (case next_retry_at i of None \<Rightarrow> False | Some x \<Rightarrow> x \<le> now_or e at_time))
          (\<lambda>i. (unclaimed_row i)\<lparr>next_retry_at := None, last_retry_at := None, updated_at := now_or e at_time\<rparr>)))
       (\<lambda>updated. if updated = 0 then ret None else get_job e job)"

text \<open>
  A \<open>NULL\<close> lease sorts first on SQLite and last on PostgreSQL.
\<close>

definition lease_order :: "env \<Rightarrow> job \<Rightarrow> bool \<times> int" where
  "lease_order e j =
     (case lease_expires_at j of
        None \<Rightarrow> (backend e = Postgres, 0)
      | Some t \<Rightarrow> (backend e = SQLite, t))"

definition expired_lease_listed :: "int \<Rightarrow> job \<Rightarrow> bool" where
  "expired_lease_listed t j \<longleftrightarrow> job_state j \<in> ACTIVE_LEASE_STATUSES \<and> open_job j \<and> claim_owner_id j \<noteq> None \<and>
     (case lease_expires_at j of None \<Rightarrow> True | Some x \<Rightarrow> x \<le> t)"

definition list_jobs_with_expired_leases :: "env \<Rightarrow> int \<Rightarrow> int option \<Rightarrow> (db, job list) prog" where
  "list_jobs_with_expired_leases e limit at_time =
     transact (select e (\<lambda>d. take (clamp_limit limit 200) (sort_key (lease_order e) (sort_key created_at
       (filter (expired_lease_listed (now_or e at_time)) (jobs d))))))"

definition list_jobs_with_expired_clarification_deadline :: "env \<Rightarrow> int \<Rightarrow> int option \<Rightarrow> (db, job list) prog" where
  "list_jobs_with_expired_clarification_deadline e limit at_time =
     transact (select e (\<lambda>d. due_first (\<lambda>j. at_or 0 (clarification_deadline_at j)) (clamp_limit limit 200)
       (filter (\<lambda>j. job_state j = AwaitingClarification \<and> open_job j \<and>
          (case clarification_deadline_at j of None \<Rightarrow> False | Some x \<Rightarrow> x \<le> now_or e at_time)) (jobs d))))"

definition list_jobs_past_sla :: "env \<Rightarrow> int \<Rightarrow> int \<Rightarrow> int option \<Rightarrow> (db, job list) prog" where
  "list_jobs_past_sla e sla limit at_time =
     (if sla \<le> 0 then throw (ValueError ''sla_seconds must be > 0.'')
      else transact (select e (\<lambda>d. due_first (\<lambda>_. 0) (clamp_limit limit 200)
        (filter (\<lambda>j. job_state j \<in> ACTIVE_LEASE_STATUSES \<and> open_job j \<and> claim_owner_id j \<noteq> None \<and>
           created_at j \<le> now_or e at_time - sla * micros_per_second) (jobs d)))))"

definition list_jobs_with_expired_output_verification :: "env \<Rightarrow> int \<Rightarrow> int option \<Rightarrow> (db, job list) prog" where
  "list_jobs_with_expired_output_verification e limit at_time =
     transact (select e (\<lambda>d. due_first (\<lambda>j. at_or 0 (output_verification_deadline_at j)) (clamp_limit limit 200)
       (filter (\<lambda>j. job_state j = Complete \<and> completed_at j \<noteq> None \<and> settled_at j = None \<and>
          output_verification_status j = ''pending'' \<and>
          (case output_verification_deadline_at j of None \<Rightarrow> False | Some x \<Rightarrow> x \<le> now_or e at_time)) (jobs d))))"

definition list_completed_jobs_pending_settlement :: "env \<Rightarrow> int \<Rightarrow> (db, job list) prog" where
  "list_completed_jobs_pending_settlement e limit =
     transact (select e (\<lambda>d. due_first (\<lambda>j. at_or 0 (completed_at j)) (clamp_limit limit 500)
       (filter (\<lambda>j. job_state j = Complete \<and> completed_at j \<noteq> None \<and> settled_at j = None) (jobs d))))"

section \<open>Status updates\<close>

record output_signature_args =
  sg_signature :: "string option"
  sg_alg :: "string option"
  sg_did :: "string option"
  sg_at :: "int option"

definition signed_row :: "output_signature_args \<Rightarrow> job \<Rightarrow> job" where
  "signed_row g i = i\<lparr>output_signature := sg_signature g, output_signature_alg := sg_alg g,
     output_signed_by_did := sg_did g, output_signed_at := sg_at g\<rparr>"

definition status_updated_row ::
  "env \<Rightarrow> job_status \<Rightarrow> json option \<Rightarrow> string option \<Rightarrow> bool \<Rightarrow> output_signature_args \<Rightarrow> job \<Rightarrow> job" where
  "status_updated_row e status output err completed g i =
     (let clears = completed \<or> status \<noteq> AwaitingClarification;
          k = i\<lparr>job_state := status, output_payload := output, error_message := err, updated_at := now e,
            completed_at := (case completed_at i of Some t \<Rightarrow> Some t | None \<Rightarrow> if completed then Some (now e) else None),
            next_retry_at := (if status \<noteq> Pending then None else next_retry_at i),
            claim_owner_id := (if completed then None else claim_owner_id i),
            claim_token := (if completed then None else claim_token i),
            lease_expires_at := (if completed then None else lease_expires_at i),
            last_heartbeat_at := (if completed then None else last_heartbeat_at i),
            clarification_requested_at := (if clears then None else clarification_requested_at i),
            clarification_deadline_at := (if clears then None else clarification_deadline_at i)\<rparr>
      in if or_empty (sg_signature g) \<noteq> [] then signed_row g k else k)"

definition update_job_status ::
  "env \<Rightarrow> string \<Rightarrow> string \<Rightarrow> json option \<Rightarrow> string option \<Rightarrow> bool \<Rightarrow> output_signature_args \<Rightarrow> (db, job option) prog" where
  "update_job_status e job status output err completed g =
     (case parse_status status of
        None \<Rightarrow> throw (ValueError ''Invalid status'')
      | Some st \<Rightarrow>
          bindE (transact (update_jobs e (\<lambda>i. job_id i = job \<and> (\<not> completed \<or> completed_at i = None))
                   (status_updated_row e st output err completed g))) (\<lambda>_.
          get_job e job))"

definition update_job_signature :: "env \<Rightarrow> string \<Rightarrow> output_signature_args \<Rightarrow> (db, job option) prog" where
  "update_job_signature e job g =
     bindE (transact (update_jobs e
         (\<lambda>i. job_id i = job \<and> job_state i = Complete \<and> or_empty (output_signature i) = [])
         (\<lambda>i. (signed_row g i)\<lparr>updated_at := now e\<rparr>))) (\<lambda>_.
     get_job e job)"

definition mark_settled :: "env \<Rightarrow> string \<Rightarrow> (db, bool) prog" where
  "mark_settled e job =
     bindE (transact (update_jobs e (\<lambda>i. job_id i = job \<and> settled_at i = None)
         (\<lambda>i. i\<lparr>settled_at := Some (now e)\<rparr>))) (\<lambda>updated.
     ret (0 < updated))"

section \<open>Output verification\<close>

definition verification_status :: "job \<Rightarrow> string" where
  "verification_status j = normalize_output_verification_status (Some (output_verification_status j))"

definition verification_reset :: "env \<Rightarrow> string \<Rightarrow> int option \<Rightarrow> job \<Rightarrow> job" where
  "verification_reset e status deadline i =
     i\<lparr>output_verification_status := status, output_verification_deadline_at := deadline,
       output_verification_decided_at := None, output_verification_decision_owner_id := None,
       output_verification_reason := None, updated_at := now e\<rparr>"

definition verification_untouched :: "job \<Rightarrow> bool" where
  "verification_untouched j \<longleftrightarrow> verification_status j = ''not_required'' \<and>
     output_verification_deadline_at j = None \<and> output_verification_decided_at j = None \<and>
     clean_optional_text (output_verification_decision_owner_id j) = None \<and>
     clean_optional_text (output_verification_reason j) = None"

text \<open>
  The transaction answers the row to return, or that the job is to be read again after an update.
\<close>

definition initialize_in_transaction :: "env \<Rightarrow> string \<Rightarrow> (db, job option option) prog" where
  "initialize_in_transaction e job =
     bindE (select e (find_job job)) (\<lambda>row.
     case row of
       None \<Rightarrow> ret (Some None)
     | Some j \<Rightarrow>
         case (if job_state j = Complete then completed_at j else None) of
           None \<Rightarrow> ret (Some (Some j))
         | Some completed \<Rightarrow>
             let window = to_non_negative_int (Some (output_verification_window_seconds j)) 0 in
             if window \<le> 0 then
               if verification_untouched j then ret (Some (Some j))
               else bindE (update_jobs e (\<lambda>i. job_id i = job) (verification_reset e ''not_required'' None))
                      (\<lambda>_. ret None)
             else if verification_status j = ''pending'' \<and> output_verification_deadline_at j \<noteq> None
             then ret (Some (Some j))
             else if verification_status j \<in> {''accepted'', ''rejected'', ''expired''} then ret (Some (Some j))
             else bindE (update_jobs e (\<lambda>i. job_id i = job)
                      (verification_reset e ''pending'' (Some (completed + window * micros_per_second))))
                    (\<lambda>_. ret None))"

definition initialize_output_verification_state :: "env \<Rightarrow> string \<Rightarrow> (db, job option) prog" where
  "initialize_output_verification_state e job =
     bindE (transact (initialize_in_transaction e job)) (\<lambda>res.
     case res of None \<Rightarrow> get_job e job | Some row \<Rightarrow> ret row)"

definition decision_in_transaction ::
  "env \<Rightarrow> string \<Rightarrow> string \<Rightarrow> string option \<Rightarrow> string option \<Rightarrow> (db, job option option) prog" where
  "decision_in_transaction e job next_status owner reason_text =
     bindE (select e (find_job job)) (\<lambda>row.
     case row of
       None \<Rightarrow> ret (Some None)
     | Some j \<Rightarrow>
         if verification_status j = next_status then ret (Some (Some j))
         else if verification_status j \<noteq> ''pending'' then ret (Some None)
         else bindE (update_jobs e (\<lambda>i. job_id i = job)
                  (\<lambda>i. i\<lparr>output_verification_status := next_status, output_verification_decided_at := Some (now e),
                         output_verification_decision_owner_id := clean_optional_text owner,
                         output_verification_reason := clean_optional_text reason_text, updated_at := now e\<rparr>))
                (\<lambda>_. ret None))"

definition set_output_verification_decision ::
  "env \<Rightarrow> string \<Rightarrow> string \<Rightarrow> string option \<Rightarrow> string option \<Rightarrow> (db, job option) prog" where
  "set_output_verification_decision e job decision owner reason_text =
     (let normalized = py_lower (py_strip decision) in
      if normalized \<notin> {''accept'', ''reject''} then throw (ValueError ''decision must be 'accept' or 'reject'.'')
      else bindE (transact (decision_in_transaction e job
                    (if normalized = ''accept'' then ''accepted'' else ''rejected'') owner reason_text)) (\<lambda>res.
        case res of None \<Rightarrow> get_job e job | Some row \<Rightarrow> ret row))"

definition coalesce :: "'a option \<Rightarrow> 'a option \<Rightarrow> 'a option" where
  "coalesce v w = (case v of None \<Rightarrow> w | Some x \<Rightarrow> Some x)"

definition mark_output_verification_expired :: "env \<Rightarrow> string \<Rightarrow> string option \<Rightarrow> (db, job option) prog" where
  "mark_output_verification_expired e job owner =
     bindE (transact (update_jobs e
         (\<lambda>i. job_id i = job \<and> output_verification_status i = ''pending'' \<and>
              (case output_verification_deadline_at i of None \<Rightarrow> False | Some x \<Rightarrow> x \<le> now e))
         (\<lambda>i. i\<lparr>output_verification_status := ''expired'',
                output_verification_decided_at := coalesce (output_verification_decided_at i) (Some (now e)),
                output_verification_decision_owner_id :=
                  coalesce (output_verification_decision_owner_id i) (clean_optional_text owner),
                output_verification_reason := coalesce (output_verification_reason i)
                  (Some ''Verification window expired without caller decision.''), updated_at := now e\<rparr>))) (\<lambda>updated.
     if updated = 0 then ret None else get_job e job)"

section \<open>Correlations\<close>

definition correlation_known :: "string \<Rightarrow> string option \<Rightarrow> string option \<Rightarrow> db \<Rightarrow> bool" where
  "correlation_known job correlation kind d \<longleftrightarrow>
     exists_row (\<lambda>m. msg_job_id m = job \<and> msg_correlation_id m = correlation \<and>
       (kind = None \<or> Some (msg_type m) = kind)) (job_messages d)"

definition message_correlation_exists_conn ::
  "env \<Rightarrow> string \<Rightarrow> string option \<Rightarrow> string option \<Rightarrow> (db, bool) prog" where
  "message_correlation_exists_conn e job correlation kind =
     (case clean_optional_text correlation of
        None \<Rightarrow> ret False
      | Some c \<Rightarrow> select e (correlation_known job (Some c) kind))"

definition message_correlation_exists :: "env \<Rightarrow> string \<Rightarrow> string option \<Rightarrow> string option \<Rightarrow> (db, bool) prog" where
  "message_correlation_exists e job correlation kind = transact (message_correlation_exists_conn e job correlation kind)"

definition tool_call_correlation_exists :: "env \<Rightarrow> string \<Rightarrow> string option \<Rightarrow> (db, bool) prog" where
  "tool_call_correlation_exists e job correlation = message_correlation_exists e job correlation (Some ''tool_call'')"

end
