(* ===== verification/Json_Values.thy ===== *)
theory Json_Values
  imports Fees Database
begin

text \<open>
  Reading JSON documents the way the code does: \<open>dict.get\<close>, the test for a dictionary, text values
  and \<open>int(v)\<close>.
\<close>

fun json_get :: "json \<Rightarrow> string \<Rightarrow> json option" where
  "json_get (JObj kvs) k = map_of kvs k"
| "json_get _ k = None"

fun json_text :: "json option \<Rightarrow> string option" where
  "json_text (Some (JStr s)) = Some s"
| "json_text _ = None"

fun is_object :: "json \<Rightarrow> bool" where
  "is_object (JObj _) = True"
| "is_object _ = False"

text \<open>\<open>int(v)\<close> on a JSON value: numbers are truncated, text is parsed, a list or an object is refused.\<close>

fun json_int :: "json \<Rightarrow> int option" where
  "json_int (JNum x) = Some (if 0 \<le> x then \<lfloor>x\<rfloor> else \<lceil>x\<rceil>)"
| "json_int (JBool b) = Some (if b then 1 else 0)"
| "json_int (JStr s) = py_int s"
| "json_int _ = None"

end
