(* ===== verification/Stop_Predicates.thy ===== *)
theory Stop_Predicates
  imports Functional Json_Values
begin

text \<open>
  \<open>core/copilot_predicates.py\<close>: the \<open>stop_when\<close> predicates of a job, checked when they are submitted and
  evaluated on every partial output. The JMESPath library is a parameter: \<open>compile\<close> gives the parsed
  expression or nothing on a \<open>ParseError\<close>, \<open>search\<close> the value of an expression on a document, or nothing
  when it raises or exceeds its time budget (the code skips the predicate in both cases).
\<close>

definition STOP_WHEN_MAX_PREDICATES :: nat where "STOP_WHEN_MAX_PREDICATES = 8"
definition STOP_WHEN_MAX_EXPR_LEN :: nat where "STOP_WHEN_MAX_EXPR_LEN = 500"
definition STOP_WHEN_MAX_LABEL_LEN :: nat where "STOP_WHEN_MAX_LABEL_LEN = 64"
definition STOP_WHEN_MAX_PROJECTION_DEPTH :: nat where "STOP_WHEN_MAX_PROJECTION_DEPTH = 2"
definition STOP_WHEN_MAX_OR_CHAIN :: nat where "STOP_WHEN_MAX_OR_CHAIN = 4"
definition STOP_WHEN_MAX_NESTING_DEPTH :: nat where "STOP_WHEN_MAX_NESTING_DEPTH = 8"

section \<open>Complexity of an expression\<close>

text \<open>A parsed expression: a node with its type and children, or a child that is no node.\<close>

datatype ast = AstNode string "ast list" | AstValue

definition PROJECTION_NODE_TYPES :: "string list" where
  "PROJECTION_NODE_TYPES = [''projection'', ''object_projection'', ''filter_projection'', ''slice'']"

definition FLATTENED_CHAIN_NODE_TYPES :: "string list" where
  "FLATTENED_CHAIN_NODE_TYPES = [''subexpression'', ''index_expression'']"

definition is_node :: "ast \<Rightarrow> bool" where
  "is_node x = (case x of AstNode _ _ \<Rightarrow> True | AstValue \<Rightarrow> False)"

definition stack_size :: "(ast \<times> nat) list \<Rightarrow> nat" where
  "stack_size stack = sum_list (map (\<lambda>x. size (fst x)) stack)"

lemma size_children: "sum_list (map size (filter is_node cs)) \<le> size_list size cs"
  by (induction cs) auto

lemma stack_size_push: "stack_size (rev (map (\<lambda>c. (c, n)) cs) @ stack) = sum_list (map size cs) + stack_size stack"
  by (simp add: stack_size_def o_def rev_map [symmetric] sum_list_rev)

text \<open>
  The loop of \<open>_walk_ast\<close>. The head of the list is the top of the stack; the children are pushed in
  order, so the last one is popped first.
\<close>

function walk_loop :: "(ast \<times> nat) list \<Rightarrow> nat \<Rightarrow> nat \<Rightarrow> nat \<Rightarrow> nat \<times> nat \<times> nat" where
  "walk_loop [] deepest ors widest = (deepest, ors, widest)"
| "walk_loop ((AstValue, depth) # stack) deepest ors widest = walk_loop stack deepest ors widest"
| "walk_loop ((AstNode ntype children, depth) # stack) deepest ors widest =
     (let new_depth = (if ntype \<in> set PROJECTION_NODE_TYPES then depth + 1 else depth)
      in walk_loop (rev (map (\<lambda>c. (c, new_depth)) (filter is_node children)) @ stack)
           (if deepest < new_depth then new_depth else deepest)
           (if ntype = ''or_expression'' then ors + 1 else ors)
           (if ntype \<in> set FLATTENED_CHAIN_NODE_TYPES \<and> widest < length children
            then length children else widest))"
  by pat_completeness auto

termination
proof (relation "measure (\<lambda>(stack, _). stack_size stack + length stack)", goal_cases)
  case 1
  then show ?case by simp
next
  case (2 depth stack deepest ors widest)
  then show ?case by (simp add: stack_size_def)
next
  case (3 ntype children depth stack deepest ors widest new_depth)
  have "sum_list (map size (filter is_node children)) + length (filter is_node children) \<le> size_list size children + 0"
    by (induction children) (auto simp: is_node_def split: ast.splits)
  then show ?case by (simp add: stack_size_push) (simp add: stack_size_def)
qed

definition walk_ast :: "ast \<Rightarrow> nat \<times> nat \<times> nat" where
  "walk_ast node = (if is_node node then walk_loop [(node, 0)] 0 0 0 else (0, 0, 0))"

text \<open>The same three measures by structural recursion.\<close>

fun proj_depth :: "ast \<Rightarrow> nat" where
  "proj_depth AstValue = 0"
| "proj_depth (AstNode t cs) = (if t \<in> set PROJECTION_NODE_TYPES then 1 else 0) + foldr max (map proj_depth cs) 0"

fun or_total :: "ast \<Rightarrow> nat" where
  "or_total AstValue = 0"
| "or_total (AstNode t cs) = (if t = ''or_expression'' then 1 else 0) + sum_list (map or_total cs)"

fun chain_width :: "ast \<Rightarrow> nat" where
  "chain_width AstValue = 0"
| "chain_width (AstNode t cs) =
     max (if t \<in> set FLATTENED_CHAIN_NODE_TYPES then length cs else 0) (foldr max (map chain_width cs) 0)"

lemma foldr_max: "foldr max xs (a::nat) = max (foldr max xs 0) a"
  by (induction xs) auto

lemma foldr_max_rev: "foldr max (rev xs) (0::nat) = foldr max xs 0"
proof (induction xs)
  case (Cons x xs)
  have "foldr max (rev (x # xs)) 0 = foldr max (rev xs) (max x 0)" by simp
  also have "\<dots> = max (foldr max (rev xs) 0) (max x 0)" by (rule foldr_max)
  finally show ?case using Cons by simp
qed simp

lemma foldr_max_push: "foldr max (rev xs @ ys) (a::nat) = max (foldr max xs 0) (foldr max ys a)"
  using foldr_max [of "rev xs" "foldr max ys a"] by (simp add: foldr_max_rev)

lemma foldr_max_nodes: "f AstValue = 0 \<Longrightarrow> foldr max (map f (filter is_node cs)) (0::nat) = foldr max (map f cs) 0"
  by (induction cs) (auto simp: is_node_def split: ast.splits)

lemma foldr_max_shift: "max k (foldr max (map (\<lambda>c. k + f c) cs) 0) = k + foldr max (map f cs) (0::nat)"
  by (induction cs) auto

lemma sum_list_nodes: "f AstValue = 0 \<Longrightarrow> sum_list (map f (filter is_node cs)) = (sum_list (map f cs) :: nat)"
  by (induction cs) (auto simp: is_node_def split: ast.splits)

lemma max_pushed: "p \<le> q \<Longrightarrow> max n p = q \<Longrightarrow> max p (max r (if a < n then n else a)) = max q (max r (a::nat))"
  by auto

lemma max_guarded:
  "max p (max r (if b \<and> c < l then l else c)) = max (max (if b then l else 0) p) (max r (c::nat))"
  by auto

lemma walk_loop_result:
  "\<forall>x\<in>set stack. is_node (fst x) \<Longrightarrow>
   walk_loop stack a b c =
     (foldr max (map (\<lambda>x. snd x + proj_depth (fst x)) stack) a, b + sum_list (map (or_total \<circ> fst) stack),
      foldr max (map (chain_width \<circ> fst) stack) c)"
proof (induction stack a b c rule: walk_loop.induct)
  case (3 t cs k stack a b c)
  define n where "n = (if t \<in> set PROJECTION_NODE_TYPES then k + 1 else k)"
  have "\<forall>x\<in>set (rev (map (\<lambda>c. (c, n)) (filter is_node cs)) @ stack). is_node (fst x)"
    using "3.prems" by auto
  note IH = "3.IH" [OF n_def this]
  have n: "n + foldr max (map proj_depth cs) 0 = k + proj_depth (AstNode t cs)"
    by (simp add: n_def)
  have depth: "foldr max (map (\<lambda>c. n + proj_depth c) (filter is_node cs)) 0 \<le> k + proj_depth (AstNode t cs)"
    "max n (foldr max (map (\<lambda>c. n + proj_depth c) (filter is_node cs)) 0) = k + proj_depth (AstNode t cs)"
    using foldr_max_shift [of n proj_depth "filter is_node cs"] n by (simp_all add: foldr_max_nodes)
  let ?D = "foldr max (map (\<lambda>x. snd x + proj_depth (fst x)) stack)"
  have "foldr max (map (\<lambda>x. snd x + proj_depth (fst x)) (rev (map (\<lambda>c. (c, n)) (filter is_node cs)) @ stack))
      (if a < n then n else a) = max (k + proj_depth (AstNode t cs)) (?D a)"
    unfolding map_append rev_map [symmetric] foldr_max_push map_map o_def fst_conv snd_conv
      foldr_max [of "map (\<lambda>x. snd x + proj_depth (fst x)) stack" a]
      foldr_max [of "map (\<lambda>x. snd x + proj_depth (fst x)) stack" "if a < n then n else a"]
    by (rule max_pushed [OF depth])
  moreover have "foldr max (map (chain_width \<circ> fst) (rev (map (\<lambda>c. (c, n)) (filter is_node cs)) @ stack))
      (if t \<in> set FLATTENED_CHAIN_NODE_TYPES \<and> c < length cs then length cs else c) =
      max (chain_width (AstNode t cs)) (foldr max (map (chain_width \<circ> fst) stack) c)"
    unfolding map_append rev_map [symmetric] foldr_max_push map_map o_def fst_conv
      foldr_max [of "map (\<lambda>x. chain_width (fst x)) stack" c]
      foldr_max [of "map (\<lambda>x. chain_width (fst x)) stack"
        "if t \<in> set FLATTENED_CHAIN_NODE_TYPES \<and> c < length cs then length cs else c"]
    by (simp add: max_guarded foldr_max_nodes)
  ultimately show ?case
    unfolding walk_loop.simps Let_def n_def [symmetric] IH
    by (simp add: rev_map [symmetric] o_def sum_list_nodes sum_list_rev del: proj_depth.simps chain_width.simps)
qed (simp_all add: is_node_def)

lemma walk_ast_eq: "walk_ast node = (proj_depth node, or_total node, chain_width node)"
proof (cases node)
  case (AstNode t cs)
  then have "\<forall>x\<in>set [(node, 0)]. is_node (fst x)" by (simp add: is_node_def)
  from walk_loop_result [OF this] AstNode show ?thesis
    by (simp add: walk_ast_def is_node_def del: walk_loop.simps proj_depth.simps or_total.simps chain_width.simps)
qed (simp add: walk_ast_def is_node_def)

text \<open>
  C33. The iterative walk computes the structural measures: the depth of nested projections, the number
  of \<open>||\<close> operators and the widest attribute chain of the expression, whatever its shape.
\<close>

theorem walk_ast_is_structural: "walk_ast node = (proj_depth node, or_total node, chain_width node)"
  by (rule walk_ast_eq)

section \<open>Validation\<close>

text \<open>A submitted item: no object, or the texts of its \<open>label\<close> and \<open>expr\<close> keys, where it has them.\<close>

datatype predicate_item = NotAnObject | PredicateItem "string option" "string option"

record stop_predicate =
  sp_label :: string
  sp_expr :: string

definition check_complexity :: "ast \<Rightarrow> (unit, string) result" where
  "check_complexity node =
     (case walk_ast node of (depth, ors, nesting) \<Rightarrow>
        if STOP_WHEN_MAX_PROJECTION_DEPTH < depth then Err ''stop_when uses wildcard projection too deep''
        else if STOP_WHEN_MAX_OR_CHAIN < ors then Err ''stop_when uses too many || operators''
        else if STOP_WHEN_MAX_NESTING_DEPTH < nesting then Err ''stop_when chains attribute access too deep''
        else Ok ())"

definition validate_one_predicate ::
  "(string \<Rightarrow> ast option) \<Rightarrow> predicate_item \<Rightarrow> string set \<Rightarrow> (stop_predicate, string) result" where
  "validate_one_predicate compile item seen =
     (case item of
        NotAnObject \<Rightarrow> Err ''stop_when item must be an object''
      | PredicateItem raw_label raw_expr \<Rightarrow>
          let label = py_strip (or_empty raw_label); expr = py_strip (or_empty raw_expr) in
          if label = [] then Err ''stop_when label is required''
          else if STOP_WHEN_MAX_LABEL_LEN < length label then Err ''stop_when label is too long''
          else if label \<in> seen then Err ''stop_when label is duplicated''
          else if expr = [] then Err ''stop_when expr is required''
          else if STOP_WHEN_MAX_EXPR_LEN < length expr then Err ''stop_when expr is too long''
          else case compile expr of
            None \<Rightarrow> Err ''stop_when expr is not valid JMESPath''
          | Some node \<Rightarrow> and_then (check_complexity node) (\<lambda>_. Ok \<lparr>sp_label = label, sp_expr = expr\<rparr>))"

fun validate_items ::
  "(string \<Rightarrow> ast option) \<Rightarrow> predicate_item list \<Rightarrow> string set \<Rightarrow> (stop_predicate list, string) result" where
  "validate_items compile [] seen = Ok []"
| "validate_items compile (item # items) seen =
     and_then (validate_one_predicate compile item seen) (\<lambda>p.
     and_then (validate_items compile items (insert (sp_label p) seen)) (\<lambda>ps. Ok (p # ps)))"

definition validate_stop_when ::
  "(string \<Rightarrow> ast option) \<Rightarrow> predicate_item list option \<Rightarrow> (stop_predicate list, string) result" where
  "validate_stop_when compile raw =
     (case raw of
        None \<Rightarrow> Ok []
      | Some items \<Rightarrow>
          if STOP_WHEN_MAX_PREDICATES < length items then Err ''stop_when exceeds 8 predicates''
          else validate_items compile items {})"

section \<open>Evaluation\<close>

fun is_truthy :: "json \<Rightarrow> bool" where
  "is_truthy JNull = False"
| "is_truthy (JBool b) = b"
| "is_truthy (JNum n) = (n \<noteq> 0)"
| "is_truthy (JStr s) = (s \<noteq> [])"
| "is_truthy (JArr xs) = (xs \<noteq> [])"
| "is_truthy (JObj kvs) = (kvs \<noteq> [])"

fun evaluate_first_match ::
  "(string \<Rightarrow> json \<Rightarrow> json option) \<Rightarrow> json list \<Rightarrow> json \<Rightarrow> stop_predicate option" where
  "evaluate_first_match search [] payload = None"
| "evaluate_first_match search (pred # preds) payload =
     (case (json_text (json_get pred ''label''), json_text (json_get pred ''expr'')) of
        (Some label, Some expr) \<Rightarrow>
          (case search expr payload of
             None \<Rightarrow> evaluate_first_match search preds payload
           | Some v \<Rightarrow>
               if is_truthy v then Some \<lparr>sp_label = label, sp_expr = expr\<rparr>
               else evaluate_first_match search preds payload)
      | _ \<Rightarrow> evaluate_first_match search preds payload)"

definition predicate_json :: "stop_predicate \<Rightarrow> json" where
  "predicate_json p = JObj [(''label'', JStr (sp_label p)), (''expr'', JStr (sp_expr p))]"

definition fires :: "(string \<Rightarrow> json \<Rightarrow> json option) \<Rightarrow> json \<Rightarrow> stop_predicate \<Rightarrow> bool" where
  "fires search payload p \<longleftrightarrow> (case search (sp_expr p) payload of None \<Rightarrow> False | Some v \<Rightarrow> is_truthy v)"

lemma first_match_is_find:
  "evaluate_first_match search (map predicate_json ps) payload = find (fires search payload) ps"
  by (induction ps) (auto simp: predicate_json_def fires_def split: option.split)

section \<open>What validation guarantees\<close>

definition item_of :: "stop_predicate \<Rightarrow> predicate_item" where
  "item_of p = PredicateItem (Some (sp_label p)) (Some (sp_expr p))"

definition admissible :: "(string \<Rightarrow> ast option) \<Rightarrow> stop_predicate \<Rightarrow> bool" where
  "admissible compile p \<longleftrightarrow>
     sp_label p \<noteq> [] \<and> py_strip (sp_label p) = sp_label p \<and> length (sp_label p) \<le> 64 \<and>
     sp_expr p \<noteq> [] \<and> py_strip (sp_expr p) = sp_expr p \<and> length (sp_expr p) \<le> 500 \<and>
     (case compile (sp_expr p) of None \<Rightarrow> False
      | Some node \<Rightarrow> proj_depth node \<le> 2 \<and> or_total node \<le> 4 \<and> chain_width node \<le> 8)"

lemma check_complexity_Ok:
  "check_complexity node = Ok u \<longleftrightarrow> proj_depth node \<le> 2 \<and> or_total node \<le> 4 \<and> chain_width node \<le> 8"
  by (auto simp: check_complexity_def walk_ast_eq STOP_WHEN_MAX_PROJECTION_DEPTH_def STOP_WHEN_MAX_OR_CHAIN_def
      STOP_WHEN_MAX_NESTING_DEPTH_def)

lemma validate_one_Ok:
  "validate_one_predicate compile (PredicateItem l x) seen = Ok p \<longleftrightarrow>
   p = \<lparr>sp_label = py_strip (or_empty l), sp_expr = py_strip (or_empty x)\<rparr> \<and> admissible compile p \<and>
   sp_label p \<notin> seen"
  by (auto simp: validate_one_predicate_def admissible_def Let_def and_then_is_Ok check_complexity_Ok
      STOP_WHEN_MAX_LABEL_LEN_def STOP_WHEN_MAX_EXPR_LEN_def split: option.splits if_splits)

lemma validate_one_item_of:
  "validate_one_predicate compile (item_of p) seen = Ok q \<longleftrightarrow> q = p \<and> admissible compile p \<and> sp_label p \<notin> seen"
  if "admissible compile p"
  using that by (auto simp: item_of_def validate_one_Ok or_empty_def admissible_def)

lemma validate_items_Ok:
  "validate_items compile items seen = Ok ps \<Longrightarrow>
   length ps = length items \<and> distinct (map sp_label ps) \<and> sp_label ` set ps \<inter> seen = {} \<and>
   (\<forall>p\<in>set ps. admissible compile p) \<and> validate_items compile (map item_of ps) seen = Ok ps"
proof (induction items arbitrary: seen ps)
  case (Cons item items)
  from Cons.prems obtain p qs where p: "validate_one_predicate compile item seen = Ok p"
    and qs: "validate_items compile items (insert (sp_label p) seen) = Ok qs" and ps: "ps = p # qs"
    by (auto simp: and_then_is_Ok)
  have "admissible compile p \<and> sp_label p \<notin> seen"
    using p by (cases item) (auto simp: validate_one_Ok, auto simp: validate_one_predicate_def)
  then show ?case
    using Cons.IH [OF qs] ps validate_one_item_of [of compile p seen p] by (auto simp: and_then_is_Ok)
qed simp

text \<open>
  C32. A validated \<open>stop_when\<close> list stays within every bound of the module: at most eight predicates with
  distinct, trimmed, non-empty labels, each a parsable expression of bounded length with at most two
  nested projections, four \<open>||\<close> and chains of eight attributes; validating the stored list again
  accepts it unchanged, and its evaluation on a document finds the first predicate that holds.
\<close>

theorem validated_stop_when:
  assumes "validate_stop_when compile raw = Ok ps"
  shows "length ps \<le> 8 \<and> distinct (map sp_label ps) \<and> (\<forall>p\<in>set ps. admissible compile p) \<and>
     validate_stop_when compile (Some (map item_of ps)) = Ok ps \<and>
     evaluate_first_match search (map predicate_json ps) payload = find (fires search payload) ps"
proof (cases raw)
  case None
  with assms show ?thesis by (simp add: validate_stop_when_def)
next
  case (Some items)
  with assms have n: "length items \<le> 8" and v: "validate_items compile items {} = Ok ps"
    by (auto simp: validate_stop_when_def STOP_WHEN_MAX_PREDICATES_def split: if_splits)
  from validate_items_Ok [OF v] n show ?thesis
    by (simp add: validate_stop_when_def STOP_WHEN_MAX_PREDICATES_def first_match_is_find)
qed

definition sample_compile :: "string \<Rightarrow> ast option" where
  "sample_compile s = (if s = ''found'' then Some (AstNode ''field'' []) else None)"

lemma validated_stop_when_witness:
  "evaluate_first_match (\<lambda>x d. json_get d x) (map predicate_json [\<lparr>sp_label = ''hit'', sp_expr = ''found''\<rparr>])
     (JObj [(''found'', JBool True)]) = Some \<lparr>sp_label = ''hit'', sp_expr = ''found''\<rparr>"
proof -
  have "validate_stop_when sample_compile (Some [PredicateItem (Some '' hit'') (Some ''found'')]) =
      Ok [\<lparr>sp_label = ''hit'', sp_expr = ''found''\<rparr>]"
    by (simp add: validate_stop_when_def STOP_WHEN_MAX_PREDICATES_def validate_one_Ok and_then_is_Ok admissible_def
        sample_compile_def py_strip_def py_space_def or_empty_def)
  from validated_stop_when [OF this, THEN conjunct2, THEN conjunct2, THEN conjunct2, THEN conjunct2]
  show ?thesis by (simp only:) (simp add: fires_def)
qed

end
