(* ===== verification/Settlement_Runner.thy ===== *)
theory Settlement_Runner
  imports Settlement Jobs Stop_Predicates
begin

text \<open>
  \<open>core/settlement_runner.py\<close>: the queue of jobs that a \<open>stop_when\<close> match ended. Draining a row leases
  it, settles the job and stamps the row, or records the failure. The receipt that is signed after the
  settlement writes a column outside this model and its exceptions are swallowed, so that step is left out,
  and the defensive commit has nothing to commit here.
\<close>

definition MAX_ATTEMPTS :: nat where "MAX_ATTEMPTS = 5"

abbreviation update_pending ::
  "env \<Rightarrow> (pending_settlement \<Rightarrow> bool) \<Rightarrow> (pending_settlement \<Rightarrow> pending_settlement) \<Rightarrow> (db, nat) prog" where
  "update_pending e \<equiv> update_stmt e pending_settlements (\<lambda>rs d. d\<lparr>pending_settlements := rs\<rparr>) (\<lambda>_. True)"

section \<open>The queue\<close>

definition new_pending :: "string \<Rightarrow> string \<Rightarrow> int \<Rightarrow> pending_settlement" where
  "new_pending job terminal_state at_time =
     \<lparr>ps_job_id = job, ps_terminal_state = terminal_state, ps_terminal_at = at_time, ps_attempts = 0,
      ps_last_error = None, ps_settled_at = None, ps_receipt_built_at = None\<rparr>"

text \<open>\<open>INSERT ... ON CONFLICT (job_id) DO NOTHING\<close>.\<close>

definition queue_settlement :: "env \<Rightarrow> string \<Rightarrow> string \<Rightarrow> int \<Rightarrow> (db, unit) prog" where
  "queue_settlement e job terminal_state at_time =
     stmt e (\<lambda>d.
       if exists_row (\<lambda>r. ps_job_id r = job) (pending_settlements d) then (Inr (), d)
       else (Inr (), d\<lparr>pending_settlements := pending_settlements d @ [new_pending job terminal_state at_time]\<rparr>))"

definition enqueue_terminal :: "env \<Rightarrow> string \<Rightarrow> string \<Rightarrow> int option \<Rightarrow> (db, unit) prog" where
  "enqueue_terminal e job terminal_state terminal =
     (if job = [] then throw (ValueError ''job_id is required'')
      else if terminal_state = [] then throw (ValueError ''terminal_state is required'')
      else queue_settlement e job terminal_state (case terminal of None \<Rightarrow> now e | Some t \<Rightarrow> t))"

definition drainable :: "string option \<Rightarrow> pending_settlement \<Rightarrow> bool" where
  "drainable job r \<longleftrightarrow> ps_settled_at r = None \<and> ps_attempts r < MAX_ATTEMPTS \<and>
     (or_empty job = [] \<or> ps_job_id r = or_empty job)"

definition oldest_drainable :: "string option \<Rightarrow> db \<Rightarrow> pending_settlement option" where
  "oldest_drainable job d =
     (case sort_key ps_terminal_at (filter (drainable job) (pending_settlements d)) of
        [] \<Rightarrow> None
      | r # _ \<Rightarrow> Some r)"

definition one_more_attempt :: "pending_settlement \<Rightarrow> pending_settlement" where
  "one_more_attempt r = r\<lparr>ps_attempts := ps_attempts r + 1\<rparr>"

definition lease_row :: "env \<Rightarrow> string option \<Rightarrow> (db, pending_settlement option) prog" where
  "lease_row e job = transact
     (bindE (select e (oldest_drainable job)) (\<lambda>row.
      case row of
        None \<Rightarrow> ret None
      | Some r \<Rightarrow>
          (case backend e of
             Postgres \<Rightarrow>
               bindE (update_pending e (\<lambda>i. ps_job_id i = ps_job_id r) one_more_attempt) (\<lambda>_.
               ret (Some (one_more_attempt r)))
           | SQLite \<Rightarrow>
               bindE (update_pending e
                        (\<lambda>i. ps_job_id i = ps_job_id r \<and> ps_settled_at i = None \<and> ps_attempts i = ps_attempts r)
                        one_more_attempt) (\<lambda>updated.
               if updated \<noteq> 1 then ret None else ret (Some (one_more_attempt r))))))"

definition stamp_done :: "env \<Rightarrow> string \<Rightarrow> (db, unit) prog" where
  "stamp_done e job = transact
     (bindE (update_pending e (\<lambda>i. ps_job_id i = job)
        (\<lambda>i. i\<lparr>ps_settled_at := Some (case ps_settled_at i of None \<Rightarrow> now e | Some t \<Rightarrow> t),
               ps_receipt_built_at := Some (case ps_receipt_built_at i of None \<Rightarrow> now e | Some t \<Rightarrow> t)\<rparr>))
        (\<lambda>_. ret ()))"

definition record_failure :: "env \<Rightarrow> string \<Rightarrow> exn \<Rightarrow> (db, unit) prog" where
  "record_failure e job ex = transact
     (bindE (update_pending e (\<lambda>i. ps_job_id i = job) (\<lambda>i. i\<lparr>ps_last_error := Some ex\<rparr>)) (\<lambda>_. ret ()))"

section \<open>Settling a stopped job\<close>

definition declared_max_units :: "job \<Rightarrow> int option" where
  "declared_max_units j =
     (case stop_when_json j of
        None \<Rightarrow> None
      | Some doc \<Rightarrow>
          case json_get doc ''max_units'' of
            None \<Rightarrow> None
          | Some v \<Rightarrow> (case json_int v of None \<Rightarrow> None | Some n \<Rightarrow> if 0 < n then Some n else None))"

definition settle_units_cents :: "job \<Rightarrow> int" where
  "settle_units_cents j =
     (let partials = max 0 (partials_count j);
          declared_max = declared_max_units j;
          units = (case declared_max of None \<Rightarrow> partials | Some n \<Rightarrow> min partials n);
          denom0 = (case declared_max of None \<Rightarrow> max partials 1 | Some n \<Rightarrow> n);
          denom = (if denom0 \<le> 0 then 1 else denom0)
      in max 0 (min ((price_cents j * units) div denom) (price_cents j)))"

definition settle_for :: "env \<Rightarrow> job \<Rightarrow> int \<Rightarrow> (db, unit) prog" where
  "settle_for e j price =
     post_call_payout e (agent_wallet_id j) (platform_wallet_id j) (charge_tx_id j) price (agent_id j)
       (Some (platform_fee_pct_at_create j)) (Some (fee_bearer_policy j)) None None None"

definition settle_full_call :: "env \<Rightarrow> job \<Rightarrow> (db, unit) prog" where
  "settle_full_call e j = settle_for e j (price_cents j)"

text \<open>
  The refund passes \<open>refund_cents\<close> and \<open>reason\<close>, which \<open>post_call_refund\<close> does not take: the call
  raises a \<open>TypeError\<close> before its body runs.
\<close>

definition settle_partial_units :: "env \<Rightarrow> job \<Rightarrow> (db, unit) prog" where
  "settle_partial_units e j =
     (let settle_cents = settle_units_cents j;
          refund_cents = price_cents j - settle_cents
      in bindE (whenE (0 < settle_cents) (settle_for e j settle_cents)) (\<lambda>_.
         whenE (0 < refund_cents) (throw TypeError)))"

definition billing_unit_of :: "job \<Rightarrow> string" where
  "billing_unit_of j = py_strip (or_text (or_empty (billing_unit j)) ''call'')"

definition settle_stopped :: "env \<Rightarrow> job \<Rightarrow> (db, unit) prog" where
  "settle_stopped e j =
     (if billing_unit_of j = ''partial'' then settle_partial_units e j else settle_full_call e j)"

definition settle_row :: "env \<Rightarrow> pending_settlement \<Rightarrow> (db, unit) prog" where
  "settle_row e r =
     bindE (get_job e (ps_job_id r)) (\<lambda>row.
     case row of
       None \<Rightarrow> ret ()
     | Some j \<Rightarrow> whenE (ps_terminal_state r = ''stopped'') (settle_stopped e j))"

section \<open>Draining\<close>

definition drain_one :: "env \<Rightarrow> string option \<Rightarrow> (db, bool) prog" where
  "drain_one e job =
     bindE (lease_row e job) (\<lambda>row.
     case row of
       None \<Rightarrow> ret False
     | Some r \<Rightarrow>
         catchE
           (bindE (settle_row e r) (\<lambda>_. bindE (stamp_done e (ps_job_id r)) (\<lambda>_. ret True)))
           (\<lambda>ex. bindE (record_failure e (ps_job_id r) ex) (\<lambda>_. ret True)))"

text \<open>At most one row per entry of the list: its length is \<open>max_rows\<close>, its entries the readings of the clock.\<close>

fun drain_all :: "env list \<Rightarrow> (db, nat) prog" where
  "drain_all [] = ret 0"
| "drain_all (e # es) =
     bindE (drain_one e None) (\<lambda>processed.
     if processed then bindE (drain_all es) (\<lambda>n. ret (Suc n)) else ret 0)"

section \<open>Tables that settlement leaves alone\<close>

locale untouched_table =
  fixes rows :: "db \<Rightarrow> 'r list"
  assumes wallets_frame: "map owner_id ws = map owner_id (wallets d) \<Longrightarrow> rows (d\<lparr>wallets := ws\<rparr>) = rows d"
    and transactions_frame: "rows (d\<lparr>transactions := ts\<rparr>) = rows d"
    and holds_frame: "rows (d\<lparr>wallet_holds := hs\<rparr>) = rows d"
    and escrow_frame: "rows (d\<lparr>job_caller_escrow := es\<rparr>) = rows d"
    and trust_frame: "rows (d\<lparr>caller_trust_events := vs\<rparr>) = rows d"
    and charge_frame: "rows (d\<lparr>jobs := update_rows p (\<lambda>j. j\<lparr>charge_tx_id := c\<rparr>) (jobs d)\<rparr>) = rows d"
    and flag_frame: "rows (d\<lparr>tx_failed := b\<rparr>) = rows d"
begin

lemma keeps_update: "(\<And>rs d. rows (put rs d) = rows d) \<Longrightarrow> keeps (\<lambda>d. Q (rows d)) (update_stmt e get put ck p f)"
  by (intro keeps_update_stmt; simp add: flag_free_def flag_frame)

lemma keeps_wallet_update:
  "(\<And>w. owner_id (f w) = owner_id w) \<Longrightarrow> keeps (\<lambda>d. Q (rows d)) (update_wallets e p f)"
  by (intro keeps_update_stmt; simp add: flag_free_def flag_frame wallets_frame map_update_rows_same)

lemma keeps_insert: "(\<And>rs d. rows (put rs d) = rows d) \<Longrightarrow> keeps (\<lambda>d. Q (rows d)) (insert_stmt e get put ok r)"
  by (intro keeps_insert_stmt; simp add: flag_free_def flag_frame)

lemma keeps_transaction: "ensures (\<lambda>d. Q (rows d)) m \<Longrightarrow> keeps (\<lambda>d. Q (rows d)) (transact m)"
  by (rule keeps_transact) (simp_all add: flag_free_def flag_frame)

lemma keeps_insert_tx: "keeps (\<lambda>d. Q (rows d)) (insert_tx e k wid kind a agent related m key)"
  unfolding insert_tx_def resolve_charged_by_key_id_def Let_def
  by (intro keeps_bindE keeps_insert keeps_wallet_update keeps_if keeps_ret keeps_select keeps_case_option)
    (simp_all add: transactions_frame)

lemma keeps_create_hold: "keeps (\<lambda>d. Q (rows d)) (create_hold_conn e k wid job a h)"
  unfolding create_hold_conn_def get_active_hold_for_job_conn_def
  by (intro keeps_if keeps_ret keeps_bindE keeps_select keeps_catch_when keeps_insert keeps_wallet_update keeps_throw)
    (simp_all add: holds_frame)

lemma keeps_settle_escrow: "keeps (\<lambda>d. Q (rows d)) (settle_escrow_to_charge e k job agent)"
  unfolding settle_escrow_to_charge_def consume_escrow_def resolve_escrow_def
  by (intro keeps_bindE keeps_select keeps_case_option keeps_if keeps_ret keeps_insert_tx keeps_wallet_update keeps_update
      keeps_throw) (simp_all add: drop_reserved_def escrow_frame)

lemma keeps_charge_update: "keeps (\<lambda>d. Q (rows d)) (update_jobs_unchecked e p (\<lambda>j. j\<lparr>charge_tx_id := c\<rparr>))"
  unfolding update_jobs_unchecked_def by (intro keeps_update_stmt; simp add: flag_free_def flag_frame charge_frame)

lemma keeps_charge_escrow: "keeps (\<lambda>d. Q (rows d)) (charge_escrow e k c agent)"
proof (cases "job_id_from_sentinel c")
  case (Inr job)
  show ?thesis unfolding charge_escrow_def Inr sum.case
    by (intro keeps_transaction ensures_get_state keeps_ensures keeps_bindE keeps_settle_escrow keeps_case_option
        keeps_rollback_to keeps_ret keeps_charge_update)
qed (simp add: charge_escrow_def keeps_throw)

lemma keeps_payout: "keeps (\<lambda>d. Q (rows d)) (post_call_payout e aw pw c price agent pct policy job window curve)"
  unfolding post_call_payout_def Let_def payout_transaction_def insert_once_def
  by (auto split: sum.split intro!: keeps_throw keeps_bindE keeps_ret keeps_if keeps_case_option keeps_charge_escrow
      keeps_transaction keeps_ensures keeps_select keeps_whenE keeps_catch_when keeps_insert_tx keeps_create_hold)

lemma keeps_release_escrow: "keeps (\<lambda>d. Q (rows d)) (release_escrow_of e c)"
proof (cases "job_id_from_sentinel c")
  case (Inr job)
  show ?thesis unfolding release_escrow_of_def Inr sum.case release_escrow_def resolve_escrow_def
    by (intro keeps_transaction ensures_get_state keeps_ensures keeps_catch_when keeps_bindE keeps_ret
        keeps_rollback_to keeps_if keeps_select keeps_case_option keeps_wallet_update keeps_update keeps_throw)
      (simp_all add: drop_reserved_def escrow_frame)
qed (simp add: release_escrow_of_def keeps_throw)

lemma keeps_refund: "keeps (\<lambda>d. Q (rows d)) (post_call_refund e cw c price agent)"
  unfolding post_call_refund_def
  by (intro keeps_if keeps_throw keeps_release_escrow keeps_transaction keeps_ensures keeps_bindE keeps_select keeps_ret
      keeps_catch_when keeps_insert_tx)

lemma keeps_partial: "keeps (\<lambda>d. Q (rows d)) (post_call_partial_settle e cw aw pw c price f agent pct policy cc)"
  unfolding post_call_partial_settle_def Let_def insert_positive_def
  by (auto split: sum.split intro!: keeps_throw keeps_transaction keeps_ensures keeps_bindE keeps_select keeps_if keeps_ret
      keeps_catch_when keeps_whenE keeps_insert_tx)

end

interpretation pending_table: untouched_table pending_settlements
  by unfold_locales simp_all

interpretation message_table: untouched_table job_messages
  by unfold_locales simp_all

interpretation dispute_table: untouched_table disputes
  by unfold_locales simp_all

section \<open>The share of a partial settlement\<close>

lemma settle_units_cents_eq:
  assumes "0 \<le> price_cents j"
  shows "settle_units_cents j =
     (case declared_max_units j of
        None \<Rightarrow> if 0 < partials_count j then price_cents j else 0
      | Some n \<Rightarrow> price_cents j * min (max 0 (partials_count j)) n div n)"
proof (cases "declared_max_units j")
  case None
  then show ?thesis using assms by (auto simp: settle_units_cents_def Let_def)
next
  case (Some n)
  then have n: "0 < n" by (auto simp: declared_max_units_def split: option.splits if_splits)
  let ?u = "min (max 0 (partials_count j)) n"
  have "0 \<le> price_cents j * ?u div n" using assms n by (simp add: pos_imp_zdiv_nonneg_iff)
  moreover have "price_cents j * ?u \<le> price_cents j * n" using assms by (simp add: mult_left_mono)
  then have "price_cents j * ?u div n \<le> price_cents j"
    using n zdiv_mono1 [of "price_cents j * ?u" "price_cents j * n" n] by simp
  ultimately show ?thesis using Some n by (simp add: settle_units_cents_def Let_def)
qed

text \<open>
  What a job that was stopped early pays for its partial outputs: an amount between nothing and the
  price, nothing without an output, the whole price once the declared number of units (without a
  declaration, one unit) was emitted, never more than the units' share of the price, and one more
  output never pays less.
\<close>

theorem partial_units_bounds:
  assumes "0 \<le> price_cents j"
  shows "0 \<le> settle_units_cents j \<and> settle_units_cents j \<le> price_cents j \<and>
     (partials_count j \<le> 0 \<longrightarrow> settle_units_cents j = 0) \<and>
     (case declared_max_units j of
        None \<Rightarrow> 0 < partials_count j \<longrightarrow> settle_units_cents j = price_cents j
      | Some n \<Rightarrow> (n \<le> partials_count j \<longrightarrow> settle_units_cents j = price_cents j) \<and>
          settle_units_cents j * n \<le> price_cents j * max 0 (partials_count j)) \<and>
     settle_units_cents j \<le> settle_units_cents (j\<lparr>partials_count := partials_count j + 1\<rparr>)"
proof (cases "declared_max_units j")
  case None
  then have "declared_max_units (j\<lparr>partials_count := partials_count j + 1\<rparr>) = None"
    by (simp add: declared_max_units_def)
  with None assms show ?thesis by (simp add: settle_units_cents_eq)
next
  case (Some n)
  let ?u = "\<lambda>k. price_cents j * min (max 0 k) n"
  have n: "0 < n" using Some by (auto simp: declared_max_units_def split: option.splits if_splits)
  have next_max: "declared_max_units (j\<lparr>partials_count := partials_count j + 1\<rparr>) = Some n"
    using Some by (simp add: declared_max_units_def)
  have up: "?u (partials_count j) \<le> ?u (partials_count j + 1)" "?u (partials_count j) \<le> price_cents j * n"
    "?u (partials_count j) \<le> price_cents j * max 0 (partials_count j)" "0 \<le> ?u (partials_count j)"
    using assms n by (simp_all add: mult_left_mono)
  have "?u (partials_count j) div n \<le> price_cents j"
    using zdiv_mono1 [OF up(2) n] n by simp
  moreover have "?u (partials_count j) div n * n \<le> price_cents j * max 0 (partials_count j)"
    using up(3) n div_mult_mod_eq [of "?u (partials_count j)" n] pos_mod_sign [OF n, of "?u (partials_count j)"] by linarith
  moreover have "0 \<le> ?u (partials_count j) div n" using up(4) n by (simp add: pos_imp_zdiv_nonneg_iff)
  ultimately show ?thesis
    using Some next_max assms n zdiv_mono1 [OF up(1) n] by (simp add: settle_units_cents_eq min_def)
qed

definition sample_partial_job :: job where
  "sample_partial_job = sample_job\<lparr>job_state := Stopped, settled_at := None, billing_unit := Some ''partial'',
     partials_count := 1, stop_when_json := Some (JObj [(''max_units'', JNum 4)])\<rparr>"

lemma sample_partial_units: "settle_units_cents sample_partial_job = 25"
  by (simp add: settle_units_cents_def declared_max_units_def sample_partial_job_def sample_job_def Let_def)

lemma partial_units_bounds_witness: "settle_units_cents sample_partial_job * 4 \<le> 100 * 1"
  using partial_units_bounds [of sample_partial_job]
  by (simp add: sample_partial_job_def sample_job_def declared_max_units_def)

section \<open>Draining the queue\<close>

definition queue_ok :: "db \<Rightarrow> bool" where
  "queue_ok d \<longleftrightarrow> distinct (map ps_job_id (pending_settlements d))"

lemma oldest_drainable_Some:
  "oldest_drainable job d = Some r \<Longrightarrow> r \<in> set (pending_settlements d) \<and> drainable job r"
proof -
  assume a: "oldest_drainable job d = Some r"
  then obtain rs where "sort_key ps_terminal_at (filter (drainable job) (pending_settlements d)) = r # rs"
    by (auto simp: oldest_drainable_def split: list.splits)
  then have "set (sort_key ps_terminal_at (filter (drainable job) (pending_settlements d))) = set (r # rs)"
    by (rule arg_cong)
  then show ?thesis by auto
qed

lemma oldest_drainable_None:
  "oldest_drainable job d = None \<longleftrightarrow> (\<forall>r\<in>set (pending_settlements d). \<not> drainable job r)"
proof -
  have "oldest_drainable job d = None \<longleftrightarrow> sort_key ps_terminal_at (filter (drainable job) (pending_settlements d)) = []"
    by (simp add: oldest_drainable_def split: list.split)
  also have "\<dots> \<longleftrightarrow> filter (drainable job) (pending_settlements d) = []"
    by (metis length_0_conv length_sort)
  finally show ?thesis by (simp add: filter_empty_conv)
qed

lemma count_key_1: "distinct (map k rows) \<Longrightarrow> r \<in> set rows \<Longrightarrow> g r \<Longrightarrow> count_where (\<lambda>i. k i = k r \<and> g i) rows = 1"
proof (induction rows)
  case (Cons a rows)
  show ?case
  proof (cases "a = r")
    case True
    then have "count_where (\<lambda>i. k i = k r \<and> g i) rows = 0"
      using Cons.prems by (auto simp: count_where_0 image_iff)
    with True Cons.prems show ?thesis by simp
  next
    case False
    with Cons show ?thesis by (auto simp: image_iff)
  qed
qed simp

definition touch_row :: "string \<Rightarrow> (pending_settlement \<Rightarrow> pending_settlement) \<Rightarrow> db \<Rightarrow> db" where
  "touch_row job g d = d\<lparr>pending_settlements := update_rows (\<lambda>i. ps_job_id i = job) g (pending_settlements d)\<rparr>"

lemma wp_lease_row:
  assumes "queue_ok d"
    and "oldest_drainable job d = None \<Longrightarrow> Q None (d\<lparr>tx_failed := False\<rparr>)"
    and "\<And>r. oldest_drainable job d = Some r \<Longrightarrow>
      Q (Some (one_more_attempt r)) (touch_row (ps_job_id r) one_more_attempt (d\<lparr>tx_failed := False\<rparr>))"
  shows "wp (lease_row e job) Q E d"
proof (cases "oldest_drainable job d")
  case None
  with assms(2) show ?thesis by (simp add: lease_row_def wp_simps pg_failed_def oldest_drainable_def)
next
  case (Some r)
  note r = oldest_drainable_Some [OF Some]
  have g: "update_rows (\<lambda>i. ps_job_id i = ps_job_id r \<and> ps_settled_at i = None \<and> ps_attempts i = ps_attempts r)
      one_more_attempt (pending_settlements d) = update_rows (\<lambda>i. ps_job_id i = ps_job_id r) one_more_attempt (pending_settlements d)"
    using assms(1) r by (intro update_rows_key_guard) (auto simp: queue_ok_def drainable_def)
  have c: "count_where (\<lambda>i. ps_job_id i = ps_job_id r \<and> ps_settled_at i = None \<and> ps_attempts i = ps_attempts r)
      (pending_settlements d) = 1"
    using assms(1) r by (intro count_key_1) (auto simp: queue_ok_def drainable_def)
  have "oldest_drainable job (d\<lparr>tx_failed := False\<rparr>) = Some r" using Some by (simp add: oldest_drainable_def)
  then show ?thesis
    using assms(3) [OF Some] g c
    by (cases "backend e") (simp_all add: lease_row_def wp_simps pg_failed_def touch_row_def)
qed

lemma keeps_settle_row_queue: "keeps (\<lambda>d. Q (pending_settlements d)) (settle_row e r)"
  unfolding settle_row_def settle_stopped_def settle_partial_units_def settle_full_call_def settle_for_def Let_def get_job_def
  by (intro keeps_bindE keeps_case_option keeps_ret keeps_whenE keeps_if keeps_throw pending_table.keeps_payout
      pending_table.keeps_transaction ensures_select)

text \<open>What a drain does to the queue: it touches the leased row alone.\<close>

definition drain_mark :: "(pending_settlement \<Rightarrow> pending_settlement) \<Rightarrow> bool" where
  "drain_mark g \<longleftrightarrow> (\<forall>i. ps_job_id (g i) = ps_job_id i \<and> ps_attempts (g i) = ps_attempts i)"

lemma wp_stamp_done:
  "wp (stamp_done e job) (\<lambda>_ d'. \<exists>g. drain_mark g \<and> d' = touch_row job g (d\<lparr>tx_failed := False\<rparr>)) (\<lambda>_ _. False) d"
  unfolding stamp_done_def
  by (simp add: wp_simps pg_failed_def touch_row_def)
    (rule exI [where x = "\<lambda>i. i\<lparr>ps_settled_at := Some (case ps_settled_at i of None \<Rightarrow> now e | Some t \<Rightarrow> t),
               ps_receipt_built_at := Some (case ps_receipt_built_at i of None \<Rightarrow> now e | Some t \<Rightarrow> t)\<rparr>"],
     simp add: drain_mark_def)

lemma wp_record_failure:
  "wp (record_failure e job ex) (\<lambda>_ d'. \<exists>g. drain_mark g \<and> d' = touch_row job g (d\<lparr>tx_failed := False\<rparr>)) (\<lambda>_ _. False) d"
  unfolding record_failure_def
  by (simp add: wp_simps pg_failed_def touch_row_def)
    (rule exI [where x = "\<lambda>i. i\<lparr>ps_last_error := Some ex\<rparr>"], simp add: drain_mark_def)

lemma touch_row_twice:
  "(\<And>i. ps_job_id (h i) = ps_job_id i) \<Longrightarrow>
   pending_settlements (touch_row job g (touch_row job h d)) = pending_settlements (touch_row job (g \<circ> h) d)"
  by (simp add: touch_row_def update_rows_def)

lemma wp_drain_one:
  assumes "queue_ok d"
  shows "wp (drain_one e job)
     (\<lambda>b d'. case oldest_drainable job d of
        None \<Rightarrow> \<not> b \<and> d' = d\<lparr>tx_failed := False\<rparr>
      | Some r \<Rightarrow> b \<and> (\<exists>g. drain_mark g \<and>
          pending_settlements d' = update_rows (\<lambda>i. ps_job_id i = ps_job_id r) (g \<circ> one_more_attempt) (pending_settlements d)))
     (\<lambda>_ _. False) d"
  unfolding drain_one_def wp_bindE
proof (rule wp_lease_row [OF assms])
  assume "oldest_drainable job d = None"
  then show "wp (case None of None \<Rightarrow> ret False
         | Some r \<Rightarrow> catchE (bindE (settle_row e r) (\<lambda>_. bindE (stamp_done e (ps_job_id r)) (\<lambda>_. ret True)))
             (\<lambda>ex. bindE (record_failure e (ps_job_id r) ex) (\<lambda>_. ret True)))
     (\<lambda>b d'. case oldest_drainable job d of
        None \<Rightarrow> \<not> b \<and> d' = d\<lparr>tx_failed := False\<rparr>
      | Some r \<Rightarrow> b \<and> (\<exists>g. drain_mark g \<and>
          pending_settlements d' = update_rows (\<lambda>i. ps_job_id i = ps_job_id r) (g \<circ> one_more_attempt) (pending_settlements d)))
     (\<lambda>_ _. False) (d\<lparr>tx_failed := False\<rparr>)"
    by (simp add: wp_simps)
next
  fix r assume r: "oldest_drainable job d = Some r"
  let ?k = "ps_job_id r"
  let ?d1 = "touch_row ?k one_more_attempt (d\<lparr>tx_failed := False\<rparr>)"
  have id: "ps_job_id (one_more_attempt i) = ps_job_id i" for i by (simp add: one_more_attempt_def)
  have settled: "wp (settle_row e (one_more_attempt r)) (\<lambda>_ d2. pending_settlements d2 = pending_settlements ?d1)
      (\<lambda>_ d2. pending_settlements d2 = pending_settlements ?d1) ?d1"
    by (rule keeps_wp [OF keeps_settle_row_queue]) simp
  have last: "\<exists>g. drain_mark g \<and> pending_settlements d' =
        update_rows (\<lambda>i. ps_job_id i = ?k) (g \<circ> one_more_attempt) (pending_settlements d)"
    if "drain_mark g" "d' = touch_row ?k g (d2\<lparr>tx_failed := False\<rparr>)" "pending_settlements d2 = pending_settlements ?d1"
    for g d' d2
    using that touch_row_twice [of one_more_attempt ?k g d] id by (auto simp: touch_row_def intro!: exI [where x = g])
  show "wp (case Some (one_more_attempt r) of None \<Rightarrow> ret False
         | Some r \<Rightarrow> catchE (bindE (settle_row e r) (\<lambda>_. bindE (stamp_done e (ps_job_id r)) (\<lambda>_. ret True)))
             (\<lambda>ex. bindE (record_failure e (ps_job_id r) ex) (\<lambda>_. ret True)))
     (\<lambda>b d'. case oldest_drainable job d of
        None \<Rightarrow> \<not> b \<and> d' = d\<lparr>tx_failed := False\<rparr>
      | Some r \<Rightarrow> b \<and> (\<exists>g. drain_mark g \<and>
          pending_settlements d' = update_rows (\<lambda>i. ps_job_id i = ps_job_id r) (g \<circ> one_more_attempt) (pending_settlements d)))
     (\<lambda>_ _. False) ?d1"
    unfolding option.case wp_catchE wp_bindE wp_ret r id
    using last by (intro wp_post_mono [OF settled])
      (auto intro: wp_post_mono [OF wp_stamp_done] wp_post_mono [OF wp_record_failure])
qed

definition attempts_left :: "pending_settlement \<Rightarrow> nat" where
  "attempts_left r = (if ps_settled_at r = None then MAX_ATTEMPTS - ps_attempts r else 0)"

definition work_left :: "db \<Rightarrow> nat" where
  "work_left d = sum_list (map attempts_left (pending_settlements d))"

lemma sum_list_update_key_less:
  assumes "distinct (map k rows)" and "r \<in> set rows" and "\<And>i. k (f i) = k i" and "f' (f r) < (f' r :: nat)"
  shows "sum_list (map f' (update_rows (\<lambda>i. k i = k r) f rows)) < sum_list (map f' rows)"
  using assms
proof (induction rows)
  case (Cons a rows)
  show ?case
  proof (cases "a = r")
    case True
    with Cons.prems(1) have "update_rows (\<lambda>i. k i = k r) f rows = rows"
      by (intro update_rows_none) (auto simp: image_iff)
    with True Cons.prems show ?thesis by simp
  next
    case False
    with Cons show ?thesis by (auto simp: image_iff)
  qed
qed simp

lemma drained_row:
  assumes "queue_ok d" and "oldest_drainable job d = Some r" and "drain_mark g"
    and p: "pending_settlements d' = update_rows (\<lambda>i. ps_job_id i = ps_job_id r) (g \<circ> one_more_attempt) (pending_settlements d)"
  shows "queue_ok d' \<and> work_left d' < work_left d \<and>
     (\<forall>s\<in>set (pending_settlements d). ps_settled_at s \<noteq> None \<longrightarrow> s \<in> set (pending_settlements d'))"
proof -
  note r = oldest_drainable_Some [OF assms(2)]
  have keys: "map ps_job_id (pending_settlements d') = map ps_job_id (pending_settlements d)"
    using assms(3) unfolding p by (intro map_update_rows_same) (simp add: drain_mark_def one_more_attempt_def)
  have "attempts_left ((g \<circ> one_more_attempt) r) < attempts_left r"
    using r assms(3) by (auto simp: attempts_left_def drain_mark_def one_more_attempt_def drainable_def MAX_ATTEMPTS_def)
  then have "work_left d' < work_left d"
    unfolding work_left_def p using assms(1,3) r
    by (intro sum_list_update_key_less) (auto simp: queue_ok_def drain_mark_def one_more_attempt_def)
  moreover have "s \<in> set (pending_settlements d')"
    if s: "s \<in> set (pending_settlements d)" "ps_settled_at s \<noteq> None" for s
  proof -
    have "ps_job_id s \<noteq> ps_job_id r"
      using s r assms(1) by (auto simp: queue_ok_def distinct_map inj_on_def drainable_def)
    then show ?thesis unfolding p by (intro in_update_rows s(1)) simp
  qed
  ultimately show ?thesis using keys assms(1) by (simp add: queue_ok_def)
qed

text \<open>
  C20. The sweep ends. With room for the attempts that are left (at most five per row), draining the queue
  returns, whatever the single settlements do, after at most that many rows; then every row is
  settled or has used its five attempts, and the rows that were settled before are still there,
  untouched.
\<close>

theorem drain_all_empties_queue:
  assumes "queue_ok d" and "work_left d \<le> length es"
  shows "wp (drain_all es)
     (\<lambda>n d'. n \<le> work_left d \<and> queue_ok d' \<and>
        (\<forall>r\<in>set (pending_settlements d'). ps_settled_at r \<noteq> None \<or> MAX_ATTEMPTS \<le> ps_attempts r) \<and>
        (\<forall>r\<in>set (pending_settlements d). ps_settled_at r \<noteq> None \<longrightarrow> r \<in> set (pending_settlements d')))
     (\<lambda>_ _. False) d"
  using assms
proof (induction es arbitrary: d)
  case Nil
  then have "attempts_left r = 0" if "r \<in> set (pending_settlements d)" for r
    using that by (simp add: work_left_def)
  then have "ps_settled_at r \<noteq> None \<or> MAX_ATTEMPTS \<le> ps_attempts r" if "r \<in> set (pending_settlements d)" for r
    using that by (force simp: attempts_left_def split: if_splits)
  with Nil show ?case by (simp add: wp_simps)
next
  case (Cons e es)
  show ?case
    unfolding drain_all.simps wp_bindE
  proof (rule wp_post_mono [OF wp_drain_one [OF Cons.prems(1)]], goal_cases)
    case (1 b d')
    show ?case
    proof (cases "oldest_drainable None d")
      case None
      with 1 Cons.prems(1) show ?thesis
        by (auto simp: wp_simps oldest_drainable_None drainable_def or_empty_def queue_ok_def)
    next
      case (Some r)
      with 1 obtain g where g: "b" "drain_mark g"
        "pending_settlements d' = update_rows (\<lambda>i. ps_job_id i = ps_job_id r) (g \<circ> one_more_attempt) (pending_settlements d)"
        by auto
      note d' = drained_row [OF Cons.prems(1) Some g(2,3)]
      have "wp (drain_all es) (\<lambda>n d''. n \<le> work_left d' \<and> queue_ok d'' \<and>
          (\<forall>r\<in>set (pending_settlements d''). ps_settled_at r \<noteq> None \<or> MAX_ATTEMPTS \<le> ps_attempts r) \<and>
          (\<forall>r\<in>set (pending_settlements d'). ps_settled_at r \<noteq> None \<longrightarrow> r \<in> set (pending_settlements d'')))
        (\<lambda>_ _. False) d'"
        using d' Cons.prems(2) by (intro Cons.IH) auto
      then show ?thesis using g(1) d' by (auto simp: wp_simps elim!: wp_post_mono)
    qed
  qed simp
qed

definition sample_stopped_db :: db where
  "sample_stopped_db = sample_db\<lparr>jobs := [sample_partial_job], pending_settlements := [new_pending ''j1'' ''stopped'' 5]\<rparr>"

lemma sample_queue_ok [simp]: "queue_ok sample_stopped_db"
  by (simp add: queue_ok_def sample_stopped_db_def)

lemma drain_all_empties_queue_witness:
  "wp (drain_all (replicate 5 (sample_env SQLite)))
     (\<lambda>n d'. oldest_drainable None d' = None) (\<lambda>_ _. False) sample_stopped_db"
  by (rule wp_post_mono [OF drain_all_empties_queue [OF sample_queue_ok]])
    (auto simp: work_left_def sample_stopped_db_def attempts_left_def new_pending_def MAX_ATTEMPTS_def
      oldest_drainable_None drainable_def not_less)

section \<open>What a drain does\<close>

definition refunds :: "txn list \<Rightarrow> txn list" where
  "refunds ts = filter (\<lambda>t. tx_kind t = Refund) ts"

lemma keeps_refunds_payout:
  "keeps (\<lambda>d. refunds (transactions d) = rs) (post_call_payout e aw pw c price agent pct policy job window curve)"
proof -
  have leg: "keeps (\<lambda>d. refunds (transactions d) = rs) (insert_tx e k wid kind a ag rel m key)"
    if "kind \<noteq> Refund" for k wid kind a ag rel m key
    using that by (intro keeps_ledger_insert_tx [where L = "\<lambda>ts. refunds ts = rs"]) (simp add: refunds_def)
  have esc: "keeps (\<lambda>d. refunds (transactions d) = rs) (settle_escrow_to_charge e k j agent)" for k j
    unfolding settle_escrow_to_charge_def consume_escrow_def
    by (intro keeps_bindE keeps_select keeps_case_option keeps_if keeps_ret keeps_ledger_update leg
        keeps_ledger_resolve_escrow [where L = "\<lambda>ts. refunds ts = rs"]) simp_all
  have charge: "keeps (\<lambda>d. refunds (transactions d) = rs) (charge_escrow e k c agent)" for k
  proof (cases "job_id_from_sentinel c")
    case (Inr j)
    show ?thesis unfolding charge_escrow_def Inr sum.case update_jobs_unchecked_def
      by (intro keeps_ledger_transact [where L = "\<lambda>ts. refunds ts = rs"] ensures_get_state keeps_ensures keeps_bindE esc
          keeps_case_option keeps_rollback_to keeps_ret keeps_ledger_update) simp_all
  qed (simp add: charge_escrow_def keeps_throw)
  show ?thesis
    unfolding post_call_payout_def Let_def payout_transaction_def insert_once_def
    by (auto split: sum.split intro!: keeps_throw keeps_bindE keeps_ret keeps_if keeps_case_option charge leg
        keeps_ledger_transact [where L = "\<lambda>ts. refunds ts = rs"] keeps_ensures keeps_select keeps_whenE keeps_catch_when
        keeps_ledger_create_hold [where L = "\<lambda>ts. refunds ts = rs"])
qed

text \<open>The tables of the ledger do not see the queue.\<close>

lemma touch_row_frame [simp]:
  "wallets (touch_row k g d) = wallets d" "transactions (touch_row k g d) = transactions d"
  "wallet_holds (touch_row k g d) = wallet_holds d" "tx_failed (touch_row k g d) = tx_failed d"
  "ledger_ok (touch_row k g d) = ledger_ok d" "balance_of w (touch_row k g d) = balance_of w d"
  "has_wallet w (touch_row k g d) = has_wallet w d" "open_charge c (touch_row k g d) = open_charge c d"
  "new_id x (touch_row k g d) = new_id x d" "no_hold_for x y (touch_row k g d) = no_hold_for x y d"
  using ledger_ok_tables [of "touch_row k g d" d]
  by (simp_all add: touch_row_def balance_of_def find_wallet_def has_wallet_def open_charge_def new_id_def no_hold_for_def)

lemma touch_row_flag [simp]: "(touch_row k g (d\<lparr>tx_failed := b\<rparr>))\<lparr>tx_failed := b2\<rparr> = touch_row k g (d\<lparr>tx_failed := b2\<rparr>)"
  by (simp add: touch_row_def)

lemma oldest_drainable_key:
  assumes "queue_ok d" and "r \<in> set (pending_settlements d)" and "drainable (Some (ps_job_id r)) r" and "ps_job_id r \<noteq> []"
  shows "oldest_drainable (Some (ps_job_id r)) d = Some r"
proof -
  have "filter (drainable (Some (ps_job_id r))) rows = [r]"
    if "distinct (map ps_job_id rows)" "r \<in> set rows" for rows
    using that
  proof (induction rows)
    case (Cons a rows)
    show ?case
    proof (cases "a = r")
      case True
      then have "filter (drainable (Some (ps_job_id r))) rows = []"
        using Cons.prems assms(4) by (auto simp: filter_empty_conv drainable_def or_empty_def image_iff)
      with True assms(3) show ?thesis by simp
    next
      case False
      with Cons assms(4) show ?thesis by (auto simp: drainable_def or_empty_def image_iff)
    qed
  qed simp
  with assms(1,2) show ?thesis by (simp add: oldest_drainable_def queue_ok_def)
qed

text \<open>A row of the queue that waits for the settlement of a stopped job.\<close>

definition waiting :: "pending_settlement \<Rightarrow> job \<Rightarrow> db \<Rightarrow> bool" where
  "waiting r j d \<longleftrightarrow> queue_ok d \<and> r \<in> set (pending_settlements d) \<and> drainable (Some (ps_job_id r)) r \<and>
     ps_job_id r \<noteq> [] \<and> ps_terminal_state r = ''stopped'' \<and> find_job (ps_job_id r) d = Some j"

lemma waiting_find: "waiting r j d \<Longrightarrow> find (\<lambda>i. ps_job_id i = ps_job_id r) (pending_settlements d) = Some r"
  unfolding waiting_def queue_ok_def by (intro find_distinct_key) auto

lemma wp_drain_waiting:
  assumes w: "waiting r j d"
    and s: "wp (settle_stopped e j) N F (touch_row (ps_job_id r) one_more_attempt (d\<lparr>tx_failed := False\<rparr>))"
    and N: "\<And>d2. N () d2 \<Longrightarrow> wp (stamp_done e (ps_job_id r)) (\<lambda>_. Q True) (\<lambda>_ _. False) d2"
    and F: "\<And>ex d2. F ex d2 \<Longrightarrow> wp (record_failure e (ps_job_id r) ex) (\<lambda>_. Q True) E d2"
  shows "wp (drain_one e (Some (ps_job_id r))) Q E d"
proof -
  note o = oldest_drainable_key [of d r]
  have old: "oldest_drainable (Some (ps_job_id r)) d = Some r" using w by (intro o) (auto simp: waiting_def)
  let ?d1 = "touch_row (ps_job_id r) one_more_attempt (d\<lparr>tx_failed := False\<rparr>)"
  have f: "find_job (ps_job_id r) ?d1 = Some j"
    using w by (simp add: waiting_def find_job_def touch_row_def)
  have row: "wp (settle_row e (one_more_attempt r)) N F ?d1"
    using s f w by (simp add: settle_row_def one_more_attempt_def get_job_def wp_simps pg_failed_def waiting_def)
  show ?thesis
    unfolding drain_one_def wp_bindE
  proof (rule wp_lease_row)
    show "queue_ok d" using w by (simp add: waiting_def)
  next
    fix r' assume "oldest_drainable (Some (ps_job_id r)) d = Some r'"
    with old have r': "r' = r" by simp
    have "ps_job_id (one_more_attempt r) = ps_job_id r" by (simp add: one_more_attempt_def)
    then show "wp (case Some (one_more_attempt r') of None \<Rightarrow> ret False
         | Some r \<Rightarrow> catchE (bindE (settle_row e r) (\<lambda>_. bindE (stamp_done e (ps_job_id r)) (\<lambda>_. ret True)))
             (\<lambda>ex. bindE (record_failure e (ps_job_id r) ex) (\<lambda>_. ret True))) Q E
        (touch_row (ps_job_id r') one_more_attempt (d\<lparr>tx_failed := False\<rparr>))"
      unfolding r' option.case wp_catchE wp_bindE wp_ret
      by (intro wp_post_mono [OF row]) (auto intro: F wp_post_mono [OF N])
  qed (simp add: old)
qed

text \<open>
  C40. A partial settlement never refunds. A stopped job whose units settle less than the price is drained
  with a failure every time, on any ledger: no refund is written, the row stays unsettled with an
  error and one attempt more, so after five attempts the runner gives the caller's money up.
\<close>

theorem partial_settlement_never_refunds:
  assumes w: "waiting r j d" and b: "billing_unit_of j = ''partial''" and less: "settle_units_cents j < price_cents j"
  shows "wp (drain_one e (Some (ps_job_id r)))
     (\<lambda>b d'. b \<and> refunds (transactions d') = refunds (transactions d) \<and>
        (\<exists>i. find (\<lambda>i. ps_job_id i = ps_job_id r) (pending_settlements d') = Some i \<and> ps_settled_at i = None \<and>
           ps_last_error i \<noteq> None \<and> ps_attempts i = ps_attempts r + 1))
     (\<lambda>_ _. False) d"
proof -
  let ?d1 = "touch_row (ps_job_id r) one_more_attempt (d\<lparr>tx_failed := False\<rparr>)"
  define P :: "db \<Rightarrow> bool" where "P d2 \<longleftrightarrow> refunds (transactions d2) = refunds (transactions d) \<and>
      pending_settlements d2 = pending_settlements ?d1" for d2
  have "wp (settle_for e j (settle_units_cents j)) (\<lambda>_. P) (\<lambda>_. P) ?d1"
    unfolding P_def settle_for_def
    by (intro wp_conj keeps_wp [OF keeps_refunds_payout] keeps_wp [OF pending_table.keeps_payout]) (simp_all add: touch_row_def)
  then have s: "wp (settle_stopped e j) (\<lambda>_ _. False) (\<lambda>_. P) ?d1"
    using b less by (auto simp: settle_stopped_def settle_partial_units_def Let_def wp_simps P_def touch_row_def elim!: wp_post_mono)
  have f: "find (\<lambda>i. ps_job_id i = ps_job_id r) (update_rows (\<lambda>i. ps_job_id i = ps_job_id r) g (pending_settlements ?d1)) =
      Some (g (one_more_attempt r))" if "\<And>i. ps_job_id (g i) = ps_job_id i" for g
    using waiting_find [OF w] that by (simp add: touch_row_def find_update_same one_more_attempt_def)
  have "ps_settled_at r = None" using w by (simp add: waiting_def drainable_def)
  then show ?thesis
    using f by (intro wp_drain_waiting [OF w s])
      (auto simp: record_failure_def wp_simps pg_failed_def P_def one_more_attempt_def)
qed

lemma partial_settlement_never_refunds_witness:
  "wp (drain_one (sample_env SQLite) (Some ''j1''))
     (\<lambda>b d'. b \<and> refunds (transactions d') = [] \<and> (\<exists>i\<in>set (pending_settlements d'). ps_settled_at i = None)) (\<lambda>_ _. False)
     sample_stopped_db"
proof -
  have w: "waiting (new_pending ''j1'' ''stopped'' 5) sample_partial_job sample_stopped_db"
    unfolding waiting_def by simp (simp add: sample_stopped_db_def new_pending_def drainable_def or_empty_def MAX_ATTEMPTS_def
        find_job_def sample_partial_job_def sample_job_def)
  have "billing_unit_of sample_partial_job = ''partial''" "settle_units_cents sample_partial_job < price_cents sample_partial_job"
    by (simp_all add: sample_partial_units)
      (simp_all add: billing_unit_of_def sample_partial_job_def sample_job_def py_strip_def py_space_def or_text_def or_empty_def)
  from partial_settlement_never_refunds [OF w this, of "sample_env SQLite"] show ?thesis
    by (auto simp: new_pending_def sample_stopped_db_def sample_defs refunds_def elim!: wp_post_mono dest: find_SomeD)
qed

text \<open>
  C19. A stopped job that is billed per call is settled like a completed one, once: the drain pays the
  agent and the platform in full, keeps the ledger balanced and stamps the row, and every later drain
  of the job answers false and changes nothing.
\<close>

theorem stopped_call_settled_once:
  assumes w: "waiting r j d" and b: "billing_unit_of j \<noteq> ''partial''"
    and ok: "ledger_ok d"
    and s: "compute_success_distribution (PLATFORM_FEE_PCT e) (price_cents j) (Some (platform_fee_pct_at_create j))
              (Some (fee_bearer_policy j)) = Inr s"
    and wal: "has_wallet (agent_wallet_id j) d" "has_wallet (platform_wallet_id j) d"
    and c: "\<not> is_escrow_tx_id (charge_tx_id j)" "open_charge (charge_tx_id j) d"
    and new: "new_id (uuid e 1) d" "new_id (uuid e 2) d" "uuid e 1 \<noteq> uuid e 2" "no_hold_for (uuid e 3) [] d"
  shows "wp (drain_one e (Some (ps_job_id r)))
     (\<lambda>b d'. b \<and> ledger_ok d' \<and>
        (\<forall>w. balance_of w d' = balance_of w d + (if w = agent_wallet_id j then dist_agent_payout_cents s else 0) +
               (if w = platform_wallet_id j then dist_platform_fee_cents s else 0)) \<and>
        (\<exists>i. find (\<lambda>i. ps_job_id i = ps_job_id r) (pending_settlements d') = Some i \<and> ps_settled_at i = Some (now e)) \<and>
        (\<forall>e2. drain_one e2 (Some (ps_job_id r)) d' = (Inr False, d'\<lparr>tx_failed := False\<rparr>)))
     (\<lambda>_ _. False) d"
proof -
  let ?k = "ps_job_id r"
  let ?d1 = "touch_row ?k one_more_attempt (d\<lparr>tx_failed := False\<rparr>)"
  define P :: "db \<Rightarrow> bool" where "P d2 \<longleftrightarrow> ledger_ok d2 \<and>
      (\<forall>w. balance_of w d2 = balance_of w d + (if w = agent_wallet_id j then dist_agent_payout_cents s else 0) +
               (if w = platform_wallet_id j then dist_platform_fee_cents s else 0))" for d2
  have "wp (settle_stopped e j) (\<lambda>_. P) (\<lambda>_ _. False) ?d1"
    unfolding settle_stopped_def settle_full_call_def settle_for_def
    using b ok wal c new by (auto simp: P_def intro!: wp_post_mono [OF wp_post_call_payout [OF _ s]] simp: or_empty_def)
  moreover have "wp (settle_stopped e j) (\<lambda>_ d2. pending_settlements d2 = pending_settlements ?d1)
      (\<lambda>_ d2. pending_settlements d2 = pending_settlements ?d1) ?d1"
    unfolding settle_stopped_def settle_full_call_def settle_for_def
    using b by (auto intro!: keeps_wp [OF pending_table.keeps_payout])
  ultimately have s: "wp (settle_stopped e j) (\<lambda>_ d2. P d2 \<and> pending_settlements d2 = pending_settlements ?d1) (\<lambda>_ _. False) ?d1"
    by (rule wp_post_mono [OF wp_conj]) auto
  show ?thesis
  proof (rule wp_drain_waiting [OF w s], goal_cases)
    case (1 d2)
    let ?g = "\<lambda>i. i\<lparr>ps_settled_at := Some (case ps_settled_at i of None \<Rightarrow> now e | Some t \<Rightarrow> t),
               ps_receipt_built_at := Some (case ps_receipt_built_at i of None \<Rightarrow> now e | Some t \<Rightarrow> t)\<rparr>"
    let ?d3 = "touch_row ?k ?g (d2\<lparr>tx_failed := False\<rparr>)"
    have keys: "map ps_job_id (pending_settlements ?d3) = map ps_job_id (pending_settlements d)"
      using 1 by (simp add: touch_row_def map_update_rows_same one_more_attempt_def)
    have f: "find (\<lambda>i. ps_job_id i = ?k) (pending_settlements ?d3) = Some (?g (one_more_attempt r))"
      using 1 waiting_find [OF w] by (simp add: touch_row_def find_update_same one_more_attempt_def)
    have none: "oldest_drainable (Some ?k) ?d3 = None"
    proof -
      have "ps_settled_at i \<noteq> None" if "i \<in> set (pending_settlements ?d3)" "ps_job_id i = ?k" for i
        using find_distinct_key [of ps_job_id "pending_settlements ?d3" i] keys w f that
        by (auto simp: waiting_def queue_ok_def)
      moreover have "?k \<noteq> []" using w by (simp add: waiting_def)
      ultimately show ?thesis
        unfolding oldest_drainable_None drainable_def or_empty_def option.case by blast
    qed
    have again: "drain_one e2 (Some ?k) ?d3 = (Inr False, ?d3\<lparr>tx_failed := False\<rparr>)" for e2
    proof -
      have "wp (drain_one e2 (Some ?k)) (\<lambda>b d'. \<not> b \<and> d' = ?d3\<lparr>tx_failed := False\<rparr>) (\<lambda>_ _. False) ?d3"
        using wp_drain_one [of ?d3 e2 "Some ?k"] keys w none by (simp add: queue_ok_def waiting_def)
      then show ?thesis by (auto simp: wp_def split: prod.splits sum.splits)
    qed
    have "ps_settled_at r = None" using w by (simp add: waiting_def drainable_def)
    moreover have "wp (stamp_done e ?k) Q E d2 = Q () ?d3" for Q E
      by (simp add: stamp_done_def wp_simps pg_failed_def touch_row_def)
    ultimately show ?case
      using 1 f again by (simp add: P_def one_more_attempt_def)
  qed simp
qed

definition sample_call_job :: job where
  "sample_call_job = sample_partial_job\<lparr>billing_unit := None\<rparr>"

lemma stopped_call_settled_once_witness:
  "wp (drain_one (sample_env SQLite) (Some ''j1'')) (\<lambda>b d'. b \<and> balance_of ''w2'' d' = 100 \<and> balance_of ''w3'' d' = 10)
     (\<lambda>_ _. False) (sample_stopped_db\<lparr>jobs := [sample_call_job]\<rparr>)"
proof -
  let ?d = "sample_stopped_db\<lparr>jobs := [sample_call_job]\<rparr>"
  have w: "waiting (new_pending ''j1'' ''stopped'' 5) sample_call_job ?d"
    by (simp add: waiting_def queue_ok_def sample_stopped_db_def new_pending_def drainable_def or_empty_def MAX_ATTEMPTS_def
        find_job_def sample_call_job_def sample_partial_job_def sample_job_def)
  have b: "billing_unit_of sample_call_job \<noteq> ''partial''"
    by (simp add: billing_unit_of_def sample_call_job_def py_strip_def py_space_def or_text_def or_empty_def)
  have ok: "ledger_ok ?d"
    using sample_ledger_ok ledger_ok_tables [of ?d sample_db] by (simp add: sample_stopped_db_def)
  have s: "compute_success_distribution (PLATFORM_FEE_PCT (sample_env SQLite)) (price_cents sample_call_job)
      (Some (platform_fee_pct_at_create sample_call_job)) (Some (fee_bearer_policy sample_call_job)) =
     Inr \<lparr>dist_caller_charge_cents = 110, dist_agent_payout_cents = 100, dist_platform_fee_cents = 10\<rparr>"
    by (simp add: sample_call_job_def sample_partial_job_def sample_job_def compute_success_distribution_def
        compute_platform_fee_cents_value effective_pct_def policy_defs Let_def) (simp add: round_half_up_def floor_eq_iff)
  show ?thesis
    by (rule wp_post_mono [OF stopped_call_settled_once [OF w b ok s], unfolded new_pending_def pending_settlement.select_convs])
      (auto simp: sample_stopped_db_def sample_call_job_def sample_partial_job_def sample_job_def sample_defs has_wallet_def
        is_escrow_tx_id_def ESCROW_TX_PREFIX_def open_charge_def related_in_def new_id_def no_hold_for_def
        balance_of_def find_wallet_def)
qed

end
