(* ===== verification/Messaging.thy ===== *)
theory Messaging
  imports Leases Settlement_Runner
begin

text \<open>
  \<open>core/jobs/messaging.py\<close>: typed job messages and what they do to the lease, the status and the
  co-pilot counters of the job, the stop on a matching predicate with its settlement, the queries over
  messages, and the quality and dispute marks. The body of a message after
  \<open>normalize_job_message_body\<close> is an argument; publishing to subscribers is left out.
\<close>

section \<open>Lease behaviour of a message\<close>

datatype lease_behavior = Extend | ExtendAndMarkAwaiting | ExtendAndResumeRunning | NoEffect

definition MESSAGE_TYPE_LEASE_BEHAVIOR :: "(string \<times> lease_behavior) list" where
  "MESSAGE_TYPE_LEASE_BEHAVIOR =
     [(''clarification_request'', ExtendAndMarkAwaiting), (''clarification_response'', ExtendAndResumeRunning),
      (''progress'', Extend), (''partial_result'', Extend), (''partial_output'', Extend), (''artifact'', Extend),
      (''agent_message'', Extend), (''tool_call'', Extend), (''tool_result'', Extend), (''note'', Extend),
      (''steer'', NoEffect)]"

definition LEGACY_MESSAGE_TYPE_LEASE_BEHAVIOR :: "(string \<times> lease_behavior) list" where
  "LEGACY_MESSAGE_TYPE_LEASE_BEHAVIOR =
     [(''clarification_needed'', ExtendAndMarkAwaiting), (''clarification'', ExtendAndResumeRunning)]"

definition resolve_message_lease_behavior :: "string \<Rightarrow> string \<Rightarrow> lease_behavior option" where
  "resolve_message_lease_behavior raw_type canonical_type =
     (case map_of MESSAGE_TYPE_LEASE_BEHAVIOR canonical_type of
        Some b \<Rightarrow> Some b
      | None \<Rightarrow> map_of LEGACY_MESSAGE_TYPE_LEASE_BEHAVIOR raw_type)"

fun resolve_status_target :: "lease_behavior option \<Rightarrow> job_status option" where
  "resolve_status_target (Some ExtendAndMarkAwaiting) = Some AwaitingClarification"
| "resolve_status_target (Some ExtendAndResumeRunning) = Some Running"
| "resolve_status_target _ = None"

fun extends_lease :: "lease_behavior option \<Rightarrow> bool" where
  "extends_lease (Some Extend) = True"
| "extends_lease (Some ExtendAndMarkAwaiting) = True"
| "extends_lease (Some ExtendAndResumeRunning) = True"
| "extends_lease _ = False"

record message_body =
  body_type :: string
  body_canonical_type :: string
  body_payload :: json
  body_correlation_id :: "string option"

record normal_message =
  nm_type :: string
  nm_canonical_type :: string
  nm_payload :: json
  nm_correlation_id :: "string option"
  nm_extends :: bool
  nm_status_target :: "job_status option"

definition normalize_message_for_insert :: "message_body \<Rightarrow> normal_message" where
  "normalize_message_for_insert b =
     (let behavior = resolve_message_lease_behavior (body_type b) (body_canonical_type b) in
      \<lparr>nm_type = body_type b, nm_canonical_type = body_canonical_type b, nm_payload = body_payload b,
       nm_correlation_id = clean_optional_text (body_correlation_id b),
       nm_extends = extends_lease behavior, nm_status_target = resolve_status_target behavior\<rparr>)"

definition validate_tool_result_correlation :: "env \<Rightarrow> string \<Rightarrow> normal_message \<Rightarrow> (db, unit) prog" where
  "validate_tool_result_correlation e job n =
     (if nm_canonical_type n \<noteq> ''tool_result'' then ret ()
      else if nm_correlation_id n = None then throw (ValueError ''tool_result messages require a correlation_id.'')
      else bindE (message_correlation_exists_conn e job (nm_correlation_id n) (Some ''tool_call'')) (\<lambda>known.
        if known then ret () else throw (ValueError ''tool_result correlation_id has no matching tool_call.'')))"

section \<open>Effects on the lease and the status\<close>

definition next_lease_expiry :: "env \<Rightarrow> int \<Rightarrow> job \<Rightarrow> int" where
  "next_lease_expiry e lease j =
     (case lease_expires_at j of
        None \<Rightarrow> after_seconds e lease
      | Some x \<Rightarrow> if now e < x then x + lease * micros_per_second else after_seconds e lease)"

definition asks_clarification :: "normal_message \<Rightarrow> bool" where
  "asks_clarification n \<longleftrightarrow> nm_canonical_type n = ''clarification_request''"

definition answers_clarification :: "normal_message \<Rightarrow> bool" where
  "answers_clarification n \<longleftrightarrow> nm_canonical_type n = ''clarification_response''"

definition clarification_deadline_of :: "env \<Rightarrow> normal_message \<Rightarrow> job \<Rightarrow> int option" where
  "clarification_deadline_of e n j =
     (let timeout = to_non_negative_int (Some (clarification_timeout_seconds j)) 0 in
      if \<not> asks_clarification n \<or> timeout \<le> 0 then None else Some (after_seconds e timeout))"

definition sets_status :: "normal_message \<Rightarrow> job \<Rightarrow> bool" where
  "sets_status n j \<longleftrightarrow> nm_status_target n \<noteq> None \<and> completed_at j = None \<and> settled_at j = None"

definition lease_extended :: "normal_message \<Rightarrow> job \<Rightarrow> bool" where
  "lease_extended n j \<longleftrightarrow> nm_extends n \<and> clean_optional_text (claim_owner_id j) \<noteq> None \<and>
     clean_optional_text (claim_token j) \<noteq> None"

text \<open>The \<open>UPDATE\<close> of \<open>_JOB_MESSAGE_SIDE_EFFECT_SQL\<close>: \<open>j\<close> is the row read, \<open>i\<close> the row rewritten.\<close>

definition message_effect :: "env \<Rightarrow> int \<Rightarrow> normal_message \<Rightarrow> job \<Rightarrow> job \<Rightarrow> job" where
  "message_effect e lease n j i =
     i\<lparr>job_state := (case nm_status_target n of
          None \<Rightarrow> job_state i | Some st \<Rightarrow> if sets_status n j then st else job_state i),
       lease_expires_at := (if lease_extended n j then Some (next_lease_expiry e lease j) else lease_expires_at i),
       last_heartbeat_at := (if lease_extended n j then Some (now e) else last_heartbeat_at i),
       clarification_requested_at :=
         (if asks_clarification n then Some (now e) else if answers_clarification n then None
          else clarification_requested_at i),
       clarification_deadline_at :=
         (if asks_clarification n then clarification_deadline_of e n j else if answers_clarification n then None
          else clarification_deadline_at i),
       updated_at := now e\<rparr>"

definition apply_lease_effects ::
  "env \<Rightarrow> string \<Rightarrow> string \<Rightarrow> int \<Rightarrow> normal_message \<Rightarrow> job \<Rightarrow> (db, unit) prog" where
  "apply_lease_effects e job from_id lease n j =
     bindE (if sets_status n j \<or> lease_extended n j \<or> asks_clarification n \<or> answers_clarification n
            then update_jobs e (\<lambda>i. job_id i = job) (message_effect e lease n j) else ret 0) (\<lambda>_.
     whenE (lease_extended n j)
       (bindE (insert_claim_event_row e job ''claim_lease_extended'' (clean_optional_text (claim_owner_id j))
                 (clean_optional_text (claim_token j)) (Some (now e)) (Some (next_lease_expiry e lease j)) (Some from_id)
                 [(''message_type'', JStr (nm_type n)), (''canonical_message_type'', JStr (nm_canonical_type n)),
                  (''status_after'', JStr (status_text (case nm_status_target n of None \<Rightarrow> job_state j | Some st \<Rightarrow> st)))])
          (\<lambda>_. ret ())))"

section \<open>Co-pilot messages\<close>

definition COPILOT_SIDE_EFFECT_TYPES :: "string list" where
  "COPILOT_SIDE_EFFECT_TYPES = [''partial_output'', ''steer'']"

definition guard_terminal_for_copilot :: "normal_message \<Rightarrow> job \<Rightarrow> (db, unit) prog" where
  "guard_terminal_for_copilot n j =
     raise_if (nm_canonical_type n \<in> set COPILOT_SIDE_EFFECT_TYPES \<and>
       (job_state j \<in> {Complete, Stopped, Failed, Cancelled} \<or> terminal_at j \<noteq> None)) JobAlreadyTerminal"

fun predicate_list :: "json \<Rightarrow> json list" where
  "predicate_list (JArr ps) = filter is_object ps"
| "predicate_list _ = []"

definition parse_stop_when_for_eval :: "json \<Rightarrow> json list" where
  "parse_stop_when_for_eval doc =
     (case doc of
        JObj kvs \<Rightarrow> (case map_of kvs ''predicates'' of None \<Rightarrow> [] | Some ps \<Rightarrow> predicate_list ps)
      | _ \<Rightarrow> predicate_list doc)"

definition predicate_target :: "json \<Rightarrow> json" where
  "predicate_target payload =
     (case json_get payload ''payload'' of
        None \<Rightarrow> payload
      | Some v \<Rightarrow> (case v of JNull \<Rightarrow> payload | _ \<Rightarrow> v))"

definition stop_reason :: "env \<Rightarrow> stop_predicate \<Rightarrow> int \<Rightarrow> json" where
  "stop_reason e p mid = JObj [(''label'', JStr (sp_label p)), (''expr'', JStr (sp_expr p)),
     (''matched_message_id'', JNum (of_int mid)), (''matched_at'', JNum (of_int (now e)))]"

definition stopped_row :: "env \<Rightarrow> stop_predicate \<Rightarrow> int \<Rightarrow> job \<Rightarrow> job" where
  "stopped_row e p mid i =
     i\<lparr>job_state := Stopped, terminal_at := Some (now e), terminal_message_id := Some mid,
       stop_reason_json := Some (stop_reason e p mid), completed_at := coalesce (completed_at i) (Some (now e)),
       updated_at := now e\<rparr>"

text \<open>The answer says whether the job was stopped.\<close>

definition apply_copilot_side_effects ::
  "env \<Rightarrow> (string \<Rightarrow> json \<Rightarrow> json option) \<Rightarrow> string \<Rightarrow> normal_message \<Rightarrow> int \<Rightarrow> job \<Rightarrow> (db, bool) prog" where
  "apply_copilot_side_effects e search job n mid j =
     (if nm_canonical_type n = ''steer''
      then bindE (update_jobs e (\<lambda>i. job_id i = job) (\<lambda>i. i\<lparr>steer_count := steer_count i + 1, updated_at := now e\<rparr>))
             (\<lambda>_. ret False)
      else
        bindE (update_jobs e (\<lambda>i. job_id i = job) (\<lambda>i. i\<lparr>partials_count := partials_count i + 1, updated_at := now e\<rparr>))
          (\<lambda>_.
        case stop_when_json j of
          None \<Rightarrow> ret False
        | Some doc \<Rightarrow>
            case evaluate_first_match search (parse_stop_when_for_eval doc) (predicate_target (nm_payload n)) of
              None \<Rightarrow> ret False
            | Some p \<Rightarrow>
                bindE (update_jobs e (\<lambda>i. job_id i = job) (stopped_row e p mid)) (\<lambda>_.
                bindE (queue_settlement e job ''stopped'' (now e)) (\<lambda>_. ret True))))"

section \<open>Adding a message\<close>

definition insert_message_within_txn ::
  "env \<Rightarrow> (string \<Rightarrow> json \<Rightarrow> json option) \<Rightarrow> string \<Rightarrow> string \<Rightarrow> normal_message \<Rightarrow> int \<Rightarrow> (db, int \<times> bool) prog" where
  "insert_message_within_txn e search job from_id n lease =
     bindE (validate_tool_result_correlation e job n) (\<lambda>_.
     bindE (select e (find_job job)) (\<lambda>row.
     bindE (case row of None \<Rightarrow> ret () | Some j \<Rightarrow> guard_terminal_for_copilot n j) (\<lambda>_.
     bindE (insert_job_message_row e job from_id (nm_type n) (nm_payload n) (nm_correlation_id n) (now e)) (\<lambda>mid.
     case row of
       None \<Rightarrow> ret (mid, False)
     | Some j \<Rightarrow>
         bindE (if nm_canonical_type n \<in> set COPILOT_SIDE_EFFECT_TYPES
                then apply_copilot_side_effects e search job n mid j else ret False) (\<lambda>stopped.
         bindE (whenE (nm_extends n \<or> nm_status_target n \<noteq> None) (apply_lease_effects e job from_id lease n j)) (\<lambda>_.
         ret (mid, stopped)))))))"

definition add_message ::
  "env \<Rightarrow> (string \<Rightarrow> json \<Rightarrow> json option) \<Rightarrow> string \<Rightarrow> string \<Rightarrow> message_body \<Rightarrow> int \<Rightarrow> (db, job_message) prog" where
  "add_message e search job from_id body lease =
     (case validate_lease_seconds e lease of
        Inl ex \<Rightarrow> throw ex
      | Inr lease_seconds \<Rightarrow>
          let n = normalize_message_for_insert body in
          bindE (transact (insert_message_within_txn e search job from_id n lease_seconds)) (\<lambda>res.
          bindE (whenE (snd res)
                   (catchE (bindE (drain_one e (Some job)) (\<lambda>_. ret ())) (\<lambda>_. ret ()))) (\<lambda>_.
          ret \<lparr>message_id = fst res, msg_job_id = job, msg_from_id = from_id, msg_type = nm_type n,
               msg_payload = nm_payload n, msg_correlation_id = nm_correlation_id n, msg_created_at = now e\<rparr>)))"

section \<open>Claim events\<close>

definition get_message :: "env \<Rightarrow> string \<Rightarrow> int \<Rightarrow> (db, job_message option) prog" where
  "get_message e job mid =
     transact (select e (\<lambda>d. find (\<lambda>m. msg_job_id m = job \<and> message_id m = mid) (job_messages d)))"

definition add_claim_event ::
  "env \<Rightarrow> string \<Rightarrow> string \<Rightarrow> string option \<Rightarrow> string option \<Rightarrow> int option \<Rightarrow> string option \<Rightarrow> (string \<times> json) list \<Rightarrow>
   (db, job_message option) prog" where
  "add_claim_event e job kind owner token expires actor metadata =
     bindE (transact
       (bindE (select e (find_job job)) (\<lambda>row.
        case row of
          None \<Rightarrow> ret None
        | Some _ \<Rightarrow>
            bindE (insert_claim_event_row e job kind owner token (Some (now e)) expires actor metadata)
              (\<lambda>mid. ret (Some mid))))) (\<lambda>res.
     case res of None \<Rightarrow> ret None | Some mid \<Rightarrow> get_message e job mid)"

definition ACTIVE_CLAIM_EVENT_TYPES :: "string list" where
  "ACTIVE_CLAIM_EVENT_TYPES = [''claim_acquired'', ''claim_reclaimed'', ''claim_heartbeat'', ''claim_lease_extended'']"

definition CLAIM_EVENT_LOOKBACK_LIMIT :: nat where "CLAIM_EVENT_LOOKBACK_LIMIT = 500"

definition claim_event_matches_active_token :: "json \<Rightarrow> string \<Rightarrow> string \<Rightarrow> int \<Rightarrow> bool" where
  "claim_event_matches_active_token payload owner token_hash cutoff \<longleftrightarrow>
     is_object payload \<and>
     (case json_text (json_get payload ''event_type'') of None \<Rightarrow> False | Some k \<Rightarrow> k \<in> set ACTIVE_CLAIM_EVENT_TYPES) \<and>
     json_text (json_get payload ''claim_token_sha256'') = Some token_hash \<and>
     clean_optional_text (json_text (json_get payload ''claim_owner_id'')) = Some owner \<and>
     (case json_get payload ''lease_expires_at'' of Some (JNum x) \<Rightarrow> of_int cutoff \<le> x | _ \<Rightarrow> False)"

definition newest_messages :: "(job_message \<Rightarrow> bool) \<Rightarrow> nat \<Rightarrow> db \<Rightarrow> job_message list" where
  "newest_messages p n d = take n (rev (sort_key message_id (filter p (job_messages d))))"

definition claim_token_was_recently_active :: "env \<Rightarrow> string \<Rightarrow> string \<Rightarrow> string \<Rightarrow> int \<Rightarrow> (db, bool) prog" where
  "claim_token_was_recently_active e job owner token seconds =
     (case (clean_optional_text (Some owner), claim_token_sha256 e (Some token)) of
        (Some who, Some token_hash) \<Rightarrow>
          if seconds \<le> 0 then ret False
          else
            bindE (transact (select e (newest_messages (\<lambda>m. msg_job_id m = job \<and> msg_type m = CLAIM_EVENT_MSG_TYPE)
                     CLAIM_EVENT_LOOKBACK_LIMIT))) (\<lambda>rows.
            ret (list_ex (\<lambda>m. claim_event_matches_active_token (msg_payload m) who token_hash
                   (now e - seconds * micros_per_second)) rows))
      | _ \<Rightarrow> ret False)"

section \<open>Queries over messages\<close>

definition MAX_MESSAGES_PER_PAGE :: int where "MAX_MESSAGES_PER_PAGE = 200"

definition message_wanted :: "string \<Rightarrow> int option \<Rightarrow> string option \<Rightarrow> string option \<Rightarrow> job_message \<Rightarrow> bool" where
  "message_wanted job since kind from_id m \<longleftrightarrow>
     msg_job_id m = job \<and>
     (case since of None \<Rightarrow> True | Some k \<Rightarrow> k < message_id m) \<and>
     (py_lower (py_strip (or_empty kind)) = [] \<or> msg_type m = py_lower (py_strip (or_empty kind))) \<and>
     (py_strip (or_empty from_id) = [] \<or> msg_from_id m = py_strip (or_empty from_id))"

text \<open>A \<open>channel\<close> or \<open>to_id\<close> of the payload that is no text matches nothing.\<close>

definition channel_matches :: "string \<Rightarrow> string \<Rightarrow> job_message \<Rightarrow> bool" where
  "channel_matches channel to_id m \<longleftrightarrow>
     is_object (msg_payload m) \<and>
     (channel = [] \<or> py_lower (py_strip (or_empty (json_text (json_get (msg_payload m) ''channel'')))) = channel) \<and>
     (to_id = [] \<or> py_strip (or_empty (json_text (json_get (msg_payload m) ''to_id''))) = to_id)"

definition filter_messages_by_channel :: "job_message list \<Rightarrow> string option \<Rightarrow> string option \<Rightarrow> job_message list" where
  "filter_messages_by_channel messages channel to_id =
     (let c = py_lower (py_strip (or_empty channel)); t = py_strip (or_empty to_id) in
      if c = [] \<and> t = [] then messages else filter (channel_matches c t) messages)"

definition messages_page ::
  "string \<Rightarrow> int option \<Rightarrow> int \<Rightarrow> string option \<Rightarrow> string option \<Rightarrow> db \<Rightarrow> job_message list" where
  "messages_page job since limit kind from_id d =
     take (clamp_limit limit MAX_MESSAGES_PER_PAGE)
       (sort_key message_id (filter (message_wanted job since kind from_id) (job_messages d)))"

definition get_messages ::
  "env \<Rightarrow> string \<Rightarrow> int option \<Rightarrow> int \<Rightarrow> string option \<Rightarrow> string option \<Rightarrow> string option \<Rightarrow> string option \<Rightarrow>
   (db, job_message list) prog" where
  "get_messages e job since limit kind from_id channel to_id =
     bindE (transact (select e (messages_page job since limit kind from_id))) (\<lambda>rows.
     ret (filter_messages_by_channel rows channel to_id))"

definition count_job_messages :: "env \<Rightarrow> string \<Rightarrow> (db, nat) prog" where
  "count_job_messages e job = transact (select e (\<lambda>d. count_where (\<lambda>m. msg_job_id m = job) (job_messages d)))"

definition count_of_type :: "string \<Rightarrow> string \<Rightarrow> db \<Rightarrow> nat" where
  "count_of_type job kind d = count_where (\<lambda>m. msg_job_id m = job \<and> msg_type m = kind) (job_messages d)"

definition count_open_clarification_requests :: "env \<Rightarrow> string \<Rightarrow> (db, int) prog" where
  "count_open_clarification_requests e job =
     bindE (transact
       (bindE (select e (count_of_type job ''clarification_request'')) (\<lambda>requests.
        bindE (select e (count_of_type job ''clarification_response'')) (\<lambda>responses. ret (requests, responses)))))
       (\<lambda>r. ret (max 0 (int (fst r) - int (snd r))))"

definition get_latest_message_id :: "env \<Rightarrow> string \<Rightarrow> (db, int option) prog" where
  "get_latest_message_id e job = transact (select e (\<lambda>d.
     case map message_id (filter (\<lambda>m. msg_job_id m = job) (job_messages d)) of
       [] \<Rightarrow> None
     | k # ks \<Rightarrow> Some (fold max ks k)))"

section \<open>Quality and dispute marks\<close>

definition set_job_quality_result :: "env \<Rightarrow> string \<Rightarrow> string \<Rightarrow> int option \<Rightarrow> string option \<Rightarrow> (db, job option) prog" where
  "set_job_quality_result e job verdict_text score judge =
     bindE (transact (update_jobs e (\<lambda>i. job_id i = job)
       (\<lambda>i. i\<lparr>judge_verdict := clean_optional_text (Some verdict_text), quality_score := score,
              judge_agent_id := clean_optional_text judge, updated_at := now e\<rparr>))) (\<lambda>_. get_job e job)"

definition set_job_dispute_outcome :: "env \<Rightarrow> string \<Rightarrow> string option \<Rightarrow> (db, job option) prog" where
  "set_job_dispute_outcome e job outcome =
     bindE (transact (update_jobs e (\<lambda>i. job_id i = job)
       (\<lambda>i. i\<lparr>job_dispute_outcome := clean_optional_text outcome, updated_at := now e\<rparr>))) (\<lambda>_. get_job e job)"

end
