(* ===== verification/Job_Lifecycle.thy ===== *)
theory Job_Lifecycle
  imports Messaging "HOL-Library.Transitive_Closure_Table"
begin

text \<open>
  The life of a job as a state machine. \<open>row_step\<close> lists what may happen to one row of \<open>jobs\<close>, with its
  guard; every operation of \<open>core/jobs\<close> is shown to move each row along it, to delete none, and to append
  only fresh ones. Invariants of the machine then hold of every database that the operations reach.
\<close>

section \<open>The state machine of one row\<close>

inductive row_step :: "env \<Rightarrow> job \<Rightarrow> job \<Rightarrow> bool" for e where
  Claimed: "\<not> claim_refused e owner require j \<Longrightarrow> same_owner_reclaim e owner j \<or> attempts_of j < max_attempts_of j \<Longrightarrow>
     row_step e j (claimed_row e owner lease j j)"
| Heartbeat: "claim_owner_id j = Some owner \<Longrightarrow> job_state j \<in> ACTIVE_LEASE_STATUSES \<Longrightarrow> row_step e j (heartbeat_row e lease j)"
| ReleasedClaim: "clean_optional_text (claim_owner_id j) \<noteq> None \<Longrightarrow>
     row_step e j ((unclaimed_row j)\<lparr>job_state := Pending, updated_at := now e\<rparr>)"
| Requeued: "settled_at j = None \<Longrightarrow> completed_at j = None \<Longrightarrow>
     row_step e j (requeued_row e (attempts_of j < max_attempts_of j) delay err j j)"
| TimedOut: "settled_at j = None \<Longrightarrow> job_state j \<in> ACTIVE_LEASE_STATUSES \<Longrightarrow> lease_is_expired j (now e) \<Longrightarrow>
     row_step e j (timed_out_row e (retry_allowed \<and> attempts_of j < max_attempts_of j) delay msg j j)"
| RetryReady: "job_state j = Pending \<Longrightarrow>
     row_step e j ((unclaimed_row j)\<lparr>next_retry_at := None, last_retry_at := None, updated_at := t\<rparr>)"
| StatusUpdated: "\<not> completed \<or> completed_at j = None \<Longrightarrow> row_step e j (status_updated_row e st output err completed g j)"
| Signed: "job_state j = Complete \<Longrightarrow> row_step e j ((signed_row g j)\<lparr>updated_at := now e\<rparr>)"
| Settled: "settled_at j = None \<Longrightarrow> row_step e j (j\<lparr>settled_at := Some (now e)\<rparr>)"
| VerificationOff: "output_verification_window_seconds j \<le> 0 \<Longrightarrow> row_step e j (verification_reset e ''not_required'' None j)"
| VerificationOpened: "verification_status j \<notin> {''accepted'', ''rejected'', ''expired''} \<Longrightarrow>
     0 < output_verification_window_seconds j \<Longrightarrow> row_step e j (verification_reset e ''pending'' deadline j)"
| Decided: "verification_status j = ''pending'' \<Longrightarrow> next_status \<in> {''accepted'', ''rejected''} \<Longrightarrow>
     row_step e j (j\<lparr>output_verification_status := next_status, output_verification_decided_at := Some (now e),
        output_verification_decision_owner_id := who, output_verification_reason := why, updated_at := now e\<rparr>)"
| VerificationExpired: "output_verification_status j = ''pending'' \<Longrightarrow>
     row_step e j (j\<lparr>output_verification_status := ''expired'', output_verification_decided_at := at_time,
        output_verification_decision_owner_id := who, output_verification_reason := why, updated_at := now e\<rparr>)"
| Messaged: "claim_owner_id k = claim_owner_id j \<Longrightarrow> claim_token k = claim_token j \<Longrightarrow>
     row_step e j (message_effect e lease n k j)"
| Steered: "row_step e j (j\<lparr>steer_count := steer_count j + 1, updated_at := now e\<rparr>)"
| PartialCounted: "row_step e j (j\<lparr>partials_count := partials_count j + 1, updated_at := now e\<rparr>)"
| StoppedByMatch: "terminal_at j = None \<Longrightarrow> row_step e j (stopped_row e p mid j)"
| ChargeResolved: "row_step e j (j\<lparr>charge_tx_id := tx\<rparr>)"
| Judged: "row_step e j (j\<lparr>judge_verdict := v, quality_score := score, judge_agent_id := judge, updated_at := now e\<rparr>)"
| DisputeMarked: "row_step e j (j\<lparr>job_dispute_outcome := outcome, updated_at := now e\<rparr>)"

inductive_cases row_stepE: "row_step e j k"

abbreviation row_steps :: "env \<Rightarrow> job \<Rightarrow> job \<Rightarrow> bool" where
  "row_steps e \<equiv> (row_step e)\<^sup>*\<^sup>*"

lemmas row_defs = claimed_row_def heartbeat_row_def unclaimed_row_def requeued_row_def timed_out_row_def
  status_updated_row_def signed_row_def verification_reset_def message_effect_def stopped_row_def Let_def

lemma row_step_id: "row_step e j k \<Longrightarrow> job_id k = job_id j"
  by (induction rule: row_step.induct) (simp_all add: row_defs)

lemma row_steps_id: "row_steps e j k \<Longrightarrow> job_id k = job_id j"
  by (induction rule: rtranclp_induct) (simp_all add: row_step_id)

section \<open>Rows that follow the machine\<close>

definition fresh_job :: "job \<Rightarrow> bool" where
  "fresh_job j \<longleftrightarrow> job_check j \<and> job_state j = Pending \<and> attempt_count j = 0 \<and> claim_owner_id j = None \<and>
     claim_token j = None \<and> lease_expires_at j = None \<and> settled_at j = None \<and> completed_at j = None \<and>
     (output_verification_window_seconds j \<le> 0 \<longrightarrow> output_verification_status j = ''not_required'')"

definition follows :: "env \<Rightarrow> job list \<Rightarrow> db \<Rightarrow> bool" where
  "follows e js d \<longleftrightarrow> distinct (map job_id (jobs d)) \<and>
     (\<exists>old new. jobs d = old @ new \<and> list_all2 (row_steps e) js old \<and> (\<forall>j\<in>set new. \<exists>k. fresh_job k \<and> row_steps e k j))"

lemma follows_refl: "distinct (map job_id (jobs d)) \<Longrightarrow> follows e (jobs d) d"
  unfolding follows_def by (intro conjI exI [where x = "jobs d"] exI [where x = "[]"]) (auto simp: list_all2_same)

lemma flag_free_follows: "flag_free (follows e js)"
  by (simp add: flag_free_def follows_def)

lemma follows_tables: "jobs d' = jobs d \<Longrightarrow> follows e js d' = follows e js d"
  by (simp add: follows_def)

lemma follows_frame [simp]:
  "follows e js (d\<lparr>tx_failed := b\<rparr>) = follows e js d"
  "follows e js (d\<lparr>pending_settlements := ps\<rparr>) = follows e js d"
  "follows e js (d\<lparr>job_messages := ms\<rparr>) = follows e js d"
  by (rule follows_tables; simp)+

lemma list_all2_update:
  "list_all2 r xs ys \<Longrightarrow> (\<And>x y. y \<in> set ys \<Longrightarrow> p y \<Longrightarrow> r x y \<Longrightarrow> r x (f y)) \<Longrightarrow> list_all2 r xs (update_rows p f ys)"
  by (induction rule: list_all2_induct) auto

lemma follows_update:
  assumes "follows e js d" and step: "\<And>i. i \<in> set (jobs d) \<Longrightarrow> p i \<Longrightarrow> row_steps e i (f i)"
  shows "follows e js (d\<lparr>jobs := update_rows p f (jobs d)\<rparr>)"
proof -
  obtain old new where d: "jobs d = old @ new" and o: "list_all2 (row_steps e) js old"
    and n: "\<forall>j\<in>set new. \<exists>k. fresh_job k \<and> row_steps e k j" and dist: "distinct (map job_id (jobs d))"
    using assms(1) by (auto simp: follows_def)
  have "map job_id (update_rows p f rows) = map job_id rows" if "set rows \<subseteq> set (jobs d)" for rows
    using that by (induction rows) (auto dest: row_steps_id [OF step])
  then have "distinct (map job_id (update_rows p f (jobs d)))" using dist by simp
  moreover have "list_all2 (row_steps e) js (update_rows p f old)"
    using o step d by (intro list_all2_update) (auto intro: rtranclp_trans)
  moreover have "\<forall>j\<in>set (update_rows p f new). \<exists>k. fresh_job k \<and> row_steps e k j"
  proof
    fix j assume "j \<in> set (update_rows p f new)"
    then obtain i where i: "i \<in> set new" "j = (if p i then f i else i)" by (auto simp: set_update_rows)
    then show "\<exists>k. fresh_job k \<and> row_steps e k j"
      using n step [of i] d by (auto intro: rtranclp_trans)
  qed
  ultimately show ?thesis using d by (auto simp: follows_def)
qed

lemma follows_update_one:
  assumes "follows e js d" and "find_job job d = Some j" and "row_steps e j (f j)"
  shows "follows e js (d\<lparr>jobs := update_rows (\<lambda>i. job_id i = job) f (jobs d)\<rparr>)"
proof (rule follows_update [OF assms(1)])
  fix i assume i: "i \<in> set (jobs d)" "job_id i = job"
  have "distinct (map job_id (jobs d))" using assms(1) by (simp add: follows_def)
  from find_distinct_key [OF this i(1)] i(2) assms(2) have "i = j" by (simp add: find_job_def)
  then show "row_steps e i (f i)" using assms(3) by simp
qed

lemma keeps_follows_update:
  "(\<And>i. p i \<Longrightarrow> row_steps e i (f i)) \<Longrightarrow> keeps (follows e js) (update_jobs e2 p f)"
  by (intro keeps_update_stmt flag_free_follows follows_update)

lemma keeps_follows_other:
  "(\<And>rs d. jobs (put rs d) = jobs d) \<Longrightarrow> keeps (follows e js) (update_stmt e2 get put ck p f)"
  "(\<And>rs d. jobs (put rs d) = jobs d) \<Longrightarrow> keeps (follows e js) (insert_stmt e2 get put ok r)"
  by (intro keeps_update_stmt keeps_insert_stmt flag_free_follows; simp add: follows_def)+

lemma keeps_follows_message_row: "keeps (follows e js) (insert_job_message_row e2 job from_id kind payload c t)"
  unfolding insert_job_message_row_def
  by (intro keeps_stmt flag_free_follows) (auto simp: Let_def follows_def)

lemma keeps_follows_claim_event:
  "keeps (follows e js) (insert_claim_event_row e2 job kind owner token started expires actor metadata)"
  unfolding insert_claim_event_row_def by (rule keeps_follows_message_row)

lemma keeps_follows_transact: "ensures (follows e js) m \<Longrightarrow> keeps (follows e js) (transact m)"
  by (rule keeps_transact [OF flag_free_follows])

lemma keeps_follows_get_job: "keeps (follows e js) (get_job e2 job)"
  unfolding get_job_def by (intro keeps_follows_transact ensures_select)

text \<open>The transactions that read a row, decide, and rewrite it.\<close>

lemma ensures_read_row:
  assumes "\<And>d j. follows e js d \<Longrightarrow> find_job job d = Some j \<Longrightarrow> wp (m j) (\<lambda>_. follows e js) (\<lambda>_ _. True) d"
  shows "ensures (follows e js) (bindE (select e2 (find_job job)) (\<lambda>row. case row of None \<Rightarrow> ret x | Some j \<Rightarrow> m j))"
  by (rule ensuresI) (auto simp: wp_simps assms split: option.split)

lemma wp_follows_then:
  assumes "follows e js d" and "find_job job d = Some j" and "row_steps e j (f j)"
    and "\<And>x. ensures (follows e js) (m x)"
  shows "wp (bindE (update_jobs e2 (\<lambda>i. job_id i = job) f) m) (\<lambda>_. follows e js) (\<lambda>_ _. True) d"
  using follows_update_one [where f = f, OF assms(1-3)] assms(4) by (auto simp: wp_simps intro: ensuresD)

lemma row_stepI: "row_step e j k \<Longrightarrow> row_steps e j k"
  by blast

section \<open>Every operation follows the machine\<close>

lemma keeps_claim_job: "keeps (follows e js) (claim_job e job owner lease require)"
proof -
  have "ensures (follows e js) (claim_in_transaction e job w n require)" for w n
    unfolding claim_in_transaction_def
  proof (rule ensures_read_row, goal_cases)
    case (1 d j)
    show ?case
    proof (cases "claim_refused e w require j \<or> (\<not> same_owner_reclaim e w j \<and> max_attempts_of j \<le> attempts_of j)")
      case False
      then have "row_steps e j (claimed_row e w n j j)" by (intro row_stepI row_step.Claimed [of e w require]) auto
      note step = wp_follows_then [where f = "claimed_row e w n j", OF 1 this]
      show ?thesis
        using False by (auto simp: claim_event_def Let_def intro!: step keeps_ensures keeps_bindE keeps_follows_claim_event)
    qed (use 1 in \<open>auto simp: wp_simps\<close>)
  qed
  then show ?thesis unfolding claim_job_def
    by (cases "validate_claim_params e owner lease")
      (auto intro!: keeps_throw keeps_bindE keeps_follows_transact keeps_follows_get_job)
qed

lemma keeps_heartbeat: "keeps (follows e js) (heartbeat_job_lease e job owner lease token require)"
proof -
  have "ensures (follows e js) (heartbeat_in_transaction e job w lease token require)" for w
    unfolding heartbeat_in_transaction_def
  proof (rule ensures_read_row, goal_cases)
    case (1 d j)
    have "keeps (follows e js) (update_jobs e (\<lambda>i. job_id i = job \<and> job_state i \<in> ACTIVE_LEASE_STATUSES \<and>
        claim_owner_id i = Some w \<and> (case lease_expires_at i of None \<Rightarrow> False | Some x \<Rightarrow> now e < x)) (heartbeat_row e lease))"
      by (intro keeps_follows_update row_stepI row_step.Heartbeat) auto
    then show ?case
      using 1(1) by (intro ensuresD [where P = "follows e js"] ensures_if ensures_ret ensures_bindE keeps_ensures
          keeps_follows_claim_event keeps_bindE keeps_if keeps_ret) auto
  qed
  then show ?thesis unfolding heartbeat_job_lease_def Let_def
    by (auto intro!: keeps_throw keeps_bindE keeps_follows_transact keeps_follows_get_job)
qed

lemma keeps_release: "keeps (follows e js) (release_job_claim e job owner token require)"
proof -
  have "ensures (follows e js) (release_in_transaction e job w token require)" for w
    unfolding release_in_transaction_def
  proof (rule ensures_read_row, goal_cases)
    case (1 d j)
    show ?case
    proof (cases "clean_optional_text (claim_owner_id j) = Some w")
      case True
      then have "row_steps e j ((unclaimed_row j)\<lparr>job_state := Pending, updated_at := now e\<rparr>)"
        by (intro row_stepI row_step.ReleasedClaim) simp
      note step = wp_follows_then [where f = "\<lambda>i. (unclaimed_row i)\<lparr>job_state := Pending, updated_at := now e\<rparr>", OF 1 this]
      show ?thesis using 1 True by (auto simp: wp_ret intro!: step keeps_ensures keeps_bindE keeps_follows_claim_event)
    qed (use 1 in \<open>auto simp: wp_simps\<close>)
  qed
  then show ?thesis unfolding release_job_claim_def Let_def
    by (auto intro!: keeps_throw keeps_bindE keeps_follows_transact keeps_follows_get_job)
qed

lemma keeps_retry: "keeps (follows e js) (schedule_job_retry e job delay err owner token require)"
proof -
  have "ensures (follows e js) (retry_in_transaction e job delay err w token require)" for w
    unfolding retry_in_transaction_def
  proof (rule ensures_read_row, goal_cases)
    case (1 d j)
    show ?case
    proof (cases "settled_at j = None \<and> completed_at j = None")
      case True
      then have "row_steps e j (requeued_row e (attempts_of j < max_attempts_of j) delay x j j)" for x
        by (intro row_stepI row_step.Requeued) auto
      note step = wp_follows_then [where f = "requeued_row e (attempts_of j < max_attempts_of j) delay x j" for x, OF 1 this]
      show ?thesis using 1 True by (auto simp: wp_ret split: option.split intro!: step)
    qed (use 1 in \<open>auto simp: wp_simps\<close>)
  qed
  then show ?thesis unfolding schedule_job_retry_def
    by (auto intro!: keeps_throw keeps_bindE keeps_follows_transact keeps_follows_get_job)
qed

lemma keeps_timeout: "keeps (follows e js) (mark_job_timeout e job delay err allow_retry)"
proof -
  have "ensures (follows e js) (timeout_in_transaction e job delay err allow_retry)"
    unfolding timeout_in_transaction_def Let_def
  proof (rule ensures_read_row, goal_cases)
    case (1 d j)
    show ?case
    proof (cases "settled_at j = None \<and> job_state j \<in> ACTIVE_LEASE_STATUSES \<and> lease_is_expired j (now e)")
      case True
      then have "row_steps e j (timed_out_row e (allow_retry \<and> attempts_of j < max_attempts_of j) delay err j j)"
        by (intro row_stepI row_step.TimedOut) auto
      note step = wp_follows_then [where f = "timed_out_row e (allow_retry \<and> attempts_of j < max_attempts_of j) delay err j", OF 1 this]
      show ?thesis using True by (auto intro!: step keeps_ensures keeps_bindE keeps_follows_claim_event)
    qed (use 1 in \<open>auto simp: wp_simps\<close>)
  qed
  then show ?thesis unfolding mark_job_timeout_def
    by (auto intro!: keeps_throw keeps_bindE keeps_follows_transact keeps_follows_get_job)
qed

text \<open>A single guarded \<open>UPDATE\<close>, then the row is read again.\<close>

lemma keeps_one_update:
  assumes "\<And>i. p i \<Longrightarrow> row_steps e i (f i)" and "\<And>n. keeps (follows e js) (m n)"
  shows "keeps (follows e js) (bindE (transact (update_jobs e p f)) m)"
  using assms by (intro keeps_bindE keeps_follows_transact keeps_ensures keeps_follows_update) auto

lemma keeps_mark_retry_ready: "keeps (follows e js) (mark_retry_ready e job at_time)"
  unfolding mark_retry_ready_def
  by (intro keeps_one_update row_stepI row_step.RetryReady keeps_if keeps_ret keeps_follows_get_job) auto

lemma keeps_update_status: "keeps (follows e js) (update_job_status e job status output err completed g)"
  unfolding update_job_status_def
  by (intro keeps_case_option keeps_throw keeps_one_update row_stepI row_step.StatusUpdated keeps_follows_get_job) auto

lemma keeps_update_signature: "keeps (follows e js) (update_job_signature e job g)"
  unfolding update_job_signature_def
  by (intro keeps_one_update row_stepI row_step.Signed keeps_follows_get_job) auto

lemma keeps_mark_settled: "keeps (follows e js) (mark_settled e job)"
  unfolding mark_settled_def by (intro keeps_one_update row_stepI row_step.Settled keeps_ret) auto

lemma keeps_quality: "keeps (follows e js) (set_job_quality_result e job v score judge)"
  unfolding set_job_quality_result_def by (intro keeps_one_update row_stepI row_step.Judged keeps_follows_get_job)

lemma keeps_dispute_outcome: "keeps (follows e js) (set_job_dispute_outcome e job outcome)"
  unfolding set_job_dispute_outcome_def by (intro keeps_one_update row_stepI row_step.DisputeMarked keeps_follows_get_job)

lemma keeps_verification_expired: "keeps (follows e js) (mark_output_verification_expired e job who)"
  unfolding mark_output_verification_expired_def
  by (intro keeps_one_update row_stepI row_step.VerificationExpired keeps_if keeps_ret keeps_follows_get_job) auto

lemma keeps_initialize: "keeps (follows e js) (initialize_output_verification_state e job)"
proof -
  have "ensures (follows e js) (initialize_in_transaction e job)"
    unfolding initialize_in_transaction_def
  proof (rule ensures_read_row, goal_cases)
    case (1 d j)
    have off: "row_steps e j (verification_reset e ''not_required'' None j)" if "output_verification_window_seconds j \<le> 0"
      using that by (intro row_stepI row_step.VerificationOff)
    have on: "row_steps e j (verification_reset e ''pending'' t j)"
      if "0 < output_verification_window_seconds j" "verification_status j \<notin> {''accepted'', ''rejected'', ''expired''}" for t
      using that by (intro row_stepI row_step.VerificationOpened)
    note offs = wp_follows_then [where f = "verification_reset e ''not_required'' None", OF 1 off]
    note ons = wp_follows_then [where f = "verification_reset e ''pending'' t" for t, OF 1 on]
    show ?case
      using 1 by (auto simp: wp_ret Let_def to_non_negative_int_def split: option.split intro!: offs ons)
  qed
  then show ?thesis unfolding initialize_output_verification_state_def
    by (intro keeps_bindE keeps_case_option keeps_ret keeps_follows_transact keeps_follows_get_job)
qed

lemma keeps_decision: "keeps (follows e js) (set_output_verification_decision e job decision who why)"
proof -
  have "ensures (follows e js) (decision_in_transaction e job st who why)" if "st \<in> {''accepted'', ''rejected''}" for st
    unfolding decision_in_transaction_def
  proof (rule ensures_read_row, goal_cases)
    case (1 d j)
    have dec: "row_steps e j (j\<lparr>output_verification_status := st, output_verification_decided_at := Some (now e),
        output_verification_decision_owner_id := clean_optional_text who, output_verification_reason := clean_optional_text why,
        updated_at := now e\<rparr>)" if "verification_status j = ''pending''"
      using that \<open>st \<in> _\<close> by (intro row_stepI row_step.Decided)
    note step = wp_follows_then [where f = "\<lambda>i. i\<lparr>output_verification_status := st, output_verification_decided_at := Some (now e),
        output_verification_decision_owner_id := clean_optional_text who, output_verification_reason := clean_optional_text why,
        updated_at := now e\<rparr>", OF 1 dec]
    show ?case using 1 by (auto simp: wp_ret intro!: step)
  qed
  then show ?thesis unfolding set_output_verification_decision_def Let_def
    by (auto intro!: keeps_throw keeps_bindE keeps_case_option keeps_ret keeps_follows_transact keeps_follows_get_job)
qed

lemma wp_seq:
  assumes "wp m (\<lambda>_. A) (\<lambda>_ _. True) d" and "\<And>x d'. A d' \<Longrightarrow> wp (f x) Q (\<lambda>_ _. True) d'"
  shows "wp (bindE m f) Q (\<lambda>_ _. True) d"
  using assms by (auto simp: wp_bindE elim: wp_post_mono)

text \<open>Between the read of the job and the lease update, a message keeps the claim of the row.\<close>

definition near :: "env \<Rightarrow> job list \<Rightarrow> string \<Rightarrow> job \<Rightarrow> bool \<Rightarrow> db \<Rightarrow> bool" where
  "near e js job j opened d \<longleftrightarrow> follows e js d \<and>
     (\<forall>i\<in>set (jobs d). job_id i = job \<longrightarrow> claim_owner_id j = claim_owner_id i \<and> claim_token j = claim_token i \<and>
        (opened \<longrightarrow> terminal_at i = None))"

lemma flag_free_near: "flag_free (near e js job j opened)"
  by (simp add: flag_free_def near_def)

lemma near_follows: "near e js job j opened d \<Longrightarrow> follows e js d"
  by (simp add: near_def)

lemma keeps_near_update:
  assumes "\<And>i. job_id i = job \<Longrightarrow> claim_owner_id j = claim_owner_id i \<Longrightarrow> claim_token j = claim_token i \<Longrightarrow>
      (opened \<Longrightarrow> terminal_at i = None) \<Longrightarrow> row_steps e i (f i) \<and> claim_owner_id (f i) = claim_owner_id i \<and>
      claim_token (f i) = claim_token i \<and> terminal_at (f i) = terminal_at i"
  shows "keeps (near e js job j opened) (update_jobs e2 (\<lambda>i. job_id i = job) f)"
proof (rule keeps_update_stmt [OF flag_free_near])
  fix d assume d: "near e js job j opened d"
  have "follows e js (d\<lparr>jobs := update_rows (\<lambda>i. job_id i = job) f (jobs d)\<rparr>)"
    using d assms by (intro follows_update) (auto simp: near_def)
  then show "near e js job j opened (d\<lparr>jobs := update_rows (\<lambda>i. job_id i = job) f (jobs d)\<rparr>)"
    using d assms by (auto simp: near_def ball_update_rows)
qed

lemma keeps_near_message_row: "keeps (near e js job j opened) (insert_job_message_row e2 k from_id kind payload c t)"
  unfolding insert_job_message_row_def
  by (intro keeps_stmt flag_free_near) (auto simp: Let_def near_def follows_def)

lemma near_weaken: "near e js job j opened d \<Longrightarrow> near e js job j False d"
  by (auto simp: near_def)

lemma wp_copilot_effects:
  assumes "near e js job j True d"
  shows "wp (apply_copilot_side_effects e search job n mid j) (\<lambda>_. near e js job j False) (\<lambda>_ _. True) d"
proof -
  let ?count = "update_jobs e (\<lambda>i. job_id i = job) (\<lambda>i. i\<lparr>partials_count := partials_count i + 1, updated_at := now e\<rparr>)"
  let ?stop = "\<lambda>p. update_jobs e (\<lambda>i. job_id i = job) (stopped_row e p mid)"
  have steer: "keeps (near e js job j True) (update_jobs e (\<lambda>i. job_id i = job) (\<lambda>i. i\<lparr>steer_count := steer_count i + 1, updated_at := now e\<rparr>))"
    by (intro keeps_near_update conjI row_stepI row_step.Steered) simp_all
  have count: "keeps (near e js job j True) ?count"
    by (intro keeps_near_update conjI row_stepI row_step.PartialCounted) simp_all
  have stop: "wp (?stop p) (\<lambda>_. near e js job j False) (\<lambda>_ _. True) d'" if "near e js job j True d'" for p d'
  proof -
    have "follows e js (d'\<lparr>jobs := update_rows (\<lambda>i. job_id i = job) (stopped_row e p mid) (jobs d')\<rparr>)"
      using that by (intro follows_update) (auto simp: near_def intro: row_step.StoppedByMatch)
    then show ?thesis using that by (auto simp: wp_simps near_def ball_update_rows stopped_row_def)
  qed
  have queue: "keeps (near e js job j False) (queue_settlement e job t x)" for t x
    unfolding queue_settlement_def by (intro keeps_stmt flag_free_near) (auto simp: near_def split: if_splits)
  have rest: "wp (case stop_when_json j of None \<Rightarrow> ret False
        | Some doc \<Rightarrow> case evaluate_first_match search (parse_stop_when_for_eval doc) (predicate_target (nm_payload n)) of
              None \<Rightarrow> ret False
            | Some p \<Rightarrow> bindE (?stop p) (\<lambda>_. bindE (queue_settlement e job ''stopped'' (now e)) (\<lambda>_. ret True)))
      (\<lambda>_. near e js job j False) (\<lambda>_ _. True) d'" if "near e js job j True d'" for d'
    using that near_weaken [OF that]
    by (auto simp: wp_ret wp_bindE [of "?stop _"] split: option.split
        intro!: wp_post_mono [OF stop] ensuresD [where P = "near e js job j False"] ensures_bindE keeps_ensures queue)
  have "wp (bindE (update_jobs e (\<lambda>i. job_id i = job) (\<lambda>i. i\<lparr>steer_count := steer_count i + 1, updated_at := now e\<rparr>))
      (\<lambda>_. ret False)) (\<lambda>_. near e js job j False) (\<lambda>_ _. True) d"
    by (rule wp_bind_keeps [OF steer assms]) (auto simp: wp_ret near_weaken)
  moreover note wp_bind_keeps [OF count assms rest]
  ultimately show ?thesis unfolding apply_copilot_side_effects_def by simp
qed

lemma keeps_lease_effects: "keeps (near e js job j opened) (apply_lease_effects e job from_id lease n j)"
  unfolding apply_lease_effects_def insert_claim_event_row_def
  by (intro keeps_bindE keeps_if keeps_ret keeps_whenE keeps_near_message_row keeps_near_update conjI row_stepI row_step.Messaged)
    (simp_all add: message_effect_def)

lemma ensures_insert_message: "ensures (follows e js) (insert_message_within_txn e search job from_id n lease)"
  unfolding insert_message_within_txn_def
proof (rule ensures_bindE)
  show "ensures (follows e js) (validate_tool_result_correlation e job n)"
    unfolding validate_tool_result_correlation_def message_correlation_exists_conn_def
    by (intro keeps_ensures keeps_if keeps_ret keeps_throw keeps_bindE keeps_case_option keeps_select)
next
  show "ensures (follows e js) (bindE (select e (find_job job)) (\<lambda>row.
     bindE (case row of None \<Rightarrow> ret () | Some j \<Rightarrow> guard_terminal_for_copilot n j) (\<lambda>_.
     bindE (insert_job_message_row e job from_id (nm_type n) (nm_payload n) (nm_correlation_id n) (now e)) (\<lambda>mid.
     case row of
       None \<Rightarrow> ret (mid, False)
     | Some j \<Rightarrow>
         bindE (if nm_canonical_type n \<in> set COPILOT_SIDE_EFFECT_TYPES
                then apply_copilot_side_effects e search job n mid j else ret False) (\<lambda>stopped.
         bindE (whenE (nm_extends n \<or> nm_status_target n \<noteq> None) (apply_lease_effects e job from_id lease n j)) (\<lambda>_.
         ret (mid, stopped)))))))"
  proof (rule ensuresI)
    fix d assume f: "follows e js d"
    let ?msg = "insert_job_message_row e job from_id (nm_type n) (nm_payload n) (nm_correlation_id n) (now e)"
    let ?rest = "\<lambda>j mid. bindE (if nm_canonical_type n \<in> set COPILOT_SIDE_EFFECT_TYPES
                then apply_copilot_side_effects e search job n mid j else ret False) (\<lambda>stopped.
         bindE (whenE (nm_extends n \<or> nm_status_target n \<noteq> None) (apply_lease_effects e job from_id lease n j)) (\<lambda>_.
         ret (mid, stopped)))"
    have none: "wp (bindE ?msg (\<lambda>mid. ret (mid, False))) (\<lambda>_. follows e js) (\<lambda>_ _. True) d"
      by (rule ensuresD [where P = "follows e js", OF _ f]) (intro keeps_ensures keeps_bindE keeps_follows_message_row keeps_ret)
    have some: "wp (bindE (guard_terminal_for_copilot n j) (\<lambda>_. bindE ?msg (?rest j))) (\<lambda>_. follows e js) (\<lambda>_ _. True) d"
      if j: "find_job job d = Some j" for j
    proof (cases "nm_canonical_type n \<in> set COPILOT_SIDE_EFFECT_TYPES \<and> terminal_at j \<noteq> None")
      case True
      then show ?thesis by (simp add: guard_terminal_for_copilot_def wp_simps)
    next
      case False
      let ?o = "nm_canonical_type n \<in> set COPILOT_SIDE_EFFECT_TYPES"
      have "i = j" if "i \<in> set (jobs d)" "job_id i = job" for i
        using find_distinct_key [of job_id "jobs d" i] that j f by (simp add: find_job_def follows_def)
      with f False have near: "near e js job j ?o d" by (auto simp: near_def)
      have rest: "wp (?rest j mid) (\<lambda>_. follows e js) (\<lambda>_ _. True) d'" if "near e js job j ?o d'" for mid d'
      proof -
        have "wp (if ?o then apply_copilot_side_effects e search job n mid j else ret False)
            (\<lambda>_. near e js job j False) (\<lambda>_ _. True) d'"
          using that wp_copilot_effects [of e js job j d' search n mid] near_weaken [OF that] by (cases ?o) (auto simp: wp_ret)
        moreover have "wp (bindE (whenE (nm_extends n \<or> nm_status_target n \<noteq> None) (apply_lease_effects e job from_id lease n j))
            (\<lambda>_. ret (mid, st))) (\<lambda>_. follows e js) (\<lambda>_ _. True) d2" if "near e js job j False d2" for st d2
          by (rule wp_bind_keeps [OF keeps_whenE [OF keeps_lease_effects] that]) (simp add: wp_ret near_follows)
        ultimately show ?thesis by (rule wp_seq)
      qed
      have "wp (bindE ?msg (?rest j)) (\<lambda>_. follows e js) (\<lambda>_ _. True) d"
        unfolding wp_bindE [of ?msg]
        by (rule wp_post_mono [OF keeps_wp [OF keeps_near_message_row near]]) (rule rest, assumption, simp)
      then show ?thesis by (simp add: guard_terminal_for_copilot_def wp_simps)
    qed
    show "wp (bindE (select e (find_job job)) (\<lambda>row.
     bindE (case row of None \<Rightarrow> ret () | Some j \<Rightarrow> guard_terminal_for_copilot n j) (\<lambda>_.
     bindE ?msg (\<lambda>mid.
     case row of
       None \<Rightarrow> ret (mid, False)
     | Some j \<Rightarrow> ?rest j mid)))) (\<lambda>_. follows e js) (\<lambda>_ _. True) d"
      using none some f by (cases "find_job job d") (simp_all add: wp_bindE wp_select wp_ret)
  qed
qed

lemma keeps_follows_drain: "keeps (follows e js) (drain_one e job)"
proof -
  have tx: "keeps (follows e js) (insert_tx e k wid kind a ag rel m key)" for k wid kind a ag rel m key
    unfolding insert_tx_def resolve_charged_by_key_id_def Let_def
    by (intro keeps_bindE keeps_if keeps_ret keeps_select keeps_case_option keeps_follows_other) simp_all
  have esc: "keeps (follows e js) (settle_escrow_to_charge e k j agent)" for k j agent
    unfolding settle_escrow_to_charge_def consume_escrow_def resolve_escrow_def
    by (intro keeps_bindE keeps_select keeps_case_option keeps_if keeps_ret tx keeps_follows_other keeps_throw) simp_all
  have upd: "keeps (follows e js) (update_jobs_unchecked e (\<lambda>i. job_id i = j) (\<lambda>i. i\<lparr>charge_tx_id := x\<rparr>))" for j x
    unfolding update_jobs_unchecked_def
    by (intro keeps_update_stmt flag_free_follows follows_update row_stepI row_step.ChargeResolved)
  have charge: "keeps (follows e js) (charge_escrow e k c agent)" for k c agent
  proof (cases "job_id_from_sentinel c")
    case (Inr j)
    show ?thesis unfolding charge_escrow_def Inr sum.case
      by (intro keeps_follows_transact ensures_get_state keeps_ensures keeps_bindE esc keeps_case_option
          keeps_rollback_to keeps_ret upd)
  qed (simp add: charge_escrow_def keeps_throw)
  have hold: "keeps (follows e js) (create_hold_conn e k wid j a h)" for k wid j a h
    unfolding create_hold_conn_def get_active_hold_for_job_conn_def
    by (intro keeps_if keeps_ret keeps_bindE keeps_select keeps_catch_when keeps_follows_other keeps_throw) simp_all
  have pay: "keeps (follows e js) (post_call_payout e aw pw c price agent pct policy j window curve)"
    for aw pw c price agent pct policy j window curve
    unfolding post_call_payout_def Let_def payout_transaction_def insert_once_def
    by (auto split: sum.split intro!: keeps_throw keeps_bindE keeps_ret keeps_if keeps_case_option charge tx hold
        keeps_follows_transact keeps_ensures keeps_select keeps_whenE keeps_catch_when)
  have lease: "keeps (follows e js) (lease_row e job)"
    unfolding lease_row_def
    by (cases "backend e"; simp only: backend_kind.case)
      (intro keeps_follows_transact keeps_ensures keeps_bindE keeps_select keeps_case_option keeps_ret keeps_if
        keeps_follows_other; simp)+
  show ?thesis
    unfolding drain_one_def settle_row_def settle_stopped_def settle_partial_units_def settle_full_call_def settle_for_def
      stamp_done_def record_failure_def Let_def
    by (intro keeps_bindE lease keeps_case_option keeps_ret keeps_catchE keeps_follows_get_job keeps_whenE keeps_if pay
        keeps_throw keeps_follows_transact keeps_ensures keeps_follows_other) simp_all
qed

lemma keeps_add_message: "keeps (follows e js) (add_message e search job from_id body lease)"
  unfolding add_message_def Let_def
  by (cases "validate_lease_seconds e lease")
    (auto intro!: keeps_throw keeps_bindE keeps_follows_transact ensures_insert_message keeps_whenE keeps_catchE
      keeps_follows_drain keeps_ret)

text \<open>A created row starts the machine in its initial state.\<close>

lemma new_job_fresh:
  "normalize_create_job_inputs r = Inr n \<Longrightarrow>
     fresh_job ((new_job e r n org)\<lparr>claim_deadline_at := t, budget_cents := b\<rparr>)"
  using new_job_check [of r n e org] by (auto simp: fresh_job_def new_job_def job_check_def)

lemma follows_append:
  assumes "follows e js d" and "fresh_job j" and "\<forall>i\<in>set (jobs d). job_id i \<noteq> job_id j"
  shows "follows e js (d\<lparr>jobs := jobs d @ [j]\<rparr>)"
proof -
  obtain old new where d: "jobs d = old @ new" "list_all2 (row_steps e) js old" "\<forall>j\<in>set new. \<exists>k. fresh_job k \<and> row_steps e k j"
    "distinct (map job_id (jobs d))"
    using assms(1) by (auto simp: follows_def)
  then show ?thesis
    unfolding follows_def
    using assms(2,3) by (intro conjI exI [where x = old] exI [where x = "new @ [j]"]) auto
qed

lemma keeps_create_job: "keeps (follows e js) (create_job e setting r)"
proof (rule keepsI)
  fix d assume f: "follows e js d"
  show "follows e js (snd (create_job e setting r d))"
  proof (cases "validate_origin (rq_origin r)")
    case (Inr org)
    show ?thesis
    proof (cases "normalize_create_job_inputs r")
      case n: (Inr n)
      let ?j = "new_job e r n org" and ?t = "Some (compute_claim_deadline setting (now e))"
      let ?tx = "bindE (insert_job e ?j) (\<lambda>_.
           bindE (update_jobs e (\<lambda>j. job_id j = uuid e 0) (\<lambda>j. j\<lparr>claim_deadline_at := ?t\<rparr>)) (\<lambda>_.
           case rq_budget_cents r of None \<Rightarrow> ret ()
           | Some b \<Rightarrow> bindE (update_jobs e (\<lambda>j. job_id j = uuid e 0) (\<lambda>j. j\<lparr>budget_cents := Some b\<rparr>)) (\<lambda>_. ret ())))"
      have ens: "ensures (follows e js) ?tx"
      proof (rule ensuresI)
        fix d assume f: "follows e js d"
        show "wp ?tx (\<lambda>_. follows e js) (\<lambda>_ _. True) d"
        proof (cases "\<forall>i\<in>set (jobs d). job_id i \<noteq> uuid e 0")
          case True
          then have other: "update_rows (\<lambda>j. job_id j = uuid e 0) g (jobs d) = jobs d" for g
            by (intro update_rows_none) auto
          have id: "job_id ?j = uuid e 0" by (simp add: new_job_def)
          have "follows e js (d\<lparr>jobs := jobs d @ [?j\<lparr>claim_deadline_at := t, budget_cents := b\<rparr>]\<rparr>)" for t b
            using True n by (intro follows_append f new_job_fresh) (auto simp: new_job_def)
          moreover have "?j\<lparr>claim_deadline_at := t, budget_cents := None\<rparr> = ?j\<lparr>claim_deadline_at := t\<rparr>" for t
            by (simp add: new_job_def)
          ultimately have "follows e js (d\<lparr>jobs := jobs d @ [?j\<lparr>claim_deadline_at := t, budget_cents := b\<rparr>]\<rparr>)"
            "follows e js (d\<lparr>jobs := jobs d @ [?j\<lparr>claim_deadline_at := t\<rparr>]\<rparr>)" for t b
            by metis+
          then show ?thesis using True other id by (cases "rq_budget_cents r") (auto simp: wp_simps pg_failed_def)
        qed (auto simp: wp_simps job_insertable_def exists_row_iff new_job_def)
      qed
      have "keeps (follows e js) (create_job e setting r)"
        unfolding create_job_def Inr n sum.case
        by (intro keeps_bindE keeps_follows_transact ens keeps_follows_get_job)
      then show ?thesis using f by (rule keepsD)
    qed (use f Inr in \<open>simp add: create_job_def throw_def\<close>)
  qed (use f in \<open>simp add: create_job_def throw_def\<close>)
qed

section \<open>Steps of the database\<close>

text \<open>One operation on the jobs of the database, with any arguments, whether it returns or raises.\<close>

inductive job_step :: "env \<Rightarrow> db \<Rightarrow> db \<Rightarrow> bool" for e where
  Create: "create_job e setting r d = (res1, d') \<Longrightarrow> job_step e d d'"
| Claim: "claim_job e job owner lease require d = (res2, d') \<Longrightarrow> job_step e d d'"
| Beat: "heartbeat_job_lease e job owner lease token require d = (res2, d') \<Longrightarrow> job_step e d d'"
| Release: "release_job_claim e job owner token require d = (res2, d') \<Longrightarrow> job_step e d d'"
| Retry: "schedule_job_retry e job delay err who token require d = (res2, d') \<Longrightarrow> job_step e d d'"
| Timeout: "mark_job_timeout e job delay msg allow d = (res2, d') \<Longrightarrow> job_step e d d'"
| Ready: "mark_retry_ready e job at_time d = (res2, d') \<Longrightarrow> job_step e d d'"
| Update: "update_job_status e job status output err completed g d = (res2, d') \<Longrightarrow> job_step e d d'"
| Sign: "update_job_signature e job g d = (res2, d') \<Longrightarrow> job_step e d d'"
| Settle: "mark_settled e job d = (res3, d') \<Longrightarrow> job_step e d d'"
| Verify: "initialize_output_verification_state e job d = (res2, d') \<Longrightarrow> job_step e d d'"
| Decide: "set_output_verification_decision e job decision who why d = (res2, d') \<Longrightarrow> job_step e d d'"
| Expire: "mark_output_verification_expired e job who d = (res2, d') \<Longrightarrow> job_step e d d'"
| Message: "add_message e search job from_id body lease d = (res4, d') \<Longrightarrow> job_step e d d'"
| Drain: "drain_one e who d = (res3, d') \<Longrightarrow> job_step e d d'"
| Judge: "set_job_quality_result e job v score who d = (res2, d') \<Longrightarrow> job_step e d d'"
| Dispute: "set_job_dispute_outcome e job who d = (res2, d') \<Longrightarrow> job_step e d d'"

inductive_cases job_stepE: "job_step e d d'"

inductive job_reach :: "db \<Rightarrow> db \<Rightarrow> bool" where
  start: "job_reach d d"
| step: "job_reach d d1 \<Longrightarrow> job_step e d1 d2 \<Longrightarrow> job_reach d d2"

lemmas keeps_operations = keeps_create_job keeps_claim_job keeps_heartbeat keeps_release keeps_retry keeps_timeout
  keeps_mark_retry_ready keeps_update_status keeps_update_signature keeps_mark_settled keeps_initialize keeps_decision
  keeps_verification_expired keeps_add_message keeps_follows_drain keeps_quality keeps_dispute_outcome

lemma keeps_result: "keeps P m \<Longrightarrow> P d \<Longrightarrow> m d = (x, d') \<Longrightarrow> P d'"
  using keepsD [of P m d] by simp

lemma job_step_follows:
  assumes "job_step e d d'" and "distinct (map job_id (jobs d))"
  shows "follows e (jobs d) d'"
  using assms(1) follows_refl [OF assms(2), of e]
  by cases (erule keeps_result [OF keeps_create_job, rotated] keeps_result [OF keeps_claim_job, rotated]
      keeps_result [OF keeps_heartbeat, rotated] keeps_result [OF keeps_release, rotated]
      keeps_result [OF keeps_retry, rotated] keeps_result [OF keeps_timeout, rotated]
      keeps_result [OF keeps_mark_retry_ready, rotated] keeps_result [OF keeps_update_status, rotated]
      keeps_result [OF keeps_update_signature, rotated] keeps_result [OF keeps_mark_settled, rotated]
      keeps_result [OF keeps_initialize, rotated] keeps_result [OF keeps_decision, rotated]
      keeps_result [OF keeps_verification_expired, rotated] keeps_result [OF keeps_add_message, rotated]
      keeps_result [OF keeps_follows_drain, rotated] keeps_result [OF keeps_quality, rotated]
      keeps_result [OF keeps_dispute_outcome, rotated], assumption)+

text \<open>
  C2. The operations of \<open>core/jobs\<close> refine the state machine. Whatever operation runs, with whatever
  arguments and outcome, no job disappears, each existing job is where steps of the machine lead from
  where it was, and a job that appears started as a fresh pending row under a new identifier.
\<close>

theorem operations_follow_machine:
  assumes "job_step e d d'" and "distinct (map job_id (jobs d))"
  shows "distinct (map job_id (jobs d')) \<and>
     (\<exists>old new. jobs d' = old @ new \<and> list_all2 (row_step e)\<^sup>*\<^sup>* (jobs d) old \<and>
        (\<forall>j\<in>set new. \<exists>k. fresh_job k \<and> (row_step e)\<^sup>*\<^sup>* k j))"
  using job_step_follows [OF assms] by (simp add: follows_def)

lemma operations_follow_machine_witness:
  "\<exists>old new. jobs (snd (mark_settled (sample_env SQLite) ''j2'' sample_jobs_db)) = old @ new \<and>
     list_all2 (row_step (sample_env SQLite))\<^sup>*\<^sup>* (jobs sample_jobs_db) old"
proof -
  have "job_step (sample_env SQLite) sample_jobs_db (snd (mark_settled (sample_env SQLite) ''j2'' sample_jobs_db))"
    by (rule job_step.Settle [of _ "''j2''" _ "fst (mark_settled (sample_env SQLite) ''j2'' sample_jobs_db)"]) simp
  from operations_follow_machine [OF this] show ?thesis
    by (auto simp: sample_jobs_db_def sample_job_def)
qed

section \<open>Invariants of the machine\<close>

definition row_wf :: "job \<Rightarrow> bool" where
  "row_wf j \<longleftrightarrow> job_check j \<and> attempt_count j \<le> max_attempts j \<and>
     (claim_owner_id j = None \<longleftrightarrow> claim_token j = None) \<and> (claim_owner_id j = None \<longleftrightarrow> lease_expires_at j = None) \<and>
     (output_verification_window_seconds j \<le> 0 \<longrightarrow> output_verification_status j = ''not_required'')"

definition jobs_wf :: "db \<Rightarrow> bool" where
  "jobs_wf d \<longleftrightarrow> distinct (map job_id (jobs d)) \<and> (\<forall>j\<in>set (jobs d). row_wf j)"

definition decided :: "job \<Rightarrow> bool" where
  "decided j \<longleftrightarrow> output_verification_status j \<in> {''accepted'', ''rejected'', ''expired''}"

text \<open>What a job can no longer change once it has it, and what only grows.\<close>

definition later :: "job \<Rightarrow> job \<Rightarrow> bool" where
  "later j k \<longleftrightarrow> job_id k = job_id j \<and> agent_id k = agent_id j \<and> agent_owner_id k = agent_owner_id j \<and>
     caller_owner_id k = caller_owner_id j \<and> caller_wallet_id k = caller_wallet_id j \<and>
     agent_wallet_id k = agent_wallet_id j \<and> platform_wallet_id k = platform_wallet_id j \<and>
     price_cents k = price_cents j \<and> caller_charge_cents k = caller_charge_cents j \<and>
     platform_fee_pct_at_create k = platform_fee_pct_at_create j \<and> max_attempts k = max_attempts j \<and>
     input_payload k = input_payload j \<and> created_at k = created_at j \<and>
     attempt_count j \<le> attempt_count k \<and> retry_count j \<le> retry_count k \<and> timeout_count j \<le> timeout_count k \<and>
     partials_count j \<le> partials_count k \<and> steer_count j \<le> steer_count k \<and>
     (settled_at j \<noteq> None \<longrightarrow> settled_at k = settled_at j) \<and>
     (terminal_at j \<noteq> None \<longrightarrow> terminal_at k = terminal_at j \<and> terminal_message_id k = terminal_message_id j) \<and>
     (decided j \<longrightarrow> output_verification_status k = output_verification_status j)"

lemma later_refl [simp]: "later j j"
  by (simp add: later_def)

lemma later_trans: "later j k \<Longrightarrow> later k l \<Longrightarrow> later j l"
  by (auto simp: later_def decided_def)

lemma attempts_wf: "job_check j \<Longrightarrow> attempts_of j = attempt_count j \<and> max_attempts_of j = max_attempts j"
  by (auto simp: job_check_def attempts_of_def max_attempts_of_def to_non_negative_int_def)

lemmas verification_text_defs = verification_status_def normalize_output_verification_status_def lowered_def
  OUTPUT_VERIFICATION_STATUSES_def py_strip_def py_space_def py_lower_def lower_char_def or_text_def or_empty_def Let_def

lemma verification_status_texts:
  "output_verification_status j = ''not_required'' \<Longrightarrow> verification_status j = ''not_required''"
  "output_verification_status j = ''accepted'' \<Longrightarrow> verification_status j = ''accepted''"
  "output_verification_status j = ''rejected'' \<Longrightarrow> verification_status j = ''rejected''"
  "output_verification_status j = ''expired'' \<Longrightarrow> verification_status j = ''expired''"
  by (simp_all add: verification_text_defs)

lemma clean_Some_not_None: "clean_optional_text v \<noteq> None \<Longrightarrow> v \<noteq> None"
  by (cases v) (simp_all add: clean_optional_text_def or_empty_def py_strip_def)

lemma row_step_wf:
  assumes "row_step e j k" and "row_wf j"
  shows "row_wf k \<and> later j k"
  using assms
proof (induction rule: row_step.induct)
  case (Claimed owner require j lease)
  then show ?case using attempts_wf [of j]
    by (auto simp: claimed_row_def Let_def row_wf_def later_def job_check_def decided_def)
next
  case (Heartbeat j owner lease)
  then show ?case by (auto simp: heartbeat_row_def row_wf_def later_def job_check_def decided_def)
next
  case (Requeued j delay err)
  then show ?case
    by (auto simp: requeued_row_def unclaimed_row_def row_wf_def later_def job_check_def decided_def to_non_negative_int_def)
next
  case (TimedOut j allowed delay msg)
  then show ?case
    by (auto simp: timed_out_row_def requeued_row_def unclaimed_row_def row_wf_def later_def job_check_def decided_def
        to_non_negative_int_def)
next
  case (StatusUpdated completed j st outp err g)
  then show ?case
    by (auto simp: status_updated_row_def signed_row_def Let_def row_wf_def later_def job_check_def decided_def)
next
  case (VerificationOff j)
  then show ?case by (auto simp: verification_reset_def row_wf_def later_def job_check_def decided_def)
next
  case (VerificationOpened j deadline)
  then show ?case
    by (auto simp: verification_reset_def row_wf_def later_def job_check_def decided_def verification_status_texts)
next
  case (Decided j next_status who why)
  then show ?case using verification_status_texts [of j] by (auto simp: row_wf_def later_def job_check_def decided_def)
next
  case (Messaged k j lease n)
  then show ?case
    by (auto simp: message_effect_def row_wf_def later_def job_check_def decided_def lease_extended_def
        dest: clean_Some_not_None split: option.split)
qed (auto simp: unclaimed_row_def signed_row_def stopped_row_def row_wf_def later_def job_check_def decided_def)

lemma row_steps_wf: "row_steps e j k \<Longrightarrow> row_wf j \<Longrightarrow> row_wf k \<and> later j k"
proof (induction rule: rtranclp_induct)
  case (step k l)
  then show ?case using row_step_wf [of e k l] later_trans by blast
qed simp

lemma fresh_job_wf: "fresh_job j \<Longrightarrow> row_wf j"
  by (auto simp: fresh_job_def row_wf_def job_check_def)

lemma follows_wf:
  assumes "follows e (jobs d) d'" and "jobs_wf d"
  shows "jobs_wf d' \<and> (\<forall>j\<in>set (jobs d). \<exists>k\<in>set (jobs d'). later j k)"
proof -
  obtain old new where d: "jobs d' = old @ new" "list_all2 (row_steps e) (jobs d) old"
    "\<forall>j\<in>set new. \<exists>k. fresh_job k \<and> row_steps e k j" "distinct (map job_id (jobs d'))"
    using assms(1) by (auto simp: follows_def)
  have all: "\<forall>j\<in>set (jobs d). row_wf j" using assms(2) by (simp add: jobs_wf_def)
  have "list_all2 (\<lambda>j k. row_wf k \<and> later j k) (jobs d) old"
    using d(2) by (rule list.rel_mono_strong) (use all in \<open>auto dest: row_steps_wf\<close>)
  then have "\<forall>k\<in>set old. row_wf k" "\<forall>j\<in>set (jobs d). \<exists>k\<in>set old. later j k"
    by (auto simp: list_all2_conv_all_nth in_set_conv_nth) (metis nth_mem)
  moreover have "\<forall>k\<in>set new. row_wf k"
    using d(3) by (auto dest: row_steps_wf fresh_job_wf)
  ultimately show ?thesis using d(1,4) by (auto simp: jobs_wf_def)
qed

lemma reach_wf:
  assumes "job_reach d d'" and "jobs_wf d"
  shows "jobs_wf d' \<and> (\<forall>j\<in>set (jobs d). \<exists>k\<in>set (jobs d'). later j k)"
  using assms
proof (induction rule: job_reach.induct)
  case (start d)
  then show ?case using later_refl by blast
next
  case (step d d1 e d2)
  then have d1: "jobs_wf d1" "\<forall>j\<in>set (jobs d). \<exists>k\<in>set (jobs d1). later j k" by auto
  have "follows e (jobs d1) d2" using step.hyps(2) d1(1) by (intro job_step_follows) (simp_all add: jobs_wf_def)
  from follows_wf [OF this d1(1)] d1(2) show ?case by (meson later_trans)
qed

text \<open>
  C3. An invariant of every history. In every database that the operations reach from a well-formed one,
  job identifiers are unique and every job satisfies the schema, was attempted at most \<open>max_attempts\<close>
  times, holds its claim whole or not at all (owner, token and lease are set together and cleared
  together), and a job without a verification window is never asked for a verdict on its output.
\<close>

theorem reachable_jobs_well_formed:
  assumes "job_reach d d'" and "jobs_wf d"
  shows "distinct (map job_id (jobs d')) \<and> (\<forall>j\<in>set (jobs d').
     job_check j \<and> attempt_count j \<le> max_attempts j \<and>
     (claim_owner_id j = None \<longleftrightarrow> claim_token j = None) \<and> (claim_owner_id j = None \<longleftrightarrow> lease_expires_at j = None) \<and>
     (output_verification_window_seconds j \<le> 0 \<longrightarrow> output_verification_status j = ''not_required''))"
  using reach_wf [OF assms] unfolding jobs_wf_def row_wf_def by blast

lemma sample_jobs_wf: "jobs_wf sample_jobs_db"
  by (simp add: jobs_wf_def sample_jobs_db_def sample_job_def row_wf_def job_check_def)

lemma sample_reach:
  "job_reach sample_jobs_db (snd (claim_job (sample_env SQLite) ''j2'' ''agent:bob'' 60 True sample_jobs_db))"
  by (rule job_reach.step [OF job_reach.start job_step.Claim]) (rule prod.collapse [symmetric])

lemma reachable_jobs_well_formed_witness:
  "distinct (map job_id (jobs (snd (claim_job (sample_env SQLite) ''j2'' ''agent:bob'' 60 True sample_jobs_db)))) \<and>
   list_all (\<lambda>j. attempt_count j \<le> max_attempts j)
     (jobs (snd (claim_job (sample_env SQLite) ''j2'' ''agent:bob'' 60 True sample_jobs_db)))"
  using reachable_jobs_well_formed [OF sample_reach sample_jobs_wf] by (auto simp: list_all_iff)

text \<open>
  C23. Histories only move forward. Across any sequence of operations a job keeps its identity, parties,
  wallets, price and input; its counters never decrease; and once it has a settlement stamp, a
  terminal stamp of a \<open>stop_when\<close> match, or a verdict on its output, that stamp or verdict never changes.
\<close>

theorem job_history_is_monotone:
  assumes "job_reach d d'" and "jobs_wf d" and "j \<in> set (jobs d)"
  shows "\<exists>k\<in>set (jobs d'). later j k"
  using reach_wf [OF assms(1,2)] assms(3) by blast

lemma job_history_is_monotone_witness:
  "\<exists>k\<in>set (jobs (snd (claim_job (sample_env SQLite) ''j2'' ''agent:bob'' 60 True sample_jobs_db))). later sample_job k"
  by (rule job_history_is_monotone [OF sample_reach sample_jobs_wf]) (simp add: sample_jobs_db_def)

end
