(* ===== verification/Lease_Safety.thy ===== *)
theory Lease_Safety
  imports Messaging
begin

text \<open>
  What the lease protocol of \<open>core/jobs/leases.py\<close> promises to a worker: exclusion while the lease runs,
  fencing of stale tokens, an end to a worker that always crashes, agreement of the sweeper's query with
  its action; and two ways in which the promises have holes.
\<close>

section \<open>One operation on one row\<close>

lemma find_update_hit:
  "(\<And>i. q i \<Longrightarrow> q (f i)) \<Longrightarrow> find q (update_rows q f rows) = map_option f (find q rows)"
  by (induction rows) auto

lemma find_job_update:
  "(\<And>i. job_id i = job \<Longrightarrow> job_id (f i) = job) \<Longrightarrow>
   find_job job (d\<lparr>jobs := update_rows (\<lambda>i. job_id i = job) f (jobs d)\<rparr>) = map_option f (find_job job d)"
  by (simp add: find_job_def find_update_hit)

lemma find_job_frame [simp]:
  "find_job job (d\<lparr>tx_failed := b\<rparr>) = find_job job d" "find_job job (d\<lparr>job_messages := ms\<rparr>) = find_job job d"
  "find_job job (d\<lparr>jobs := jobs d\<rparr>) = find_job job d"
  by (simp_all add: find_job_def)

lemma find_job_id: "find_job job d = Some j \<Longrightarrow> job_id j = job \<and> j \<in> set (jobs d)"
  by (auto simp: find_job_def dest: find_SomeD)

lemma wp_get_job: "wp (get_job e job) Q E d = Q (find_job job d) (d\<lparr>tx_failed := False\<rparr>)"
  by (simp add: get_job_def wp_simps pg_failed_def)

lemma wp_claim_event_row:
  "\<not> pg_failed e d \<Longrightarrow> wp (insert_claim_event_row e job kind owner token started expires actor metadata) Q E d =
   Q (lastrowid e (next_message_id d)) (d\<lparr>job_messages := job_messages d @
      [\<lparr>message_id = next_message_id d, msg_job_id = job, msg_from_id = or_text (or_empty actor) CLAIM_EVENT_ACTOR,
        msg_type = CLAIM_EVENT_MSG_TYPE, msg_payload = claim_event_payload e kind owner token started expires metadata,
        msg_correlation_id = None, msg_created_at = now e\<rparr>]\<rparr>)"
  by (simp add: insert_claim_event_row_def insert_job_message_row_def wp_def stmt_def Let_def)

text \<open>A successful claim: what the row was and what it is.\<close>

lemma wp_claim_job:
  "wp (claim_job e job A lease require)
     (\<lambda>r d1. \<forall>j. r = Some j \<longrightarrow> find_job job d1 = Some j \<and>
        (\<exists>i. find_job job d = Some i \<and> \<not> claim_refused e (py_strip A) require i \<and>
           j = claimed_row e (py_strip A) lease i i)) (\<lambda>_ _. True) d"
proof (cases "validate_claim_params e A lease")
  case (Ok p)
  then have p: "p = (py_strip A, lease)"
    by (auto simp: validate_claim_params_def validate_lease_seconds_def Let_def split: if_splits)
  have "wp (claim_in_transaction e job (py_strip A) lease require)
     (\<lambda>b d1. \<not> tx_failed d1 \<and> (b \<longrightarrow> (\<exists>i. find_job job d = Some i \<and> \<not> claim_refused e (py_strip A) require i \<and>
        find_job job d1 = Some (claimed_row e (py_strip A) lease i i)))) (\<lambda>_ _. True) (d\<lparr>tx_failed := False\<rparr>)"
  proof (cases "find_job job d")
    case (Some i)
    have id: "job_id (claimed_row e (py_strip A) lease i k) = job_id k" for k by (simp add: claimed_row_def Let_def)
    show ?thesis
    proof (cases "claim_refused e (py_strip A) require i")
      case False
      have row: "find_job job (d\<lparr>tx_failed := False, jobs := update_rows (\<lambda>i. job_id i = job) (claimed_row e (py_strip A) lease i) (jobs d)\<rparr>)
          = Some (claimed_row e (py_strip A) lease i i)"
        using find_job_update [of job "claimed_row e (py_strip A) lease i" "d\<lparr>tx_failed := False\<rparr>"] id Some by simp
      show ?thesis
        unfolding claim_in_transaction_def claim_event_def Let_def
        using False Some row by (simp add: wp_bindE wp_select wp_if wp_ret wp_update_stmt wp_claim_event_row pg_failed_def)
    qed (simp add: claim_in_transaction_def wp_simps pg_failed_def Some)
  qed (simp add: claim_in_transaction_def wp_simps pg_failed_def)
  then have "wp (transact (claim_in_transaction e job (py_strip A) lease require))
     (\<lambda>b d1. b \<longrightarrow> (\<exists>i. find_job job d = Some i \<and> \<not> claim_refused e (py_strip A) require i \<and>
        find_job job d1 = Some (claimed_row e (py_strip A) lease i i))) (\<lambda>_ _. True) d"
    unfolding wp_transact by (rule wp_post_mono) auto
  then show ?thesis
    unfolding claim_job_def Ok p by (auto simp: wp_bindE wp_if wp_get_job wp_ret elim!: wp_post_mono split: if_splits)
qed (simp add: claim_job_def wp_simps)

definition unchanged_none :: "db \<Rightarrow> (db, 'a option) prog \<Rightarrow> bool" where
  "unchanged_none d m \<longleftrightarrow> wp m (\<lambda>r d'. r = None \<and> d' = d\<lparr>tx_failed := False\<rparr>) (\<lambda>ex d'. is_value_error ex \<and> jobs d' = jobs d) d"

lemma unchanged_claim:
  assumes "find_job job d = Some j" and "claim_refused e (py_strip B) require j"
  shows "unchanged_none d (claim_job e job B n require)"
  using assms
  by (cases "validate_claim_params e B n")
    (auto simp: unchanged_none_def claim_job_def claim_in_transaction_def wp_simps pg_failed_def
      validate_claim_params_def validate_lease_seconds_def Let_def split: if_splits)

lemma unchanged_heartbeat:
  assumes "find_job job d = Some j" and "clean_optional_text (claim_owner_id j) \<noteq> Some (py_strip B) \<or> token_mismatch tok j"
  shows "unchanged_none d (heartbeat_job_lease e job B n tok require)"
  using assms by (auto simp: unchanged_none_def heartbeat_job_lease_def heartbeat_in_transaction_def wp_simps pg_failed_def Let_def)

lemma unchanged_release:
  assumes "find_job job d = Some j" and "clean_optional_text (claim_owner_id j) \<noteq> Some (py_strip B) \<or> token_mismatch tok j"
  shows "unchanged_none d (release_job_claim e job B tok require)"
  using assms by (auto simp: unchanged_none_def release_job_claim_def release_in_transaction_def wp_simps pg_failed_def Let_def)

lemma unchanged_retry:
  assumes "find_job job d = Some j" and "token_mismatch tok j"
  shows "unchanged_none d (schedule_job_retry e job delay err who tok require)"
  using assms by (auto simp: unchanged_none_def schedule_job_retry_def retry_in_transaction_def wp_simps pg_failed_def)

lemma clean_strip [simp]: "clean_optional_text (Some (py_strip s)) = none_if_empty (py_strip s)"
  by (simp add: clean_optional_text_def or_empty_def)

section \<open>Exclusion and fencing\<close>

lemma unchanged_timeout:
  assumes "find_job job d = Some j" and "\<not> lease_is_expired j (now e)"
  shows "unchanged_none d (mark_job_timeout e job delay msg allow)"
  using assms by (auto simp: unchanged_none_def mark_job_timeout_def timeout_in_transaction_def wp_simps pg_failed_def)

lemma unchanged_jobs: "unchanged_none d m \<Longrightarrow> m d = (r, d') \<Longrightarrow> jobs d' = jobs d"
  by (cases r) (auto simp: unchanged_none_def wp_def)

text \<open>
  What others may do while a worker holds the claim \<open>j\<close> until \<open>until\<close>: other workers claim the job, anybody
  presents another name or another token to prolong it, give it back or requeue it, the sweeper times it
  out, in any order; and any change that leaves the row of this job as it is.
\<close>

definition wrong_claimant :: "job \<Rightarrow> string \<Rightarrow> string option \<Rightarrow> bool" where
  "wrong_claimant j B tok \<longleftrightarrow> clean_optional_text (claim_owner_id j) \<noteq> Some (py_strip B) \<or> token_mismatch tok j"

inductive rivals :: "job \<Rightarrow> int \<Rightarrow> db \<Rightarrow> db \<Rightarrow> bool" for j :: job and until :: int where
  Start: "rivals j until d d"
| Claim: "rivals j until d d1 \<Longrightarrow> now e < until \<Longrightarrow> clean_optional_text (claim_owner_id j) \<noteq> Some (py_strip B) \<Longrightarrow>
    claim_job e (job_id j) B n require d1 = (r, d2) \<Longrightarrow> rivals j until d d2"
| Heartbeat: "rivals j until d d1 \<Longrightarrow> wrong_claimant j B tok \<Longrightarrow>
    heartbeat_job_lease e (job_id j) B n tok require d1 = (r, d2) \<Longrightarrow> rivals j until d d2"
| Release: "rivals j until d d1 \<Longrightarrow> wrong_claimant j B tok \<Longrightarrow>
    release_job_claim e (job_id j) B tok require d1 = (r, d2) \<Longrightarrow> rivals j until d d2"
| Requeue: "rivals j until d d1 \<Longrightarrow> token_mismatch tok j \<Longrightarrow>
    schedule_job_retry e (job_id j) delay err who tok require d1 = (r, d2) \<Longrightarrow> rivals j until d d2"
| TimeOut: "rivals j until d d1 \<Longrightarrow> now e < until \<Longrightarrow>
    mark_job_timeout e (job_id j) delay msg allow d1 = (r, d2) \<Longrightarrow> rivals j until d d2"
| Elsewhere: "rivals j until d d1 \<Longrightarrow> find_job (job_id j) d2 = find_job (job_id j) d1 \<Longrightarrow> rivals j until d d2"

lemma claim_refused_active:
  "lease_is_active j (now e) \<Longrightarrow> clean_optional_text (claim_owner_id j) \<noteq> Some B \<Longrightarrow> claim_refused e B require j"
  by (simp add: claim_refused_def)

lemma rivals_keep:
  assumes "rivals j until d d'" and "find_job (job_id j) d = Some j" and lease: "\<And>t. t < until \<Longrightarrow> lease_is_active j t"
  shows "find_job (job_id j) d' = Some j"
proof -
  have same: "find_job job d2 = Some j" if "find_job job d1 = Some j" "unchanged_none d1 m" "m d1 = (r, d2)"
    for job d1 d2 r and m :: "(db, job option) prog"
    using unchanged_jobs [OF that(2,3)] that(1) by (simp add: find_job_def)
  show ?thesis
    using assms(1,2)
  proof (induction rule: rivals.induct)
    case (Claim d d1 e B n require r d2)
    then show ?case using lease [of "now e"] by (blast intro: same unchanged_claim claim_refused_active)
  next
    case (Heartbeat d d1 B tok e n require r d2)
    then show ?case unfolding wrong_claimant_def by (blast intro: same unchanged_heartbeat)
  next
    case (Release d d1 B tok e require r d2)
    then show ?case unfolding wrong_claimant_def by (blast intro: same unchanged_release)
  next
    case (Requeue d d1 tok e delay err who require r d2)
    then show ?case by (blast intro: same unchanged_retry)
  next
    case (TimeOut d d1 e delay msg allow r d2)
    have "\<not> lease_is_expired j (now e)"
      using lease [OF TimeOut.hyps(2)] by (auto simp: lease_is_active_def lease_is_expired_def split: option.splits)
    with TimeOut show ?case by (blast intro: same unchanged_timeout)
  qed simp_all
qed


text \<open>
  C15. A stale token is fenced off. A worker that presents another token than the one in force, under
  whatever name, can neither prolong the lease, nor give the job back, nor requeue it; and a claim
  that is not a renewal puts a new token in force.
\<close>

theorem stale_token_is_fenced:
  assumes row: "find_job job d = Some j" and tok: "clean_optional_text (claim_token j) \<noteq> Some tok"
  shows "unchanged_none d (heartbeat_job_lease e job B n (Some tok) require) \<and>
     unchanged_none d (release_job_claim e job B (Some tok) require) \<and>
     unchanged_none d (schedule_job_retry e job delay err who (Some tok) require) \<and>
     wp (claim_job e job B n require)
       (\<lambda>r _. \<forall>k. r = Some k \<longrightarrow> same_owner_reclaim e (py_strip B) j \<or> claim_token k = Some (uuid e 0)) (\<lambda>_ _. True) d"
proof -
  have new_token: "claim_token (claimed_row e w n j j) = Some (uuid e 0)" if "\<not> same_owner_reclaim e w j" for w
    using that by (simp add: claimed_row_def Let_def)
  have "token_mismatch (Some tok) j" using tok by (simp add: token_mismatch_def)
  moreover have "wp (claim_job e job B n require)
       (\<lambda>r _. \<forall>k. r = Some k \<longrightarrow> same_owner_reclaim e (py_strip B) j \<or> claim_token k = Some (uuid e 0)) (\<lambda>_ _. True) d"
    by (rule wp_post_mono [OF wp_claim_job]) (use new_token in \<open>auto simp: row\<close>)
  ultimately show ?thesis using row by (simp add: unchanged_heartbeat unchanged_release unchanged_retry)
qed

definition sample_open_job :: job where
  "sample_open_job = sample_job\<lparr>job_state := Pending, completed_at := None, settled_at := None, attempt_count := 0\<rparr>"

definition sample_open_db :: db where
  "sample_open_db = sample_db\<lparr>jobs := [sample_open_job]\<rparr>"

lemma sample_claim:
  "\<exists>j d1. claim_job (sample_env SQLite) ''j1'' ''agent:bob'' 60 True sample_open_db = (Inr (Some j), d1)"
  by (simp add: sample_open_db_def sample_open_job_def sample_job_def sample_db_def claim_job_def claim_in_transaction_def
      claim_event_def insert_claim_event_row_def insert_job_message_row_def validate_claim_params_def validate_lease_seconds_def
      claim_refused_def same_owner_reclaim_def lease_is_active_def attempts_of_def max_attempts_of_def to_non_negative_int_def
      is_worker_authorized_def CLAIMABLE_STATUSES_def find_job_def get_job_def op_defs claimed_row_def job_check_def
      py_strip_def py_space_def Let_def clean_optional_text_def or_empty_def next_message_id_def sample_env_def)


definition sample_claimed_db :: db where
  "sample_claimed_db = sample_db\<lparr>jobs := [sample_open_job\<lparr>job_state := Running, claim_owner_id := Some ''agent:bob'',
     claim_token := Some ''tok'', lease_expires_at := Some 1700000010000000, attempt_count := 1\<rparr>]\<rparr>"

lemma stale_token_is_fenced_witness:
  "unchanged_none sample_claimed_db (heartbeat_job_lease (sample_env SQLite) ''j1'' ''agent:bob'' 60 (Some ''old'') True)"
  by (rule stale_token_is_fenced [THEN conjunct1])
    (auto simp: sample_claimed_db_def find_job_def sample_open_job_def sample_job_def clean_optional_text_def or_empty_def
      py_strip_def py_space_def)

section \<open>The sweeper's query and its action\<close>

lemma wp_timeout:
  assumes row: "find_job job d = Some j" and check: "job_check (timed_out_row e (allow \<and> attempts_of j < max_attempts_of j) delay msg j j)"
    and act: "settled_at j = None" "job_state j \<in> ACTIVE_LEASE_STATUSES" "lease_is_expired j (now e)" "0 \<le> delay"
    and only: "\<forall>i\<in>set (jobs d). job_id i = job \<longrightarrow> i = j"
  shows "wp (mark_job_timeout e job delay msg allow)
     (\<lambda>r d1. r = Some (timed_out_row e (allow \<and> attempts_of j < max_attempts_of j) delay msg j j) \<and>
        jobs d1 = update_rows (\<lambda>i. job_id i = job) (timed_out_row e (allow \<and> attempts_of j < max_attempts_of j) delay msg j) (jobs d) \<and>
        find_job job d1 = r \<and> wallets d1 = wallets d \<and> transactions d1 = transactions d)
     (\<lambda>_ _. False) d"
proof -
  let ?f = "timed_out_row e (allow \<and> attempts_of j < max_attempts_of j) delay msg j"
  have id: "job_id (?f k) = job_id k" for k by (simp add: timed_out_row_def requeued_row_def unclaimed_row_def)
  have chk: "\<forall>i\<in>set (jobs d). job_id i = job \<longrightarrow> job_check (?f i)" using only check by blast
  have found: "find_job job (d\<lparr>tx_failed := False, jobs := update_rows (\<lambda>i. job_id i = job) ?f (jobs d)\<rparr>) = Some (?f j)"
    using find_job_update [of job ?f "d\<lparr>tx_failed := False\<rparr>"] id row by simp
  show ?thesis
    using row act chk found
    by (simp add: mark_job_timeout_def timeout_in_transaction_def Let_def wp_simps pg_failed_def wp_claim_event_row wp_get_job)
qed

text \<open>What \<open>mark_job_timeout\<close> asks of the row. It does not look at the completion stamp.\<close>

definition timeout_due :: "int \<Rightarrow> job \<Rightarrow> bool" where
  "timeout_due t j \<longleftrightarrow> settled_at j = None \<and> job_state j \<in> ACTIVE_LEASE_STATUSES \<and> lease_is_expired j t"

lemma listed_iff_due:
  assumes "clean_optional_text (claim_owner_id j) \<noteq> None"
  shows "expired_lease_listed t j \<longleftrightarrow> timeout_due t j \<and> completed_at j = None"
  using assms
  by (cases "claim_owner_id j") (auto simp: clean_optional_text_def or_empty_def py_strip_def expired_lease_listed_def timeout_due_def open_job_def lease_is_expired_def split: option.splits)

lemma timed_out_columns:
  assumes "job_check j" and "k = timed_out_row e c delay msg j j"
  shows "claim_owner_id k = None" and "timeout_count k = timeout_count j + 1" and "job_state k = (if c then Pending else Failed)"
    and "c \<Longrightarrow> completed_at k = None" and "job_check k" and "\<not> timeout_due t k" and "\<not> expired_lease_listed t k"
  using assms
  by (simp_all add: timed_out_row_def requeued_row_def unclaimed_row_def to_non_negative_int_def job_check_def timeout_due_def
      lease_is_expired_def expired_lease_listed_def clean_optional_text_def or_empty_def ACTIVE_LEASE_STATUSES_def)

text \<open>
  C26. The sweeper's query and its action. \<open>list_jobs_with_expired_leases\<close> returns only jobs that are open, claimed
  and past their lease, and all of them when they fit its limit. For a job with a claimant, \<open>mark_job_timeout\<close> accepts
  exactly what the query lists and, as it does not look at the completion stamp, a claimed job that was completed
  and reopened. What it accepts loses its claim, is neither listed nor accepted again, and is pending without a
  completion stamp while attempts are left, failed otherwise; on any other row it returns \<open>None\<close> and changes nothing.
\<close>

theorem sweeper_lists_what_it_times_out:
  assumes row: "find_job job d = Some j" and ids: "distinct (map job_id (jobs d))" and check: "job_check j" and delay: "0 \<le> delay"
    and listed: "list_jobs_with_expired_leases e limit None d = (Inr rows, d0)"
  shows "(j \<in> set rows \<longrightarrow> expired_lease_listed (now e) j) \<and>
    (expired_lease_listed (now e) j \<and> length (filter (expired_lease_listed (now e)) (jobs d)) \<le> clamp_limit limit 200 \<longrightarrow> j \<in> set rows) \<and>
    (clean_optional_text (claim_owner_id j) \<noteq> None \<longrightarrow>
       (expired_lease_listed (now e) j \<longleftrightarrow> timeout_due (now e) j \<and> completed_at j = None)) \<and>
    wp (mark_job_timeout e job delay msg allow)
     (\<lambda>r d1. if timeout_due (now e) j
        then \<exists>k. r = Some k \<and> find_job job d1 = Some k \<and> claim_owner_id k = None \<and> \<not> expired_lease_listed t k \<and> \<not> timeout_due t k \<and>
               timeout_count k = timeout_count j + 1 \<and>
               (if allow \<and> attempts_of j < max_attempts_of j then job_state k = Pending \<and> completed_at k = None else job_state k = Failed)
        else r = None \<and> d1 = d\<lparr>tx_failed := False\<rparr>)
     (\<lambda>_ _. False) d"
proof (intro conjI impI)
  let ?all = "filter (expired_lease_listed (now e)) (jobs d)"
  have rows: "rows = take (clamp_limit limit 200) (sort_key (lease_order e) (sort_key created_at ?all))"
    using listed by (auto simp: list_jobs_with_expired_leases_def op_defs now_or_def Let_def split: if_splits)
  show "expired_lease_listed (now e) j" if "j \<in> set rows" using that by (auto simp: rows dest!: in_set_takeD)
  show "j \<in> set rows" if "expired_lease_listed (now e) j \<and> length ?all \<le> clamp_limit limit 200"
    using that find_job_id [OF row] by (simp add: rows)
  show "expired_lease_listed (now e) j \<longleftrightarrow> timeout_due (now e) j \<and> completed_at j = None"
    if "clean_optional_text (claim_owner_id j) \<noteq> None" using that by (rule listed_iff_due)
  show "wp (mark_job_timeout e job delay msg allow)
     (\<lambda>r d1. if timeout_due (now e) j
        then \<exists>k. r = Some k \<and> find_job job d1 = Some k \<and> claim_owner_id k = None \<and> \<not> expired_lease_listed t k \<and> \<not> timeout_due t k \<and>
               timeout_count k = timeout_count j + 1 \<and>
               (if allow \<and> attempts_of j < max_attempts_of j then job_state k = Pending \<and> completed_at k = None else job_state k = Failed)
        else r = None \<and> d1 = d\<lparr>tx_failed := False\<rparr>)
     (\<lambda>_ _. False) d"
  proof (cases "timeout_due (now e) j")
    case True
    then have act: "settled_at j = None" "job_state j \<in> ACTIVE_LEASE_STATUSES" "lease_is_expired j (now e)"
      by (simp_all add: timeout_due_def)
    have only: "\<forall>i\<in>set (jobs d). job_id i = job \<longrightarrow> i = j"
      using find_distinct_key [OF ids] row by (auto simp: find_job_def)
    note cols = timed_out_columns [OF check refl]
    from wp_timeout [OF row cols(5) act delay only] show ?thesis
      by (rule wp_post_mono) (use True cols in auto)
  next
    case False
    then show ?thesis
      using row delay by (auto simp: timeout_due_def mark_job_timeout_def timeout_in_transaction_def wp_simps pg_failed_def)
  qed
qed

lemma sweeper_lists_what_it_times_out_witness:
  "wp (mark_job_timeout ((sample_env Postgres)\<lparr>now := 1700000010000000\<rparr>) ''j1'' 30 ''lost'' True)
     (\<lambda>r d1. \<exists>k. find_job ''j1'' d1 = Some k \<and> job_state k = Pending \<and> timeout_count k = 1) (\<lambda>_ _. False) sample_claimed_db"
proof -
  let ?j = "sample_open_job\<lparr>job_state := Running, claim_owner_id := Some ''agent:bob'',
     claim_token := Some ''tok'', lease_expires_at := Some 1700000010000000, attempt_count := 1\<rparr>"
  let ?e = "(sample_env Postgres)\<lparr>now := 1700000010000000\<rparr>"
  have "find_job ''j1'' sample_claimed_db = Some ?j" "distinct (map job_id (jobs sample_claimed_db))" "job_check ?j" "0 \<le> (30::int)"
    by (simp_all add: sample_claimed_db_def find_job_def sample_open_job_def sample_job_def job_check_def)
  moreover obtain rows d0 where "list_jobs_with_expired_leases ?e 10 None sample_claimed_db = (Inr rows, d0)"
    by (simp add: list_jobs_with_expired_leases_def op_defs Let_def)
  ultimately have "wp (mark_job_timeout ?e ''j1'' 30 ''lost'' True)
     (\<lambda>r d1. if timeout_due (now ?e) ?j
        then \<exists>k. r = Some k \<and> find_job ''j1'' d1 = Some k \<and> claim_owner_id k = None \<and> \<not> expired_lease_listed 0 k \<and> \<not> timeout_due 0 k \<and>
               timeout_count k = timeout_count ?j + 1 \<and>
               (if True \<and> attempts_of ?j < max_attempts_of ?j then job_state k = Pending \<and> completed_at k = None else job_state k = Failed)
        else r = None \<and> d1 = sample_claimed_db\<lparr>tx_failed := False\<rparr>) (\<lambda>_ _. False) sample_claimed_db"
    using sweeper_lists_what_it_times_out by blast
  then show ?thesis
    by (rule wp_post_mono)
      (auto simp: timeout_due_def lease_is_expired_def ACTIVE_LEASE_STATUSES_def sample_open_job_def sample_job_def
        attempts_of_def max_attempts_of_def to_non_negative_int_def clean_optional_text_def or_empty_def py_strip_def py_space_def)
qed

section \<open>A completed job\<close>

text \<open>
  A completed job keeps its completion stamp, but not its status. A second completion of a job is
  dropped: the job stays as it is. An update that does not claim completion overwrites the status
  and the output of a completed job all the same, and leaves the stamp.
\<close>

theorem completed_job_can_be_reopened:
  assumes row: "find_job job d = Some j" and ids: "distinct (map job_id (jobs d))" and check: "job_check j"
    and completed: "completed_at j = Some t" and st: "parse_status status = Some st" and unsigned: "or_empty (sg_signature g) = []"
  shows "wp (update_job_status e job status outp err True g) (\<lambda>r d1. r = Some j \<and> jobs d1 = jobs d) (\<lambda>_ _. False) d \<and>
     wp (update_job_status e job status outp err False g)
       (\<lambda>r d1. \<exists>k. r = Some k \<and> find_job job d1 = Some k \<and> job_state k = st \<and> output_payload k = outp \<and> completed_at k = Some t)
       (\<lambda>_ _. False) d"
proof
  have only: "\<forall>i\<in>set (jobs d). job_id i = job \<longrightarrow> i = j"
    using find_distinct_key [OF ids] row by (auto simp: find_job_def)
  have none: "update_rows (\<lambda>i. job_id i = job \<and> completed_at i = None) f (jobs d) = jobs d" for f
    using only completed by (intro update_rows_none) auto
  have found: "find_job job (d\<lparr>tx_failed := False, jobs := jobs d\<rparr>) = Some j"
    using row by (simp add: find_job_def)
  show "wp (update_job_status e job status outp err True g) (\<lambda>r d1. r = Some j \<and> jobs d1 = jobs d) (\<lambda>_ _. False) d"
    using only completed st found none
    by (auto simp: update_job_status_def wp_simps pg_failed_def wp_get_job)
  let ?f = "status_updated_row e st outp err False g"
  have f: "job_id (?f k) = job_id k" "job_state (?f k) = st" "output_payload (?f k) = outp"
    "completed_at (?f j) = Some t" "job_check (?f k) = job_check k" for k
    using unsigned completed by (simp_all add: status_updated_row_def Let_def job_check_def)
  have found2: "find_job job (d\<lparr>tx_failed := False, jobs := update_rows (\<lambda>i. job_id i = job) ?f (jobs d)\<rparr>) = Some (?f j)"
    using find_job_update [of job ?f "d\<lparr>tx_failed := False\<rparr>"] f row by simp
  show "wp (update_job_status e job status outp err False g)
       (\<lambda>r d1. \<exists>k. r = Some k \<and> find_job job d1 = Some k \<and> job_state k = st \<and> output_payload k = outp \<and> completed_at k = Some t)
       (\<lambda>_ _. False) d"
    using only check st found2 f by (auto simp: update_job_status_def wp_simps pg_failed_def wp_get_job)
qed

lemma completed_job_can_be_reopened_witness:
  "wp (update_job_status (sample_env SQLite) ''j1'' ''running'' None None False \<lparr>sg_signature = None, sg_alg = None, sg_did = None, sg_at = None\<rparr>)
     (\<lambda>r d1. \<exists>k. r = Some k \<and> job_state k = Running \<and> completed_at k \<noteq> None) (\<lambda>_ _. False) sample_jobs_db"
proof -
  have a: "find_job ''j1'' sample_jobs_db = Some sample_job" "distinct (map job_id (jobs sample_jobs_db))" "job_check sample_job"
    "completed_at sample_job = Some 1650000000000000" "parse_status ''running'' = Some Running"
    "or_empty (sg_signature \<lparr>sg_signature = None, sg_alg = None, sg_did = None, sg_at = None\<rparr>) = []"
    by (simp_all add: sample_jobs_db_def find_job_def sample_job_def job_check_def parse_status_def VALID_STATUSES_def or_empty_def)
  from completed_job_can_be_reopened [OF a, THEN conjunct2] show ?thesis by (rule wp_post_mono) auto
qed

section \<open>A worker that always crashes\<close>

lemma wp_claim_granted:
  assumes row: "find_job job d = Some j" and check: "job_check (claimed_row e (py_strip A) lease j j)"
    and ok: "\<not> claim_refused e (py_strip A) require j" "attempts_of j < max_attempts_of j"
    and args: "py_strip A \<noteq> []" "0 < lease" "lease \<le> MAX_LONG_LEASE_SECONDS e"
    and only: "\<forall>i\<in>set (jobs d). job_id i = job \<longrightarrow> i = j"
  shows "wp (claim_job e job A lease require)
     (\<lambda>r d1. r = Some (claimed_row e (py_strip A) lease j j) \<and> find_job job d1 = r \<and>
        jobs d1 = update_rows (\<lambda>i. job_id i = job) (claimed_row e (py_strip A) lease j) (jobs d))
     (\<lambda>_ _. False) d"
proof -
  let ?f = "claimed_row e (py_strip A) lease j"
  have id: "job_id (?f k) = job_id k" for k by (simp add: claimed_row_def Let_def)
  have chk: "\<forall>i\<in>set (jobs d). job_id i = job \<longrightarrow> job_check (?f i)" using only check by blast
  have found: "find_job job (d\<lparr>tx_failed := False, jobs := update_rows (\<lambda>i. job_id i = job) ?f (jobs d)\<rparr>) = Some (?f j)"
    using find_job_update [of job ?f "d\<lparr>tx_failed := False\<rparr>"] id row by simp
  have v: "validate_claim_params e A lease = Ok (py_strip A, lease)"
    using args by (simp add: validate_claim_params_def validate_lease_seconds_def Let_def)
  show ?thesis
    unfolding claim_job_def v claim_in_transaction_def claim_event_def Let_def
    using row ok chk found
    by (simp add: wp_bindE wp_transact wp_select wp_if wp_ret wp_update_stmt wp_claim_event_row pg_failed_def wp_get_job)
qed

lemma bindE_assoc: "bindE (bindE m f) g = bindE m (\<lambda>x. bindE (f x) g)"
  by (auto simp: bindE_def fun_eq_iff split: prod.splits sum.splits)

definition awaits_worker :: "string \<Rightarrow> int \<Rightarrow> job \<Rightarrow> bool" where
  "awaits_worker A t j \<longleftrightarrow> job_state j = Pending \<and> settled_at j = None \<and> completed_at j = None \<and> claim_owner_id j = None \<and>
     (case next_retry_at j of None \<Rightarrow> True | Some x \<Rightarrow> x \<le> t) \<and> job_check j \<and> is_worker_authorized j (py_strip A)"

text \<open>A round: the worker claims the job and dies, the sweeper times the claim out. Each has its clock.\<close>

fun crash_rounds :: "string \<Rightarrow> string \<Rightarrow> int \<Rightarrow> int \<Rightarrow> (env \<times> env) list \<Rightarrow> (db, unit) prog" where
  "crash_rounds job A lease delay [] = ret ()"
| "crash_rounds job A lease delay ((e1, e2) # rounds) =
     bindE (claim_job e1 job A lease True) (\<lambda>_.
     bindE (mark_job_timeout e2 job delay ''lease expired'' True) (\<lambda>_. crash_rounds job A lease delay rounds))"

fun in_time :: "int \<Rightarrow> int \<Rightarrow> int \<Rightarrow> (env \<times> env) list \<Rightarrow> bool" where
  "in_time lease delay t [] = True"
| "in_time lease delay t ((e1, e2) # rounds) =
     (t \<le> now e1 \<and> lease \<le> MAX_LONG_LEASE_SECONDS e1 \<and> after_seconds e1 lease \<le> now e2 \<and>
      in_time lease delay (after_seconds e2 delay) rounds)"

lemma crash_round:
  assumes row: "find_job job d = Some j" and ids: "distinct (map job_id (jobs d))" and w: "awaits_worker A t j"
    and left: "attempt_count j < max_attempts j" and A: "py_strip A \<noteq> []" and lease: "0 < lease" "0 \<le> delay"
    and time: "t \<le> now e1" "lease \<le> MAX_LONG_LEASE_SECONDS e1" "after_seconds e1 lease \<le> now e2"
  shows "wp (bindE (claim_job e1 job A lease True) (\<lambda>_. mark_job_timeout e2 job delay ''lease expired'' True))
     (\<lambda>_ d2. \<exists>k. find_job job d2 = Some k \<and> distinct (map job_id (jobs d2)) \<and> max_attempts k = max_attempts j \<and>
        attempt_count k = attempt_count j + 1 \<and>
        (if attempt_count k < max_attempts j then awaits_worker A (after_seconds e2 delay) k
         else job_state k = Failed \<and> completed_at k \<noteq> None)) (\<lambda>_ _. False) d"
proof -
  let ?c = "claimed_row e1 (py_strip A) lease j" and ?t = "\<lambda>c i. timed_out_row e2 c delay ''lease expired'' i"
  have j: "attempts_of j = attempt_count j" "max_attempts_of j = max_attempts j"
    using w by (auto simp: awaits_worker_def job_check_def attempts_of_def max_attempts_of_def to_non_negative_int_def)
  have only: "\<forall>i\<in>set (jobs d). job_id i = job \<longrightarrow> i = j"
    using find_distinct_key [OF ids] row by (auto simp: find_job_def)
  have free: "\<not> same_owner_reclaim e1 (py_strip A) j" using w by (simp add: same_owner_reclaim_def awaits_worker_def)
  have ok: "\<not> claim_refused e1 (py_strip A) True j"
    using w time(1) by (auto simp: claim_refused_def awaits_worker_def CLAIMABLE_STATUSES_def lease_is_active_def split: option.splits)
  have k: "job_state (?c j) = Running" "settled_at (?c j) = None" "completed_at (?c j) = None"
    "claim_owner_id (?c j) = Some (py_strip A)" "lease_expires_at (?c j) = Some (after_seconds e1 lease)"
    "attempt_count (?c j) = attempt_count j + 1" "max_attempts (?c j) = max_attempts j" "job_check (?c j)"
    "job_id (?c i) = job_id i" "agent_owner_id (?c j) = agent_owner_id j" for i
    using w free j by (auto simp: claimed_row_def Let_def awaits_worker_def job_check_def)
  have k2: "attempts_of (?c j) = attempt_count j + 1" "max_attempts_of (?c j) = max_attempts j"
    using k by (auto simp: job_check_def attempts_of_def max_attempts_of_def to_non_negative_int_def)
  have out: "job_check (?t c (?c j) (?c j))" for c
    using k(8) by (simp add: timed_out_row_def requeued_row_def unclaimed_row_def job_check_def to_non_negative_int_def)
  have expired: "lease_is_expired (?c j) (now e2)" using k A time(3) by (simp add: lease_is_expired_def)
  have act: "job_state (?c j) \<in> ACTIVE_LEASE_STATUSES" using k(1) by (simp add: ACTIVE_LEASE_STATUSES_def)
  show ?thesis
    unfolding wp_bindE
  proof (rule wp_post_mono [OF wp_claim_granted [OF row k(8) ok _ A lease(1) time(2) only]], goal_cases)
    case (2 r d1)
    have ids1: "distinct (map job_id (jobs d1))" using 2 ids k(9) by (simp add: map_update_rows_same)
    have only1: "\<forall>i\<in>set (jobs d1). job_id i = job \<longrightarrow> i = ?c j"
      using find_distinct_key [OF ids1] 2 by (auto simp: find_job_def)
    show ?case
    proof (rule wp_post_mono [OF wp_timeout [OF _ out k(2) act expired lease(2) only1]], goal_cases)
      case 1
      then show ?case using 2 by simp
    next
      case (2 r2 d2)
      then have "distinct (map job_id (jobs d2))"
        using ids1 by (simp add: map_update_rows_same timed_out_row_def requeued_row_def unclaimed_row_def)
      then show ?case
        using 2 k k2 w out [of "attempt_count j + 1 < max_attempts j"]
        by (auto simp: timed_out_row_def requeued_row_def unclaimed_row_def awaits_worker_def is_worker_authorized_def)
    qed simp
  qed (use left j in simp_all)
qed

text \<open>
  C24. A crash loop ends. A worker that claims a pending job and dies, again and again, uses up the attempts
  of the job: after as many rounds as attempts were left the job has failed and is completed, with
  exactly \<open>max_attempts\<close> attempts, and no worker can ever claim it again.
\<close>

theorem crash_loop_ends_failed:
  assumes "find_job job d = Some j" and "distinct (map job_id (jobs d))" and "awaits_worker A t j"
    and "attempt_count j < max_attempts j" and "py_strip A \<noteq> []" and "0 < lease" and "0 \<le> delay"
    and "in_time lease delay t rounds" and "int (length rounds) = max_attempts j - attempt_count j"
  shows "wp (crash_rounds job A lease delay rounds)
     (\<lambda>_ d'. \<exists>k. find_job job d' = Some k \<and> job_state k = Failed \<and> completed_at k \<noteq> None \<and>
        attempt_count k = max_attempts j \<and> (\<forall>e B require. claim_refused e B require k)) (\<lambda>_ _. False) d"
  using assms
proof (induction rounds arbitrary: d j t)
  case Nil
  then show ?case by simp
next
  case (Cons r rounds)
  obtain e1 e2 where r: "r = (e1, e2)" by force
  have "wp (bindE (bindE (claim_job e1 job A lease True) (\<lambda>_. mark_job_timeout e2 job delay ''lease expired'' True))
      (\<lambda>_. crash_rounds job A lease delay rounds))
     (\<lambda>_ d'. \<exists>k. find_job job d' = Some k \<and> job_state k = Failed \<and> completed_at k \<noteq> None \<and>
        attempt_count k = max_attempts j \<and> (\<forall>e B require. claim_refused e B require k)) (\<lambda>_ _. False) d"
    unfolding wp_bindE [of "bindE _ _"]
  proof (rule wp_post_mono [OF crash_round [OF Cons.prems(1-7)]], goal_cases)
    case (4 x d2)
    then obtain k where k: "find_job job d2 = Some k" "distinct (map job_id (jobs d2))" "max_attempts k = max_attempts j"
      "attempt_count k = attempt_count j + 1"
      "if attempt_count k < max_attempts j then awaits_worker A (after_seconds e2 delay) k
       else job_state k = Failed \<and> completed_at k \<noteq> None" by blast
    show ?case
    proof (cases "attempt_count k < max_attempts j")
      case True
      then show ?thesis
        using Cons.IH [of d2 k "after_seconds e2 delay"] Cons.prems k r by simp
    next
      case False
      then have "int (length rounds) \<le> 0"
        using k(4) Cons.prems(9) unfolding length_Cons of_nat_Suc by linarith
      then have "rounds = []" by simp
      with False k Cons.prems(4) show ?thesis by (auto simp: wp_ret claim_refused_def)
    qed
  qed (use Cons.prems(8) r in simp_all)
  then show ?case by (simp add: r bindE_assoc)
qed

definition crash_clock :: "int \<Rightarrow> env" where
  "crash_clock n = (sample_env SQLite)\<lparr>now := 1700000000000000 + n * micros_per_second\<rparr>"

lemma crash_loop_ends_failed_witness:
  "wp (crash_rounds ''j1'' ''agent:bob'' 60 30
        [(crash_clock 0, crash_clock 60), (crash_clock 100, crash_clock 200), (crash_clock 300, crash_clock 400)])
     (\<lambda>_ d'. \<exists>k. find_job ''j1'' d' = Some k \<and> job_state k = Failed) (\<lambda>_ _. False) sample_open_db"
proof -
  have a: "find_job ''j1'' sample_open_db = Some sample_open_job" "distinct (map job_id (jobs sample_open_db))"
    "awaits_worker ''agent:bob'' 1700000000000000 sample_open_job" "attempt_count sample_open_job < max_attempts sample_open_job"
    "py_strip ''agent:bob'' \<noteq> []" "0 < (60::int)" "0 \<le> (30::int)"
    by (simp_all add: sample_open_db_def find_job_def sample_open_job_def sample_job_def awaits_worker_def job_check_def
        is_worker_authorized_def py_strip_def py_space_def)
  have t: "in_time 60 30 1700000000000000
        [(crash_clock 0, crash_clock 60), (crash_clock 100, crash_clock 200), (crash_clock 300, crash_clock 400)]"
    by (simp add: crash_clock_def after_seconds_def micros_per_second_def sample_env_def)
  show ?thesis
    by (rule wp_post_mono [OF crash_loop_ends_failed [OF a t]]) (auto simp: sample_open_job_def sample_job_def)
qed

section \<open>Messages stack leases\<close>

fun progress_messages :: "env list \<Rightarrow> (string \<Rightarrow> json \<Rightarrow> json option) \<Rightarrow> string \<Rightarrow> string \<Rightarrow> int \<Rightarrow> (db, unit) prog" where
  "progress_messages [] search job who lease = ret ()"
| "progress_messages (e # es) search job who lease =
     bindE (add_message e search job who \<lparr>body_type = ''progress'', body_canonical_type = ''progress'',
              body_payload = JObj [], body_correlation_id = None\<rparr> lease) (\<lambda>_.
     progress_messages es search job who lease)"

lemma progress_normal:
  "normalize_message_for_insert \<lparr>body_type = ''progress'', body_canonical_type = ''progress'',
     body_payload = p, body_correlation_id = None\<rparr> =
   \<lparr>nm_type = ''progress'', nm_canonical_type = ''progress'', nm_payload = p, nm_correlation_id = None, nm_extends = True,
    nm_status_target = None\<rparr>"
  by (simp add: normalize_message_for_insert_def resolve_message_lease_behavior_def MESSAGE_TYPE_LEASE_BEHAVIOR_def)

lemma wp_progress_message:
  assumes row: "find_job job d = Some j" and ids: "distinct (map job_id (jobs d))" and check: "job_check j"
    and claim: "clean_optional_text (claim_owner_id j) \<noteq> None" "clean_optional_text (claim_token j) \<noteq> None"
      "lease_expires_at j = Some x" "now e < x"
    and lease: "0 < lease" "lease \<le> MAX_LONG_LEASE_SECONDS e"
  shows "wp (add_message e search job who \<lparr>body_type = ''progress'', body_canonical_type = ''progress'',
              body_payload = p, body_correlation_id = None\<rparr> lease)
     (\<lambda>_ d'. \<exists>k. find_job job d' = Some k \<and> distinct (map job_id (jobs d')) \<and> job_check k \<and>
        claim_owner_id k = claim_owner_id j \<and> claim_token k = claim_token j \<and>
        lease_expires_at k = Some (x + lease * micros_per_second)) (\<lambda>_ _. False) d"
proof -
  let ?n = "\<lparr>nm_type = ''progress'', nm_canonical_type = ''progress'', nm_payload = p, nm_correlation_id = None,
      nm_extends = True, nm_status_target = None\<rparr>"
  let ?f = "message_effect e lease ?n j"
  have ext: "lease_extended ?n j" "next_lease_expiry e lease j = x + lease * micros_per_second"
    using claim by (simp_all add: lease_extended_def next_lease_expiry_def)
  have only: "\<forall>i\<in>set (jobs d). job_id i = job \<longrightarrow> i = j"
    using find_distinct_key [OF ids] row by (auto simp: find_job_def)
  have f: "job_id (?f k) = job_id k" "job_check (?f k) = job_check k" "claim_owner_id (?f k) = claim_owner_id k"
    "claim_token (?f k) = claim_token k" "lease_expires_at (?f k) = Some (x + lease * micros_per_second)" for k
    using ext by (simp_all add: message_effect_def job_check_def)
  have chk: "\<forall>i\<in>set (jobs d). job_id i = job \<longrightarrow> job_check (?f i)" using only check f(2) by metis
  have keys: "map job_id (update_rows (\<lambda>i. job_id i = job) ?f (jobs d)) = map job_id (jobs d)"
    using f(1) by (intro map_update_rows_same)
  have found: "find (\<lambda>i. job_id i = job) (update_rows (\<lambda>i. job_id i = job) ?f (jobs d)) = Some (?f j)"
    using row f(1) by (simp add: find_job_def find_update_hit)
  show ?thesis
    unfolding add_message_def progress_normal insert_message_within_txn_def validate_tool_result_correlation_def
      guard_terminal_for_copilot_def COPILOT_SIDE_EFFECT_TYPES_def apply_lease_effects_def insert_job_message_row_def
    using row check chk ext(1) lease f found keys ids
    by (simp add: validate_lease_seconds_def wp_simps pg_failed_def wp_claim_event_row wp_def [of "stmt _ _"] stmt_def Let_def
        find_job_def ball_update_rows)
qed

text \<open>
  Progress messages stack. Each one adds its lease to the time that is left, instead of counting
  from now, so a worker that holds a claim pushes the expiry as far as it sends messages: \<open>n\<close> messages
  at one moment give \<open>n\<close> times the lease, past every bound \<open>AZTEA_MAX_LONG_LEASE_SECONDS\<close> sets on a
  single one.
\<close>

theorem progress_messages_stack_leases:
  assumes "find_job job d = Some j" and "distinct (map job_id (jobs d))" and "job_check j"
    and "clean_optional_text (claim_owner_id j) \<noteq> None" and "clean_optional_text (claim_token j) \<noteq> None"
    and "lease_expires_at j = Some x" and "0 < lease"
    and "\<forall>e\<in>set es. now e < x \<and> lease \<le> MAX_LONG_LEASE_SECONDS e"
  shows "wp (progress_messages es search job who lease)
     (\<lambda>_ d'. \<exists>k. find_job job d' = Some k \<and> claim_owner_id k = claim_owner_id j \<and>
        lease_expires_at k = Some (x + int (length es) * (lease * micros_per_second))) (\<lambda>_ _. False) d"
  using assms
proof (induction es arbitrary: d j x)
  case Nil
  then show ?case by (simp add: wp_ret)
next
  case (Cons e es)
  have up: "x \<le> x + lease * micros_per_second" using Cons.prems(7) by (simp add: micros_per_second_def)
  show ?case
    unfolding progress_messages.simps wp_bindE
  proof (rule wp_post_mono [OF wp_progress_message [OF Cons.prems(1-6) _ Cons.prems(7)]], goal_cases)
    case (3 r d')
    then obtain k where k: "find_job job d' = Some k" "distinct (map job_id (jobs d'))" "job_check k"
      "claim_owner_id k = claim_owner_id j" "claim_token k = claim_token j"
      "lease_expires_at k = Some (x + lease * micros_per_second)" by blast
    have "\<forall>e\<in>set es. now e < x + lease * micros_per_second \<and> lease \<le> MAX_LONG_LEASE_SECONDS e"
      using Cons.prems(8) up by (auto intro: less_le_trans)
    then have "wp (progress_messages es search job who lease)
     (\<lambda>_ d''. \<exists>l. find_job job d'' = Some l \<and> claim_owner_id l = claim_owner_id k \<and>
        lease_expires_at l = Some (x + lease * micros_per_second + int (length es) * (lease * micros_per_second))) (\<lambda>_ _. False) d'"
      using Cons.prems(4,5,7) k by (intro Cons.IH) simp_all
    then show ?case by (rule wp_post_mono) (use k in \<open>auto simp: algebra_simps\<close>)
  qed (use Cons.prems(8) in simp_all)
qed

lemma progress_messages_stack_leases_witness:
  "wp (progress_messages (replicate 1000 (sample_env Postgres)) (\<lambda>_ _. None) ''j1'' ''agent:bob'' 300)
     (\<lambda>_ d'. \<exists>k. find_job ''j1'' d' = Some k \<and> lease_expires_at k = Some (1700000010000000 + 300000 * micros_per_second))
     (\<lambda>_ _. False) sample_claimed_db"
proof -
  let ?j = "sample_open_job\<lparr>job_state := Running, claim_owner_id := Some ''agent:bob'',
     claim_token := Some ''tok'', lease_expires_at := Some 1700000010000000, attempt_count := 1\<rparr>"
  have a: "find_job ''j1'' sample_claimed_db = Some ?j" "distinct (map job_id (jobs sample_claimed_db))" "job_check ?j"
    "clean_optional_text (claim_owner_id ?j) \<noteq> None" "clean_optional_text (claim_token ?j) \<noteq> None"
    "lease_expires_at ?j = Some 1700000010000000" "0 < (300::int)"
    "\<forall>e\<in>set (replicate 1000 (sample_env Postgres)). now e < 1700000010000000 \<and> 300 \<le> MAX_LONG_LEASE_SECONDS e"
    by (simp_all add: sample_claimed_db_def find_job_def sample_open_job_def sample_job_def job_check_def
        clean_optional_text_def or_empty_def py_strip_def py_space_def sample_env_def)
  show ?thesis
    by (rule wp_post_mono [OF progress_messages_stack_leases [OF a]]) auto
qed

section \<open>Message keys\<close>

lemma fold_max_ge: "fold max xs (a::int) \<ge> a"
  by (induction xs arbitrary: a) (auto intro: order_trans [OF max.cobounded2])

text \<open>
  On PostgreSQL the key of a new message is lost. A message is stored under a positive key, but the call
  that stored it answers with the key -1; and the claim event, which reads its row back by that key,
  answers that the job does not exist.
\<close>

theorem postgres_loses_message_keys:
  assumes "backend e = Postgres" and "find_job job d \<noteq> None" and "\<forall>m\<in>set (job_messages d). 0 < message_id m"
  shows "wp (add_claim_event e job kind owner token expires actor metadata)
       (\<lambda>r d'. r = None \<and> (\<exists>m. job_messages d' = job_messages d @ [m] \<and> msg_job_id m = job \<and> 0 < message_id m)) (\<lambda>_ _. False) d \<and>
     wp (add_message e search job from_id body lease) (\<lambda>m _. message_id m = - 1) (\<lambda>_ _. True) d"
proof
  have k: "0 < next_message_id d'" for d' using fold_max_ge [of 0] by (simp add: next_message_id_def add_pos_nonneg)
  have old: "message_id m \<noteq> - 1" if "m \<in> set (job_messages d)" for m using assms(3) that by force
  show "wp (add_claim_event e job kind owner token expires actor metadata)
       (\<lambda>r d'. r = None \<and> (\<exists>m. job_messages d' = job_messages d @ [m] \<and> msg_job_id m = job \<and> 0 < message_id m)) (\<lambda>_ _. False) d"
    using assms(1,2) old k [of "d\<lparr>tx_failed := False\<rparr>"]
    by (auto simp: add_claim_event_def get_message_def wp_simps pg_failed_def wp_claim_event_row lastrowid_def find_None_iff_row exists_row_iff)
  have "wp (insert_message_within_txn e search job from_id n lease_seconds) (\<lambda>r _. fst r = - 1) (\<lambda>_ _. True) d'" for n lease_seconds d'
  proof -
    have msg: "wp (insert_job_message_row e job from_id k p c t) (\<lambda>mid _. mid = - 1) (\<lambda>_ _. True) d1" for k p c t d1
      using assms(1) by (simp add: insert_job_message_row_def wp_def stmt_def Let_def lastrowid_def)
    show ?thesis
      unfolding insert_message_within_txn_def
      by (rule wp_bind_any, rule wp_bind_any, rule wp_bind_any, unfold wp_bindE, rule wp_post_mono [OF msg])
        (simp_all add: wp_simps wp_trivial split: option.split)
  qed
  note inserted = wp_post_mono [OF this]
  show "wp (add_message e search job from_id body lease) (\<lambda>m _. message_id m = - 1) (\<lambda>_ _. True) d"
    unfolding add_message_def Let_def
    by (cases "validate_lease_seconds e lease")
      (simp_all add: wp_throw wp_bindE wp_transact, rule inserted, simp_all add: wp_simps wp_trivial)
qed

lemma postgres_loses_message_keys_witness:
  "wp (add_claim_event (sample_env Postgres) ''j1'' ''late_worker_grace'' None None None None [])
     (\<lambda>r d'. r = None \<and> length (job_messages d') = 1) (\<lambda>_ _. False) sample_open_db"
  by (rule wp_post_mono [OF postgres_loses_message_keys [THEN conjunct1]])
    (auto simp: sample_open_db_def sample_open_job_def sample_job_def sample_db_def find_job_def)

end
