(* ===== verification/Dispute_Cases.thy ===== *)
theory Dispute_Cases
  imports Jobs Stop_Predicates
begin

text \<open>
  \<open>core/disputes.py\<close>: filing a dispute, the operator's response, the transitions of its status, the judges'
  votes, the audit log and the queries; and the eligibility predicate of \<open>core/jobs/disputable.py\<close>.
  The money of a dispute is in \<open>Trust_Disputes\<close>.
\<close>

section \<open>Texts\<close>

fun dispute_status_text :: "dispute_status \<Rightarrow> string" where
  "dispute_status_text DPending = ''pending''"
| "dispute_status_text DAwaitingOperator = ''awaiting_operator''"
| "dispute_status_text DJudging = ''judging''"
| "dispute_status_text DConsensus = ''consensus''"
| "dispute_status_text DTied = ''tied''"
| "dispute_status_text DResolved = ''resolved''"
| "dispute_status_text DAppealed = ''appealed''"
| "dispute_status_text DFinal = ''final''"

fun side_text :: "dispute_side \<Rightarrow> string" where
  "side_text CallerSide = ''caller''"
| "side_text AgentSide = ''agent''"

fun judge_kind_text :: "judge_kind \<Rightarrow> string" where
  "judge_kind_text LlmPrimary = ''llm_primary''"
| "judge_kind_text LlmSecondary = ''llm_secondary''"
| "judge_kind_text HumanAdmin = ''human_admin''"

definition DISPUTE_SIDES :: "dispute_side list" where
  "DISPUTE_SIDES = [CallerSide, AgentSide]"

definition DISPUTE_STATUSES :: "dispute_status list" where
  "DISPUTE_STATUSES = [DPending, DAwaitingOperator, DJudging, DConsensus, DTied, DResolved, DAppealed, DFinal]"

definition DISPUTE_OUTCOMES :: "dispute_outcome list" where
  "DISPUTE_OUTCOMES = [CallerWins, AgentWins, Split, Void]"

definition JUDGE_KINDS :: "judge_kind list" where
  "JUDGE_KINDS = [LlmPrimary, LlmSecondary, HumanAdmin]"

definition normalized_text :: "string \<Rightarrow> string" where
  "normalized_text s = py_lower (py_strip s)"

definition one_of :: "('a \<Rightarrow> string) \<Rightarrow> 'a list \<Rightarrow> string \<Rightarrow> string \<Rightarrow> exn + 'a" where
  "one_of text values msg s =
     (case find (\<lambda>v. text v = normalized_text s) values of None \<Rightarrow> Inl (ValueError msg) | Some v \<Rightarrow> Inr v)"

definition validate_side :: "string \<Rightarrow> exn + dispute_side" where
  "validate_side s = one_of side_text DISPUTE_SIDES ''side must be either caller or agent.'' s"

definition validate_status :: "string \<Rightarrow> exn + dispute_status" where
  "validate_status s = one_of dispute_status_text DISPUTE_STATUSES ''invalid dispute status'' s"

definition validate_outcome :: "string option \<Rightarrow> exn + dispute_outcome option" where
  "validate_outcome v =
     (case v of
        None \<Rightarrow> Inr None
      | Some s \<Rightarrow> (case one_of outcome_text DISPUTE_OUTCOMES ''invalid dispute outcome'' s of
            Inl ex \<Rightarrow> Inl ex | Inr outcome \<Rightarrow> Inr (Some outcome)))"

definition validate_split ::
  "dispute_outcome option \<Rightarrow> int option \<Rightarrow> int option \<Rightarrow> exn + (int option \<times> int option)" where
  "validate_split outcome caller agent =
     (if outcome \<noteq> Some Split then Inr (None, None)
      else case (caller, agent) of
        (Some c, Some a) \<Rightarrow>
          if c < 0 \<or> a < 0 then Inl (ValueError ''split amounts must be non-negative.'') else Inr (Some c, Some a)
      | _ \<Rightarrow> Inl (ValueError ''split outcomes require split_caller_cents and split_agent_cents.''))"

section \<open>Rows\<close>

text \<open>
  The status check of the table was written before \<open>awaiting_operator\<close> existed and was never altered.
\<close>

definition dispute_check :: "dispute \<Rightarrow> bool" where
  "dispute_check r \<longleftrightarrow> 0 \<le> filing_deposit_cents r \<and> dispute_state r \<noteq> DAwaitingOperator"

definition dispute_insertable :: "dispute \<Rightarrow> db \<Rightarrow> bool" where
  "dispute_insertable r d \<longleftrightarrow> dispute_check r \<and> exists_row (\<lambda>j. job_id j = dispute_job_id r) (jobs d) \<and>
     \<not> exists_row (\<lambda>i. dispute_id i = dispute_id r \<or> dispute_job_id i = dispute_job_id r) (disputes d)"

definition judgment_insertable :: "judge_vote \<Rightarrow> db \<Rightarrow> bool" where
  "judgment_insertable v d \<longleftrightarrow>
     \<not> exists_row (\<lambda>i. judgment_id i = judgment_id v \<or>
         (judged_dispute_id i = judged_dispute_id v \<and> judge_kind i = judge_kind v)) (dispute_judgments d)"

abbreviation update_disputes :: "env \<Rightarrow> (dispute \<Rightarrow> bool) \<Rightarrow> (dispute \<Rightarrow> dispute) \<Rightarrow> (db, nat) prog" where
  "update_disputes e \<equiv> update_stmt e disputes (\<lambda>rs d. d\<lparr>disputes := rs\<rparr>) dispute_check"

abbreviation insert_dispute :: "env \<Rightarrow> dispute \<Rightarrow> (db, unit) prog" where
  "insert_dispute e \<equiv> insert_stmt e disputes (\<lambda>rs d. d\<lparr>disputes := rs\<rparr>) dispute_insertable"

abbreviation insert_judgment :: "env \<Rightarrow> judge_vote \<Rightarrow> (db, unit) prog" where
  "insert_judgment e \<equiv> insert_stmt e dispute_judgments (\<lambda>rs d. d\<lparr>dispute_judgments := rs\<rparr>) judgment_insertable"

text \<open>A dispute as the queries return it: the row, the degraded mode found in its audit log, its deadline.\<close>

record dispute_view = dispute +
  degraded_mode :: bool
  degraded_reason :: "json option"
  resolution_by :: "int option"

definition is_fallback_event :: "json \<Rightarrow> bool" where
  "is_fallback_event entry \<longleftrightarrow> json_text (json_get entry ''event'') = Some ''secondary_judge_fallback''"

definition degraded_event :: "json option \<Rightarrow> json option" where
  "degraded_event entries_doc =
     (case entries_doc of Some (JArr entries) \<Rightarrow> find is_fallback_event entries | _ \<Rightarrow> None)"

definition row_to_dispute :: "dispute \<Rightarrow> dispute_view" where
  "row_to_dispute r =
     (let event = degraded_event (audit_log r) in
      dispute.extend r (dispute_view.fields (event \<noteq> None)
        (case event of
           None \<Rightarrow> None
         | Some ev \<Rightarrow> Some (case json_get ev ''reason'' of
               None \<Rightarrow> JStr ''secondary_judge_llm_unavailable'' | Some v \<Rightarrow> v))
        (resolution_deadline_at r)))"

section \<open>Eligibility\<close>

record dispute_refusal =
  refusal_code :: string
  refusal_status :: int

definition refuse :: "string \<Rightarrow> int \<Rightarrow> dispute_refusal option" where
  "refuse code status = Some \<lparr>refusal_code = code, refusal_status = status\<rparr>"

definition cancelled_by_caller :: "job \<Rightarrow> bool" where
  "cancelled_by_caller j \<longleftrightarrow> job_state j = Cancelled \<or>
     (job_state j = Failed \<and> prefix ''Cancelled by caller'' (or_empty (error_message j)))"

definition is_disputable :: "job \<Rightarrow> int option \<Rightarrow> bool \<Rightarrow> bool \<Rightarrow> int \<Rightarrow> dispute_refusal option" where
  "is_disputable j deadline has_existing_dispute has_quality_rating current =
     (if cancelled_by_caller j then refuse ''dispute.job_cancelled'' 409
      else if completed_at j = None then refuse ''dispute.not_completed'' 400
      else if job_state j \<in> {Pending, Running, AwaitingClarification} then refuse ''dispute.not_completed'' 400
      else case deadline of
        None \<Rightarrow> refuse ''dispute.invalid_window'' 400
      | Some t \<Rightarrow>
          if t < current then refuse ''dispute.window_closed'' 400
          else if has_existing_dispute then refuse ''dispute.already_filed'' 409
          else if has_quality_rating then refuse ''dispute.already_rated'' 409
          else None)"

section \<open>Filing\<close>

definition new_dispute :: "env \<Rightarrow> string \<Rightarrow> string \<Rightarrow> dispute_side \<Rightarrow> string \<Rightarrow> string option \<Rightarrow> int \<Rightarrow> dispute" where
  "new_dispute e job filer filed_side why proof_text deposit_cents =
     (let window = operator_response_enabled e \<and> filed_side = CallerSide in
      \<lparr>dispute_id = uuid e 0, dispute_job_id = job, filed_by_owner_id = py_strip filer, side = filed_side,
       reason = py_strip why, evidence = (if or_empty proof_text = [] then None else Some (py_strip (or_empty proof_text))),
       filing_deposit_cents = deposit_cents, dispute_state = (if window then DAwaitingOperator else DPending),
       dispute_outcome = None, split_caller_cents = None, split_agent_cents = None, filed_at = now e,
       resolved_at = None, tied_since = None, operator_response_text = None, operator_response_at = None,
       operator_response_deadline =
         (if window then Some (now e + operator_response_hours e * micros_per_hour) else None),
       resolution_deadline_at = Some (now e + dispute_resolution_hours e * micros_per_hour),
       audit_log = Some (JArr [])\<rparr>)"

text \<open>
  The checks on the row of the job; \<open>allow\<close> is the context variable that the verification-rejection flow sets.
\<close>

definition filing_error :: "bool \<Rightarrow> string \<Rightarrow> job option \<Rightarrow> exn option" where
  "filing_error allow filer row =
     (case row of
        None \<Rightarrow> Some (ValueError ''Job not found.'')
      | Some j \<Rightarrow>
          if py_strip filer \<notin> {caller_owner_id j, agent_owner_id j} then Some PermissionError
          else if allow then None
          else if cancelled_by_caller j
          then Some (ValueError ''dispute.job_cancelled: cancelled jobs are not disputable'')
          else if completed_at j = None
          then Some (ValueError ''dispute.not_completed: disputes can only be filed for jobs that produced output'')
          else None)"

definition insert_new_dispute :: "env \<Rightarrow> dispute \<Rightarrow> (db, dispute_view option) prog" where
  "insert_new_dispute e r =
     bindE (insert_dispute e r) (\<lambda>_.
     bindE (select e (\<lambda>d. find (\<lambda>i. dispute_id i = dispute_id r) (disputes d))) (\<lambda>row.
     ret (map_option row_to_dispute row)))"

definition file_with ::
  "env \<Rightarrow> bool \<Rightarrow> string \<Rightarrow> string \<Rightarrow> string \<Rightarrow> string \<Rightarrow> string option \<Rightarrow> int \<Rightarrow> job option \<Rightarrow>
   ((db, dispute_view option) prog \<Rightarrow> (db, dispute_view option) prog) \<Rightarrow> (db, dispute_view option) prog" where
  "file_with e allow job filer side_name why proof_text deposit_cents row wrap =
     (case filing_error allow filer row of
        Some ex \<Rightarrow> throw ex
      | None \<Rightarrow>
          if deposit_cents < 0 then throw (ValueError ''filing_deposit_cents must be non-negative.'')
          else case validate_side side_name of
            Inl ex \<Rightarrow> throw ex
          | Inr s \<Rightarrow> wrap (insert_new_dispute e (new_dispute e job filer s why proof_text deposit_cents)))"

text \<open>On a connection of the caller, and with transactions of its own.\<close>

definition create_dispute_conn ::
  "env \<Rightarrow> bool \<Rightarrow> string \<Rightarrow> string \<Rightarrow> string \<Rightarrow> string \<Rightarrow> string option \<Rightarrow> int \<Rightarrow> (db, dispute_view option) prog" where
  "create_dispute_conn e allow job filer side_name why proof_text deposit_cents =
     (if py_strip why = [] then throw (ValueError ''reason must be a non-empty string.'')
      else bindE (select e (find_job job)) (\<lambda>row.
        file_with e allow job filer side_name why proof_text deposit_cents row (\<lambda>m. m)))"

definition create_dispute ::
  "env \<Rightarrow> bool \<Rightarrow> string \<Rightarrow> string \<Rightarrow> string \<Rightarrow> string \<Rightarrow> string option \<Rightarrow> int \<Rightarrow> (db, dispute_view option) prog" where
  "create_dispute e allow job filer side_name why proof_text deposit_cents =
     (if py_strip why = [] then throw (ValueError ''reason must be a non-empty string.'')
      else bindE (transact (select e (find_job job))) (\<lambda>row.
        file_with e allow job filer side_name why proof_text deposit_cents row transact))"

section \<open>Queries\<close>

definition find_dispute :: "string \<Rightarrow> db \<Rightarrow> dispute option" where
  "find_dispute did d = find (\<lambda>r. dispute_id r = did) (disputes d)"

definition dispute_of_job :: "string \<Rightarrow> db \<Rightarrow> dispute option" where
  "dispute_of_job job d = find (\<lambda>r. dispute_job_id r = job) (disputes d)"

definition get_dispute :: "env \<Rightarrow> string \<Rightarrow> (db, dispute_view option) prog" where
  "get_dispute e did = bindE (transact (select e (find_dispute did))) (\<lambda>row. ret (map_option row_to_dispute row))"

definition get_dispute_by_job :: "env \<Rightarrow> string \<Rightarrow> (db, dispute_view option) prog" where
  "get_dispute_by_job e job = bindE (transact (select e (dispute_of_job job))) (\<lambda>row. ret (map_option row_to_dispute row))"

definition has_dispute_for_job :: "env \<Rightarrow> string \<Rightarrow> (db, bool) prog" where
  "has_dispute_for_job e job = bindE (transact (select e (dispute_of_job job))) (\<lambda>row. ret (row \<noteq> None))"

definition get_dispute_for_job :: "env \<Rightarrow> string \<Rightarrow> (db, dispute_view option) prog" where
  "get_dispute_for_job e job = get_dispute_by_job e (py_strip job)"

definition newest_disputes :: "(dispute \<Rightarrow> bool) \<Rightarrow> int \<Rightarrow> db \<Rightarrow> dispute list" where
  "newest_disputes p limit d = order_limit (\<lambda>r. - filed_at r) (clamp_limit limit 500) (filter p (disputes d))"

definition list_disputes :: "env \<Rightarrow> string option \<Rightarrow> int \<Rightarrow> (db, dispute_view list) prog" where
  "list_disputes e status limit =
     (if or_empty status = []
      then bindE (transact (select e (newest_disputes (\<lambda>_. True) limit))) (\<lambda>rows. ret (map row_to_dispute rows))
      else case validate_status (or_empty status) of
        Inl ex \<Rightarrow> throw ex
      | Inr st \<Rightarrow>
          bindE (transact (select e (newest_disputes (\<lambda>r. dispute_state r = st) limit)))
            (\<lambda>rows. ret (map row_to_dispute rows)))"

definition get_stale_tied_disputes :: "env \<Rightarrow> int \<Rightarrow> int \<Rightarrow> (db, dispute_view list) prog" where
  "get_stale_tied_disputes e older_than_hours limit =
     bindE (transact (select e (\<lambda>d. order_limit (\<lambda>r. case tied_since r of None \<Rightarrow> 0 | Some t \<Rightarrow> t) (clamp_limit limit 500)
       (filter (\<lambda>r. dispute_state r = DTied \<and>
          (case tied_since r of None \<Rightarrow> False | Some t \<Rightarrow> t \<le> now e - older_than_hours * micros_per_hour)) (disputes d)))))
       (\<lambda>rows. ret (map row_to_dispute rows))"

section \<open>Transitions\<close>

definition rewrite_dispute :: "env \<Rightarrow> string \<Rightarrow> (dispute \<Rightarrow> dispute) \<Rightarrow> (db, dispute_view option) prog" where
  "rewrite_dispute e did f =
     bindE (transact (update_disputes e (\<lambda>r. dispute_id r = did) f)) (\<lambda>_. get_dispute e did)"

definition set_dispute_status :: "env \<Rightarrow> string \<Rightarrow> string \<Rightarrow> (db, dispute_view option) prog" where
  "set_dispute_status e did status =
     (case validate_status status of
        Inl ex \<Rightarrow> throw ex
      | Inr st \<Rightarrow> rewrite_dispute e did (\<lambda>r. r\<lparr>dispute_state := st\<rparr>))"

definition record_operator_response :: "env \<Rightarrow> string \<Rightarrow> string \<Rightarrow> string \<Rightarrow> (db, dispute_view option) prog" where
  "record_operator_response e did operator response =
     (let text = py_strip response in
      if text = [] then throw (ValueError ''response_text must be a non-empty string.'')
      else if 10000 < length text then throw (ValueError ''response_text exceeds the 10 000-char limit.'')
      else bindE (get_dispute e did) (\<lambda>row.
        case row of
          None \<Rightarrow> ret None
        | Some r \<Rightarrow>
            if dispute_state r \<noteq> DAwaitingOperator
            then throw (ValueError ''operator responses are only accepted while the dispute is awaiting_operator.'')
            else bindE (transact (select e (find_job (dispute_job_id r)))) (\<lambda>job_row.
              case job_row of
                None \<Rightarrow> throw (ValueError ''Job not found for dispute.'')
              | Some j \<Rightarrow>
                  if py_strip (agent_owner_id j) \<noteq> py_strip operator then throw PermissionError
                  else rewrite_dispute e did (\<lambda>i. i\<lparr>dispute_state := DJudging, operator_response_text := Some text,
                         operator_response_at := Some (now e)\<rparr>))))"

definition response_expired :: "env \<Rightarrow> dispute \<Rightarrow> bool" where
  "response_expired e r \<longleftrightarrow> dispute_state r = DAwaitingOperator \<and>
     (case operator_response_deadline r of None \<Rightarrow> False | Some t \<Rightarrow> t < now e)"

definition expire_operator_response_windows :: "env \<Rightarrow> int \<Rightarrow> (db, nat) prog" where
  "expire_operator_response_windows e limit = transact
     (bindE (select e (\<lambda>d. map dispute_id (order_limit (\<lambda>r. case operator_response_deadline r of None \<Rightarrow> 0 | Some t \<Rightarrow> t)
        (clamp_limit limit 500) (filter (response_expired e) (disputes d))))) (\<lambda>ids.
      bindE (for_each ids (\<lambda>did.
        bindE (update_disputes e (\<lambda>r. dispute_id r = did \<and> dispute_state r = DAwaitingOperator)
                 (\<lambda>r. r\<lparr>dispute_state := DJudging\<rparr>)) (\<lambda>_. ret ()))) (\<lambda>_.
      ret (length ids))))"

definition set_dispute_tied :: "env \<Rightarrow> string \<Rightarrow> (db, dispute_view option) prog" where
  "set_dispute_tied e did =
     rewrite_dispute e did (\<lambda>r. r\<lparr>dispute_state := DTied,
       tied_since := (case tied_since r of None \<Rightarrow> Some (now e) | Some t \<Rightarrow> Some t)\<rparr>)"

definition set_dispute_consensus :: "env \<Rightarrow> string \<Rightarrow> string option \<Rightarrow> (db, dispute_view option) prog" where
  "set_dispute_consensus e did outcome =
     (case validate_outcome outcome of
        Inl ex \<Rightarrow> throw ex
      | Inr o1 \<Rightarrow> rewrite_dispute e did (\<lambda>r. r\<lparr>dispute_state := DConsensus, dispute_outcome := o1\<rparr>))"

definition finalize_dispute ::
  "env \<Rightarrow> string \<Rightarrow> string \<Rightarrow> string option \<Rightarrow> int option \<Rightarrow> int option \<Rightarrow> (db, dispute_view option) prog" where
  "finalize_dispute e did status outcome caller_cents agent_cents =
     (case validate_status status of
        Inl ex \<Rightarrow> throw ex
      | Inr st \<Rightarrow> (case validate_outcome outcome of
            Inl ex \<Rightarrow> throw ex
          | Inr o1 \<Rightarrow> (case validate_split o1 caller_cents agent_cents of
                Inl ex \<Rightarrow> throw ex
              | Inr split \<Rightarrow>
                  rewrite_dispute e did (\<lambda>r. r\<lparr>dispute_state := st, dispute_outcome := o1, split_caller_cents := fst split,
                    split_agent_cents := snd split, resolved_at := Some (now e)\<rparr>))))"

section \<open>Votes\<close>

definition optional_stripped :: "string option \<Rightarrow> string option" where
  "optional_stripped v = (if or_empty v = [] then None else Some (py_strip (or_empty v)))"

definition record_judgment ::
  "env \<Rightarrow> string \<Rightarrow> string \<Rightarrow> string \<Rightarrow> string \<Rightarrow> string option \<Rightarrow> string option \<Rightarrow> (db, judge_vote) prog" where
  "record_judgment e did kind verdict_text why model_name admin =
     (case one_of judge_kind_text JUDGE_KINDS ''invalid judge_kind'' kind of
        Inl ex \<Rightarrow> throw ex
      | Inr k \<Rightarrow> (case one_of outcome_text DISPUTE_OUTCOMES ''invalid dispute outcome'' verdict_text of
            Inl ex \<Rightarrow> throw ex
          | Inr v \<Rightarrow>
              if py_strip why = [] then throw (ValueError ''reasoning must be a non-empty string.'')
              else
                let vote = \<lparr>judgment_id = uuid e 0, judged_dispute_id = did, judge_kind = k, verdict = v,
                      reasoning = py_strip why, judge_model = optional_stripped model_name,
                      admin_user_id = optional_stripped admin, judged_at = now e\<rparr>
                in transact (catch_when is_integrity
                     (bindE (insert_judgment e vote) (\<lambda>_. ret vote))
                     (bindE (select e (\<lambda>d. find (\<lambda>i. judged_dispute_id i = did \<and> judge_kind i = k) (dispute_judgments d)))
                        (\<lambda>row. case row of None \<Rightarrow> throw IntegrityError | Some i \<Rightarrow> ret i)))))"

definition get_judgments :: "env \<Rightarrow> string \<Rightarrow> (db, judge_vote list) prog" where
  "get_judgments e did = transact (select e (\<lambda>d.
     sort_key judged_at (sort_key judgment_id (filter (\<lambda>v. judged_dispute_id v = did) (dispute_judgments d)))))"

section \<open>Audit log\<close>

definition dict_set :: "string \<times> json \<Rightarrow> (string \<times> json) list \<Rightarrow> (string \<times> json) list" where
  "dict_set kv kvs = (if list_ex (\<lambda>p. fst p = fst kv) kvs then map (\<lambda>p. if fst p = fst kv then kv else p) kvs else kvs @ [kv])"

definition audit_entry :: "env \<Rightarrow> string \<Rightarrow> string option \<Rightarrow> (string \<times> json) list \<Rightarrow> json" where
  "audit_entry e event actor extra =
     JObj (fold dict_set extra ([(''event'', JStr event), (''at'', JNum (of_int (now e)))] @
       (if or_empty actor = [] then [] else [(''actor'', JStr (or_empty actor))])))"

text \<open>A log that is no array makes \<open>append\<close> raise; the handler around the block swallows it.\<close>

definition appended_log :: "json option \<Rightarrow> json \<Rightarrow> json option" where
  "appended_log entries_doc entry =
     (case entries_doc of None \<Rightarrow> Some (JArr [entry]) | Some (JArr xs) \<Rightarrow> Some (JArr (xs @ [entry])) | Some _ \<Rightarrow> None)"

definition append_audit_event :: "env \<Rightarrow> string \<Rightarrow> string \<Rightarrow> string option \<Rightarrow> (string \<times> json) list \<Rightarrow> (db, unit) prog" where
  "append_audit_event e did event actor extra =
     catchE (transact
       (bindE (select e (find_dispute did)) (\<lambda>row.
        case row of
          None \<Rightarrow> ret ()
        | Some r \<Rightarrow>
            (case appended_log (audit_log r) (audit_entry e event actor extra) of
               None \<Rightarrow> throw TypeError
             | Some entries_doc \<Rightarrow>
                 bindE (update_disputes e (\<lambda>i. dispute_id i = did) (\<lambda>i. i\<lparr>audit_log := Some entries_doc\<rparr>)) (\<lambda>_. ret ())))))
       (\<lambda>_. ret ())"

section \<open>What filing does\<close>

text \<open>The conditions under which a dispute is filed.\<close>

definition filing_ok :: "env \<Rightarrow> bool \<Rightarrow> string \<Rightarrow> string \<Rightarrow> string \<Rightarrow> string \<Rightarrow> int \<Rightarrow> db \<Rightarrow> bool" where
  "filing_ok e allow job filer side_name why deposit_cents d \<longleftrightarrow>
     py_strip why \<noteq> [] \<and> 0 \<le> deposit_cents \<and>
     (case find_job job d of
        None \<Rightarrow> False
      | Some j \<Rightarrow> py_strip filer \<in> {caller_owner_id j, agent_owner_id j} \<and>
          (allow \<or> (completed_at j \<noteq> None \<and> \<not> cancelled_by_caller j))) \<and>
     (case validate_side side_name of
        Inl _ \<Rightarrow> False
      | Inr s \<Rightarrow> \<not> (operator_response_enabled e \<and> s = CallerSide)) \<and>
     \<not> exists_row (\<lambda>i. dispute_id i = uuid e 0 \<or> dispute_job_id i = job) (disputes d)"

lemma find_job_exists: "find_job job d = Some j \<Longrightarrow> exists_row (\<lambda>i. job_id i = job) (jobs d)"
  by (auto simp: find_job_def exists_row_iff dest: find_SomeD)

lemma new_dispute_insertable:
  "find_job job d = Some j \<Longrightarrow> 0 \<le> deposit_cents \<Longrightarrow>
   dispute_insertable (new_dispute e job filer s why proof_text deposit_cents) d \<longleftrightarrow>
     \<not> (operator_response_enabled e \<and> s = CallerSide) \<and>
     \<not> exists_row (\<lambda>i. dispute_id i = uuid e 0 \<or> dispute_job_id i = job) (disputes d)"
  using find_job_exists [of job d j] by (auto simp: dispute_insertable_def dispute_check_def new_dispute_def Let_def)

text \<open>
  C31. Filing is guarded. \<open>create_dispute\<close> succeeds exactly when a reason is given, the filer is the caller or
  the agent's owner, the job produced output and was not cancelled (or the check is waived), the
  deposit is no debt, the side is valid, the operator's window is not in use and the job has no
  dispute yet. Then one pending row appears, with the deadline pinned, and nothing else changes;
  otherwise an exception is raised and nothing changes.
\<close>

theorem dispute_filing_guarded:
  "wp (create_dispute e allow job filer side_name why proof_text deposit_cents)
     (\<lambda>res d'. filing_ok e allow job filer side_name why deposit_cents d \<and>
        (\<exists>r. disputes d' = disputes d @ [r] \<and> res = Some (row_to_dispute r) \<and> dispute_id r = uuid e 0 \<and>
           dispute_job_id r = job \<and> dispute_state r = DPending \<and> dispute_outcome r = None \<and>
           filing_deposit_cents r = deposit_cents \<and>
           resolution_deadline_at r = Some (now e + dispute_resolution_hours e * micros_per_hour)) \<and>
        jobs d' = jobs d \<and> wallets d' = wallets d \<and> transactions d' = transactions d)
     (\<lambda>_ d'. \<not> filing_ok e allow job filer side_name why deposit_cents d \<and> d' = d\<lparr>tx_failed := tx_failed d'\<rparr>) d"
proof (cases "py_strip why = [] \<or> deposit_cents < 0 \<or> filing_error allow filer (find_job job d) \<noteq> None")
  case True
  have fe: "\<not> filing_ok e allow job filer side_name why deposit_cents d"
    using True by (auto simp: filing_ok_def filing_error_def split: option.splits if_splits)
  moreover have "find_job job (d\<lparr>tx_failed := False\<rparr>) = find_job job d" by (simp add: find_job_def)
  ultimately show ?thesis
    using True by (auto simp: create_dispute_def file_with_def wp_simps pg_failed_def split: option.splits)
next
  case False
  then obtain j where j: "find_job job d = Some j" by (auto simp: filing_error_def split: option.splits)
  have fj: "find_job job (d\<lparr>tx_failed := False\<rparr>) = Some j" using j by (simp add: find_job_def)
  have ok: "py_strip filer \<in> {caller_owner_id j, agent_owner_id j}" "allow \<or> (completed_at j \<noteq> None \<and> \<not> cancelled_by_caller j)"
    using False j by (auto simp: filing_error_def split: if_splits)
  show ?thesis
  proof (cases "validate_side side_name")
    case (Inl ex)
    then have "\<not> filing_ok e allow job filer side_name why deposit_cents d" by (simp add: filing_ok_def)
    then show ?thesis using False j fj Inl by (simp add: create_dispute_def file_with_def wp_simps pg_failed_def)
  next
    case (Inr s)
    let ?r = "new_dispute e job filer s why proof_text deposit_cents"
    have ins: "dispute_insertable ?r (d\<lparr>tx_failed := b\<rparr>) \<longleftrightarrow> filing_ok e allow job filer side_name why deposit_cents d" for b
      using new_dispute_insertable [of job "d\<lparr>tx_failed := b\<rparr>" j deposit_cents e filer s why proof_text] False j ok Inr
      by (auto simp: filing_ok_def find_job_def)
    have r: "dispute_id ?r = uuid e 0" "dispute_job_id ?r = job" "dispute_outcome ?r = None"
      "filing_deposit_cents ?r = deposit_cents"
      "resolution_deadline_at ?r = Some (now e + dispute_resolution_hours e * micros_per_hour)"
      by (simp_all add: new_dispute_def Let_def)
    have p: "dispute_state ?r = DPending" if "filing_ok e allow job filer side_name why deposit_cents d"
      using that Inr by (auto simp: filing_ok_def new_dispute_def Let_def)
    have found: "find (\<lambda>i. dispute_id i = uuid e 0) (disputes d @ [?r]) = Some ?r"
      if "filing_ok e allow job filer side_name why deposit_cents d"
    proof -
      have "find (\<lambda>i. dispute_id i = uuid e 0) (disputes d) = None"
        using that by (auto simp: filing_ok_def find_None_iff exists_row_iff)
      then show ?thesis by (simp add: find_append r(1))
    qed
    show ?thesis
      using False j fj Inr ins r p found
      by (auto simp: create_dispute_def file_with_def insert_new_dispute_def wp_simps pg_failed_def)
  qed
qed

text \<open>
  With the operator's response window switched on, no caller can file: the first status of the row,
  \<open>awaiting_operator\<close>, is refused by the status check of the table. And since no stored dispute can have
  that status, no operator's response is ever accepted: every response to an existing dispute raises.
\<close>

theorem operator_window_blocks_filing:
  assumes "operator_response_enabled e" and "validate_side side_name = Inr CallerSide"
    and stored: "\<forall>r\<in>set (disputes d). dispute_check r"
  shows "wp (create_dispute e allow job filer side_name why proof_text deposit_cents)
       (\<lambda>_ _. False) (\<lambda>_ d'. disputes d' = disputes d) d \<and>
     wp (record_operator_response e2 did operator response)
       (\<lambda>r d'. r = None \<and> find_dispute did d = None \<and> disputes d' = disputes d) (\<lambda>_ d'. disputes d' = disputes d) d"
proof
  have "\<not> filing_ok e allow job filer side_name why deposit_cents d"
    using assms(1,2) by (simp add: filing_ok_def)
  then show "wp (create_dispute e allow job filer side_name why proof_text deposit_cents)
       (\<lambda>_ _. False) (\<lambda>_ d'. disputes d' = disputes d) d"
    using assms(1,2) stored find_job_exists [of job "d\<lparr>tx_failed := False\<rparr>"]
    by (auto simp: create_dispute_def file_with_def insert_new_dispute_def wp_simps pg_failed_def dispute_insertable_def
        dispute_check_def new_dispute_def Let_def split: option.split)
  have "dispute_state r \<noteq> DAwaitingOperator" if "find_dispute did d = Some r" for r
    using that stored by (auto simp: find_dispute_def dispute_check_def dest: find_SomeD)
  then show "wp (record_operator_response e2 did operator response)
       (\<lambda>r d'. r = None \<and> find_dispute did d = None \<and> disputes d' = disputes d) (\<lambda>_ d'. disputes d' = disputes d) d"
    by (cases "find_dispute did d")
      (auto simp: record_operator_response_def get_dispute_def wp_simps pg_failed_def find_dispute_def row_to_dispute_def
        Let_def dispute.defs dispute_view.defs)
qed

lemma operator_window_blocks_filing_witness:
  "wp (create_dispute ((sample_env SQLite)\<lparr>operator_response_enabled := True\<rparr>) False ''j1'' ''user:alice'' ''caller'' ''bad'' None 5)
     (\<lambda>_ _. False) (\<lambda>_ d'. disputes d' = []) sample_jobs_db"
proof -
  have "validate_side ''caller'' = Inr CallerSide"
    by (simp add: validate_side_def one_of_def DISPUTE_SIDES_def normalized_text_def py_lower_def lower_char_def py_strip_def py_space_def)
  from operator_window_blocks_filing [THEN conjunct1, OF _ this, of "(sample_env SQLite)\<lparr>operator_response_enabled := True\<rparr>" sample_jobs_db]
  show ?thesis by (auto simp: sample_jobs_db_def sample_db_def elim!: wp_post_mono)
qed

section \<open>The write path and the read path\<close>

text \<open>
  The check at the insert and the eligibility predicate of the routes: a job that \<open>is_disputable\<close> clears
  passes the insert's check, and is completed, within its window, undisputed and unrated; the insert
  accepts exactly the jobs that the predicate does not call cancelled or not completed, and besides
  those completed ones whose status went back to a working state, which the predicate refuses.
\<close>

theorem write_path_matches_read_path:
  assumes party: "py_strip filer \<in> {caller_owner_id j, agent_owner_id j}"
  shows "(is_disputable j deadline disputed rated t = None \<longrightarrow>
       filing_error False filer (Some j) = None \<and> completed_at j \<noteq> None \<and> \<not> disputed \<and> \<not> rated \<and>
       (\<exists>x. deadline = Some x \<and> t \<le> x)) \<and>
     (filing_error False filer (Some j) = None \<longleftrightarrow>
       is_disputable j deadline disputed rated t \<notin>
         {refuse ''dispute.job_cancelled'' 409, refuse ''dispute.not_completed'' 400} \<or>
       (completed_at j \<noteq> None \<and> \<not> cancelled_by_caller j \<and> job_state j \<in> {Pending, Running, AwaitingClarification}))"
  using party by (auto simp: is_disputable_def filing_error_def refuse_def split: option.splits if_splits)

lemma write_path_matches_read_path_witness:
  "filing_error False ''user:alice'' (Some sample_job) = None"
proof -
  have "py_strip ''user:alice'' \<in> {caller_owner_id sample_job, agent_owner_id sample_job}"
    by (simp add: sample_job_def py_strip_def py_space_def)
  moreover have "is_disputable sample_job (Some 5) False False 4 = None"
    by (simp add: is_disputable_def sample_job_def cancelled_by_caller_def)
  ultimately show ?thesis using write_path_matches_read_path by blast
qed

section \<open>Votes are cast once\<close>

lemma second_vote:
  assumes k: "one_of judge_kind_text JUDGE_KINDS ''invalid judge_kind'' kind = Inr k"
    and v: "one_of outcome_text DISPUTE_OUTCOMES ''invalid dispute outcome'' verdict_text = Inr v"
    and why: "py_strip why \<noteq> []"
    and first: "find (\<lambda>i. judged_dispute_id i = did \<and> judge_kind i = k) (dispute_judgments d) = Some i"
  shows "wp (record_judgment e did kind verdict_text why model_name admin)
     (\<lambda>r d'. backend e = SQLite \<and> r = i \<and> d' = d\<lparr>tx_failed := False\<rparr>)
     (\<lambda>ex d'. backend e = Postgres \<and> ex = InFailedSqlTransaction \<and> d' = d\<lparr>tx_failed := False\<rparr>) d"
proof -
  have "\<not> judgment_insertable \<lparr>judgment_id = uuid e 0, judged_dispute_id = did, judge_kind = k, verdict = v,
      reasoning = py_strip why, judge_model = m, admin_user_id = a, judged_at = now e\<rparr> (d\<lparr>tx_failed := b\<rparr>)" for m a b
    using first by (auto simp: judgment_insertable_def exists_row_iff dest!: find_SomeD)
  then show ?thesis
    using k v why first
    by (cases "backend e") (simp_all add: record_judgment_def wp_simps pg_failed_def Let_def abort_tx_def)
qed

text \<open>
  A judge votes once. When a judge of that kind already voted on the dispute, a second vote leaves all
  votes as they are: on SQLite the call returns the first vote, on PostgreSQL the look-up runs in the
  transaction that the failed insert aborted, and the call raises.
\<close>

theorem judgment_recorded_once:
  assumes k: "one_of judge_kind_text JUDGE_KINDS ''invalid judge_kind'' kind = Inr k"
    and v: "one_of outcome_text DISPUTE_OUTCOMES ''invalid dispute outcome'' verdict_text = Inr v"
    and why: "py_strip why \<noteq> []"
    and first: "find (\<lambda>i. judged_dispute_id i = did \<and> judge_kind i = k) (dispute_judgments d) = Some i"
  shows "wp (record_judgment e did kind verdict_text why model_name admin)
     (\<lambda>r d'. backend e = SQLite \<and> r = i \<and> dispute_judgments d' = dispute_judgments d)
     (\<lambda>ex d'. backend e = Postgres \<and> ex = InFailedSqlTransaction \<and> dispute_judgments d' = dispute_judgments d) d"
  using second_vote [OF assms] by (rule wp_post_mono) auto

definition sample_vote :: judge_vote where
  "sample_vote = \<lparr>judgment_id = ''v1'', judged_dispute_id = ''d1'', judge_kind = LlmPrimary, verdict = CallerWins,
     reasoning = ''no output'', judge_model = None, admin_user_id = None, judged_at = 5\<rparr>"

lemma judgment_recorded_once_witness:
  "wp (record_judgment (sample_env SQLite) ''d1'' ''llm_primary'' ''agent_wins'' ''fine'' None None)
     (\<lambda>r d'. verdict r = CallerWins) (\<lambda>_ _. False) (sample_db\<lparr>dispute_judgments := [sample_vote]\<rparr>)"
proof -
  have a: "one_of judge_kind_text JUDGE_KINDS ''invalid judge_kind'' ''llm_primary'' = Inr LlmPrimary"
    "one_of outcome_text DISPUTE_OUTCOMES ''invalid dispute outcome'' ''agent_wins'' = Inr AgentWins" "py_strip ''fine'' \<noteq> []"
    by (simp_all add: one_of_def JUDGE_KINDS_def DISPUTE_OUTCOMES_def normalized_text_def py_lower_def lower_char_def py_strip_def py_space_def)
  show ?thesis
    by (rule wp_post_mono [OF judgment_recorded_once [OF a, where d = "sample_db\<lparr>dispute_judgments := [sample_vote]\<rparr>" and i = sample_vote]])
      (auto simp: sample_vote_def)
qed

end
