(* ===== verification/Dispute_History.thy ===== *)
theory Dispute_History
  imports Dispute_Cases
begin

text \<open>
  The history of the disputes: what stays true over any sequence of the operations of
  \<open>core/disputes.py\<close>, and what its status machine does not prevent.
\<close>

section \<open>Invariant and history\<close>

definition disputes_wf :: "db \<Rightarrow> bool" where
  "disputes_wf d \<longleftrightarrow> distinct (map dispute_id (disputes d)) \<and> distinct (map dispute_job_id (disputes d)) \<and>
     (\<forall>r\<in>set (disputes d). dispute_check r \<and> (\<exists>j\<in>set (jobs d). job_id j = dispute_job_id r)) \<and>
     distinct (map (\<lambda>v. (judged_dispute_id v, judge_kind v)) (dispute_judgments d))"

definition log_entries :: "json option \<Rightarrow> json list" where
  "log_entries doc = (case doc of Some (JArr xs) \<Rightarrow> xs | _ \<Rightarrow> [])"

text \<open>What one dispute keeps: its filing, its deadline, the first tie, that it was resolved, its log.\<close>

definition later_dispute :: "dispute \<Rightarrow> dispute \<Rightarrow> bool" where
  "later_dispute r s \<longleftrightarrow>
     dispute_id s = dispute_id r \<and> dispute_job_id s = dispute_job_id r \<and>
     filed_by_owner_id s = filed_by_owner_id r \<and> side s = side r \<and> reason s = reason r \<and> evidence s = evidence r \<and>
     filing_deposit_cents s = filing_deposit_cents r \<and> filed_at s = filed_at r \<and>
     resolution_deadline_at s = resolution_deadline_at r \<and>
     (tied_since r \<noteq> None \<longrightarrow> tied_since s = tied_since r) \<and> (resolved_at r \<noteq> None \<longrightarrow> resolved_at s \<noteq> None) \<and>
     prefix (log_entries (audit_log r)) (log_entries (audit_log s))"

definition history :: "db \<Rightarrow> db \<Rightarrow> bool" where
  "history d0 d \<longleftrightarrow> (\<exists>old new. disputes d = old @ new \<and> list_all2 later_dispute (disputes d0) old) \<and>
     prefix (dispute_judgments d0) (dispute_judgments d) \<and> jobs d = jobs d0"

definition kept_from :: "db \<Rightarrow> db \<Rightarrow> bool" where
  "kept_from d0 d \<longleftrightarrow> disputes_wf d \<and> history d0 d"

lemma later_dispute_refl [simp]: "later_dispute r r"
  by (simp add: later_dispute_def)

lemma later_dispute_trans: "later_dispute r s \<Longrightarrow> later_dispute s t \<Longrightarrow> later_dispute r t"
  unfolding later_dispute_def by (auto intro: prefix_order.trans)

lemma flag_free_kept: "flag_free (kept_from d0)"
  by (simp add: flag_free_def kept_from_def disputes_wf_def history_def)

lemma kept_refl: "disputes_wf d \<Longrightarrow> kept_from d d"
  unfolding kept_from_def history_def
  by (intro conjI exI [where x = "disputes d"] exI [where x = "[]"]) (simp_all add: list_all2_same)

lemma list_all2_later_update:
  "list_all2 later_dispute rs old \<Longrightarrow> (\<And>r. later_dispute r (f r)) \<Longrightarrow> list_all2 later_dispute rs (update_rows p f old)"
  by (induction rule: list_all2_induct) (auto intro: later_dispute_trans)

section \<open>Every operation keeps it\<close>

lemma kept_update:
  assumes k: "kept_from d0 d" and later: "\<And>r. later_dispute r (f r)"
    and ck: "\<forall>r\<in>set (disputes d). p r \<longrightarrow> dispute_check (f r)"
  shows "kept_from d0 (d\<lparr>disputes := update_rows p f (disputes d)\<rparr>)"
proof -
  have same: "dispute_id (f r) = dispute_id r \<and> dispute_job_id (f r) = dispute_job_id r" for r
    using later [of r] by (simp add: later_dispute_def)
  have maps: "map dispute_id (update_rows p f rs) = map dispute_id rs"
    "map dispute_job_id (update_rows p f rs) = map dispute_job_id rs" for rs
    using same by (simp_all add: map_update_rows_same)
  have "disputes_wf (d\<lparr>disputes := update_rows p f (disputes d)\<rparr>)"
    using k ck same unfolding kept_from_def disputes_wf_def by (simp add: maps ball_update_rows)
  moreover have "history d0 (d\<lparr>disputes := update_rows p f (disputes d)\<rparr>)"
  proof -
    obtain old new where "disputes d = old @ new" "list_all2 later_dispute (disputes d0) old"
      using k by (auto simp: kept_from_def history_def)
    then show ?thesis using k list_all2_later_update [of "disputes d0" old f p] later
      by (auto simp: kept_from_def history_def)
  qed
  ultimately show ?thesis by (simp add: kept_from_def)
qed

lemma keeps_kept_update: "(\<And>r. later_dispute r (f r)) \<Longrightarrow> keeps (kept_from d0) (update_disputes e p f)"
  by (intro keeps_update_stmt flag_free_kept kept_update)

text \<open>A rewrite of the row that was read, which the key makes the only one.\<close>

lemma kept_update_one:
  assumes k: "kept_from d0 d" and r: "find_dispute did d = Some r" and later: "later_dispute r (f r)"
    and ck: "dispute_check (f r)"
  shows "kept_from d0 (d\<lparr>disputes := update_rows (\<lambda>i. dispute_id i = did) f (disputes d)\<rparr>)"
proof -
  let ?g = "\<lambda>i. if i = r then f i else i"
  have "i = r" if "i \<in> set (disputes d)" "dispute_id i = did" for i
    using find_distinct_key [of dispute_id "disputes d" i] that k r
    by (auto simp: kept_from_def disputes_wf_def find_dispute_def)
  then have "update_rows (\<lambda>i. dispute_id i = did) f (disputes d) = update_rows (\<lambda>i. dispute_id i = did) ?g (disputes d)"
    and "\<forall>i\<in>set (disputes d). dispute_id i = did \<longrightarrow> dispute_check (?g i)"
    using ck by (auto simp: update_rows_def)
  then show ?thesis using kept_update [OF k, of ?g] later by simp
qed

lemma keeps_kept_insert: "keeps (kept_from d0) (insert_dispute e r)"
proof (rule keeps_insert_stmt [OF flag_free_kept])
  fix d assume k: "kept_from d0 d" and ok: "dispute_insertable r d"
  have "disputes_wf (d\<lparr>disputes := disputes d @ [r]\<rparr>)"
    using k ok unfolding kept_from_def disputes_wf_def dispute_insertable_def by (auto simp: exists_row_iff)
  moreover have "history d0 (d\<lparr>disputes := disputes d @ [r]\<rparr>)"
  proof -
    obtain old new where "disputes d = old @ new" "list_all2 later_dispute (disputes d0) old"
      using k by (auto simp: kept_from_def history_def)
    then have "disputes d @ [r] = old @ (new @ [r]) \<and> list_all2 later_dispute (disputes d0) old" by simp
    then show ?thesis using k by (fastforce simp: kept_from_def history_def)
  qed
  ultimately show "kept_from d0 (d\<lparr>disputes := disputes d @ [r]\<rparr>)" by (simp add: kept_from_def)
qed

lemma keeps_kept_vote: "keeps (kept_from d0) (insert_judgment e v)"
proof (rule keeps_insert_stmt [OF flag_free_kept])
  fix d assume "kept_from d0 d" and "judgment_insertable v d"
  then show "kept_from d0 (d\<lparr>dispute_judgments := dispute_judgments d @ [v]\<rparr>)"
    unfolding kept_from_def disputes_wf_def history_def judgment_insertable_def
    by (auto simp: exists_row_iff intro: prefix_order.trans)
qed

lemma keeps_kept_transact: "keeps (kept_from d0) m \<Longrightarrow> keeps (kept_from d0) (transact m)"
  by (intro keeps_transact flag_free_kept keeps_ensures)

lemma keeps_kept_read: "keeps (kept_from d0) (transact (select e q))"
  by (intro keeps_kept_transact keeps_select)

lemma keeps_kept_get: "keeps (kept_from d0) (get_dispute e did)"
  unfolding get_dispute_def by (intro keeps_bindE keeps_kept_read keeps_ret)

lemma keeps_kept_rewrite: "(\<And>r. later_dispute r (f r)) \<Longrightarrow> keeps (kept_from d0) (rewrite_dispute e did f)"
  unfolding rewrite_dispute_def by (intro keeps_bindE keeps_kept_transact keeps_kept_update keeps_kept_get)

lemma keeps_kept_file_with:
  assumes "\<And>m. keeps (kept_from d0) m \<Longrightarrow> keeps (kept_from d0) (wrap m)"
  shows "keeps (kept_from d0) (file_with e allow job filer side_name why proof_text deposit_cents row wrap)"
proof -
  have "keeps (kept_from d0) (wrap (insert_new_dispute e r))" for r
    unfolding insert_new_dispute_def by (intro assms keeps_bindE keeps_kept_insert keeps_select keeps_ret)
  then show ?thesis by (simp add: file_with_def keeps_throw split: option.split sum.split)
qed

lemma keeps_create_dispute:
  "keeps (kept_from d0) (create_dispute e allow job filer side_name why proof_text deposit_cents)"
  "keeps (kept_from d0) (create_dispute_conn e allow job filer side_name why proof_text deposit_cents)"
  unfolding create_dispute_def create_dispute_conn_def
  by (intro keeps_if keeps_throw keeps_bindE keeps_kept_read keeps_kept_file_with keeps_kept_transact, assumption)
    (intro keeps_if keeps_throw keeps_bindE keeps_select keeps_kept_file_with, assumption)

lemma keeps_set_status: "keeps (kept_from d0) (set_dispute_status e did status)"
  unfolding set_dispute_status_def
  by (auto split: sum.split intro!: keeps_throw keeps_kept_rewrite simp: later_dispute_def)

lemma keeps_response: "keeps (kept_from d0) (record_operator_response e did operator response)"
  unfolding record_operator_response_def Let_def
  by (intro keeps_if keeps_throw keeps_bindE keeps_kept_get keeps_case_option keeps_ret keeps_kept_read keeps_kept_rewrite)
    (simp_all add: later_dispute_def)

lemma keeps_expire_windows: "keeps (kept_from d0) (expire_operator_response_windows e limit)"
  unfolding expire_operator_response_windows_def
  by (intro keeps_kept_transact keeps_bindE keeps_select keeps_for_each keeps_kept_update keeps_ret) (simp add: later_dispute_def)

lemma keeps_tied: "keeps (kept_from d0) (set_dispute_tied e did)"
  unfolding set_dispute_tied_def by (intro keeps_kept_rewrite) (auto simp: later_dispute_def split: option.splits)

lemma keeps_consensus: "keeps (kept_from d0) (set_dispute_consensus e did outcome)"
  unfolding set_dispute_consensus_def
  by (auto split: sum.split intro!: keeps_throw keeps_kept_rewrite simp: later_dispute_def)

lemma keeps_finalize: "keeps (kept_from d0) (finalize_dispute e did status outcome caller_cents agent_cents)"
  unfolding finalize_dispute_def
  by (auto split: sum.split intro!: keeps_throw keeps_kept_rewrite simp: later_dispute_def)

lemma keeps_judgment: "keeps (kept_from d0) (record_judgment e did kind verdict_text why model_name admin)"
  unfolding record_judgment_def Let_def
  by (auto split: sum.split option.split
      intro!: keeps_throw keeps_kept_transact keeps_catch_when keeps_bindE keeps_kept_vote keeps_select keeps_ret)
lemma appended_log_grows:
  "appended_log doc entry = Some doc' \<Longrightarrow> prefix (log_entries doc) (log_entries (Some doc'))"
  by (cases doc; cases "the doc") (auto simp: appended_log_def log_entries_def)

lemma keeps_audit: "keeps (kept_from d0) (append_audit_event e did event actor extra)"
proof -
  have "ensures (kept_from d0) (bindE (select e (find_dispute did)) (\<lambda>row. case row of
          None \<Rightarrow> ret ()
        | Some r \<Rightarrow> (case appended_log (audit_log r) (audit_entry e event actor extra) of
               None \<Rightarrow> throw TypeError
             | Some entries_doc \<Rightarrow>
                 bindE (update_disputes e (\<lambda>i. dispute_id i = did) (\<lambda>i. i\<lparr>audit_log := Some entries_doc\<rparr>)) (\<lambda>_. ret ()))))"
  proof (rule ensuresI)
    fix d assume k: "kept_from d0 d"
    have "kept_from d0 (d\<lparr>disputes := update_rows (\<lambda>i. dispute_id i = did) (\<lambda>i. i\<lparr>audit_log := Some doc\<rparr>) (disputes d)\<rparr>)"
      if r: "find_dispute did d = Some r" and doc: "appended_log (audit_log r) (audit_entry e event actor extra) = Some doc"
      for r doc
    proof (rule kept_update_one [OF k r])
      show "later_dispute r (r\<lparr>audit_log := Some doc\<rparr>)" using appended_log_grows [OF doc] by (simp add: later_dispute_def)
      have "r \<in> set (disputes d)" using r by (auto simp: find_dispute_def dest: find_SomeD)
      then show "dispute_check (r\<lparr>audit_log := Some doc\<rparr>)"
        using k by (auto simp: kept_from_def disputes_wf_def dispute_check_def)
    qed
    then show "wp (bindE (select e (find_dispute did)) (\<lambda>row. case row of
          None \<Rightarrow> ret ()
        | Some r \<Rightarrow> (case appended_log (audit_log r) (audit_entry e event actor extra) of
               None \<Rightarrow> throw TypeError
             | Some entries_doc \<Rightarrow>
                 bindE (update_disputes e (\<lambda>i. dispute_id i = did) (\<lambda>i. i\<lparr>audit_log := Some entries_doc\<rparr>)) (\<lambda>_. ret ()))))
        (\<lambda>_. kept_from d0) (\<lambda>_ _. True) d"
      using k by (auto simp: wp_simps split: option.split)
  qed
  then show ?thesis
    unfolding append_audit_event_def by (intro keeps_catchE keeps_transact flag_free_kept keeps_ret)
qed

section \<open>Sequences of operations\<close>

inductive dispute_step :: "db \<Rightarrow> db \<Rightarrow> bool" where
  File: "create_dispute e allow job filer side_name why proof_text cents d = (res, d') \<Longrightarrow> dispute_step d d'"
| FileOnConn: "transact (create_dispute_conn e allow job filer side_name why proof_text cents) d = (res, d') \<Longrightarrow> dispute_step d d'"
| Respond: "record_operator_response e did operator response d = (res, d') \<Longrightarrow> dispute_step d d'"
| ExpireWindows: "expire_operator_response_windows e limit d = (n, d') \<Longrightarrow> dispute_step d d'"
| SetStatus: "set_dispute_status e did status d = (res, d') \<Longrightarrow> dispute_step d d'"
| Tie: "set_dispute_tied e did d = (res, d') \<Longrightarrow> dispute_step d d'"
| Agree: "set_dispute_consensus e did outcome d = (res, d') \<Longrightarrow> dispute_step d d'"
| Finalize: "finalize_dispute e did status outcome c a d = (res, d') \<Longrightarrow> dispute_step d d'"
| Vote: "record_judgment e did kind verdict_text why model_name admin d = (vote, d') \<Longrightarrow> dispute_step d d'"
| Audit: "append_audit_event e did event actor extra d = (u, d') \<Longrightarrow> dispute_step d d'"

inductive dispute_run :: "db \<Rightarrow> db \<Rightarrow> bool" where
  start: "dispute_run d d"
| step: "dispute_run d d1 \<Longrightarrow> dispute_step d1 d2 \<Longrightarrow> dispute_run d d2"

lemma kept_result: "keeps P m \<Longrightarrow> m d = (x, d') \<Longrightarrow> P d \<Longrightarrow> P d'"
  using keepsD [of P m d] by simp

lemma dispute_step_kept: "dispute_step d d' \<Longrightarrow> kept_from d0 d \<Longrightarrow> kept_from d0 d'"
proof (induction rule: dispute_step.induct)
  case (FileOnConn e allow job filer side_name why proof_text cents d res d')
  then show ?case by (rule kept_result [OF keeps_kept_transact [OF keeps_create_dispute(2)]])
qed (erule kept_result [rotated], assumption | rule keeps_create_dispute(1) keeps_response keeps_expire_windows
  keeps_set_status keeps_tied keeps_consensus keeps_finalize keeps_judgment keeps_audit)+

lemma dispute_run_kept: "dispute_run d d' \<Longrightarrow> disputes_wf d \<Longrightarrow> kept_from d d'"
  by (induction rule: dispute_run.induct) (auto intro: kept_refl dispute_step_kept)

text \<open>
  C16. Over any sequence of the operations of the module, whatever their arguments and outcomes, a
  well-formed database stays well formed: one dispute per job, each on a stored job, none in the status
  that the table refuses, one vote per judge. And nothing that was recorded is lost: no dispute
  disappears, its filing and its pinned deadline never change, its first tie keeps its time, a
  resolved dispute stays resolved, its audit log only grows, and the votes are appended to.
\<close>

theorem dispute_history_is_kept:
  assumes "dispute_run d d'" and "disputes_wf d"
  shows "disputes_wf d' \<and>
    (\<exists>old new. disputes d' = old @ new \<and> list_all2 later_dispute (disputes d) old) \<and>
    prefix (dispute_judgments d) (dispute_judgments d') \<and> jobs d' = jobs d"
  using dispute_run_kept [OF assms] by (simp add: kept_from_def history_def)

definition sample_disputed_db :: db where
  "sample_disputed_db = sample_jobs_db\<lparr>disputes := [sample_dispute]\<rparr>"

lemma sample_disputed_wf: "disputes_wf sample_disputed_db"
  by (simp add: disputes_wf_def sample_disputed_db_def sample_jobs_db_def sample_db_def sample_job_def sample_dispute_def
      dispute_check_def)

lemma dispute_history_is_kept_witness:
  "let d' = snd (finalize_dispute (sample_env SQLite) ''d1'' ''final'' (Some ''void'') None None sample_disputed_db)
   in disputes_wf d' \<and> (\<exists>old new. disputes d' = old @ new \<and> list_all2 later_dispute [sample_dispute] old)"
proof -
  let ?p = "finalize_dispute (sample_env SQLite) ''d1'' ''final'' (Some ''void'') None None sample_disputed_db"
  have "dispute_step sample_disputed_db (snd ?p)"
    by (rule dispute_step.Finalize [of "sample_env SQLite" "''d1''" "''final''" "Some ''void''" None None _ "fst ?p"]) simp
  with dispute_run.start have "dispute_run sample_disputed_db (snd ?p)" by (rule dispute_run.step)
  from dispute_history_is_kept [OF this sample_disputed_wf] show ?thesis by (simp add: Let_def sample_disputed_db_def)
qed

end
