(* ===== verification/Judging.thy ===== *)
theory Judging
  imports Dispute_Cases Trust_Disputes
begin

text \<open>
  \<open>core/judges.py\<close>: the verdict on a dispute. A hosted judge, two calls of a language model, or a count of
  key words decide; the answers of the first two are parameters (\<open>judge_world\<close>). A text value of a JSON
  answer is \<open>str(v)\<close> of it, absent where the key is. The confidence of a judge, which no decision
  reads, is left out, and a generated reasoning is its constant part.
\<close>

section \<open>The judges' world\<close>

datatype llm_reply = ProviderFailed | NotJson | Reply "string option" "string option" string

record hosted_reply =
  hosted_verdict :: "string option"
  hosted_reasoning :: "string option"
  hosted_model :: "string option"

text \<open>
  \<open>hosted_answer\<close> is \<open>None\<close> when hosted mode is off or the call fails; \<open>ask_llm\<close> takes the chain of models, whether
  the devil's-advocate prompt is used, the temperature and the context.
\<close>

record judge_world =
  hosted_answer :: "dispute \<Rightarrow> job \<Rightarrow> hosted_reply option"
  live_judges :: bool
  DEFAULT_CHAIN :: "string list"
  ask_llm :: "string list \<Rightarrow> bool \<Rightarrow> rat \<Rightarrow> dispute \<Rightarrow> job \<Rightarrow> llm_reply"

section \<open>Key words\<close>

definition CALLER_WIN_HINTS :: "string list" where
  "CALLER_WIN_HINTS = [''broken'', ''error'', ''failed'', ''hallucinated'', ''incomplete'', ''incorrect'', ''missing'',
     ''refund'', ''timeout'', ''wrong'']"

definition AGENT_WIN_HINTS :: "string list" where
  "AGENT_WIN_HINTS = [''abuse'', ''accurate'', ''changed'', ''correct output'', ''frivolous'', ''harass'', ''nonpayment'',
     ''outside scope'', ''requirement'', ''scope'', ''spam'', ''threat'']"

definition CALLER_WIN_REASONING_HINTS :: "string list" where
  "CALLER_WIN_REASONING_HINTS = [''agent failed'', ''agent output is wrong'', ''output is wrong'', ''incorrect output'',
     ''missing required'', ''incomplete output'']"

definition AGENT_WIN_REASONING_HINTS :: "string list" where
  "AGENT_WIN_REASONING_HINTS = [''dispute is frivolous'', ''frivolous dispute'', ''agent's output was accurate'',
     ''agent output was accurate'', ''output was accurate'', ''agent's output is accurate'', ''agent output is accurate'',
     ''output is accurate'', ''agent fulfilled'', ''agent complied'', ''caller changed scope'']"

definition FRIVOLOUS_PHRASES :: "string list" where
  "FRIVOLOUS_PHRASES = [''frivolous'', ''output was accurate'', ''output is accurate'']"

definition DISPUTE_VERDICT_DELTA_THRESHOLD :: int where "DISPUTE_VERDICT_DELTA_THRESHOLD = 2"

text \<open>The vocabularies are kept in order, as \<open>sorted\<close> leaves the matches.\<close>

definition token_matches :: "string \<Rightarrow> string list \<Rightarrow> string list" where
  "token_matches text vocabulary = filter (\<lambda>token. sublist token (py_lower text)) vocabulary"

definition reasoning_contains :: "string \<Rightarrow> string list \<Rightarrow> bool" where
  "reasoning_contains text phrases \<longleftrightarrow> list_ex (\<lambda>phrase. sublist phrase (py_lower text)) phrases"

definition guard_judge_consistency :: "dispute_outcome \<Rightarrow> string \<Rightarrow> dispute_outcome \<times> string" where
  "guard_judge_consistency v text =
     (if v = CallerWins \<and> reasoning_contains text AGENT_WIN_REASONING_HINTS
      then (AgentWins, text @ '' Deterministic consistency guard corrected verdict from caller_wins to agent_wins.'')
      else if v = AgentWins \<and> reasoning_contains text CALLER_WIN_REASONING_HINTS
      then (CallerWins, text @ '' Deterministic consistency guard corrected verdict from agent_wins to caller_wins.'')
      else (v, text))"

definition collect_dispute_signal_hits :: "string \<Rightarrow> job \<Rightarrow> string list \<times> string list" where
  "collect_dispute_signal_hits combined j =
     (token_matches combined CALLER_WIN_HINTS @
        (case output_payload j of None \<Rightarrow> [''missing_output''] | Some v \<Rightarrow> if is_truthy v then [] else [''missing_output'']),
      token_matches combined AGENT_WIN_HINTS @
        (if reasoning_contains combined FRIVOLOUS_PHRASES then [''frivolous_dispute'', ''accurate_output''] else []))"

text \<open>The parts that are not empty, joined by blanks.\<close>

fun join_parts :: "string list \<Rightarrow> string" where
  "join_parts [] = []"
| "join_parts [p] = p"
| "join_parts (p # ps) = p @ '' '' @ join_parts ps"

definition dispute_text :: "dispute \<Rightarrow> job \<Rightarrow> string" where
  "dispute_text x j = py_strip (join_parts (filter (\<lambda>p. p \<noteq> [])
     [py_strip (reason x), py_strip (or_empty (evidence x)), or_empty (error_message j)]))"

definition fallback_verdict :: "dispute \<Rightarrow> job \<Rightarrow> dispute_outcome" where
  "fallback_verdict x j =
     (let hits = collect_dispute_signal_hits (dispute_text x j) j
      in if DISPUTE_VERDICT_DELTA_THRESHOLD \<le> int (length (fst hits)) - int (length (snd hits)) then CallerWins else AgentWins)"

definition fallback_reasoning :: string where
  "fallback_reasoning = ''Deterministic fallback judge (live LLM disabled)''"

section \<open>One judge\<close>

record judge_answer =
  answer_verdict :: dispute_outcome
  answer_reasoning :: string
  answer_model :: string

definition normalize_verdict :: "string option \<Rightarrow> exn + dispute_outcome" where
  "normalize_verdict v = one_of outcome_text DISPUTE_OUTCOMES ''Invalid judge verdict'' (or_empty v)"

definition parse_judge_response :: "string option \<Rightarrow> string option \<Rightarrow> exn + dispute_outcome \<times> string" where
  "parse_judge_response verdict_text reasoning_text =
     (case normalize_verdict verdict_text of
        Inl ex \<Rightarrow> Inl ex
      | Inr v \<Rightarrow>
          if py_strip (or_empty reasoning_text) = [] then Inl (RuntimeError ''Judge returned empty reasoning.'')
          else Inr (v, py_strip (or_empty reasoning_text)))"

definition judge_once :: "judge_world \<Rightarrow> string list \<Rightarrow> bool \<Rightarrow> rat \<Rightarrow> dispute \<Rightarrow> job \<Rightarrow> exn + judge_answer" where
  "judge_once w chain devils_advocate temperature x j =
     (case ask_llm w chain devils_advocate temperature x j of
        ProviderFailed \<Rightarrow> Inl (RuntimeError ''All LLM providers failed.'')
      | NotJson \<Rightarrow> Inl (RuntimeError ''Judge returned non-JSON content.'')
      | Reply v r m \<Rightarrow> (case parse_judge_response v r of
            Inl ex \<Rightarrow> Inl ex
          | Inr answer \<Rightarrow>
              let (final, text) = guard_judge_consistency (fst answer) (snd answer)
              in Inr \<lparr>answer_verdict = final, answer_reasoning = text, answer_model = m\<rparr>))"

section \<open>The orchestration\<close>

record judge_result =
  result_status :: dispute_status
  result_outcome :: "dispute_outcome option"
  result_votes :: "judge_vote list"
  result_degraded :: bool

definition get_dispute_context :: "env \<Rightarrow> string \<Rightarrow> (db, (dispute \<times> job \<times> judge_vote list) option) prog" where
  "get_dispute_context e did =
     bindE (transact (select e (dispute_with_job did))) (\<lambda>row.
     case row of
       None \<Rightarrow> ret None
     | Some ctx \<Rightarrow> bindE (get_judgments e did) (\<lambda>votes. ret (Some (fst ctx, snd ctx, votes))))"

definition judge_result_of :: "env \<Rightarrow> string \<Rightarrow> dispute_status \<Rightarrow> dispute_outcome option \<Rightarrow> bool \<Rightarrow> (db, judge_result) prog" where
  "judge_result_of e did status outcome degraded =
     bindE (get_judgments e did) (\<lambda>votes.
     ret \<lparr>result_status = status, result_outcome = outcome, result_votes = votes, result_degraded = degraded\<rparr>)"

definition settle_on :: "env \<Rightarrow> string \<Rightarrow> dispute_outcome \<Rightarrow> (db, judge_result) prog" where
  "settle_on e did v =
     bindE (set_dispute_consensus e did (Some (outcome_text v))) (\<lambda>_. judge_result_of e did DConsensus (Some v) False)"

definition record_both :: "env \<Rightarrow> string \<Rightarrow> dispute_outcome \<Rightarrow> string \<Rightarrow> string \<Rightarrow> (db, judge_result) prog" where
  "record_both e did v text model =
     bindE (record_judgment e did ''llm_primary'' (outcome_text v) text (Some model) None) (\<lambda>_.
     bindE (record_judgment (uuids_from 1 e) did ''llm_secondary'' (outcome_text v) text (Some model) None) (\<lambda>_.
     settle_on e did v))"

text \<open>The hosted verdict with its reasoning and model label, where the answer is usable.\<close>

definition parse_hosted_judgment_response :: "hosted_reply option \<Rightarrow> (dispute_outcome \<times> string \<times> string) option" where
  "parse_hosted_judgment_response response =
     (case response of
        None \<Rightarrow> None
      | Some r \<Rightarrow> (case normalize_verdict (hosted_verdict r) of
            Inl _ \<Rightarrow> None
          | Inr v \<Rightarrow> Some (v, or_text (py_strip (or_empty (hosted_reasoning r))) ''Hosted judge.'',
              or_text (py_strip (or_text (or_empty (hosted_model r)) ''hosted'')) ''hosted'')))"

definition try_hosted_judgment ::
  "env \<Rightarrow> judge_world \<Rightarrow> string \<Rightarrow> dispute \<Rightarrow> job \<Rightarrow> (db, judge_result option) prog" where
  "try_hosted_judgment e w did x j =
     (case parse_hosted_judgment_response (hosted_answer w x j) of
        None \<Rightarrow> ret None
      | Some (v, text, model) \<Rightarrow> bindE (record_both e did v text (''hosted:'' @ model)) (\<lambda>r. ret (Some r)))"

definition record_dual_fallback_consensus :: "env \<Rightarrow> string \<Rightarrow> dispute \<Rightarrow> job \<Rightarrow> (db, judge_result) prog" where
  "record_dual_fallback_consensus e did x j = record_both e did (fallback_verdict x j) fallback_reasoning ''fallback''"

definition run_primary_judgment :: "env \<Rightarrow> judge_world \<Rightarrow> string \<Rightarrow> dispute \<Rightarrow> job \<Rightarrow> (db, judge_answer) prog" where
  "run_primary_judgment e w did x j =
     (case judge_once w (DEFAULT_CHAIN w) False 0 x j of
        Inl ex \<Rightarrow> bindE (set_dispute_status e did ''pending'') (\<lambda>_. throw ex)
      | Inr a \<Rightarrow>
          bindE (record_judgment e did ''llm_primary'' (outcome_text (answer_verdict a)) (answer_reasoning a)
                   (Some (answer_model a)) None) (\<lambda>_. ret a))"

definition select_secondary_chain :: "judge_world \<Rightarrow> string \<Rightarrow> string list \<times> bool" where
  "select_secondary_chain w primary_model =
     (let rotated = drop 1 (DEFAULT_CHAIN w) @ take 1 (DEFAULT_CHAIN w);
          chain = filter (\<lambda>spec. spec \<noteq> primary_model) rotated
      in if chain \<noteq> [] then (chain, False) else (DEFAULT_CHAIN w, True))"

definition settle_via_tiebreaker :: "env \<Rightarrow> string \<Rightarrow> dispute \<Rightarrow> job \<Rightarrow> (db, judge_result) prog" where
  "settle_via_tiebreaker e did x j =
     (let v = fallback_verdict x j in
      bindE (record_judgment (uuids_from 1 e) did ''llm_secondary'' (outcome_text v)
               (''Secondary LLM unavailable; deterministic fallback used: '' @ fallback_reasoning) (Some ''fallback'') None) (\<lambda>_.
      bindE (set_dispute_consensus e did (Some (outcome_text v))) (\<lambda>_.
      bindE (append_audit_event e did ''secondary_judge_fallback'' None
               [(''reason'', JStr ''secondary_judge_llm_unavailable''), (''verdict'', JStr (outcome_text v)),
                (''fallback_kind'', JStr ''deterministic_tiebreaker'')]) (\<lambda>_.
      judge_result_of e did DConsensus (Some v) True))))"

text \<open>The answer of the secondary judge, or the result of the tiebreaker where it failed.\<close>

definition run_secondary ::
  "env \<Rightarrow> judge_world \<Rightarrow> string \<Rightarrow> dispute \<Rightarrow> job \<Rightarrow> judge_answer \<Rightarrow> (db, judge_answer + judge_result) prog" where
  "run_secondary e w did x j primary =
     (let primary_model = py_strip (answer_model primary);
          (chain, same_model) = select_secondary_chain w primary_model
      in case judge_once w chain True (if same_model then 4 / 10 else 1 / 10) x j of
           Inl _ \<Rightarrow> bindE (settle_via_tiebreaker e did x j) (\<lambda>r. ret (Inr r))
         | Inr a \<Rightarrow>
             let suffix = (if same_model \<and> answer_model a = primary_model
                then '' (devil's-advocate prompt; same model as primary; heterogeneous LLM unavailable)'' else [])
             in bindE (record_judgment (uuids_from 1 e) did ''llm_secondary'' (outcome_text (answer_verdict a))
                         (answer_reasoning a) (Some (answer_model a @ suffix)) None) (\<lambda>_. ret (Inl a)))"

definition resolve_consensus_or_tie ::
  "env \<Rightarrow> string \<Rightarrow> dispute \<Rightarrow> job \<Rightarrow> judge_answer \<Rightarrow> judge_answer \<Rightarrow> (db, judge_result) prog" where
  "resolve_consensus_or_tie e did x j primary secondary =
     (let v1 = answer_verdict primary; v2 = answer_verdict secondary in
      if v1 = v2 \<and> v1 \<noteq> Split then settle_on e did v1
      else
        let v = fallback_verdict x j in
        bindE (record_judgment (uuids_from 2 e) did ''human_admin'' (outcome_text v)
                 (''Deterministic tiebreaker after LLM disagreement: '' @ fallback_reasoning) (Some ''deterministic'')
                 (Some ''system_tiebreaker'')) (\<lambda>_.
        if v \<noteq> Split \<and> v \<in> {v1, v2} then settle_on e did v
        else bindE (set_dispute_tied e did) (\<lambda>_. judge_result_of e did DTied None False)))"

definition judge_live :: "env \<Rightarrow> judge_world \<Rightarrow> string \<Rightarrow> dispute \<Rightarrow> job \<Rightarrow> (db, judge_result) prog" where
  "judge_live e w did x j =
     bindE (run_primary_judgment e w did x j) (\<lambda>primary.
     bindE (run_secondary e w did x j primary) (\<lambda>second.
     case second of
       Inr r \<Rightarrow> ret r
     | Inl secondary \<Rightarrow> resolve_consensus_or_tie e did x j primary secondary))"

definition judge_dispute :: "env \<Rightarrow> judge_world \<Rightarrow> string \<Rightarrow> dispute \<Rightarrow> job \<Rightarrow> (db, judge_result) prog" where
  "judge_dispute e w did x j =
     (if dispute_state x \<in> {DResolved, DFinal} then judge_result_of e did (dispute_state x) (dispute_outcome x) False
      else
        bindE (set_dispute_status e did ''judging'') (\<lambda>_.
        bindE (try_hosted_judgment e w did x j) (\<lambda>hosted.
        case hosted of
          Some r \<Rightarrow> ret r
        | None \<Rightarrow> if \<not> live_judges w then record_dual_fallback_consensus e did x j else judge_live e w did x j)))"

definition run_judgment :: "env \<Rightarrow> judge_world \<Rightarrow> string \<Rightarrow> (db, judge_result) prog" where
  "run_judgment e w did =
     bindE (get_dispute_context e did) (\<lambda>context.
     case context of
       None \<Rightarrow> throw (ValueError ''Dispute not found.'')
     | Some (x, j, _) \<Rightarrow> judge_dispute e w did x j)"

section \<open>Triples\<close>

text \<open>
  \<open>triple P m Q E\<close>: from a state with \<open>P\<close> the program returns with \<open>Q\<close> or raises with \<open>E\<close>. The orchestration is a
  chain of such steps.
\<close>

definition triple :: "('s \<Rightarrow> bool) \<Rightarrow> ('s, 'a) prog \<Rightarrow> ('a \<Rightarrow> 's \<Rightarrow> bool) \<Rightarrow> (exn \<Rightarrow> 's \<Rightarrow> bool) \<Rightarrow> bool" where
  "triple P m Q E \<longleftrightarrow> (\<forall>d. P d \<longrightarrow> wp m Q E d)"

lemma tripleI: "(\<And>d. P d \<Longrightarrow> wp m Q E d) \<Longrightarrow> triple P m Q E"
  by (simp add: triple_def)

lemma tripleD: "triple P m Q E \<Longrightarrow> P d \<Longrightarrow> wp m Q E d"
  by (simp add: triple_def)

lemma triple_bind: "triple P m Q E \<Longrightarrow> (\<And>x. triple (Q x) (f x) R E) \<Longrightarrow> triple P (bindE m f) R E"
  unfolding triple_def by (fastforce simp: wp_simps elim: wp_post_mono)

lemma triple_ret: "(\<And>d. P d \<Longrightarrow> Q x d) \<Longrightarrow> triple P (ret x) Q E"
  by (simp add: triple_def wp_simps)

lemma triple_throw: "(\<And>d. P d \<Longrightarrow> E ex d) \<Longrightarrow> triple P (throw ex) Q E"
  by (simp add: triple_def wp_simps)

lemma triple_if: "(b \<Longrightarrow> triple P m Q E) \<Longrightarrow> (\<not> b \<Longrightarrow> triple P n Q E) \<Longrightarrow> triple P (if b then m else n) Q E"
  by simp

lemma triple_weaken:
  "triple P m Q E \<Longrightarrow> (\<And>x d. Q x d \<Longrightarrow> Q' x d) \<Longrightarrow> triple P m Q' E"
  unfolding triple_def by (blast intro: wp_post_mono)

section \<open>The steps\<close>


fun kind_no :: "judge_kind \<Rightarrow> nat" where
  "kind_no LlmPrimary = 0"
| "kind_no LlmSecondary = 1"
| "kind_no HumanAdmin = 2"

text \<open>
  The dispute has this status and outcome, every row passes the check of the table, and the judges from the
  \<open>n\<close>-th on can vote: their identifiers are new and, on PostgreSQL, none of them voted before.
\<close>

definition judged :: "env \<Rightarrow> string \<Rightarrow> dispute_status \<Rightarrow> dispute_outcome option \<Rightarrow> nat \<Rightarrow> db \<Rightarrow> bool" where
  "judged e did status outcome n d \<longleftrightarrow>
     (\<exists>y. find_dispute did d = Some y \<and> dispute_state y = status \<and> dispute_outcome y = outcome) \<and>
     (\<forall>r\<in>set (disputes d). dispute_check r) \<and>
     (\<forall>v\<in>set (dispute_judgments d). \<forall>k. n \<le> kind_no k \<longrightarrow> judgment_id v \<noteq> uuid e (kind_no k) \<and>
        (backend e = Postgres \<longrightarrow> \<not> (judged_dispute_id v = did \<and> judge_kind v = k))) \<and>
     inj_on (uuid e) {0, 1, 2}"

lemma flag_free_judged: "flag_free (judged e did status outcome n)"
  by (simp add: flag_free_def judged_def find_dispute_def)

lemma judged_flag [simp]: "judged e did status outcome n (d\<lparr>tx_failed := b\<rparr>) = judged e did status outcome n d"
  by (rule flag_freeD [OF flag_free_judged])

lemma triple_read: "triple P (transact (select e q)) (\<lambda>_ d. P (d\<lparr>tx_failed := False\<rparr>)) E" if "flag_free P"
  using that by (auto simp: triple_def wp_simps pg_failed_def flag_freeD)

lemma triple_votes: "triple (judged e did st out n) (get_judgments e' did) (\<lambda>_. judged e did st out n) E"
  by (simp add: triple_def get_judgments_def wp_simps pg_failed_def)

lemma triple_result:
  "triple (judged e did st out n) (judge_result_of e' did st1 out1 deg)
     (\<lambda>r d. judged e did st out n d \<and> result_status r = st1 \<and> result_outcome r = out1) E"
  unfolding judge_result_of_def by (rule triple_bind [OF triple_votes]) (auto intro: triple_ret)

lemma judged_update:
  assumes j: "judged e did st out n d" and id: "\<And>r. dispute_id (f r) = dispute_id r"
    and ck: "\<And>r. dispute_check r \<Longrightarrow> dispute_check (f r)"
    and st: "\<And>r. dispute_state r = st \<Longrightarrow> dispute_outcome r = out \<Longrightarrow> dispute_state (f r) = st' \<and> dispute_outcome (f r) = out'"
  shows "judged e did st' out' n (d\<lparr>disputes := update_rows (\<lambda>r. dispute_id r = did) f (disputes d)\<rparr>)"
proof -
  obtain y where y: "find_dispute did d = Some y" "dispute_state y = st" "dispute_outcome y = out"
    using j by (auto simp: judged_def)
  then have "find (\<lambda>r. dispute_id r = did) (update_rows (\<lambda>r. dispute_id r = did) f (disputes d)) = Some (f y)"
    using id by (auto simp: find_update_same find_dispute_def dest: find_SomeD)
  then show ?thesis
    using j st [of y] y ck by (auto simp: judged_def find_dispute_def ball_update_rows)
qed

lemmas judged_update_flag = judged_update [where d = "d\<lparr>tx_failed := b\<rparr>" for d b, simplified]

lemma triple_rewrite:
  assumes "\<And>r. dispute_id (f r) = dispute_id r" and ck: "\<And>r. dispute_check r \<Longrightarrow> dispute_check (f r)"
    and "\<And>r. dispute_state r = st \<Longrightarrow> dispute_outcome r = out \<Longrightarrow> dispute_state (f r) = st' \<and> dispute_outcome (f r) = out'"
  shows "triple (judged e did st out n) (rewrite_dispute e' did f) (\<lambda>_. judged e did st' out' n) E"
proof (rule tripleI)
  fix d assume j: "judged e did st out n d"
  then have "\<forall>r\<in>set (disputes d). dispute_id r = did \<longrightarrow> dispute_check (f r)" using ck by (simp add: judged_def)
  then show "wp (rewrite_dispute e' did f) (\<lambda>_. judged e did st' out' n) E d"
    using judged_update_flag [of e did st out n d f st' out' False] j assms
    by (auto simp: rewrite_dispute_def get_dispute_def wp_simps pg_failed_def)
qed

text \<open>The texts that the orchestration passes are the ones that the checks accept.\<close>

lemma status_texts:
  "validate_status ''pending'' = Inr DPending" "validate_status ''judging'' = Inr DJudging"
  by (simp_all add: validate_status_def one_of_def DISPUTE_STATUSES_def normalized_text_def py_lower_def lower_char_def
      py_strip_def py_space_def)

lemma kind_texts:
  "one_of judge_kind_text JUDGE_KINDS m ''llm_primary'' = Inr LlmPrimary"
  "one_of judge_kind_text JUDGE_KINDS m ''llm_secondary'' = Inr LlmSecondary"
  "one_of judge_kind_text JUDGE_KINDS m ''human_admin'' = Inr HumanAdmin"
  by (simp_all add: one_of_def JUDGE_KINDS_def normalized_text_def py_lower_def lower_char_def py_strip_def py_space_def)

lemma outcome_texts [simp]: "one_of outcome_text DISPUTE_OUTCOMES m (outcome_text v) = Inr v"
  by (cases v) (simp_all add: one_of_def DISPUTE_OUTCOMES_def normalized_text_def py_lower_def lower_char_def py_strip_def py_space_def)

lemma triple_consensus:
  "triple (judged e did st out n) (set_dispute_consensus e' did (Some (outcome_text v))) (\<lambda>_. judged e did DConsensus (Some v) n) E"
  by (simp add: set_dispute_consensus_def validate_outcome_def) (rule triple_rewrite; simp add: dispute_check_def)

lemma triple_tied: "triple (judged e did st out n) (set_dispute_tied e' did) (\<lambda>_. judged e did DTied out n) E"
  unfolding set_dispute_tied_def by (rule triple_rewrite) (simp_all add: dispute_check_def)

lemma triple_status:
  assumes "validate_status s = Inr st'" and "st' \<noteq> DAwaitingOperator"
  shows "triple (judged e did st out n) (set_dispute_status e' did s) (\<lambda>_. judged e did st' out n) E"
  unfolding set_dispute_status_def using assms by simp (rule triple_rewrite; simp add: dispute_check_def)

text \<open>A vote of the \<open>n\<close>-th judge; a judge that voted before answers with the first vote.\<close>

lemma triple_vote:
  assumes kind: "one_of judge_kind_text JUDGE_KINDS ''invalid judge_kind'' kind = Inr k" and n: "kind_no k = n"
    and e': "backend e' = backend e" "uuid e' 0 = uuid e n" and why: "py_strip why \<noteq> []"
  shows "triple (judged e did st out n) (record_judgment e' did kind (outcome_text v) why model admin)
     (\<lambda>_. judged e did st out (Suc n)) E"
proof (rule tripleI)
  fix d assume j: "judged e did st out n d"
  let ?vote = "\<lparr>judgment_id = uuid e n, judged_dispute_id = did, judge_kind = k, verdict = v, reasoning = py_strip why,
    judge_model = optional_stripped model, admin_user_id = optional_stripped admin, judged_at = now e'\<rparr>"
  let ?same = "\<lambda>i. judged_dispute_id i = did \<and> judge_kind i = k"
  have weaker: "judged e did st out (Suc n) d"
    using j Suc_leD unfolding judged_def by blast
  have new: "uuid e n \<noteq> uuid e (kind_no m)" if "Suc n \<le> kind_no m" for m
    using j n that by (cases m; cases k) (auto simp: judged_def inj_on_def)
  have fresh: "\<not> exists_row (\<lambda>i. judgment_id i = uuid e n) (dispute_judgments d)"
    using j n by (auto simp: judged_def exists_row_iff)
  have added: "judged e did st out (Suc n) (d\<lparr>tx_failed := b, dispute_judgments := dispute_judgments d @ [?vote]\<rparr>)" for b
    using weaker new n by (auto simp: judged_def find_dispute_def)
  show "wp (record_judgment e' did kind (outcome_text v) why model admin) (\<lambda>_. judged e did st out (Suc n)) E d"
  proof (cases "find ?same (dispute_judgments d)")
    case None
    then have "judgment_insertable ?vote (d\<lparr>tx_failed := b\<rparr>)" for b
      using fresh by (auto simp: judgment_insertable_def exists_row_iff find_None_iff)
    then show ?thesis
      using kind why e' added by (simp add: record_judgment_def wp_simps pg_failed_def Let_def weaker)
  next
    case (Some i)
    then have "\<not> judgment_insertable ?vote (d\<lparr>tx_failed := b\<rparr>)" "backend e = SQLite" for b
      using j n by (auto simp: judgment_insertable_def exists_row_iff judged_def dest!: find_SomeD) (metis backend_kind.exhaust order_refl)
    then show ?thesis
      using kind why e' Some weaker by (simp add: record_judgment_def wp_simps pg_failed_def Let_def abort_tx_def)
  qed
qed

section \<open>Where judging ends\<close>

text \<open>The reported status is the stored one; so is the outcome, but for a tie, which decides nothing.\<close>

definition ended :: "env \<Rightarrow> string \<Rightarrow> judge_result \<Rightarrow> db \<Rightarrow> bool" where
  "ended e did r d \<longleftrightarrow>
     (\<exists>out n. judged e did (result_status r) out n d \<and> (result_status r \<noteq> DTied \<longrightarrow> result_outcome r = out) \<and>
        (result_status r = DConsensus \<longrightarrow> out \<noteq> None) \<and> result_status r \<in> {DConsensus, DTied, DResolved, DFinal})"

lemma triple_settle: "triple (judged e did st out n) (settle_on e' did v) (ended e did) E"
  unfolding settle_on_def
  by (rule triple_bind [OF triple_consensus]) (rule triple_weaken [OF triple_result], auto simp: ended_def)

lemma triple_vote_kinds:
  assumes "py_strip why \<noteq> []"
  shows "triple (judged e did st out 0) (record_judgment e did ''llm_primary'' (outcome_text v) why m a) (\<lambda>_. judged e did st out 1) E"
    and "triple (judged e did st out 1) (record_judgment (uuids_from 1 e) did ''llm_secondary'' (outcome_text v) why m a)
           (\<lambda>_. judged e did st out 2) E"
    and "triple (judged e did st out 2) (record_judgment (uuids_from 2 e) did ''human_admin'' (outcome_text v) why m a)
           (\<lambda>_. judged e did st out 3) E"
  using triple_vote [OF kind_texts(1), where n = 0 and e = e and e' = e]
    triple_vote [OF kind_texts(2), where n = 1 and e = e and e' = "uuids_from 1 e"]
    triple_vote [OF kind_texts(3), where n = 2 and e = e and e' = "uuids_from 2 e"] assms
  by (simp_all add: numeral_eq_Suc)

lemma triple_both: "py_strip text \<noteq> [] \<Longrightarrow> triple (judged e did st out 0) (record_both e did v text model) (ended e did) E"
  unfolding record_both_def by (intro triple_bind [OF triple_vote_kinds(1)] triple_bind [OF triple_vote_kinds(2)] triple_settle)

lemma py_strip_Nil: "py_strip u = [] \<longleftrightarrow> (\<forall>c\<in>set u. py_space c)"
proof -
  have "(\<forall>c\<in>set (dropWhile py_space u). py_space c) \<longleftrightarrow> dropWhile py_space u = []"
    by (metis all_not_in_conv dropWhile_eq_Nil_conv hd_dropWhile list.set(1) list.set_sel(1))
  then show ?thesis by (simp add: py_strip_def dropWhile_eq_Nil_conv)
qed

lemma py_strip_append: "py_strip u \<noteq> [] \<Longrightarrow> py_strip (u @ v) \<noteq> []"
  by (auto simp: py_strip_Nil)

lemma py_strip_prefix: "\<not> py_space c \<Longrightarrow> py_strip (c # u) \<noteq> []"
  by (simp add: py_strip_Nil)

lemma fallback_text: "py_strip fallback_reasoning \<noteq> []"
  by (simp add: fallback_reasoning_def py_strip_prefix py_space_def)

lemma hosted_text:
  "parse_hosted_judgment_response response = Some (v, text, model) \<Longrightarrow> py_strip text \<noteq> []"
  by (auto simp: parse_hosted_judgment_response_def or_text_def py_strip_prefix py_space_def split: option.splits sum.splits if_splits)

lemma triple_keep_audit: "triple (judged e did st out n) (append_audit_event e' did event actor extra) (\<lambda>_. judged e did st out n) E"
  unfolding append_audit_event_def triple_def
  by (auto simp: wp_simps pg_failed_def dispute_check_def split: option.split intro!: judged_update_flag)

lemma judge_once_reasoning: "judge_once w chain adv temp x j = Inr a \<Longrightarrow> py_strip (answer_reasoning a) \<noteq> []"
  by (auto simp: judge_once_def parse_judge_response_def guard_judge_consistency_def Let_def py_strip_append
      split: llm_reply.splits sum.splits if_splits prod.splits)

lemma triple_primary:
  assumes "\<And>ex d. judge_once w (DEFAULT_CHAIN w) False 0 x j = Inl ex \<Longrightarrow> judged e did DPending out 0 d \<Longrightarrow> E ex d"
  shows "triple (judged e did DJudging out 0) (run_primary_judgment e w did x j) (\<lambda>_. judged e did DJudging out 1) E"
proof (cases "judge_once w (DEFAULT_CHAIN w) False 0 x j")
  case (Inl ex)
  then show ?thesis
    unfolding run_primary_judgment_def using assms
    by (auto intro!: triple_bind [OF triple_status] triple_throw status_texts)
next
  case (Inr a)
  then show ?thesis
    unfolding run_primary_judgment_def
    by (auto intro!: triple_bind [OF triple_vote_kinds(1)] triple_ret judge_once_reasoning)
qed

lemma triple_tiebreaker:
  "triple (judged e did st out 1) (settle_via_tiebreaker e did x j) (ended e did) E"
  unfolding settle_via_tiebreaker_def Let_def
  by (intro triple_bind [OF triple_vote_kinds(2)] triple_bind [OF triple_consensus] triple_bind [OF triple_keep_audit]
      triple_weaken [OF triple_result]) (auto simp: ended_def py_strip_prefix py_space_def)

lemma triple_secondary:
  "triple (judged e did st out 1) (run_secondary e w did x j primary)
     (\<lambda>res d. case res of Inl _ \<Rightarrow> judged e did st out 2 d | Inr r \<Rightarrow> ended e did r d) E"
proof (cases "select_secondary_chain w (py_strip (answer_model primary))")
  case (Pair chain same)
  show ?thesis
  proof (cases "judge_once w chain True (if same then 4 / 10 else 1 / 10) x j")
    case (Inl ex)
    show ?thesis unfolding run_secondary_def Let_def Pair prod.case Inl sum.case
      by (intro triple_bind [OF triple_tiebreaker] triple_ret) simp
  next
    case (Inr a)
    show ?thesis unfolding run_secondary_def Let_def Pair prod.case Inr sum.case
      by (intro triple_bind [OF triple_vote_kinds(2)] triple_ret) (simp_all add: judge_once_reasoning [OF Inr])
  qed
qed

lemma triple_consensus_or_tie:
  "triple (judged e did st out 2) (resolve_consensus_or_tie e did x j p s) (ended e did) E"
  unfolding resolve_consensus_or_tie_def Let_def
  by (intro triple_if triple_settle triple_bind [OF triple_vote_kinds(3)] triple_bind [OF triple_tied]
      triple_weaken [OF triple_result]) (auto simp: ended_def py_strip_prefix py_space_def)

lemma triple_live:
  assumes "\<And>ex d. judge_once w (DEFAULT_CHAIN w) False 0 x j = Inl ex \<Longrightarrow> judged e did DPending out 0 d \<Longrightarrow> E ex d"
  shows "triple (judged e did DJudging out 0) (judge_live e w did x j) (ended e did) E"
  unfolding judge_live_def using assms
  by (intro triple_bind [OF triple_primary] triple_bind [OF triple_secondary])
    (auto split: sum.split intro: triple_consensus_or_tie triple_ret)

text \<open>The one failure that comes out: nobody hosted a verdict and the first judge of the instance failed.\<close>

definition primary_failed :: "judge_world \<Rightarrow> dispute \<Rightarrow> job \<Rightarrow> exn \<Rightarrow> bool" where
  "primary_failed w x j ex \<longleftrightarrow> parse_hosted_judgment_response (hosted_answer w x j) = None \<and> live_judges w \<and>
     judge_once w (DEFAULT_CHAIN w) False 0 x j = Inl ex"

lemma triple_hosted:
  "triple (judged e did st out 0) (try_hosted_judgment e w did x j)
     (\<lambda>res d. case res of None \<Rightarrow> judged e did st out 0 d \<and> parse_hosted_judgment_response (hosted_answer w x j) = None
        | Some r \<Rightarrow> ended e did r d) E"
  unfolding try_hosted_judgment_def
  by (auto split: option.split intro!: triple_ret triple_bind [OF triple_both] dest: hosted_text)

lemma triple_judge:
  assumes "\<And>ex d. primary_failed w x j ex \<Longrightarrow> judged e did DPending (dispute_outcome x) 0 d \<Longrightarrow> E ex d"
  shows "triple (judged e did (dispute_state x) (dispute_outcome x) 0) (judge_dispute e w did x j) (ended e did) E"
  unfolding judge_dispute_def
proof (rule triple_if)
  show "triple (judged e did (dispute_state x) (dispute_outcome x) 0)
      (judge_result_of e did (dispute_state x) (dispute_outcome x) False) (ended e did) E"
    if "dispute_state x \<in> {DResolved, DFinal}"
    using that by (intro triple_weaken [OF triple_result]) (auto simp: ended_def)
  have "triple (\<lambda>d. judged e did DJudging (dispute_outcome x) 0 d \<and> parse_hosted_judgment_response (hosted_answer w x j) = None)
      (if \<not> live_judges w then record_dual_fallback_consensus e did x j else judge_live e w did x j) (ended e did) E"
  proof (cases "parse_hosted_judgment_response (hosted_answer w x j) = None")
    case True
    then have "triple (judged e did DJudging (dispute_outcome x) 0)
      (if \<not> live_judges w then record_dual_fallback_consensus e did x j else judge_live e w did x j) (ended e did) E"
      using assms by (auto intro!: triple_live triple_both simp: record_dual_fallback_consensus_def fallback_text primary_failed_def)
    then show ?thesis unfolding triple_def by blast
  next
    case False
    then show ?thesis unfolding triple_def by blast
  qed
  then show "triple (judged e did (dispute_state x) (dispute_outcome x) 0)
      (bindE (set_dispute_status e did ''judging'') (\<lambda>_. bindE (try_hosted_judgment e w did x j) (\<lambda>hosted.
         case hosted of Some r \<Rightarrow> ret r
         | None \<Rightarrow> if \<not> live_judges w then record_dual_fallback_consensus e did x j else judge_live e w did x j)))
      (ended e did) E"
    by (intro triple_bind [OF triple_status [OF status_texts(2)]] triple_bind [OF triple_hosted])
      (auto split: option.split intro: triple_ret)
qed

lemma wp_run_judgment:
  assumes job: "find_job (dispute_job_id y) d = Some job" and y: "find_dispute did d = Some y"
    and j: "judged e did (dispute_state y) (dispute_outcome y) 0 d"
    and E: "\<And>ex d. primary_failed w y job ex \<Longrightarrow> judged e did DPending (dispute_outcome y) 0 d \<Longrightarrow> E ex d"
  shows "wp (run_judgment e w did) (ended e did) E d"
proof -
  have "dispute_with_job did d = Some (y, job)"
    using job y by (simp add: dispute_with_job_def find_dispute_def find_job_def)
  then show ?thesis
    using tripleD [OF triple_judge [of w y job e did E, OF E], where d = "d\<lparr>tx_failed := False\<rparr>"] j
    by (simp add: run_judgment_def get_dispute_context_def get_judgments_def wp_simps pg_failed_def)
qed

text \<open>
  C7. Judging never leaves a dispute in judging. On SQLite, or while no judge has voted, a call returns with the
  dispute stored as decided, tied, or as final as it was before, and a decision always has an outcome. There is one
  exception: without a hosted verdict, when the instance judges by itself and its first judge fails, the call raises
  that failure and the dispute is pending again; the count of key words is not asked then.
\<close>

theorem judging_never_strands:
  assumes "find_dispute did d = Some x" and "find_job (dispute_job_id x) d = Some j"
    and "\<forall>r\<in>set (disputes d). dispute_check r"
    and "inj_on (uuid e) {0, 1, 2}" and "\<forall>v\<in>set (dispute_judgments d). judgment_id v \<notin> uuid e ` {0, 1, 2}"
    and "backend e = SQLite \<or> (\<forall>v\<in>set (dispute_judgments d). judged_dispute_id v \<noteq> did)"
  shows "wp (run_judgment e w did)
     (\<lambda>r d'. \<exists>y. find_dispute did d' = Some y \<and> dispute_state y = result_status r \<and>
        result_status r \<in> {DConsensus, DTied, DResolved, DFinal} \<and>
        (result_status r = DConsensus \<longrightarrow> result_outcome r \<noteq> None \<and> dispute_outcome y = result_outcome r))
     (\<lambda>ex d'. parse_hosted_judgment_response (hosted_answer w x j) = None \<and> live_judges w \<and>
        judge_once w (DEFAULT_CHAIN w) False 0 x j = Inl ex \<and>
        (\<exists>y. find_dispute did d' = Some y \<and> dispute_state y = DPending)) d"
proof -
  have "uuid e (kind_no k) \<in> uuid e ` {0, 1, 2}" for k by (cases k) simp_all
  then have "judged e did (dispute_state x) (dispute_outcome x) 0 d"
    using assms unfolding judged_def by (metis backend_kind.distinct(1))
  from wp_run_judgment [OF assms(2,1) this, where w = w and E = "\<lambda>ex d. primary_failed w x j ex \<and> judged e did DPending (dispute_outcome x) 0 d"]
  show ?thesis by (rule wp_post_mono) (auto simp: ended_def judged_def primary_failed_def)
qed

definition sample_judges :: judge_world where
  "sample_judges = \<lparr>hosted_answer = \<lambda>_ _. Some \<lparr>hosted_verdict = Some ''agent_wins'', hosted_reasoning = Some ''fine'',
     hosted_model = None\<rparr>, live_judges = False, DEFAULT_CHAIN = [''m1''], ask_llm = \<lambda>_ _ _ _ _. ProviderFailed\<rparr>"

definition sample_judging_db :: "judge_vote list \<Rightarrow> db" where
  "sample_judging_db votes = sample_jobs_db\<lparr>disputes := [sample_dispute], dispute_judgments := votes\<rparr>"

lemma sample_judging_facts:
  "find_dispute ''d1'' (sample_judging_db votes) = Some sample_dispute"
  "find_job (dispute_job_id sample_dispute) (sample_judging_db votes) = Some sample_job"
  "\<forall>r\<in>set (disputes (sample_judging_db votes)). dispute_check r"
  "dispute_state sample_dispute \<notin> {DResolved, DFinal}" "dispute_judgments (sample_judging_db votes) = votes"
  by (simp_all add: sample_judging_db_def sample_jobs_db_def find_dispute_def find_job_def sample_dispute_def sample_job_def
      dispute_check_def)

lemma judging_never_strands_witness:
  "wp (run_judgment (sample_env Postgres) sample_judges ''d1'')
     (\<lambda>r d'. \<exists>y. find_dispute ''d1'' d' = Some y \<and> dispute_state y = result_status r) (\<lambda>_ _. False) (sample_judging_db [])"
  by (rule wp_post_mono [OF judging_never_strands [OF sample_judging_facts(1,2,3)]])
    (auto simp: sample_judging_facts sample_judges_def inj_on_def)

section \<open>Retries\<close>

lemma retry_status:
  assumes "find_dispute did d = Some x" and "\<forall>r\<in>set (disputes d). dispute_check r"
  shows "wp (set_dispute_status e did ''judging'')
    (\<lambda>_ d'. (\<exists>y. find_dispute did d' = Some y \<and> dispute_state y = DJudging) \<and> (\<forall>r\<in>set (disputes d'). dispute_check r) \<and>
       dispute_judgments d' = dispute_judgments d) E d"
  using assms unfolding set_dispute_status_def rewrite_dispute_def get_dispute_def
  by (auto simp: status_texts wp_simps pg_failed_def find_dispute_def find_update_key ball_update_rows dispute_check_def)

text \<open>
  On PostgreSQL a judging that was cut off after the first vote cannot be repeated: once a primary vote is
  recorded, every call on a dispute that is not closed raises in the failed transaction of the second
  insert, unless the primary judge itself fails. The dispute stays in judging with its vote, which is
  the situation at the start of the call: no retry gets further.
\<close>

theorem judging_strands_on_postgres:
  assumes "backend e = Postgres" and x: "find_dispute did d = Some x" and job: "find_job (dispute_job_id x) d = Some j"
    and ck: "\<forall>r\<in>set (disputes d). dispute_check r" and nt: "dispute_state x \<notin> {DResolved, DFinal}"
    and vote: "find (\<lambda>i. judged_dispute_id i = did \<and> judge_kind i = LlmPrimary) (dispute_judgments d) = Some i"
    and answer: "parse_hosted_judgment_response (hosted_answer w x j) \<noteq> None \<or> \<not> live_judges w \<or>
       judge_once w (DEFAULT_CHAIN w) False 0 x j = Inr a"
  shows "wp (run_judgment e w did) (\<lambda>_ _. False)
     (\<lambda>ex d'. ex = InFailedSqlTransaction \<and> dispute_judgments d' = dispute_judgments d \<and>
        (\<exists>y. find_dispute did d' = Some y \<and> dispute_state y = DJudging)) d"
proof -
  let ?E = "\<lambda>ex d'. ex = InFailedSqlTransaction \<and> dispute_judgments d' = dispute_judgments d \<and>
        (\<exists>y. find_dispute did d' = Some y \<and> dispute_state y = DJudging)"
  let ?P = "\<lambda>d'. dispute_judgments d' = dispute_judgments d \<and> (\<exists>y. find_dispute did d' = Some y \<and> dispute_state y = DJudging)"
  have again: "wp (record_judgment e did ''llm_primary'' (outcome_text v) why m ad) Q ?E d'"
    if "?P d'" "py_strip why \<noteq> []" for v why m ad Q d'
    by (rule wp_post_mono [OF second_vote [OF kind_texts(1) outcome_texts that(2), of did d' i]])
      (use that assms(1) vote in \<open>auto simp: find_dispute_def\<close>)
  have both: "wp (record_both e did v why m) Q ?E d'" if "?P d'" "py_strip why \<noteq> []" for v why m Q d'
    unfolding record_both_def wp_bindE by (rule again [OF that])
  have "wp (if \<not> live_judges w then record_dual_fallback_consensus e did x j else judge_live e w did x j) Q ?E d'"
    if "?P d'" "parse_hosted_judgment_response (hosted_answer w x j) = None" for Q d'
    using that answer by (auto simp: record_dual_fallback_consensus_def both fallback_text judge_live_def run_primary_judgment_def
        wp_bindE again judge_once_reasoning)
  then have "wp (bindE (try_hosted_judgment e w did x j) (\<lambda>hosted.
         case hosted of Some r \<Rightarrow> ret r
         | None \<Rightarrow> if \<not> live_judges w then record_dual_fallback_consensus e did x j else judge_live e w did x j)) Q ?E d'"
    if "?P d'" for Q d'
    using that by (auto simp: try_hosted_judgment_def wp_bindE wp_ret both dest!: hosted_text split: option.split)
  then have "wp (judge_dispute e w did x j) (\<lambda>_ _. False) ?E (d\<lparr>tx_failed := False\<rparr>)"
    using nt wp_post_mono [OF retry_status [of did "d\<lparr>tx_failed := False\<rparr>" x e]] x ck
    by (auto simp: judge_dispute_def wp_bindE find_dispute_def)
  moreover have "dispute_with_job did d = Some (x, j)"
    using job x by (simp add: dispute_with_job_def find_dispute_def find_job_def)
  ultimately show ?thesis
    by (simp add: run_judgment_def get_dispute_context_def get_judgments_def wp_simps pg_failed_def)
qed

lemma triple_again:
  assumes "one_of judge_kind_text JUDGE_KINDS ''invalid judge_kind'' kind = Inr k"
    and "find (\<lambda>i. judged_dispute_id i = did \<and> judge_kind i = k) votes = Some i"
    and "py_strip why \<noteq> []" and "backend e = SQLite"
  shows "triple (\<lambda>d. dispute_judgments d = votes \<and> R (disputes d)) (record_judgment e did kind (outcome_text v) why m a)
     (\<lambda>_ d. dispute_judgments d = votes \<and> R (disputes d)) E"
  by (rule tripleI) (rule wp_post_mono [OF second_vote [OF assms(1) outcome_texts assms(3), where i = i]], use assms in auto)

text \<open>
  On SQLite a repeated judging ignores the votes that are on record: when both judges already voted, a new
  hosted verdict decides the dispute whatever they said, and the votes stay as they were. The decision may
  contradict every recorded vote.
\<close>

theorem retry_overrules_recorded_votes:
  assumes lite: "backend e = SQLite" and x: "find_dispute did d = Some x" and job: "find_job (dispute_job_id x) d = Some j"
    and ck: "\<forall>r\<in>set (disputes d). dispute_check r" and nt: "dispute_state x \<notin> {DResolved, DFinal}"
    and first: "find (\<lambda>i. judged_dispute_id i = did \<and> judge_kind i = LlmPrimary) (dispute_judgments d) = Some i1"
    and second: "find (\<lambda>i. judged_dispute_id i = did \<and> judge_kind i = LlmSecondary) (dispute_judgments d) = Some i2"
    and hosted: "parse_hosted_judgment_response (hosted_answer w x j) = Some (v, why, model)"
  shows "wp (run_judgment e w did)
     (\<lambda>r d'. result_outcome r = Some v \<and> dispute_judgments d' = dispute_judgments d \<and>
        (\<exists>y. find_dispute did d' = Some y \<and> dispute_state y = DConsensus \<and> dispute_outcome y = Some v))
     (\<lambda>_ _. False) d"
proof -
  let ?Q = "\<lambda>r d'. result_outcome r = Some v \<and> dispute_judgments d' = dispute_judgments d \<and>
        (\<exists>y. find_dispute did d' = Some y \<and> dispute_state y = DConsensus \<and> dispute_outcome y = Some v)"
  let ?P = "\<lambda>d'. dispute_judgments d' = dispute_judgments d \<and> (\<forall>r\<in>set (disputes d'). dispute_check r) \<and>
     (\<exists>y. find (\<lambda>r. dispute_id r = did) (disputes d') = Some y)"
  have settle: "triple ?P (settle_on e did v) ?Q (\<lambda>_ _. False)"
    by (rule tripleI) (auto simp: settle_on_def set_dispute_consensus_def validate_outcome_def rewrite_dispute_def get_dispute_def
        judge_result_of_def get_judgments_def wp_simps pg_failed_def find_dispute_def find_update_key dispute_check_def)
  have "triple ?P (record_both e did v why m) ?Q (\<lambda>_ _. False)" for m
    unfolding record_both_def using lite hosted_text [OF hosted]
    by (intro triple_bind [OF triple_again [OF kind_texts(1) first]] triple_bind [OF triple_again [OF kind_texts(2) second]] settle)
      simp_all
  then have "wp (record_both e did v why m) ?Q (\<lambda>_ _. False) d'" if "?P d'" for m d'
    using that by (rule tripleD)
  then have both: "wp (bindE (try_hosted_judgment e w did x j) (\<lambda>h. case h of Some r \<Rightarrow> ret r | None \<Rightarrow> m)) ?Q (\<lambda>_ _. False) d'"
    if "?P d'" for m d'
    unfolding try_hosted_judgment_def hosted option.case prod.case wp_bindE wp_ret using that by blast
  have "wp (judge_dispute e w did x j) ?Q (\<lambda>_ _. False) (d\<lparr>tx_failed := False\<rparr>)"
    unfolding judge_dispute_def if_not_P [OF nt] wp_bindE [of "set_dispute_status e did ''judging''"]
    by (rule wp_post_mono [OF retry_status [of did "d\<lparr>tx_failed := False\<rparr>" x]], simp add: x [unfolded find_dispute_def] find_dispute_def, simp add: ck)
      (rule both, auto simp: find_dispute_def)
  moreover have "dispute_with_job did d = Some (x, j)"
    using job x by (simp add: dispute_with_job_def find_dispute_def find_job_def)
  ultimately show ?thesis
    by (simp add: run_judgment_def get_dispute_context_def get_judgments_def wp_simps pg_failed_def)
qed

definition primary_vote :: judge_vote where
  "primary_vote = sample_vote\<lparr>verdict := CallerWins\<rparr>"

definition secondary_vote :: judge_vote where
  "secondary_vote = sample_vote\<lparr>judgment_id := ''v2'', judge_kind := LlmSecondary, verdict := CallerWins\<rparr>"

lemma sample_votes:
  "find (\<lambda>i. judged_dispute_id i = ''d1'' \<and> judge_kind i = LlmPrimary) [primary_vote, secondary_vote] = Some primary_vote"
  "find (\<lambda>i. judged_dispute_id i = ''d1'' \<and> judge_kind i = LlmSecondary) [primary_vote, secondary_vote] = Some secondary_vote"
  by (simp_all add: primary_vote_def secondary_vote_def sample_vote_def)

lemma sample_hosted:
  "parse_hosted_judgment_response (hosted_answer sample_judges x j) = Some (AgentWins, ''fine'', ''hosted'')"
  by (simp add: parse_hosted_judgment_response_def sample_judges_def normalize_verdict_def one_of_def DISPUTE_OUTCOMES_def
      normalized_text_def py_lower_def lower_char_def py_strip_def py_space_def or_text_def or_empty_def)

lemma judging_strands_on_postgres_witness:
  "wp (run_judgment (sample_env Postgres) sample_judges ''d1'') (\<lambda>_ _. False)
     (\<lambda>ex d'. ex = InFailedSqlTransaction \<and> dispute_judgments d' = [primary_vote, secondary_vote])
     (sample_judging_db [primary_vote, secondary_vote])"
  by (rule wp_post_mono [OF judging_strands_on_postgres [OF _ sample_judging_facts(1,2,3,4), unfolded sample_judging_facts(5),
      OF _ sample_votes(1)]]) (simp_all add: sample_judges_def)

lemma retry_overrules_recorded_votes_witness:
  "wp (run_judgment (sample_env SQLite) sample_judges ''d1'')
     (\<lambda>r d'. result_outcome r = Some AgentWins \<and> map verdict (dispute_judgments d') = [CallerWins, CallerWins])
     (\<lambda>_ _. False) (sample_judging_db [primary_vote, secondary_vote])"
  by (rule wp_post_mono [OF retry_overrules_recorded_votes [OF _ sample_judging_facts(1,2,3,4),
      unfolded sample_judging_facts(5), OF _ sample_votes sample_hosted]]) (simp_all add: primary_vote_def secondary_vote_def)

end
