(* ===== verification/Agent_Stats.thy ===== *)
theory Agent_Stats
  imports Jobs Json_Values
begin

text \<open>
  Call statistics of an agent: the ring of recent calls with its percentile estimates
  (\<open>core/registry/call_history.py\<close>), the counters a settled call moves (\<open>update_call_stats\<close> of
  \<open>core/registry/agents_ops.py\<close>), and the two decay sweeps of \<open>server/application_parts/part_005.py\<close>.
  A \<open>float\<close> is a rational number.
\<close>

definition agent_check :: "agent_row \<Rightarrow> bool" where
  "agent_check r \<longleftrightarrow> 0 \<le> price_per_call_usd r \<and> listing_status r \<in> {''active'', ''suspended'', ''banned''} \<and>
     endpoint_health_status r \<in> {''unknown'', ''healthy'', ''degraded''}"

abbreviation update_agents :: "env \<Rightarrow> (agent_row \<Rightarrow> bool) \<Rightarrow> (agent_row \<Rightarrow> agent_row) \<Rightarrow> (db, nat) prog" where
  "update_agents e \<equiv> update_stmt e agent_rows (\<lambda>rs d. d\<lparr>agent_rows := rs\<rparr>) agent_check"

definition find_agent :: "string \<Rightarrow> db \<Rightarrow> agent_row option" where
  "find_agent agent d = find (\<lambda>r. listed_agent_id r = agent) (agent_rows d)"

section \<open>The ring of recent calls\<close>

definition CALL_RING_LIMIT :: nat where "CALL_RING_LIMIT = 200"

record ring_sample =
  sample_latency_ms :: int
  sample_price_cents :: int

definition ring_int :: "json option \<Rightarrow> int" where
  "ring_int v = to_non_negative_int (case v of None \<Rightarrow> None | Some x \<Rightarrow> json_int x) (- 1)"

definition ring_item :: "json \<Rightarrow> ring_sample option" where
  "ring_item item =
     (let latency = ring_int (json_get item ''latency_ms''); price = ring_int (json_get item ''price_cents'') in
      if \<not> is_object item \<or> latency < 0 \<or> price < 0 then None
      else Some \<lparr>sample_latency_ms = latency, sample_price_cents = price\<rparr>)"

definition last_n :: "nat \<Rightarrow> 'a list \<Rightarrow> 'a list" where
  "last_n n xs = drop (length xs - n) xs"

definition normalize_call_ring :: "json \<Rightarrow> ring_sample list" where
  "normalize_call_ring raw =
     (case raw of JArr items \<Rightarrow> last_n CALL_RING_LIMIT (List.map_filter ring_item items) | _ \<Rightarrow> [])"

definition ring_json :: "ring_sample list \<Rightarrow> json" where
  "ring_json ring = JArr (map (\<lambda>x. JObj [(''latency_ms'', JNum (of_int (sample_latency_ms x))),
     (''price_cents'', JNum (of_int (sample_price_cents x)))]) ring)"

definition new_sample :: "rat \<Rightarrow> int \<Rightarrow> ring_sample" where
  "new_sample latency price =
     \<lparr>sample_latency_ms = to_non_negative_int (Some (round_half_even latency)) 0,
      sample_price_cents = to_non_negative_int (Some price) 0\<rparr>"

definition append_call_ring_sample :: "json \<Rightarrow> rat \<Rightarrow> int \<Rightarrow> json" where
  "append_call_ring_sample raw latency price =
     ring_json (last_n CALL_RING_LIMIT (normalize_call_ring raw @ [new_sample latency price]))"

definition get_agent_call_ring :: "env \<Rightarrow> string \<Rightarrow> (db, ring_sample list) prog" where
  "get_agent_call_ring e agent =
     bindE (transact (select e (find_agent agent))) (\<lambda>row.
     case row of
       None \<Rightarrow> throw (ValueError ''Agent not found.'')
     | Some r \<Rightarrow> ret (normalize_call_ring (call_latency_ring r)))"

section \<open>Latency estimates\<close>

definition percentile :: "int list \<Rightarrow> rat \<Rightarrow> int" where
  "percentile values quantile =
     (if values = [] then 0
      else if length values = 1 then hd values
      else
        let position = clamp01 quantile * of_nat (length values - 1);
            low = nat \<lfloor>position\<rfloor>; high = nat \<lceil>position\<rceil>
        in if low = high then values ! low
           else round_half_even (of_int (values ! low) +
                  of_int (values ! high - values ! low) * (position - of_nat low)))"

record latency_estimate =
  p50_latency_ms :: int
  p95_latency_ms :: int
  estimate_confidence :: string

definition compute_latency_estimate :: "ring_sample list \<Rightarrow> rat \<Rightarrow> latency_estimate" where
  "compute_latency_estimate ring fallback_latency_ms =
     (let fallback = to_non_negative_int (Some (round_half_even (if fallback_latency_ms < 0 then 0 else fallback_latency_ms))) 0;
          latencies = filter (\<lambda>v. 0 \<le> v) (sort (map (\<lambda>x. to_non_negative_int (Some (sample_latency_ms x)) (- 1)) ring));
          n = length latencies
      in if n = 0 then \<lparr>p50_latency_ms = fallback, p95_latency_ms = fallback, estimate_confidence = ''low''\<rparr>
         else \<lparr>p50_latency_ms = percentile latencies (1 / 2), p95_latency_ms = percentile latencies (95 / 100),
               estimate_confidence = (if 20 \<le> n then ''high'' else if 5 \<le> n then ''medium'' else ''low'')\<rparr>)"

section \<open>Counting a call\<close>

definition price_usd_to_cents :: "rat \<Rightarrow> int" where
  "price_usd_to_cents amount =
     (if amount < 0 then 0
      else let cents = round_half_up (amount * 100) in if 0 < amount \<and> cents = 0 then 1 else cents)"

definition avg_latency_from_ring :: "json \<Rightarrow> rat" where
  "avg_latency_from_ring ring =
     (let samples = map sample_latency_ms (normalize_call_ring ring)
      in if samples = [] then 0 else of_int (sum_list samples) / of_nat (length samples))"

definition counted_row :: "bool \<Rightarrow> agent_row \<Rightarrow> agent_row" where
  "counted_row success r =
     r\<lparr>total_calls := total_calls r + 1, successful_calls := successful_calls r + (if success then 1 else 0)\<rparr>"

definition effective_price :: "int option \<Rightarrow> agent_row \<Rightarrow> int" where
  "effective_price price r =
     (case price of
        Some c \<Rightarrow> c
      | None \<Rightarrow> (case price_per_call_cents r of
            Some c \<Rightarrow> to_non_negative_int (Some c) 0 | None \<Rightarrow> price_usd_to_cents (price_per_call_usd r)))"

definition update_call_stats :: "env \<Rightarrow> string \<Rightarrow> rat \<Rightarrow> bool \<Rightarrow> int option \<Rightarrow> (db, unit) prog" where
  "update_call_stats e agent latency success price = transact
     (bindE (update_agents e (\<lambda>r. listed_agent_id r = agent) (counted_row success)) (\<lambda>_.
      bindE (select e (find_agent agent)) (\<lambda>row.
      case row of
        None \<Rightarrow> ret ()
      | Some r \<Rightarrow>
          if \<not> success then ret ()
          else
            let ring = append_call_ring_sample (call_latency_ring r) latency (effective_price price r)
            in bindE (update_agents e (\<lambda>r. listed_agent_id r = agent)
                        (\<lambda>r. r\<lparr>call_latency_ring := ring, avg_latency_ms := avg_latency_from_ring ring\<rparr>)) (\<lambda>_. ret ()))))"

section \<open>Decay\<close>

definition LATENCY_DECAY_GRACE_DAYS :: int where "LATENCY_DECAY_GRACE_DAYS = 7"
definition LATENCY_DECAY_DAILY_MULTIPLIER :: rat where "LATENCY_DECAY_DAILY_MULTIPLIER = 9 / 10"
definition LATENCY_DECAY_FLOOR_MS :: rat where "LATENCY_DECAY_FLOOR_MS = 1"
definition REPUTATION_DECAY_GRACE_DAYS :: int where "REPUTATION_DECAY_GRACE_DAYS = 30"
definition REPUTATION_DECAY_DAILY_RATE :: rat where "REPUTATION_DECAY_DAILY_RATE = 5 / 1000"

text \<open>\<open>MAX(completed_at)\<close> over the completed jobs of the agent.\<close>

definition last_completed_of :: "string \<Rightarrow> db \<Rightarrow> int option" where
  "last_completed_of agent d =
     (case List.map_filter (\<lambda>j. if agent_id j = agent \<and> job_state j = Complete then completed_at j else None) (jobs d) of
        [] \<Rightarrow> None
      | t # ts \<Rightarrow> Some (fold max ts t))"

definition decay_rows :: "db \<Rightarrow> (agent_row \<times> int) list" where
  "decay_rows d =
     map (\<lambda>r. (r, case last_completed_of (listed_agent_id r) d of None \<Rightarrow> agent_created_at r | Some t \<Rightarrow> t))
       (filter (\<lambda>r. listing_status r = ''active'') (agent_rows d))"

text \<open>Whole days since the end of the grace period or the last decay, whichever is later.\<close>

definition idle_days :: "env \<Rightarrow> int \<Rightarrow> int \<Rightarrow> int option \<Rightarrow> int" where
  "idle_days e grace_days reference last_decay =
     (let threshold = reference + grace_days * micros_per_day;
          last = (case last_decay of None \<Rightarrow> threshold | Some t \<Rightarrow> t);
          start = (if last < threshold then threshold else last)
      in if now e \<le> threshold then 0 else (now e - start) div micros_per_day)"

definition set_agent_latency_decay :: "env \<Rightarrow> string \<Rightarrow> rat \<Rightarrow> (db, unit) prog" where
  "set_agent_latency_decay e agent new_avg = transact
     (bindE (update_agents e (\<lambda>r. listed_agent_id r = agent)
        (\<lambda>r. r\<lparr>avg_latency_ms := max 0 new_avg, latency_last_decay_at := Some (now e)\<rparr>)) (\<lambda>_. ret ()))"

definition set_agent_decay_multiplier :: "env \<Rightarrow> string \<Rightarrow> rat \<Rightarrow> (db, unit) prog" where
  "set_agent_decay_multiplier e agent multiplier = transact
     (bindE (update_agents e (\<lambda>r. listed_agent_id r = agent)
        (\<lambda>r. r\<lparr>trust_decay_multiplier := clamp01 (if multiplier < 0 then 1 else multiplier), last_decay_at := now e\<rparr>))
        (\<lambda>_. ret ()))"

definition touch_agent_decay :: "env \<Rightarrow> string \<Rightarrow> int \<Rightarrow> (db, unit) prog" where
  "touch_agent_decay e agent at_time = transact
     (bindE (update_agents e (\<lambda>r. listed_agent_id r = agent) (\<lambda>r. r\<lparr>last_decay_at := at_time\<rparr>)) (\<lambda>_. ret ()))"

text \<open>The new average of a row, where the sweep writes one.\<close>

definition decayed_latency :: "env \<Rightarrow> agent_row \<times> int \<Rightarrow> rat option" where
  "decayed_latency e x =
     (let avg = avg_latency_ms (fst x);
          days = idle_days e LATENCY_DECAY_GRACE_DAYS (snd x) (latency_last_decay_at (fst x));
          new_avg = max LATENCY_DECAY_FLOOR_MS (avg * LATENCY_DECAY_DAILY_MULTIPLIER ^ nat days)
      in if avg \<le> LATENCY_DECAY_FLOOR_MS \<or> days \<le> 0 \<or> avg \<le> new_avg then None else Some new_avg)"

definition MIN_CALLS_FOR_DECAY :: int where "MIN_CALLS_FOR_DECAY = 20"

definition decayed_multiplier :: "env \<Rightarrow> agent_row \<times> int \<Rightarrow> rat option" where
  "decayed_multiplier e x =
     (let m = trust_decay_multiplier (fst x);
          current = clamp01 (if m = 0 then 1 else m);
          days = idle_days e REPUTATION_DECAY_GRACE_DAYS (snd x) (Some (last_decay_at (fst x)));
          new_multiplier = clamp01 (current * (1 - REPUTATION_DECAY_DAILY_RATE) ^ nat days)
      in if total_calls (fst x) < MIN_CALLS_FOR_DECAY \<or> days \<le> 0 \<or> current \<le> new_multiplier
         then None else Some new_multiplier)"

record decay_report =
  scanned_agents :: nat
  decayed_agents :: nat

definition decay_sweep ::
  "env \<Rightarrow> (agent_row \<times> int \<Rightarrow> rat option) \<Rightarrow> (string \<Rightarrow> rat \<Rightarrow> (db, unit) prog) \<Rightarrow> (db, decay_report) prog" where
  "decay_sweep e decayed write =
     bindE (transact (select e decay_rows)) (\<lambda>rows.
     bindE (count_each rows (\<lambda>x.
        case decayed x of
          None \<Rightarrow> ret False
        | Some v \<Rightarrow> bindE (write (listed_agent_id (fst x)) v) (\<lambda>_. ret True))) (\<lambda>n.
     ret \<lparr>scanned_agents = length rows, decayed_agents = n\<rparr>))"

definition apply_latency_decay :: "env \<Rightarrow> (db, decay_report) prog" where
  "apply_latency_decay e = decay_sweep e (decayed_latency e) (set_agent_latency_decay e)"

definition apply_reputation_decay :: "env \<Rightarrow> (db, decay_report) prog" where
  "apply_reputation_decay e = decay_sweep e (decayed_multiplier e) (set_agent_decay_multiplier e)"

section \<open>Estimates are ordered and bounded\<close>

lemma round_half_even_mono: "x \<le> y \<Longrightarrow> round_half_even x \<le> round_half_even y"
proof -
  assume le: "x \<le> y"
  have near: "\<lfloor>z\<rfloor> \<le> round_half_even z" "round_half_even z \<le> \<lfloor>z\<rfloor> + 1" for z
    by (simp_all add: round_half_even_def)
  show ?thesis
  proof (cases "\<lfloor>x\<rfloor> = \<lfloor>y\<rfloor>")
    case True
    then show ?thesis using le by (auto simp: round_half_even_def)
  next
    case False
    then have "\<lfloor>x\<rfloor> + 1 \<le> \<lfloor>y\<rfloor>" using floor_mono [OF le] by linarith
    then show ?thesis using near(1) [of y] near(2) [of x] by linarith
  qed
qed

text \<open>The value between two neighbours, before rounding.\<close>

definition interpolated :: "int list \<Rightarrow> rat \<Rightarrow> rat" where
  "interpolated vs x =
     of_int (vs ! nat \<lfloor>x\<rfloor>) + of_int (vs ! nat \<lceil>x\<rceil> - vs ! nat \<lfloor>x\<rfloor>) * (x - of_int \<lfloor>x\<rfloor>)"

definition position_of :: "int list \<Rightarrow> rat \<Rightarrow> rat" where
  "position_of vs q = clamp01 q * of_nat (length vs - 1)"

lemma position_bounds: "vs \<noteq> [] \<Longrightarrow> 0 \<le> position_of vs q \<and> position_of vs q \<le> of_nat (length vs - 1)"
  using mult_right_mono [OF clamp01_bounds(2), of "of_nat (length vs - 1) :: rat" q]
  by (simp add: position_of_def clamp01_bounds)

lemma percentile_interpolated:
  assumes "vs \<noteq> []" shows "percentile vs q = round_half_even (interpolated vs (position_of vs q))"
proof -
  have "0 \<le> \<lfloor>position_of vs q\<rfloor>" using position_bounds [OF assms, of q] by simp
  then have nat: "of_nat (nat \<lfloor>position_of vs q\<rfloor>) = (of_int \<lfloor>position_of vs q\<rfloor> :: rat)" by simp
  show ?thesis
  proof (cases "length vs = 1")
    case True
    then show ?thesis by (cases vs) (simp_all add: percentile_def interpolated_def position_of_def)
  next
    case False
    then have "percentile vs q = (let position = position_of vs q; low = nat \<lfloor>position\<rfloor>; high = nat \<lceil>position\<rceil>
        in if low = high then vs ! low
           else round_half_even (of_int (vs ! low) + of_int (vs ! high - vs ! low) * (position - of_nat low)))"
      using assms unfolding percentile_def position_of_def by (simp only: if_False)
    then show ?thesis using nat by (simp add: interpolated_def Let_def)
  qed
qed

lemma sorted_nth_nat: "sorted vs \<Longrightarrow> a \<le> b \<Longrightarrow> nat b < length vs \<Longrightarrow> vs ! nat a \<le> vs ! nat b" for vs :: "int list"
  by (rule sorted_nth_mono) auto

lemma interpolated_between:
  assumes "sorted vs" and "0 \<le> x" and "nat \<lceil>x\<rceil> < length vs"
  shows "of_int (vs ! nat \<lfloor>x\<rfloor>) \<le> interpolated vs x" "interpolated vs x \<le> of_int (vs ! nat \<lceil>x\<rceil>)"
proof -
  have "vs ! nat \<lfloor>x\<rfloor> \<le> vs ! nat \<lceil>x\<rceil>"
    using assms by (intro sorted_nth_nat) (simp_all add: floor_le_ceiling)
  then have g: "0 \<le> (of_int (vs ! nat \<lceil>x\<rceil> - vs ! nat \<lfloor>x\<rfloor>) :: rat)" by simp
  have f: "0 \<le> x - of_int \<lfloor>x\<rfloor>" "x - of_int \<lfloor>x\<rfloor> \<le> 1" by linarith+
  show "of_int (vs ! nat \<lfloor>x\<rfloor>) \<le> interpolated vs x" using g f(1) by (simp add: interpolated_def)
  show "interpolated vs x \<le> of_int (vs ! nat \<lceil>x\<rceil>)"
    using mult_left_mono [OF f(2) g] by (simp add: interpolated_def)
qed

lemma interpolated_mono:
  assumes s: "sorted vs" and x: "0 \<le> x" "x \<le> y" and y: "nat \<lceil>y\<rceil> < length vs"
  shows "interpolated vs x \<le> interpolated vs y"
proof (cases "\<lfloor>x\<rfloor> = \<lfloor>y\<rfloor>")
  case False
  then have "\<lceil>x\<rceil> \<le> \<lfloor>y\<rfloor>" using x(2) by linarith
  then have "vs ! nat \<lceil>x\<rceil> \<le> vs ! nat \<lfloor>y\<rfloor>"
    using s y by (intro sorted_nth_nat) (auto intro: le_less_trans [rotated] simp: nat_mono floor_le_ceiling)
  moreover have "nat \<lceil>x\<rceil> < length vs" using x y by (meson ceiling_mono le_less_trans nat_mono)
  ultimately show ?thesis
    using interpolated_between [OF s, of x] interpolated_between [OF s, of y] x y
    by (meson of_int_le_iff order_trans)
next
  case True
  show ?thesis
  proof (cases "x = of_int \<lfloor>x\<rfloor>")
    case int: True
    then have "interpolated vs x = of_int (vs ! nat \<lfloor>y\<rfloor>)" using True by (simp add: interpolated_def)
    then show ?thesis using interpolated_between(1) [OF s, of y] x y by simp
  next
    case False
    then have c: "\<lceil>x\<rceil> = \<lfloor>x\<rfloor> + 1" by linarith
    have "y \<noteq> of_int \<lfloor>y\<rfloor>" using False True x(2) by linarith
    then have "\<lceil>y\<rceil> = \<lfloor>y\<rfloor> + 1" by linarith
    with c True have same: "\<lceil>x\<rceil> = \<lceil>y\<rceil>" by simp
    have "vs ! nat \<lfloor>y\<rfloor> \<le> vs ! nat \<lceil>y\<rceil>" using s y by (intro sorted_nth_nat) (simp_all add: floor_le_ceiling)
    then have "0 \<le> (of_int (vs ! nat \<lceil>y\<rceil> - vs ! nat \<lfloor>y\<rfloor>) :: rat)" by simp
    from mult_left_mono [OF _ this, of "x - of_int \<lfloor>x\<rfloor>" "y - of_int \<lfloor>y\<rfloor>"] show ?thesis
      using x(2) True same by (simp add: interpolated_def)
  qed
qed

lemma percentile_mono:
  assumes "sorted vs" and "vs \<noteq> []" and "p \<le> q"
  shows "percentile vs p \<le> percentile vs q"
proof -
  have "clamp01 p \<le> clamp01 q" using assms(3) by (auto simp: clamp01_def)
  then have "position_of vs p \<le> position_of vs q" by (simp add: position_of_def mult_right_mono)
  moreover have "nat \<lceil>position_of vs q\<rceil> < length vs"
  proof -
    have "\<lceil>position_of vs q\<rceil> \<le> int (length vs - 1)"
      using position_bounds [OF assms(2), of q] by (simp add: ceiling_le_iff)
    then show ?thesis using assms(2) by (cases vs) auto
  qed
  ultimately have "interpolated vs (position_of vs p) \<le> interpolated vs (position_of vs q)"
    using assms(1) position_bounds [OF assms(2), of p] by (intro interpolated_mono) simp_all
  then show ?thesis using assms(2) by (simp add: percentile_interpolated round_half_even_mono)
qed

lemma percentile_ends:
  assumes "vs \<noteq> []" shows "percentile vs 0 = hd vs" "percentile vs 1 = last vs"
proof -
  have c: "clamp01 0 = 0" "clamp01 1 = 1" by (simp_all add: clamp01_def)
  have "nat \<lfloor>of_nat (length vs - 1) :: rat\<rfloor> = length vs - 1" "nat \<lceil>of_nat (length vs - 1) :: rat\<rceil> = length vs - 1"
    by simp_all
  then show "percentile vs 0 = hd vs" "percentile vs 1 = last vs"
    using assms by (simp_all add: percentile_interpolated interpolated_def position_of_def c hd_conv_nth last_conv_nth)
qed

lemma sorted_ends:
  fixes vs :: "int list"
  assumes "sorted vs" and "vs \<noteq> []" shows "hd vs = Min (set vs)" "last vs = Max (set vs)"
proof -
  show "hd vs = Min (set vs)" using assms by (cases vs) (auto intro!: Min_eqI [symmetric])
  have "x \<le> last vs" if "x \<in> set vs" for x
    using that assms by (auto simp: in_set_conv_nth last_conv_nth intro!: sorted_nth_mono)
  then show "last vs = Max (set vs)" using assms(2) by (auto intro!: Max_eqI [symmetric])
qed

text \<open>
  The estimates of a ring with valid samples: the median is at most the 95th percentile, both lie between
  the fastest and the slowest sample, whatever the order of the samples, and the confidence grows with
  their number. An empty ring answers the rounded fallback.
\<close>

theorem latency_estimate_bounds:
  assumes "ring \<noteq> []" and "\<forall>x\<in>set ring. 0 \<le> sample_latency_ms x"
  shows "let r = compute_latency_estimate ring fallback; latencies = sample_latency_ms ` set ring in
     Min latencies \<le> p50_latency_ms r \<and> p50_latency_ms r \<le> p95_latency_ms r \<and> p95_latency_ms r \<le> Max latencies \<and>
     (estimate_confidence r = ''high'' \<longleftrightarrow> 20 \<le> length ring) \<and>
     (\<forall>other. mset other = mset ring \<longrightarrow> compute_latency_estimate other fallback = r)"
proof -
  let ?vs = "sort (map sample_latency_ms ring)"
  have same: "filter (\<lambda>v. 0 \<le> v) (sort (map (\<lambda>x. to_non_negative_int (Some (sample_latency_ms x)) (- 1)) xs)) =
      sort (map sample_latency_ms xs)" if "\<forall>x\<in>set xs. 0 \<le> sample_latency_ms x" for xs
  proof -
    have "map (\<lambda>x. to_non_negative_int (Some (sample_latency_ms x)) (- 1)) xs = map sample_latency_ms xs"
      using that by (auto simp: to_non_negative_int_def)
    then show ?thesis using that by (simp only:) (auto intro!: filter_True)
  qed
  have ne: "?vs \<noteq> []" using assms(1) by (metis length_0_conv length_map length_sort)
  have e: "compute_latency_estimate xs fallback = \<lparr>p50_latency_ms = percentile (sort (map sample_latency_ms xs)) (1 / 2),
      p95_latency_ms = percentile (sort (map sample_latency_ms xs)) (95 / 100),
      estimate_confidence = (if 20 \<le> length xs then ''high'' else if 5 \<le> length xs then ''medium'' else ''low'')\<rparr>"
    if "\<forall>x\<in>set xs. 0 \<le> sample_latency_ms x" "xs \<noteq> []" for xs
  proof -
    have "length (sort (map sample_latency_ms xs)) = length xs" "length xs \<noteq> 0" using that(2) by simp_all
    then show ?thesis using that by (simp only: compute_latency_estimate_def same Let_def if_False)
  qed
  have ends: "hd ?vs = Min (set ?vs)" "last ?vs = Max (set ?vs)" by (rule sorted_ends [OF sorted_sort ne])+
  have "Min (set ?vs) \<le> percentile ?vs (1 / 2)" "percentile ?vs (95 / 100) \<le> Max (set ?vs)"
    using percentile_mono [OF sorted_sort ne, of 0 "1 / 2"] percentile_mono [OF sorted_sort ne, of "95 / 100" 1]
      percentile_ends [OF ne] ends by simp_all
  moreover have "percentile ?vs (1 / 2) \<le> percentile ?vs (95 / 100)" by (rule percentile_mono [OF sorted_sort ne]) simp
  moreover have "compute_latency_estimate other fallback = compute_latency_estimate ring fallback" if m: "mset other = mset ring" for other
  proof -
    have "set other = set ring" "length other = length ring" "other \<noteq> []"
      using m assms(1) by (metis set_mset_mset, metis size_mset, metis mset_zero_iff)
    moreover have "sort (map sample_latency_ms other) = ?vs"
      using m by (intro properties_for_sort) (simp_all add: mset_map)
    ultimately show ?thesis using assms by (simp add: e)
  qed
  ultimately show ?thesis using assms by (simp add: e Let_def)
qed

definition sample_ring :: "ring_sample list" where
  "sample_ring = map (\<lambda>n. \<lparr>sample_latency_ms = n, sample_price_cents = 5\<rparr>) [30, 10, 20]"

lemma latency_estimate_bounds_witness: "p95_latency_ms (compute_latency_estimate sample_ring 0) \<le> 30"
proof -
  have "sample_ring \<noteq> []" "\<forall>x\<in>set sample_ring. 0 \<le> sample_latency_ms x" by (simp_all add: sample_ring_def)
  from latency_estimate_bounds [OF this, of 0]
  have "p95_latency_ms (compute_latency_estimate sample_ring 0) \<le> Max (sample_latency_ms ` set sample_ring)"
    unfolding Let_def by (elim conjE)
  also have "\<dots> = 30" by (simp add: sample_ring_def)
  finally show ?thesis .
qed

section \<open>The ring keeps the last calls\<close>

lemma last_n_length [simp]: "length (last_n n xs) = min n (length xs)"
  by (simp add: last_n_def)

lemma last_n_all [simp]: "length xs \<le> n \<Longrightarrow> last_n n xs = xs"
  by (simp add: last_n_def)

lemma last_n_idem [simp]: "last_n n (last_n n xs) = last_n n xs"
  by (simp add: last_n_def)

lemma last_n_snoc: "last_n (Suc n) (xs @ [x]) = last_n n xs @ [x]"
  by (simp add: last_n_def)

lemma last_n_last_n_snoc: "last_n n (last_n n xs @ [x]) = last_n n (xs @ [x])"
proof (cases "n = 0 \<or> length xs \<le> n")
  case True
  then show ?thesis by (auto simp: last_n_def)
next
  case False
  then have "Suc (length xs - n) = Suc (length xs) - n" by linarith
  then show ?thesis using False by (simp add: last_n_def)
qed

definition valid_sample :: "ring_sample \<Rightarrow> bool" where
  "valid_sample x \<longleftrightarrow> 0 \<le> sample_latency_ms x \<and> 0 \<le> sample_price_cents x"

lemma ring_item_valid: "ring_item item = Some x \<Longrightarrow> valid_sample x"
  by (auto simp: ring_item_def valid_sample_def Let_def split: if_splits)

lemma set_last_n: "set (last_n n xs) \<subseteq> set xs"
  by (simp add: last_n_def set_drop_subset)

lemma normalize_valid: "x \<in> set (normalize_call_ring raw) \<Longrightarrow> valid_sample x"
  by (cases raw) (auto simp: normalize_call_ring_def List.map_filter_def ring_item_valid dest!: subsetD [OF set_last_n])

lemma new_sample_valid: "valid_sample (new_sample latency price)"
  by (simp add: valid_sample_def new_sample_def to_non_negative_int_def)

lemma normalize_ring_json:
  assumes "\<forall>x\<in>set ring. valid_sample x"
  shows "normalize_call_ring (ring_json ring) = last_n CALL_RING_LIMIT ring"
proof -
  have "List.map_filter ring_item (map (\<lambda>x. JObj [(''latency_ms'', JNum (of_int (sample_latency_ms x))),
      (''price_cents'', JNum (of_int (sample_price_cents x)))]) xs) = xs" if "\<forall>x\<in>set xs. valid_sample x" for xs
    using that by (induction xs)
      (auto simp: List.map_filter_simps ring_item_def ring_int_def to_non_negative_int_def valid_sample_def)
  then show ?thesis using assms by (simp add: normalize_call_ring_def ring_json_def)
qed

text \<open>
  C35. Storing and reading back. What a sample is appended to is read back, after the JSON round trip, as the
  last 200 of the valid samples, the new one at the end; so whatever the column held before, a sequence of
  calls leaves exactly the last 200 of them, each with a latency and a price that are no debts.
\<close>

theorem call_ring_roundtrip:
  "normalize_call_ring (fold (\<lambda>(l, p) raw. append_call_ring_sample raw l p) calls raw) =
     last_n CALL_RING_LIMIT (normalize_call_ring raw @ map (\<lambda>(l, p). new_sample l p) calls) \<and>
   set (normalize_call_ring raw) \<subseteq> {x. valid_sample x}"
proof -
  have one: "normalize_call_ring (append_call_ring_sample raw l p) =
      last_n CALL_RING_LIMIT (normalize_call_ring raw @ [new_sample l p])" for raw l p
  proof -
    have "\<forall>x\<in>set (last_n CALL_RING_LIMIT (normalize_call_ring raw @ [new_sample l p])). valid_sample x"
      using normalize_valid new_sample_valid by (auto dest!: subsetD [OF set_last_n])
    then show ?thesis by (simp add: append_call_ring_sample_def normalize_ring_json)
  qed
  have lim: "last_n CALL_RING_LIMIT (normalize_call_ring raw) = normalize_call_ring raw" for raw
    by (simp add: normalize_call_ring_def split: json.split)
  have "normalize_call_ring (fold (\<lambda>(l, p) raw. append_call_ring_sample raw l p) calls raw) =
     last_n CALL_RING_LIMIT (normalize_call_ring raw @ map (\<lambda>(l, p). new_sample l p) calls)"
  proof (induction calls rule: rev_induct)
    case Nil
    then show ?case by (simp add: lim)
  next
    case (snoc c calls)
    then show ?case
      by (cases c) (simp add: one last_n_last_n_snoc flip: append_assoc)
  qed
  then show ?thesis using normalize_valid by blast
qed

section \<open>A decay sweep\<close>

text \<open>
  The two sweeps share their shape: read the active agents, compute for each one whether it decays, and
  write the new value with the time. The interface is what they need of the write.
\<close>

locale decay_writer =
  fixes stamp :: "env \<Rightarrow> string \<Rightarrow> rat \<Rightarrow> (db, unit) prog"
    and stamped :: "env \<Rightarrow> rat \<Rightarrow> agent_row \<Rightarrow> agent_row"
  assumes wp_stamp: "\<forall>r\<in>set (agent_rows d). agent_check r \<Longrightarrow>
      wp (stamp e a v) Q E d =
      Q () (d\<lparr>agent_rows := update_rows (\<lambda>r. listed_agent_id r = a) (stamped e v) (agent_rows d), tx_failed := False\<rparr>)"
    and stamped_id: "listed_agent_id (stamped e v r) = listed_agent_id r"
    and stamped_check: "agent_check (stamped e v r) = agent_check r"
begin

definition swept_row :: "env \<Rightarrow> (agent_row \<times> int \<Rightarrow> rat option) \<Rightarrow> (agent_row \<times> int) list \<Rightarrow> agent_row \<Rightarrow> agent_row" where
  "swept_row e decayed rows r =
     (case map_of rows r of
        None \<Rightarrow> r
      | Some t \<Rightarrow> (case decayed (r, t) of None \<Rightarrow> r | Some v \<Rightarrow> stamped e v r))"

lemma wp_sweep_rows:
  assumes "distinct (map listed_agent_id (agent_rows d))" and "\<forall>r\<in>set (agent_rows d). agent_check r"
    and "distinct (map fst rows)" and "fst ` set rows \<subseteq> set (agent_rows d)" and "\<not> tx_failed d"
  shows "wp (count_each rows (\<lambda>x. case decayed x of
          None \<Rightarrow> ret False
        | Some v \<Rightarrow> bindE (stamp e (listed_agent_id (fst x)) v) (\<lambda>_. ret True)))
     (\<lambda>n d'. n = length (filter (\<lambda>x. decayed x \<noteq> None) rows) \<and>
             d' = d\<lparr>agent_rows := map (swept_row e decayed rows) (agent_rows d)\<rparr>) (\<lambda>_ _. False) d"
  using assms
proof (induction rows arbitrary: d)
  case Nil
  then show ?case by (simp add: wp_ret swept_row_def)
next
  case (Cons x rows)
  obtain r t where x: "x = (r, t)" by (cases x)
  have new: "r \<notin> fst ` set rows" "map_of rows r = None" using Cons.prems(3) x by (auto simp: map_of_eq_None_iff)
  show ?case
  proof (cases "decayed x")
    case None
    have "map (swept_row e decayed (x # rows)) (agent_rows d) = map (swept_row e decayed rows) (agent_rows d)"
      using None x new by (auto simp: swept_row_def)
    then show ?thesis using None Cons.IH [of d] Cons.prems
      by (auto simp: wp_bindE wp_ret elim!: wp_post_mono)
  next
    case (Some v)
    let ?d = "d\<lparr>agent_rows := update_rows (\<lambda>i. listed_agent_id i = listed_agent_id r) (stamped e v) (agent_rows d)\<rparr>"
    have r: "r \<in> set (agent_rows d)" using Cons.prems(4) x by auto
    have only: "i = r" if "i \<in> set (agent_rows d)" "listed_agent_id i = listed_agent_id r" for i
      using that r Cons.prems(1) by (auto simp: distinct_map inj_on_def)
    have fresh: "stamped e v r \<notin> fst ` set rows"
    proof
      assume s: "stamped e v r \<in> fst ` set rows"
      then have "stamped e v r \<in> set (agent_rows d)" using Cons.prems(4) by auto
      then have "stamped e v r = r" using stamped_id by (intro only)
      then show False using s new(1) by simp
    qed
    have keys: "map listed_agent_id (agent_rows ?d) = map listed_agent_id (agent_rows d)"
      by (simp add: map_update_rows_same stamped_id)
    have rest: "fst ` set rows \<subseteq> set (agent_rows ?d)"
    proof
      fix i assume i: "i \<in> fst ` set rows"
      then have "i \<in> set (agent_rows d)" "i \<noteq> r" using Cons.prems(4) new(1) by auto
      then have "listed_agent_id i \<noteq> listed_agent_id r" using only by blast
      then show "i \<in> set (agent_rows ?d)" using \<open>i \<in> set (agent_rows d)\<close> by (simp add: in_update_rows)
    qed
    have ck: "\<forall>i\<in>set (agent_rows ?d). agent_check i"
      using Cons.prems(2) by (simp add: ball_update_rows stamped_check)
    have same: "map (swept_row e decayed rows) (agent_rows ?d) = map (swept_row e decayed (x # rows)) (agent_rows d)"
      using Some x new fresh only
      by (auto simp: update_rows_def swept_row_def map_of_eq_None_iff [THEN iffD2])
    have clean: "?d\<lparr>tx_failed := False\<rparr> = ?d" using Cons.prems(5) by simp
    from Cons.prems(1,3,5) keys have "distinct (map listed_agent_id (agent_rows ?d))" "distinct (map fst rows)"
      "\<not> tx_failed ?d" by simp_all
    from Cons.IH [OF this(1) ck this(2) rest this(3)] show ?thesis
      using Cons.prems(2) Some x clean same
      by (simp add: wp_bindE wp_stamp wp_ret) (erule wp_post_mono; simp add: wp_ret)
  qed
qed

lemma wp_sweep:
  assumes "distinct (map listed_agent_id (agent_rows d))" and "\<forall>r\<in>set (agent_rows d). agent_check r"
  shows "wp (decay_sweep e decayed (stamp e))
     (\<lambda>report d'. decayed_agents report = length (filter (\<lambda>x. decayed x \<noteq> None) (decay_rows d)) \<and>
        d' = d\<lparr>agent_rows := map (swept_row e decayed (decay_rows d)) (agent_rows d), tx_failed := False\<rparr>)
     (\<lambda>_ _. False) d"
proof -
  let ?d = "d\<lparr>tx_failed := False\<rparr>"
  have rows: "decay_rows ?d = decay_rows d" by (simp add: decay_rows_def last_completed_of_def)
  have "map fst (decay_rows d) = filter (\<lambda>r. listing_status r = ''active'') (agent_rows d)"
    by (simp add: decay_rows_def comp_def)
  moreover have "distinct (agent_rows d)" using assms(1) by (simp add: distinct_map)
  ultimately have "distinct (map fst (decay_rows d))" "fst ` set (decay_rows d) \<subseteq> set (agent_rows ?d)"
    by (simp_all flip: set_map)
  from wp_sweep_rows [OF _ _ this, of e decayed] assms
  have "wp (count_each (decay_rows d) (\<lambda>x. case decayed x of
          None \<Rightarrow> ret False
        | Some v \<Rightarrow> bindE (stamp e (listed_agent_id (fst x)) v) (\<lambda>_. ret True)))
     (\<lambda>n d'. n = length (filter (\<lambda>x. decayed x \<noteq> None) (decay_rows d)) \<and>
        d' = ?d\<lparr>agent_rows := map (swept_row e decayed (decay_rows d)) (agent_rows d)\<rparr>) (\<lambda>_ _. False) ?d"
    by simp
  then show ?thesis
    by (simp add: decay_sweep_def wp_bindE wp_transact wp_select pg_failed_def rows) (erule wp_post_mono; simp add: wp_ret)
qed

end

text \<open>A rule that does not fire again on the row it just stamped.\<close>

locale decay_rule = decay_writer +
  fixes decayed :: "env \<Rightarrow> agent_row \<times> int \<Rightarrow> rat option"
  assumes settled: "decayed e (r, t) = Some v \<Longrightarrow> decayed e (stamped e v r, t) = None"
    and stamped_listing: "listing_status (stamped e v r) = listing_status r"
    and stamped_created: "agent_created_at (stamped e v r) = agent_created_at r"
begin

definition decayed_row :: "env \<Rightarrow> db \<Rightarrow> agent_row \<Rightarrow> agent_row" where
  "decayed_row e d = swept_row e (decayed e) (decay_rows d)"

lemma map_of_decay_rows:
  assumes "r \<in> set (agent_rows d)"
  shows "map_of (decay_rows d) r = (if listing_status r = ''active''
     then Some (case last_completed_of (listed_agent_id r) d of None \<Rightarrow> agent_created_at r | Some t \<Rightarrow> t) else None)"
proof -
  have "map_of (map (\<lambda>r. (r, f r)) rs) r = (if r \<in> set rs then Some (f r) else None)" for f :: "agent_row \<Rightarrow> int" and rs
    by (induction rs) auto
  then show ?thesis using assms by (simp add: decay_rows_def)
qed

lemma decayed_row_simps:
  "listed_agent_id (decayed_row e d r) = listed_agent_id r"
  "agent_check (decayed_row e d r) = agent_check r"
  "listing_status (decayed_row e d r) = listing_status r"
  "agent_created_at (decayed_row e d r) = agent_created_at r"
  by (auto simp: decayed_row_def swept_row_def stamped_id stamped_check stamped_listing stamped_created split: option.split)

lemma sweep_settles:
  assumes "d' = d\<lparr>agent_rows := map (decayed_row e d) (agent_rows d), tx_failed := False\<rparr>" and "x \<in> set (decay_rows d')"
  shows "decayed e x = None"
proof -
  have last: "last_completed_of a (d\<lparr>agent_rows := rs, tx_failed := b\<rparr>) = last_completed_of a d" for a rs b
    by (simp add: last_completed_of_def)
  obtain r where r: "r \<in> set (agent_rows d)" "listing_status r = ''active''"
    and x: "x = (decayed_row e d r, case last_completed_of (listed_agent_id r) d of None \<Rightarrow> agent_created_at r | Some t \<Rightarrow> t)"
    using assms(2) by (auto simp: decay_rows_def last assms(1) decayed_row_simps cong: option.case_cong)
  show ?thesis using settled x r map_of_decay_rows [OF r(1)]
    by (auto simp: decayed_row_def swept_row_def split: option.splits)
qed

lemma sweep_once:
  assumes "distinct (map listed_agent_id (agent_rows d))" and "\<forall>r\<in>set (agent_rows d). agent_check r"
  shows "wp (decay_sweep e (decayed e) (stamp e))
     (\<lambda>report d'. d' = d\<lparr>agent_rows := map (decayed_row e d) (agent_rows d), tx_failed := False\<rparr> \<and>
        wp (decay_sweep e (decayed e) (stamp e)) (\<lambda>report2 d2. decayed_agents report2 = 0 \<and> d2 = d') (\<lambda>_ _. False) d')
     (\<lambda>_ _. False) d"
proof (rule wp_post_mono [OF wp_sweep [OF assms]])
  fix report d'
  assume "decayed_agents report = length (filter (\<lambda>x. decayed e x \<noteq> None) (decay_rows d)) \<and>
    d' = d\<lparr>agent_rows := map (swept_row e (decayed e) (decay_rows d)) (agent_rows d), tx_failed := False\<rparr>"
  then have d': "d' = d\<lparr>agent_rows := map (decayed_row e d) (agent_rows d), tx_failed := False\<rparr>" by (simp add: decayed_row_def)
  have "map listed_agent_id (agent_rows d') = map listed_agent_id (agent_rows d)"
    by (simp add: d' decayed_row_simps)
  then have wf: "distinct (map listed_agent_id (agent_rows d'))" using assms(1) by metis
  have ck: "\<forall>r\<in>set (agent_rows d'). agent_check r" using assms(2) by (simp add: d' decayed_row_simps)
  have none: "decayed e x = None" if "x \<in> set (decay_rows d')" for x using sweep_settles [OF d' that] .
  have "swept_row e (decayed e) (decay_rows d') r = r" for r
    using none by (auto simp: swept_row_def dest: map_of_SomeD split: option.split)
  then have "d'\<lparr>agent_rows := map (swept_row e (decayed e) (decay_rows d')) (agent_rows d'), tx_failed := False\<rparr> = d'"
    by (simp add: d')
  moreover have "filter (\<lambda>x. decayed e x \<noteq> None) (decay_rows d') = []" using none by (simp add: filter_empty_conv)
  ultimately have "wp (decay_sweep e (decayed e) (stamp e)) (\<lambda>report2 d2. decayed_agents report2 = 0 \<and> d2 = d') (\<lambda>_ _. False) d'"
    by (intro wp_post_mono [OF wp_sweep [OF wf ck]]) auto
  then show "d' = d\<lparr>agent_rows := map (decayed_row e d) (agent_rows d), tx_failed := False\<rparr> \<and>
        wp (decay_sweep e (decayed e) (stamp e)) (\<lambda>report2 d2. decayed_agents report2 = 0 \<and> d2 = d') (\<lambda>_ _. False) d'"
    using d' by simp
qed simp

end

lemma wp_stamp_agents:
  assumes "\<forall>r\<in>set (agent_rows d). agent_check r" and "\<And>r. agent_check (f r) = agent_check r"
  shows "wp (transact (bindE (update_agents e p f) (\<lambda>_. ret ()))) Q E d =
     Q () (d\<lparr>agent_rows := update_rows p f (agent_rows d), tx_failed := False\<rparr>)"
  using assms by (simp add: wp_transact wp_bindE wp_update_stmt wp_ret pg_failed_def) (rule arg_cong [where f = "Q ()"]; simp)

interpretation latency_decay: decay_rule set_agent_latency_decay
  "\<lambda>e v r. r\<lparr>avg_latency_ms := max 0 v, latency_last_decay_at := Some (now e)\<rparr>" decayed_latency
  by unfold_locales
    (simp add: set_agent_latency_decay_def wp_stamp_agents agent_check_def,
     auto simp: agent_check_def decayed_latency_def idle_days_def Let_def split: if_splits option.splits)

interpretation reputation_decay: decay_rule set_agent_decay_multiplier
  "\<lambda>e v r. r\<lparr>trust_decay_multiplier := clamp01 (if v < 0 then 1 else v), last_decay_at := now e\<rparr>" decayed_multiplier
  by unfold_locales
    (simp add: set_agent_decay_multiplier_def wp_stamp_agents agent_check_def,
     auto simp: agent_check_def decayed_multiplier_def idle_days_def Let_def split: if_splits option.splits)

text \<open>
  The latency sweep decays each idle agent once. It rewrites exactly the active agents that were idle for a
  whole day past the grace period and whose average is above the floor, to a value below the old one and
  not below the floor, and nothing else; and run again at the same time it changes nothing.
\<close>

theorem latency_decay_sweeps_once:
  assumes "distinct (map listed_agent_id (agent_rows d))" and "\<forall>r\<in>set (agent_rows d). agent_check r"
  shows "wp (apply_latency_decay e)
     (\<lambda>report d'. (\<exists>f. d' = d\<lparr>agent_rows := map f (agent_rows d), tx_failed := False\<rparr> \<and>
          (\<forall>r. f r = r \<or> (listing_status r = ''active'' \<and> f r = r\<lparr>avg_latency_ms := avg_latency_ms (f r), latency_last_decay_at := Some (now e)\<rparr> \<and>
              LATENCY_DECAY_FLOOR_MS \<le> avg_latency_ms (f r) \<and> avg_latency_ms (f r) < avg_latency_ms r))) \<and>
        wp (apply_latency_decay e) (\<lambda>report2 d2. decayed_agents report2 = 0 \<and> d2 = d') (\<lambda>_ _. False) d')
     (\<lambda>_ _. False) d"
  unfolding apply_latency_decay_def
proof (rule wp_post_mono [OF latency_decay.sweep_once [OF assms]], goal_cases)
  case (1 report d')
  let ?f = "latency_decay.decayed_row e d"
  have "?f r = r \<or> (listing_status r = ''active'' \<and> ?f r = r\<lparr>avg_latency_ms := avg_latency_ms (?f r), latency_last_decay_at := Some (now e)\<rparr> \<and>
      LATENCY_DECAY_FLOOR_MS \<le> avg_latency_ms (?f r) \<and> avg_latency_ms (?f r) < avg_latency_ms r)" for r
  proof (cases "map_of (decay_rows d) r")
    case None
    then show ?thesis by (simp add: latency_decay.decayed_row_def latency_decay.swept_row_def)
  next
    case (Some t)
    then have "listing_status r = ''active''" by (auto simp: decay_rows_def dest!: map_of_SomeD)
    with Some show ?thesis
      by (cases "decayed_latency e (r, t)")
        (auto simp: latency_decay.decayed_row_def latency_decay.swept_row_def decayed_latency_def Let_def
          LATENCY_DECAY_FLOOR_MS_def split: if_splits)
  qed
  with 1 show ?case by blast
qed simp

definition sample_agent :: agent_row where
  "sample_agent = \<lparr>listed_agent_id = ''agent'', price_per_call_usd = 1, call_latency_ring = JArr [], avg_latency_ms = 100,
     total_calls = 25, successful_calls = 20, listing_status = ''active'', trust_decay_multiplier = 1,
     last_decay_at = 1600000000000000, agent_created_at = 1600000000000000, price_per_call_cents = Some 100,
     latency_last_decay_at = None, listed_owner_id = ''agent:bob'', endpoint_url = ''https://bob.dev/run'',
     endpoint_health_status = ''unknown'', endpoint_consecutive_failures = 0, endpoint_last_checked_at = None,
     endpoint_last_error = None, suspension_reason = None, review_status = ''approved'',
     pricing_model = ''fixed'', pricing_config = None\<rparr>"

lemma latency_decay_sweeps_once_witness:
  "wp (apply_latency_decay (sample_env SQLite))
     (\<lambda>_ d'. wp (apply_latency_decay (sample_env SQLite)) (\<lambda>report2 d2. decayed_agents report2 = 0 \<and> d2 = d') (\<lambda>_ _. False) d')
     (\<lambda>_ _. False) (sample_db\<lparr>agent_rows := [sample_agent]\<rparr>)"
  by (rule wp_post_mono [OF latency_decay_sweeps_once]) (simp_all add: sample_agent_def agent_check_def)

end
