(* ===== verification/Job_Events.thy ===== *)
theory Job_Events
  imports Jobs Json_Values
begin

text \<open>
  The event log of the jobs (\<open>_record_job_event\<close> of \<open>server/application_parts/part_003.py\<close>). What the event
  feeds afterwards, the web hooks and the live streams, is not modelled.
\<close>

definition next_event_number :: "db \<Rightarrow> nat" where
  "next_event_number d = Suc (fold max (map event_number (job_events d)) 0)"

definition new_event :: "env \<Rightarrow> nat \<Rightarrow> job \<Rightarrow> string \<Rightarrow> string option \<Rightarrow> (string \<times> json) list \<Rightarrow> job_event" where
  "new_event e k j kind actor payload =
     \<lparr>event_number = k, event_job_id = job_id j, event_agent_id = agent_id j, event_agent_owner_id = agent_owner_id j,
      event_caller_owner_id = caller_owner_id j, event_type = kind, event_actor_owner_id = actor,
      event_payload = JObj payload, event_created_at = now e\<rparr>"

definition insert_event :: "env \<Rightarrow> (nat \<Rightarrow> job_event) \<Rightarrow> (db, job_event) prog" where
  "insert_event e event =
     stmt e (\<lambda>d. let r = event (next_event_number d) in (Inr r, d\<lparr>job_events := job_events d @ [r]\<rparr>))"

definition record_job_event ::
  "env \<Rightarrow> job option \<Rightarrow> string \<Rightarrow> string option \<Rightarrow> (string \<times> json) list \<Rightarrow> (db, job_event option) prog" where
  "record_job_event e row kind actor payload =
     (case row of
        None \<Rightarrow> ret None
      | Some j \<Rightarrow> bindE (transact (insert_event e (\<lambda>k. new_event e k j kind actor payload))) (\<lambda>r. ret (Some r)))"

lemma wp_insert_event [wp_simps]:
  "wp (insert_event e event) Q E d =
     (if pg_failed e d then E InFailedSqlTransaction d
      else Q (event (next_event_number d)) (d\<lparr>job_events := job_events d @ [event (next_event_number d)]\<rparr>))"
  by (simp add: wp_def insert_event_def stmt_def Let_def)

text \<open>Recording an event never fails, and appends one event of that kind.\<close>

lemma wp_record_job_event:
  "wp (record_job_event e (Some j) kind actor payload) Q E d =
     (let r = new_event e (next_event_number d) j kind actor payload
      in Q (Some r) (d\<lparr>job_events := job_events d @ [r], tx_failed := False\<rparr>))"
  by (simp add: record_job_event_def wp_simps pg_failed_def Let_def next_event_number_def)
    (rule arg_cong [where f = "Q _"]; simp)

lemma keeps_record_job_event:
  assumes "flag_free P" and "\<And>d r. P d \<Longrightarrow> P (d\<lparr>job_events := job_events d @ [r]\<rparr>)"
  shows "keeps P (record_job_event e row kind actor payload)"
proof -
  have "keeps P (insert_event e event)" for event
    unfolding insert_event_def using assms by (intro keeps_stmt) (auto simp: Let_def)
  then show ?thesis
    unfolding record_job_event_def
    by (intro keeps_case_option keeps_ret keeps_bindE keeps_transact assms(1) keeps_ensures)
qed

end
