(* ===== verification/Agent_Health.thy ===== *)
theory Agent_Health
  imports Agent_Stats Job_Events
begin

text \<open>
  The health of an agent's endpoint: the counters that probes and live calls move and the suspensions
  they cause (\<open>core/registry/agents_ops.py\<close>), the monitor and the failure-rate sweep of
  \<open>server/application_parts/part_005.py\<close>. A probe is a parameter: it answers nothing for a healthy
  endpoint and the error text otherwise. Endpoints are ASCII texts without brackets.
\<close>

definition HEALTH_SUSPENSION_THRESHOLD :: int where "HEALTH_SUSPENSION_THRESHOLD = 5"
definition AUTO_SUSPEND_FAILURE_RATE_THRESHOLD :: rat where "AUTO_SUSPEND_FAILURE_RATE_THRESHOLD = 6 / 10"
definition AUTO_SUSPEND_MIN_CALLS :: int where "AUTO_SUSPEND_MIN_CALLS = 10"

section \<open>Status\<close>

definition read_agent :: "env \<Rightarrow> string \<Rightarrow> (db, agent_row option) prog" where
  "read_agent e agent = transact (select e (find_agent agent))"

definition set_agent_status :: "env \<Rightarrow> string \<Rightarrow> string \<Rightarrow> string option \<Rightarrow> (db, agent_row option) prog" where
  "set_agent_status e agent status why =
     (let normalized = py_lower (py_strip status) in
      if normalized \<notin> {''active'', ''suspended'', ''banned''}
      then throw (ValueError ''status must be one of: active, suspended, banned.'')
      else bindE (transact (update_agents e (\<lambda>r. listed_agent_id r = agent)
               (\<lambda>r. if normalized = ''suspended'' \<and> why \<noteq> None
                    then r\<lparr>listing_status := normalized, suspension_reason := map_option (take 500) why\<rparr>
                    else r\<lparr>listing_status := normalized\<rparr>))) (\<lambda>_.
        read_agent e agent))"

section \<open>Endpoint health\<close>

definition suspend_for_health :: "env \<Rightarrow> string \<Rightarrow> (db, nat) prog" where
  "suspend_for_health e agent =
     update_agents e (\<lambda>r. listed_agent_id r = agent \<and> listing_status r = ''active'')
       (\<lambda>r. r\<lparr>listing_status := ''suspended'', suspension_reason := Some ''health_check''\<rparr>)"

definition probed_row :: "string \<Rightarrow> int \<Rightarrow> int \<Rightarrow> string option \<Rightarrow> agent_row \<Rightarrow> agent_row" where
  "probed_row status failures checked_at err r =
     r\<lparr>endpoint_health_status := status, endpoint_consecutive_failures := failures,
       endpoint_last_checked_at := Some checked_at, endpoint_last_error := err\<rparr>"

definition set_agent_endpoint_health ::
  "env \<Rightarrow> string \<Rightarrow> string \<Rightarrow> int \<Rightarrow> int \<Rightarrow> string option \<Rightarrow> (db, agent_row option) prog" where
  "set_agent_endpoint_health e agent status failures checked_at err =
     (let normalized = py_lower (py_strip status);
          count = to_non_negative_int (Some failures) 0
      in if normalized \<notin> {''unknown'', ''healthy'', ''degraded''}
         then throw (ValueError ''endpoint_health_status must be one of: unknown, healthy, degraded.'')
         else bindE (transact
           (bindE (update_agents e (\<lambda>r. listed_agent_id r = agent)
                     (probed_row normalized count checked_at (none_if_empty (py_strip (or_empty err))))) (\<lambda>_.
            if HEALTH_SUSPENSION_THRESHOLD \<le> count then suspend_for_health e agent
            else if count = 0 then
              update_agents e (\<lambda>r. listed_agent_id r = agent \<and> listing_status r = ''suspended'' \<and>
                  suspension_reason r = Some ''health_check'')
                (\<lambda>r. r\<lparr>listing_status := ''active'', suspension_reason := None\<rparr>)
            else ret 0))) (\<lambda>_.
          read_agent e agent))"

definition failed_call_row :: "env \<Rightarrow> string option \<Rightarrow> agent_row \<Rightarrow> agent_row" where
  "failed_call_row e err r =
     probed_row ''degraded'' (endpoint_consecutive_failures r + 1) (now e)
       (map_option (take 500) (none_if_empty (py_strip (or_empty err)))) r"

definition record_call_endpoint_failure :: "env \<Rightarrow> string \<Rightarrow> string option \<Rightarrow> (db, agent_row option) prog" where
  "record_call_endpoint_failure e agent err =
     bindE (transact
       (bindE (update_agents e (\<lambda>r. listed_agent_id r = agent) (failed_call_row e err)) (\<lambda>_.
        bindE (select e (find_agent agent)) (\<lambda>row.
        case row of
          None \<Rightarrow> ret False
        | Some r \<Rightarrow>
            if HEALTH_SUSPENSION_THRESHOLD \<le> endpoint_consecutive_failures r
            then bindE (suspend_for_health e agent) (\<lambda>_. ret True) else ret True)))) (\<lambda>found.
     if found then read_agent e agent else ret None)"

section \<open>The monitor\<close>

text \<open>\<open>urlparse\<close>: scheme, network location and host name.\<close>

definition url_text :: "string \<Rightarrow> string" where
  "url_text s = filter (\<lambda>c. c \<notin> {CHR 0x09, CHR 0x0A, CHR 0x0D}) (dropWhile (\<lambda>c. (of_char c :: nat) \<le> 32) s)"

definition is_alpha :: "char \<Rightarrow> bool" where
  "is_alpha c \<longleftrightarrow> (let n = (of_char c :: nat) in (65 \<le> n \<and> n \<le> 90) \<or> (97 \<le> n \<and> n \<le> 122))"

definition scheme_char :: "char \<Rightarrow> bool" where
  "scheme_char c \<longleftrightarrow> is_alpha c \<or> (let n = (of_char c :: nat) in 48 \<le> n \<and> n \<le> 57) \<or> c \<in> set ''+-.''"

definition url_scheme :: "string \<Rightarrow> string \<times> string" where
  "url_scheme s =
     (let sc = takeWhile (\<lambda>c. c \<noteq> CHR '':'') s in
      if sc \<noteq> [] \<and> length sc < length s \<and> is_alpha (hd sc) \<and> list_all scheme_char sc
      then (py_lower sc, drop (Suc (length sc)) s) else ([], s))"

definition url_netloc :: "string \<Rightarrow> string" where
  "url_netloc s = (if prefix ''//'' s then takeWhile (\<lambda>c. c \<notin> set ''/?#'') (drop 2 s) else [])"

definition url_hostname :: "string \<Rightarrow> string" where
  "url_hostname netloc =
     py_lower (takeWhile (\<lambda>c. c \<noteq> CHR '':'') (rev (takeWhile (\<lambda>c. c \<noteq> CHR ''@'') (rev netloc))))"

definition should_monitor_agent_endpoint :: "agent_row \<Rightarrow> bool" where
  "should_monitor_agent_endpoint r =
     (let status = py_lower (py_strip (listing_status r));
          endpoint = py_strip (endpoint_url r);
          (scheme, rest) = url_scheme (url_text endpoint);
          netloc = url_netloc rest;
          host = py_lower (py_strip (url_hostname netloc))
      in if status \<in> {''banned'', ''suspended''} then False
         else if endpoint = [] then False
         else if prefix ''internal://'' endpoint then False
         else if host = ''example.com'' \<or> suffix ''.example.com'' host then False
         else if suffix ''.test'' host \<or> suffix ''.invalid'' host then False
         else scheme \<in> {''http'', ''https''} \<and> netloc \<noteq> [])"

text \<open>
  A pass lists the agents once, then probes and writes one after the other: each write is a transaction of its own, made
  from the row as it was listed. What the probe of the \<open>i\<close>-th agent answers, the clock at its write, and what others did to the
  database since the write before it are the pass's surroundings.
\<close>

record probe_world =
  probe_env :: env
  while_probing :: "db \<Rightarrow> db"
  probe_answer :: "string \<Rightarrow> string option"

record monitor_report =
  checks_scanned :: nat
  healthy_count :: nat
  degraded_count :: nat
  recovered_count :: nat
  degraded_agent_ids :: "string list"
  recovered_agent_ids :: "string list"

definition probed_failures :: "agent_row \<Rightarrow> string option \<Rightarrow> int" where
  "probed_failures r answer =
     (if answer = None then 0 else to_non_negative_int (Some (endpoint_consecutive_failures r)) 0 + 1)"

definition probed_status :: "int \<Rightarrow> agent_row \<Rightarrow> string option \<Rightarrow> string" where
  "probed_status threshold r answer =
     (if answer = None \<or> probed_failures r answer < threshold then ''healthy'' else ''degraded'')"

definition count_probe :: "int \<Rightarrow> agent_row \<Rightarrow> string option \<Rightarrow> monitor_report \<Rightarrow> monitor_report" where
  "count_probe threshold r answer report =
     (let was_degraded = (py_lower (py_strip (or_text (endpoint_health_status r) ''unknown'')) = ''degraded'');
          report = report\<lparr>checks_scanned := checks_scanned report + 1\<rparr>
      in if answer = None then
           let report = report\<lparr>healthy_count := healthy_count report + 1\<rparr>
           in if was_degraded
              then report\<lparr>recovered_count := recovered_count report + 1,
                          recovered_agent_ids := recovered_agent_ids report @ [listed_agent_id r]\<rparr>
              else report
         else if probed_status threshold r answer = ''degraded'' then
           let report = report\<lparr>degraded_count := degraded_count report + 1\<rparr>
           in if was_degraded then report
              else report\<lparr>degraded_agent_ids := degraded_agent_ids report @ [listed_agent_id r]\<rparr>
         else report)"

definition monitor_one :: "env \<Rightarrow> int \<Rightarrow> agent_row \<Rightarrow> string option \<Rightarrow> (db, unit) prog" where
  "monitor_one e threshold r answer =
     bindE (set_agent_endpoint_health e (listed_agent_id r) (probed_status threshold r answer) (probed_failures r answer)
              (now e) answer) (\<lambda>_. ret ())"

definition monitored_agents :: "int \<Rightarrow> db \<Rightarrow> agent_row list" where
  "monitored_agents limit d =
     take (nat limit) (filter should_monitor_agent_endpoint
       (sort_key agent_created_at (filter (\<lambda>r. review_status r \<noteq> ''sunset'') (agent_rows d))))"

definition list_monitored :: "env \<Rightarrow> int \<Rightarrow> (db, agent_row list) prog" where
  "list_monitored e limit = transact (select e (monitored_agents limit))"

definition others_act :: "probe_world \<Rightarrow> (db, unit) prog" where
  "others_act w = (\<lambda>d. (Inr (), while_probing w d))"

fun monitor_each ::
  "(nat \<Rightarrow> probe_world) \<Rightarrow> int \<Rightarrow> nat \<Rightarrow> agent_row list \<Rightarrow> monitor_report \<Rightarrow> (db, monitor_report) prog" where
  "monitor_each ws threshold i [] report = ret report"
| "monitor_each ws threshold i (r # rs) report =
     (let answer = probe_answer (ws i) (py_strip (endpoint_url r)) in
      bindE (others_act (ws i)) (\<lambda>_.
      bindE (monitor_one (probe_env (ws i)) threshold r answer) (\<lambda>_.
      monitor_each ws threshold (Suc i) rs (count_probe threshold r answer report))))"

definition monitor_agent_endpoints :: "env \<Rightarrow> (nat \<Rightarrow> probe_world) \<Rightarrow> int \<Rightarrow> int \<Rightarrow> (db, monitor_report) prog" where
  "monitor_agent_endpoints e ws limit threshold =
     bindE (list_monitored e limit) (\<lambda>agents.
     monitor_each ws threshold 0 agents \<lparr>checks_scanned = 0, healthy_count = 0, degraded_count = 0, recovered_count = 0,
       degraded_agent_ids = [], recovered_agent_ids = []\<rparr>)"

section \<open>Suspension for failures\<close>

definition failure_rate :: "agent_row \<Rightarrow> rat" where
  "failure_rate r = 1 - of_int (successful_calls r) / of_int (total_calls r)"

definition low_performing :: "string list \<Rightarrow> agent_row \<Rightarrow> bool" where
  "low_performing curated r \<longleftrightarrow>
     listing_status r = ''active'' \<and> AUTO_SUSPEND_MIN_CALLS \<le> total_calls r \<and> listed_agent_id r \<notin> set curated \<and>
     0 < total_calls r \<and> AUTO_SUSPEND_FAILURE_RATE_THRESHOLD < failure_rate r"

definition suspension_event :: "env \<Rightarrow> string \<Rightarrow> agent_row \<Rightarrow> nat \<Rightarrow> job_event" where
  "suspension_event e actor r k =
     \<lparr>event_number = k, event_job_id = ''agent:'' @ listed_agent_id r, event_agent_id = listed_agent_id r,
      event_agent_owner_id = or_text (listed_owner_id r) ''unknown'', event_caller_owner_id = ''system:sweeper'',
      event_type = ''agent_auto_suspended'', event_actor_owner_id = Some actor,
      event_payload = JObj [(''reason'', JStr ''failure_rate_threshold''),
        (''failure_rate'', JNum (of_int (round_half_even (failure_rate r * 10000)) / 10000)),
        (''total_calls'', JNum (of_int (total_calls r)))], event_created_at = now e\<rparr>"

definition auto_suspend_low_performing_agents :: "env \<Rightarrow> string list \<Rightarrow> string \<Rightarrow> (db, string list) prog" where
  "auto_suspend_low_performing_agents e curated actor = transact
     (bindE (select e (\<lambda>d. filter (low_performing curated) (agent_rows d))) (\<lambda>rows.
      bindE (for_each rows (\<lambda>r.
        bindE (update_agents e (\<lambda>i. listed_agent_id i = listed_agent_id r \<and> listing_status i = ''active'')
                 (\<lambda>i. i\<lparr>listing_status := ''suspended''\<rparr>)) (\<lambda>updated.
        whenE (0 < updated) (bindE (insert_event e (suspension_event e actor r)) (\<lambda>_. ret ()))))) (\<lambda>_.
      ret (map listed_agent_id rows))))"

section \<open>Who lifts a suspension\<close>

definition standing :: "string \<Rightarrow> string \<Rightarrow> string option \<Rightarrow> db \<Rightarrow> bool" where
  "standing a status why d \<longleftrightarrow> distinct (map listed_agent_id (agent_rows d)) \<and>
     (\<exists>r. find_agent a d = Some r \<and> listing_status r = status \<and> suspension_reason r = why)"

lemma flag_free_standing: "flag_free (standing a status why)"
  by (simp add: flag_free_def standing_def find_agent_def)

lemma keeps_standing_update:
  assumes id: "\<And>r. listed_agent_id (f r) = listed_agent_id r"
    and same: "\<And>r. listed_agent_id r = a \<Longrightarrow> p r \<Longrightarrow> listing_status r = status \<Longrightarrow> suspension_reason r = why \<Longrightarrow>
      listing_status (f r) = status \<and> suspension_reason (f r) = why"
  shows "keeps (standing a status why) (update_agents e p f)"
proof (rule keeps_update_stmt [OF flag_free_standing])
  fix d assume s: "standing a status why d"
  then obtain r where r: "find_agent a d = Some r" "listing_status r = status" "suspension_reason r = why"
    by (auto simp: standing_def)
  have "find (\<lambda>r. listed_agent_id r = a) (update_rows p f (agent_rows d)) = Some (if p r then f r else r)"
    using r(1) id by (simp add: find_agent_def find_update_same)
  moreover have "listed_agent_id r = a" using r(1) by (auto simp: find_agent_def dest: find_SomeD)
  ultimately show "standing a status why (d\<lparr>agent_rows := update_rows p f (agent_rows d)\<rparr>)"
    using s r same [of r] id by (auto simp: standing_def find_agent_def map_update_rows_same)
qed

lemma keeps_standing_transact: "ensures (standing a status why) m \<Longrightarrow> keeps (standing a status why) (transact m)"
  by (intro keeps_transact flag_free_standing)

lemma keeps_standing_read: "keeps (standing a status why) (read_agent e x)"
  unfolding read_agent_def by (intro keeps_standing_transact ensures_select)

lemma keeps_standing_suspend:
  "status \<noteq> ''active'' \<Longrightarrow> keeps (standing a status why) (suspend_for_health e x)"
  unfolding suspend_for_health_def by (rule keeps_standing_update) simp_all

lemma keeps_standing_probe:
  assumes "x \<noteq> a \<or> status \<noteq> ''suspended'' \<or> why \<noteq> Some ''health_check''" and "status \<noteq> ''active''"
  shows "keeps (standing a status why) (set_agent_endpoint_health e x health failures t err)"
  unfolding set_agent_endpoint_health_def Let_def using assms
  by (intro keeps_if keeps_throw keeps_bindE keeps_standing_read keeps_standing_transact ensures_bindE ensures_if ensures_ret
      keeps_ensures keeps_standing_suspend keeps_standing_update) (auto simp: probed_row_def)

lemma keeps_standing_live:
  assumes "status \<noteq> ''active''"
  shows "keeps (standing a status why) (record_call_endpoint_failure e x err)"
  unfolding record_call_endpoint_failure_def using assms
  by (intro keeps_if keeps_ret keeps_bindE keeps_standing_read keeps_standing_transact ensures_bindE ensures_if ensures_ret
      ensures_select ensures_case_option keeps_ensures keeps_standing_suspend keeps_standing_update)
    (auto simp: probed_row_def failed_call_row_def)

lemma keeps_standing_event: "keeps (standing a status why) (insert_event e event)"
  unfolding insert_event_def
  by (intro keeps_stmt flag_free_standing) (auto simp: Let_def standing_def find_agent_def)

lemma keeps_standing_sweep:
  assumes "status \<noteq> ''active''"
  shows "keeps (standing a status why) (auto_suspend_low_performing_agents e curated actor)"
  unfolding auto_suspend_low_performing_agents_def using assms
  by (intro keeps_standing_transact ensures_bindE ensures_select ensures_for_each ensures_whenE ensures_ret keeps_ensures
      keeps_standing_event keeps_standing_update) simp_all

lemma monitored_status:
  assumes "should_monitor_agent_endpoint r"
  shows "listing_status r \<notin> {''suspended'', ''banned''}"
proof -
  have "py_lower (py_strip (listing_status r)) \<notin> {''banned'', ''suspended''}"
    using assms unfolding should_monitor_agent_endpoint_def Let_def split_def by (simp split: if_splits)
  moreover have "py_lower (py_strip ''suspended'') = ''suspended''" "py_lower (py_strip ''banned'') = ''banned''"
    by (simp_all add: py_lower_def lower_char_def py_strip_def py_space_def)
  ultimately show ?thesis by auto
qed

lemma standing_not_monitored:
  assumes "standing a status why d" and "status \<in> {''suspended'', ''banned''}" and "x \<in> set (monitored_agents limit d)"
  shows "listed_agent_id x \<noteq> a"
proof
  assume "listed_agent_id x = a"
  have "x \<in> set (agent_rows d)" "should_monitor_agent_endpoint x"
    using assms(3) by (auto simp: monitored_agents_def dest!: in_set_takeD)
  with assms(1,2) \<open>listed_agent_id x = a\<close> have "listing_status x \<in> {''suspended'', ''banned''}"
    using find_distinct_key [of listed_agent_id "agent_rows d" x] by (auto simp: standing_def find_agent_def)
  then show False using monitored_status [OF \<open>should_monitor_agent_endpoint x\<close>] by blast
qed

text \<open>
  Everything the platform does by itself about the health of agents, as steps on the database and the rows that the passes of
  the monitor have listed and not yet written: a pass starts with its list, writes the outcome of one probe at a time and may
  break off; live calls fail and the failure-rate sweep runs in between.
\<close>

inductive health_step :: "db \<times> agent_row multiset \<Rightarrow> db \<times> agent_row multiset \<Rightarrow> bool" where
  Start: "list_monitored e limit d = (Inr agents, d') \<Longrightarrow> health_step (d, pend) (d', pend + mset agents)"
| Write: "r \<in># pend \<Longrightarrow> monitor_one e threshold r answer d = (u, d') \<Longrightarrow> health_step (d, pend) (d', pend - {#r#})"
| BreakOff: "pend' \<subseteq># pend \<Longrightarrow> health_step (d, pend) (d, pend')"
| LiveFailure: "record_call_endpoint_failure e x err d = (s, d') \<Longrightarrow> health_step (d, pend) (d', pend)"
| Sweep: "auto_suspend_low_performing_agents e curated actor d = (ids, d') \<Longrightarrow> health_step (d, pend) (d', pend)"

abbreviation health_run :: "db \<times> agent_row multiset \<Rightarrow> db \<times> agent_row multiset \<Rightarrow> bool" where
  "health_run \<equiv> health_step\<^sup>*\<^sup>*"

lemma keeps_outcome: "keeps P m \<Longrightarrow> m d = (x, d') \<Longrightarrow> P d \<Longrightarrow> P d'"
  using keepsD [of P m d] by simp

definition secure :: "string \<Rightarrow> string \<Rightarrow> string option \<Rightarrow> agent_row multiset \<Rightarrow> bool" where
  "secure a status why pend \<longleftrightarrow> status \<noteq> ''suspended'' \<or> why \<noteq> Some ''health_check'' \<or> (\<forall>r\<in>#pend. listed_agent_id r \<noteq> a)"

lemma health_step_standing:
  assumes "health_step s s'" and st: "status \<in> {''suspended'', ''banned''}"
    and "standing a status why (fst s)" and "secure a status why (snd s)"
  shows "standing a status why (fst s') \<and> secure a status why (snd s')"
  using assms(1,3,4)
proof (induction rule: health_step.induct)
  case (Start e limit d agents d' pend)
  have d': "agents = monitored_agents limit d" "d' = d\<lparr>tx_failed := False\<rparr>"
    using Start.hyps by (auto simp: list_monitored_def op_defs monitored_agents_def Let_def split: if_splits)
  then show ?case
    using Start.prems standing_not_monitored [OF _ st, of a why d] flag_freeD [OF flag_free_standing]
    by (auto simp: secure_def)
next
  case (Write r pend e threshold answer d u d')
  have "keeps (standing a status why) (monitor_one e threshold r answer)"
    unfolding monitor_one_def using Write st
    by (intro keeps_bindE keeps_ret keeps_standing_probe) (auto simp: secure_def)
  then show ?case using Write by (auto simp: secure_def elim: keeps_outcome dest: in_diffD)
next
  case (BreakOff pend' pend d)
  then show ?case by (auto simp: secure_def dest: mset_subset_eqD)
next
  case (LiveFailure e x err d r d' pend)
  have "status \<noteq> ''active''" using st by auto
  then show ?case using LiveFailure keeps_outcome [OF keeps_standing_live] by auto
next
  case (Sweep e curated actor d ids d' pend)
  have "status \<noteq> ''active''" using st by auto
  then show ?case using Sweep keeps_outcome [OF keeps_standing_sweep] by auto
qed

lemma health_run_standing:
  assumes "health_run s s'" and "status \<in> {''suspended'', ''banned''}"
    and "standing a status why (fst s)" and "secure a status why (snd s)"
  shows "standing a status why (fst s') \<and> secure a status why (snd s')"
  using assms by (induction rule: rtranclp_induct) (auto dest: health_step_standing)

text \<open>A whole pass is such a run, when what others do while it probes is one.\<close>

lemma monitor_each_run:
  assumes "\<And>i d p. health_run (d, p) (while_probing (ws i) d, p)"
  shows "monitor_each ws threshold i agents report d = (n, d') \<Longrightarrow> health_run (d, p + mset agents) (d', p)"
proof (induction agents arbitrary: i report d)
  case Nil
  then show ?case by (simp add: ret_def)
next
  case (Cons r rs)
  let ?answer = "probe_answer (ws i) (py_strip (endpoint_url r))" and ?d1 = "while_probing (ws i) d"
  obtain u d2 where u: "monitor_one (probe_env (ws i)) threshold r ?answer ?d1 = (u, d2)" by (cases "monitor_one (probe_env (ws i)) threshold r ?answer ?d1")
  have "health_step (?d1, p + mset (r # rs)) (d2, p + mset (r # rs) - {#r#})"
    by (rule health_step.Write [OF _ u]) simp
  then have one: "health_run (d, p + mset (r # rs)) (d2, p + mset rs)"
    using assms [of d "p + mset (r # rs)" i] by (auto intro: rtranclp.rtrancl_into_rtrancl)
  show ?case
  proof (cases u)
    case (Inl ex)
    then have "d' = d2" using Cons.prems u by (simp add: Let_def bindE_def others_act_def)
    moreover have "health_step (d2, p + mset rs) (d2, p)" by (rule health_step.BreakOff) simp
    ultimately show ?thesis using one by (auto intro: rtranclp.rtrancl_into_rtrancl)
  next
    case (Inr x)
    then have "monitor_each ws threshold (Suc i) rs (count_probe threshold r ?answer report) d2 = (n, d')"
      using Cons.prems u by (simp add: Let_def bindE_def others_act_def)
    from Cons.IH [OF this] show ?thesis using one by (rule rtranclp_trans [rotated])
  qed
qed

lemma monitor_pass_run:
  assumes "\<And>i d p. health_run (d, p) (while_probing (ws i) d, p)"
    and "monitor_agent_endpoints e ws limit threshold d = (n, d')"
  shows "health_run (d, p) (d', p)"
proof -
  obtain agents d1 where l: "list_monitored e limit d = (Inr agents, d1)"
    by (simp add: list_monitored_def op_defs Let_def)
  then have "health_step (d, p) (d1, p + mset agents)" by (rule health_step.Start)
  moreover have "health_run (d1, p + mset agents) (d', p)"
    using assms(2) by (intro monitor_each_run [OF assms(1)]) (simp_all add: monitor_agent_endpoints_def bindE_def l)
  ultimately show ?thesis by (rule converse_rtranclp_into_rtranclp)
qed


definition sample_suspended :: agent_row where
  "sample_suspended = sample_agent\<lparr>listing_status := ''suspended'', suspension_reason := Some ''health_check''\<rparr>"


text \<open>
  The exception is real. When an agent that a pass has listed is suspended for its health before the pass writes it, by the live
  calls that fail in between, and its probe had found it healthy, the write makes it active again with no failures on its counter.
\<close>

theorem stale_probe_reinstates:
  assumes "find_agent a d = Some s" and "listing_status s = ''suspended''" and "suspension_reason s = Some ''health_check''"
    and "\<forall>r\<in>set (agent_rows d). agent_check r" and "listed_agent_id r = a"
  shows "wp (monitor_one e threshold r None)
     (\<lambda>_ d'. \<exists>s'. find_agent a d' = Some s' \<and> listing_status s' = ''active'' \<and> suspension_reason s' = None \<and>
        endpoint_consecutive_failures s' = 0) (\<lambda>_ _. False) d"
proof -
  let ?f = "probed_row ''healthy'' 0 (now e) None" and ?g = "\<lambda>r. r\<lparr>listing_status := ''active'', suspension_reason := None\<rparr>"
  let ?p = "\<lambda>r. listed_agent_id r = a \<and> listing_status r = ''suspended'' \<and> suspension_reason r = Some ''health_check''"
  let ?rows = "update_rows (\<lambda>r. listed_agent_id r = a) ?f (agent_rows d)"
  have id: "listed_agent_id s = a" using assms(1) by (auto simp: find_agent_def dest: find_SomeD)
  have healthy: "py_lower (py_strip ''healthy'') = ''healthy''"
    by (simp add: py_lower_def lower_char_def py_strip_def py_space_def)
  have none: "none_if_empty (py_strip (or_empty None)) = None" by (simp add: or_empty_def py_strip_def none_if_empty_def)
  have found: "find (\<lambda>r. listed_agent_id r = a) ?rows = Some (?f s)"
    using assms(1) id by (simp add: find_agent_def find_update_same probed_row_def)
  have found2: "find (\<lambda>r. listed_agent_id r = a) (update_rows ?p ?g ?rows) = Some (?g (?f s))"
    by (subst find_update_same) (use found id assms(2,3) in \<open>simp_all add: probed_row_def\<close>)
  have ck: "\<forall>r\<in>set (agent_rows d). listed_agent_id r = a \<longrightarrow> agent_check (?f r)" "\<forall>r\<in>set ?rows. ?p r \<longrightarrow> agent_check (?g r)"
    using assms(4) by (auto simp: ball_update_rows agent_check_def probed_row_def)
  show ?thesis
    using assms(5) found2 ck
    by (simp add: monitor_one_def set_agent_endpoint_health_def probed_status_def probed_failures_def healthy none to_non_negative_int_def
        HEALTH_SUSPENSION_THRESHOLD_def read_agent_def find_agent_def wp_simps pg_failed_def Let_def)
      (simp add: probed_row_def)
qed

lemma stale_probe_reinstates_witness:
  "wp (monitor_one (sample_env Postgres) 3 sample_agent None)
     (\<lambda>_ d'. \<exists>s. find_agent ''agent'' d' = Some s \<and> listing_status s = ''active'') (\<lambda>_ _. False)
     (sample_db\<lparr>agent_rows := [sample_suspended]\<rparr>)"
  by (rule wp_post_mono [OF stale_probe_reinstates [of "''agent''" _ sample_suspended]])
    (auto simp: find_agent_def sample_suspended_def sample_agent_def agent_check_def)

section \<open>Live failures suspend\<close>

text \<open>Consecutive calls that failed for the agent's infrastructure, each with its time and error text.\<close>

fun live_failures :: "(env \<times> string option) list \<Rightarrow> string \<Rightarrow> (db, unit) prog" where
  "live_failures [] a = ret ()"
| "live_failures (c # cs) a = bindE (record_call_endpoint_failure (fst c) a (snd c)) (\<lambda>_. live_failures cs a)"

lemma wp_live_failure:
  assumes r: "find_agent a d = Some r" and ck: "\<forall>r\<in>set (agent_rows d). agent_check r"
  shows "wp (record_call_endpoint_failure e a err)
     (\<lambda>_ d'. (\<forall>r\<in>set (agent_rows d'). agent_check r) \<and> (\<exists>s. find_agent a d' = Some s \<and>
        endpoint_consecutive_failures s = endpoint_consecutive_failures r + 1 \<and> endpoint_health_status s = ''degraded'' \<and>
        listing_status s = (if HEALTH_SUSPENSION_THRESHOLD \<le> endpoint_consecutive_failures s \<and> listing_status r = ''active''
           then ''suspended'' else listing_status r))) (\<lambda>_ _. False) d"
proof -
  have id: "listed_agent_id r = a" using r by (auto simp: find_agent_def dest: find_SomeD)
  have found: "find (\<lambda>r. listed_agent_id r = a) (update_rows (\<lambda>r. listed_agent_id r = a) (failed_call_row e err) (agent_rows d)) =
      Some (failed_call_row e err r)"
    using r id by (simp add: find_agent_def find_update_same failed_call_row_def probed_row_def)
  have ck2: "\<forall>r\<in>set (update_rows (\<lambda>r. listed_agent_id r = a) (failed_call_row e err) (agent_rows d)). agent_check r"
    using ck by (simp add: ball_update_rows agent_check_def failed_call_row_def probed_row_def)
  let ?rows = "update_rows (\<lambda>r. listed_agent_id r = a) (failed_call_row e err) (agent_rows d)"
  let ?g = "\<lambda>r. r\<lparr>listing_status := ''suspended'', suspension_reason := Some ''health_check''\<rparr>"
  let ?p = "\<lambda>r. listed_agent_id r = a \<and> listing_status r = ''active''"
  have found2: "find (\<lambda>r. listed_agent_id r = a) (update_rows ?p ?g ?rows) =
      Some (if ?p (failed_call_row e err r) then ?g (failed_call_row e err r) else failed_call_row e err r)"
    using found by (simp add: find_update_same)
  have ck1: "\<forall>i\<in>set (agent_rows d). listed_agent_id i = a \<longrightarrow> agent_check (failed_call_row e err i)"
    "\<forall>i\<in>set ?rows. ?p i \<longrightarrow> agent_check (?g i)" "\<forall>i\<in>set (update_rows ?p ?g ?rows). agent_check i"
    using ck ck2 by (auto simp: agent_check_def failed_call_row_def probed_row_def ball_update_rows)
  have s: "endpoint_consecutive_failures (failed_call_row e err r) = endpoint_consecutive_failures r + 1"
    "endpoint_health_status (failed_call_row e err r) = ''degraded''" "listing_status (failed_call_row e err r) = listing_status r"
    "listed_agent_id (failed_call_row e err r) = a"
    using id by (simp_all add: failed_call_row_def probed_row_def)
  show ?thesis
    using ck1 ck2 found found2 s
    by (auto simp: record_call_endpoint_failure_def suspend_for_health_def read_agent_def wp_simps pg_failed_def find_agent_def)
qed

text \<open>
  The circuit breaker. After any positive number of consecutive infrastructure failures of live calls an
  active agent has that many more failures on its counter and is degraded, and it is suspended exactly
  when the counter has reached the threshold.
\<close>

theorem live_failures_suspend:
  assumes "find_agent a d = Some r" and "\<forall>r\<in>set (agent_rows d). agent_check r" and "listing_status r = ''active''"
    and "0 \<le> endpoint_consecutive_failures r" and "endpoint_consecutive_failures r < HEALTH_SUSPENSION_THRESHOLD" and "calls \<noteq> []"
  shows "wp (live_failures calls a)
     (\<lambda>_ d'. \<exists>s. find_agent a d' = Some s \<and> endpoint_health_status s = ''degraded'' \<and>
        endpoint_consecutive_failures s = endpoint_consecutive_failures r + int (length calls) \<and>
        (listing_status s = ''suspended'' \<longleftrightarrow> HEALTH_SUSPENSION_THRESHOLD \<le> endpoint_consecutive_failures r + int (length calls)))
     (\<lambda>_ _. False) d"
proof -
  have *: "wp (live_failures calls a)
     (\<lambda>_ d'. \<exists>s. find_agent a d' = Some s \<and> (calls \<noteq> [] \<or> endpoint_health_status r = ''degraded'' \<longrightarrow> endpoint_health_status s = ''degraded'') \<and>
        endpoint_consecutive_failures s = endpoint_consecutive_failures r + int (length calls) \<and>
        listing_status s = (if HEALTH_SUSPENSION_THRESHOLD \<le> endpoint_consecutive_failures s then ''suspended'' else ''active''))
     (\<lambda>_ _. False) d"
    if "find_agent a d = Some r" "\<forall>r\<in>set (agent_rows d). agent_check r"
      "listing_status r = (if HEALTH_SUSPENSION_THRESHOLD \<le> endpoint_consecutive_failures r then ''suspended'' else ''active'')" for r d
    using that
  proof (induction calls arbitrary: d r)
    case Nil
    then show ?case by (simp add: wp_ret)
  next
    case (Cons c cs)
    show ?case
      unfolding live_failures.simps wp_bindE
    proof (rule wp_post_mono [OF wp_live_failure [OF Cons.prems(1,2)]], goal_cases)
      case (1 u d')
      then obtain s where s: "\<forall>r\<in>set (agent_rows d'). agent_check r" "find_agent a d' = Some s"
        "endpoint_consecutive_failures s = endpoint_consecutive_failures r + 1" "endpoint_health_status s = ''degraded''"
        "listing_status s = (if HEALTH_SUSPENSION_THRESHOLD \<le> endpoint_consecutive_failures s \<and> listing_status r = ''active''
           then ''suspended'' else listing_status r)" by blast
      then have "listing_status s = (if HEALTH_SUSPENSION_THRESHOLD \<le> endpoint_consecutive_failures s then ''suspended'' else ''active'')"
        using Cons.prems(3) by (auto split: if_splits)
      from Cons.IH [OF s(2,1) this] show ?case
        by (rule wp_post_mono) (use s in auto)
    qed simp
  qed
  show ?thesis
    by (rule wp_post_mono [OF * [OF assms(1,2)]]) (use assms in auto)
qed

lemma live_failures_suspend_witness:
  "wp (live_failures (replicate 5 (sample_env Postgres, Some ''agent.endpoint_unreachable'')) ''agent'')
     (\<lambda>_ d'. \<exists>s. find_agent ''agent'' d' = Some s \<and> listing_status s = ''suspended'') (\<lambda>_ _. False)
     (sample_db\<lparr>agent_rows := [sample_agent]\<rparr>)"
  by (rule wp_post_mono [OF live_failures_suspend [of "''agent''" _ sample_agent]])
    (auto simp: find_agent_def sample_agent_def agent_check_def HEALTH_SUSPENSION_THRESHOLD_def)

end
