(* ===== verification/Job_Settlement.thy ===== *)
theory Job_Settlement
  imports Settlement Trust_Disputes Leases Dispute_Cases Agent_Health
begin

text \<open>
  How the server settles a job (\<open>server/application_parts/part_005.py\<close>): the payout of a successful job, the
  refund of a failed one with the cascade to its children, and the failing of all open jobs of an agent.
  The parsed payout curve of an agent is a parameter; mails to the parties are left out.
\<close>

section \<open>Helpers\<close>

definition current_job :: "env \<Rightarrow> job \<Rightarrow> (db, job) prog" where
  "current_job e j = bindE (get_job e (job_id j)) (\<lambda>row. ret (case row of None \<Rightarrow> j | Some k \<Rightarrow> k))"

definition job_latency_ms :: "job \<Rightarrow> rat" where
  "job_latency_ms j =
     (case completed_at j of None \<Rightarrow> 0 | Some t \<Rightarrow> max 0 (of_int (t - created_at j) / 1000))"

definition server_verification_status :: "job \<Rightarrow> string" where
  "server_verification_status j =
     (let status = py_lower (py_strip (output_verification_status j)) in
      if status \<in> {''pending'', ''accepted'', ''rejected'', ''expired''} then status else ''not_required'')"

definition effective_dispute_window_seconds :: "env \<Rightarrow> job \<Rightarrow> int" where
  "effective_dispute_window_seconds e j =
     (let hours = to_non_negative_int (Some (dispute_window_hours j)) (DEFAULT_JOB_DISPUTE_WINDOW_HOURS e);
          hours = (if hours < 1 then DEFAULT_JOB_DISPUTE_WINDOW_HOURS e else hours)
      in min (hours * 3600) (DISPUTE_FILE_WINDOW_SECONDS e))"

definition dispute_window_deadline :: "env \<Rightarrow> job \<Rightarrow> int option" where
  "dispute_window_deadline e j =
     map_option (\<lambda>t. t + effective_dispute_window_seconds e j * micros_per_second) (completed_at j)"

definition is_dispute_window_open :: "env \<Rightarrow> job \<Rightarrow> bool" where
  "is_dispute_window_open e j = (case dispute_window_deadline e j of None \<Rightarrow> False | Some t \<Rightarrow> now e \<le> t)"

definition INFRA_FAILURE_CODES :: "string list" where
  "INFRA_FAILURE_CODES = [''agent.endpoint_misconfigured'', ''agent.endpoint_unreachable'', ''agent.tool_unavailable'',
     ''agent.not_configured'', ''agent.upstream_timeout'', ''agent.runtime_unavailable'']"

fun failure_code :: "json option \<Rightarrow> string" where
  "failure_code (Some (JObj kvs)) =
     (case json_get (JObj kvs) ''error'' of
        Some (JObj err) \<Rightarrow> py_strip (or_empty (json_text (json_get (JObj err) ''code'')))
      | _ \<Rightarrow> [])"
| "failure_code _ = []"

definition is_infra_failure :: "job \<Rightarrow> bool" where
  "is_infra_failure j \<longleftrightarrow> failure_code (output_payload j) \<in> set INFRA_FAILURE_CODES \<or>
     list_ex (\<lambda>token. sublist token (or_empty (error_message j))) INFRA_FAILURE_CODES"

section \<open>A successful job\<close>

text \<open>The payout, and once per job the statistics of the agent and the trust of a human caller.\<close>

definition count_success :: "env \<Rightarrow> job \<Rightarrow> (db, unit) prog" where
  "count_success e j =
     bindE (update_call_stats e (agent_id j) (job_latency_ms j) True (Some (price_cents j))) (\<lambda>_.
     whenE (prefix ''user:'' (py_strip (caller_owner_id j)))
       (catchE (bindE (adjust_caller_trust_once (uuids_from 8 e) (py_strip (caller_owner_id j)) (1 / 1000)
                         ''job_settled_clean'' (job_id j)) (\<lambda>_. ret ()))
          (\<lambda>_. ret ())))"

definition pay_successful_job :: "env \<Rightarrow> (string \<Rightarrow> (string \<times> rat) list option) \<Rightarrow> job \<Rightarrow> (db, bool) prog" where
  "pay_successful_job e curve_of j =
     bindE (read_agent e (agent_id j)) (\<lambda>agent.
     bindE (post_call_payout e (agent_wallet_id j) (platform_wallet_id j) (charge_tx_id j) (price_cents j) (agent_id j)
              (Some (platform_fee_pct_at_create j)) (Some (fee_bearer_policy j)) (Some (job_id j))
              (Some (dispute_window_hours j)) (case agent of None \<Rightarrow> None | Some _ \<Rightarrow> curve_of (agent_id j))) (\<lambda>_.
     bindE (mark_settled e (job_id j)) (\<lambda>newly_settled.
     bindE (whenE newly_settled (count_success e j)) (\<lambda>_.
     ret newly_settled))))"

definition settle_successful_job ::
  "env \<Rightarrow> (string \<Rightarrow> (string \<times> rat) list option) \<Rightarrow> job \<Rightarrow> string \<Rightarrow> bool \<Rightarrow> (db, job) prog" where
  "settle_successful_job e curve_of row actor require_dispute_window_expiry =
     bindE (initialize_output_verification_state e (job_id row)) (\<lambda>refreshed.
     let j = (case refreshed of None \<Rightarrow> row | Some k \<Rightarrow> k) in
     bindE (has_dispute_for_job e (job_id j)) (\<lambda>disputed.
     if disputed \<or> server_verification_status j \<in> {''pending'', ''rejected''} \<or>
        (REQUIRE_VERIFICATION e \<and> require_dispute_window_expiry \<and> is_dispute_window_open e j)
     then current_job e j
     else
       bindE (if settled_at j = None then pay_successful_job e curve_of j else ret False) (\<lambda>newly_settled.
       bindE (current_job e j) (\<lambda>settled.
       bindE (whenE newly_settled
                (bindE (record_job_event e (Some settled) ''job.settled'' (Some actor)
                          [(''status'', JStr (status_text (job_state settled))), (''settled_at'', time_json (settled_at settled))])
                   (\<lambda>_. ret ()))) (\<lambda>_.
       ret settled)))))"

section \<open>A failed job\<close>

definition refund_failed_job :: "env \<Rightarrow> job \<Rightarrow> rat \<Rightarrow> (db, unit) prog" where
  "refund_failed_job e j refund_fraction =
     (let fraction = clamp01 refund_fraction in
      if 1 \<le> fraction
      then post_call_refund e (caller_wallet_id j) (charge_tx_id j)
             (if caller_charge_cents j = 0 then price_cents j else caller_charge_cents j) (agent_id j)
      else post_call_partial_settle e (caller_wallet_id j) (agent_wallet_id j) (platform_wallet_id j) (charge_tx_id j)
             (price_cents j) fraction (agent_id j) (Some (platform_fee_pct_at_create j)) (Some (fee_bearer_policy j))
             (Some (caller_charge_cents j)))"

text \<open>A failure of the infrastructure moves the circuit breaker instead of the statistics.\<close>

definition count_failure :: "env \<Rightarrow> job \<Rightarrow> (db, unit) prog" where
  "count_failure e j =
     (if is_infra_failure j
      then catchE (bindE (record_call_endpoint_failure e (agent_id j) (Some (or_empty (error_message j)))) (\<lambda>_. ret ()))
             (\<lambda>_. ret ())
      else update_call_stats e (agent_id j) (job_latency_ms j) False (Some (price_cents j)))"

definition settle_refund :: "env \<Rightarrow> job \<Rightarrow> rat \<Rightarrow> (db, bool) prog" where
  "settle_refund e j fraction =
     (if settled_at j \<noteq> None then ret False
      else
        bindE (refund_failed_job e j fraction) (\<lambda>_.
        bindE (mark_settled e (job_id j)) (\<lambda>newly_settled.
        bindE (whenE newly_settled (count_failure e j)) (\<lambda>_.
        ret newly_settled))))"

definition no_signature :: output_signature_args where
  "no_signature = \<lparr>sg_signature = None, sg_alg = None, sg_did = None, sg_at = None\<rparr>"

text \<open>
  \<open>update_job_status(..., "failed", completed=True)\<close> and the settlement of the row it returns, as the
  cascade, the sweeper and the ban of an agent do it; \<open>settle\<close> is the settlement of a failed job.
\<close>

definition fail_and_settle ::
  "env \<Rightarrow> (job \<Rightarrow> (db, job) prog) \<Rightarrow> string \<Rightarrow> string \<Rightarrow> (db, job option) prog" where
  "fail_and_settle e settle job msg =
     bindE (update_job_status e job ''failed'' None (Some msg) True no_signature) (\<lambda>updated.
     case updated of None \<Rightarrow> ret None | Some k \<Rightarrow> bindE (settle k) (\<lambda>settled. ret (Some settled)))"

definition cascades :: "job \<Rightarrow> bool" where
  "cascades child \<longleftrightarrow>
     or_text (py_lower (py_strip (parent_cascade_policy child))) ''detach'' = ''fail_children_on_parent_fail''"

definition cascade_fail_active_child_jobs :: "env \<Rightarrow> (env \<Rightarrow> job \<Rightarrow> (db, job) prog) \<Rightarrow> job \<Rightarrow> (db, unit) prog" where
  "cascade_fail_active_child_jobs e settle parent =
     bindE (list_child_jobs e (Some (job_id parent)) (Some [''pending'', ''running'', ''awaiting_clarification'']) 500) (\<lambda>children.
     for_each (enumerate 0 (filter cascades children)) (\<lambda>(i, child).
       bindE (fail_and_settle e (settle (uuids_round 8 i e)) (job_id child)
                (''Parent job '' @ job_id parent @ '' failed; child was cascaded.'')) (\<lambda>_. ret ())))"

text \<open>
  The settlement of a failed job settles its children, which settle theirs: the first argument is the
  depth of the interpreter's stack that is left, in calls.
\<close>

fun settle_failed_job :: "nat \<Rightarrow> env \<Rightarrow> job \<Rightarrow> string \<Rightarrow> string \<Rightarrow> rat \<Rightarrow> (db, job) prog" where
  "settle_failed_job 0 e j actor kind fraction = throw (RuntimeError ''maximum recursion depth exceeded'')"
| "settle_failed_job (Suc depth) e j actor kind fraction =
     bindE (settle_refund e j fraction) (\<lambda>newly_settled.
     bindE (current_job e j) (\<lambda>settled.
     bindE (whenE newly_settled
              (bindE (record_job_event e (Some settled) kind (Some actor)
                        [(''status'', JStr (status_text (job_state settled))), (''error_message'', text_json (error_message settled))])
                 (\<lambda>_. ret ()))) (\<lambda>_.
     bindE (whenE (job_state settled = Failed)
              (cascade_fail_active_child_jobs e
                 (\<lambda>e' k. settle_failed_job depth e' k actor ''job.failed_parent_cascade'' 1) settled)) (\<lambda>_.
     ret settled))))"

section \<open>The open jobs of an agent\<close>

record fail_report =
  affected_jobs :: nat
  refunded_jobs :: nat

fun fail_each :: "(nat \<Rightarrow> env) \<Rightarrow> (env \<Rightarrow> job \<Rightarrow> (db, job) prog) \<Rightarrow> string \<Rightarrow> nat \<Rightarrow> job list \<Rightarrow> (db, fail_report) prog" where
  "fail_each env_of settle why i [] = ret \<lparr>affected_jobs = 0, refunded_jobs = 0\<rparr>"
| "fail_each env_of settle why i (j # js) =
     bindE (fail_and_settle (env_of i) (settle (env_of i)) (job_id j) why) (\<lambda>settled.
     bindE (fail_each env_of settle why (Suc i) js) (\<lambda>rest.
     ret (case settled of
            None \<Rightarrow> rest
          | Some k \<Rightarrow> \<lparr>affected_jobs = Suc (affected_jobs rest),
              refunded_jobs = (if settled_at k = None then refunded_jobs rest else Suc (refunded_jobs rest))\<rparr>)))"

definition add_reports :: "fail_report \<Rightarrow> fail_report \<Rightarrow> fail_report" where
  "add_reports a b = \<lparr>affected_jobs = affected_jobs a + affected_jobs b, refunded_jobs = refunded_jobs a + refunded_jobs b\<rparr>"

definition fail_open_in_status ::
  "nat \<Rightarrow> env \<Rightarrow> string \<Rightarrow> string \<Rightarrow> string \<Rightarrow> nat \<times> string \<Rightarrow> (db, fail_report) prog" where
  "fail_open_in_status depth e agent actor why pass =
     bindE (list_jobs_for_agent e agent 500 (Some (snd pass)) None None) (\<lambda>open_jobs.
     fail_each (\<lambda>i. uuids_round 0 i (uuids_round 0 (fst pass) e))
       (\<lambda>e' k. settle_failed_job depth e' k actor ''job.failed_agent_banned'' 1) why 0 open_jobs)"

definition fail_open_jobs_for_agent :: "nat \<Rightarrow> env \<Rightarrow> string \<Rightarrow> string \<Rightarrow> string \<Rightarrow> (db, fail_report) prog" where
  "fail_open_jobs_for_agent depth e agent actor why =
     bindE (fail_open_in_status depth e agent actor why (0, ''pending'')) (\<lambda>a.
     bindE (fail_open_in_status depth e agent actor why (1, ''running'')) (\<lambda>b.
     bindE (fail_open_in_status depth e agent actor why (2, ''awaiting_clarification'')) (\<lambda>c.
     ret (add_reports a (add_reports b c)))))"

end
