(* ===== verification/Failure_Cascade.thy ===== *)
theory Failure_Cascade
  imports Job_Settlement Lease_Safety
begin

text \<open>
  What the failure of a job does to its descendants: the settlement of a failed job with a full refund
  always returns, and no job below it that should fall with it stays open.
\<close>

section \<open>Open jobs and the tree of jobs\<close>

definition open_status :: "job \<Rightarrow> bool" where
  "open_status j \<longleftrightarrow> job_state j \<in> {Pending, Running, AwaitingClarification}"

definition open_ids :: "db \<Rightarrow> string set" where
  "open_ids d = {x. \<exists>j. find_job x d = Some j \<and> open_status j}"

definition open_children :: "string \<Rightarrow> db \<Rightarrow> string set" where
  "open_children p d = {x. \<exists>j. find_job x d = Some j \<and> open_status j \<and> parent_job_id j = Some p}"

definition childless :: "string \<Rightarrow> db \<Rightarrow> bool" where
  "childless p d \<longleftrightarrow>
     (\<forall>x j. find_job x d = Some j \<longrightarrow> parent_job_id j = Some p \<longrightarrow> cascades j \<longrightarrow> \<not> open_status j)"

text \<open>
  The tables satisfy their checks, an open job has no completion stamp, identifiers are clean texts, and
  no parent has more open children than one listing returns.
\<close>

definition checked_tables :: "db \<Rightarrow> bool" where
  "checked_tables d \<longleftrightarrow> (\<forall>j\<in>set (jobs d). job_check j) \<and> (\<forall>w\<in>set (wallets d). wallet_check w) \<and>
     (\<forall>r\<in>set (agent_rows d). agent_check r) \<and> (\<forall>r\<in>set (job_caller_escrow d). 0 < escrow_amount_cents r)"

definition cascade_ready :: "db \<Rightarrow> bool" where
  "cascade_ready d \<longleftrightarrow> checked_tables d \<and> distinct (map job_id (jobs d)) \<and>
     (\<forall>j\<in>set (jobs d). clean_optional_text (Some (job_id j)) = Some (job_id j)) \<and>
     (\<forall>x\<in>open_ids d. \<forall>j. find_job x d = Some j \<longrightarrow> completed_at j = None) \<and> (\<forall>p. card (open_children p d) \<le> 500)"

definition closed_row :: "job \<Rightarrow> bool" where
  "closed_row j \<longleftrightarrow> job_state j = Failed \<and> completed_at j \<noteq> None"

text \<open>A job keeps its place in the tree, and its standing unless it was open and is closed now.\<close>

definition moved :: "job \<Rightarrow> job \<Rightarrow> bool" where
  "moved a b \<longleftrightarrow> parent_job_id b = parent_job_id a \<and> parent_cascade_policy b = parent_cascade_policy a \<and>
     (settled_at a \<noteq> None \<longrightarrow> settled_at b = settled_at a) \<and>
     (job_state b = job_state a \<and> completed_at b = completed_at a \<or> open_status a \<and> closed_row b)"

definition moves :: "db \<Rightarrow> db \<Rightarrow> bool" where
  "moves d d' \<longleftrightarrow> map job_id (jobs d') = map job_id (jobs d) \<and>
     (\<forall>x a. find_job x d = Some a \<longrightarrow> (\<exists>b. find_job x d' = Some b \<and> moved a b))"

lemma moved_trans: "moved a b \<Longrightarrow> moved b c \<Longrightarrow> moved a c"
  by (auto simp: moved_def closed_row_def open_status_def)

lemma moves_refl [simp]: "moves d d"
  by (simp add: moves_def moved_def)

lemma moves_trans: "moves d d1 \<Longrightarrow> moves d1 d2 \<Longrightarrow> moves d d2"
  unfolding moves_def by (metis moved_trans)

lemma moves_jobs: "jobs d1 = jobs d \<Longrightarrow> jobs d2 = jobs d' \<Longrightarrow> moves d1 d2 = moves d d'"
  by (simp add: moves_def find_job_def)

lemma find_job_ids: "map job_id (jobs d') = map job_id (jobs d) \<Longrightarrow> find_job x d' = None \<longleftrightarrow> find_job x d = None"
  by (metis (mono_tags, lifting) find_None_iff find_job_def image_iff list.set_map)

lemma moves_back:
  assumes "moves d d'" and "find_job x d' = Some b"
  shows "\<exists>a. find_job x d = Some a \<and> moved a b"
proof -
  obtain a where "find_job x d = Some a" using assms find_job_ids [of d' d x] by (cases "find_job x d") (auto simp: moves_def)
  with assms show ?thesis by (fastforce simp: moves_def)
qed

lemma moves_open_ids: "moves d d' \<Longrightarrow> open_ids d' \<subseteq> open_ids d"
  using moves_back [of d d'] by (fastforce simp: open_ids_def moved_def closed_row_def open_status_def)

lemma moves_open_children: "moves d d' \<Longrightarrow> open_children p d' \<subseteq> open_children p d"
  using moves_back [of d d'] by (fastforce simp: open_children_def moved_def closed_row_def open_status_def)

lemma moves_find: "moves d d' \<Longrightarrow> find_job x d = Some a \<Longrightarrow> \<exists>b. find_job x d' = Some b \<and> moved a b"
  by (simp add: moves_def)

lemma moves_childless:
  assumes "moves d d'" and "childless p d"
  shows "childless p d'"
  unfolding childless_def
proof (intro allI impI)
  fix x b assume b: "find_job x d' = Some b" "parent_job_id b = Some p" "cascades b"
  then obtain a where a: "find_job x d = Some a" "moved a b" using moves_back [OF assms(1)] by blast
  then have "parent_job_id a = Some p" "cascades a" using b by (auto simp: moved_def cascades_def)
  then have "\<not> open_status a" using assms(2) a by (auto simp: childless_def)
  with a show "\<not> open_status b" by (auto simp: moved_def open_status_def)
qed

lemma finite_open_ids [simp]: "finite (open_ids d)"
proof (rule finite_subset)
  show "open_ids d \<subseteq> set (map job_id (jobs d))" using find_job_id by (fastforce simp: open_ids_def)
qed simp

lemma finite_open_children [simp]: "finite (open_children p d)"
  by (rule finite_subset [OF _ finite_open_ids [of d]]) (auto simp: open_children_def open_ids_def)

lemma cascade_ready_moves:
  assumes "cascade_ready d" and "moves d d'" and "checked_tables d'"
  shows "cascade_ready d'"
proof -
  have ids: "map job_id (jobs d') = map job_id (jobs d)" using assms(2) by (simp add: moves_def)
  have "completed_at b = None" if b: "find_job x d' = Some b" "x \<in> open_ids d'" for x b
  proof -
    obtain a where a: "find_job x d = Some a" "moved a b" using moves_back [OF assms(2) b(1)] by blast
    have "open_status b" using b by (auto simp: open_ids_def)
    then have "open_status a" "completed_at b = completed_at a" using a by (auto simp: moved_def closed_row_def open_status_def)
    moreover have "x \<in> open_ids d" using a calculation by (auto simp: open_ids_def)
    ultimately show ?thesis using a assms(1) by (auto simp: cascade_ready_def)
  qed
  moreover have "card (open_children p d') \<le> 500" for p
    using card_mono [OF finite_open_children moves_open_children [OF assms(2), of p]] assms(1)
    by (meson cascade_ready_def order_trans)
  moreover have "clean_optional_text (Some (job_id j)) = Some (job_id j)" if "j \<in> set (jobs d')" for j
  proof -
    have "job_id j \<in> set (map job_id (jobs d))" unfolding ids [symmetric] using that by simp
    then show ?thesis using assms(1) by (auto simp: cascade_ready_def)
  qed
  ultimately show ?thesis using assms(1,3) ids by (auto simp: cascade_ready_def)
qed

section \<open>The settlement of one failed job\<close>

definition refunded_row :: "env \<Rightarrow> job \<Rightarrow> job" where
  "refunded_row e i = i\<lparr>settled_at := Some (now e)\<rparr>"

lemma wp_refund_entry:
  assumes "checked_tables d" and "\<not> tx_failed d"
  shows "wp (insert_tx e k wid kind amount agent related m key) (\<lambda>_ d'. checked_tables d' \<and> jobs d' = jobs d)
     (\<lambda>ex d'. ex = IntegrityError \<and> checked_tables d' \<and> jobs d' = jobs d) d"
  using assms by (auto simp: wp_insert_tx Let_def pg_failed_def post_def checked_tables_def ball_update_rows)

lemma wp_release:
  assumes "checked_tables d" and "\<not> tx_failed d"
  shows "wp (resolve_escrow e final job note) (\<lambda>_ d'. checked_tables d' \<and> jobs d' = jobs d) (\<lambda>ex _. is_value_error ex) d"
proof (cases "find_escrow job d")
  case None
  with assms show ?thesis by (simp add: resolve_escrow_def wp_simps pg_failed_def)
next
  case (Some r)
  have "wallet_check (drop_reserved a w) = wallet_check w" for a w by (simp add: wallet_check_def drop_reserved_def)
  with assms show ?thesis
    by (auto simp: resolve_escrow_def wp_simps pg_failed_def Some checked_tables_def ball_update_rows)
qed

lemma wp_full_refund:
  assumes "checked_tables d" and "0 \<le> price"
  shows "wp (post_call_refund e cw c price agent) (\<lambda>_ d'. checked_tables d' \<and> jobs d' = jobs d) (\<lambda>_ _. False) d"
proof -
  have d: "checked_tables (d\<lparr>tx_failed := False\<rparr>)" "\<not> tx_failed (d\<lparr>tx_failed := False\<rparr>)"
    using assms by (simp_all add: checked_tables_def)
  have flag: "checked_tables (d'\<lparr>tx_failed := b\<rparr>) = checked_tables d'" for d' b by (simp add: checked_tables_def)
  show ?thesis
  proof (cases "is_escrow_tx_id c")
    case True
    with assms d show ?thesis
      by (auto simp: post_call_refund_def release_escrow_of_def job_id_from_sentinel_def release_escrow_def wp_simps
          intro!: wp_post_mono [OF wp_release])
  next
    case False
    with assms d show ?thesis
      by (simp add: post_call_refund_def wp_simps pg_failed_def flag) (auto simp: flag wp_ret intro!: wp_post_mono [OF wp_refund_entry])
  qed
qed

lemma wp_count_failure:
  assumes "checked_tables d"
  shows "wp (count_failure e j) (\<lambda>_ d'. checked_tables d' \<and> jobs d' = jobs d \<and> wallets d' = wallets d) (\<lambda>_ _. False) d"
proof (cases "is_infra_failure j")
  case True
  have "wp (record_call_endpoint_failure e a m) (\<lambda>_ d'. checked_tables d' \<and> jobs d' = jobs d \<and> wallets d' = wallets d)
      (\<lambda>_ d'. checked_tables d' \<and> jobs d' = jobs d \<and> wallets d' = wallets d) d" for a m
    using assms
    by (auto simp: record_call_endpoint_failure_def read_agent_def suspend_for_health_def wp_simps pg_failed_def checked_tables_def
        ball_update_rows agent_check_def failed_call_row_def probed_row_def split: option.splits)
  from this [of "agent_id j" "Some (or_empty (error_message j))"] show ?thesis
    unfolding count_failure_def if_P [OF True] wp_catchE wp_bindE wp_ret by (rule wp_post_mono) simp_all
next
  case False
  with assms show ?thesis
    by (auto simp: count_failure_def update_call_stats_def wp_simps pg_failed_def checked_tables_def
        ball_update_rows agent_check_def counted_row_def split: option.splits)
qed

definition owed_to_caller :: "job \<Rightarrow> int" where
  "owed_to_caller j = (if caller_charge_cents j = 0 then price_cents j else caller_charge_cents j)"

lemma wp_settle_refund:
  assumes d: "checked_tables d" and j: "job_check j" "settled_at j = None"
    and refund: "wp (post_call_refund e (caller_wallet_id j) (charge_tx_id j) (owed_to_caller j) (agent_id j))
        (\<lambda>_ d1. W (wallets d1)) (\<lambda>_ _. True) d"
  shows "wp (settle_refund e j 1)
     (\<lambda>_ d'. checked_tables d' \<and> W (wallets d') \<and>
        jobs d' = update_rows (\<lambda>i. job_id i = job_id j \<and> settled_at i = None) (refunded_row e) (jobs d))
     (\<lambda>_ _. False) d"
proof -
  let ?R = "\<lambda>d'. checked_tables d' \<and> W (wallets d') \<and>
      jobs d' = update_rows (\<lambda>i. job_id i = job_id j \<and> settled_at i = None) (refunded_row e) (jobs d)"
  have rest: "wp (bindE (mark_settled e (job_id j)) (\<lambda>n. bindE (whenE n (count_failure e j)) (\<lambda>_. ret n))) (\<lambda>_. ?R) (\<lambda>_ _. False) d1"
    if d1: "checked_tables d1" "jobs d1 = jobs d" "W (wallets d1)" for d1
  proof -
    have "wp (mark_settled e (job_id j)) (\<lambda>_. ?R) (\<lambda>_ _. False) d1"
      using d1 by (auto simp: mark_settled_def wp_simps pg_failed_def checked_tables_def ball_update_rows refunded_row_def [abs_def]
          job_check_def)
    then show ?thesis
      unfolding wp_bindE wp_whenE wp_ret by (rule wp_post_mono) (auto intro: wp_post_mono [OF wp_count_failure])
  qed
  have "0 \<le> owed_to_caller j" using j(1) by (simp add: owed_to_caller_def job_check_def)
  note wp_conj [OF wp_full_refund [OF d this] refund]
  then have "wp (refund_failed_job e j 1) (\<lambda>_ d1. checked_tables d1 \<and> jobs d1 = jobs d \<and> W (wallets d1)) (\<lambda>_ _. False) d"
    unfolding refund_failed_job_def by (simp add: clamp01_def Let_def owed_to_caller_def)
  then show ?thesis
    unfolding settle_refund_def wp_if wp_bindE using j(2) by (auto elim!: wp_post_mono intro!: rest [unfolded wp_bindE])
qed

lemma wp_current_job:
  "wp (current_job e j) Q E d = Q (case find_job (job_id j) d of None \<Rightarrow> j | Some k \<Rightarrow> k) (d\<lparr>tx_failed := False\<rparr>)"
  by (simp add: current_job_def wp_bindE wp_get_job wp_ret)

section \<open>The cascade\<close>

text \<open>A job that is done with: no child of it that should fall is open, and it is settled.\<close>

definition fallen :: "string \<Rightarrow> db \<Rightarrow> bool" where
  "fallen x d \<longleftrightarrow> childless x d \<and> (\<forall>j. find_job x d = Some j \<longrightarrow> settled_at j \<noteq> None)"

definition fells :: "string set \<Rightarrow> db \<Rightarrow> db \<Rightarrow> bool" where
  "fells R d d' \<longleftrightarrow> moves d d' \<and> checked_tables d' \<and> (\<forall>y\<in>open_ids d - open_ids d'. fallen y d' \<and> y \<in> R)"

text \<open>A set of jobs that holds the open children that fall with its members.\<close>

definition holds_children :: "string set \<Rightarrow> db \<Rightarrow> bool" where
  "holds_children R d \<longleftrightarrow> (\<forall>x j p. find_job x d = Some j \<longrightarrow> open_status j \<longrightarrow> cascades j \<longrightarrow> parent_job_id j = Some p \<longrightarrow>
     p \<in> R \<longrightarrow> x \<in> R)"

lemma moves_holds_children:
  assumes "moves d d'" and "holds_children R d"
  shows "holds_children R d'"
  unfolding holds_children_def
proof (intro allI impI)
  fix x b p assume b: "find_job x d' = Some b" "open_status b" "cascades b" "parent_job_id b = Some p" "p \<in> R"
  then obtain a where a: "find_job x d = Some a" "moved a b" using moves_back [OF assms(1)] by blast
  then have "open_status a" "cascades a" "parent_job_id a = Some p"
    using b by (auto simp: moved_def cascades_def open_status_def closed_row_def)
  then show "x \<in> R" using assms(2) a(1) b(5) by (auto simp: holds_children_def)
qed

lemma moves_fallen:
  assumes "moves d d'" and "fallen x d"
  shows "fallen x d'"
  using assms moves_childless [OF assms(1)] moves_back [OF assms(1)] by (fastforce simp: fallen_def moved_def)

lemma fells_trans: "fells R d d1 \<Longrightarrow> fells R d1 d2 \<Longrightarrow> fells R d d2"
  using moves_fallen [of d1 d2] by (fastforce simp: fells_def intro: moves_trans)

lemma cascade_ready_fells: "cascade_ready d \<Longrightarrow> fells R d d' \<Longrightarrow> cascade_ready d'"
  by (auto simp: fells_def intro: cascade_ready_moves)

lemma cascade_ready_flag [simp]: "cascade_ready (d\<lparr>tx_failed := b\<rparr>) = cascade_ready d"
  by (simp add: cascade_ready_def checked_tables_def open_ids_def open_children_def)

lemma failed_row:
  "status_updated_row e Failed None (Some msg) True no_signature a =
     a\<lparr>job_state := Failed, output_payload := None, error_message := Some msg, updated_at := now e,
       completed_at := (case completed_at a of None \<Rightarrow> Some (now e) | Some t \<Rightarrow> Some t), next_retry_at := None,
       claim_owner_id := None, claim_token := None, lease_expires_at := None, last_heartbeat_at := None,
       clarification_requested_at := None, clarification_deadline_at := None\<rparr>"
  by (simp add: status_updated_row_def no_signature_def or_empty_def split: option.split)

lemma parse_failed: "parse_status ''failed'' = Some Failed"
  using parse_status_text [of Failed] by simp

abbreviation fail_row :: "env \<Rightarrow> string \<Rightarrow> job \<Rightarrow> job" where
  "fail_row e msg \<equiv> status_updated_row e Failed None (Some msg) True no_signature"

lemma wp_fail_update:
  assumes "\<forall>i\<in>set (jobs d). job_check i"
  shows "wp (update_job_status e c ''failed'' None (Some msg) True no_signature) Q E d =
     (let d1 = d\<lparr>tx_failed := False,
                 jobs := update_rows (\<lambda>i. job_id i = c \<and> completed_at i = None) (fail_row e msg) (jobs d)\<rparr>
      in Q (find_job c d1) d1)"
proof -
  have "job_check (fail_row e msg i) = job_check i" for i by (simp add: failed_row job_check_def)
  with assms show ?thesis
    by (simp add: update_job_status_def parse_failed wp_simps wp_get_job pg_failed_def Let_def)
      (rule arg_cong [where f = "Q _"]; simp)
qed

text \<open>Failing an open job closes it; a job that is closed already is left alone.\<close>

lemma wp_fail_status:
  assumes ready: "cascade_ready d" and a: "find_job c d = Some a" and st: "open_status a \<or> closed_row a"
  shows "wp (update_job_status e c ''failed'' None (Some msg) True no_signature)
     (\<lambda>r d1. \<exists>k. r = Some k \<and> find_job c d1 = Some k \<and> closed_row k \<and> moves d d1 \<and> checked_tables d1 \<and>
        open_ids d1 = open_ids d - {c})
     (\<lambda>_ _. False) d"
proof -
  let ?p = "\<lambda>i. job_id i = c \<and> completed_at i = None"
  define d1 where "d1 = d\<lparr>tx_failed := False, jobs := update_rows ?p (fail_row e msg) (jobs d)\<rparr>"
  have check: "\<forall>i\<in>set (jobs d). job_check i" using ready by (simp add: cascade_ready_def checked_tables_def)
  have ids: "map job_id (jobs d1) = map job_id (jobs d)" by (simp add: d1_def map_update_rows_same failed_row)
  have f: "find_job x d1 = map_option (\<lambda>i. if ?p i then fail_row e msg i else i) (find_job x d)" for x
    by (simp add: d1_def find_job_def find_update_same failed_row)
  define k where "k = (if completed_at a = None then fail_row e msg a else a)"
  have k: "find_job c d1 = Some k" using f [of c] find_job_id [OF a] a by (simp add: k_def)
  have others: "find_job x d1 = find_job x d" if "x \<noteq> c" for x
    using f [of x] that find_job_id [of x d] by (cases "find_job x d") auto
  have none: "completed_at a = None" if "open_status a" using that ready a by (auto simp: cascade_ready_def open_ids_def)
  have closed: "closed_row k" using st none by (auto simp: k_def closed_row_def failed_row split: option.split)
  have "moved a k" using st none by (auto simp: k_def moved_def closed_row_def failed_row split: option.split)
  then have "moves d d1" using ids k a others unfolding moves_def by (metis moves_def moves_refl option.inject)
  moreover have "x \<in> open_ids d1 \<longleftrightarrow> x \<in> open_ids d - {c}" for x
    using others [of x] k closed by (cases "x = c") (simp_all add: open_ids_def closed_row_def open_status_def)
  moreover have "checked_tables d1"
    using ready by (auto simp: d1_def cascade_ready_def checked_tables_def ball_update_rows failed_row job_check_def)
  ultimately show ?thesis
    using k closed by (auto simp add: wp_fail_update [OF check] Let_def simp flip: d1_def)
qed

text \<open>The listing of the children misses none that is open.\<close>

lemma wanted_open: "wanted_statuses (Some [''pending'', ''running'', ''awaiting_clarification'']) = [Pending, Running, AwaitingClarification]"
  using parse_status_text [of Pending] parse_status_text [of Running] parse_status_text [of AwaitingClarification]
  by (simp add: wanted_statuses_def map_filter_simps)

lemma wp_open_children:
  assumes ready: "cascade_ready d" and p: "find_job p d = Some r"
    and Q: "\<And>cs. set cs = {j \<in> set (jobs d). parent_job_id j = Some p \<and> open_status j} \<Longrightarrow> Q cs (d\<lparr>tx_failed := False\<rparr>)"
  shows "wp (list_child_jobs e (Some p) (Some [''pending'', ''running'', ''awaiting_clarification'']) 500) Q E d"
proof -
  let ?fits = "\<lambda>j. parent_job_id j = Some p \<and> open_status j"
  let ?rows = "filter ?fits (jobs d)"
  have ids: "distinct (map job_id (jobs d))" using ready by (simp add: cascade_ready_def)
  have row: "find_job (job_id j) d = Some j" if "j \<in> set (jobs d)" for j
    using find_distinct_key [OF ids that] by (simp add: find_job_def)
  have "job_id ` set ?rows = open_children p d"
    using row by (auto simp: open_children_def image_iff dest: find_job_id)
  moreover have "distinct (map job_id ?rows)" using ids by (simp add: distinct_map_filter)
  ultimately have "length ?rows = card (open_children p d)" using distinct_card [of "map job_id ?rows"] by simp
  then have "length ?rows \<le> 500" using ready by (simp add: cascade_ready_def)
  then have all: "take 500 (oldest_first ?rows) = oldest_first ?rows" by (simp add: oldest_first_def)
  have "Q (take 500 (oldest_first ?rows)) (d\<lparr>tx_failed := False\<rparr>)"
    unfolding all by (rule Q) (auto simp: oldest_first_def)
  moreover have "clamp_limit 500 500 = 500" by (simp add: clamp_limit_def)
  moreover have "clean_optional_text (Some p) = Some p" using find_job_id [OF p] ready by (auto simp: cascade_ready_def)
  ultimately show ?thesis
    unfolding list_child_jobs_def by (simp add: wanted_open wp_simps pg_failed_def open_status_def)
qed

text \<open>One child, and all of them in turn: \<open>settle\<close> is the settlement that the recursion uses.\<close>

definition settles_below :: "string set \<Rightarrow> nat \<Rightarrow> (env \<Rightarrow> job \<Rightarrow> (db, job) prog) \<Rightarrow> bool" where
  "settles_below R n settle \<longleftrightarrow> (\<forall>e k d. cascade_ready d \<longrightarrow> holds_children R d \<longrightarrow> job_id k \<in> R \<longrightarrow> find_job (job_id k) d = Some k \<longrightarrow> job_state k = Failed \<longrightarrow>
     card (open_ids d) < n \<longrightarrow> wp (settle e k) (\<lambda>_ d'. fells R d d' \<and> fallen (job_id k) d') (\<lambda>_ _. False) d)"

lemma wp_fail_and_settle:
  assumes settle: "settles_below R n settle" and ready: "cascade_ready d" and a: "find_job c d = Some a"
    and R: "holds_children R d" "c \<in> R" and st: "open_status a \<or> closed_row a" and n: "card (insert c (open_ids d)) \<le> n"
  shows "wp (fail_and_settle e (settle e2) c msg) (\<lambda>_ d'. fells R d d' \<and> c \<notin> open_ids d') (\<lambda>_ _. False) d"
proof -
  have step: "wp (settle e2 k) (\<lambda>_ d'. fells R d d' \<and> c \<notin> open_ids d') (\<lambda>_ _. False) d1"
    if k: "find_job c d1 = Some k" "closed_row k" and d1: "moves d d1" "checked_tables d1" "open_ids d1 = open_ids d - {c}" for k d1
  proof -
    have id: "job_id k = c" using k(1) find_job_id by blast
    have "card (open_ids d - {c}) < card (insert c (open_ids d))" by (rule psubset_card_mono) auto
    then have "card (open_ids d1) < n" using n d1(3) by simp
    moreover have "cascade_ready d1" using ready d1 by (auto intro: cascade_ready_moves)
    ultimately have "wp (settle e2 k) (\<lambda>_ d'. fells R d1 d' \<and> fallen c d') (\<lambda>_ _. False) d1"
      using settle k id R moves_holds_children [OF d1(1) R(1)] by (auto simp: settles_below_def closed_row_def)
    moreover have "fells R d d' \<and> c \<notin> open_ids d'" if "fells R d1 d'" "fallen c d'" for d'
      using that d1 R(2) moves_open_ids [of d1 d'] by (auto simp: fells_def intro: moves_trans)
    ultimately show ?thesis by (auto elim: wp_post_mono)
  qed
  show ?thesis
    unfolding fail_and_settle_def wp_bindE
  proof (rule wp_post_mono [OF wp_fail_status [OF ready a st]], goal_cases)
    case (1 r d1)
    then obtain k where r: "r = Some k" and k: "find_job c d1 = Some k" "closed_row k"
      and d1: "moves d d1" "checked_tables d1" "open_ids d1 = open_ids d - {c}" by blast
    show ?case unfolding r option.case wp_bindE by (rule wp_post_mono [OF step [OF k d1]]) (simp_all add: wp_ret)
  qed
qed

lemma wp_cascade_loop:
  assumes settle: "settles_below R n settle" and n: "card (open_ids d0) \<le> n" and R: "holds_children R d0"
    and ready: "cascade_ready d" and from_start: "moves d0 d" and cs: "\<forall>c\<in>set cs. job_id c \<in> open_ids d0 \<and> job_id c \<in> R"
  shows "wp (for_each (enumerate i cs) (\<lambda>(i, c). bindE (fail_and_settle e (settle (env_of i)) (job_id c) msg) (\<lambda>_. ret ())))
     (\<lambda>_ d'. fells R d d' \<and> (\<forall>c\<in>set cs. job_id c \<notin> open_ids d')) (\<lambda>_ _. False) d"
  using ready from_start cs
proof (induction cs arbitrary: d i)
  case Nil
  then show ?case by (simp add: wp_ret fells_def cascade_ready_def)
next
  case (Cons c cs)
  obtain a0 where a0: "find_job (job_id c) d0 = Some a0" "open_status a0" using Cons.prems by (auto simp: open_ids_def)
  obtain a where a: "find_job (job_id c) d = Some a" "moved a0 a" using moves_find [OF Cons.prems(2) a0(1)] by blast
  then have st: "open_status a \<or> closed_row a" using a0(2) by (auto simp: moved_def open_status_def)
  have "card (insert (job_id c) (open_ids d)) \<le> card (open_ids d0)"
    using moves_open_ids [OF Cons.prems(2)] Cons.prems(3) by (intro card_mono) auto
  with n have "card (insert (job_id c) (open_ids d)) \<le> n" by simp
  from wp_fail_and_settle [OF settle Cons.prems(1) a(1) moves_holds_children [OF Cons.prems(2) R] _ st this] Cons.prems(3)
  have "wp (fail_and_settle e (settle (env_of i)) (job_id c) msg) (\<lambda>_ d'. fells R d d' \<and> job_id c \<notin> open_ids d') (\<lambda>_ _. False) d" by simp
  moreover have "wp (for_each (enumerate (Suc i) cs) (\<lambda>(i, c). bindE (fail_and_settle e (settle (env_of i)) (job_id c) msg) (\<lambda>_. ret ())))
     (\<lambda>_ d'. fells R d d' \<and> (\<forall>x\<in>set (c # cs). job_id x \<notin> open_ids d')) (\<lambda>_ _. False) d1"
    if d1: "fells R d d1" "job_id c \<notin> open_ids d1" for d1
  proof -
    have "moves d0 d1" "cascade_ready d1"
      using d1(1) Cons.prems by (auto simp: fells_def intro: moves_trans cascade_ready_moves)
    then have "wp (for_each (enumerate (Suc i) cs) (\<lambda>(i, c). bindE (fail_and_settle e (settle (env_of i)) (job_id c) msg) (\<lambda>_. ret ())))
     (\<lambda>_ d'. fells R d1 d' \<and> (\<forall>x\<in>set cs. job_id x \<notin> open_ids d')) (\<lambda>_ _. False) d1"
      using Cons.IH Cons.prems(3) by simp
    moreover have "job_id c \<notin> open_ids d'" if "fells R d1 d'" for d'
      using that d1(2) moves_open_ids [of d1 d'] by (auto simp: fells_def)
    ultimately show ?thesis using fells_trans [OF d1(1)] by (auto elim!: wp_post_mono)
  qed
  ultimately show ?case by (simp add: wp_bindE wp_ret) (auto simp: wp_ret elim!: wp_post_mono)
qed

lemma wp_cascade:
  assumes settle: "settles_below R n settle" and ready: "cascade_ready d" and p: "find_job (job_id p) d = Some r"
    and R: "holds_children R d" "job_id p \<in> R" and n: "card (open_ids d) \<le> n"
  shows "wp (cascade_fail_active_child_jobs e settle p) (\<lambda>_ d'. fells R d d' \<and> childless (job_id p) d') (\<lambda>_ _. False) d"
  unfolding cascade_fail_active_child_jobs_def wp_bindE
proof (rule wp_open_children [OF ready p])
  fix cs assume cs: "set cs = {j \<in> set (jobs d). parent_job_id j = Some (job_id p) \<and> open_status j}"
  let ?d = "d\<lparr>tx_failed := False\<rparr>"
  have row: "find_job (job_id j) d = Some j" if "j \<in> set (jobs d)" for j
    using ready find_distinct_key [of job_id "jobs d" j] that by (simp add: cascade_ready_def find_job_def)
  have same: "moves d ?d" "open_ids ?d = open_ids d" by (simp_all add: moves_jobs [of ?d d] moves_jobs [of d d ?d d] open_ids_def)
  have "childless (job_id p) d'" if d': "fells R ?d d'" and shut: "\<forall>c\<in>set (filter cascades cs). job_id c \<notin> open_ids d'" for d'
    unfolding childless_def
  proof (intro allI impI)
    fix x b assume b: "find_job x d' = Some b" "parent_job_id b = Some (job_id p)" "cascades b"
    obtain a where a: "find_job x d = Some a" "moved a b" using moves_back [of ?d d' x b] b(1) d' by (auto simp: fells_def)
    show "\<not> open_status b"
    proof
      assume "open_status b"
      then have "open_status a" "parent_job_id a = Some (job_id p)" "cascades a"
        using a b by (auto simp: moved_def closed_row_def open_status_def cascades_def)
      moreover have "job_id a = x" "a \<in> set (jobs d)" using find_job_id [OF a(1)] by simp_all
      ultimately have "x \<notin> open_ids d'" using shut cs by auto
      with b \<open>open_status b\<close> show False by (auto simp: open_ids_def)
    qed
  qed
  moreover have "fells R d d'" if "fells R ?d d'" for d'
    using that moves_trans [OF same(1)] same(2) by (auto simp: fells_def)
  moreover have "\<forall>c\<in>set (filter cascades cs). job_id c \<in> open_ids d \<and> job_id c \<in> R"
    using cs row R by (auto simp: open_ids_def holds_children_def)
  ultimately show "wp (for_each (enumerate 0 (filter cascades cs)) (\<lambda>(i, child).
       bindE (fail_and_settle e (settle (uuids_round 8 i e)) (job_id child)
                (''Parent job '' @ job_id p @ '' failed; child was cascaded.'')) (\<lambda>_. ret ())))
     (\<lambda>_ d'. fells R d d' \<and> childless (job_id p) d') (\<lambda>_ _. False) ?d"
    by (intro wp_post_mono [OF wp_cascade_loop [OF settle n R(1)]]) (use ready same(1) in auto)
qed

text \<open>The depth of the stack that is needed is one more than the number of open jobs.\<close>

lemma settle_refund_settled: "settled_at j \<noteq> None \<Longrightarrow> settle_refund e j f = ret False"
  by (simp add: settle_refund_def)

lemma wp_settle_failed_start:
  assumes ready: "cascade_ready d" and j: "find_job (job_id j) d = Some j"
  shows "wp (settle_refund e j 1)
     (\<lambda>_ d1. moves d d1 \<and> checked_tables d1 \<and> open_ids d1 = open_ids d \<and>
        (\<exists>k. find_job (job_id j) d1 = Some k \<and> job_state k = job_state j \<and> settled_at k \<noteq> None))
     (\<lambda>_ _. False) d"
proof (cases "settled_at j")
  case None
  let ?p = "\<lambda>i. job_id i = job_id j \<and> settled_at i = None"
  have "job_check j" "checked_tables d" using ready find_job_id [OF j] by (auto simp: cascade_ready_def checked_tables_def)
  from wp_settle_refund [OF this(2,1) None, of e "\<lambda>_. True", OF wp_trivial, OF TrueI TrueI] show ?thesis
  proof (rule wp_post_mono)
    fix d1 assume d1: "checked_tables d1 \<and> True \<and> jobs d1 = update_rows ?p (refunded_row e) (jobs d)"
    have f: "find_job x d1 = map_option (\<lambda>i. if ?p i then refunded_row e i else i) (find_job x d)" for x
      using d1 by (simp add: find_job_def find_update_same refunded_row_def)
    have m: "moves d d1"
      unfolding moves_def using d1 f by (auto simp: map_update_rows_same refunded_row_def moved_def)
    have "open_status (refunded_row e i) = open_status i" for i by (simp add: refunded_row_def open_status_def)
    then have "x \<in> open_ids d1 \<longleftrightarrow> x \<in> open_ids d" for x using f [of x] by (cases "find_job x d") (auto simp: open_ids_def)
    then have "open_ids d1 = open_ids d" by blast
    then show "moves d d1 \<and> checked_tables d1 \<and> open_ids d1 = open_ids d \<and>
        (\<exists>k. find_job (job_id j) d1 = Some k \<and> job_state k = job_state j \<and> settled_at k \<noteq> None)"
      using m d1 f [of "job_id j"] j None by (simp add: refunded_row_def)
  qed
next
  case (Some t)
  then show ?thesis using ready j by (simp add: settle_refund_settled wp_ret cascade_ready_def)
qed

lemma settles_below: "settles_below R depth (\<lambda>e k. settle_failed_job depth e k actor kind 1)"
proof (induction depth arbitrary: kind)
  case 0
  then show ?case by (simp add: settles_below_def)
next
  case (Suc n)
  show ?case
    unfolding settles_below_def
  proof (intro allI impI)
    fix e k d
    assume ready: "cascade_ready d" and R: "holds_children R d" "job_id k \<in> R" and k: "find_job (job_id k) d = Some k" "job_state k = Failed" and n: "card (open_ids d) < Suc n"
    let ?R = "\<lambda>_ d'. fells R d d' \<and> fallen (job_id k) d'"
    show "wp (settle_failed_job (Suc n) e k actor kind 1) ?R (\<lambda>_ _. False) d"
      unfolding settle_failed_job.simps wp_bindE
    proof (rule wp_post_mono [OF wp_settle_failed_start [OF ready k(1)]], goal_cases)
      case (1 newly d1)
      then obtain s where s: "find_job (job_id k) d1 = Some s" "job_state s = Failed" "settled_at s \<noteq> None" using k(2) by auto
      have id: "job_id s = job_id k" using find_job_id [OF s(1)] by simp
      have cascade: "wp (cascade_fail_active_child_jobs e (\<lambda>e' k. settle_failed_job n e' k actor ''job.failed_parent_cascade'' 1) s)
          ?R (\<lambda>_ _. False) d2"
        if d2: "jobs d2 = jobs d1" "checked_tables d2" for d2
      proof -
        have same: "find_job x d2 = find_job x d1" "open_ids d2 = open_ids d1" "moves d d2 = moves d d1" for x
          using d2(1) moves_jobs [of d d d2 d1] by (simp_all add: find_job_def open_ids_def)
        have "cascade_ready d2" using cascade_ready_moves [OF ready _ d2(2)] same 1 by simp
        then have "wp (cascade_fail_active_child_jobs e (\<lambda>e' k. settle_failed_job n e' k actor ''job.failed_parent_cascade'' 1) s)
            (\<lambda>_ d'. fells R d2 d' \<and> childless (job_id s) d') (\<lambda>_ _. False) d2"
          using s same 1 n id R(2) moves_holds_children [OF _ R(1), of d2] by (intro wp_cascade [OF Suc.IH]) simp_all
        moreover have "?R u d'" if d': "fells R d2 d'" "childless (job_id s) d'" for u :: unit and d'
        proof -
          have "moves d d'" using d' same 1 by (auto simp: fells_def intro: moves_trans [of d d2])
          moreover have "fallen (job_id k) d'"
            using d' s same id moves_back [of d2 d' "job_id k"] by (fastforce simp: fells_def fallen_def moved_def)
          ultimately show ?thesis using d' same 1 by (auto simp: fells_def)
        qed
        ultimately show ?thesis by (auto elim: wp_post_mono)
      qed
      have tail: "wp (bindE (whenE (job_state s = Failed) (cascade_fail_active_child_jobs e
            (\<lambda>e' k. settle_failed_job n e' k actor ''job.failed_parent_cascade'' 1) s)) (\<lambda>_. ret s)) ?R (\<lambda>_ _. False) d2"
        if "jobs d2 = jobs d1" "checked_tables d2" for d2
        unfolding wp_bindE wp_whenE wp_ret using cascade [OF that] s(2) by simp
      have flag: "checked_tables (d1\<lparr>job_events := es, tx_failed := False\<rparr>)" "checked_tables (d1\<lparr>tx_failed := False\<rparr>)" for es
        using 1 by (simp_all add: checked_tables_def)
      show ?case
        unfolding wp_bindE wp_current_job s(1) option.case wp_whenE [of newly] wp_record_job_event Let_def wp_ret [of "()"]
        by (cases newly; simp only: if_True if_False; rule tail [unfolded wp_bindE]; simp add: flag)
    qed simp
  qed
qed

text \<open>The jobs that fall with a job: the open children that ask for it, and theirs.\<close>

inductive falls_with :: "db \<Rightarrow> string \<Rightarrow> string \<Rightarrow> bool" for d where
  child: "find_job x d = Some j \<Longrightarrow> open_status j \<Longrightarrow> cascades j \<Longrightarrow> parent_job_id j = Some p \<Longrightarrow> falls_with d p x"
| deeper: "falls_with d p y \<Longrightarrow> find_job x d = Some j \<Longrightarrow> open_status j \<Longrightarrow> cascades j \<Longrightarrow> parent_job_id j = Some y \<Longrightarrow>
    falls_with d p x"

lemma falls_with_open: "falls_with d p x \<Longrightarrow> x \<in> open_ids d"
  by (auto simp: open_ids_def elim: falls_with.cases)

lemma open_ids_status: "x \<in> open_ids d \<Longrightarrow> find_job x d = Some j \<Longrightarrow> open_status j"
  by (auto simp: open_ids_def)

lemma fells_find: "fells R d d' \<Longrightarrow> find_job x d = Some a \<Longrightarrow> \<exists>b. find_job x d' = Some b \<and> moved a b"
  using moves_find [of d d' x a] by (simp add: fells_def)

lemma childlessD: "childless p d \<Longrightarrow> find_job x d = Some j \<Longrightarrow> parent_job_id j = Some p \<Longrightarrow> cascades j \<Longrightarrow> \<not> open_status j"
  by (simp add: childless_def)

lemma moved_place: "moved a b \<Longrightarrow> parent_job_id b = parent_job_id a \<and> cascades b = cascades a"
  by (auto simp: moved_def cascades_def)

lemma fells_shut: "fells R d d' \<Longrightarrow> find_job x d = Some a \<Longrightarrow> open_status a \<Longrightarrow> find_job x d' = Some b \<Longrightarrow> \<not> open_status b \<Longrightarrow>
    x \<notin> open_ids d' \<and> fallen x d'"
  by (auto simp: fells_def open_ids_def)

lemma falls_fallen:
  assumes "fells R d d'" and "fallen p d'" and "falls_with d p x"
  shows "x \<notin> open_ids d' \<and> fallen x d'"
  using assms(3,2)
proof (induction p x rule: falls_with.induct)
  case (child x i p)
  obtain b where b: "find_job x d' = Some b" "moved i b" using fells_find [OF assms(1) child.hyps(1)] by blast
  have "childless p d'" using child.prems by (simp add: fallen_def)
  from childlessD [OF this b(1)] have "\<not> open_status b" using child.hyps moved_place [OF b(2)] by simp
  then show ?case by (rule fells_shut [OF assms(1) child.hyps(1,2) b(1)])
next
  case (deeper p y x i)
  obtain b where b: "find_job x d' = Some b" "moved i b" using fells_find [OF assms(1) deeper.hyps(2)] by blast
  have "childless y d'" using deeper.IH [OF deeper.prems] by (simp add: fallen_def)
  from childlessD [OF this b(1)] have "\<not> open_status b" using deeper.hyps moved_place [OF b(2)] by simp
  then show ?case by (rule fells_shut [OF assms(1) deeper.hyps(2,3) b(1)])
qed

abbreviation stands :: "bool \<Rightarrow> job \<Rightarrow> job \<Rightarrow> bool" where
  "stands falls a b \<equiv> (if falls then job_state b = Failed \<and> completed_at b \<noteq> None \<and> settled_at b \<noteq> None
     else job_state b = job_state a \<and> completed_at b = completed_at a)"

lemma falls_standing:
  assumes d': "fells {x. x = p \<or> falls_with d p x} d d'" "fallen p d'" and p: "p \<notin> open_ids d" and a: "find_job x d = Some a"
  shows "\<exists>b. find_job x d' = Some b \<and> stands (falls_with d p x) a b"
proof -
  obtain b where b: "find_job x d' = Some b" "moved a b" using fells_find [OF d'(1) a] by blast
  have "stands (falls_with d p x) a b"
  proof (cases "falls_with d p x")
    case True
    with falls_fallen [OF d' True] b open_ids_status [OF falls_with_open [OF True] a] show ?thesis
      by (auto simp: moved_def closed_row_def open_ids_def open_status_def fallen_def)
  next
    case False
    have "\<not> (open_status a \<and> closed_row b)"
    proof
      assume "open_status a \<and> closed_row b"
      then have "x \<in> open_ids d - open_ids d'" using a b by (auto simp: open_ids_def closed_row_def open_status_def)
      with d' False p show False by (auto simp: fells_def)
    qed
    with b False show ?thesis by (auto simp: moved_def)
  qed
  with b show ?thesis by blast
qed

text \<open>
  C5. The failure of a job reaches exactly the descendants that fall with it, and always gets there. With a
  stack deeper than the number of open jobs the settlement of a failed job returns, raises nothing, and
  settles the job; every job below it over open children that ask to fall ends failed, completed and
  settled, however the jobs are linked; and every other job keeps its status and its completion.
\<close>

theorem failure_reaches_descendants:
  assumes ready: "cascade_ready d" and j: "find_job (job_id j) d = Some j" "job_state j = Failed"
    and depth: "card (open_ids d) < depth"
  shows "wp (settle_failed_job depth e j actor kind 1)
     (\<lambda>_ d'. (\<exists>k. find_job (job_id j) d' = Some k \<and> settled_at k \<noteq> None) \<and>
        (\<forall>x a. find_job x d = Some a \<longrightarrow> (\<exists>b. find_job x d' = Some b \<and>
           (if falls_with d (job_id j) x then job_state b = Failed \<and> completed_at b \<noteq> None \<and> settled_at b \<noteq> None
            else job_state b = job_state a \<and> completed_at b = completed_at a))))
     (\<lambda>_ _. False) d"
proof -
  let ?R = "{x. x = job_id j \<or> falls_with d (job_id j) x}"
  have "holds_children ?R d" unfolding holds_children_def by (auto intro: falls_with.intros)
  then have "wp (settle_failed_job depth e j actor kind 1) (\<lambda>_ d'. fells ?R d d' \<and> fallen (job_id j) d') (\<lambda>_ _. False) d"
    using settles_below [of ?R depth actor kind] ready j depth by (simp add: settles_below_def)
  then show ?thesis
  proof (rule wp_post_mono)
    fix d' assume d': "fells ?R d d' \<and> fallen (job_id j) d'"
    have "job_id j \<notin> open_ids d" using j by (auto simp: open_ids_def open_status_def)
    from falls_standing [OF conjunct1 [OF d'] conjunct2 [OF d'] this]
    show "(\<exists>k. find_job (job_id j) d' = Some k \<and> settled_at k \<noteq> None) \<and>
        (\<forall>x a. find_job x d = Some a \<longrightarrow> (\<exists>b. find_job x d' = Some b \<and> stands (falls_with d (job_id j) x) a b))"
      using j(1) d' by (fastforce simp: fallen_def)
  qed
qed

definition sample_parent :: job where
  "sample_parent = sample_job\<lparr>job_id := ''p1'', job_state := Failed, settled_at := None, charge_tx_id := ''t1''\<rparr>"

definition sample_middle :: job where
  "sample_middle = sample_job\<lparr>job_id := ''p2'', job_state := Running, completed_at := None, settled_at := None,
     charge_tx_id := ''t2'', parent_job_id := Some ''p1'', parent_cascade_policy := ''fail_children_on_parent_fail''\<rparr>"

definition sample_leaf :: job where
  "sample_leaf = sample_middle\<lparr>job_id := ''p3'', job_state := Pending, charge_tx_id := ''t3'', parent_job_id := Some ''p2''\<rparr>"

definition sample_tree :: "job list" where
  "sample_tree = [sample_parent, sample_middle, sample_leaf]"

lemma find_sample_tree: "find_job x (sample_db\<lparr>jobs := sample_tree\<rparr>) =
    (if x = ''p1'' then Some sample_parent else if x = ''p2'' then Some sample_middle
     else if x = ''p3'' then Some sample_leaf else None)"
  by (simp add: find_job_def sample_tree_def sample_parent_def sample_middle_def sample_leaf_def eq_commute [of x])

lemma sample_tree_rows:
  "job_id sample_parent = ''p1''" "job_state sample_parent = Failed" "job_state sample_middle = Running"
  "job_state sample_leaf = Pending" "completed_at sample_middle = None" "completed_at sample_leaf = None"
  "parent_job_id sample_middle = Some ''p1''" "parent_job_id sample_leaf = Some ''p2''"
  "parent_cascade_policy sample_middle = ''fail_children_on_parent_fail''"
  "parent_cascade_policy sample_leaf = ''fail_children_on_parent_fail''"
  by (simp_all add: sample_parent_def sample_middle_def sample_leaf_def)

lemma sample_tree_open: "open_ids (sample_db\<lparr>jobs := sample_tree\<rparr>) = {''p2'', ''p3''}"
  by (auto simp: open_ids_def find_sample_tree open_status_def sample_tree_rows split: if_splits)

lemma sample_tree_ready: "cascade_ready (sample_db\<lparr>jobs := sample_tree\<rparr>)"
proof -
  let ?d = "sample_db\<lparr>jobs := sample_tree\<rparr>"
  have "checked_tables ?d"
    by (simp add: checked_tables_def sample_tree_def sample_parent_def sample_middle_def sample_leaf_def sample_job_def job_check_def
        sample_defs wallet_check_def)
  moreover have "card (open_children p ?d) \<le> 500" for p
  proof -
    have "open_children p ?d \<subseteq> {''p2'', ''p3''}" using sample_tree_open by (auto simp: open_children_def open_ids_def)
    from card_mono [OF _ this] show ?thesis by simp
  qed
  moreover have "completed_at j = None" if "find_job x ?d = Some j" "open_status j" for x j
    using that unfolding find_sample_tree by (auto simp: sample_tree_rows open_status_def split: if_splits)
  moreover have "clean_optional_text (Some (job_id j)) = Some (job_id j)" if "j \<in> set (jobs ?d)" for j
    using that by (auto simp: sample_tree_def sample_parent_def sample_middle_def sample_leaf_def clean_optional_text_def or_empty_def
        py_strip_def py_space_def)
  moreover have "distinct (map job_id (jobs ?d))" by (simp add: sample_tree_def sample_parent_def sample_middle_def sample_leaf_def)
  ultimately show ?thesis unfolding cascade_ready_def by (blast dest: open_ids_status)
qed

lemma failure_reaches_descendants_witness:
  "wp (settle_failed_job 9 (sample_env SQLite) sample_parent ''system'' ''job.failed'' 1)
     (\<lambda>_ d'. \<exists>b. find_job ''p3'' d' = Some b \<and> job_state b = Failed \<and> settled_at b \<noteq> None) (\<lambda>_ _. False)
     (sample_db\<lparr>jobs := sample_tree\<rparr>)"
proof -
  let ?d = "sample_db\<lparr>jobs := sample_tree\<rparr>"
  have root: "find_job (job_id sample_parent) ?d = Some sample_parent" "job_state sample_parent = Failed"
    by (simp_all add: find_sample_tree sample_tree_rows)
  have depth: "card (open_ids ?d) < 9" by (simp add: sample_tree_open)
  have falling: "open_status sample_middle" "cascades sample_middle" "open_status sample_leaf" "cascades sample_leaf"
    by (simp_all add: open_status_def cascades_def sample_tree_rows or_text_def py_lower_def lower_char_def py_strip_def py_space_def)
  have "falls_with ?d ''p1'' ''p2''"
    by (rule falls_with.child [of _ _ sample_middle]) (simp_all add: find_sample_tree falling sample_tree_rows)
  then have falls: "falls_with ?d (job_id sample_parent) ''p3''"
    unfolding sample_tree_rows
    by (rule falls_with.deeper [of _ _ _ _ sample_leaf]) (simp_all add: find_sample_tree falling sample_tree_rows)
  from failure_reaches_descendants [OF sample_tree_ready root depth, of "sample_env SQLite" "''system''" "''job.failed''"]
  show ?thesis
  proof (rule wp_post_mono)
    fix d' assume d': "(\<exists>k. find_job (job_id sample_parent) d' = Some k \<and> settled_at k \<noteq> None) \<and>
        (\<forall>x a. find_job x ?d = Some a \<longrightarrow> (\<exists>b. find_job x d' = Some b \<and> stands (falls_with ?d (job_id sample_parent) x) a b))"
    have "find_job ''p3'' ?d = Some sample_leaf" by (simp add: find_sample_tree)
    with conjunct2 [OF d'] have "\<exists>b. find_job ''p3'' d' = Some b \<and> stands (falls_with ?d (job_id sample_parent) ''p3'') sample_leaf b"
      by (elim allE [where x = "''p3''"] allE [where x = sample_leaf]) (rule mp)
    then show "\<exists>b. find_job ''p3'' d' = Some b \<and> job_state b = Failed \<and> settled_at b \<noteq> None"
      unfolding if_P [OF falls] by (elim exE conjE) (intro exI conjI)
  qed
qed

section \<open>Failing a job that has completed meanwhile\<close>

lemma wp_settle_late:
  assumes row: "find_job (job_id j) d = Some j" and check: "checked_tables d"
    and complete: "job_state j \<noteq> Failed" "settled_at j = None"
    and refund: "wp (post_call_refund e (caller_wallet_id j) (charge_tx_id j) (owed_to_caller j) (agent_id j))
        (\<lambda>_ d1. W (wallets d1)) (\<lambda>_ _. True) d"
  shows "wp (settle_failed_job (Suc n) e j actor kind 1)
     (\<lambda>_ d'. W (wallets d') \<and> find_job (job_id j) d' = Some (refunded_row e j)) (\<lambda>_ _. False) d"
  unfolding settle_failed_job.simps wp_bindE
proof (rule wp_post_mono [OF wp_settle_refund [OF check _ complete(2) refund]], goal_cases)
  case 1
  show ?case using check find_job_id [OF row] by (simp add: checked_tables_def)
next
  case (2 newly d1)
  have f: "find_job (job_id j) d1 = Some (refunded_row e j)"
    using 2 row complete by (simp add: find_job_def find_update_same refunded_row_def)
  then have "find_job (job_id j) (d1\<lparr>job_events := es, tx_failed := False\<rparr>) = Some (refunded_row e j)"
    "find_job (job_id j) (d1\<lparr>tx_failed := False\<rparr>) = Some (refunded_row e j)" for es by (simp_all add: find_job_def)
  moreover have "job_state (refunded_row e j) \<noteq> Failed" using complete by (simp add: refunded_row_def)
  ultimately show ?case
    unfolding wp_current_job f option.case wp_whenE wp_bindE wp_record_job_event Let_def wp_ret
    using 2 by (cases newly) auto
qed simp

text \<open>
  C37. The sweeper, the cascade and the ban of an agent list open jobs first and fail them one by one. A job that
  its worker completes in between is refunded all the same: the update is dropped, the job stays
  complete with its output, yet the caller gets the whole charge back and the job counts as settled, so
  that the agent is never paid for it.
\<close>

theorem late_failure_refunds_completed_job:
  assumes row: "find_job job d = Some j" and ids: "distinct (map job_id (jobs d))" and check: "checked_tables d"
    and complete: "job_state j = Complete" "completed_at j \<noteq> None" "settled_at j = None"
    and ok: "ledger_ok d" and c: "\<not> is_escrow_tx_id (charge_tx_id j)" and new: "new_id (uuid e 0) d"
    and w: "has_wallet (caller_wallet_id j) d" and open_charge: "unsettled (charge_tx_id j) Refund (caller_wallet_id j) d"
    and unpaid: "\<not> related_in (charge_tx_id j) [Payout, Fee] (transactions d)"
  shows "wp (fail_and_settle e (\<lambda>k. settle_failed_job (Suc n) e k actor kind 1) job msg)
     (\<lambda>_ d'. (\<exists>k. find_job job d' = Some k \<and> job_state k = Complete \<and> output_payload k = output_payload j \<and> settled_at k \<noteq> None) \<and>
        balance_of (caller_wallet_id j) d' = balance_of (caller_wallet_id j) d + owed_to_caller j)
     (\<lambda>_ _. False) d"
proof -
  let ?cw = "caller_wallet_id j" and ?d0 = "d\<lparr>tx_failed := False\<rparr>"
  define W where "W ws \<longleftrightarrow> balance_of ?cw (d\<lparr>wallets := ws\<rparr>) = balance_of ?cw d + owed_to_caller j" for ws
  have W: "W (wallets d') \<longleftrightarrow> balance_of ?cw d' = balance_of ?cw d + owed_to_caller j" for d'
    by (simp add: W_def balance_of_def find_wallet_def)
  have id: "job_id j = job" "j \<in> set (jobs d)" using find_job_id [OF row] by simp_all
  then have pos: "0 \<le> owed_to_caller j" using check by (simp add: owed_to_caller_def job_check_def checked_tables_def)
  have only: "\<forall>i\<in>set (jobs d). job_id i = job \<longrightarrow> i = j" using find_distinct_key [OF ids] row by (auto simp: find_job_def)
  then have none: "update_rows (\<lambda>i. job_id i = job \<and> completed_at i = None) (fail_row e msg) (jobs d) = jobs d"
    using complete by (intro update_rows_none) auto
  have "wp (post_call_refund e ?cw (charge_tx_id j) (owed_to_caller j) (agent_id j)) (\<lambda>_ d'. W (wallets d')) (\<lambda>_ _. True) ?d0"
    using refund_settles_call [of ?d0 "owed_to_caller j" "charge_tx_id j" e ?cw "agent_id j"] ok pos c new w open_charge unpaid
    by (auto simp: W elim!: wp_post_mono)
  then have "wp (settle_failed_job (Suc n) e j actor kind 1)
      (\<lambda>_ d'. W (wallets d') \<and> find_job job d' = Some (refunded_row e j)) (\<lambda>_ _. False) ?d0"
    using wp_settle_late [of j ?d0 e W n actor kind] row check complete id by (simp add: checked_tables_def)
  moreover have "find_job job (d\<lparr>tx_failed := False, jobs := jobs d\<rparr>) = Some j" using row by (simp add: find_job_def)
  moreover have "d\<lparr>tx_failed := False, jobs := jobs d\<rparr> = ?d0" by simp
  ultimately show ?thesis
    unfolding fail_and_settle_def wp_bindE using check complete
    by (subst wp_fail_update) (auto simp: checked_tables_def none Let_def wp_ret W wp_bindE refunded_row_def elim!: wp_post_mono)
qed

definition sample_late_job :: job where
  "sample_late_job = sample_job\<lparr>settled_at := None, charge_tx_id := ''t9''\<rparr>"

lemma late_failure_refunds_completed_job_witness:
  "wp (fail_and_settle (sample_env SQLite) (\<lambda>k. settle_failed_job 1 (sample_env SQLite) k ''sweeper'' ''job.failed'' 1) ''j1'' ''late'')
     (\<lambda>_ d'. (\<exists>k. find_job ''j1'' d' = Some k \<and> job_state k = Complete) \<and>
        balance_of ''w1'' d' = balance_of ''w1'' sample_db + 110)
     (\<lambda>_ _. False) (sample_db\<lparr>jobs := [sample_late_job]\<rparr>)"
proof -
  let ?d = "sample_db\<lparr>jobs := [sample_late_job]\<rparr>"
  have tables: "wallets ?d = wallets sample_db" "transactions ?d = transactions sample_db" by simp_all
  have j: "job_state sample_late_job = Complete" "completed_at sample_late_job \<noteq> None" "settled_at sample_late_job = None"
    "caller_wallet_id sample_late_job = ''w1''" "charge_tx_id sample_late_job = ''t9''" "owed_to_caller sample_late_job = 110"
    "job_id sample_late_job = ''j1''" "job_check sample_late_job"
    by (simp_all add: sample_late_job_def sample_job_def owed_to_caller_def job_check_def)
  have row: "find_job ''j1'' ?d = Some sample_late_job" "distinct (map job_id (jobs ?d))" "checked_tables ?d"
    using j by (simp_all add: find_job_def checked_tables_def sample_defs wallet_check_def)
  have ok: "ledger_ok ?d" "new_id (uuid (sample_env SQLite) 0) ?d" "has_wallet ''w1'' ?d"
    using sample_ledger_ok ledger_ok_tables [of ?d sample_db] by (simp_all add: new_id_def has_wallet_def sample_defs)
  have charge: "\<not> is_escrow_tx_id ''t9''" "unsettled ''t9'' Refund ''w1'' ?d" "\<not> related_in ''t9'' [Payout, Fee] (transactions ?d)"
    by (simp_all add: is_escrow_tx_id_def ESCROW_TX_PREFIX_def related_in_def unsettled_def sample_defs)
  have "balance_of ''w1'' ?d = balance_of ''w1'' sample_db" by (simp add: balance_of_def find_wallet_def)
  then show ?thesis
    using late_failure_refunds_completed_job [OF row(1-3) j(1-3), unfolded j, OF ok(1) charge(1) ok(2,3) charge(2,3),
        of 0 "''sweeper''" "''job.failed''" "''late''"]
    by (auto elim!: wp_post_mono)
qed

end
