(* ===== verification/Success_Settlement.thy ===== *)
theory Success_Settlement
  imports Failure_Cascade Settlement_Runner Dispute_History
begin

text \<open>
  The settlement of a successful job by the server: the payout happens once, whoever calls again and with
  whatever copy of the row, and a dispute or an open verification withholds it.
\<close>

text \<open>The payments move no column of a job but the charge of an escrowed one.\<close>

definition uncharged :: "job \<Rightarrow> job" where
  "uncharged j = j\<lparr>charge_tx_id := []\<rparr>"

interpretation job_table: untouched_table "\<lambda>d. map uncharged (jobs d)"
  by unfold_locales (simp_all add: uncharged_def map_update_rows_same)

interpretation owner_table: untouched_table "\<lambda>d. map owner_id (wallets d)"
  by unfold_locales simp_all

interpretation agent_table: untouched_table agent_rows
  by unfold_locales simp_all

lemma find_wallet_by_owner_keys:
  "find_wallet_by_owner w d \<noteq> None \<longleftrightarrow> w \<in> set (map owner_id (wallets d))"
  by (auto simp: find_wallet_by_owner_def find_None_iff)

lemma find_uncharged:
  assumes "map uncharged (jobs d') = map uncharged (jobs d)" and "find_job x d = Some j"
  shows "\<exists>k. find_job x d' = Some k \<and> uncharged k = uncharged j"
proof -
  have id: "job_id (uncharged i) = job_id i" for i by (simp add: uncharged_def)
  have "map_option uncharged (find (\<lambda>i. job_id i = x) js) = find (\<lambda>i. job_id i = x) (map uncharged js)" for js
    by (induction js) (simp_all add: id)
  then have "map_option uncharged (find_job x d') = map_option uncharged (find_job x d)" using assms(1) by (simp add: find_job_def)
  with assms(2) show ?thesis by (cases "find_job x d'") auto
qed

text \<open>The server and the job store read the state of the verification alike, but for an armed one.\<close>

lemma server_verification_status_eq:
  "server_verification_status j = (if verification_status j = ''armed'' then ''not_required'' else verification_status j)"
  by (auto simp: server_verification_status_def verification_status_def normalize_output_verification_status_def lowered_def
      or_text_def or_empty_def OUTPUT_VERIFICATION_STATUSES_def Let_def)

text \<open>A completed job whose output nobody has to verify any more.\<close>

definition verified :: "job \<Rightarrow> bool" where
  "verified j \<longleftrightarrow> job_state j = Complete \<and> completed_at j \<noteq> None \<and>
     (if to_non_negative_int (Some (output_verification_window_seconds j)) 0 \<le> 0 then verification_untouched j
      else verification_status j \<in> {''accepted'', ''expired''})"

lemma verified_status: "verified j \<Longrightarrow> server_verification_status j \<notin> {''pending'', ''rejected''}"
  by (auto simp: verified_def server_verification_status_eq verification_untouched_def split: if_splits)

lemma wp_initialize_verified:
  assumes "find_job job d = Some j" and "verified j"
  shows "wp (initialize_output_verification_state e job) Q E d = Q (Some j) (d\<lparr>tx_failed := False\<rparr>)"
  using assms
  by (auto simp: initialize_output_verification_state_def initialize_in_transaction_def wp_simps pg_failed_def verified_def Let_def
      split: if_splits)

lemma wp_has_dispute: "wp (has_dispute_for_job e job) Q E d = Q (dispute_of_job job d \<noteq> None) (d\<lparr>tx_failed := False\<rparr>)"
  by (simp add: has_dispute_for_job_def wp_simps pg_failed_def dispute_of_job_def)

text \<open>What only touches statistics, trust and events leaves the money, the jobs and the disputes.\<close>

definition aside :: "db \<Rightarrow> db \<Rightarrow> bool" where
  "aside d d' \<longleftrightarrow> (ledger_ok d \<longrightarrow> ledger_ok d') \<and> (\<forall>w. balance_of w d' = balance_of w d) \<and>
     transactions d' = transactions d \<and> jobs d' = jobs d \<and> disputes d' = disputes d \<and>
     map owner_id (wallets d') = map owner_id (wallets d)"

lemma aside_tables:
  "wallets d' = wallets d \<Longrightarrow> transactions d' = transactions d \<Longrightarrow> jobs d' = jobs d \<Longrightarrow> disputes d' = disputes d \<Longrightarrow> aside d d'"
  using ledger_ok_tables [of d' d] by (simp add: aside_def balance_of_def find_wallet_def)

lemma aside_trans: "aside d d1 \<Longrightarrow> aside d1 d2 \<Longrightarrow> aside d d2"
  by (simp add: aside_def)

lemma wp_count_success:
  assumes "\<forall>r\<in>set (agent_rows d). agent_check r"
  shows "wp (update_call_stats e a l True p) (\<lambda>_ d'. aside d d') (\<lambda>_ _. False) d"
  using assms
  by (auto simp: update_call_stats_def wp_simps pg_failed_def ball_update_rows agent_check_def counted_row_def Let_def
      intro!: aside_tables split: option.splits)

lemma aside_trust:
  assumes ok: "ledger_ok d" and w: "wallets d' = update_rows p (\<lambda>v. v\<lparr>caller_trust := x\<rparr>) (wallets d)"
    and t: "transactions d' = transactions d" "jobs d' = jobs d" "disputes d' = disputes d"
  shows "aside d d'"
proof -
  let ?d = "d\<lparr>wallets := update_rows p (\<lambda>v. v\<lparr>caller_trust := x\<rparr>) (wallets d)\<rparr>"
  have "ledger_ok ?d" using ok by (intro ledger_ok_rewriting ok) (auto simp: ledger_ok_def wallet_check_def)
  then have "ledger_ok d'" using ledger_ok_tables [of d' ?d] w t by simp
  moreover have "find_wallet i d' = map_option (\<lambda>v. if p v then v\<lparr>caller_trust := x\<rparr> else v) (find_wallet i d)" for i
    using w by (simp add: find_wallet_def find_update_same)
  moreover have "map owner_id (wallets d') = map owner_id (wallets d)" unfolding w by (rule map_update_rows_same) simp
  ultimately show ?thesis using t by (auto simp: aside_def balance_of_def split: option.split)
qed

lemma wp_trust_bump:
  assumes w: "find_wallet_by_owner owner d = Some w" and owner: "py_strip owner = owner" "owner \<noteq> []" and ok: "ledger_ok d"
  shows "wp (catchE (bindE (adjust_caller_trust_once e owner delta r rel) (\<lambda>_. ret ())) (\<lambda>_. ret ()))
     (\<lambda>_ d'. aside d d') (\<lambda>_ _. False) d"
proof -
  have f: "find_wallet_by_owner owner (d\<lparr>tx_failed := b\<rparr>) = Some w" for b using w by (simp add: find_wallet_by_owner_def)
  have same: "aside d (d\<lparr>tx_failed := b\<rparr>)" for b by (rule aside_tables) simp_all
  have "wp (get_caller_trust e owner) (\<lambda>_ d'. aside d d') (\<lambda>_ d'. aside d d') (d\<lparr>tx_failed := False\<rparr>)"
    using f owner same by (simp add: get_caller_trust_def get_or_create_wallet_def dict_row_def wp_simps pg_failed_def Let_def)
  moreover have "wp (adjust_caller_trust e owner delta r rel2) (\<lambda>_ d'. aside d d') (\<lambda>_ d'. aside d d') (d\<lparr>tx_failed := False\<rparr>)" for rel2
    using f owner same unfolding adjust_caller_trust_def
    by (auto simp: wp_simps pg_failed_def Let_def intro!: aside_trust [OF ok])
  ultimately have "wp (adjust_caller_trust_once e owner delta r rel) (\<lambda>_ d'. aside d d') (\<lambda>_ d'. aside d d') d"
    unfolding adjust_caller_trust_once_def wp_bindE wp_transact wp_select wp_if by (auto simp: pg_failed_def wp_ret elim!: wp_post_mono)
  then show ?thesis unfolding wp_catchE wp_bindE wp_ret by (rule wp_post_mono) simp_all
qed

section \<open>Paid once\<close>

text \<open>Once a job is settled, a later call with any copy of the row changes no table.\<close>

definition only_flag :: "db \<Rightarrow> db \<Rightarrow> bool" where
  "only_flag d d' \<longleftrightarrow> (\<exists>b. d' = d\<lparr>tx_failed := b\<rparr>)"

lemma wp_both: "wp m Q E d \<Longrightarrow> wp n Q E d \<Longrightarrow> wp (if b then m else n) Q E d"
  by simp

lemma wp_settle_again:
  assumes k: "find_job (job_id k) d = Some k" "verified k" "settled_at k \<noteq> None" and r: "job_id r = job_id k"
  shows "wp (settle_successful_job e curve_of r actor require) (\<lambda>r d2. r = k \<and> only_flag d d2) (\<lambda>_ _. False) d"
proof -
  have f: "find_job (job_id k) (d\<lparr>tx_failed := b\<rparr>) = Some k" for b using k(1) by (simp add: find_job_def)
  have read: "wp (current_job e k) (\<lambda>r d2. r = k \<and> only_flag d d2) (\<lambda>_ _. False) (d\<lparr>tx_failed := b\<rparr>)" for b
    unfolding wp_current_job f option.case by (auto simp: only_flag_def)
  then have "wp (bindE (current_job e k) (\<lambda>s. bindE (whenE False (m s)) (\<lambda>_. ret s))) (\<lambda>r d2. r = k \<and> only_flag d d2) (\<lambda>_ _. False)
      (d\<lparr>tx_failed := b\<rparr>)" for b m
    unfolding wp_bindE wp_whenE if_False wp_ret .
  then have "wp (bindE (if settled_at k = None then pay_successful_job e curve_of k else ret False) (\<lambda>n.
       bindE (current_job e k) (\<lambda>s. bindE (whenE n (m s)) (\<lambda>_. ret s)))) (\<lambda>r d2. r = k \<and> only_flag d d2) (\<lambda>_ _. False)
      (d\<lparr>tx_failed := b\<rparr>)" for b m
    unfolding if_not_P [OF k(3)] wp_bindE [of "ret False"] wp_ret [of False] .
  with read show ?thesis
    unfolding settle_successful_job_def r wp_bindE [of "initialize_output_verification_state e (job_id k)"]
      wp_initialize_verified [OF k(1,2)] option.case Let_def wp_bindE [of "has_dispute_for_job e (job_id k)"] wp_has_dispute
    by (intro wp_both) simp_all
qed

text \<open>The job after the payout: stamped, and otherwise as it was but for the charge.\<close>

definition paid_rows :: "env \<Rightarrow> job \<Rightarrow> db \<Rightarrow> db \<Rightarrow> bool" where
  "paid_rows e j d d' \<longleftrightarrow> disputes d' = disputes d \<and>
     (\<exists>k. find_job (job_id j) d' = Some k \<and> uncharged k = uncharged (j\<lparr>settled_at := Some (now e)\<rparr>))"

lemma wp_mark_unsettled:
  assumes "\<forall>i\<in>set (jobs d). job_check i" and "find_job (job_id j) d = Some k" and "settled_at k = None"
  shows "wp (mark_settled e (job_id j)) (\<lambda>n d'. n \<and> find_job (job_id j) d' = Some (k\<lparr>settled_at := Some (now e)\<rparr>) \<and>
     wallets d' = wallets d \<and> transactions d' = transactions d \<and> disputes d' = disputes d \<and> agent_rows d' = agent_rows d \<and>
     (\<forall>i\<in>set (jobs d'). job_check i))
     (\<lambda>_ _. False) d"
proof -
  let ?p = "\<lambda>i. job_id i = job_id j \<and> settled_at i = None" and ?f = "\<lambda>i. i\<lparr>settled_at := Some (now e)\<rparr>"
  have k: "k \<in> set (jobs d)" "job_id k = job_id j" using find_job_id [OF assms(2)] by simp_all
  then have "0 < count_where ?p (jobs d)" using assms(3) count_where_0 [of ?p "jobs d"] by auto
  moreover have "find (\<lambda>i. job_id i = job_id j) (update_rows ?p ?f (jobs d)) = Some (k\<lparr>settled_at := Some (now e)\<rparr>)"
    using assms(2,3) k by (simp add: find_job_def find_update_same)
  moreover have "job_check (?f i) = job_check i" for i by (simp add: job_check_def)
  ultimately show ?thesis using assms(1)
    by (simp add: mark_settled_def wp_simps pg_failed_def find_job_def ball_update_rows)
qed

text \<open>What the settlement of a success needs of the tables: sound rows and the wallet of a human caller.\<close>

definition payable_tables :: "job \<Rightarrow> db \<Rightarrow> bool" where
  "payable_tables j d \<longleftrightarrow> (\<forall>i\<in>set (map uncharged (jobs d)). job_check i) \<and> (\<forall>r\<in>set (agent_rows d). agent_check r) \<and>
     py_strip (caller_owner_id j) \<in> set (map owner_id (wallets d))"

definition paid_out :: "job \<Rightarrow> distribution \<Rightarrow> db \<Rightarrow> db \<Rightarrow> bool" where
  "paid_out j s d d' \<longleftrightarrow> ledger_ok d' \<and>
     (\<forall>w. balance_of w d' = balance_of w d + (if w = agent_wallet_id j then dist_agent_payout_cents s else 0) +
            (if w = platform_wallet_id j then dist_platform_fee_cents s else 0))"

lemma paid_out_aside: "paid_out j s d d1 \<Longrightarrow> aside d1 d2 \<Longrightarrow> paid_out j s d d2"
  by (simp add: paid_out_def aside_def)

lemma keeps_conj: "keeps P m \<Longrightarrow> keeps Q m \<Longrightarrow> keeps (\<lambda>d. P d \<and> Q d) m"
  by (simp add: keeps_def)

lemma keeps_payout_tables:
  "keeps (\<lambda>d. (map uncharged (jobs d) = J \<and> disputes d = D) \<and> (agent_rows d = A \<and> map owner_id (wallets d) = N))
     (post_call_payout e aw pw c price agent pct policy job window curve)"
  by (rule keeps_conj [OF keeps_conj [OF job_table.keeps_payout [where Q = "\<lambda>r. r = J"] dispute_table.keeps_payout [where Q = "\<lambda>r. r = D"]]
        keeps_conj [OF agent_table.keeps_payout [where Q = "\<lambda>r. r = A"] owner_table.keeps_payout [where Q = "\<lambda>r. r = N"]]])

lemma job_check_uncharged: "job_check (uncharged i) = job_check i"
  by (simp add: job_check_def uncharged_def)

lemma uncharged_settled: "uncharged k = uncharged j \<Longrightarrow> uncharged (k\<lparr>settled_at := t\<rparr>) = uncharged (j\<lparr>settled_at := t\<rparr>)"
proof -
  have "uncharged (i\<lparr>settled_at := t\<rparr>) = (uncharged i)\<lparr>settled_at := t\<rparr>" for i by (simp add: uncharged_def)
  then show "uncharged k = uncharged j \<Longrightarrow> uncharged (k\<lparr>settled_at := t\<rparr>) = uncharged (j\<lparr>settled_at := t\<rparr>)" by simp
qed

lemma paid_rows_aside: "paid_rows e j d d1 \<Longrightarrow> aside d1 d2 \<Longrightarrow> paid_rows e j d d2"
  by (simp add: paid_rows_def aside_def find_job_def)

lemma wp_count_success_job:
  assumes "ledger_ok d" and "\<forall>r\<in>set (agent_rows d). agent_check r"
    and "py_strip (caller_owner_id j) \<in> set (map owner_id (wallets d))"
  shows "wp (count_success e j) (\<lambda>_ d'. aside d d') (\<lambda>_ _. False) d"
  unfolding count_success_def wp_bindE
proof (rule wp_post_mono [OF wp_count_success [OF assms(2)]])
  fix d1 assume a: "aside d d1"
  let ?owner = "py_strip (caller_owner_id j)"
  have "ledger_ok d1" "?owner \<in> set (map owner_id (wallets d1))" using a assms by (simp_all add: aside_def)
  then obtain w where w: "find_wallet_by_owner ?owner d1 = Some w" using find_wallet_by_owner_keys by blast
  have "wp (catchE (bindE (adjust_caller_trust_once (uuids_from 8 e) ?owner (1 / 1000) ''job_settled_clean'' (job_id j)) (\<lambda>_. ret ()))
      (\<lambda>_. ret ())) (\<lambda>_ d2. aside d1 d2) (\<lambda>_ _. False) d1" if "?owner \<noteq> []"
    using wp_trust_bump [OF w py_strip_idem that \<open>ledger_ok d1\<close>] .
  then show "wp (whenE (prefix ''user:'' ?owner)
       (catchE (bindE (adjust_caller_trust_once (uuids_from 8 e) ?owner (1 / 1000) ''job_settled_clean'' (job_id j)) (\<lambda>_. ret ()))
          (\<lambda>_. ret ()))) (\<lambda>_ d'. aside d d') (\<lambda>_ _. False) d1"
    unfolding wp_whenE using a aside_trans [OF a] by (cases "?owner = []") (auto elim!: wp_post_mono)
qed simp

text \<open>A payout that nothing stands in the way of.\<close>

definition payout_ready :: "env \<Rightarrow> job \<Rightarrow> distribution \<Rightarrow> db \<Rightarrow> bool" where
  "payout_ready e j s d \<longleftrightarrow> ledger_ok d \<and> find_job (job_id j) d = Some j \<and> settled_at j = None \<and> payable_tables j d \<and>
     compute_success_distribution (PLATFORM_FEE_PCT e) (price_cents j) (Some (platform_fee_pct_at_create j))
       (Some (fee_bearer_policy j)) = Inr s \<and>
     has_wallet (agent_wallet_id j) d \<and> has_wallet (platform_wallet_id j) d \<and>
     \<not> is_escrow_tx_id (charge_tx_id j) \<and> open_charge (charge_tx_id j) d \<and>
     new_id (uuid e 1) d \<and> new_id (uuid e 2) d \<and> uuid e 1 \<noteq> uuid e 2 \<and> no_hold_for (uuid e 3) (job_id j) d"

definition same_rows :: "db \<Rightarrow> db \<Rightarrow> bool" where
  "same_rows d d1 \<longleftrightarrow> map uncharged (jobs d1) = map uncharged (jobs d) \<and> disputes d1 = disputes d \<and>
     agent_rows d1 = agent_rows d \<and> map owner_id (wallets d1) = map owner_id (wallets d)"

lemma wp_payout_of_job:
  assumes r: "payout_ready e j s d"
  shows "wp (post_call_payout e (agent_wallet_id j) (platform_wallet_id j) (charge_tx_id j) (price_cents j) (agent_id j)
       (Some (platform_fee_pct_at_create j)) (Some (fee_bearer_policy j)) (Some (job_id j)) window curve)
     (\<lambda>_ d1. paid_out j s d d1 \<and> same_rows d d1) (\<lambda>_ _. False) d"
proof (rule wp_post_mono [OF wp_conj])
  show "wp (post_call_payout e (agent_wallet_id j) (platform_wallet_id j) (charge_tx_id j) (price_cents j) (agent_id j)
       (Some (platform_fee_pct_at_create j)) (Some (fee_bearer_policy j)) (Some (job_id j)) window curve)
     (\<lambda>_ d1. ledger_ok d1 \<and>
        (\<forall>w. balance_of w d1 = balance_of w d + (if w = agent_wallet_id j then dist_agent_payout_cents s else 0) +
               (if w = platform_wallet_id j then dist_platform_fee_cents s else 0)) \<and>
        (let held = hold_amount (Some (job_id j)) window (dist_agent_payout_cents s) curve in
           held \<le> dist_agent_payout_cents s \<and>
           (\<forall>w. active_held w d1 = active_held w d + (if w = agent_wallet_id j then held else 0)))) (\<lambda>_ _. False) d"
    using r by (intro wp_post_call_payout) (simp_all add: payout_ready_def or_empty_def)
  show "wp (post_call_payout e (agent_wallet_id j) (platform_wallet_id j) (charge_tx_id j) (price_cents j) (agent_id j)
       (Some (platform_fee_pct_at_create j)) (Some (fee_bearer_policy j)) (Some (job_id j)) window curve)
     (\<lambda>_ d1. same_rows d d1) (\<lambda>_ d1. same_rows d d1) d"
    by (rule wp_post_mono [OF keeps_wp [OF keeps_payout_tables]]) (auto simp: same_rows_def)
qed (simp_all add: paid_out_def)

lemma wp_mark_paid:
  assumes r: "payout_ready e j s d" and d1: "paid_out j s d d1" "same_rows d d1"
  shows "wp (mark_settled e (job_id j)) (\<lambda>n d2. n \<and> paid_out j s d d2 \<and> paid_rows e j d d2 \<and> agent_rows d2 = agent_rows d1 \<and>
     wallets d2 = wallets d1) (\<lambda>_ _. False) d1"
proof -
  obtain k where k: "find_job (job_id j) d1 = Some k" "uncharged k = uncharged j"
    using find_uncharged [of d1 d "job_id j" j] r d1(2) by (auto simp: payout_ready_def same_rows_def)
  have "settled_at (uncharged i) = settled_at i" for i by (simp add: uncharged_def)
  with k(2) have "settled_at k = settled_at j" by metis
  then have unsettled: "settled_at k = None" using r by (simp add: payout_ready_def)
  have "\<forall>i\<in>set (map uncharged (jobs d1)). job_check i"
    using r d1(2) unfolding payout_ready_def payable_tables_def same_rows_def by simp
  then have "\<forall>i\<in>set (jobs d1). job_check i" by (simp add: job_check_uncharged)
  from wp_mark_unsettled [OF this k(1) unsettled] show ?thesis
  proof (rule wp_post_mono)
    fix n d2 assume d2: "n \<and> find_job (job_id j) d2 = Some (k\<lparr>settled_at := Some (now e)\<rparr>) \<and> wallets d2 = wallets d1 \<and>
        transactions d2 = transactions d1 \<and> disputes d2 = disputes d1 \<and> agent_rows d2 = agent_rows d1 \<and>
        (\<forall>i\<in>set (jobs d2). job_check i)"
    then have "paid_rows e j d d2" using uncharged_settled [OF k(2)] d1(2) by (simp add: paid_rows_def same_rows_def)
    moreover have "paid_out j s d d2"
      using d1(1) d2 ledger_ok_tables [of d2 d1] by (simp add: paid_out_def balance_of_def find_wallet_def)
    ultimately show "n \<and> paid_out j s d d2 \<and> paid_rows e j d d2 \<and> agent_rows d2 = agent_rows d1 \<and> wallets d2 = wallets d1"
      using d2 by simp
  qed simp
qed

lemma wp_pay_successful:
  assumes r: "payout_ready e j s d"
  shows "wp (pay_successful_job e curve_of j) (\<lambda>n d'. n \<and> paid_out j s d d' \<and> paid_rows e j d d') (\<lambda>_ _. False) d"
proof -
  let ?d = "d\<lparr>tx_failed := False\<rparr>"
  have r0: "payout_ready e j s ?d" and same: "paid_out j s ?d = paid_out j s d" "same_rows ?d = same_rows d"
    using r by (simp_all add: payout_ready_def payable_tables_def find_job_def paid_out_def same_rows_def fun_eq_iff)
  have count: "wp (count_success e j) (\<lambda>_ d'. paid_out j s d d' \<and> paid_rows e j d d') (\<lambda>_ _. False) d2"
    if d2: "paid_out j s d d2" "paid_rows e j d d2" "agent_rows d2 = agent_rows d1" "wallets d2 = wallets d1"
      and d1: "same_rows d d1" for d1 d2
  proof (rule wp_post_mono [OF wp_count_success_job])
    show "ledger_ok d2" using d2(1) by (simp add: paid_out_def)
    show "\<forall>r\<in>set (agent_rows d2). agent_check r" "py_strip (caller_owner_id j) \<in> set (map owner_id (wallets d2))"
      using r d1 d2(3,4) unfolding payout_ready_def payable_tables_def same_rows_def by simp_all
  qed (use paid_out_aside [OF d2(1)] paid_rows_aside [OF d2(2)] in auto)
  have settle: "wp (bindE (mark_settled e (job_id j)) (\<lambda>n. bindE (whenE n (count_success e j)) (\<lambda>_. ret n)))
      (\<lambda>n d'. n \<and> paid_out j s d d' \<and> paid_rows e j d d') (\<lambda>_ _. False) d1"
    if d1: "paid_out j s d d1" "same_rows d d1" for d1
    unfolding wp_bindE wp_whenE wp_ret
    by (rule wp_post_mono [OF wp_mark_paid [OF r d1]]) (auto intro: wp_post_mono [OF count [OF _ _ _ _ d1(2)]])
  have pay: "wp (post_call_payout e (agent_wallet_id j) (platform_wallet_id j) (charge_tx_id j) (price_cents j) (agent_id j)
       (Some (platform_fee_pct_at_create j)) (Some (fee_bearer_policy j)) (Some (job_id j)) window curve)
      (\<lambda>_. wp (bindE (mark_settled e (job_id j)) (\<lambda>n. bindE (whenE n (count_success e j)) (\<lambda>_. ret n)))
         (\<lambda>n d'. n \<and> paid_out j s d d' \<and> paid_rows e j d d') (\<lambda>_ _. False)) (\<lambda>_ _. False) ?d" for window curve
    by (rule wp_post_mono [OF wp_payout_of_job [OF r0]]) (use settle in \<open>simp_all only: same\<close>)
  have chain: "wp (bindE (post_call_payout e (agent_wallet_id j) (platform_wallet_id j) (charge_tx_id j) (price_cents j) (agent_id j)
       (Some (platform_fee_pct_at_create j)) (Some (fee_bearer_policy j)) (Some (job_id j)) window curve) (\<lambda>_.
       bindE (mark_settled e (job_id j)) (\<lambda>n. bindE (whenE n (count_success e j)) (\<lambda>_. ret n))))
      (\<lambda>n d'. n \<and> paid_out j s d d' \<and> paid_rows e j d d') (\<lambda>_ _. False) ?d" for window curve
    unfolding wp_bindE [of "post_call_payout _ _ _ _ _ _ _ _ _ _ _"] by (rule pay)
  have read: "wp (read_agent e a) Q E d = Q (find_agent a ?d) ?d" for a Q E
    by (simp add: read_agent_def wp_simps pg_failed_def)
  show ?thesis
    unfolding pay_successful_job_def wp_bindE [of "read_agent e (agent_id j)"] read by (rule chain)
qed

lemma verified_cong:
  "verified (uncharged k) = verified k" "verified (j\<lparr>settled_at := t\<rparr>) = verified j"
  by (simp_all add: verified_def verification_untouched_def verification_status_def uncharged_def)

lemma paid_rows_again:
  assumes "paid_rows e j d d'" and "verified j"
  obtains k where "find_job (job_id j) d' = Some k" and "settled_at k = Some (now e)" and "verified k" and "job_id k = job_id j"
proof -
  obtain k where k: "find_job (job_id j) d' = Some k" "uncharged k = uncharged (j\<lparr>settled_at := Some (now e)\<rparr>)"
    using assms(1) by (auto simp: paid_rows_def)
  have same: "settled_at k = settled_at (uncharged k)" "job_id k = job_id (uncharged k)" "verified k = verified (uncharged k)"
    by (simp_all add: verified_cong) (simp_all add: uncharged_def)
  have "settled_at k = Some (now e)" "job_id k = job_id j" "verified k"
    unfolding same k(2) using assms(2) by (simp_all add: verified_cong) (simp_all add: uncharged_def)
  then show ?thesis using that k(1) by blast
qed

lemma double_flag: "d\<lparr>tx_failed := a, tx_failed := b\<rparr> = d\<lparr>tx_failed := b\<rparr>" for d :: db
  by simp

lemma wp_settle_verified:
  assumes row: "find_job (job_id j) d = Some j" and v: "verified j" and undisputed: "dispute_of_job (job_id j) d = None"
    and window: "\<not> (REQUIRE_VERIFICATION e \<and> require \<and> is_dispute_window_open e j)" and r: "job_id row = job_id j"
  shows "wp (settle_successful_job e curve_of row actor require) Q E d =
     wp (bindE (if settled_at j = None then pay_successful_job e curve_of j else ret False) (\<lambda>newly_settled.
       bindE (current_job e j) (\<lambda>settled.
       bindE (whenE newly_settled
                (bindE (record_job_event e (Some settled) ''job.settled'' (Some actor)
                          [(''status'', JStr (status_text (job_state settled))), (''settled_at'', time_json (settled_at settled))])
                   (\<lambda>_. ret ()))) (\<lambda>_.
       ret settled)))) Q E (d\<lparr>tx_failed := False\<rparr>)"
proof -
  have no_hold: "\<not> (dispute_of_job (job_id j) (d\<lparr>tx_failed := False\<rparr>) \<noteq> None \<or>
      server_verification_status j \<in> {''pending'', ''rejected''} \<or>
      (REQUIRE_VERIFICATION e \<and> require \<and> is_dispute_window_open e j))"
    using undisputed window verified_status [OF v] by (simp add: dispute_of_job_def)
  show ?thesis
    unfolding settle_successful_job_def r wp_bindE [of "initialize_output_verification_state e (job_id j)"]
      wp_initialize_verified [OF row v] option.case Let_def wp_bindE [of "has_dispute_for_job e (job_id j)"] wp_has_dispute
      if_not_P [OF no_hold] by (simp only: double_flag)
qed

lemma aside_events: "aside d (d\<lparr>tx_failed := b\<rparr>)" "aside d (d\<lparr>job_events := es, tx_failed := b\<rparr>)"
  by (rule aside_tables; simp)+

text \<open>
  C6. A successful job is paid once. When the job is completed, verified and undisputed and its charge is
  open, the settlement pays the agent and the platform their shares, keeps the ledger balanced, stamps the
  job and counts the call; from then on a settlement of the job, by whomever and with whatever stale
  copy of the row, answers the settled row and changes no table.
\<close>

theorem successful_job_is_paid_once:
  assumes ready: "payout_ready e j s d" and v: "verified j" and undisputed: "dispute_of_job (job_id j) d = None"
    and window: "\<not> (REQUIRE_VERIFICATION e \<and> require \<and> is_dispute_window_open e j)" and r: "job_id row = job_id j"
  shows "wp (settle_successful_job e curve_of row actor require)
     (\<lambda>k d'. settled_at k = Some (now e) \<and> find_job (job_id j) d' = Some k \<and> ledger_ok d' \<and>
        (\<forall>w. balance_of w d' = balance_of w d + (if w = agent_wallet_id j then dist_agent_payout_cents s else 0) +
               (if w = platform_wallet_id j then dist_platform_fee_cents s else 0)) \<and>
        (\<forall>e2 curve2 row2 actor2 require2. job_id row2 = job_id j \<longrightarrow>
           wp (settle_successful_job e2 curve2 row2 actor2 require2) (\<lambda>k2 d2. k2 = k \<and> only_flag d' d2) (\<lambda>_ _. False) d'))
     (\<lambda>_ _. False) d"
proof -
  let ?d = "d\<lparr>tx_failed := False\<rparr>"
  let ?R = "\<lambda>k d'. settled_at k = Some (now e) \<and> find_job (job_id j) d' = Some k \<and> ledger_ok d' \<and>
        (\<forall>w. balance_of w d' = balance_of w d + (if w = agent_wallet_id j then dist_agent_payout_cents s else 0) +
               (if w = platform_wallet_id j then dist_platform_fee_cents s else 0)) \<and>
        (\<forall>e2 curve2 row2 actor2 require2. job_id row2 = job_id j \<longrightarrow>
           wp (settle_successful_job e2 curve2 row2 actor2 require2) (\<lambda>k2 d2. k2 = k \<and> only_flag d' d2) (\<lambda>_ _. False) d')"
  have r0: "payout_ready e j s ?d" and same: "paid_out j s ?d = paid_out j s d" "paid_rows e j ?d = paid_rows e j d"
    using ready by (simp_all add: payout_ready_def payable_tables_def find_job_def paid_out_def paid_rows_def fun_eq_iff)
  have row: "find_job (job_id j) d = Some j" and unsettled: "settled_at j = None" using ready by (simp_all add: payout_ready_def)
  have finished: "?R k d3" if "paid_out j s d d3" "paid_rows e j d d3" "find_job (job_id j) d3 = Some k" for k d3
  proof -
    obtain i where i: "find_job (job_id j) d3 = Some i" "settled_at i = Some (now e)" "verified i" "job_id i = job_id j"
      using paid_rows_again [OF \<open>paid_rows e j d d3\<close> v] .
    with that have "i = k" by simp
    with i have k: "find_job (job_id k) d3 = Some k" "verified k" "settled_at k \<noteq> None" "job_id k = job_id j" by simp_all
    then show ?thesis using i \<open>i = k\<close> that(1) wp_settle_again [OF k(1-3)] by (simp add: paid_out_def)
  qed
  have tail: "wp (bindE (current_job e j) (\<lambda>k. bindE (whenE n (bindE (record_job_event e (Some k) kind (Some actor) (doc k)) (\<lambda>_. ret ())))
      (\<lambda>_. ret k))) ?R (\<lambda>_ _. False) d2"
    if d2: "paid_out j s d d2" "paid_rows e j d d2" for n kind doc d2
  proof -
    obtain k where k: "find_job (job_id j) d2 = Some k" using paid_rows_again [OF d2(2) v] by blast
    have after: "?R k (d2\<lparr>tx_failed := False\<rparr>)" "?R k (d2\<lparr>job_events := es, tx_failed := False\<rparr>)" for es
      by (rule finished [OF paid_out_aside [OF d2(1) aside_events(1)] paid_rows_aside [OF d2(2) aside_events(1)]],
          use k in \<open>simp add: find_job_def\<close>,
          rule finished [OF paid_out_aside [OF d2(1) aside_events(2)] paid_rows_aside [OF d2(2) aside_events(2)]],
          use k in \<open>simp add: find_job_def\<close>)
    show ?thesis
      unfolding wp_bindE wp_current_job k option.case wp_whenE wp_record_job_event Let_def wp_ret
      using after by (cases n) simp_all
  qed
  have pay: "wp (bindE (if settled_at j = None then pay_successful_job e curve_of j else ret False) (\<lambda>n.
      bindE (current_job e j) (\<lambda>k. bindE (whenE n (bindE (record_job_event e (Some k) kind (Some actor) (doc k)) (\<lambda>_. ret ())))
      (\<lambda>_. ret k)))) ?R (\<lambda>_ _. False) ?d" for kind doc
    unfolding if_P [OF unsettled] wp_bindE [of "pay_successful_job e curve_of j"]
    by (rule wp_post_mono [OF wp_pay_successful [OF r0]]) (use tail same in auto)
  show ?thesis
    unfolding wp_settle_verified [OF row v undisputed window r] by (rule pay)
qed

lemma successful_job_is_paid_once_witness:
  "wp (settle_successful_job (sample_env SQLite) (\<lambda>_. None) sample_late_job ''worker'' True)
     (\<lambda>k d'. settled_at k = Some 1700000000000000 \<and> balance_of ''w2'' d' = 100 \<and> balance_of ''w3'' d' = 10) (\<lambda>_ _. False)
     (sample_db\<lparr>jobs := [sample_late_job]\<rparr>)"
proof -
  let ?d = "sample_db\<lparr>jobs := [sample_late_job]\<rparr>"
  let ?s = "\<lparr>dist_caller_charge_cents = 110, dist_agent_payout_cents = 100, dist_platform_fee_cents = 10\<rparr>"
  have ok: "ledger_ok ?d" using sample_ledger_ok ledger_ok_tables [of ?d sample_db] by simp
  have s: "compute_success_distribution (PLATFORM_FEE_PCT (sample_env SQLite)) (price_cents sample_late_job)
      (Some (platform_fee_pct_at_create sample_late_job)) (Some (fee_bearer_policy sample_late_job)) = Inr ?s"
    by (simp add: sample_late_job_def sample_job_def compute_success_distribution_def
        compute_platform_fee_cents_value effective_pct_def policy_defs Let_def) (simp add: round_half_up_def floor_eq_iff)
  have owner: "py_strip ''user:alice'' = ''user:alice''" by (simp add: py_strip_def py_space_def)
  have tables: "payable_tables sample_late_job ?d"
    by (simp add: payable_tables_def job_check_uncharged) (simp add: sample_late_job_def sample_job_def job_check_def owner sample_defs)
  have ready: "payout_ready (sample_env SQLite) sample_late_job ?s ?d"
    unfolding payout_ready_def using ok s tables
    by (simp add: sample_late_job_def sample_job_def sample_defs find_job_def has_wallet_def is_escrow_tx_id_def ESCROW_TX_PREFIX_def
        open_charge_def related_in_def new_id_def no_hold_for_def)
  have untouched: "verification_untouched sample_late_job"
    by (simp add: verification_untouched_def verification_status_def normalize_output_verification_status_def lowered_def or_text_def
        or_empty_def OUTPUT_VERIFICATION_STATUSES_def sample_late_job_def sample_job_def py_lower_def lower_char_def py_strip_def
        py_space_def clean_optional_text_def Let_def)
  have verified: "verified sample_late_job"
    using untouched by (simp add: verified_def) (simp add: sample_late_job_def sample_job_def to_non_negative_int_def)
  have undisputed: "dispute_of_job (job_id sample_late_job) ?d = None" by (simp add: dispute_of_job_def sample_defs)
  have window: "\<not> (REQUIRE_VERIFICATION (sample_env SQLite) \<and> True \<and> is_dispute_window_open (sample_env SQLite) sample_late_job)"
    by (simp add: sample_env_def)
  from successful_job_is_paid_once [OF ready verified undisputed window refl, of "\<lambda>_. None" "''worker''"]
  show ?thesis
    by (rule wp_post_mono) (auto simp: sample_late_job_def sample_job_def sample_defs balance_of_def find_wallet_def)
qed

end
