(* ===== verification/Worker_Leases.thy ===== *)
theory Worker_Leases
  imports Sample
begin

text \<open>
  \<open>core/background_leases.py\<close>: the leadership lease of a background worker. One row per kind of worker names
  its holder until the lease expires. The statements of \<open>acquire_or_renew\<close> are not one atomic step: another
  worker may read and write between its \<open>SELECT\<close> and its write, and the step relation below interleaves
  them. The table is taken to exist.
\<close>

section \<open>Operations\<close>

text \<open>What a process knows about itself: its holder name, its host and its process id.\<close>

record process =
  holder_name :: string
  hostname :: string
  pid :: int

definition find_lease :: "string \<Rightarrow> db \<Rightarrow> worker_lease option" where
  "find_lease kind d = find (\<lambda>r. lease_kind r = kind) (background_worker_leases d)"

definition current_lease_holder :: "env \<Rightarrow> string \<Rightarrow> (db, worker_lease option) prog" where
  "current_lease_holder e kind = transact (select e (find_lease kind))"

text \<open>\<open>_is_expired\<close> and \<open>_takeover_lease\<close> differ at the very moment of the expiry.\<close>

definition lease_expired :: "int \<Rightarrow> int \<Rightarrow> bool" where
  "lease_expired expires t \<longleftrightarrow> expires \<le> t"

definition later :: "int \<Rightarrow> int \<Rightarrow> int" where
  "later t seconds = t + seconds * micros_per_second"

definition update_leases :: "env \<Rightarrow> (worker_lease \<Rightarrow> bool) \<Rightarrow> (worker_lease \<Rightarrow> worker_lease) \<Rightarrow> (db, bool) prog" where
  "update_leases e p f =
     bindE (update_stmt e background_worker_leases (\<lambda>rs d. d\<lparr>background_worker_leases := rs\<rparr>) (\<lambda>_. True) p f)
       (\<lambda>n. ret (0 < n))"

definition insert_lease :: "env \<Rightarrow> string \<Rightarrow> process \<Rightarrow> int \<Rightarrow> int \<Rightarrow> (db, bool) prog" where
  "insert_lease e kind w acquired expires =
     catch_when is_integrity
       (bindE (insert_stmt e background_worker_leases (\<lambda>rs d. d\<lparr>background_worker_leases := rs\<rparr>)
            (\<lambda>r d. find_lease (lease_kind r) d = None)
            \<lparr>lease_kind = kind, lease_holder = holder_name w, lease_hostname = hostname w, lease_pid = pid w,
             lease_acquired_at = acquired, lease_expires = expires, lease_heartbeat_at = acquired\<rparr>)
         (\<lambda>_. ret True))
       (ret False)"

definition renew_lease :: "env \<Rightarrow> string \<Rightarrow> process \<Rightarrow> int \<Rightarrow> int \<Rightarrow> (db, bool) prog" where
  "renew_lease e kind w expires heartbeat =
     update_leases e (\<lambda>r. lease_kind r = kind \<and> lease_holder r = holder_name w)
       (\<lambda>r. r\<lparr>lease_expires := expires, lease_heartbeat_at := heartbeat\<rparr>)"

definition takeover_lease :: "env \<Rightarrow> string \<Rightarrow> string \<Rightarrow> process \<Rightarrow> int \<Rightarrow> int \<Rightarrow> (db, bool) prog" where
  "takeover_lease e kind prev w acquired expires =
     update_leases e (\<lambda>r. lease_kind r = kind \<and> lease_holder r = prev \<and> lease_expires r < acquired)
       (\<lambda>r. r\<lparr>lease_holder := holder_name w, lease_hostname := hostname w, lease_pid := pid w,
          lease_acquired_at := acquired, lease_expires := expires, lease_heartbeat_at := acquired\<rparr>)"

text \<open>What \<open>acquire_or_renew\<close> does with the row that it read, at the time \<open>t\<close> of the call.\<close>

definition write_lease :: "env \<Rightarrow> string \<Rightarrow> process \<Rightarrow> int \<Rightarrow> int \<Rightarrow> worker_lease option \<Rightarrow> (db, bool) prog" where
  "write_lease e kind w seconds t row =
     (case row of
        None \<Rightarrow> insert_lease e kind w t (later t seconds)
      | Some r \<Rightarrow>
          if py_strip (lease_holder r) = holder_name w then renew_lease e kind w (later t seconds) t
          else if lease_expired (lease_expires r) t
               then takeover_lease e kind (py_strip (lease_holder r)) w t (later t seconds)
          else ret False)"

definition acquire_or_renew :: "env \<Rightarrow> string \<Rightarrow> process \<Rightarrow> int \<Rightarrow> (db, bool) prog" where
  "acquire_or_renew e kind w seconds =
     bindE (raise_if (kind = [] \<or> holder_name w = []) (ValueError ''kind and holder_id are required''))
       (\<lambda>_. transact (bindE (select e (find_lease kind)) (write_lease e kind w seconds (now e))))"

definition release_lease :: "env \<Rightarrow> string \<Rightarrow> process \<Rightarrow> (db, bool) prog" where
  "release_lease e kind w =
     transact (stmt e (\<lambda>d.
       let p = (\<lambda>r. lease_kind r = kind \<and> lease_holder r = holder_name w)
       in (Inr (0 < count_where p (background_worker_leases d)),
           d\<lparr>background_worker_leases := filter (\<lambda>r. \<not> p r) (background_worker_leases d)\<rparr>)))"

section \<open>One call\<close>

definition leases_ok :: "db \<Rightarrow> bool" where
  "leases_ok d \<longleftrightarrow> distinct (map lease_kind (background_worker_leases d)) \<and>
     (\<forall>r\<in>set (background_worker_leases d). py_strip (lease_holder r) = lease_holder r)"

text \<open>Another worker may take the lease over: there is none, or it has run out.\<close>

definition lease_free :: "string \<Rightarrow> int \<Rightarrow> db \<Rightarrow> bool" where
  "lease_free kind t d \<longleftrightarrow> (case find_lease kind d of None \<Rightarrow> True | Some r \<Rightarrow> lease_expires r < t)"

definition holds_lease :: "string \<Rightarrow> string \<Rightarrow> db \<Rightarrow> bool" where
  "holds_lease kind h d \<longleftrightarrow> (\<exists>r. find_lease kind d = Some r \<and> lease_holder r = h)"

lemma find_lease_kind: "find_lease kind d = Some r \<Longrightarrow> lease_kind r = kind \<and> r \<in> set (background_worker_leases d)"
  by (auto simp: find_lease_def dest: find_SomeD)

lemma find_lease_flag [simp]: "find_lease kind (d\<lparr>tx_failed := b\<rparr>) = find_lease kind d"
  by (simp add: find_lease_def)

lemma leases_ok_flag [simp]: "leases_ok (d\<lparr>tx_failed := b\<rparr>) = leases_ok d"
  by (simp add: leases_ok_def)

lemma no_lease: "find_lease kind d = None \<longleftrightarrow> kind \<notin> lease_kind ` set (background_worker_leases d)"
  by (auto simp: find_lease_def find_None_iff)

lemma the_lease:
  assumes "leases_ok d" and "find_lease kind d = Some r" and "s \<in> set (background_worker_leases d)" and "lease_kind s = kind"
  shows "s = r"
  using assms find_distinct_key [of lease_kind "background_worker_leases d" s]
  by (auto simp: leases_ok_def find_lease_def)

lemma count_where_pos: "0 < count_where p rows \<longleftrightarrow> (\<exists>r\<in>set rows. p r)"
  by (induction rows) auto

lemma wp_update_leases [wp_simps]:
  "wp (update_leases e p f) Q E d =
     (if pg_failed e d then E InFailedSqlTransaction d
      else Q (\<exists>r\<in>set (background_worker_leases d). p r)
             (d\<lparr>background_worker_leases := update_rows p f (background_worker_leases d)\<rparr>))"
  by (simp add: update_leases_def wp_simps count_where_pos)

text \<open>
  The outcome of the write depends on the row in the table, not on the row that was read: it succeeds only
  for the holder of the lease or on a free one, and then the lease is the caller's until the new expiry;
  otherwise the table stays as it is.
\<close>

definition lease_written :: "string \<Rightarrow> process \<Rightarrow> int \<Rightarrow> db \<Rightarrow> bool \<Rightarrow> db \<Rightarrow> bool" where
  "lease_written kind w expires d won d' \<longleftrightarrow>
     (if won
      then (\<exists>r. find_lease kind d' = Some r \<and> lease_holder r = holder_name w \<and> lease_expires r = expires) \<and>
           (\<forall>k. k \<noteq> kind \<longrightarrow> find_lease k d' = find_lease k d)
      else background_worker_leases d' = background_worker_leases d)"

lemma find_update_other:
  "(\<And>r. p r \<Longrightarrow> lease_kind r = kind) \<Longrightarrow> (\<And>r. lease_kind (f r) = lease_kind r) \<Longrightarrow> k \<noteq> kind \<Longrightarrow>
   find (\<lambda>r. lease_kind r = k) (update_rows p f rs) = find (\<lambda>r. lease_kind r = k) rs"
  by (induction rs) auto

lemma update_writes_lease:
  assumes ok: "leases_ok d" and p: "\<And>r. p r \<Longrightarrow> lease_kind r = kind"
    and f: "\<And>r. lease_kind (f r) = lease_kind r"
    and won: "\<And>r. p r \<Longrightarrow> lease_holder (f r) = holder_name w \<and> lease_expires (f r) = expires"
    and w: "py_strip (holder_name w) = holder_name w"
  shows "leases_ok (d\<lparr>background_worker_leases := update_rows p f (background_worker_leases d)\<rparr>) \<and>
    lease_written kind w expires d (\<exists>r\<in>set (background_worker_leases d). p r)
      (d\<lparr>background_worker_leases := update_rows p f (background_worker_leases d)\<rparr>)"
proof (intro conjI)
  let ?d = "d\<lparr>background_worker_leases := update_rows p f (background_worker_leases d)\<rparr>"
  have "map lease_kind (background_worker_leases ?d) = map lease_kind (background_worker_leases d)"
    using f by (simp add: map_update_rows_same)
  then show "leases_ok ?d"
    using ok won w by (simp add: leases_ok_def ball_update_rows)
  show "lease_written kind w expires d (\<exists>r\<in>set (background_worker_leases d). p r) ?d"
  proof (cases "\<exists>r\<in>set (background_worker_leases d). p r")
    case True
    then obtain r where r: "r \<in> set (background_worker_leases d)" "p r" by blast
    then have "find_lease kind d = Some r"
      using p find_distinct_key [of lease_kind "background_worker_leases d" r] ok by (simp add: leases_ok_def find_lease_def)
    then have "find_lease kind ?d = Some (f r)"
      using r f find_update_same [of p "\<lambda>r. lease_kind r = kind" f] by (simp add: find_lease_def)
    then show ?thesis
      using True r won find_update_other [of p kind f] p f by (auto simp: lease_written_def find_lease_def)
  next
    case False
    then show ?thesis by (auto simp: lease_written_def intro!: update_rows_none)
  qed
qed

lemma wp_insert_lease:
  assumes "leases_ok d" and "py_strip (holder_name w) = holder_name w" and "\<not> tx_failed d"
  shows "wp (insert_lease e kind w t u)
    (\<lambda>won d'. won = (find_lease kind d = None) \<and> leases_ok d' \<and> lease_written kind w u d won d' \<and>
       (won \<longrightarrow> \<not> tx_failed d')) (\<lambda>_ _. False) d"
  using assms no_lease [of kind d]
  by (auto simp: insert_lease_def wp_simps pg_failed_def leases_ok_def lease_written_def find_lease_def find_append split: option.splits)

lemma wp_write_lease:
  assumes "leases_ok d" and "py_strip (holder_name w) = holder_name w" and "\<not> tx_failed d"
  shows "wp (write_lease e kind w seconds t row)
    (\<lambda>won d'. leases_ok d' \<and> lease_written kind w (later t seconds) d won d' \<and> (won \<longrightarrow> \<not> tx_failed d') \<and>
       (won \<longrightarrow> lease_free kind t d \<or> holds_lease kind (holder_name w) d) \<and>
       (row = find_lease kind d \<longrightarrow> lease_free kind t d \<or> holds_lease kind (holder_name w) d \<longrightarrow> won)) (\<lambda>_ _. False) d"
proof (cases row)
  case None
  show ?thesis
    unfolding None write_lease_def option.case
    by (rule wp_post_mono [OF wp_insert_lease [OF assms]]) (auto simp: lease_free_def holds_lease_def)
next
  case (Some r)
  have ok: "\<not> pg_failed e d" using assms(3) by (simp add: pg_failed_def)
  have mine: "s = x" if "s \<in> set (background_worker_leases d)" "lease_kind s = kind" "find_lease kind d = Some x" for s x
    using the_lease [OF assms(1)] that by blast
  have found: "\<exists>x. find_lease kind d = Some x" if "s \<in> set (background_worker_leases d)" "lease_kind s = kind" for s
    using no_lease [of kind d] that by (cases "find_lease kind d") auto
  have own: "row = find_lease kind d \<Longrightarrow> r \<in> set (background_worker_leases d) \<and> lease_kind r = kind \<and> py_strip (lease_holder r) = lease_holder r"
    using Some assms(1) find_lease_kind [of kind d r] by (auto simp: leases_ok_def)
  have won: "lease_free kind t d \<or> holds_lease kind (holder_name w) d"
    if "\<exists>s\<in>set (background_worker_leases d). lease_kind s = kind \<and> (lease_holder s = holder_name w \<or> lease_expires s < t)"
    using that found mine unfolding lease_free_def holds_lease_def by force
  have R: ?thesis if "py_strip (lease_holder r) = holder_name w"
    using that ok own Some won assms(3) update_writes_lease [OF assms(1) _ _ _ assms(2), of
        "\<lambda>s. lease_kind s = kind \<and> lease_holder s = holder_name w" kind
        "\<lambda>s. s\<lparr>lease_expires := later t seconds, lease_heartbeat_at := t\<rparr>" "later t seconds"]
    by (auto simp: write_lease_def renew_lease_def wp_update_leases)
  have T: ?thesis if "py_strip (lease_holder r) \<noteq> holder_name w" "lease_expired (lease_expires r) t"
    using that ok own Some won assms(3) update_writes_lease [OF assms(1) _ _ _ assms(2), of
        "\<lambda>s. lease_kind s = kind \<and> lease_holder s = py_strip (lease_holder r) \<and> lease_expires s < t" kind
        "\<lambda>s. s\<lparr>lease_holder := holder_name w, lease_hostname := hostname w, lease_pid := pid w, lease_acquired_at := t,
           lease_expires := later t seconds, lease_heartbeat_at := t\<rparr>" "later t seconds"]
    by (auto simp: write_lease_def takeover_lease_def wp_update_leases lease_free_def holds_lease_def eq_commute [of "Some r"])
  show ?thesis
  proof (cases "py_strip (lease_holder r) = holder_name w \<or> lease_expired (lease_expires r) t")
    case True
    then show ?thesis using R T by blast
  next
    case False
    then show ?thesis
      using Some own assms(1) by (auto simp: write_lease_def wp_ret lease_written_def lease_free_def holds_lease_def lease_expired_def
          eq_commute [of "Some r"])
  qed
qed

lemma wp_acquire_or_renew:
  assumes "leases_ok d" and "py_strip (holder_name w) = holder_name w" and "kind \<noteq> []" and "holder_name w \<noteq> []"
  shows "wp (acquire_or_renew e kind w seconds)
    (\<lambda>won d'. leases_ok d' \<and> lease_written kind w (later (now e) seconds) d won d' \<and>
       (won \<longleftrightarrow> lease_free kind (now e) d \<or> holds_lease kind (holder_name w) d)) (\<lambda>_ _. False) d"
proof -
  let ?d = "d\<lparr>tx_failed := False\<rparr>"
  have "wp (write_lease e kind w seconds (now e) (find_lease kind ?d))
    (\<lambda>won d'. leases_ok d' \<and> lease_written kind w (later (now e) seconds) ?d won d' \<and> (won \<longrightarrow> \<not> tx_failed d') \<and>
       (won \<longleftrightarrow> lease_free kind (now e) ?d \<or> holds_lease kind (holder_name w) ?d)) (\<lambda>_ _. False) ?d"
    by (rule wp_post_mono [OF wp_write_lease]) (use assms in auto)
  then show ?thesis
    using assms by (auto simp: acquire_or_renew_def wp_simps pg_failed_def lease_written_def lease_free_def holds_lease_def
        elim!: wp_post_mono)
qed

text \<open>
  C30. A call of \<open>acquire_or_renew\<close> never fails on well-formed leases. It answers whether the caller leads, and it
  does exactly when there is no lease, when the lease has run out, or when the lease is the caller's already:
  a crashed leader holds the office no longer than its lease. A caller that leads owns the row until the
  new expiry; one that does not leaves the table alone.
\<close>

theorem expired_lease_is_taken_over:
  assumes "leases_ok d" and "py_strip (holder_name w) = holder_name w" and "kind \<noteq> []" and "holder_name w \<noteq> []"
  shows "\<exists>won d'. acquire_or_renew e kind w seconds d = (Inr won, d') \<and>
    (won \<longleftrightarrow> (\<forall>r. find_lease kind d = Some r \<longrightarrow> lease_expires r < now e \<or> lease_holder r = holder_name w)) \<and>
    (won \<longrightarrow> (\<exists>r. find_lease kind d' = Some r \<and> lease_holder r = holder_name w \<and>
       lease_expires r = now e + seconds * 1000000)) \<and>
    (\<not> won \<longrightarrow> background_worker_leases d' = background_worker_leases d) \<and> leases_ok d'"
proof -
  obtain won d' where run: "acquire_or_renew e kind w seconds d = (Inr won, d')"
    using wpD_Inl [OF wp_acquire_or_renew [OF assms]] by (metis old.prod.exhaust old.sum.exhaust)
  have "lease_free kind (now e) d \<or> holds_lease kind (holder_name w) d \<longleftrightarrow>
      (\<forall>r. find_lease kind d = Some r \<longrightarrow> lease_expires r < now e \<or> lease_holder r = holder_name w)"
    by (auto simp: lease_free_def holds_lease_def split: option.splits)
  with wpD_Inr [OF wp_acquire_or_renew [OF assms] run] run show ?thesis
    by (auto simp: lease_written_def later_def micros_per_second_def split: if_splits)
qed

definition sample_process :: "string \<Rightarrow> process" where
  "sample_process h = \<lparr>holder_name = h, hostname = ''host'', pid = 7\<rparr>"

lemma expired_lease_is_taken_over_witness:
  "\<exists>won d'. acquire_or_renew (sample_env Postgres) ''dispute_judge'' (sample_process ''a'') 60 sample_db = (Inr won, d') \<and> won"
  using expired_lease_is_taken_over [of sample_db "sample_process ''a''" "''dispute_judge''" "sample_env Postgres" 60]
  by (auto simp: sample_process_def sample_db_def leases_ok_def find_lease_def py_strip_def py_space_def)

section \<open>Interleaved calls\<close>

text \<open>
  Where a worker is in its call: it has read the clock, or the row as well. \<open>leads\<close> is what its last call
  told it: that it leads until some time. One worker of a name runs at a time, and it may crash and
  begin anew at any point.
\<close>

datatype phase = Idle | Asked int int | Seen int int "worker_lease option"

record election =
  election_db :: db
  clock :: int
  phase_of :: "string \<Rightarrow> string \<Rightarrow> phase"
  leads :: "string \<Rightarrow> string \<Rightarrow> int option"

definition set_phase :: "string \<Rightarrow> string \<Rightarrow> phase \<Rightarrow> election \<Rightarrow> election" where
  "set_phase kind h ph s = s\<lparr>phase_of := (phase_of s)(kind := (phase_of s kind)(h := ph))\<rparr>"

definition set_leads :: "string \<Rightarrow> string \<Rightarrow> int option \<Rightarrow> election \<Rightarrow> election" where
  "set_leads kind h u s = s\<lparr>leads := (leads s)(kind := (leads s kind)(h := u))\<rparr>"

inductive election_step :: "env \<Rightarrow> election \<Rightarrow> election \<Rightarrow> bool" for e where
  tick: "clock s \<le> t \<Longrightarrow> election_step e s (s\<lparr>clock := t\<rparr>)"
| ask: "py_strip h = h \<Longrightarrow> election_step e s (set_phase kind h (Asked (clock s) seconds) s)"
| look: "phase_of s kind h = Asked t seconds \<Longrightarrow>
    election_step e s (set_phase kind h (Seen t seconds (find_lease kind (election_db s))) s)"
| finish: "phase_of s kind (holder_name w) = Seen t seconds row \<Longrightarrow>
    transact (write_lease e kind w seconds t row) (election_db s) = (Inr won, d') \<Longrightarrow>
    election_step e s (set_phase kind (holder_name w) Idle
      (set_leads kind (holder_name w) (if won then Some (later t seconds) else None) (s\<lparr>election_db := d'\<rparr>)))"
| resign: "release_lease e kind w (election_db s) = (Inr b, d') \<Longrightarrow>
    election_step e s (set_phase kind (holder_name w) Idle (set_leads kind (holder_name w) None (s\<lparr>election_db := d'\<rparr>)))"

inductive election_run :: "env \<Rightarrow> election \<Rightarrow> election \<Rightarrow> bool" for e where
  start: "election_run e s s"
| further: "election_run e s s' \<Longrightarrow> election_step e s' s'' \<Longrightarrow> election_run e s s''"

text \<open>The statements of a call in a row are the call.\<close>

lemma acquire_is_read_then_write:
  "kind \<noteq> [] \<Longrightarrow> holder_name w \<noteq> [] \<Longrightarrow>
   acquire_or_renew e kind w seconds d = transact (write_lease e kind w seconds (now e) (find_lease kind d)) d"
  by (simp add: acquire_or_renew_def op_defs)

fun asked_at :: "phase \<Rightarrow> int option" where
  "asked_at Idle = None"
| "asked_at (Asked t _) = Some t"
| "asked_at (Seen t _ _) = Some t"

definition secures :: "string \<Rightarrow> string \<Rightarrow> int \<Rightarrow> db \<Rightarrow> bool" where
  "secures kind h u d \<longleftrightarrow> (\<exists>r. find_lease kind d = Some r \<and> lease_holder r = h \<and> u \<le> lease_expires r)"

definition election_ok :: "election \<Rightarrow> bool" where
  "election_ok s \<longleftrightarrow> leases_ok (election_db s) \<and>
     (\<forall>k h t. asked_at (phase_of s k h) = Some t \<longrightarrow> t \<le> clock s \<and> py_strip h = h) \<and>
     (\<forall>k h u. leads s k h = Some u \<longrightarrow> clock s \<le> u \<longrightarrow> secures k h u (election_db s))"

lemma phase_simps [simp]:
  "election_db (set_phase k h ph s) = election_db s" "clock (set_phase k h ph s) = clock s" "leads (set_phase k h ph s) = leads s"
  "phase_of (set_phase k h ph s) k' h' = (if k' = k \<and> h' = h then ph else phase_of s k' h')"
  "election_db (set_leads k h u s) = election_db s" "clock (set_leads k h u s) = clock s" "phase_of (set_leads k h u s) = phase_of s"
  "leads (set_leads k h u s) k' h' = (if k' = k \<and> h' = h then u else leads s k' h')"
  by (simp_all add: set_phase_def set_leads_def)

lemma finish_write:
  assumes "leases_ok d" and "py_strip (holder_name w) = holder_name w"
    and "transact (write_lease e kind w seconds t row) d = (Inr won, d')"
  shows "leases_ok d' \<and> lease_written kind w (later t seconds) d won d' \<and>
    (won \<longrightarrow> lease_free kind t d \<or> holds_lease kind (holder_name w) d)"
proof -
  have "wp (write_lease e kind w seconds t row)
    (\<lambda>won d'. leases_ok d' \<and> lease_written kind w (later t seconds) d won d' \<and> (won \<longrightarrow> \<not> tx_failed d') \<and>
       (won \<longrightarrow> lease_free kind t d \<or> holds_lease kind (holder_name w) d)) (\<lambda>_ _. False) (d\<lparr>tx_failed := False\<rparr>)"
    by (rule wp_post_mono [OF wp_write_lease]) (use assms(1,2) in \<open>auto simp: lease_written_def lease_free_def holds_lease_def\<close>)
  then have "wp (transact (write_lease e kind w seconds t row))
    (\<lambda>won d'. leases_ok d' \<and> lease_written kind w (later t seconds) d won d' \<and>
       (won \<longrightarrow> lease_free kind t d \<or> holds_lease kind (holder_name w) d)) (\<lambda>_ _. False) d"
    using assms(1) by (auto simp: wp_transact lease_written_def elim!: wp_post_mono)
  from wpD_Inr [OF this assms(3)] show ?thesis .
qed

text \<open>A write leaves alone every lease of others that has not run out at the time of the call.\<close>

lemma finish_secures:
  assumes "leases_ok d" and "py_strip (holder_name w) = holder_name w"
    and "transact (write_lease e kind w seconds t row) d = (Inr won, d')"
    and "secures k h u d" and "t \<le> u" and "k \<noteq> kind \<or> h \<noteq> holder_name w"
  shows "secures k h u d'"
  using finish_write [OF assms(1-3)] assms(4-6)
  by (cases "k = kind") (auto simp: lease_written_def secures_def lease_free_def holds_lease_def find_lease_def split: if_splits)

lemma release_secures:
  assumes "release_lease e kind w d = (Inr b, d')"
  shows "leases_ok d \<Longrightarrow> leases_ok d'" and "secures k h u d \<Longrightarrow> k \<noteq> kind \<or> h \<noteq> holder_name w \<Longrightarrow> secures k h u d'"
proof -
  have d': "background_worker_leases d' =
      filter (\<lambda>r. \<not> (lease_kind r = kind \<and> lease_holder r = holder_name w)) (background_worker_leases d)"
    using assms by (auto simp: release_lease_def op_defs Let_def split: if_splits)
  show "leases_ok d'" if "leases_ok d"
    using that by (auto simp: d' leases_ok_def distinct_map inj_on_def)
  have "find p (filter q rs) = Some r" if "find p rs = Some r" "q r" for p q rs and r :: worker_lease
    using that by (induction rs) (auto split: if_splits)
  then show "secures k h u d'" if "secures k h u d" "k \<noteq> kind \<or> h \<noteq> holder_name w"
    using that find_lease_kind [of k d] by (fastforce simp: secures_def find_lease_def d')
qed

lemma election_step_ok: "election_step e s s' \<Longrightarrow> election_ok s \<Longrightarrow> election_ok s'"
proof (induction rule: election_step.induct)
  case (tick s t)
  then show ?case by (force simp: election_ok_def)
next
  case (ask h s kind seconds)
  then show ?case by (auto simp: election_ok_def)
next
  case (look s kind h t seconds)
  then show ?case by (auto simp: election_ok_def) (metis asked_at.simps(2))+
next
  case (finish s kind w t seconds row won d')
  let ?d = "election_db s"
  from finish have ok: "leases_ok ?d" and t: "t \<le> clock s" and w: "py_strip (holder_name w) = holder_name w"
    by (auto simp: election_ok_def) (metis asked_at.simps(3))+
  from finish_write [OF ok w finish(2)] have W: "leases_ok d'" "lease_written kind w (later t seconds) ?d won d'"
    by blast+
  have "secures k h u d'" if "k \<noteq> kind \<or> h \<noteq> holder_name w" "leads s k h = Some u" "clock s \<le> u" for k h u
    using finish_secures [OF ok w finish(2) _ _ that(1)] that t finish(3) by (fastforce simp: election_ok_def)
  moreover have "won \<Longrightarrow> secures kind (holder_name w) (later t seconds) d'"
    using W(2) by (auto simp: lease_written_def secures_def)
  ultimately show ?case
    using finish(3) W(1) by (auto simp: election_ok_def split: if_splits)
next
  case (resign kind w s b d')
  then show ?case
    using release_secures [OF resign(1)] by (auto simp: election_ok_def)
qed

text \<open>
  C11. At most one worker of a kind leads. Whatever the calls of \<open>acquire_or_renew\<close> and \<open>release\<close> of any workers do,
  with their statements interleaved in any order and with crashes in between: two workers are never both
  within the time for which their last call gave them the lead, although the reads of the table and the
  writes that follow them are not one transaction.
\<close>

theorem leadership_is_exclusive:
  assumes "election_run e s s'" and "leases_ok (election_db s)"
    and "phase_of s = (\<lambda>_ _. Idle)" and "leads s = (\<lambda>_ _. None)"
    and "leads s' kind h = Some u" and "leads s' kind h' = Some u'" and "h \<noteq> h'"
  shows "u < clock s' \<or> u' < clock s'"
proof -
  have "election_run e s s' \<Longrightarrow> election_ok s \<Longrightarrow> election_ok s'"
    by (induction rule: election_run.induct) (auto intro: election_step_ok)
  moreover have "election_ok s" using assms(2-4) by (simp add: election_ok_def)
  ultimately have "election_ok s'" using assms(1) by blast
  then have "clock s' \<le> u \<Longrightarrow> secures kind h u (election_db s')" "clock s' \<le> u' \<Longrightarrow> secures kind h' u' (election_db s')"
    using assms(5,6) by (simp_all add: election_ok_def)
  then show ?thesis using assms(7) by (force simp: secures_def)
qed

text \<open>Worker \<open>a\<close> takes the lead for a minute; when it has run out, worker \<open>b\<close> takes over.\<close>

definition sample_election :: "db \<Rightarrow> int \<Rightarrow> (string \<Rightarrow> string \<Rightarrow> phase) \<Rightarrow> (string \<Rightarrow> string \<Rightarrow> int option) \<Rightarrow> election" where
  "sample_election d t ph l = \<lparr>election_db = d, clock = t, phase_of = ph, leads = l\<rparr>"

definition sample_lease :: "string \<Rightarrow> int \<Rightarrow> worker_lease" where
  "sample_lease h t = \<lparr>lease_kind = ''judge'', lease_holder = h, lease_hostname = ''host'', lease_pid = 7,
     lease_acquired_at = t, lease_expires = t + 60000000, lease_heartbeat_at = t\<rparr>"

lemma sample_turn:
  assumes "transact (write_lease e ''judge'' (sample_process h) 60 (clock s) (find_lease ''judge'' (election_db s))) (election_db s) = (Inr True, d')"
    and "py_strip h = h"
  shows "\<exists>s'. election_run e s s' \<and> election_db s' = d' \<and> clock s' = clock s \<and>
    leads s' ''judge'' h = Some (clock s + 60000000) \<and> (\<forall>h'. h' \<noteq> h \<longrightarrow> leads s' ''judge'' h' = leads s ''judge'' h')"
proof -
  let ?s1 = "set_phase ''judge'' h (Asked (clock s) 60) s"
  let ?s2 = "set_phase ''judge'' h (Seen (clock s) 60 (find_lease ''judge'' (election_db s))) ?s1"
  let ?s3 = "set_phase ''judge'' h Idle (set_leads ''judge'' h (Some (clock s + 60000000)) (?s2\<lparr>election_db := d'\<rparr>))"
  have n: "holder_name (sample_process h) = h" by (simp add: sample_process_def)
  have "election_step e s ?s1" using assms(2) by (rule election_step.ask)
  moreover have "election_step e ?s1 ?s2" using election_step.look [of ?s1 "''judge''" h "clock s" 60 e] by simp
  moreover have "election_step e ?s2 ?s3"
    using election_step.finish [of ?s2 "''judge''" "sample_process h" "clock s" 60 _ e True d'] assms(1)
    by (simp add: n later_def micros_per_second_def)
  ultimately have "election_run e s ?s3" by (meson election_run.intros)
  then show ?thesis by (intro exI [of _ ?s3]) (simp add: set_phase_def set_leads_def)
qed

lemma election_run_trans: "election_run e s' s'' \<Longrightarrow> election_run e s s' \<Longrightarrow> election_run e s s''"
  by (induction rule: election_run.induct) (auto intro: election_run.intros)

lemma sample_succession:
  "\<exists>s. election_run (sample_env b) (sample_election sample_db 0 (\<lambda>_ _. Idle) (\<lambda>_ _. None)) s \<and> clock s = 61000000 \<and>
     leads s ''judge'' ''a'' = Some 60000000 \<and> leads s ''judge'' ''b'' = Some 121000000"
proof -
  let ?s = "sample_election sample_db 0 (\<lambda>_ _. Idle) (\<lambda>_ _. None)" and ?e = "sample_env b"
  have a: "transact (write_lease ?e ''judge'' (sample_process ''a'') 60 (clock ?s) (find_lease ''judge'' (election_db ?s))) (election_db ?s)
      = (Inr True, sample_db\<lparr>background_worker_leases := [sample_lease ''a'' 0]\<rparr>)"
    by (simp add: sample_election_def write_lease_def insert_lease_def op_defs find_lease_def sample_db_def sample_lease_def
        sample_process_def later_def micros_per_second_def)
  obtain s where s: "election_run ?e ?s s" "election_db s = sample_db\<lparr>background_worker_leases := [sample_lease ''a'' 0]\<rparr>"
      "leads s ''judge'' ''a'' = Some 60000000" "clock s = 0"
    using sample_turn [OF a] by (auto simp: sample_election_def py_strip_def py_space_def)
  let ?t = "s\<lparr>clock := 61000000\<rparr>"
  have t: "election_run ?e ?s ?t" 
    by (rule election_run.further [OF s(1)]) (rule election_step.tick, simp add: s(4))
  have b: "transact (write_lease ?e ''judge'' (sample_process ''b'') 60 (clock ?t) (find_lease ''judge'' (election_db ?t))) (election_db ?t)
      = (Inr True, sample_db\<lparr>background_worker_leases := [sample_lease ''b'' 61000000]\<rparr>)"
    by (simp add: s(2) write_lease_def takeover_lease_def update_leases_def lease_expired_def op_defs find_lease_def sample_db_def
        sample_lease_def sample_process_def later_def micros_per_second_def py_strip_def py_space_def)
  from sample_turn [OF b] t s(3) show ?thesis
    by (auto simp: py_strip_def py_space_def dest: election_run_trans)
qed

lemma leadership_is_exclusive_witness:
  "\<exists>s. election_run (sample_env Postgres) (sample_election sample_db 0 (\<lambda>_ _. Idle) (\<lambda>_ _. None)) s \<and>
     (60000000 < clock s \<or> 121000000 < clock s)"
  using sample_succession [of Postgres] leadership_is_exclusive [of "sample_env Postgres"
      "sample_election sample_db 0 (\<lambda>_ _. Idle) (\<lambda>_ _. None)" _ "''judge''" "''a''" 60000000 "''b''" 121000000]
  by (auto simp: sample_election_def leases_ok_def sample_db_def)

end
