(* ===== verification/Variable_Pricing.thy ===== *)
theory Variable_Pricing
  imports Settlement Stop_Predicates Agent_Stats "HOL-Library.AList"
begin

text \<open>
  Prices by quantity: the terms of a listing and the price of one call (\<open>core/registry/pricing.py\<close>), and the
  refund when a call used less than it was charged for (\<open>server/pricing_helpers.py\<close>). A stored configuration
  is the record \<open>pricing_terms\<close>: registration stores nothing else, and the overlay of built-in agents is a
  parameter of that type. The text of a JSON value that is not a string (\<open>str(v)\<close>) is the parameter
  \<open>str_of\<close>; the human-readable \<open>detail\<close> of an estimate is left out. Rates are below the largest float, and products of rates,
  units and factors are exact rational numbers; what is modelled of \<open>decimal\<close> is that \<open>quantize\<close> refuses more than 28 digits.
\<close>

section \<open>Numbers in text\<close>

datatype number_text = Finite rat | Infinite | NotANumber

definition is_digit :: "char \<Rightarrow> bool" where
  "is_digit c \<longleftrightarrow> digit_value c \<noteq> None"

fun plain_digits :: "int \<Rightarrow> string \<Rightarrow> int option" where
  "plain_digits acc [] = Some acc"
| "plain_digits acc (c # cs) = (case digit_value c of None \<Rightarrow> None | Some n \<Rightarrow> plain_digits (acc * 10 + n) cs)"

fun split_sign :: "string \<Rightarrow> rat \<times> string" where
  "split_sign [] = (1, [])"
| "split_sign (c # cs) = (if c = CHR 0x2D then (- 1, cs) else if c = CHR 0x2B then (1, cs) else (1, c # cs))"

definition power_of_ten :: "string \<Rightarrow> rat option" where
  "power_of_ten s =
     (case split_sign s of (g, ds) \<Rightarrow>
       if ds = [] then None
       else map_option (\<lambda>n. if 0 \<le> g then 10 ^ nat n else 1 / 10 ^ nat n) (plain_digits 0 ds))"

text \<open>Digits with an optional point and exponent, in lower case and without underscores.\<close>

definition plain_number :: "string \<Rightarrow> rat option" where
  "plain_number s =
     (let mantissa = takeWhile (\<lambda>c. c \<noteq> CHR ''e'') s; rest = drop (length mantissa) s;
          whole = takeWhile (\<lambda>c. c \<noteq> CHR ''.'') mantissa; fraction = drop (Suc (length whole)) mantissa
      in if whole = [] \<and> fraction = [] then None
         else case (plain_digits 0 whole, plain_digits 0 fraction, if rest = [] then Some 1 else power_of_ten (drop 1 rest)) of
             (Some a, Some b, Some x) \<Rightarrow> Some ((of_int a + of_int b / 10 ^ length fraction) * x)
           | _ \<Rightarrow> None)"

definition read_number :: "string \<Rightarrow> number_text option" where
  "read_number s =
     (case split_sign (py_lower s) of (g, t) \<Rightarrow>
       if t \<in> {''inf'', ''infinity''} then Some Infinite
       else if t = ''nan'' then Some NotANumber
       else map_option (\<lambda>x. Finite (g * x)) (plain_number t))"

fun underscores_ok :: "bool \<Rightarrow> string \<Rightarrow> bool" where
  "underscores_ok digit [] = True"
| "underscores_ok digit (c # cs) =
     (if c = CHR ''_'' then digit \<and> (case cs of [] \<Rightarrow> False | n # _ \<Rightarrow> is_digit n) \<and> underscores_ok False cs
      else underscores_ok (is_digit c) cs)"

definition largest_float :: rat where
  "largest_float = 2 ^ 1024 - 2 ^ 970"

definition float_overflows :: "rat \<Rightarrow> bool" where
  "float_overflows x \<longleftrightarrow> largest_float \<le> \<bar>x\<bar>"

text \<open>\<open>float(text)\<close> and the value of \<open>Decimal(text)\<close>.\<close>

definition py_float :: "string \<Rightarrow> number_text option" where
  "py_float s =
     (let t = py_strip s in
      if \<not> underscores_ok False t then None
      else case read_number (filter (\<lambda>c. c \<noteq> CHR ''_'') t) of
          Some (Finite x) \<Rightarrow> Some (if float_overflows x then Infinite else Finite x)
        | r \<Rightarrow> r)"

definition py_decimal :: "string \<Rightarrow> number_text option" where
  "py_decimal s = read_number (filter (\<lambda>c. c \<noteq> CHR ''_'') (py_strip s))"

text \<open>
  A JSON number whose value is beyond the range of floats is written with an exponent (\<open>1e400\<close>): \<open>json.loads\<close> reads it as an infinite
  float, of which \<open>int\<close> raises \<open>OverflowError\<close>. No handler of this module catches that one.
\<close>

fun infinite_number :: "json \<Rightarrow> bool" where
  "infinite_number (JNum x) = float_overflows x"
| "infinite_number _ = False"

section \<open>Terms of a listing\<close>

definition VALID_PRICING_MODELS :: "string list" where
  "VALID_PRICING_MODELS = [''fixed'', ''per_unit'', ''tiered'']"

definition normalize_pricing_model :: "string option \<Rightarrow> exn + string" where
  "normalize_pricing_model value =
     (let text = py_lower (py_strip (or_empty value)) in
      if text = [] then Inr ''fixed''
      else if text \<notin> set VALID_PRICING_MODELS then Inl (ValueError ''pricing_model must be one of'')
      else Inr text)"

text \<open>\<open>str(v or '')\<close>.\<close>

definition text_or_empty :: "(json \<Rightarrow> string) \<Rightarrow> json option \<Rightarrow> string" where
  "text_or_empty str_of v =
     (case v of None \<Rightarrow> [] | Some (JStr s) \<Rightarrow> s | Some x \<Rightarrow> if is_truthy x then str_of x else [])"

fun to_int :: "json option \<Rightarrow> int \<Rightarrow> exn + int" where
  "to_int (Some (JBool b)) minimum = Inl (ValueError ''must be an integer, got a boolean.'')"
| "to_int v minimum =
     (if map_option infinite_number v = Some True then Inl OverflowError
      else case Option.bind v json_int of
        None \<Rightarrow> Inl (ValueError ''must be an integer'')
      | Some n \<Rightarrow> if n < minimum then Inl (ValueError ''must be >= minimum'') else Inr n)"

fun to_positive_decimal :: "json option \<Rightarrow> exn + rat" where
  "to_positive_decimal (Some (JNum x)) =
     (if float_overflows x \<or> x < 0 then Inl (ValueError ''must be a non-negative number.'') else Inr x)"
| "to_positive_decimal (Some (JStr s)) =
     (case py_decimal s of
        None \<Rightarrow> Inl (ValueError ''must be numeric'')
      | Some (Finite x) \<Rightarrow> if x < 0 then Inl (ValueError ''must be a non-negative number.'') else Inr x
      | Some _ \<Rightarrow> Inl (ValueError ''must be a non-negative number.''))"
| "to_positive_decimal _ = Inl (ValueError ''must be numeric'')"

fun to_factor :: "json \<Rightarrow> exn + rat" where
  "to_factor (JNum x) = (if float_overflows x \<or> x \<le> 0 then Inl (ValueError ''must be a positive number.'') else Inr x)"
| "to_factor (JBool b) = (if b then Inr 1 else Inl (ValueError ''must be a positive number.''))"
| "to_factor (JStr s) =
     (case py_float s of
        None \<Rightarrow> Inl (ValueError ''must be numeric.'')
      | Some (Finite x) \<Rightarrow> if x \<le> 0 then Inl (ValueError ''must be a positive number.'') else Inr x
      | Some _ \<Rightarrow> Inl (ValueError ''must be a positive number.''))"
| "to_factor _ = Inl (ValueError ''must be numeric.'')"

definition try_bind :: "exn + 'a \<Rightarrow> ('a \<Rightarrow> exn + 'b) \<Rightarrow> exn + 'b" where
  "try_bind r f = (case r of Inl ex \<Rightarrow> Inl ex | Inr x \<Rightarrow> f x)"

fun parse_factors :: "(string \<times> json) list \<Rightarrow> exn + (string \<times> rat) list" where
  "parse_factors [] = Inr []"
| "parse_factors ((k, v) # kvs) = try_bind (to_factor v) (\<lambda>x. try_bind (parse_factors kvs) (\<lambda>fs. Inr ((k, x) # fs)))"

definition parse_pricing_multipliers :: "json option \<Rightarrow> exn + (string \<times> rat) list" where
  "parse_pricing_multipliers v =
     (case v of
        None \<Rightarrow> Inr []
      | Some JNull \<Rightarrow> Inr []
      | Some (JObj kvs) \<Rightarrow> parse_factors kvs
      | Some _ \<Rightarrow> Inl (ValueError ''pricing_config.multipliers must be an object.''))"

fun parse_tiers :: "int option \<Rightarrow> json list \<Rightarrow> exn + (int \<times> int) list" where
  "parse_tiers prev [] = Inr []"
| "parse_tiers prev (JObj tier # rest) =
     try_bind (to_int (map_of tier ''up_to_units'') 1) (\<lambda>up_to.
     try_bind (to_int (map_of tier ''cents'') 0) (\<lambda>cents.
     if (case prev of None \<Rightarrow> False | Some l \<Rightarrow> up_to \<le> l)
     then Inl (ValueError ''pricing_config.tiers must be sorted ascending by up_to_units.'')
     else try_bind (parse_tiers (Some up_to) rest) (\<lambda>ts. Inr ((up_to, cents) # ts))))"
| "parse_tiers prev (_ # rest) = Inl (ValueError ''pricing_config.tiers must be an object.'')"

definition parse_pricing_tiers :: "json option \<Rightarrow> exn + (int \<times> int) list" where
  "parse_pricing_tiers v =
     (case v of
        Some (JArr (t # ts)) \<Rightarrow> parse_tiers None (t # ts)
      | _ \<Rightarrow> Inl (ValueError ''pricing_config.tiers must be a non-empty list for tiered pricing.''))"

definition parse_pricing_config_dict :: "(string \<Rightarrow> json option) \<Rightarrow> json option \<Rightarrow> exn + (string \<times> json) list" where
  "parse_pricing_config_dict loads raw =
     (case raw of
        None \<Rightarrow> Inl (ValueError ''pricing_config is required'')
      | Some JNull \<Rightarrow> Inl (ValueError ''pricing_config is required'')
      | Some (JObj kvs) \<Rightarrow> Inr kvs
      | Some (JStr s) \<Rightarrow>
          if s = [] then Inl (ValueError ''pricing_config is required'')
          else (case loads s of
              None \<Rightarrow> Inl (ValueError ''pricing_config is not valid JSON'')
            | Some (JObj kvs) \<Rightarrow> Inr kvs
            | Some _ \<Rightarrow> Inl (ValueError ''pricing_config must be an object.''))
      | Some _ \<Rightarrow> Inl (ValueError ''pricing_config must be an object.''))"

definition parse_pricing_bounds ::
  "(json \<Rightarrow> string) \<Rightarrow> (string \<times> json) list \<Rightarrow> exn + (string \<times> string \<times> int \<times> int option)" where
  "parse_pricing_bounds str_of raw =
     (let field = py_strip (text_or_empty str_of (map_of raw ''input_field'')) in
      if field = [] then Inl (ValueError ''pricing_config.input_field is required.'')
      else
        let unit = or_text (py_strip (or_text (text_or_empty str_of (map_of raw ''unit'')) field)) field in
        try_bind (case map_of raw ''min_cents'' of None \<Rightarrow> Inr 0 | v \<Rightarrow> to_int v 0) (\<lambda>lo.
        try_bind (case map_of raw ''max_cents'' of
              None \<Rightarrow> Inr None
            | Some JNull \<Rightarrow> Inr None
            | v \<Rightarrow> try_bind (to_int v 0) (\<lambda>n. Inr (Some n))) (\<lambda>hi.
        if (case hi of None \<Rightarrow> False | Some m \<Rightarrow> m < lo)
        then Inl (ValueError ''pricing_config.max_cents must be >= min_cents.'')
        else Inr (field, unit, lo, hi))))"

definition validate_pricing_config ::
  "(json \<Rightarrow> string) \<Rightarrow> (string \<Rightarrow> json option) \<Rightarrow> string option \<Rightarrow> json option \<Rightarrow> exn + pricing_terms option" where
  "validate_pricing_config str_of loads wanted raw =
     try_bind (normalize_pricing_model wanted) (\<lambda>model.
     if model = ''fixed'' then Inr None
     else
       try_bind (parse_pricing_config_dict loads raw) (\<lambda>kvs.
       try_bind (parse_pricing_bounds str_of kvs) (\<lambda>(field, unit, lo, hi).
       try_bind (parse_pricing_multipliers (map_of kvs ''multipliers'')) (\<lambda>factors.
       try_bind (if model = ''per_unit''
                 then try_bind (to_positive_decimal (map_of kvs ''rate_cents_per_unit'')) (\<lambda>x. Inr (x, []))
                 else try_bind (parse_pricing_tiers (map_of kvs ''tiers'')) (\<lambda>ts. Inr (0, ts))) (\<lambda>(rate, ts).
       Inr (Some \<lparr>terms_model = model, input_field = field, fallback_input_fields = [], unit_name = unit,
          min_cents = lo, max_cents = hi, multipliers = factors, rate_cents_per_unit = rate, tiers = ts\<rparr>))))))"

definition validate_pricing_config_result ::
  "(json \<Rightarrow> string) \<Rightarrow> (string \<Rightarrow> json option) \<Rightarrow> string option \<Rightarrow> json option \<Rightarrow> exn + (pricing_terms option, exn) result" where
  "validate_pricing_config_result str_of loads wanted raw =
     (case validate_pricing_config str_of loads wanted raw of
        Inl ex \<Rightarrow> if is_value_error ex then Inr (Err ex) else Inl ex
      | Inr t \<Rightarrow> Inr (Ok t))"

section \<open>The price of a call\<close>

record price_estimate =
  est_price_cents :: int
  est_model :: string
  est_units :: int
  est_unit :: "string option"

definition quantity_field_names :: "pricing_terms \<Rightarrow> string list" where
  "quantity_field_names t = filter (\<lambda>f. f \<noteq> []) (map py_strip (input_field t # fallback_input_fields t))"

text \<open>The quantity is looked up in the payload, then in its \<open>input\<close> block; a URL alone is one request.\<close>

definition lookup_quantity :: "(string \<times> json) list \<Rightarrow> string list \<Rightarrow> json option" where
  "lookup_quantity payload names =
     (let inner = (case map_of payload ''input'' of Some (JObj kvs) \<Rightarrow> kvs | _ \<Rightarrow> []);
          here = find (\<lambda>f. map_of payload f \<noteq> None) names;
          there = find (\<lambda>f. map_of inner f \<noteq> None) names
      in case here of
           Some f \<Rightarrow> map_of payload f
         | None \<Rightarrow>
             (case there of
                Some f \<Rightarrow> map_of inner f
              | None \<Rightarrow> if map_of payload ''url'' \<noteq> None \<and> ''request_count'' \<in> set names then Some (JNum 1) else None))"

definition truncate_rat :: "rat \<Rightarrow> int" where
  "truncate_rat x = (if 0 \<le> x then \<lfloor>x\<rfloor> else \<lceil>x\<rceil>)"

text \<open>\<open>int(float('inf'))\<close> raises \<open>OverflowError\<close>, which the handler of \<open>TypeError\<close> and \<open>ValueError\<close> lets through.\<close>

fun coerce_quantity :: "json option \<Rightarrow> exn + int" where
  "coerce_quantity (Some (JNum x)) = (if float_overflows x then Inl OverflowError else Inr (max 0 (truncate_rat x)))"
| "coerce_quantity (Some (JArr xs)) = Inr (int (length xs))"
| "coerce_quantity (Some (JStr s)) =
     (case py_float s of
        Some (Finite x) \<Rightarrow> Inr (max 0 (truncate_rat x))
      | Some Infinite \<Rightarrow> Inl OverflowError
      | _ \<Rightarrow> Inr 0)"
| "coerce_quantity _ = Inr 0"

definition quantity_from_payload :: "(string \<times> json) list option \<Rightarrow> pricing_terms \<Rightarrow> exn + int" where
  "quantity_from_payload payload t =
     (case payload of
        None \<Rightarrow> Inr 0
      | Some kvs \<Rightarrow>
          let names = quantity_field_names t
          in if names = [] then Inr 0 else coerce_quantity (lookup_quantity kvs names))"

text \<open>
  \<open>Decimal(x).quantize(Decimal('1'), ROUND_HALF_UP)\<close> in the default context of 28 digits: a longer result raises \<open>InvalidOperation\<close>.
\<close>

definition quantize_units :: "rat \<Rightarrow> exn + int" where
  "quantize_units x = (let n = round_half_up x in if 10 ^ 28 \<le> \<bar>n\<bar> then Inl InvalidOperation else Inr n)"

definition multiplied :: "(string \<times> json) list \<Rightarrow> int \<Rightarrow> (string \<times> rat) list \<Rightarrow> rat" where
  "multiplied kvs base factors =
     foldl (\<lambda>total (k, x). if (case map_of kvs k of None \<Rightarrow> False | Some v \<Rightarrow> is_truthy v) then total * x else total)
       (of_int base) factors"

definition apply_multipliers :: "int \<Rightarrow> (string \<times> json) list option \<Rightarrow> (string \<times> rat) list \<Rightarrow> exn + int" where
  "apply_multipliers base payload factors =
     (case payload of
        None \<Rightarrow> Inr base
      | Some kvs \<Rightarrow>
          if factors = [] then Inr base
          else try_bind (quantize_units (multiplied kvs base factors)) (\<lambda>cents. Inr (max 0 cents)))"

definition clamp_price :: "int \<Rightarrow> int \<Rightarrow> int option \<Rightarrow> int" where
  "clamp_price value lo hi =
     (let v = (if value < lo then lo else value);
          v = (case hi of None \<Rightarrow> v | Some m \<Rightarrow> if m < v then m else v)
      in max 0 v)"

definition fixed_price_response :: "int \<Rightarrow> price_estimate" where
  "fixed_price_response fixed = \<lparr>est_price_cents = max 0 fixed, est_model = ''fixed'', est_units = 1, est_unit = None\<rparr>"

definition select_tier :: "(int \<times> int) list \<Rightarrow> int \<Rightarrow> int \<Rightarrow> int" where
  "select_tier ts units fixed =
     (case find (\<lambda>(up_to, _). units \<le> up_to) ts of
        Some (_, cents) \<Rightarrow> cents
      | None \<Rightarrow> if ts = [] then fixed else snd (last ts))"

definition unit_label :: "pricing_terms \<Rightarrow> string" where
  "unit_label t = or_text (or_text (unit_name t) (input_field t)) ''unit''"

text \<open>The product of a float and an integer converts the integer to a float, which fails beyond the largest one.\<close>

definition estimate_per_unit :: "pricing_terms \<Rightarrow> (string \<times> json) list option \<Rightarrow> int \<Rightarrow> exn + price_estimate" where
  "estimate_per_unit t payload units =
     (if float_overflows (of_int (max 0 units)) then Inl OverflowError
      else
        try_bind (quantize_units (rate_cents_per_unit t * of_int (max 0 units))) (\<lambda>base.
        try_bind (apply_multipliers base payload (multipliers t)) (\<lambda>cents.
        Inr \<lparr>est_price_cents = clamp_price cents (min_cents t) (max_cents t), est_model = ''per_unit'', est_units = units,
             est_unit = Some (unit_label t)\<rparr>)))"

definition estimate_tiered :: "pricing_terms \<Rightarrow> (string \<times> json) list option \<Rightarrow> int \<Rightarrow> int \<Rightarrow> exn + price_estimate" where
  "estimate_tiered t payload units fixed =
     try_bind (apply_multipliers (select_tier (tiers t) units fixed) payload (multipliers t)) (\<lambda>cents.
     Inr \<lparr>est_price_cents = clamp_price cents (min_cents t) (max_cents t), est_model = ''tiered'', est_units = units,
          est_unit = Some (unit_label t)\<rparr>)"

definition estimate_price_cents ::
  "string \<Rightarrow> pricing_terms option \<Rightarrow> (string \<times> json) list option \<Rightarrow> int \<Rightarrow> exn + price_estimate" where
  "estimate_price_cents model terms payload fixed =
     (let model = or_text (py_lower (py_strip model)) ''fixed'' in
      case terms of
        None \<Rightarrow> Inr (fixed_price_response fixed)
      | Some t \<Rightarrow>
          if model = ''fixed'' then Inr (fixed_price_response fixed)
          else try_bind (quantity_from_payload payload t) (\<lambda>units.
            if model = ''per_unit'' then estimate_per_unit t payload units
            else if model = ''tiered'' then estimate_tiered t payload units fixed
            else Inr (fixed_price_response fixed)))"

section \<open>The charge for an agent, and the refund of what it did not use\<close>

type_synonym pricing_overlay = "string \<Rightarrow> (string \<times> pricing_terms option) option"

definition resolve_agent_pricing :: "pricing_overlay \<Rightarrow> agent_row \<Rightarrow> string \<times> pricing_terms option" where
  "resolve_agent_pricing overlay a =
     (let model = py_lower (py_strip (or_text (pricing_model a) ''fixed'')) in
      if model = ''fixed'' \<or> pricing_config a = None
      then (case overlay (listed_agent_id a) of Some p \<Rightarrow> p | None \<Rightarrow> (model, pricing_config a))
      else (model, pricing_config a))"

record charge_estimate = price_estimate +
  fixed_cents :: int
  cap_violated :: "(string \<times> int \<times> int) option"

definition estimate_variable_charge ::
  "pricing_overlay \<Rightarrow> agent_row \<Rightarrow> (string \<times> json) list option \<Rightarrow> int option \<Rightarrow> int option \<Rightarrow> exn + charge_estimate" where
  "estimate_variable_charge overlay a payload budget per_job_cap =
     (case resolve_agent_pricing overlay a of (model, terms) \<Rightarrow>
      let fixed = price_usd_to_cents (price_per_call_usd a) in
      try_bind (estimate_price_cents model terms payload fixed) (\<lambda>est.
      let price = est_price_cents est;
          caps = (case budget of None \<Rightarrow> [] | Some c \<Rightarrow> [(''budget'', c)]) @
                 (case per_job_cap of None \<Rightarrow> [] | Some c \<Rightarrow> [(''per_job_cap'', c)])
      in Inr (price_estimate.extend est (charge_estimate.fields fixed
           (map_option (\<lambda>(scope, cap). (scope, cap, price)) (find (\<lambda>(_, cap). cap < price) caps))))))"

definition actual_units :: "string \<Rightarrow> (string \<times> json) list \<Rightarrow> exn + int option" where
  "actual_units field out =
     (let reported = (case map_of out ''billing_units_actual'' of
           None \<Rightarrow> if field = [] then None else map_of out field
         | Some JNull \<Rightarrow> if field = [] then None else map_of out field
         | v \<Rightarrow> v)
      in if map_option infinite_number reported = Some True then Inl OverflowError
         else Inr (map_option (max 0) (Option.bind reported json_int)))"

text \<open>The refund to the caller and what the agent and the platform give back.\<close>

definition usage_legs :: "int \<Rightarrow> distribution \<Rightarrow> distribution \<Rightarrow> int \<times> int \<times> int" where
  "usage_legs caller_charge billed actual =
     (let refund = max 0 (caller_charge - dist_caller_charge_cents actual);
          agent = max 0 (dist_agent_payout_cents billed - dist_agent_payout_cents actual);
          platform = max 0 (dist_platform_fee_cents billed - dist_platform_fee_cents actual);
          platform = platform + (refund - agent - platform);
          agent = (if platform < 0 then agent + platform else agent);
          platform = (if platform < 0 then 0 else platform);
          agent = (if agent < 0 then 0 else agent)
      in (refund, agent, platform))"

definition adjustment_memo :: "charge_estimate \<Rightarrow> int \<Rightarrow> string" where
  "adjustment_memo est actual =
     ''Variable-pricing adjustment: billed '' @ int_str (est_units est) @ '' '' @
     or_text (or_empty (est_unit est)) ''units'' @ '', actual '' @ int_str actual @ ''.''"

definition maybe_refund_pricing_diff ::
  "env \<Rightarrow> pricing_overlay \<Rightarrow> agent_row \<Rightarrow> (string \<times> json) list option \<Rightarrow> json option \<Rightarrow> string \<Rightarrow> string \<Rightarrow> string \<Rightarrow>
   string \<Rightarrow> charge_estimate \<Rightarrow> int \<Rightarrow> distribution \<Rightarrow> int option \<Rightarrow> string option \<Rightarrow> (db, int) prog" where
  "maybe_refund_pricing_diff e overlay a payload out caller_w agent_w platform_w charge_tx est caller_charge billed pct bearer =
     (case (out, resolve_agent_pricing overlay a) of
        (Some (JObj (o1 # os)), (model, Some t)) \<Rightarrow>
          let field = py_strip (input_field t) in
          if model = ''fixed'' then ret 0
          else (case actual_units field (o1 # os) of
              Inl ex \<Rightarrow> throw ex
            | Inr None \<Rightarrow> ret 0
            | Inr (Some n) \<Rightarrow>
                if est_units est \<le> n then ret 0
                else
                  let kvs = (case payload of None \<Rightarrow> [] | Some kvs \<Rightarrow> kvs);
                      used = (if field = [] then kvs else AList.update field (JNum (of_int n)) kvs)
                  in case estimate_price_cents model (Some t) (Some used) (fixed_cents est) of
                       Inl ex \<Rightarrow> throw ex
                     | Inr actual \<Rightarrow>
                         if est_price_cents est \<le> est_price_cents actual then ret 0
                         else case compute_success_distribution (PLATFORM_FEE_PCT e) (est_price_cents actual) pct
                                (Some (or_text (or_empty bearer) ''caller'')) of
                             Inl ex \<Rightarrow> throw ex
                           | Inr new_dist \<Rightarrow>
                               (case usage_legs caller_charge billed new_dist of (refund, agent_back, platform_back) \<Rightarrow>
                                if refund \<le> 0 then ret 0
                                else catchE
                                  (bindE (post_call_refund_difference e caller_w charge_tx refund (listed_agent_id a)
                                      agent_w platform_w agent_back platform_back (Some (adjustment_memo est n)))
                                    (\<lambda>applied. ret (if applied = None then 0 else refund)))
                                  (\<lambda>_. ret 0)))
      | _ \<Rightarrow> ret 0)"

section \<open>Bounds of the price\<close>

text \<open>What registration accepts: bounds in order, a rate and factors that do not lower a price below zero.\<close>

definition terms_ok :: "pricing_terms \<Rightarrow> bool" where
  "terms_ok t \<longleftrightarrow> 0 \<le> min_cents t \<and> (case max_cents t of None \<Rightarrow> True | Some m \<Rightarrow> min_cents t \<le> m) \<and>
     0 \<le> rate_cents_per_unit t \<and> (\<forall>x\<in>set (map snd (multipliers t)). 0 < x) \<and>
     (\<forall>(u, c)\<in>set (tiers t). 1 \<le> u \<and> 0 \<le> c) \<and> sorted_wrt (<) (map fst (tiers t)) \<and>
     input_field t \<noteq> [] \<and> terms_model t \<in> {''per_unit'', ''tiered''} \<and> (terms_model t = ''tiered'' \<longrightarrow> tiers t \<noteq> [])"

lemma try_bind_Inr: "try_bind r f = Inr y \<longleftrightarrow> (\<exists>x. r = Inr x \<and> f x = Inr y)"
  by (cases r) (simp_all add: try_bind_def)

lemma try_bind_simps [simp]: "try_bind (Inl ex) f = Inl ex" "try_bind (Inr x) f = f x"
  by (simp_all add: try_bind_def)

lemma to_int_bound: "to_int v m = Inr n \<Longrightarrow> m \<le> n"
  by (cases "(v, m)" rule: to_int.cases) (auto split: option.splits if_splits)

lemma to_positive_decimal_bound: "to_positive_decimal v = Inr x \<Longrightarrow> 0 \<le> x"
  by (cases v rule: to_positive_decimal.cases) (auto split: option.splits number_text.splits if_splits)

lemma to_factor_pos: "to_factor v = Inr x \<Longrightarrow> 0 < x"
  by (cases v) (auto split: option.splits number_text.splits if_splits)

lemma parse_factors_pos: "parse_factors kvs = Inr fs \<Longrightarrow> \<forall>x\<in>set (map snd fs). 0 < x"
proof (induction kvs arbitrary: fs rule: parse_factors.induct)
  case (2 k v kvs)
  then obtain x gs where "to_factor v = Inr x" "parse_factors kvs = Inr gs" "fs = (k, x) # gs"
    by (auto simp: try_bind_Inr)
  with 2 to_factor_pos [of v x] show ?case by auto
qed simp

lemma parse_tiers_ok:
  "parse_tiers prev ts = Inr us \<Longrightarrow>
   (\<forall>(u, c)\<in>set us. 1 \<le> u \<and> 0 \<le> c) \<and> sorted_wrt (<) (map fst us) \<and> (\<forall>l. prev = Some l \<longrightarrow> (\<forall>u\<in>set us. l < fst u)) \<and>
   length us = length ts"
proof (induction prev ts arbitrary: us rule: parse_tiers.induct)
  case (2 prev tier rest)
  then obtain u c vs where u: "to_int (map_of tier ''up_to_units'') 1 = Inr u" "to_int (map_of tier ''cents'') 0 = Inr c"
      "us = (u, c) # vs" "parse_tiers (Some u) rest = Inr vs" "\<forall>l. prev = Some l \<longrightarrow> l < u"
    by (auto simp: try_bind_Inr split: if_splits option.splits)
  then show ?case
    using "2.IH" [OF _ u(4)] to_int_bound [OF u(1)] to_int_bound [OF u(2)]
    by (fastforce split: option.splits)
qed auto

lemma parse_pricing_bounds_ok:
  assumes "parse_pricing_bounds str_of raw = Inr (f, u, lo, hi)"
  shows "f \<noteq> [] \<and> 0 \<le> lo \<and> (case hi of None \<Rightarrow> True | Some m \<Rightarrow> lo \<le> m)"
  using assms unfolding parse_pricing_bounds_def Let_def
  by (auto simp: try_bind_Inr split: if_splits option.splits dest: to_int_bound)

lemma parse_pricing_multipliers_ok: "parse_pricing_multipliers v = Inr fs \<Longrightarrow> \<forall>x\<in>set (map snd fs). 0 < x"
  unfolding parse_pricing_multipliers_def
  by (cases "the v") (auto split: option.splits dest: parse_factors_pos [unfolded set_map ball_simps])

lemma parse_pricing_tiers_ok:
  assumes "parse_pricing_tiers v = Inr ts"
  shows "(\<forall>(u, c)\<in>set ts. 1 \<le> u \<and> 0 \<le> c) \<and> sorted_wrt (<) (map fst ts) \<and> ts \<noteq> []"
proof -
  obtain x xs where "parse_tiers None (x # xs) = Inr ts"
    using assms by (auto simp: parse_pricing_tiers_def split: option.splits json.splits list.splits)
  from parse_tiers_ok [OF this] show ?thesis by auto
qed

lemma normalized_model: "normalize_pricing_model m = Inr model \<Longrightarrow> model = ''fixed'' \<or> model = ''per_unit'' \<or> model = ''tiered''"
  by (auto simp: normalize_pricing_model_def VALID_PRICING_MODELS_def Let_def split: if_splits)

lemma validated_terms:
  assumes "validate_pricing_config str_of loads m raw = Inr (Some t)"
  shows "terms_ok t \<and> normalize_pricing_model m = Inr (terms_model t) \<and> terms_model t \<noteq> ''fixed''"
proof -
  let ?charges = "\<lambda>model kvs. if model = ''per_unit''
      then try_bind (to_positive_decimal (map_of kvs ''rate_cents_per_unit'')) (\<lambda>x. Inr (x, []))
      else try_bind (parse_pricing_tiers (map_of kvs ''tiers'')) (\<lambda>ts. Inr (0, ts))"
  obtain model where 1: "normalize_pricing_model m = Inr model"
    using assms unfolding validate_pricing_config_def try_bind_Inr by blast
  then have 2: "model \<noteq> ''fixed''" using assms by (intro notI) (simp add: validate_pricing_config_def)
  obtain kvs where 3: "parse_pricing_config_dict loads raw = Inr kvs"
    using assms 2 unfolding validate_pricing_config_def 1 try_bind_simps if_not_P [OF 2] try_bind_Inr by blast
  obtain b where "parse_pricing_bounds str_of kvs = Inr b"
    using assms 2 unfolding validate_pricing_config_def 1 try_bind_simps if_not_P [OF 2] 3 try_bind_Inr by blast
  then obtain f u lo hi where 4: "parse_pricing_bounds str_of kvs = Inr (f, u, lo, hi)" by (cases b) auto
  obtain fs where 5: "parse_pricing_multipliers (map_of kvs ''multipliers'') = Inr fs"
    using assms 2 unfolding validate_pricing_config_def 1 try_bind_simps if_not_P [OF 2] 3 4 prod.case try_bind_Inr by blast
  obtain c where "?charges model kvs = Inr c"
    using assms 2 unfolding validate_pricing_config_def 1 try_bind_simps if_not_P [OF 2] 3 4 prod.case 5 try_bind_Inr [of "if _ then _ else _"]
    by blast
  then obtain rate ts where 6: "?charges model kvs = Inr (rate, ts)" by (cases c) simp
  have 7: "t = \<lparr>terms_model = model, input_field = f, fallback_input_fields = [], unit_name = u,
          min_cents = lo, max_cents = hi, multipliers = fs, rate_cents_per_unit = rate, tiers = ts\<rparr>"
    using assms 2 unfolding validate_pricing_config_def 1 try_bind_simps if_not_P [OF 2] 3 4 prod.case 5 6
    by (simp only: sum.inject option.inject)
  note * = 1 2 4 5 6 7
  have "0 \<le> rate \<and> (\<forall>(u, c)\<in>set ts. 1 \<le> u \<and> 0 \<le> c) \<and> sorted_wrt (<) (map fst ts) \<and> (model = ''tiered'' \<longrightarrow> ts \<noteq> [])"
  proof (cases "model = ''per_unit''")
    case True
    then show ?thesis using *(5) by (auto simp: try_bind_Inr dest: to_positive_decimal_bound)
  next
    case False
    then have "parse_pricing_tiers (map_of kvs ''tiers'') = Inr ts" "rate = 0"
      using *(5) by (auto simp: try_bind_Inr)
    then show ?thesis using parse_pricing_tiers_ok by auto
  qed
  then show ?thesis
    using * parse_pricing_bounds_ok [OF *(3)] parse_pricing_multipliers_ok [OF *(4)] normalized_model [OF *(1)]
    by (cases hi) (simp_all add: terms_ok_def *(6))
qed

lemma clamp_bounds:
  assumes "terms_ok t"
  shows "min_cents t \<le> clamp_price v (min_cents t) (max_cents t) \<and>
    (case max_cents t of None \<Rightarrow> True | Some m \<Rightarrow> clamp_price v (min_cents t) (max_cents t) \<le> m)"
  using assms by (auto simp: terms_ok_def clamp_price_def Let_def split: option.splits)

lemma clamp_mono: "v \<le> v' \<Longrightarrow> clamp_price v lo hi \<le> clamp_price v' lo hi"
  by (auto simp: clamp_price_def Let_def split: option.splits)

lemma factors_scale:
  assumes "\<forall>x\<in>set (map snd fs). 0 < x"
  shows "\<exists>c\<ge>0. \<forall>b. foldl (\<lambda>total (k, x). if truthy k then total * x else total) b fs = b * (c :: rat)"
  using assms
proof (induction fs)
  case Nil
  then show ?case by (auto intro!: exI [of _ 1])
next
  case (Cons f fs)
  then obtain c where "0 \<le> c" "\<forall>b. foldl (\<lambda>total (k, x). if truthy k then total * x else total) b fs = b * c" by auto
  with Cons.prems show ?case
    by (cases f) (auto intro!: exI [of _ "if truthy (fst f) then snd f * c else c"])
qed

lemma quantize_units_simps:
  "quantize_units x = Inr n \<longleftrightarrow> n = round_half_up x \<and> \<bar>n\<bar> < 10 ^ 28"
  "quantize_units x = Inl ex \<longleftrightarrow> ex = InvalidOperation \<and> 10 ^ 28 \<le> \<bar>round_half_up x\<bar>"
  by (auto simp: quantize_units_def Let_def)

lemma apply_multipliers_mono:
  assumes "\<forall>x\<in>set (map snd fs). 0 < x" and "0 \<le> b" and "b \<le> b'"
    and "apply_multipliers b payload fs = Inr c" and "apply_multipliers b' payload fs = Inr c'"
  shows "c \<le> c'"
proof (cases payload)
  case (Some kvs)
  let ?truthy = "\<lambda>k. case map_of kvs k of None \<Rightarrow> False | Some v \<Rightarrow> is_truthy v"
  obtain c where c: "0 \<le> c" "\<And>b. multiplied kvs b fs = of_int b * c"
    using factors_scale [OF assms(1), of ?truthy] unfolding multiplied_def by blast
  have "of_int b * c \<le> of_int b' * c" using c(1) assms(3) by (simp add: mult_right_mono)
  then have "round_half_up (of_int b * c) \<le> round_half_up (of_int b' * c)"
    using c(1) assms(2) by (intro round_half_up_mono) auto
  then show ?thesis using Some assms(3-5)
    by (auto simp: apply_multipliers_def c(2) try_bind_Inr quantize_units_simps split: if_splits)
qed (use assms in \<open>simp add: apply_multipliers_def\<close>)

lemma per_unit_mono:
  assumes t: "terms_ok t" and "n \<le> n'"
    and p: "estimate_per_unit t payload n = Inr p" and p': "estimate_per_unit t payload n' = Inr p'"
  shows "est_price_cents p \<le> est_price_cents p'"
proof -
  let ?base = "\<lambda>n. round_half_up (rate_cents_per_unit t * of_int (max 0 n))"
  obtain c where c: "apply_multipliers (?base n) payload (multipliers t) = Inr c"
      "est_price_cents p = clamp_price c (min_cents t) (max_cents t)"
    using p by (auto simp: estimate_per_unit_def try_bind_Inr quantize_units_simps split: if_splits)
  obtain c' where c': "apply_multipliers (?base n') payload (multipliers t) = Inr c'"
      "est_price_cents p' = clamp_price c' (min_cents t) (max_cents t)"
    using p' by (auto simp: estimate_per_unit_def try_bind_Inr quantize_units_simps split: if_splits)
  have "0 \<le> rate_cents_per_unit t" "\<forall>x\<in>set (map snd (multipliers t)). 0 < x" using t by (simp_all add: terms_ok_def)
  then have "c \<le> c'"
    using assms(2) by (intro apply_multipliers_mono [OF _ _ _ c(1) c'(1)])
      (auto intro!: round_half_up_mono round_half_up_nonneg mult_left_mono)
  then show ?thesis by (simp add: c(2) c'(2) clamp_mono)
qed

text \<open>The quantities that have no integer, and the amounts that are too long for the decimal context.\<close>

definition infinite_quantity :: "(string \<times> json) list option \<Rightarrow> pricing_terms \<Rightarrow> bool" where
  "infinite_quantity payload t \<longleftrightarrow> (\<exists>kvs v. payload = Some kvs \<and> lookup_quantity kvs (quantity_field_names t) = Some v \<and>
     (infinite_number v \<or> (\<exists>s. v = JStr s \<and> py_float s = Some Infinite)))"

definition base_cents :: "pricing_terms \<Rightarrow> int \<Rightarrow> int \<Rightarrow> int" where
  "base_cents t fixed units =
     (if terms_model t = ''per_unit'' then round_half_up (rate_cents_per_unit t * of_int (max 0 units))
      else select_tier (tiers t) units fixed)"

definition priceable :: "pricing_terms \<Rightarrow> (string \<times> json) list option \<Rightarrow> int \<Rightarrow> int \<Rightarrow> bool" where
  "priceable t payload fixed units \<longleftrightarrow>
     (terms_model t = ''per_unit'' \<longrightarrow> \<not> float_overflows (of_int (max 0 units)) \<and> \<bar>base_cents t fixed units\<bar> < 10 ^ 28) \<and>
     (\<forall>kvs. payload = Some kvs \<longrightarrow> multipliers t \<noteq> [] \<longrightarrow>
        \<bar>round_half_up (multiplied kvs (base_cents t fixed units) (multipliers t))\<bar> < 10 ^ 28)"

lemma coerce_quantity_sound:
  "case coerce_quantity v of
     Inl ex \<Rightarrow> ex = OverflowError \<and> (\<exists>x. v = Some x \<and> (infinite_number x \<or> (\<exists>s. x = JStr s \<and> py_float s = Some Infinite)))
   | Inr n \<Rightarrow> 0 \<le> n"
  by (cases v rule: coerce_quantity.cases) (auto split: option.splits number_text.splits)

lemma quantity_sound:
  "case quantity_from_payload payload t of Inl ex \<Rightarrow> ex = OverflowError \<and> infinite_quantity payload t | Inr n \<Rightarrow> 0 \<le> n"
proof (cases payload)
  case (Some kvs)
  then show ?thesis
    using coerce_quantity_sound [of "lookup_quantity kvs (quantity_field_names t)"]
    by (auto simp: quantity_from_payload_def infinite_quantity_def Let_def split: sum.splits)
qed (simp add: quantity_from_payload_def)

lemma multipliers_priceable:
  "case apply_multipliers b payload fs of
     Inl ex \<Rightarrow> ex = InvalidOperation \<and> (\<exists>kvs. payload = Some kvs \<and> fs \<noteq> [] \<and> 10 ^ 28 \<le> \<bar>round_half_up (multiplied kvs b fs)\<bar>)
   | Inr c \<Rightarrow> \<forall>kvs. payload = Some kvs \<longrightarrow> fs \<noteq> [] \<longrightarrow> \<bar>round_half_up (multiplied kvs b fs)\<bar> < 10 ^ 28"
  by (cases payload) (auto simp: apply_multipliers_def quantize_units_def Let_def)

lemma per_unit_sound:
  assumes "terms_model t = ''per_unit''"
  shows "case estimate_per_unit t payload n of
     Inl ex \<Rightarrow> ex \<in> {OverflowError, InvalidOperation} \<and> \<not> priceable t payload fixed n
   | Inr p \<Rightarrow> priceable t payload fixed n \<and> est_units p = n \<and> (\<exists>c. est_price_cents p = clamp_price c (min_cents t) (max_cents t))"
  using multipliers_priceable [where b = "round_half_up (rate_cents_per_unit t * of_int (max 0 n))" and payload = payload and fs = "multipliers t"] assms
  by (auto simp: estimate_per_unit_def priceable_def base_cents_def quantize_units_def Let_def try_bind_def split: sum.splits)

lemma tiered_sound:
  assumes "terms_model t = ''tiered''"
  shows "case estimate_tiered t payload n fixed of
     Inl ex \<Rightarrow> ex \<in> {OverflowError, InvalidOperation} \<and> \<not> priceable t payload fixed n
   | Inr p \<Rightarrow> priceable t payload fixed n \<and> est_units p = n \<and> (\<exists>c. est_price_cents p = clamp_price c (min_cents t) (max_cents t))"
  using multipliers_priceable [where b = "select_tier (tiers t) n fixed" and payload = payload and fs = "multipliers t"] assms
  by (auto simp: estimate_tiered_def priceable_def base_cents_def try_bind_def split: sum.splits)


definition sample_terms_json :: json where
  "sample_terms_json = JObj [(''input_field'', JStr ''seconds''), (''min_cents'', JNum 30), (''max_cents'', JNum 800),
     (''rate_cents_per_unit'', JNum 4)]"

definition sample_terms :: pricing_terms where
  "sample_terms = \<lparr>terms_model = ''per_unit'', input_field = ''seconds'', fallback_input_fields = [], unit_name = ''seconds'',
     min_cents = 30, max_cents = Some 800, multipliers = [], rate_cents_per_unit = 4, tiers = []\<rparr>"

lemma small_number [simp]: "\<bar>x\<bar> < 2 ^ 100 \<Longrightarrow> \<not> float_overflows x"
proof -
  assume "\<bar>x\<bar> < 2 ^ 100"
  moreover have "(2 ^ 100 :: rat) \<le> largest_float" by (simp add: largest_float_def)
  ultimately show ?thesis by (simp add: float_overflows_def)
qed

lemma sample_terms_valid:
  "validate_pricing_config (\<lambda>_. []) (\<lambda>_. None) (Some ''per_unit'') (Some sample_terms_json) = Inr (Some sample_terms)"
  by (simp add: validate_pricing_config_def sample_terms_json_def sample_terms_def normalize_pricing_model_def VALID_PRICING_MODELS_def
      or_empty_def parse_pricing_config_dict_def parse_pricing_bounds_def text_or_empty_def parse_pricing_multipliers_def
      py_lower_def lower_char_def py_strip_def py_space_def or_text_def Let_def)

lemma sample_lookup: "lookup_quantity [(''seconds'', JNum x)] (quantity_field_names sample_terms) = Some (JNum x)"
  by (simp add: lookup_quantity_def quantity_field_names_def sample_terms_def py_strip_def py_space_def)

lemma sample_quantity: "\<not> float_overflows x \<Longrightarrow> quantity_from_payload (Some [(''seconds'', JNum x)]) sample_terms = Inr (max 0 (truncate_rat x))"
  using sample_lookup [of x]
  by (simp add: quantity_from_payload_def Let_def quantity_field_names_def sample_terms_def py_strip_def py_space_def)

lemma sample_model: "or_text (py_lower (py_strip ''per_unit'')) ''fixed'' = ''per_unit''"
  by (simp add: or_text_def py_lower_def lower_char_def py_strip_def py_space_def)


text \<open>A quantity that is too large is not capped by the maximum of 800 cents: the estimate raises.\<close>

lemma large_quantity_is_not_capped:
  "estimate_price_cents ''per_unit'' (Some sample_terms) (Some [(''seconds'', JNum (10 ^ 28))]) 100 = Inl InvalidOperation"
proof -
  have small: "\<not> float_overflows (10 ^ 28)" by simp
  have q: "quantity_from_payload (Some [(''seconds'', JNum (10 ^ 28))]) sample_terms = Inr (10 ^ 28)"
    using sample_quantity [OF small] by (simp add: truncate_rat_def)
  have "estimate_per_unit sample_terms p (10 ^ 28) = Inl InvalidOperation" for p
    using small round_half_up_of_int [of "4 * 10 ^ 28"] by (simp add: estimate_per_unit_def sample_terms_def quantize_units_def)
  then show ?thesis using q by (simp add: estimate_price_cents_def sample_model Let_def)
qed

section \<open>The refund of unused units\<close>

lemma fee_steps:
  assumes "0 \<le> p'" and "p' \<le> p" and "0 \<le> pct" and "pct \<le> 100"
  shows "round_half_up (of_int p' * of_int pct / 100) \<le> round_half_up (of_int p * of_int pct / 100) \<and>
    round_half_up (of_int p * of_int pct / 100) \<le> round_half_up (of_int p' * of_int pct / 100) + (p - p')"
proof -
  let ?x = "of_int p * of_int pct / 100 :: rat" and ?x' = "of_int p' * of_int pct / 100 :: rat"
  have "p' * pct \<le> p * pct" "(p - p') * pct \<le> (p - p') * 100"
    using assms mult_left_mono [of pct 100 "p - p'"] by (simp_all add: mult_right_mono)
  then have "of_int (p' * pct) \<le> (of_int (p * pct) :: rat)" "of_int ((p - p') * pct) \<le> (of_int ((p - p') * 100) :: rat)"
    unfolding of_int_le_iff by auto
  then have le: "?x' \<le> ?x" "?x \<le> ?x' + of_int (p - p')" by (simp_all add: algebra_simps)
  have "0 \<le> ?x'" using assms by simp
  moreover have "\<lfloor>?x + 1 / 2\<rfloor> \<le> \<lfloor>?x' + 1 / 2 + of_int (p - p')\<rfloor>" by (rule floor_mono) (use le(2) in linarith)
  ultimately show ?thesis using le unfolding round_half_up_def by (simp add: floor_mono)
qed

text \<open>Every share of a call grows with its price, and the caller's by at least the difference.\<close>

lemma distribution_mono:
  assumes "0 \<le> p'" and "p' \<le> p" and "0 \<le> effective_pct cfg pct" and "effective_pct cfg pct \<le> 100"
    and "compute_success_distribution cfg p pct policy = Inr D" and "compute_success_distribution cfg p' pct policy = Inr D'"
  shows "dist_caller_charge_cents D' + (p - p') \<le> dist_caller_charge_cents D \<and>
    dist_agent_payout_cents D' \<le> dist_agent_payout_cents D \<and> dist_platform_fee_cents D' \<le> dist_platform_fee_cents D"
proof -
  note fee = fee_steps [OF assms(1-4)] compute_platform_fee_cents_value [OF _ assms(3), of p] compute_platform_fee_cents_value [OF _ assms(3), of p']
  show ?thesis
    using assms fee fee_le_price [OF assms(1,3,4)] fee_le_price [OF _ assms(3,4), of p]
    by (auto simp: compute_success_distribution_def Let_def split: if_splits)
qed

lemma usage_legs_exact:
  assumes "0 \<le> p'" and "p' < p" and "0 \<le> effective_pct cfg pct" and "effective_pct cfg pct \<le> 100"
    and D: "compute_success_distribution cfg p pct policy = Inr D" and D': "compute_success_distribution cfg p' pct policy = Inr D'"
  defines "agent \<equiv> dist_agent_payout_cents D - dist_agent_payout_cents D'"
    and "platform \<equiv> dist_platform_fee_cents D - dist_platform_fee_cents D'"
  shows "usage_legs (dist_caller_charge_cents D) D D' = (agent + platform, agent, platform) \<and>
    agent + platform = dist_caller_charge_cents D - dist_caller_charge_cents D' \<and> 0 \<le> agent \<and> 0 \<le> platform \<and> 0 < agent + platform"
proof -
  have "dist_caller_charge_cents D - dist_agent_payout_cents D = dist_platform_fee_cents D"
    "dist_caller_charge_cents D' - dist_agent_payout_cents D' = dist_platform_fee_cents D'"
    using distribution_facts [of p cfg pct policy] distribution_facts [of p' cfg pct policy] assms by auto
  with distribution_mono [of p' p cfg pct policy D D'] assms(1-4) D D' show ?thesis
    unfolding agent_def platform_def by (auto simp: usage_legs_def Let_def)
qed

lemma price_nonneg: "estimate_price_cents model terms payload fixed = Inr est \<Longrightarrow> 0 \<le> est_price_cents est"
  by (auto simp: estimate_price_cents_def fixed_price_response_def estimate_per_unit_def estimate_tiered_def clamp_price_def
      Let_def try_bind_Inr split: option.splits if_splits)

text \<open>
  C28. A call that used less than it was charged for ends up billed for its use. When the agent reports fewer units
  than the estimate and the price of those units is lower, the refund moves the caller, the agent and the
  platform from the shares of the billed price exactly to the shares of the actual price: the legs are never
  negative and sum to zero, so the corrections of \<open>maybe_refund_pricing_diff\<close> for a rounding residue never
  apply, and the ledger stays balanced.
\<close>

theorem usage_refund_bills_actual_use:
  assumes terms: "resolve_agent_pricing overlay a = (model, Some t)" "model \<noteq> ''fixed''" "py_strip (input_field t) \<noteq> []"
    and used: "actual_units (py_strip (input_field t)) out = Inr (Some n)" "n < est_units est" "out \<noteq> []"
    and actual: "estimate_price_cents model (Some t) (Some (AList.update (py_strip (input_field t)) (JNum (of_int n)) payload))
        (fixed_cents est) = Inr now_est" "est_price_cents now_est < est_price_cents est"
    and pct: "0 \<le> effective_pct (PLATFORM_FEE_PCT e) pct" "effective_pct (PLATFORM_FEE_PCT e) pct \<le> 100"
    and D: "compute_success_distribution (PLATFORM_FEE_PCT e) (est_price_cents est) pct (Some (or_text (or_empty bearer) ''caller'')) = Inr D"
    and D': "compute_success_distribution (PLATFORM_FEE_PCT e) (est_price_cents now_est) pct (Some (or_text (or_empty bearer) ''caller'')) = Inr D'"
    and ok: "ledger_ok d" and r: "refundable e c (dist_caller_charge_cents D - dist_caller_charge_cents D') d"
    and w: "has_wallet cw d" "has_wallet aw d" "has_wallet pw d" "distinct [cw, aw, pw]"
    and new: "new_id (uuid e 0) d" "new_id (uuid e 1) d" "new_id (uuid e 2) d" "distinct [uuid e 0, uuid e 1, uuid e 2]"
    and un: "unsettled c Refund cw d" "unsettled c Refund aw d" "unsettled c Refund pw d"
    and pay: "dist_agent_payout_cents D - dist_agent_payout_cents D' \<le> balance_of aw d"
      "dist_platform_fee_cents D - dist_platform_fee_cents D' \<le> balance_of pw d"
  shows "wp (maybe_refund_pricing_diff e overlay a (Some payload) (Some (JObj out)) cw aw pw c est (dist_caller_charge_cents D) D pct bearer)
     (\<lambda>refund d'. refund = dist_caller_charge_cents D - dist_caller_charge_cents D' \<and> 0 < refund \<and>
        ledger_ok d' \<and> total_balance d' = total_balance d \<and>
        (\<forall>w. balance_of w d' = balance_of w d
           + (if w = cw then dist_caller_charge_cents D - dist_caller_charge_cents D' else 0)
           + (if w = aw then dist_agent_payout_cents D' - dist_agent_payout_cents D else 0)
           + (if w = pw then dist_platform_fee_cents D' - dist_platform_fee_cents D else 0)))
     (\<lambda>_ _. False) d"
proof -
  define agent where "agent = dist_agent_payout_cents D - dist_agent_payout_cents D'"
  define platform where "platform = dist_platform_fee_cents D - dist_platform_fee_cents D'"
  have legs: "usage_legs (dist_caller_charge_cents D) D D' = (agent + platform, agent, platform)"
    "agent + platform = dist_caller_charge_cents D - dist_caller_charge_cents D'" "0 \<le> agent" "0 \<le> platform" "0 < agent + platform"
    using usage_legs_exact [OF price_nonneg [OF actual(1)] actual(2) pct D D'] unfolding agent_def platform_def by auto
  obtain o1 os where o: "out = o1 # os" using used(3) by (cases out) auto
  have run: "maybe_refund_pricing_diff e overlay a (Some payload) (Some (JObj out)) cw aw pw c est (dist_caller_charge_cents D) D pct bearer =
    catchE (bindE (post_call_refund_difference e cw c (agent + platform) (listed_agent_id a) aw pw agent platform
        (Some (adjustment_memo est n))) (\<lambda>applied. ret (if applied = None then 0 else agent + platform))) (\<lambda>_. ret 0)"
    using terms used actual D' legs(1,5) unfolding o maybe_refund_pricing_diff_def by (simp add: Let_def)
  have "wp (post_call_refund_difference e cw c (agent + platform) (listed_agent_id a) aw pw agent platform (Some (adjustment_memo est n)))
     (\<lambda>x d'. x = Some (uuid e 2) \<and> ledger_ok d' \<and> total_balance d' = total_balance d \<and>
        (\<forall>w. balance_of w d' = balance_of w d + (if w = cw then agent + platform else 0) -
           (if w = aw then agent else 0) - (if w = pw then platform else 0))) (\<lambda>_ _. False) d"
    using legs r pay by (intro refund_difference_nets [OF ok _ _ _ _ w new un]) (simp_all add: agent_def platform_def)
  then show ?thesis
    unfolding run wp_catchE wp_bindE wp_ret
    by (rule wp_post_mono) (use legs in \<open>auto simp: agent_def platform_def\<close>)
qed

text \<open>An agent that charges four cents a second was paid for 25 seconds and used ten.\<close>

definition sample_metered_agent :: agent_row where
  "sample_metered_agent = sample_agent\<lparr>pricing_model := ''per_unit'', pricing_config := Some sample_terms\<rparr>"

definition sample_metered_estimate :: charge_estimate where
  "sample_metered_estimate = \<lparr>est_price_cents = 100, est_model = ''per_unit'', est_units = 25, est_unit = Some ''seconds'',
     fixed_cents = 100, cap_violated = None\<rparr>"

definition sample_billed :: distribution where
  "sample_billed = \<lparr>dist_caller_charge_cents = 110, dist_agent_payout_cents = 100, dist_platform_fee_cents = 10\<rparr>"

definition sample_used :: distribution where
  "sample_used = \<lparr>dist_caller_charge_cents = 44, dist_agent_payout_cents = 40, dist_platform_fee_cents = 4\<rparr>"

lemma sample_floors [simp]: "\<lfloor>81 / 2 :: rat\<rfloor> = 40" "\<lfloor>1 / 2 :: rat\<rfloor> = 0" "\<lfloor>21 / 2 :: rat\<rfloor> = 10" "\<lfloor>9 / 2 :: rat\<rfloor> = 4"
  by (simp_all add: floor_eq_iff)

lemma sample_metered_facts:
  "resolve_agent_pricing (\<lambda>_. None) sample_metered_agent = (''per_unit'', Some sample_terms)"
  "py_strip (input_field sample_terms) = ''seconds''"
  "estimate_price_cents ''per_unit'' (Some sample_terms) (Some [(''seconds'', JNum 10)]) 100 =
     Inr \<lparr>est_price_cents = 40, est_model = ''per_unit'', est_units = 10, est_unit = Some ''seconds''\<rparr>"
  "compute_success_distribution 10 100 None (Some (or_text (or_empty None) ''caller'')) =
     Inr sample_billed"
  "compute_success_distribution 10 40 None (Some (or_text (or_empty None) ''caller'')) =
     Inr sample_used"
  by (simp_all add: resolve_agent_pricing_def sample_metered_agent_def sample_agent_def sample_terms_def or_text_def py_lower_def
      lower_char_def py_strip_def py_space_def estimate_price_cents_def quantity_from_payload_def quantity_field_names_def
      lookup_quantity_def truncate_rat_def estimate_per_unit_def quantize_units_def round_half_up_def apply_multipliers_def clamp_price_def
      unit_label_def compute_success_distribution_def compute_platform_fee_cents_def normalize_fee_bearer_policy_def
      VALID_FEE_BEARER_POLICIES_def or_empty_def sample_billed_def sample_used_def Let_def)

lemma sample_refundable: "refundable e ''c1'' 66 sample_charged_db"
  by (simp add: sample_charged_db_def sample_charge_tx_def sample_paid_db_def settled_tx_def sample_defs
      refundable_def prior_pricing_diff_def find_charge_def refunded_cents_def add_balance_def with_hold_def add_held_def sample_hold_def)

lemma usage_refund_bills_actual_use_witness:
  "wp (maybe_refund_pricing_diff (sample_env SQLite) (\<lambda>_. None) sample_metered_agent (Some [(''seconds'', JNum 25)])
       (Some (JObj [(''billing_units_actual'', JNum 10)])) ''w1'' ''w2'' ''w3'' ''c1'' sample_metered_estimate
       (dist_caller_charge_cents sample_billed) sample_billed None None)
     (\<lambda>refund d'. refund = 66 \<and> balance_of ''w1'' d' = balance_of ''w1'' sample_charged_db + 66) (\<lambda>_ _. False) sample_charged_db"
  by (rule wp_post_mono [OF usage_refund_bills_actual_use [where e = "sample_env SQLite" and model = "''per_unit''" and t = sample_terms
      and n = 10 and now_est = "\<lparr>est_price_cents = 40, est_model = ''per_unit'', est_units = 10, est_unit = Some ''seconds''\<rparr>"
      and D = sample_billed
      and D' = sample_used]])
    (simp_all add: sample_metered_facts sample_metered_estimate_def sample_charged_facts sample_refundable effective_pct_def
      sample_billed_def sample_used_def actual_units_def)

end
