(* ===== verification/Pipeline_Graph.thy ===== *)
theory Pipeline_Graph
  imports Variable_Pricing
begin

text \<open>
  The definition of a pipeline: the checks of its nodes and their order of execution
  (\<open>validate_definition\<close> of \<open>core/pipelines/executor.py\<close>), and the resolution of a node's input map against
  the pipeline's input and the outputs of earlier nodes (\<open>core/pipelines/resolver.py\<close>).
\<close>

section \<open>Nodes\<close>

record pipeline_node =
  node_id :: string
  node_agent_id :: string
  node_input_map :: "(string \<times> json) list"
  node_depends_on :: "string list"

definition ALLOWED_NODE_FIELDS :: "string list" where
  "ALLOWED_NODE_FIELDS = [''id'', ''agent_id'', ''agent'', ''input_map'', ''depends_on'']"

text \<open>\<open>x.get(k) or default\<close>: a missing or falsy value is none.\<close>

definition get_truthy :: "(string \<times> json) list \<Rightarrow> string \<Rightarrow> json option" where
  "get_truthy kvs k = (case map_of kvs k of None \<Rightarrow> None | Some v \<Rightarrow> if is_truthy v then Some v else None)"

definition normalize_pipeline_node :: "(json \<Rightarrow> string) \<Rightarrow> json \<Rightarrow> string list \<Rightarrow> exn + pipeline_node" where
  "normalize_pipeline_node str_of raw ids =
     (case raw of
        JObj kvs \<Rightarrow>
          let nid = py_strip (text_or_empty str_of (map_of kvs ''id''));
              agent = py_strip (text_or_empty str_of
                (case get_truthy kvs ''agent_id'' of None \<Rightarrow> map_of kvs ''agent'' | v \<Rightarrow> v))
          in if nid = [] then Inl (ValueError ''Each pipeline node requires an id.'')
             else if agent = [] then Inl (ValueError ''Pipeline node requires agent_id.'')
             else if nid \<in> set ids then Inl (ValueError ''Duplicate pipeline node id'')
             else if \<not> set (map fst kvs) \<subseteq> set ALLOWED_NODE_FIELDS then Inl (ValueError ''pipeline.unsupported_field'')
             else try_bind (case get_truthy kvs ''input_map'' of
                   None \<Rightarrow> Inr []
                 | Some (JObj m) \<Rightarrow> Inr m
                 | Some _ \<Rightarrow> Inl (ValueError ''input_map must be an object.'')) (\<lambda>input_map.
               try_bind (case get_truthy kvs ''depends_on'' of
                   None \<Rightarrow> Inr []
                 | Some (JArr xs) \<Rightarrow> Inr xs
                 | Some _ \<Rightarrow> Inl (ValueError ''depends_on must be an array.'')) (\<lambda>deps.
               Inr \<lparr>node_id = nid, node_agent_id = agent, node_input_map = input_map,
                    node_depends_on = filter (\<lambda>s. s \<noteq> []) (map (\<lambda>v. py_strip (text_or_empty str_of (Some v))) deps)\<rparr>))
      | _ \<Rightarrow> Inl (ValueError ''Each pipeline node must be an object.''))"

fun normalize_nodes :: "(json \<Rightarrow> string) \<Rightarrow> json list \<Rightarrow> string list \<Rightarrow> exn + pipeline_node list" where
  "normalize_nodes str_of [] ids = Inr []"
| "normalize_nodes str_of (raw # raws) ids =
     try_bind (normalize_pipeline_node str_of raw ids) (\<lambda>n.
     try_bind (normalize_nodes str_of raws (node_id n # ids)) (\<lambda>ns. Inr (n # ns)))"

definition dependencies_known :: "pipeline_node list \<Rightarrow> bool" where
  "dependencies_known nodes \<longleftrightarrow> (\<forall>n\<in>set nodes. set (node_depends_on n) \<subseteq> set (map node_id nodes))"

definition check_dependencies_known :: "pipeline_node list \<Rightarrow> exn + unit" where
  "check_dependencies_known nodes =
     (if dependencies_known nodes then Inr () else Inl (ValueError ''Pipeline node depends on unknown node''))"

section \<open>Order of execution\<close>

text \<open>
  Kahn's algorithm. The dictionaries have the node ids as keys, so that no subscript misses once the
  dependencies are known.
\<close>

definition edges_of :: "pipeline_node list \<Rightarrow> (string \<times> string) list" where
  "edges_of nodes = concat (map (\<lambda>n. map (\<lambda>dep. (dep, node_id n)) (node_depends_on n)) nodes)"

definition indegrees :: "pipeline_node list \<Rightarrow> (string \<times> int) list" where
  "indegrees nodes = foldl (\<lambda>ind (dep, i). AList.map_entry i (\<lambda>n. n + 1) ind) (map (\<lambda>n. (node_id n, 0)) nodes) (edges_of nodes)"

definition outgoing_of :: "pipeline_node list \<Rightarrow> (string \<times> string list) list" where
  "outgoing_of nodes =
     foldl (\<lambda>out (dep, i). AList.map_entry dep (\<lambda>is. is @ [i]) out) (map (\<lambda>n. (node_id n, [])) nodes) (edges_of nodes)"

fun release_children :: "string list \<Rightarrow> (string \<times> int) list \<Rightarrow> string list \<Rightarrow> (string \<times> int) list \<times> string list" where
  "release_children [] ind queue = (ind, queue)"
| "release_children (child # children) ind queue =
     (let ind' = AList.map_entry child (\<lambda>n. n - 1) ind
      in release_children children ind' (if map_of ind' child = Some 0 then queue @ [child] else queue))"

definition open_edges :: "(string \<times> int) list \<Rightarrow> nat" where
  "open_edges ind = sum_list (map (\<lambda>(_, n). nat n) ind)"

lemma open_edges_entry:
  "open_edges (AList.map_entry c (\<lambda>n. n - 1) ind) + (if map_of ind c = Some 1 then 1 else 0) \<le> open_edges ind"
  by (induction ind) (auto simp: open_edges_def)

lemma map_of_entry: "map_of (AList.map_entry c f ind) k = (if k = c then map_option f (map_of ind k) else map_of ind k)"
  by (induction ind) auto

lemma release_children_decreases:
  "release_children cs ind queue = (ind', queue') \<Longrightarrow> length queue' + open_edges ind' \<le> length queue + open_edges ind"
proof (induction cs arbitrary: ind queue)
  case (Cons c cs)
  let ?ind = "AList.map_entry c (\<lambda>n. n - 1) ind"
  from Cons.IH [OF Cons.prems [unfolded release_children.simps Let_def]]
  show ?case using open_edges_entry [of c ind] by (auto simp: map_of_entry split: if_splits)
qed simp

function kahn ::
  "(string \<times> pipeline_node) list \<Rightarrow> (string \<times> string list) list \<Rightarrow> (string \<times> int) list \<Rightarrow> string list \<Rightarrow>
   pipeline_node list \<Rightarrow> pipeline_node list" where
  "kahn node_map out ind [] ordered = ordered"
| "kahn node_map out ind (i # queue) ordered =
     (case release_children (case map_of out i of None \<Rightarrow> [] | Some is \<Rightarrow> is) ind queue of (ind', queue') \<Rightarrow>
        kahn node_map out ind' queue' (ordered @ (case map_of node_map i of None \<Rightarrow> [] | Some n \<Rightarrow> [n])))"
  by pat_completeness auto
termination
  by (relation "measure (\<lambda>(_, _, ind, queue, _). length queue + open_edges ind)")
    (auto dest!: release_children_decreases [OF sym])

definition topological_sort :: "pipeline_node list \<Rightarrow> exn + pipeline_node list" where
  "topological_sort nodes =
     (let ind = indegrees nodes;
          ordered = kahn (map (\<lambda>n. (node_id n, n)) nodes) (outgoing_of nodes) ind (sort (map fst (filter (\<lambda>(_, n). n = 0) ind))) []
      in if length ordered \<noteq> length nodes then Inl (ValueError ''Pipeline definition contains a cycle.'') else Inr ordered)"

record pipeline_plan =
  plan_nodes :: "pipeline_node list"
  ordered_nodes :: "pipeline_node list"
  terminal_nodes :: "string list"

definition pipeline_nodes :: "(json \<Rightarrow> string) \<Rightarrow> json \<Rightarrow> exn + pipeline_node list" where
  "pipeline_nodes str_of definition =
     (case json_get definition ''nodes'' of
        Some (JArr (n # ns)) \<Rightarrow>
          try_bind (normalize_nodes str_of (n # ns) []) (\<lambda>nodes.
          try_bind (check_dependencies_known nodes) (\<lambda>_. Inr nodes))
      | _ \<Rightarrow> Inl (ValueError ''definition.nodes must be a non-empty array.''))"

definition validate_definition :: "(json \<Rightarrow> string) \<Rightarrow> json \<Rightarrow> exn + pipeline_plan" where
  "validate_definition str_of definition =
     try_bind (pipeline_nodes str_of definition) (\<lambda>nodes.
     try_bind (topological_sort nodes) (\<lambda>ordered.
     Inr \<lparr>plan_nodes = nodes, ordered_nodes = ordered,
          terminal_nodes = filter (\<lambda>i. i \<notin> (\<Union>n\<in>set nodes. set (node_depends_on n))) (map node_id nodes)\<rparr>))"

section \<open>The order is right\<close>

text \<open>Which node waits for which.\<close>

definition waits_for :: "pipeline_node list \<Rightarrow> (string \<times> string) set" where
  "waits_for nodes = {(dep, node_id n) |dep n. n \<in> set nodes \<and> dep \<in> set (node_depends_on n)}"

text \<open>Every node comes after the nodes it depends on.\<close>

fun in_order :: "string list \<Rightarrow> pipeline_node list \<Rightarrow> bool" where
  "in_order done_ids [] = True"
| "in_order done_ids (n # ns) = (set (node_depends_on n) \<subseteq> set done_ids \<and> in_order (node_id n # done_ids) ns)"

definition waiting :: "string list \<Rightarrow> pipeline_node \<Rightarrow> nat" where
  "waiting ready n = length (filter (\<lambda>dep. dep \<notin> set ready) (node_depends_on n))"

lemma waiting_step: "i \<notin> set ready \<Longrightarrow> waiting ready n = waiting (ready @ [i]) n + count_list (node_depends_on n) i"
proof -
  assume i: "i \<notin> set ready"
  have "length (filter (\<lambda>d. d \<notin> set ready) ds) = length (filter (\<lambda>d. d \<notin> set (ready @ [i])) ds) + count_list ds i" for ds
    using i by (induction ds) auto
  then show ?thesis by (simp add: waiting_def)
qed

lemma map_of_count:
  "map_of (foldl (\<lambda>ind (dep, i). AList.map_entry i (\<lambda>n. n + 1) ind) ind es) k =
   map_option (\<lambda>n. n + int (length (filter (\<lambda>e. snd e = k) es))) (map_of ind k)"
  by (induction es arbitrary: ind) (auto simp: map_of_entry option.map_comp comp_def option.map_ident add.assoc split: prod.splits)

lemma map_of_collect:
  "map_of (foldl (\<lambda>out (dep, i). AList.map_entry dep (\<lambda>is. is @ [i]) out) out es) k =
   map_option (\<lambda>is. is @ map snd (filter (\<lambda>e. fst e = k) es)) (map_of out k)"
  by (induction es arbitrary: out) (auto simp: map_of_entry option.map_comp comp_def option.map_ident split: prod.splits)

lemma edges_to:
  "distinct (map node_id nodes) \<Longrightarrow> n \<in> set nodes \<Longrightarrow>
   filter (\<lambda>e. snd e = node_id n) (edges_of nodes) = map (\<lambda>dep. (dep, node_id n)) (node_depends_on n)"
proof (induction nodes)
  case (Cons m nodes)
  have none: "filter (\<lambda>e. snd e = i) (edges_of ms) = []" if "i \<notin> node_id ` set ms" for i ms
    using that by (auto simp: edges_of_def filter_empty_conv)
  show ?case
  proof (cases "n = m")
    case True
    then show ?thesis using none [of "node_id m" nodes] Cons.prems by (auto simp: edges_of_def filter_map comp_def)
  next
    case False
    then have "node_id m \<noteq> node_id n" using Cons.prems by auto
    then show ?thesis using Cons False by (auto simp: edges_of_def filter_map comp_def)
  qed
qed simp

lemma indegree_of:
  assumes "distinct (map node_id nodes)" and "n \<in> set nodes"
  shows "map_of (indegrees nodes) (node_id n) = Some (int (waiting [] n))"
proof -
  have "map_of (map (\<lambda>n. (node_id n, 0)) nodes) (node_id n) = Some (0 :: int)"
    using assms(2) by (induction nodes) auto
  then show ?thesis
    unfolding indegrees_def by (simp add: map_of_count edges_to [OF assms] waiting_def)
qed

lemma outgoing_of_node:
  assumes "i \<in> set (map node_id nodes)"
  shows "map_of (outgoing_of nodes) i = Some (map snd (filter (\<lambda>e. fst e = i) (edges_of nodes)))"
proof -
  have "map_of (map (\<lambda>n. (node_id n, [])) nodes) i = Some ([] :: string list)"
    using assms by (induction nodes) auto
  then show ?thesis unfolding outgoing_of_def by (simp add: map_of_collect)
qed

lemma children_count:
  assumes "distinct (map node_id nodes)" and "n \<in> set nodes"
  shows "count_list (map snd (filter (\<lambda>e. fst e = i) (edges_of nodes))) (node_id n) = count_list (node_depends_on n) i"
proof -
  have "count_list (map snd (filter (\<lambda>e. fst e = i) es)) k = count_list (map fst (filter (\<lambda>e. snd e = k) es)) i" for es and k :: string
    by (induction es) auto
  then show ?thesis by (simp add: edges_to [OF assms] comp_def)
qed

lemma release_children_spec:
  assumes "\<forall>k\<in>set cs. \<exists>v. map_of ind k = Some v \<and> int (count_list cs k) \<le> v"
  shows "\<exists>ind' xs. release_children cs ind queue = (ind', queue @ xs) \<and>
     map_of ind' = (\<lambda>k. map_option (\<lambda>v. v - int (count_list cs k)) (map_of ind k)) \<and>
     distinct xs \<and> set xs = {k \<in> set cs. map_of ind k = Some (int (count_list cs k))}"
  using assms
proof (induction cs arbitrary: ind queue)
  case Nil
  then show ?case by (auto simp: option.map_ident)
next
  case (Cons c cs)
  let ?ind = "AList.map_entry c (\<lambda>n. n - 1) ind"
  obtain v where v: "map_of ind c = Some v" "1 + int (count_list cs c) \<le> v" using Cons.prems by auto
  have pre: "\<forall>k\<in>set cs. \<exists>v. map_of ?ind k = Some v \<and> int (count_list cs k) \<le> v"
    using Cons.prems v by (auto simp: map_of_entry)
  let ?queue = "if map_of ?ind c = Some 0 then queue @ [c] else queue"
  obtain ind' xs where IH: "release_children cs ?ind ?queue = (ind', ?queue @ xs)"
    "map_of ind' = (\<lambda>k. map_option (\<lambda>v. v - int (count_list cs k)) (map_of ?ind k))"
    "distinct xs" "set xs = {k \<in> set cs. map_of ?ind k = Some (int (count_list cs k))}"
    using Cons.IH [OF pre, of ?queue] by blast
  have m: "map_of ind' = (\<lambda>k. map_option (\<lambda>v. v - int (count_list (c # cs) k)) (map_of ind k))"
    unfolding IH(2) by (rule ext) (auto simp: map_of_entry option.map_comp comp_def algebra_simps)
  have rel: "release_children (c # cs) ind queue = (ind', ?queue @ xs)" using IH(1) by (simp add: Let_def)
  show ?case
  proof (cases "v = 1")
    case True
    then have c: "c \<notin> set cs" using v count_list_0_iff [of cs c] by auto
    have q: "?queue = queue @ [c]" using True v by (simp add: map_of_entry)
    have "k \<in> set (c # xs) \<longleftrightarrow> k \<in> set (c # cs) \<and> map_of ind k = Some (int (count_list (c # cs) k))" for k
      using v True c unfolding IH(4) list.set by (cases "k = c") (simp_all add: map_of_entry count_notin)
    then have "set (c # xs) = {k \<in> set (c # cs). map_of ind k = Some (int (count_list (c # cs) k))}" by blast
    moreover have "distinct (c # xs)" using IH(3,4) c by simp
    moreover have "release_children (c # cs) ind queue = (ind', queue @ c # xs)" using rel unfolding q by simp
    ultimately show ?thesis using m by blast
  next
    case False
    have q: "?queue = queue" using False v by (simp add: map_of_entry)
    have "c \<notin> set cs \<Longrightarrow> count_list cs c = 0" by (rule count_notin)
    then have "k \<in> set xs \<longleftrightarrow> k \<in> set (c # cs) \<and> map_of ind k = Some (int (count_list (c # cs) k))" for k
      using v False unfolding IH(4) list.set by (cases "k = c"; cases "c \<in> set cs") (simp_all add: map_of_entry, linarith?)
    then have "set xs = {k \<in> set (c # cs). map_of ind k = Some (int (count_list (c # cs) k))}" by blast
    then show ?thesis using m IH(3) rel unfolding q by blast
  qed
qed

definition kahn_inv :: "pipeline_node list \<Rightarrow> (string \<times> int) list \<Rightarrow> string list \<Rightarrow> pipeline_node list \<Rightarrow> bool" where
  "kahn_inv nodes ind queue ordered \<longleftrightarrow>
     distinct (map node_id ordered @ queue) \<and> set (map node_id ordered @ queue) \<subseteq> set (map node_id nodes) \<and>
     set ordered \<subseteq> set nodes \<and> in_order [] ordered \<and>
     (\<forall>n\<in>set nodes. map_of ind (node_id n) = Some (int (waiting (map node_id ordered) n)) \<and>
        (node_id n \<in> set (map node_id ordered @ queue) \<longleftrightarrow> waiting (map node_id ordered) n = 0))"

lemma in_order_append:
  "in_order ready (xs @ ys) \<longleftrightarrow> in_order ready xs \<and> in_order (rev (map node_id xs) @ ready) ys"
  by (induction xs arbitrary: ready) auto

lemma kahn_step:
  assumes dst: "distinct (map node_id nodes)" and inv: "kahn_inv nodes ind (i # queue) ordered"
    and run: "release_children (case map_of (outgoing_of nodes) i of None \<Rightarrow> [] | Some is \<Rightarrow> is) ind queue = (ind', queue')"
  shows "\<exists>n. map_of (map (\<lambda>n. (node_id n, n)) nodes) i = Some n \<and> kahn_inv nodes ind' queue' (ordered @ [n])"
proof -
  let ?D = "map node_id ordered" and ?cs = "map snd (filter (\<lambda>e. fst e = i) (edges_of nodes))"
  note inv = inv [unfolded kahn_inv_def]
  obtain n where n: "n \<in> set nodes" "node_id n = i" using inv by auto
  have node: "map_of (map (\<lambda>n. (node_id n, n)) nodes) i = Some n"
    using dst n by (auto simp: map_of_eq_Some_iff comp_def)
  have cs: "release_children ?cs ind queue = (ind', queue')"
  proof -
    have "i \<in> set (map node_id nodes)" using n by auto
    from outgoing_of_node [OF this] run show ?thesis by simp
  qed
  have i: "i \<notin> set ?D" using inv by auto
  have at: "map_of ind (node_id m) = Some (int (waiting (?D @ [i]) m + count_list (node_depends_on m) i))"
    "count_list ?cs (node_id m) = count_list (node_depends_on m) i" if "m \<in> set nodes" for m
    using inv that waiting_step [OF i, of m] children_count [OF dst that] by auto
  have "\<exists>m\<in>set nodes. node_id m = k" if "k \<in> set ?cs" for k
    using that by (auto simp: edges_of_def)
  then have pre: "\<forall>k\<in>set ?cs. \<exists>v. map_of ind k = Some v \<and> int (count_list ?cs k) \<le> v"
    using at by fastforce
  from release_children_spec [OF pre, of queue] cs obtain xs where xs: "queue' = queue @ xs" "distinct xs"
    "map_of ind' = (\<lambda>k. map_option (\<lambda>v. v - int (count_list ?cs k)) (map_of ind k))"
    "set xs = {k \<in> set ?cs. map_of ind k = Some (int (count_list ?cs k))}" by auto
  have new: "node_id m \<in> set xs \<longleftrightarrow> waiting (?D @ [i]) m = 0 \<and> waiting ?D m \<noteq> 0" if "m \<in> set nodes" for m
    using at [OF that] xs(4) waiting_step [OF i, of m] count_list_0_iff [of ?cs "node_id m"] by auto
  have sub: "set xs \<subseteq> set (map node_id nodes)" using xs(4) by (auto simp: edges_of_def)
  have fresh: "set xs \<inter> set (?D @ i # queue) = {}"
  proof -
    have "k \<notin> set (?D @ i # queue)" if k: "k \<in> set xs" for k
    proof -
      obtain m where "m \<in> set nodes" "node_id m = k" using sub k by auto
      then show ?thesis using new [of m] inv k by auto
    qed
    then show ?thesis by blast
  qed
  have "kahn_inv nodes ind' queue' (ordered @ [n])"
    unfolding kahn_inv_def xs(1)
  proof (intro conjI ballI)
    show "distinct (map node_id (ordered @ [n]) @ queue @ xs)" using inv xs(2) fresh n by auto
    show "set (map node_id (ordered @ [n]) @ queue @ xs) \<subseteq> set (map node_id nodes)" using inv sub n by auto
    show "set (ordered @ [n]) \<subseteq> set nodes" using inv n by auto
    have "waiting ?D n = 0" using inv n by auto
    then show "in_order [] (ordered @ [n])" using inv by (auto simp: in_order_append waiting_def filter_empty_conv)
    fix m assume m: "m \<in> set nodes"
    show "map_of ind' (node_id m) = Some (int (waiting (map node_id (ordered @ [n])) m))"
      using xs(3) at [OF m] n by simp
    show "node_id m \<in> set (map node_id (ordered @ [n]) @ queue @ xs) \<longleftrightarrow> waiting (map node_id (ordered @ [n])) m = 0"
      using new [OF m] inv m n waiting_step [OF i, of m] by auto
  qed
  with node show ?thesis by blast
qed

lemma kahn_keeps:
  "node_map = map (\<lambda>n. (node_id n, n)) nodes \<Longrightarrow> out = outgoing_of nodes \<Longrightarrow> distinct (map node_id nodes) \<Longrightarrow>
   kahn_inv nodes ind queue ordered \<Longrightarrow> \<exists>ind'. kahn_inv nodes ind' [] (kahn node_map out ind queue ordered)"
proof (induction node_map out ind queue ordered rule: kahn.induct)
  case (2 node_map out ind i queue ordered)
  obtain ind' queue' where run: "release_children (case map_of out i of None \<Rightarrow> [] | Some is \<Rightarrow> is) ind queue = (ind', queue')"
    by (cases "release_children (case map_of out i of None \<Rightarrow> [] | Some is \<Rightarrow> is) ind queue") auto
  with 2 kahn_step [of nodes ind i queue ordered ind' queue'] show ?case by auto
qed auto

lemma keys_entry: "map fst (foldl (\<lambda>ind (dep, i). AList.map_entry i f ind) ind es) = map fst ind"
proof (induction es arbitrary: ind)
  case (Cons e es)
  have "map fst (AList.map_entry k f ind) = map fst ind" for k by (induction ind) auto
  then show ?case using Cons by (cases e) simp
qed simp

lemma kahn_start:
  assumes "distinct (map node_id nodes)"
  shows "kahn_inv nodes (indegrees nodes) (sort (map fst (filter (\<lambda>(_, n). n = 0) (indegrees nodes)))) []"
proof -
  let ?ind = "indegrees nodes"
  have keys: "map fst ?ind = map node_id nodes"
    unfolding indegrees_def keys_entry by (simp add: comp_def)
  have mem: "k \<in> set (map fst (filter (\<lambda>(_, n). n = 0) ?ind)) \<longleftrightarrow> map_of ?ind k = Some 0" for k
    using map_of_eq_Some_iff [of ?ind k 0] assms keys by force
  have "distinct (map fst (filter (\<lambda>(_, n). n = 0) ?ind))"
    using assms keys by (simp add: distinct_map_filter)
  moreover have "set (map fst (filter (\<lambda>(_, n). n = 0) ?ind)) \<subseteq> set (map node_id nodes)"
    unfolding keys [symmetric] by auto
  ultimately show ?thesis
    using mem indegree_of [OF assms] unfolding kahn_inv_def by (auto simp del: set_map)
qed

lemma in_order_split:
  "in_order ready ns \<Longrightarrow> n \<in> set ns \<Longrightarrow>
   \<exists>xs ys. ns = xs @ n # ys \<and> set (node_depends_on n) \<subseteq> set ready \<union> node_id ` set xs"
proof (induction ready ns rule: in_order.induct)
  case (2 ready m ns)
  show ?case
  proof (cases "n = m")
    case True
    then show ?thesis using 2 by (intro exI [of _ "[]"] exI [of _ ns]) auto
  next
    case False
    then obtain xs ys where "ns = xs @ n # ys" "set (node_depends_on n) \<subseteq> set (node_id m # ready) \<union> node_id ` set xs"
      using 2 by auto
    then show ?thesis by (intro exI [of _ "m # xs"] exI [of _ ys]) auto
  qed
qed simp

lemma in_order_acyclic:
  assumes "in_order [] ns" and "distinct (map node_id ns)"
  shows "acyclic (waits_for ns)"
proof -
  define pos where "pos i = length (takeWhile (\<lambda>j. j \<noteq> i) (map node_id ns))" for i
  have "(dep, node_id n) \<in> measure pos" if n: "n \<in> set ns" "dep \<in> set (node_depends_on n)" for dep n
  proof -
    obtain xs ys where split: "ns = xs @ n # ys" "dep \<in> node_id ` set xs"
      using in_order_split [OF assms(1) n(1)] n(2) by auto
    have "node_id n \<notin> node_id ` set xs" using split(1) assms(2) by simp
    then have "takeWhile (\<lambda>j. j \<noteq> node_id n) (map node_id xs @ node_id n # map node_id ys) = map node_id xs"
      by (induction xs) auto
    then have "pos (node_id n) = length xs" using split(1) by (simp add: pos_def)
    moreover have "length (takeWhile (\<lambda>j. j \<noteq> dep) (ms @ rest)) < length ms" if "dep \<in> set ms" for ms rest
      using that by (induction ms) auto
    from this [of "map node_id xs" "map node_id (n # ys)"] have "pos dep < length xs"
      using split by (simp add: pos_def)
    ultimately show ?thesis by simp
  qed
  then have "waits_for ns \<subseteq> measure pos" by (auto simp: waits_for_def)
  then show ?thesis by (meson acyclic_subset wf_acyclic wf_measure)
qed

lemma stuck_cyclic:
  assumes "kahn_inv nodes ind [] ordered" and "dependencies_known nodes" and "acyclic (waits_for nodes)" and "m \<in> set nodes"
  shows "node_id m \<in> node_id ` set ordered"
proof (rule ccontr)
  assume "node_id m \<notin> node_id ` set ordered"
  let ?Q = "node_id ` set nodes - node_id ` set ordered"
  have "waits_for nodes = (\<Union>n\<in>set nodes. (\<lambda>dep. (dep, node_id n)) ` set (node_depends_on n))"
    by (auto simp: waits_for_def)
  then have "finite (waits_for nodes)" by simp
  then have "wf (waits_for nodes)" using assms(3) by (rule finite_acyclic_wf)
  moreover have "node_id m \<in> ?Q" using assms(4) \<open>node_id m \<notin> _\<close> by auto
  ultimately obtain z where z: "z \<in> ?Q" "\<And>y. (y, z) \<in> waits_for nodes \<Longrightarrow> y \<notin> ?Q"
    by (rule wfE_min) blast
  obtain n where n: "n \<in> set nodes" "node_id n = z" using z(1) by auto
  then have "waiting (map node_id ordered) n \<noteq> 0" using assms(1) z(1) by (auto simp: kahn_inv_def)
  then obtain dep where "dep \<in> set (node_depends_on n)" "dep \<notin> node_id ` set ordered"
    by (auto simp: waiting_def filter_empty_conv)
  then show False
    using z(2) [of dep] n assms(2) by (auto simp: waits_for_def dependencies_known_def)
qed

lemma topological_sort_correct:
  assumes dst: "distinct (map node_id nodes)" and known: "dependencies_known nodes"
  shows "case topological_sort nodes of
      Inr ordered \<Rightarrow> acyclic (waits_for nodes) \<and> mset ordered = mset nodes \<and> in_order [] ordered
    | Inl ex \<Rightarrow> \<not> acyclic (waits_for nodes) \<and> ex = ValueError ''Pipeline definition contains a cycle.''"
proof -
  let ?ind = "indegrees nodes"
  define r where "r = kahn (map (\<lambda>n. (node_id n, n)) nodes) (outgoing_of nodes) ?ind
    (sort (map fst (filter (\<lambda>(_, n). n = 0) ?ind))) []"
  obtain ind where inv: "kahn_inv nodes ind [] r"
    using kahn_keeps [OF refl refl dst kahn_start [OF dst]] unfolding r_def by blast
  then have r: "distinct (map node_id r)" "set r \<subseteq> set nodes" "in_order [] r" by (auto simp: kahn_inv_def)
  have sort: "topological_sort nodes = (if length r \<noteq> length nodes then Inl (ValueError ''Pipeline definition contains a cycle.'') else Inr r)"
    by (simp add: topological_sort_def Let_def r_def)
  have same: "mset r = mset nodes" if "set r = set nodes"
    using that r(1) dst by (metis distinct_map set_eq_iff_mset_eq_distinct)
  show ?thesis
  proof (cases "set r = set nodes")
    case True
    then have "waits_for r = waits_for nodes" by (simp add: waits_for_def)
    moreover have "length r = length nodes" using same [OF True] by (metis size_mset)
    ultimately show ?thesis using same [OF True] r in_order_acyclic [OF r(3,1)] sort by simp
  next
    case False
    then obtain m where m: "m \<in> set nodes" "m \<notin> set r" using r(2) by auto
    then have "node_id m \<notin> node_id ` set r"
      using r(2) dst by (auto simp: distinct_map dest: inj_onD)
    then have "\<not> acyclic (waits_for nodes)" using stuck_cyclic [OF inv known _ m(1)] by blast
    moreover have "length r \<noteq> length nodes"
      using False r dst by (metis card_subset_eq distinct_card distinct_map finite_set)
    ultimately show ?thesis using sort by simp
  qed
qed

section \<open>Accepted definitions\<close>

lemma normalized_node_fresh: "normalize_pipeline_node str_of raw ids = Inr n \<Longrightarrow> node_id n \<notin> set ids"
  by (auto simp: normalize_pipeline_node_def Let_def try_bind_Inr split: json.splits if_splits)

lemma normalize_nodes_distinct:
  "normalize_nodes str_of raws ids = Inr ns \<Longrightarrow> distinct (map node_id ns) \<and> node_id ` set ns \<inter> set ids = {} \<and> length ns = length raws"
proof (induction raws arbitrary: ids ns)
  case (Cons raw raws)
  then obtain n ms where n: "normalize_pipeline_node str_of raw ids = Inr n" "normalize_nodes str_of raws (node_id n # ids) = Inr ms" "ns = n # ms"
    by (auto simp: try_bind_Inr)
  from Cons.IH [OF n(2)] normalized_node_fresh [OF n(1)] show ?case unfolding n(3) by auto
qed simp

lemma pipeline_nodes_ok:
  assumes "pipeline_nodes str_of definition = Inr nodes"
  shows "distinct (map node_id nodes) \<and> dependencies_known nodes \<and> nodes \<noteq> []"
proof -
  obtain r rs where "normalize_nodes str_of (r # rs) [] = Inr nodes" "check_dependencies_known nodes = Inr ()"
    using assms by (auto simp: pipeline_nodes_def try_bind_Inr split: option.splits json.splits list.splits)
  with normalize_nodes_distinct [OF this(1)] show ?thesis
    by (auto simp: check_dependencies_known_def split: if_splits)
qed

lemma last_is_terminal:
  assumes "in_order [] (xs @ [n])" and "distinct (map node_id (xs @ [n]))" and "m \<in> set (xs @ [n])"
  shows "node_id n \<notin> set (node_depends_on m)"
proof -
  obtain us vs where us: "xs @ [n] = us @ m # vs" "set (node_depends_on m) \<subseteq> node_id ` set us"
    using in_order_split [OF assms(1,3)] by auto
  have "set us \<subseteq> set xs" using us(1) by (cases vs rule: rev_cases) auto
  then have "node_id n \<notin> node_id ` set us" using assms(2) by auto
  then show ?thesis using us(2) by auto
qed

text \<open>
  C14. A pipeline definition is accepted exactly when its nodes are well formed and their dependencies have no
  cycle. The plan then runs every node once, each after all nodes it depends on, and at least one node is
  terminal, so that the run has an output; a cycle is refused with an error of its own. The node ids are
  distinct and the dependencies name nodes of the pipeline.
\<close>

theorem pipeline_order_correct:
  "case validate_definition str_of definition of
     Inr plan \<Rightarrow> pipeline_nodes str_of definition = Inr (plan_nodes plan) \<and> acyclic (waits_for (plan_nodes plan)) \<and>
       distinct (map node_id (plan_nodes plan)) \<and> dependencies_known (plan_nodes plan) \<and>
       mset (ordered_nodes plan) = mset (plan_nodes plan) \<and> in_order [] (ordered_nodes plan) \<and> terminal_nodes plan \<noteq> []
   | Inl ex \<Rightarrow> pipeline_nodes str_of definition = Inl ex \<or>
       (\<exists>nodes. pipeline_nodes str_of definition = Inr nodes \<and> \<not> acyclic (waits_for nodes) \<and>
          ex = ValueError ''Pipeline definition contains a cycle.'')"
proof (cases "pipeline_nodes str_of definition")
  case (Inl ex)
  then show ?thesis by (simp add: validate_definition_def)
next
  case (Inr nodes)
  note ok = pipeline_nodes_ok [OF Inr]
  note sorted = topological_sort_correct [of nodes]
  show ?thesis
  proof (cases "topological_sort nodes")
    case (Inl ex)
    then show ?thesis using Inr ok sorted by (simp add: validate_definition_def)
  next
    case order: (Inr ordered)
    then have o: "acyclic (waits_for nodes)" "mset ordered = mset nodes" "in_order [] ordered" using ok sorted by simp_all
    have same: "set ordered = set nodes" "distinct (map node_id ordered)"
      using o(2) ok by (metis mset_eq_setD, metis mset_eq_imp_distinct_iff mset_map)
    have "ordered \<noteq> []" using ok same by auto
    then obtain xs n where xs: "ordered = xs @ [n]" by (cases ordered rule: rev_cases) auto
    have "node_id n \<notin> set (node_depends_on m)" if "m \<in> set nodes" for m
      by (rule last_is_terminal [of xs]) (use o(3) same that in \<open>simp_all only: xs\<close>)
    then have "node_id n \<in> set (filter (\<lambda>i. i \<notin> (\<Union>n\<in>set nodes. set (node_depends_on n))) (map node_id nodes))"
      using same(1) xs by auto
    then have "filter (\<lambda>i. i \<notin> (\<Union>n\<in>set nodes. set (node_depends_on n))) (map node_id nodes) \<noteq> []" by (metis list.set(1) empty_iff)
    then show ?thesis using Inr order o ok by (simp add: validate_definition_def)
  qed
qed

section \<open>The input of a node\<close>

fun lookup_path :: "json \<Rightarrow> string list \<Rightarrow> exn + json" where
  "lookup_path v [] = Inr v"
| "lookup_path (JObj kvs) (segment # path) =
     (case map_of kvs segment of
        None \<Rightarrow> Inl (ValueError ''Could not resolve. Missing segment.'')
      | Some v \<Rightarrow> lookup_path v path)"
| "lookup_path _ (segment # path) = Inl (ValueError ''Could not resolve. Missing segment.'')"

text \<open>\<open>text.split('.')\<close> without the empty parts.\<close>

fun split_dots :: "string \<Rightarrow> string \<Rightarrow> string list" where
  "split_dots part [] = (if part = [] then [] else [rev part])"
| "split_dots part (c # cs) =
     (if c = CHR ''.'' then (if part = [] then [] else [rev part]) @ split_dots [] cs else split_dots (c # part) cs)"

definition not_completed :: exn where
  "not_completed = ValueError ''Could not resolve. Step has not completed.''"

text \<open>What a text of an input map refers to.\<close>

datatype reference = WholeInput | InputPath "string list" | StepOutput string "string list" | Literal

definition parse_reference :: "string \<Rightarrow> reference" where
  "parse_reference s =
     (if s = ''$input'' then WholeInput
      else if prefix ''$input.'' s then InputPath (split_dots [] (drop 7 s))
      else if prefix ''$'' s then
        (case split_dots [] (drop 1 s) of
           step # marker # path \<Rightarrow> if marker = ''output'' then StepOutput step path else Literal
         | _ \<Rightarrow> Literal)
      else Literal)"

definition resolve_text :: "string \<Rightarrow> (string \<times> json) list \<Rightarrow> (string \<times> json) list \<Rightarrow> exn + json" where
  "resolve_text s input results =
     (case parse_reference s of
        WholeInput \<Rightarrow> Inr (JObj input)
      | InputPath path \<Rightarrow> lookup_path (JObj input) path
      | StepOutput step path \<Rightarrow>
          (case map_of results step of
             None \<Rightarrow> Inl not_completed
           | Some out \<Rightarrow> lookup_path out path)
      | Literal \<Rightarrow> Inr (JStr s))"

fun resolve_value :: "(string \<times> json) list \<Rightarrow> (string \<times> json) list \<Rightarrow> json \<Rightarrow> exn + json"
  and resolve_fields :: "(string \<times> json) list \<Rightarrow> (string \<times> json) list \<Rightarrow> (string \<times> json) list \<Rightarrow> exn + (string \<times> json) list"
  and resolve_items :: "(string \<times> json) list \<Rightarrow> (string \<times> json) list \<Rightarrow> json list \<Rightarrow> exn + json list" where
  "resolve_value input results (JStr s) = resolve_text s input results"
| "resolve_value input results (JObj kvs) = try_bind (resolve_fields input results kvs) (\<lambda>r. Inr (JObj r))"
| "resolve_value input results (JArr xs) = try_bind (resolve_items input results xs) (\<lambda>r. Inr (JArr r))"
| "resolve_value input results v = Inr v"
| "resolve_fields input results [] = Inr []"
| "resolve_fields input results ((k, v) # kvs) =
     try_bind (resolve_value input results v) (\<lambda>r. try_bind (resolve_fields input results kvs) (\<lambda>rs. Inr ((k, r) # rs)))"
| "resolve_items input results [] = Inr []"
| "resolve_items input results (v # vs) =
     try_bind (resolve_value input results v) (\<lambda>r. try_bind (resolve_items input results vs) (\<lambda>rs. Inr (r # rs)))"

definition resolve_input_map ::
  "(string \<times> json) list \<Rightarrow> (string \<times> json) list \<Rightarrow> (string \<times> json) list \<Rightarrow> exn + (string \<times> json) list" where
  "resolve_input_map input_map input results = resolve_fields input results input_map"

text \<open>The steps whose output a value refers to.\<close>

fun value_steps :: "json \<Rightarrow> string set" and field_steps :: "(string \<times> json) list \<Rightarrow> string set" and item_steps :: "json list \<Rightarrow> string set" where
  "value_steps (JStr s) = (case parse_reference s of StepOutput step _ \<Rightarrow> {step} | _ \<Rightarrow> {})"
| "value_steps (JObj kvs) = field_steps kvs"
| "value_steps (JArr xs) = item_steps xs"
| "value_steps v = {}"
| "field_steps [] = {}"
| "field_steps ((k, v) # kvs) = value_steps v \<union> field_steps kvs"
| "item_steps [] = {}"
| "item_steps (v # vs) = value_steps v \<union> item_steps vs"

lemma lookup_path_error: "lookup_path v path = Inl ex \<Longrightarrow> ex \<noteq> not_completed"
  by (induction v path rule: lookup_path.induct) (auto simp: not_completed_def split: option.splits)

lemma resolve_error:
  "value_steps v \<subseteq> set (map fst results) \<Longrightarrow> resolve_value input results v \<noteq> Inl not_completed"
  "field_steps kvs \<subseteq> set (map fst results) \<Longrightarrow> resolve_fields input results kvs \<noteq> Inl not_completed"
  "item_steps xs \<subseteq> set (map fst results) \<Longrightarrow> resolve_items input results xs \<noteq> Inl not_completed"
proof (induction v and kvs and xs rule: value_steps_field_steps_item_steps.induct)
  case (1 s)
  then show ?case
    by (auto simp: resolve_text_def map_of_eq_None_iff dest: lookup_path_error split: reference.splits option.splits)
qed (auto simp: try_bind_def split: sum.splits)

end
