(* ===== verification/Pipelines.thy ===== *)
theory Pipelines
  imports Pipeline_Graph
begin

text \<open>
  The tables of pipelines and of their runs (\<open>core/pipelines/db.py\<close>), the built-in recipes
  (\<open>core/recipes.py\<close>), and who may see a pipeline (\<open>_pipeline_visible_to_caller\<close> of
  \<open>server/application_parts/part_014.py\<close>). The stored JSON of a pipeline is its document; the list that
  \<open>ensure_builtin_recipes\<close> returns is left out.
\<close>

section \<open>Pipelines\<close>

definition find_pipeline :: "string \<Rightarrow> db \<Rightarrow> pipeline option" where
  "find_pipeline pid d = find (\<lambda>p. pipeline_id p = pid) (pipelines d)"

definition get_pipeline :: "env \<Rightarrow> string \<Rightarrow> (db, pipeline option) prog" where
  "get_pipeline e pid = transact (select e (find_pipeline (py_strip pid)))"

definition pipeline_row :: "env \<Rightarrow> string \<Rightarrow> string \<Rightarrow> string \<Rightarrow> json \<Rightarrow> string option \<Rightarrow> bool \<Rightarrow> pipeline" where
  "pipeline_row e pid owner name document description public =
     \<lparr>pipeline_id = pid, pipeline_owner_id = py_strip owner, pipeline_name = py_strip name,
      pipeline_description = py_strip (or_empty description), pipeline_definition = document, is_public = public,
      pipeline_created_at = now e, pipeline_updated_at = now e\<rparr>"

definition create_pipeline ::
  "env \<Rightarrow> string \<Rightarrow> string \<Rightarrow> json \<Rightarrow> string option \<Rightarrow> bool \<Rightarrow> string option \<Rightarrow> (db, pipeline) prog" where
  "create_pipeline e owner name document description public pid =
     (let new_id = or_text (py_strip (or_text (or_empty pid) (uuid e 0))) (uuid e 0) in
      bindE (transact (insert_stmt e pipelines (\<lambda>rs d. d\<lparr>pipelines := rs\<rparr>)
               (\<lambda>r d. find_pipeline (pipeline_id r) d = None)
               (pipeline_row e new_id owner name document description public))) (\<lambda>_.
      bindE (get_pipeline e new_id) (\<lambda>created.
      case created of None \<Rightarrow> throw (RuntimeError ''Failed to create pipeline.'') | Some p \<Rightarrow> ret p)))"

text \<open>\<open>INSERT ... ON CONFLICT(pipeline_id) DO UPDATE\<close>: an existing row keeps its creation time.\<close>

definition upsert_stmt :: "env \<Rightarrow> pipeline \<Rightarrow> (db, unit) prog" where
  "upsert_stmt e r =
     stmt e (\<lambda>d. (Inr (), d\<lparr>pipelines :=
        (if find_pipeline (pipeline_id r) d = None then pipelines d @ [r]
         else update_rows (\<lambda>p. pipeline_id p = pipeline_id r) (\<lambda>p. r\<lparr>pipeline_created_at := pipeline_created_at p\<rparr>) (pipelines d))\<rparr>))"

definition upsert_pipeline ::
  "env \<Rightarrow> string \<Rightarrow> string \<Rightarrow> json \<Rightarrow> string option \<Rightarrow> bool \<Rightarrow> string \<Rightarrow> (db, pipeline) prog" where
  "upsert_pipeline e owner name document description public pid =
     bindE (transact (upsert_stmt e (pipeline_row e (py_strip pid) owner name document description public))) (\<lambda>_.
     bindE (get_pipeline e (py_strip pid)) (\<lambda>updated.
     case updated of None \<Rightarrow> throw (RuntimeError ''Failed to upsert pipeline.'') | Some p \<Rightarrow> ret p))"

definition listed_pipeline :: "string option \<Rightarrow> bool \<Rightarrow> pipeline \<Rightarrow> bool" where
  "listed_pipeline owner include_public p =
     (case none_if_empty (py_strip (or_empty owner)) of
        Some w \<Rightarrow> pipeline_owner_id p = w \<or> (include_public \<and> is_public p)
      | None \<Rightarrow> include_public \<longrightarrow> is_public p)"

definition list_pipelines :: "env \<Rightarrow> string option \<Rightarrow> bool \<Rightarrow> (db, pipeline list) prog" where
  "list_pipelines e owner include_public =
     transact (select e (\<lambda>d. order_limit (\<lambda>p. (- pipeline_updated_at p, - pipeline_created_at p)) 500
       (filter (listed_pipeline owner include_public) (pipelines d))))"

definition pipeline_visible_to_caller :: "bool \<Rightarrow> string \<Rightarrow> pipeline \<Rightarrow> bool" where
  "pipeline_visible_to_caller master caller_owner p =
     (master \<or> (py_strip (pipeline_owner_id p) \<noteq> [] \<and> py_strip (pipeline_owner_id p) = caller_owner) \<or> is_public p)"

section \<open>Runs\<close>

definition find_run :: "string \<Rightarrow> db \<Rightarrow> pipeline_run option" where
  "find_run rid d = find (\<lambda>r. pipeline_run_id r = rid) (pipeline_runs d)"

definition get_run :: "env \<Rightarrow> string \<Rightarrow> (db, pipeline_run option) prog" where
  "get_run e rid = transact (select e (find_run (py_strip rid)))"

definition update_runs :: "env \<Rightarrow> string \<Rightarrow> (pipeline_run \<Rightarrow> pipeline_run) \<Rightarrow> (db, nat) prog" where
  "update_runs e rid f =
     update_stmt e pipeline_runs (\<lambda>rs d. d\<lparr>pipeline_runs := rs\<rparr>) (\<lambda>_. True) (\<lambda>r. pipeline_run_id r = rid) f"

definition create_run :: "env \<Rightarrow> string \<Rightarrow> string \<Rightarrow> json \<Rightarrow> (db, pipeline_run) prog" where
  "create_run e pid caller input =
     bindE (transact (insert_stmt e pipeline_runs (\<lambda>rs d. d\<lparr>pipeline_runs := rs\<rparr>)
        (\<lambda>r d. find_run (pipeline_run_id r) d = None \<and> find_pipeline (run_pipeline_id r) d \<noteq> None)
        \<lparr>pipeline_run_id = uuid e 0, run_pipeline_id = py_strip pid, run_caller_owner_id = py_strip caller,
         run_status = ''running'', run_input = input, run_output = None, run_error_message = None, step_results = JObj [],
         total_charged_cents = 0, run_workspace_id = None, pipeline_run_created_at = now e, run_updated_at = now e,
         run_completed_at = None\<rparr>)) (\<lambda>_.
     bindE (get_run e (uuid e 0)) (\<lambda>created.
     case created of None \<Rightarrow> throw (RuntimeError ''Failed to create pipeline run.'') | Some r \<Rightarrow> ret r))"

text \<open>\<open>updated_at = COALESCE(updated_at, now)\<close> leaves the column, which is never null, as it is.\<close>

definition update_run_step :: "env \<Rightarrow> string \<Rightarrow> string \<Rightarrow> json \<Rightarrow> int \<Rightarrow> (db, pipeline_run option) prog" where
  "update_run_step e rid node result charge_delta =
     bindE (transact (bindE (select e (find_run (py_strip rid))) (\<lambda>row.
       case row of
         None \<Rightarrow> ret False
       | Some r \<Rightarrow>
           let results = (case step_results r of JObj kvs \<Rightarrow> kvs | _ \<Rightarrow> [])
           in bindE (update_runs e (py_strip rid) (\<lambda>r. r\<lparr>step_results := JObj (AList.update (py_strip node) result results),
                       total_charged_cents := total_charged_cents r + max 0 charge_delta\<rparr>)) (\<lambda>_. ret True))))
       (\<lambda>found. if found then get_run e rid else ret None)"

definition complete_run :: "env \<Rightarrow> string \<Rightarrow> json \<Rightarrow> (db, pipeline_run option) prog" where
  "complete_run e rid result =
     bindE (transact (update_runs e (py_strip rid) (\<lambda>r. r\<lparr>run_status := ''complete'', run_output := Some result,
        run_error_message := None, run_updated_at := now e,
        run_completed_at := (case run_completed_at r of None \<Rightarrow> Some (now e) | t \<Rightarrow> t)\<rparr>))) (\<lambda>_. get_run e rid)"

definition fail_run :: "env \<Rightarrow> string \<Rightarrow> string \<Rightarrow> (db, pipeline_run option) prog" where
  "fail_run e rid msg =
     bindE (transact (update_runs e (py_strip rid) (\<lambda>r. r\<lparr>run_status := ''failed'',
        run_error_message := Some (or_text (py_strip msg) ''Pipeline execution failed.''), run_updated_at := now e,
        run_completed_at := (case run_completed_at r of None \<Rightarrow> Some (now e) | t \<Rightarrow> t)\<rparr>))) (\<lambda>_. get_run e rid)"

definition set_run_workspace :: "env \<Rightarrow> string \<Rightarrow> string \<Rightarrow> (db, unit) prog" where
  "set_run_workspace e rid workspace =
     bindE (transact (update_runs e (py_strip rid) (\<lambda>r. r\<lparr>run_workspace_id := Some (py_strip workspace)\<rparr>))) (\<lambda>_. ret ())"

section \<open>Recipes\<close>

definition PLATFORM_RECIPES_OWNER_ID :: string where
  "PLATFORM_RECIPES_OWNER_ID = ''platform:recipes''"

definition step_role :: "(string \<times> json) list \<Rightarrow> string" where
  "step_role node = (case map_of node ''depends_on'' of Some (JArr (_ # _)) \<Rightarrow> ''follower'' | _ \<Rightarrow> ''primary'')"

fun estimate_nodes :: "(json \<Rightarrow> string) \<Rightarrow> (string \<Rightarrow> int option) \<Rightarrow> json list \<Rightarrow> int \<times> string list" where
  "estimate_nodes str_of price [] = (0, [])"
| "estimate_nodes str_of price (JObj kvs # nodes) =
     (let agent = py_strip (text_or_empty str_of (map_of kvs ''agent_id''));
          (total, missing) = estimate_nodes str_of price nodes
      in if agent = [] then (total, missing)
         else case price agent of Some c \<Rightarrow> (c + total, missing) | None \<Rightarrow> (total, agent # missing))"
| "estimate_nodes str_of price (_ # nodes) = estimate_nodes str_of price nodes"

definition estimate_recipe_cost_cents :: "(json \<Rightarrow> string) \<Rightarrow> json \<Rightarrow> (string \<Rightarrow> int option) \<Rightarrow> int \<times> string list" where
  "estimate_recipe_cost_cents str_of definition price =
     (case json_get definition ''nodes'' of Some (JArr nodes) \<Rightarrow> estimate_nodes str_of price nodes | _ \<Rightarrow> (0, []))"

record recipe =
  recipe_id :: string
  recipe_name :: string
  recipe_description :: string
  default_input_schema :: json
  recipe_definition :: json

definition DEPENDENCY_AUDITOR_AGENT_ID :: string where
  "DEPENDENCY_AUDITOR_AGENT_ID = ''11fab82a-426e-513e-abf3-528d99ef2b87''"

definition DNS_INSPECTOR_AGENT_ID :: string where
  "DNS_INSPECTOR_AGENT_ID = ''3d677381-791c-5e83-8e66-5b77d0e43e2e''"

definition BUILTIN_RECIPES :: "recipe list" where
  "BUILTIN_RECIPES =
     [\<lparr>recipe_id = ''audit-deps'', recipe_name = ''audit-deps'',
       recipe_description = ''Audit a dependency manifest for known CVEs, license risks, and prioritized upgrades.'',
       default_input_schema = JObj [(''type'', JStr ''object''),
         (''properties'', JObj [(''manifest'', JObj [(''type'', JStr ''string''),
            (''description'', JStr ''Contents of package.json or requirements.txt'')])]),
         (''required'', JArr [JStr ''manifest''])],
       recipe_definition = JObj [(''nodes'', JArr [JObj [(''id'', JStr ''audit''), (''agent_id'', JStr DEPENDENCY_AUDITOR_AGENT_ID),
         (''input_map'', JObj [(''manifest'', JStr ''$input.manifest'')])]])]\<rparr>,
      \<lparr>recipe_id = ''domain-health'', recipe_name = ''domain-health'',
       recipe_description = ''Run DNS, SSL, and HTTP-header checks on one or more domains.'',
       default_input_schema = JObj [(''type'', JStr ''object''),
         (''properties'', JObj [(''domains'', JObj [(''type'', JStr ''array''), (''items'', JObj [(''type'', JStr ''string'')])])]),
         (''required'', JArr [JStr ''domains''])],
       recipe_definition = JObj [(''nodes'', JArr [JObj [(''id'', JStr ''inspect''), (''agent_id'', JStr DNS_INSPECTOR_AGENT_ID),
         (''input_map'', JObj [(''domains'', JStr ''$input.domains''),
            (''checks'', JArr [JStr ''dns'', JStr ''ssl'', JStr ''http''])])]])]\<rparr>]"

definition get_builtin_recipe_input_schema :: "string option \<Rightarrow> json option" where
  "get_builtin_recipe_input_schema rid =
     (let rid = py_strip (or_empty rid) in
      if rid = [] then None
      else case find (\<lambda>r. recipe_id r = rid) BUILTIN_RECIPES of
          Some r \<Rightarrow> (case default_input_schema r of JObj (kv # kvs) \<Rightarrow> Some (JObj (kv # kvs)) | _ \<Rightarrow> None)
        | None \<Rightarrow> None)"

definition RETIRED_RECIPE_TEXT :: string where
  "RETIRED_RECIPE_TEXT = ''[deprecated] This recipe referenced a sunset agent and has been retired.''"

definition upsert_recipe :: "env \<Rightarrow> recipe \<Rightarrow> (db, unit) prog" where
  "upsert_recipe e r =
     bindE (upsert_pipeline e PLATFORM_RECIPES_OWNER_ID (recipe_name r) (recipe_definition r) (Some (recipe_description r)) True
        (recipe_id r)) (\<lambda>_. ret ())"

definition retire_recipe :: "env \<Rightarrow> string list \<Rightarrow> pipeline \<Rightarrow> (db, unit) prog" where
  "retire_recipe e keep_ids p =
     (let pid = py_strip (pipeline_id p) in
      if pid = [] \<or> pid \<in> set keep_ids then ret ()
      else catchE
        (bindE (upsert_pipeline e PLATFORM_RECIPES_OWNER_ID (or_text (pipeline_name p) pid)
            (if is_truthy (pipeline_definition p) then pipeline_definition p else JObj [(''nodes'', JArr [])])
            (Some RETIRED_RECIPE_TEXT) False pid) (\<lambda>_. ret ()))
        (\<lambda>_. ret ()))"

definition ensure_builtin_recipes :: "env \<Rightarrow> (db, unit) prog" where
  "ensure_builtin_recipes e =
     bindE (for_each BUILTIN_RECIPES (upsert_recipe e)) (\<lambda>_.
     bindE (catchE (list_pipelines e (Some PLATFORM_RECIPES_OWNER_ID) True) (\<lambda>_. ret [])) (\<lambda>existing.
     for_each existing (retire_recipe e (map recipe_id BUILTIN_RECIPES))))"

section \<open>What the start of the server does to public pipelines\<close>

lemma find_pipeline_flag [simp]: "find_pipeline pid (d\<lparr>tx_failed := b\<rparr>) = find_pipeline pid d"
  by (simp add: find_pipeline_def)

lemma find_pipeline_id: "find_pipeline k d = Some p \<Longrightarrow> pipeline_id p = k"
  by (auto simp: find_pipeline_def dest: find_SomeD)

definition upserted :: "pipeline \<Rightarrow> db \<Rightarrow> db" where
  "upserted r d = d\<lparr>pipelines :=
     (if find_pipeline (pipeline_id r) d = None then pipelines d @ [r]
      else update_rows (\<lambda>p. pipeline_id p = pipeline_id r) (\<lambda>p. r\<lparr>pipeline_created_at := pipeline_created_at p\<rparr>) (pipelines d))\<rparr>"

lemma find_upserted:
  "find_pipeline k (upserted r d) =
     (if k = pipeline_id r
      then Some (r\<lparr>pipeline_created_at := (case find_pipeline k d of None \<Rightarrow> pipeline_created_at r | Some q \<Rightarrow> pipeline_created_at q)\<rparr>)
      else find_pipeline k d)"
proof (cases "find_pipeline (pipeline_id r) d")
  case None
  then show ?thesis by (auto simp: upserted_def find_pipeline_def find_append split: option.splits)
next
  case (Some q)
  let ?f = "\<lambda>p. r\<lparr>pipeline_created_at := pipeline_created_at p\<rparr>"
  have "find (\<lambda>p. pipeline_id p = k) (update_rows (\<lambda>p. pipeline_id p = pipeline_id r) ?f rs) =
      map_option (\<lambda>p. if pipeline_id p = pipeline_id r then ?f p else p) (find (\<lambda>p. pipeline_id p = k) rs)" for rs
    by (rule find_update_same) auto
  then have "find_pipeline k (upserted r d) = map_option (\<lambda>p. if pipeline_id p = pipeline_id r then ?f p else p) (find_pipeline k d)"
    using Some by (simp add: upserted_def find_pipeline_def)
  moreover have "find_pipeline k d = Some p \<Longrightarrow> pipeline_id p = k" for p by (rule find_pipeline_id)
  ultimately show ?thesis using Some by (cases "find_pipeline k d") auto
qed

lemma upserted_distinct: "distinct (map pipeline_id (pipelines d)) \<Longrightarrow> distinct (map pipeline_id (pipelines (upserted r d)))"
  by (auto simp: upserted_def find_pipeline_def find_None_iff map_update_rows_same)

lemma wp_upsert_pipeline:
  "wp (upsert_pipeline e owner name document description public pid) Q E d =
     (let r = pipeline_row e (py_strip pid) owner name document description public
      in Q (the (find_pipeline (py_strip pid) (upserted r d))) (upserted r (d\<lparr>tx_failed := False\<rparr>)))"
proof -
  have id: "pipeline_id (pipeline_row e (py_strip pid) owner name document description public) = py_strip pid"
    by (simp add: pipeline_row_def)
  have flag: "tx_failed (upserted r (d\<lparr>tx_failed := False\<rparr>)) = False"
    "(upserted r (d\<lparr>tx_failed := False\<rparr>))\<lparr>tx_failed := False\<rparr> = upserted r (d\<lparr>tx_failed := False\<rparr>)"
    "find_pipeline k (upserted r (d\<lparr>tx_failed := False\<rparr>)) = find_pipeline k (upserted r d)" for r k
    by (simp_all add: upserted_def find_pipeline_def)
  have stmt: "wp (upsert_stmt e r) Q E d = (if pg_failed e d then E InFailedSqlTransaction d else Q () (upserted r d))" for r Q E d
    by (simp add: wp_def upsert_stmt_def stmt_def upserted_def)
  show ?thesis
    by (simp add: upsert_pipeline_def get_pipeline_def wp_transact wp_bindE stmt wp_select wp_case_option wp_ret wp_throw flag
        find_upserted id Let_def)
qed

text \<open>A row that a recipe or a retirement of another pipeline does not touch.\<close>

lemma wp_upsert_recipe:
  assumes "distinct (map pipeline_id (pipelines d))" and "pid \<noteq> py_strip (recipe_id r)"
  shows "wp (upsert_recipe e r) (\<lambda>_ d'. distinct (map pipeline_id (pipelines d')) \<and> find_pipeline pid d' = find_pipeline pid d \<and>
     length (pipelines d') \<le> Suc (length (pipelines d))) (\<lambda>_ _. False) d"
  using assms by (simp add: upsert_recipe_def wp_bindE wp_ret wp_upsert_pipeline Let_def upserted_distinct find_upserted pipeline_row_def)
    (simp add: upserted_def)

definition taken_over :: "pipeline \<Rightarrow> pipeline \<Rightarrow> bool" where
  "taken_over p q \<longleftrightarrow> pipeline_id q = pipeline_id p \<and> pipeline_owner_id q = PLATFORM_RECIPES_OWNER_ID \<and> \<not> is_public q \<and>
     pipeline_description q = RETIRED_RECIPE_TEXT"

lemma stripped_constants:
  "py_strip PLATFORM_RECIPES_OWNER_ID = PLATFORM_RECIPES_OWNER_ID" "py_strip RETIRED_RECIPE_TEXT = RETIRED_RECIPE_TEXT"
  by (simp_all add: PLATFORM_RECIPES_OWNER_ID_def RETIRED_RECIPE_TEXT_def py_strip_def py_space_def)

lemma wp_retire_recipe:
  "wp (retire_recipe e keep p)
     (\<lambda>_ d'. (\<forall>k q. find_pipeline k d = Some q \<longrightarrow> (\<exists>q'. find_pipeline k d' = Some q' \<and>
          (q' = q \<or> (taken_over q q' \<and> k = py_strip (pipeline_id p))))) \<and>
        (py_strip (pipeline_id p) \<noteq> [] \<and> py_strip (pipeline_id p) \<notin> set keep \<longrightarrow>
           (\<exists>q. find_pipeline (py_strip (pipeline_id p)) d' = Some q \<and> pipeline_owner_id q = PLATFORM_RECIPES_OWNER_ID \<and>
              \<not> is_public q \<and> pipeline_description q = RETIRED_RECIPE_TEXT)))
     (\<lambda>_ _. False) d"
  unfolding retire_recipe_def Let_def
  by (auto simp: wp_ret wp_catchE wp_bindE wp_if wp_upsert_pipeline Let_def find_upserted pipeline_row_def stripped_constants or_empty_def
      taken_over_def dest: find_pipeline_id)

definition retired :: "string \<Rightarrow> db \<Rightarrow> bool" where
  "retired pid d \<longleftrightarrow> (\<exists>q. find_pipeline pid d = Some q \<and> pipeline_owner_id q = PLATFORM_RECIPES_OWNER_ID \<and> \<not> is_public q \<and>
     pipeline_description q = RETIRED_RECIPE_TEXT)"

lemma wp_retire_all:
  assumes "pid \<noteq> []" and "py_strip pid = pid" and "pid \<notin> set keep"
  shows "retired pid d \<or> pid \<in> pipeline_id ` set rows \<Longrightarrow>
    wp (for_each rows (retire_recipe e keep)) (\<lambda>_ d'. retired pid d') (\<lambda>_ _. False) d"
proof (induction rows arbitrary: d)
  case Nil
  then show ?case by (simp add: wp_ret)
next
  case (Cons p rows)
  have "wp (retire_recipe e keep p) (\<lambda>_ d'. retired pid d' \<or> pid \<in> pipeline_id ` set rows) (\<lambda>_ _. False) d"
    by (rule wp_post_mono [OF wp_retire_recipe]) (use Cons.prems assms in \<open>auto simp: retired_def taken_over_def, metis+\<close>)
  then show ?case
    unfolding for_each.simps wp_bindE by (rule wp_post_mono) (erule Cons.IH, simp)
qed

text \<open>
  C38. Every start of the server takes the public pipelines away from their owners. The clean-up of stale recipes
  asks \<open>list_pipelines\<close> for the platform's pipelines with \<open>include_public\<close> set, which also lists the public
  pipelines of everybody else, and retires each of them that is no built-in recipe: afterwards the platform
  owns it, it is private, and its author no longer sees it.
\<close>

theorem builtin_recipes_take_over_public_pipelines:
  assumes "distinct (map pipeline_id (pipelines d))" and "length (pipelines d) \<le> 498"
    and "find_pipeline pid d = Some p" and "is_public p" and "pipeline_owner_id p \<noteq> PLATFORM_RECIPES_OWNER_ID"
    and "pid \<noteq> []" and "py_strip pid = pid" and "pid \<notin> set (map recipe_id BUILTIN_RECIPES)"
  shows "wp (ensure_builtin_recipes e)
    (\<lambda>_ d'. \<exists>q. find_pipeline pid d' = Some q \<and> pipeline_owner_id q = PLATFORM_RECIPES_OWNER_ID \<and>
       \<not> pipeline_visible_to_caller False (pipeline_owner_id p) q) (\<lambda>_ _. False) d"
proof -
  obtain r1 r2 where rs: "BUILTIN_RECIPES = [r1, r2]" by (simp add: BUILTIN_RECIPES_def)
  have ids: "py_strip (recipe_id r) = recipe_id r" if "r \<in> set BUILTIN_RECIPES" for r
    using that by (auto simp: BUILTIN_RECIPES_def py_strip_def py_space_def)
  have other: "pid \<noteq> py_strip (recipe_id r1)" "pid \<noteq> py_strip (recipe_id r2)"
    using assms(8) ids by (auto simp: rs)
  let ?K = "map recipe_id BUILTIN_RECIPES"
  have rest: "wp (bindE (catchE (list_pipelines e (Some PLATFORM_RECIPES_OWNER_ID) True) (\<lambda>_. ret [])) (\<lambda>existing.
        for_each existing (retire_recipe e ?K))) (\<lambda>_ d'. retired pid d') (\<lambda>_ _. False) d2"
    if d2: "find_pipeline pid d2 = Some p" "length (pipelines d2) \<le> 500" for d2
  proof -
    let ?f = "filter (listed_pipeline (Some PLATFORM_RECIPES_OWNER_ID) True) (pipelines d2)"
    have "length ?f \<le> 500" by (rule order_trans [OF length_filter_le d2(2)])
    moreover have "p \<in> set ?f" using d2(1) assms(4) find_SomeD [of "\<lambda>p. pipeline_id p = pid" "pipelines d2" p]
      by (auto simp: find_pipeline_def listed_pipeline_def split: option.splits)
    ultimately have "p \<in> set (order_limit (\<lambda>p. (- pipeline_updated_at p, - pipeline_created_at p)) 500 ?f)"
      by (simp add: order_limit_def)
    then have "pid \<in> pipeline_id ` set (order_limit (\<lambda>p. (- pipeline_updated_at p, - pipeline_created_at p)) 500 ?f)"
      using find_pipeline_id [OF d2(1)] by blast
    then show ?thesis
      unfolding wp_bindE wp_catchE list_pipelines_def wp_transact wp_select
      by (simp add: wp_retire_all [OF assms(6,7,8)] del: set_map)
  qed
  have "wp (ensure_builtin_recipes e) (\<lambda>_ d'. retired pid d') (\<lambda>_ _. False) d"
    unfolding ensure_builtin_recipes_def rs for_each.simps wp_bindE wp_ret
  proof (rule wp_post_mono [OF wp_upsert_recipe [OF assms(1) other(1)]])
    fix x d1 assume d1: "distinct (map pipeline_id (pipelines d1)) \<and> find_pipeline pid d1 = find_pipeline pid d \<and>
       length (pipelines d1) \<le> Suc (length (pipelines d))"
    show "wp (upsert_recipe e r2) (\<lambda>_ d2. wp (catchE (list_pipelines e (Some PLATFORM_RECIPES_OWNER_ID) True) (\<lambda>_. ret []))
       (\<lambda>existing. wp (for_each existing (retire_recipe e (map recipe_id [r1, r2]))) (\<lambda>_ d'. retired pid d') (\<lambda>_ _. False)) (\<lambda>_ _. False) d2)
       (\<lambda>_ _. False) d1"
    proof (rule wp_post_mono [OF wp_upsert_recipe [of d1 pid r2]])
      fix x d2 assume "distinct (map pipeline_id (pipelines d2)) \<and> find_pipeline pid d2 = find_pipeline pid d1 \<and>
         length (pipelines d2) \<le> Suc (length (pipelines d1))"
      then show "wp (catchE (list_pipelines e (Some PLATFORM_RECIPES_OWNER_ID) True) (\<lambda>_. ret []))
         (\<lambda>existing. wp (for_each existing (retire_recipe e (map recipe_id [r1, r2]))) (\<lambda>_ d'. retired pid d') (\<lambda>_ _. False)) (\<lambda>_ _. False) d2"
        using rest [of d2] d1 assms(2,3) unfolding wp_bindE rs by simp
    qed (use d1 other in auto)
  qed simp
  then show ?thesis
    by (rule wp_post_mono) (use assms(4,5) in \<open>auto simp: retired_def pipeline_visible_to_caller_def stripped_constants\<close>)
qed

definition sample_pipeline :: pipeline where
  "sample_pipeline = \<lparr>pipeline_id = ''p1'', pipeline_owner_id = ''user:alice'', pipeline_name = ''mine'', pipeline_description = [],
     pipeline_definition = JObj [(''nodes'', JArr [])], is_public = True, pipeline_created_at = 0, pipeline_updated_at = 0\<rparr>"

lemma builtin_recipes_take_over_public_pipelines_witness:
  "wp (ensure_builtin_recipes (sample_env Postgres)) (\<lambda>_ d'. \<exists>q. find_pipeline ''p1'' d' = Some q \<and>
     pipeline_owner_id q = PLATFORM_RECIPES_OWNER_ID) (\<lambda>_ _. False) (sample_db\<lparr>pipelines := [sample_pipeline]\<rparr>)"
  by (rule wp_post_mono [OF builtin_recipes_take_over_public_pipelines [where p = sample_pipeline]])
    (auto simp: sample_pipeline_def find_pipeline_def PLATFORM_RECIPES_OWNER_ID_def BUILTIN_RECIPES_def py_strip_def py_space_def)

end
