(* ===== verification/Pipeline_Runs.thy ===== *)
theory Pipeline_Runs
  imports Pipelines Precall Success_Settlement
begin

text \<open>
  The execution of a pipeline (\<open>core/pipelines/executor.py\<close>): each node is charged, its agent is asked, and the
  call is settled or refunded; the run ends complete or failed. What an agent answers is a parameter, and so is
  what others do to the database while it works. A step has two environments, since its settlement comes
  later than its charge. Workspaces are files: a run stores the id of its own, and the references it resolves are a
  parameter. \<open>_reset_thread_db_state\<close> has no counterpart, as every operation here ends its transaction.
\<close>

definition of_result :: "exn + 'a \<Rightarrow> ('s, 'a) prog" where
  "of_result r = (case r of Inl ex \<Rightarrow> throw ex | Inr x \<Rightarrow> ret x)"

section \<open>The world of a step\<close>

type_synonym fields = "(string \<times> json) list"

record step_world =
  charge_env :: env
  settle_env :: env
  resolve_artifact_refs :: "fields \<Rightarrow> exn + fields"
  meanwhile :: "db \<Rightarrow> db"
  agent_answer :: "agent_row \<Rightarrow> fields \<Rightarrow> exn + json"
  latency_ms :: rat
  sign_output :: "agent_row \<Rightarrow> fields \<Rightarrow> output_signature_args"

record run_context =
  pricing_overlay :: pricing_overlay
  claim_deadline_setting :: "string option"
  current_origin :: "string option"
  run_caller :: string
  run_caller_wallet :: string
  run_client :: "string option"
  describe_error :: "exn \<Rightarrow> string"

section \<open>Answers\<close>

definition is_unchargeable_degraded :: "agent_row \<Rightarrow> fields \<Rightarrow> bool" where
  "is_unchargeable_degraded a out \<longleftrightarrow> py_strip (endpoint_url a) = ''internal://financial'' \<and>
     get_truthy out ''degraded_chargeable'' = None \<and> get_truthy out ''degraded_mode'' \<noteq> None \<and> get_truthy out ''llm_used'' = None"

definition output_has_error :: "fields \<Rightarrow> bool" where
  "output_has_error out = (case map_of out ''error'' of Some (JObj _) \<Rightarrow> True | Some (JStr _) \<Rightarrow> True | _ \<Rightarrow> False)"

definition checked_answer :: "agent_row \<Rightarrow> json \<Rightarrow> exn + fields" where
  "checked_answer a answer =
     (let out = (case answer of JObj kvs \<Rightarrow> kvs | v \<Rightarrow> [(''output'', v)])
      in if output_has_error out then Inl (RuntimeError ''Agent returned an error envelope.'')
         else if is_unchargeable_degraded a out
              then Inl (RuntimeError ''Agent returned unchargeable degraded fallback output.'')
         else Inr out)"

definition fetch_agent_output :: "step_world \<Rightarrow> agent_row \<Rightarrow> fields \<Rightarrow> (db, fields) prog" where
  "fetch_agent_output w a payload =
     bindE (\<lambda>d. (Inr (), meanwhile w d)) (\<lambda>_. of_result (try_bind (agent_answer w a payload) (checked_answer a)))"

text \<open>\<open>float(score)\<close> with its fallback, and whether it is at least eight.\<close>

fun high_score :: "json option \<Rightarrow> bool" where
  "high_score (Some (JNum x)) = (8 \<le> x)"
| "high_score (Some (JStr s)) =
     (case py_float s of Some (Finite x) \<Rightarrow> 8 \<le> x | Some Infinite \<Rightarrow> \<not> prefix ''-'' (py_strip s) | _ \<Rightarrow> False)"
| "high_score _ = False"

fun no_issues :: "json option \<Rightarrow> json option \<Rightarrow> bool" where
  "no_issues (Some (JNum x)) issues = (x = 0)"
| "no_issues (Some (JBool b)) issues = (\<not> b)"
| "no_issues None (Some (JArr xs)) = (xs = [])"
| "no_issues (Some JNull) (Some (JArr xs)) = (xs = [])"
| "no_issues _ _ = False"

definition risky_result :: "fields \<Rightarrow> bool" where
  "risky_result r \<longleftrightarrow> (case map_of r ''risk_tags'' of Some (JArr (_ # _)) \<Rightarrow> True | _ \<Rightarrow> False) \<or>
     get_truthy r ''secret_pattern_added'' \<noteq> None \<or> get_truthy r ''error_handling_removed'' \<noteq> None"

definition clean_result :: "fields \<Rightarrow> bool" where
  "clean_result r \<longleftrightarrow> no_issues (map_of r ''issue_count'') (map_of r ''issues'') \<and>
     high_score (case get_truthy r ''score'' of Some v \<Rightarrow> Some v | None \<Rightarrow> map_of r ''quality_score'')"

definition pipeline_contradiction :: "(string \<times> fields) list \<Rightarrow> bool" where
  "pipeline_contradiction results \<longleftrightarrow>
     list_ex (\<lambda>(_, r). risky_result r) results \<and> list_ex (\<lambda>(_, r). clean_result r) results"

definition contradiction_text :: string where
  "contradiction_text = ''Pipeline contradiction: an earlier stage flagged security or correctness risk, but a later review stage returned a clean result.''"

section \<open>Charge\<close>

definition PLATFORM_OWNER_ID :: string where
  "PLATFORM_OWNER_ID = ''platform''"

record step_state =
  st_price :: int
  st_estimate :: charge_estimate
  st_distribution :: distribution
  st_caller_wallet :: wallet
  st_agent_wallet :: wallet
  st_platform_wallet :: wallet
  st_charge_tx :: string
  st_job :: "job option"

definition agent_price_and_distribution ::
  "env \<Rightarrow> run_context \<Rightarrow> agent_row \<Rightarrow> fields \<Rightarrow> exn + charge_estimate \<times> distribution" where
  "agent_price_and_distribution e c a payload =
     try_bind (estimate_variable_charge (pricing_overlay c) a (Some payload) None None) (\<lambda>est.
     try_bind (compute_success_distribution (PLATFORM_FEE_PCT e) (est_price_cents est) (Some (PLATFORM_FEE_PCT e)) (Some ''caller''))
       (\<lambda>shares. Inr (est, shares)))"

definition resolve_step_wallets :: "env \<Rightarrow> run_context \<Rightarrow> string \<Rightarrow> (db, wallet \<times> wallet \<times> wallet) prog" where
  "resolve_step_wallets e c agent =
     bindE (get_wallet e (run_caller_wallet c)) (\<lambda>known.
     bindE (case known of Some w \<Rightarrow> ret w | None \<Rightarrow> get_or_create_wallet e (run_caller c) None None) (\<lambda>caller_w.
     bindE (get_or_create_wallet (uuids_from 1 e) (''agent:'' @ agent) None None) (\<lambda>agent_w.
     bindE (get_or_create_wallet (uuids_from 2 e) PLATFORM_OWNER_ID None None) (\<lambda>platform_w.
     ret (caller_w, agent_w, platform_w)))))"

definition step_request ::
  "env \<Rightarrow> run_context \<Rightarrow> agent_row \<Rightarrow> fields \<Rightarrow> wallet \<Rightarrow> wallet \<Rightarrow> wallet \<Rightarrow> int \<Rightarrow> int \<Rightarrow> string \<Rightarrow> job_request" where
  "step_request e c a payload caller_w agent_w platform_w price charged_cents tx =
     \<lparr>rq_agent_id = listed_agent_id a, rq_caller_owner_id = run_caller c, rq_caller_wallet_id = wallet_id caller_w,
      rq_agent_wallet_id = wallet_id agent_w, rq_platform_wallet_id = wallet_id platform_w, rq_price_cents = price,
      rq_charge_tx_id = tx, rq_input_payload = JObj payload, rq_caller_charge_cents = Some charged_cents,
      rq_platform_fee_pct = PLATFORM_FEE_PCT e, rq_fee_bearer_policy = ''caller'', rq_client_id = run_client c,
      rq_agent_owner_id = Some (listed_owner_id a), rq_max_attempts = 1, rq_parent_job_id = None, rq_tree_depth = 0,
      rq_parent_cascade_policy = ''detach'', rq_clarification_timeout_seconds = None, rq_clarification_timeout_policy = ''fail'',
      rq_dispute_window_hours = 1, rq_judge_agent_id = None, rq_callback_url = None, rq_callback_secret = None,
      rq_output_verification_window_seconds = Some 0, rq_batch_id = None,
      rq_origin = Some (or_text (or_empty (current_origin c)) ''pipeline''), rq_budget_cents = None\<rparr>"

definition charge_pipeline_step :: "env \<Rightarrow> run_context \<Rightarrow> agent_row \<Rightarrow> fields \<Rightarrow> (db, step_state) prog" where
  "charge_pipeline_step e c a payload =
     bindE (of_result (agent_price_and_distribution e c a payload)) (\<lambda>(est, shares).
     bindE (resolve_step_wallets e c (listed_agent_id a)) (\<lambda>(caller_w, agent_w, platform_w).
     bindE (pre_call_charge (uuids_from 3 e) (wallet_id caller_w) (dist_caller_charge_cents shares) (listed_agent_id a) None None) (\<lambda>tx.
     bindE (create_job (uuids_from 6 e) (claim_deadline_setting c)
              (step_request e c a payload caller_w agent_w platform_w (est_price_cents est) (dist_caller_charge_cents shares) tx)) (\<lambda>j.
     ret \<lparr>st_price = est_price_cents est, st_estimate = est, st_distribution = shares, st_caller_wallet = caller_w,
          st_agent_wallet = agent_w, st_platform_wallet = platform_w, st_charge_tx = tx, st_job = j\<rparr>))))"

section \<open>Settlement\<close>

definition step_job :: "step_state \<Rightarrow> (db, string) prog" where
  "step_job st = (case st_job st of None \<Rightarrow> throw TypeError | Some j \<Rightarrow> ret (job_id j))"

definition refund_pricing_diff_for_step ::
  "step_world \<Rightarrow> run_context \<Rightarrow> agent_row \<Rightarrow> fields \<Rightarrow> fields \<Rightarrow> step_state \<Rightarrow> (db, int) prog" where
  "refund_pricing_diff_for_step w c a payload out st =
     maybe_refund_pricing_diff (uuids_from 4 (settle_env w)) (pricing_overlay c) a (Some payload) (Some (JObj out))
       (wallet_id (st_caller_wallet st)) (wallet_id (st_agent_wallet st)) (wallet_id (st_platform_wallet st))
       (st_charge_tx st) (st_estimate st) (dist_caller_charge_cents (st_distribution st)) (st_distribution st)
       (Some (PLATFORM_FEE_PCT (settle_env w))) (Some ''caller'')"

definition settle_step_success :: "step_world \<Rightarrow> run_context \<Rightarrow> agent_row \<Rightarrow> fields \<Rightarrow> fields \<Rightarrow> step_state \<Rightarrow> (db, unit) prog" where
  "settle_step_success w c a payload out st =
     (let e = settle_env w; agent = listed_agent_id a in
      bindE (step_job st) (\<lambda>job.
      bindE (update_job_status e job ''complete'' (Some (JObj out)) None True (sign_output w a out)) (\<lambda>_.
      bindE (post_call_payout e (wallet_id (st_agent_wallet st)) (wallet_id (st_platform_wallet st)) (st_charge_tx st)
               (st_price st) agent (Some (PLATFORM_FEE_PCT e)) (Some ''caller'') None None None) (\<lambda>_.
      bindE (mark_settled e job) (\<lambda>_.
      bindE (update_call_stats e agent (latency_ms w) True (Some (st_price st))) (\<lambda>_.
      bindE (refund_pricing_diff_for_step w c a payload out st) (\<lambda>_.
      ret ())))))))"

definition settle_step_failure :: "step_world \<Rightarrow> agent_row \<Rightarrow> step_state \<Rightarrow> (db, unit) prog" where
  "settle_step_failure w a st =
     (let e = settle_env w; agent = listed_agent_id a in
      bindE (step_job st) (\<lambda>job.
      bindE (update_job_status e job ''failed'' None (Some ''Pipeline step failed.'') True no_signature) (\<lambda>_.
      bindE (post_call_refund (uuids_from 7 e) (wallet_id (st_caller_wallet st)) (st_charge_tx st)
               (dist_caller_charge_cents (st_distribution st)) agent) (\<lambda>_.
      bindE (mark_settled e job) (\<lambda>_.
      update_call_stats e agent (latency_ms w) False (Some (st_price st)))))))"

definition settle_step :: "step_world \<Rightarrow> run_context \<Rightarrow> agent_row \<Rightarrow> fields \<Rightarrow> step_state \<Rightarrow> (db, fields \<times> int) prog" where
  "settle_step w c a payload st =
     catchE
       (bindE (fetch_agent_output w a payload) (\<lambda>out.
        bindE (settle_step_success w c a payload out st) (\<lambda>_.
        ret (out, dist_caller_charge_cents (st_distribution st)))))
       (\<lambda>ex. bindE (settle_step_failure w a st) (\<lambda>_. throw ex))"

fun has_artifact_ref :: "json \<Rightarrow> bool" and any_artifact_ref :: "fields \<Rightarrow> bool" and item_artifact_ref :: "json list \<Rightarrow> bool" where
  "has_artifact_ref (JObj kvs) = any_artifact_ref kvs"
| "has_artifact_ref (JArr xs) = item_artifact_ref xs"
| "has_artifact_ref v = False"
| "any_artifact_ref [] = False"
| "any_artifact_ref ((k, v) # kvs) = (k = ''_artifact_ref'' \<or> has_artifact_ref v \<or> any_artifact_ref kvs)"
| "item_artifact_ref [] = False"
| "item_artifact_ref (v # vs) = (has_artifact_ref v \<or> item_artifact_ref vs)"

definition resolve_workspace_envelope :: "step_world \<Rightarrow> string option \<Rightarrow> fields \<Rightarrow> exn + fields" where
  "resolve_workspace_envelope w workspace payload =
     (let cleaned = AList.delete ''_workspace_id'' payload
      in if or_empty workspace = [] \<and> \<not> any_artifact_ref cleaned then Inr cleaned else resolve_artifact_refs w cleaned)"

definition invoke_agent :: "step_world \<Rightarrow> run_context \<Rightarrow> string option \<Rightarrow> agent_row \<Rightarrow> fields \<Rightarrow> (db, fields \<times> int) prog" where
  "invoke_agent w c workspace a payload =
     bindE (of_result (resolve_workspace_envelope w workspace payload)) (\<lambda>cleaned.
     bindE (charge_pipeline_step (charge_env w) c a cleaned) (\<lambda>st.
     settle_step w c a cleaned st))"

section \<open>Runs\<close>

fun drive_pipeline_nodes ::
  "(nat \<Rightarrow> step_world) \<Rightarrow> run_context \<Rightarrow> string \<Rightarrow> string option \<Rightarrow> fields \<Rightarrow> nat \<Rightarrow> pipeline_node list \<Rightarrow>
   (string \<times> fields) list \<Rightarrow> (db, (string \<times> fields) list) prog" where
  "drive_pipeline_nodes ws c run workspace input i [] results = ret results"
| "drive_pipeline_nodes ws c run workspace input i (n # nodes) results =
     bindE (of_result (resolve_input_map (node_input_map n) input (map (\<lambda>(k, r). (k, JObj r)) results))) (\<lambda>payload.
     bindE (read_agent (charge_env (ws i)) (node_agent_id n)) (\<lambda>row.
     case row of
       None \<Rightarrow> throw (ValueError ''Pipeline node agent was not found.'')
     | Some a \<Rightarrow>
         bindE (invoke_agent (ws i) c workspace a payload) (\<lambda>(out, charged).
         bindE (update_run_step (settle_env (ws i)) run (node_id n) (JObj out) charged) (\<lambda>_.
         drive_pipeline_nodes ws c run workspace input (Suc i) nodes (AList.update (node_id n) out results)))))"

definition build_final_output :: "(string \<times> fields) list \<Rightarrow> string list \<Rightarrow> json" where
  "build_final_output results terminals =
     (let out_of = (\<lambda>t. case map_of results t of None \<Rightarrow> JNull | Some r \<Rightarrow> JObj r)
      in case terminals of [t] \<Rightarrow> out_of t | _ \<Rightarrow> JObj (map (\<lambda>t. (t, out_of t)) terminals))"

definition run_steps ::
  "env \<Rightarrow> (nat \<Rightarrow> step_world) \<Rightarrow> run_context \<Rightarrow> pipeline_plan \<Rightarrow> string \<Rightarrow> string option \<Rightarrow> fields \<Rightarrow> (db, unit) prog" where
  "run_steps e ws c plan run workspace input =
     bindE (drive_pipeline_nodes ws c run workspace input 0 (ordered_nodes plan) []) (\<lambda>results.
     bindE (raise_if (pipeline_contradiction results) (ValueError contradiction_text)) (\<lambda>_.
     bindE (complete_run e run (build_final_output results (terminal_nodes plan))) (\<lambda>_. ret ())))"

definition execute_run ::
  "(json \<Rightarrow> string) \<Rightarrow> env \<Rightarrow> (nat \<Rightarrow> step_world) \<Rightarrow> run_context \<Rightarrow> pipeline \<Rightarrow> string \<Rightarrow> string option \<Rightarrow> fields \<Rightarrow> (db, unit) prog" where
  "execute_run str_of e ws c p run workspace input =
     bindE (of_result (validate_definition str_of (pipeline_definition p))) (\<lambda>plan.
     catchE (run_steps e ws c plan run workspace input)
       (\<lambda>ex. bindE (fail_run e run (describe_error c ex)) (\<lambda>_. ret ())))"

text \<open>
  \<open>run_pipeline\<close> answers what it starts its thread with. \<open>owner_of\<close> looks up a workspace of the caller,
  \<open>fresh\<close> is the workspace that the platform creates; either may fail.
\<close>

record started_run =
  started_run_id :: string
  started_pipeline :: pipeline
  started_workspace :: "string option"

definition bind_workspace ::
  "env \<Rightarrow> run_context \<Rightarrow> (string \<Rightarrow> string option) \<Rightarrow> string option \<Rightarrow> string option \<Rightarrow> json \<Rightarrow> string \<Rightarrow> (db, string option) prog" where
  "bind_workspace e c owner_of fresh requested document run =
     (case none_if_empty (or_empty requested) of
        Some ws \<Rightarrow>
          (case owner_of ws of
             None \<Rightarrow> throw (ValueError ''Workspace not found.'')
           | Some owner \<Rightarrow>
               if owner \<noteq> run_caller c then throw (ValueError ''Caller does not own the supplied workspace_id.'')
               else bindE (catchE (set_run_workspace e run ws) (\<lambda>_. ret ())) (\<lambda>_. ret (Some ws)))
      | None \<Rightarrow>
          (case (document, fresh) of
             (JObj kvs, Some ws) \<Rightarrow>
               if get_truthy kvs ''auto_workspace'' = None then ret None
               else catchE (bindE (set_run_workspace e run ws) (\<lambda>_. ret (Some ws))) (\<lambda>_. ret None)
           | _ \<Rightarrow> ret None))"

definition run_pipeline ::
  "(json \<Rightarrow> string) \<Rightarrow> env \<Rightarrow> run_context \<Rightarrow> (string \<Rightarrow> string option) \<Rightarrow> string option \<Rightarrow> string option \<Rightarrow> string \<Rightarrow> fields \<Rightarrow>
   (db, started_run) prog" where
  "run_pipeline str_of e c owner_of fresh requested pid input =
     bindE (get_pipeline e pid) (\<lambda>row.
     case row of
       None \<Rightarrow> throw (ValueError ''Pipeline not found.'')
     | Some p \<Rightarrow>
         bindE (of_result (validate_definition str_of (pipeline_definition p))) (\<lambda>_.
         bindE (create_run e pid (run_caller c) (JObj input)) (\<lambda>created.
         bindE (bind_workspace e c owner_of fresh requested (pipeline_definition p) (pipeline_run_id created)) (\<lambda>workspace.
         ret \<lparr>started_run_id = pipeline_run_id created, started_pipeline = p, started_workspace = workspace\<rparr>))))"

end
