(* ===== verification/Run_Outcomes.thy ===== *)
theory Run_Outcomes
  imports Pipeline_Runs
begin

text \<open>
  What the execution of a pipeline guarantees: the row of a run is written by its thread alone and ends failed or
  complete, and the charge of a step is settled exactly once, as a payout or as a refund.
\<close>

section \<open>The table of runs\<close>

lemma keeps_cases:
  "(\<And>y. x = Inl y \<Longrightarrow> keeps P (f y)) \<Longrightarrow> (\<And>z. x = Inr z \<Longrightarrow> keeps P (g z)) \<Longrightarrow> keeps P (case x of Inl y \<Rightarrow> f y | Inr z \<Rightarrow> g z)"
  "(\<And>a b. q = (a, b) \<Longrightarrow> keeps P (h a b)) \<Longrightarrow> keeps P (case q of (a, b) \<Rightarrow> h a b)"
  by (simp_all split: sum.split prod.split)

context untouched_table begin

lemma keeps_price_diff: "keeps (\<lambda>d. Q (rows d)) (post_call_refund_difference e cw c r agent aw pw a p m)"
  unfolding post_call_refund_difference_def refund_legs_def Let_def
  by (auto intro!: keeps_transaction keeps_ensures keeps_case_option keeps_bindE keeps_ret keeps_throw keeps_select
      keeps_if keeps_catch_when keeps_whenE keeps_insert_tx)

lemma keeps_usage_refund:
  "keeps (\<lambda>d. Q (rows d)) (maybe_refund_pricing_diff e overlay a payload out cw aw pw tx est charged_cents billed pct bearer)"
proof -
  note rules = keeps_ret keeps_throw keeps_if keeps_case_option keeps_cases keeps_catchE keeps_bindE keeps_price_diff
  show ?thesis
  proof (cases "\<exists>kv kvs. out = Some (JObj (kv # kvs))")
    case True
    then obtain kv kvs where out: "out = Some (JObj (kv # kvs))" by blast
    show ?thesis
      unfolding maybe_refund_pricing_diff_def out Let_def
      by (cases "resolve_agent_pricing overlay a"; cases "snd (resolve_agent_pricing overlay a)")
        (simp_all only: prod.case option.case json.case list.case snd_conv, (intro rules)+)
  next
    case False
    then show ?thesis
      by (auto simp: maybe_refund_pricing_diff_def keeps_ret split: option.split json.split list.split prod.split)
  qed
qed

end

interpretation run_table: untouched_table pipeline_runs
  by unfold_locales simp_all

lemma keeps_runs_of_result: "keeps P (of_result r)"
  by (cases r) (simp_all add: of_result_def keeps_ret keeps_throw)

lemma keeps_runs_wallets:
  "keeps (\<lambda>d. Q (pipeline_runs d)) (get_wallet e wid)"
  "keeps (\<lambda>d. Q (pipeline_runs d)) (get_or_create_wallet e owner parent label)"
  "keeps (\<lambda>d. Q (pipeline_runs d)) (read_agent e a)"
  "keeps (\<lambda>d. Q (pipeline_runs d)) (get_job e j)"
  unfolding get_wallet_def get_or_create_wallet_def read_agent_def get_job_def dict_row_def
  by (auto intro!: run_table.keeps_transaction keeps_ensures keeps_case_option keeps_catch_when run_table.keeps_insert keeps_bindE
      keeps_ret keeps_throw keeps_select)

lemma keeps_runs_charge: "keeps (\<lambda>d. Q (pipeline_runs d)) (pre_call_charge e wid price agent key m)"
  unfolding pre_call_charge_def owner_backstop_def check_key_spend_cap_def check_daily_limit_def check_session_budget_def
    guarded_debit_def insert_tx_only_def resolve_charged_by_key_id_def Let_def
  by (auto split: sum.split prod.split intro!: run_table.keeps_transaction keeps_ensures keeps_case_option keeps_bindE keeps_ret
      keeps_throw keeps_select keeps_if keeps_whenE keeps_raise_if run_table.keeps_insert_tx run_table.keeps_update run_table.keeps_insert
      split: option.split)

lemma keeps_runs_jobs:
  "keeps (\<lambda>d. Q (pipeline_runs d)) (create_job e deadline r)"
  "keeps (\<lambda>d. Q (pipeline_runs d)) (update_job_status e j status out err completed g)"
  "keeps (\<lambda>d. Q (pipeline_runs d)) (mark_settled e j)"
  "keeps (\<lambda>d. Q (pipeline_runs d)) (update_call_stats e a l s p)"
  unfolding create_job_def update_job_status_def mark_settled_def update_call_stats_def Let_def
  by (auto split: sum.split option.split intro!: run_table.keeps_transaction keeps_ensures keeps_bindE keeps_ret keeps_throw keeps_select
      keeps_if run_table.keeps_update run_table.keeps_insert keeps_runs_wallets)

text \<open>What a step leaves: the run's row, when others leave it.\<close>

definition run_undisturbed :: "string \<Rightarrow> step_world \<Rightarrow> bool" where
  "run_undisturbed run w \<longleftrightarrow> (\<forall>d. find_run run (meanwhile w d) = find_run run d)"

lemma find_run_eq: "find_run run d = find (\<lambda>r. pipeline_run_id r = run) (pipeline_runs d)"
  by (simp add: find_run_def)

lemma keeps_run_invoke:
  assumes "run_undisturbed run w"
  shows "keeps (\<lambda>d. find_run run d = X) (invoke_agent w c workspace a payload)"
proof -
  let ?Q = "\<lambda>rs. find (\<lambda>r. pipeline_run_id r = run) rs = X"
  have others: "keeps (\<lambda>d. ?Q (pipeline_runs d)) (\<lambda>d. (Inr (), meanwhile w d))"
    using assms by (simp add: keeps_def run_undisturbed_def find_run_def)
  show ?thesis
    unfolding find_run_eq invoke_agent_def charge_pipeline_step_def resolve_step_wallets_def settle_step_def settle_step_success_def
      refund_pricing_diff_for_step_def settle_step_failure_def step_job_def fetch_agent_output_def Let_def
    by (auto split: option.split prod.split intro!: keeps_bindE keeps_catchE keeps_ret keeps_throw keeps_runs_of_result others
        keeps_runs_wallets keeps_runs_charge keeps_runs_jobs run_table.keeps_usage_refund run_table.keeps_payout run_table.keeps_refund)
qed

definition recorded :: "string \<Rightarrow> (string \<times> fields) list \<Rightarrow> db \<Rightarrow> bool" where
  "recorded run results d \<longleftrightarrow>
     (\<exists>r. find_run run d = Some r \<and> step_results r = JObj (map (\<lambda>(k, v). (k, JObj v)) results))"

lemma update_map_objects:
  "AList.update k (JObj v) (map (\<lambda>(k, v). (k, JObj v)) xs) = map (\<lambda>(k, v). (k, JObj v)) (AList.update k v xs)"
  by (induction xs) auto

lemma update_absent: "k \<notin> set (map fst xs) \<Longrightarrow> AList.update k v xs = xs @ [(k, v)]"
  by (induction xs) auto

lemma find_run_id: "find_run run d = Some r \<Longrightarrow> pipeline_run_id r = run"
  using find_SomeD [of "\<lambda>r. pipeline_run_id r = run" "pipeline_runs d" r] by (simp add: find_run_def)

lemma wp_update_runs:
  assumes "find_run run d = Some r" and "\<And>r. pipeline_run_id (f r) = pipeline_run_id r" and "\<not> pg_failed e d"
    and "\<And>d' n. find_run run d' = Some (f r) \<Longrightarrow> tx_failed d' = tx_failed d \<Longrightarrow> Q n d'"
  shows "wp (update_runs e run f) Q E d"
  using assms find_run_id [OF assms(1)]
  by (simp add: update_runs_def wp_update_stmt find_run_def find_update_key)

lemma wp_get_run: "wp (get_run e run) Q E d = Q (find_run (py_strip run) d) (d\<lparr>tx_failed := False\<rparr>)"
  by (simp add: get_run_def wp_simps pg_failed_def find_run_def)

lemma find_run_flag [simp]: "find_run run (d\<lparr>tx_failed := b\<rparr>) = find_run run d"
  by (simp add: find_run_def)

lemma wp_update_run_step:
  assumes "recorded run results d" and "py_strip run = run" and "py_strip n = n"
  shows "wp (update_run_step e run n (JObj out) k) (\<lambda>_ d'. recorded run (AList.update n out results) d') (\<lambda>_ _. False) d"
proof -
  obtain r where r: "find_run run d = Some r" "step_results r = JObj (map (\<lambda>(k, v). (k, JObj v)) results)"
    using assms(1) by (auto simp: recorded_def)
  let ?f = "\<lambda>r. r\<lparr>step_results := JObj (AList.update n (JObj out) (map (\<lambda>(k, v). (k, JObj v)) results)),
              total_charged_cents := total_charged_cents r + max 0 k\<rparr>"
  have "wp (update_runs e run ?f) (\<lambda>_ d'. find_run run d' = Some (?f r) \<and> \<not> tx_failed d') (\<lambda>_ _. False) (d\<lparr>tx_failed := False\<rparr>)"
    by (rule wp_update_runs [of run _ r]) (simp_all add: r pg_failed_def)
  then show ?thesis
    unfolding update_run_step_def
    by (auto simp: wp_transact wp_bindE wp_select pg_failed_def assms r wp_ret wp_get_run recorded_def update_map_objects
        elim!: wp_post_mono)
qed

lemma wp_complete_run:
  assumes "find_run run d = Some r" and "py_strip run = run"
  shows "wp (complete_run e run v) (\<lambda>_ d'. \<exists>r'. find_run run d' = Some r' \<and> run_status r' = ''complete'' \<and>
      run_output r' = Some v \<and> step_results r' = step_results r \<and> run_completed_at r' \<noteq> None) (\<lambda>_ _. False) d"
proof -
  let ?f = "\<lambda>r. r\<lparr>run_status := ''complete'', run_output := Some v, run_error_message := None, run_updated_at := now e,
        run_completed_at := (case run_completed_at r of None \<Rightarrow> Some (now e) | t \<Rightarrow> t)\<rparr>"
  have "wp (update_runs e run ?f) (\<lambda>_ d'. find_run run d' = Some (?f r) \<and> \<not> tx_failed d') (\<lambda>_ _. False) (d\<lparr>tx_failed := False\<rparr>)"
    by (rule wp_update_runs [of run _ r]) (simp_all add: assms pg_failed_def)
  then show ?thesis
    unfolding complete_run_def wp_bindE wp_transact assms(2)
    by (rule wp_post_mono) (auto simp: wp_get_run split: option.split)
qed

lemma wp_fail_run:
  assumes "find_run run d \<noteq> None" and "py_strip run = run"
  shows "wp (fail_run e run msg) (\<lambda>_ d'. \<exists>r'. find_run run d' = Some r' \<and> run_status r' = ''failed'' \<and>
      run_error_message r' \<noteq> None \<and> run_completed_at r' \<noteq> None) (\<lambda>_ _. False) d"
proof -
  obtain r where r: "find_run run d = Some r" using assms(1) by auto
  let ?f = "\<lambda>r. r\<lparr>run_status := ''failed'', run_error_message := Some (or_text (py_strip msg) ''Pipeline execution failed.''),
        run_updated_at := now e, run_completed_at := (case run_completed_at r of None \<Rightarrow> Some (now e) | t \<Rightarrow> t)\<rparr>"
  have "wp (update_runs e run ?f) (\<lambda>_ d'. find_run run d' = Some (?f r) \<and> \<not> tx_failed d') (\<lambda>_ _. False) (d\<lparr>tx_failed := False\<rparr>)"
    by (rule wp_update_runs [of run _ r]) (simp_all add: r pg_failed_def)
  then show ?thesis
    unfolding fail_run_def wp_bindE wp_transact assms(2)
    by (rule wp_post_mono) (auto simp: wp_get_run split: option.split)
qed

lemma wp_read_agent: "wp (read_agent e a) Q E d = Q (find_agent a d) (d\<lparr>tx_failed := False\<rparr>)"
  by (simp add: read_agent_def wp_simps pg_failed_def find_agent_def)

lemma recorded_flag [simp]: "recorded run results (d\<lparr>tx_failed := b\<rparr>) = recorded run results d"
  by (simp add: recorded_def)

lemma wp_of_result: "wp (of_result r) Q E d = (case r of Inl ex \<Rightarrow> E ex d | Inr x \<Rightarrow> Q x d)"
  by (simp add: of_result_def wp_simps split: sum.split)

lemma wp_drive:
  assumes "\<And>i. run_undisturbed run (ws i)" and "py_strip run = run"
  shows "recorded run results d \<Longrightarrow> distinct (map fst results @ map node_id nodes) \<Longrightarrow> \<forall>n\<in>set nodes. py_strip (node_id n) = node_id n \<Longrightarrow>
    wp (drive_pipeline_nodes ws c run workspace input i nodes results)
      (\<lambda>res d'. recorded run res d' \<and> map fst res = map fst results @ map node_id nodes) (\<lambda>_ d'. find_run run d' \<noteq> None) d"
proof (induction nodes arbitrary: i results d)
  case Nil
  then show ?case by (simp add: wp_ret)
next
  case (Cons n nodes)
  have fresh: "AList.update (node_id n) out results = results @ [(node_id n, out)]" for out
    using Cons.prems(2) by (intro update_absent) simp
  have present: "find_run run d \<noteq> None" using Cons.prems(1) by (auto simp: recorded_def)
  have step: "wp (invoke_agent (ws i) c workspace a payload)
      (\<lambda>x d1. wp (case x of (out, charged) \<Rightarrow> bindE (update_run_step (settle_env (ws i)) run (node_id n) (JObj out) charged) (\<lambda>_.
         drive_pipeline_nodes ws c run workspace input (Suc i) nodes (AList.update (node_id n) out results)))
         (\<lambda>res d'. recorded run res d' \<and> map fst res = map fst results @ map node_id (n # nodes)) (\<lambda>_ d'. find_run run d' \<noteq> None) d1)
      (\<lambda>_ d'. find_run run d' \<noteq> None) d0" if d0: "find_run run d0 = find_run run d" for a payload d0
  proof (rule wp_post_mono [OF keeps_wp [OF keeps_run_invoke [OF assms(1), where X = "find_run run d"] d0]])
    fix x :: "fields \<times> int" and d1 assume d1: "find_run run d1 = find_run run d"
    obtain out charged where x: "x = (out, charged)" by (cases x)
    have rec: "recorded run results d1" using Cons.prems(1) d1 by (simp add: recorded_def)
    have "wp (update_run_step (settle_env (ws i)) run (node_id n) (JObj out) charged)
       (\<lambda>_ d'. recorded run (AList.update (node_id n) out results) d') (\<lambda>_ _. False) d1"
      using rec assms(2) Cons.prems(3) by (intro wp_update_run_step) simp_all
    then show "wp (case x of (out, charged) \<Rightarrow> bindE (update_run_step (settle_env (ws i)) run (node_id n) (JObj out) charged) (\<lambda>_.
         drive_pipeline_nodes ws c run workspace input (Suc i) nodes (AList.update (node_id n) out results)))
         (\<lambda>res d'. recorded run res d' \<and> map fst res = map fst results @ map node_id (n # nodes)) (\<lambda>_ d'. find_run run d' \<noteq> None) d1"
      unfolding x prod.case wp_bindE
    proof (rule wp_post_mono)
      fix y d2 assume "recorded run (AList.update (node_id n) out results) d2"
      then show "wp (drive_pipeline_nodes ws c run workspace input (Suc i) nodes (AList.update (node_id n) out results))
         (\<lambda>res d'. recorded run res d' \<and> map fst res = map fst results @ map node_id (n # nodes)) (\<lambda>_ d'. find_run run d' \<noteq> None) d2"
        using Cons.IH [of "AList.update (node_id n) out results" d2 "Suc i"] Cons.prems(2,3) by (simp add: fresh)
    qed simp
  qed (use present in simp)
  show ?case
    unfolding drive_pipeline_nodes.simps wp_bindE [of "of_result _"] wp_of_result wp_bindE [of "read_agent _ _"] wp_read_agent
    using step present by (auto simp: wp_bindE wp_throw split: sum.split option.split)
qed

lemma normalize_nodes_stripped: "normalize_nodes str_of raws ids = Inr nodes \<Longrightarrow> \<forall>n\<in>set nodes. py_strip (node_id n) = node_id n"
proof (induction raws arbitrary: ids nodes)
  case (Cons raw raws)
  then obtain n ns where n: "normalize_pipeline_node str_of raw ids = Inr n" "normalize_nodes str_of raws (node_id n # ids) = Inr ns"
    "nodes = n # ns" by (auto simp: try_bind_Inr)
  have "py_strip (node_id n) = node_id n"
    using n(1) by (auto simp: normalize_pipeline_node_def Let_def try_bind_Inr split: json.splits if_splits)
  with Cons.IH [OF n(2)] n(3) show ?case by simp
qed simp

lemma validated_order:
  assumes "validate_definition str_of document = Inr plan"
  shows "distinct (map node_id (ordered_nodes plan)) \<and> (\<forall>n\<in>set (ordered_nodes plan). py_strip (node_id n) = node_id n)"
proof -
  obtain nodes ordered where n: "pipeline_nodes str_of document = Inr nodes" "topological_sort nodes = Inr ordered" "ordered_nodes plan = ordered"
    using assms by (auto simp: validate_definition_def try_bind_Inr)
  obtain r rs where "normalize_nodes str_of (r # rs) [] = Inr nodes"
    using n(1) by (auto simp: pipeline_nodes_def try_bind_Inr split: option.splits json.splits list.splits)
  then have strip: "\<forall>n\<in>set nodes. py_strip (node_id n) = node_id n" by (rule normalize_nodes_stripped)
  have "mset ordered = mset nodes" "distinct (map node_id nodes)"
    using topological_sort_correct [of nodes] pipeline_nodes_ok [OF n(1)] n(2) by simp_all
  then show ?thesis using n(3) strip by (metis mset_eq_imp_distinct_iff mset_eq_setD mset_map)
qed

text \<open>How a run can end.\<close>

definition run_ended :: "pipeline_plan \<Rightarrow> pipeline_run \<Rightarrow> bool" where
  "run_ended plan r \<longleftrightarrow> run_completed_at r \<noteq> None \<and>
     (run_status r = ''failed'' \<and> run_error_message r \<noteq> None \<or>
      run_status r = ''complete'' \<and>
        (\<exists>results. map fst results = map node_id (ordered_nodes plan) \<and> \<not> pipeline_contradiction results \<and>
           step_results r = JObj (map (\<lambda>(k, v). (k, JObj v)) results) \<and>
           run_output r = Some (build_final_output results (terminal_nodes plan))))"

lemma wp_execute_run:
  assumes plan: "validate_definition str_of (pipeline_definition p) = Inr plan"
    and ws: "\<And>i. run_undisturbed run (ws i)" and run: "py_strip run = run"
    and row: "recorded run [] d"
  shows "wp (execute_run str_of e ws c p run workspace input)
    (\<lambda>_ d'. \<exists>r. find_run run d' = Some r \<and> run_ended plan r) (\<lambda>_ _. False) d"
proof -
  let ?R = "\<lambda>d'. \<exists>r. find_run run d' = Some r \<and> run_ended plan r"
  have done_run: "wp (complete_run e run (build_final_output results (terminal_nodes plan))) (\<lambda>_. ?R) (\<lambda>_ _. False) d'"
    if rec: "recorded run results d'" and "map fst results = map node_id (ordered_nodes plan)" and "\<not> pipeline_contradiction results" for results d'
  proof -
    obtain r where r: "find_run run d' = Some r" "step_results r = JObj (map (\<lambda>(k, v). (k, JObj v)) results)"
      using rec by (auto simp: recorded_def)
    show ?thesis
      by (rule wp_post_mono [OF wp_complete_run [OF r(1) run]]) (use r that in \<open>auto simp: run_ended_def\<close>)
  qed
  have steps: "wp (run_steps e ws c plan run workspace input) (\<lambda>_. ?R) (\<lambda>_ d'. find_run run d' \<noteq> None) d"
    unfolding run_steps_def wp_bindE [of "drive_pipeline_nodes _ _ _ _ _ _ _ _"]
  proof (rule wp_post_mono [OF wp_drive [OF ws run row]])
    fix results d'
    assume res: "recorded run results d' \<and> map fst results = map fst [] @ map node_id (ordered_nodes plan)"
    then have "find_run run d' \<noteq> None" by (auto simp: recorded_def)
    then show "wp (bindE (raise_if (pipeline_contradiction results) (ValueError contradiction_text)) (\<lambda>_.
        bindE (complete_run e run (build_final_output results (terminal_nodes plan))) (\<lambda>_. ret ())))
        (\<lambda>_. ?R) (\<lambda>_ d'. find_run run d' \<noteq> None) d'"
      using res done_run [of results d'] by (auto simp: wp_bindE wp_raise_if wp_ret elim!: wp_post_mono)
  qed (use validated_order [OF plan] in simp_all)
  have failed: "wp (bindE (fail_run e run msg) (\<lambda>_. ret ())) (\<lambda>_. ?R) (\<lambda>_ _. False) d'" if "find_run run d' \<noteq> None" for msg d'
    unfolding wp_bindE wp_ret by (rule wp_post_mono [OF wp_fail_run [OF that run]]) (auto simp: run_ended_def)
  show ?thesis
    unfolding execute_run_def wp_bindE [of "of_result _"] wp_of_result plan sum.case wp_catchE
    by (rule wp_post_mono [OF steps]) (simp_all only: failed not_False_eq_True simp_thms)
qed

lemma wp_create_run:
  assumes "find_run (uuid e 0) d = None" and "py_strip (uuid e 0) = uuid e 0" and "find_pipeline (py_strip pid) d \<noteq> None"
  shows "wp (create_run e pid caller input) (\<lambda>r d'. pipeline_run_id r = uuid e 0 \<and> run_status r = ''running'' \<and>
      find_run (uuid e 0) d' = Some r \<and> recorded (uuid e 0) [] d') (\<lambda>_ _. False) d"
  using assms by (auto simp: create_run_def wp_simps pg_failed_def find_run_def find_pipeline_def recorded_def wp_get_run
      find_append split: option.splits)

lemma wp_set_run_workspace:
  assumes rec: "recorded run [] d" and run: "py_strip run = run"
  shows "wp (set_run_workspace e run w) (\<lambda>_ d'. recorded run [] d') (\<lambda>_ _. False) d"
proof -
  obtain r where r: "find_run run d = Some r" "step_results r = JObj []" using rec by (auto simp: recorded_def)
  have "wp (update_runs e run (\<lambda>r. r\<lparr>run_workspace_id := Some (py_strip w)\<rparr>))
     (\<lambda>_ d'. find_run run d' = Some (r\<lparr>run_workspace_id := Some (py_strip w)\<rparr>) \<and> \<not> tx_failed d') (\<lambda>_ _. False) (d\<lparr>tx_failed := False\<rparr>)"
    by (rule wp_update_runs [of _ _ r]) (simp_all add: r pg_failed_def)
  then show ?thesis
    unfolding set_run_workspace_def wp_bindE wp_transact run
    by (rule wp_post_mono) (auto simp: wp_ret recorded_def r)
qed

text \<open>A run that a refused workspace strands: created, running, and without a thread.\<close>

definition stranded :: "(string \<Rightarrow> string option) \<Rightarrow> string \<Rightarrow> string option \<Rightarrow> string \<Rightarrow> db \<Rightarrow> bool" where
  "stranded owner_of caller requested run d \<longleftrightarrow> (\<exists>w. requested = Some w \<and> owner_of w \<noteq> Some caller) \<and>
     (\<exists>r. find_run run d = Some r \<and> run_status r = ''running'')"

lemma wp_bind_workspace:
  assumes rec: "recorded run [] d" and run: "py_strip run = run" and r: "find_run run d = Some r" "run_status r = ''running''"
  shows "wp (bind_workspace e c owner_of fresh requested document run) (\<lambda>_ d'. recorded run [] d')
    (\<lambda>_ d'. stranded owner_of (run_caller c) requested run d') d"
proof -
  have bound: "wp (bindE (catchE (set_run_workspace e run w) (\<lambda>_. ret ())) (\<lambda>_. ret x)) (\<lambda>_ d'. recorded run [] d') E d"
    "wp (catchE (bindE (set_run_workspace e run w) (\<lambda>_. ret x)) (\<lambda>_. ret None)) (\<lambda>_ d'. recorded run [] d') E d"
    for w E and x :: "string option"
    unfolding wp_bindE wp_catchE wp_ret by (rule wp_post_mono [OF wp_set_run_workspace [OF rec run]]; simp)+
  show ?thesis
  proof (cases "none_if_empty (or_empty requested)")
    case (Some w)
    then have w: "requested = Some w" by (auto simp: none_if_empty_def or_empty_def split: option.splits if_splits)
    show ?thesis
      unfolding bind_workspace_def Some option.case
      using r bound(1) w by (simp add: wp_throw wp_if stranded_def split: option.split)
  next
    case None
    then show ?thesis
      unfolding bind_workspace_def None option.case
      using rec bound(2) by (simp add: wp_ret wp_if split: option.split json.split)
  qed
qed

lemma wp_run_pipeline:
  assumes new: "find_run (uuid e 0) d = None" "py_strip (uuid e 0) = uuid e 0"
  shows "wp (run_pipeline str_of e c owner_of fresh requested pid input)
    (\<lambda>s d'. started_run_id s = uuid e 0 \<and> recorded (uuid e 0) [] d' \<and>
       (\<exists>plan. validate_definition str_of (pipeline_definition (started_pipeline s)) = Inr plan))
    (\<lambda>_ d'. find_run (uuid e 0) d' = None \<or> stranded owner_of (run_caller c) requested (uuid e 0) d') d"
proof (cases "find_pipeline (py_strip pid) d")
  case None
  then show ?thesis using new by (simp add: run_pipeline_def get_pipeline_def wp_simps pg_failed_def)
next
  case (Some p)
  let ?run = "uuid e 0" and ?E = "\<lambda>_ d'. find_run (uuid e 0) d' = None \<or> stranded owner_of (run_caller c) requested (uuid e 0) d'"
  let ?answer = "\<lambda>r workspace. \<lparr>started_run_id = pipeline_run_id r, started_pipeline = p, started_workspace = workspace\<rparr>"
  let ?Q = "\<lambda>s d'. started_run_id s = ?run \<and> recorded ?run [] d' \<and>
       (\<exists>plan. validate_definition str_of (pipeline_definition (started_pipeline s)) = Inr plan)"
  show ?thesis
  proof (cases "validate_definition str_of (pipeline_definition p)")
    case (Inl ex)
    then show ?thesis using Some new(1) by (simp add: run_pipeline_def get_pipeline_def wp_simps pg_failed_def wp_of_result)
  next
    case (Inr plan)
    have "wp (bindE (create_run e pid (run_caller c) (JObj input)) (\<lambda>r.
         bindE (bind_workspace e c owner_of fresh requested (pipeline_definition p) (pipeline_run_id r)) (\<lambda>workspace.
         ret (?answer r workspace)))) ?Q ?E (d\<lparr>tx_failed := False\<rparr>)"
      unfolding wp_bindE wp_ret
    proof (rule wp_post_mono [OF wp_create_run])
      fix r d1 assume r: "pipeline_run_id r = ?run \<and> run_status r = ''running'' \<and> find_run ?run d1 = Some r \<and> recorded ?run [] d1"
      then have id: "pipeline_run_id r = ?run" by simp
      show "wp (bind_workspace e c owner_of fresh requested (pipeline_definition p) (pipeline_run_id r))
         (\<lambda>workspace d'. ?Q (?answer r workspace) d') ?E d1"
        unfolding id by (rule wp_post_mono [OF wp_bind_workspace [of _ d1 r]]) (use r new Inr in simp_all)
    qed (use new Some in simp_all)
    then show ?thesis
      unfolding run_pipeline_def wp_bindE [of "get_pipeline e pid"]
      using Some Inr by (simp add: get_pipeline_def wp_transact wp_select pg_failed_def wp_bindE wp_of_result)
  qed
qed

text \<open>
  C13. Every run that is started ends. \<open>run_pipeline\<close> either answers a run, and whatever the agents of its nodes
  answer and whatever others do to the database beside the run's own row, its thread then leaves the run
  failed with a message, or complete with the output of every node recorded, in order and without a contradiction, and the
  final output built from them; or it raises, and then no run was created, unless the caller named a workspace that he does
  not own: that error comes after the run was created, which stays running for ever.
\<close>

theorem pipeline_run_ends:
  assumes "find_run (uuid e 0) d = None" and "py_strip (uuid e 0) = uuid e 0"
  shows "wp (run_pipeline str_of e c owner_of fresh requested pid input)
    (\<lambda>s d'. started_run_id s = uuid e 0 \<and>
       (\<exists>plan. validate_definition str_of (pipeline_definition (started_pipeline s)) = Inr plan \<and>
         (\<forall>e' ws. (\<forall>i. run_undisturbed (uuid e 0) (ws i)) \<longrightarrow>
            wp (execute_run str_of e' ws c (started_pipeline s) (started_run_id s) (started_workspace s) input)
              (\<lambda>_ d2. \<exists>r. find_run (uuid e 0) d2 = Some r \<and> run_ended plan r) (\<lambda>_ _. False) d')))
    (\<lambda>_ d'. find_run (uuid e 0) d' = None \<or> stranded owner_of (run_caller c) requested (uuid e 0) d') d"
  by (rule wp_post_mono [OF wp_run_pipeline [OF assms]]) (use wp_execute_run assms(2) in \<open>auto\<close>)

section \<open>The settlement of a step\<close>

text \<open>What pricing the reported units can raise: an infinite quantity, or an amount of more than 28 digits.\<close>

lemma price_errors:
  assumes "estimate_price_cents m t payload fixed = Inl ex"
  shows "ex \<in> {OverflowError, InvalidOperation}"
proof -
  have quantity: "quantity_from_payload payload x = Inl ex \<Longrightarrow> ex = OverflowError" for x
    using quantity_sound [of payload x] by simp
  have factors: "apply_multipliers b payload fs = Inl ex \<Longrightarrow> ex = InvalidOperation" for b fs
    using multipliers_priceable [where b = b and payload = payload and fs = fs] by simp
  show ?thesis
    using assms quantity factors
    by (auto simp: estimate_price_cents_def estimate_per_unit_def estimate_tiered_def quantize_units_def try_bind_def Let_def
        split: option.splits if_splits sum.splits)
qed

lemma distribution_of_price:
  "compute_success_distribution cfg p pct policy = Inr s \<Longrightarrow> 0 \<le> q \<Longrightarrow> \<exists>s'. compute_success_distribution cfg q pct policy = Inr s'"
  by (auto simp: compute_success_distribution_def compute_platform_fee_cents_def Let_def split: sum.splits if_splits option.splits)

lemma wp_usage_refund:
  assumes "compute_success_distribution (PLATFORM_FEE_PCT e) p pct (Some ''caller'') = Inr s"
  shows "wp (maybe_refund_pricing_diff e overlay a payload out cw aw pw tx est charged_cents billed pct (Some ''caller''))
    (\<lambda>_ _. True) (\<lambda>ex d'. ex \<in> {OverflowError, InvalidOperation} \<and> d' = d) d"
proof (cases "\<exists>kv kvs. out = Some (JObj (kv # kvs))")
  case False
  then show ?thesis
    by (auto simp: maybe_refund_pricing_diff_def wp_ret split: option.split json.split list.split prod.split)
next
  case True
  then obtain kv kvs where out: "out = Some (JObj (kv # kvs))" by blast
  obtain m terms where r: "resolve_agent_pricing overlay a = (m, terms)" by (cases "resolve_agent_pricing overlay a")
  have bearer: "or_text (or_empty (Some ''caller'')) ''caller'' = ''caller''" by (simp add: or_text_def or_empty_def)
  have done_refund: "wp (catchE (bindE m f) (\<lambda>_. ret 0)) (\<lambda>_ _. True) E d"
    for m :: "(db, string option) prog" and f :: "string option \<Rightarrow> (db, int) prog" and E
    unfolding wp_catchE wp_ret by (rule wp_trivial) simp_all
  show ?thesis
  proof (cases terms)
    case None
    then show ?thesis by (simp add: maybe_refund_pricing_diff_def out r wp_ret)
  next
    case (Some t)
    have actual_errors: "actual_units f fs = Inl ex \<Longrightarrow> ex = OverflowError" for f fs ex
      by (auto simp: actual_units_def Let_def split: if_splits)
    have shares: "compute_success_distribution (PLATFORM_FEE_PCT e) (est_price_cents actual) pct (Some ''caller'') \<noteq> Inl ex"
      if "estimate_price_cents m (Some t) used f = Inr actual" for actual used f ex
      using distribution_of_price [OF assms price_nonneg [OF that]] by auto
    show ?thesis
      unfolding maybe_refund_pricing_diff_def out r Some Let_def option.case prod.case json.case list.case bearer
      by (cases "actual_units (py_strip (input_field t)) (kv # kvs)")
        (auto simp: wp_if wp_ret wp_throw done_refund actual_errors shares dest: price_errors
          split: option.split sum.split prod.split)
  qed
qed

text \<open>A charged step that waits for its settlement.\<close>

definition step_open :: "env \<Rightarrow> step_state \<Rightarrow> job \<Rightarrow> db \<Rightarrow> bool" where
  "step_open e st k d \<longleftrightarrow> ledger_ok d \<and> (\<forall>i\<in>set (jobs d). job_check i) \<and> (\<forall>r\<in>set (agent_rows d). agent_check r) \<and>
     (\<exists>j. st_job st = Some j \<and> job_id j = job_id k) \<and> find_job (job_id k) d = Some k \<and> completed_at k = None \<and> settled_at k = None \<and>
     has_wallet (wallet_id (st_caller_wallet st)) d \<and> has_wallet (wallet_id (st_agent_wallet st)) d \<and>
     has_wallet (wallet_id (st_platform_wallet st)) d \<and> \<not> is_escrow_tx_id (st_charge_tx st) \<and> open_charge (st_charge_tx st) d \<and>
     compute_success_distribution (PLATFORM_FEE_PCT e) (st_price st) (Some (PLATFORM_FEE_PCT e)) (Some ''caller'') = Inr (st_distribution st) \<and>
     new_id (uuid e 1) d \<and> new_id (uuid e 2) d \<and> uuid e 1 \<noteq> uuid e 2 \<and> new_id (uuid e 7) d \<and> no_hold_for (uuid e 3) [] d"

lemma status_row_check: "job_check (status_updated_row e s out err c g i) = job_check i"
  by (simp add: status_updated_row_def job_check_def signed_row_def Let_def)

lemma wp_close_job:
  assumes "\<forall>i\<in>set (jobs d). job_check i" and "parse_status status = Some s" and "find_job job d = Some k" and "completed_at k = None"
    and "\<And>d1. find_job job d1 = Some (status_updated_row e s out err True g k) \<Longrightarrow> \<forall>i\<in>set (jobs d1). job_check i \<Longrightarrow>
       wallets d1 = wallets d \<Longrightarrow> transactions d1 = transactions d \<Longrightarrow> wallet_holds d1 = wallet_holds d \<Longrightarrow>
       agent_rows d1 = agent_rows d \<Longrightarrow> Q (Some (status_updated_row e s out err True g k)) d1"
  shows "wp (update_job_status e job status out err True g) Q E d"
proof -
  let ?p = "\<lambda>i. job_id i = job \<and> completed_at i = None" and ?f = "status_updated_row e s out err True g"
  let ?d = "d\<lparr>tx_failed := False, jobs := update_rows ?p ?f (jobs d)\<rparr>"
  have id: "job_id (?f i) = job_id i" for i by (simp add: status_updated_row_def signed_row_def Let_def)
  have k: "job_id k = job" using find_job_id [OF assms(3)] by simp
  have found: "find (\<lambda>i. job_id i = job) (update_rows ?p ?f (jobs d)) = Some (?f k)"
    using assms(3,4) k id by (simp add: find_job_def find_update_same)
  have check: "\<forall>i\<in>set (update_rows ?p ?f (jobs d)). job_check i"
    using assms(1) by (simp add: ball_update_rows status_row_check)
  have post: "Q (Some (?f k)) ?d" using found check by (intro assms(5)) (simp_all add: find_job_def)
  have flag: "d\<lparr>tx_failed := False, jobs := js, tx_failed := False\<rparr> = d\<lparr>tx_failed := False, jobs := js\<rparr>" for js by simp
  show ?thesis
    using assms(1) post found
    by (simp add: update_job_status_def assms(2) wp_transact wp_bindE wp_update_stmt pg_failed_def wp_get_job status_row_check
        find_job_def flag)
qed

lemma charge_nonneg: "compute_success_distribution cfg price pct fb = Inr s \<Longrightarrow> 0 \<le> dist_caller_charge_cents s"
  by (auto simp: compute_success_distribution_def Let_def dest!: fee_nonneg split: sum.splits if_splits)

lemma closed_columns:
  "job_state (status_updated_row e s out err True g k) = s" "output_payload (status_updated_row e s out err True g k) = out"
  "settled_at (status_updated_row e s out err True g k) = settled_at k" "job_id (status_updated_row e s out err True g k) = job_id k"
  "completed_at (status_updated_row e s out err True g k) \<noteq> None"
  by (simp_all add: status_updated_row_def signed_row_def Let_def split: option.split)

lemma uncharged_columns:
  "job_state (uncharged k) = job_state k" "output_payload (uncharged k) = output_payload k" "settled_at (uncharged k) = settled_at k"
  "job_id (uncharged k) = job_id k" "completed_at (uncharged k) = completed_at k"
  by (simp_all add: uncharged_def)

text \<open>The row that a settled step leaves behind.\<close>

definition step_row :: "env \<Rightarrow> string \<Rightarrow> job_status \<Rightarrow> json option \<Rightarrow> db \<Rightarrow> bool" where
  "step_row e job s out d \<longleftrightarrow>
     (\<exists>k. find_job job d = Some k \<and> job_state k = s \<and> output_payload k = out \<and> completed_at k \<noteq> None \<and>
        settled_at k = Some (now e))"

definition paid_step :: "step_state \<Rightarrow> db \<Rightarrow> db \<Rightarrow> bool" where
  "paid_step st d d' \<longleftrightarrow> ledger_ok d' \<and>
     (\<forall>w. balance_of w d' = balance_of w d + (if w = wallet_id (st_agent_wallet st) then dist_agent_payout_cents (st_distribution st) else 0)
        + (if w = wallet_id (st_platform_wallet st) then dist_platform_fee_cents (st_distribution st) else 0))"

definition refunded_step :: "step_state \<Rightarrow> db \<Rightarrow> db \<Rightarrow> bool" where
  "refunded_step st d d' \<longleftrightarrow> ledger_ok d' \<and>
     (\<forall>w. balance_of w d' = balance_of w d + (if w = wallet_id (st_caller_wallet st) then dist_caller_charge_cents (st_distribution st) else 0))"

lemma same_money:
  assumes "wallets d1 = wallets d" and "transactions d1 = transactions d"
  shows "ledger_ok d1 = ledger_ok d" and "balance_of w d1 = balance_of w d" and "has_wallet w d1 = has_wallet w d"
    and "open_charge x d1 = open_charge x d" and "new_id x d1 = new_id x d"
  using assms ledger_ok_tables [of d1 d]
  by (simp_all add: balance_of_def find_wallet_def has_wallet_def open_charge_def new_id_def)

lemma wp_count_call:
  assumes "\<forall>r\<in>set (agent_rows d). agent_check r"
  shows "wp (update_call_stats e a l ok p) (\<lambda>_ d'. aside d d' \<and> (\<forall>r\<in>set (agent_rows d'). agent_check r)) (\<lambda>_ _. False) d"
  using assms
  by (auto simp: update_call_stats_def wp_simps pg_failed_def ball_update_rows agent_check_def counted_row_def Let_def
      intro!: aside_tables split: option.splits)

lemma wp_refund_of_call:
  assumes ok: "ledger_ok d" and p: "0 \<le> price" and c: "\<not> is_escrow_tx_id c" and new: "new_id (uuid e 0) d" and w: "has_wallet cw d"
    and un: "unsettled c Refund cw d" "\<not> related_in c [Payout, Fee] (transactions d)"
  shows "wp (post_call_refund e cw c price agent)
     (\<lambda>_ d'. ledger_ok d' \<and> (\<forall>w. balance_of w d' = balance_of w d +
         (if w = cw \<and> \<not> related_in c [Payout, Fee] (transactions d) then price else 0))) (\<lambda>_ _. False) d"
  using assms balance_of_nonneg [OF ok, of cw]
  by (simp add: post_call_refund_def wp_simps has_related_in Let_def posting_simps)

text \<open>Stamping and counting the call after its money has moved.\<close>

definition sound_rows :: "db \<Rightarrow> bool" where
  "sound_rows d \<longleftrightarrow> (\<forall>i\<in>set (jobs d). job_check i) \<and> (\<forall>r\<in>set (agent_rows d). agent_check r)"

lemma sound_uncharged:
  assumes "map uncharged (jobs d') = map uncharged (jobs d)" and "agent_rows d' = agent_rows d" and "sound_rows d"
  shows "sound_rows d'"
proof -
  have "\<forall>i\<in>set (map uncharged (jobs d')). job_check i" using assms(3) by (simp add: assms(1) job_check_uncharged sound_rows_def)
  then show ?thesis using assms(2,3) by (simp add: job_check_uncharged sound_rows_def)
qed

lemma uncharged_row:
  assumes "map uncharged (jobs d') = map uncharged (jobs d)" and "find_job job d = Some k"
  shows "\<exists>i. find_job job d' = Some i \<and> job_id i = job \<and> job_state i = job_state k \<and> output_payload i = output_payload k \<and>
    completed_at i = completed_at k \<and> settled_at i = settled_at k"
proof -
  obtain i where "find_job job d' = Some i" "uncharged i = uncharged k" using find_uncharged [OF assms] by blast
  then show ?thesis using find_job_id uncharged_columns [of i] uncharged_columns [of k] by metis
qed

lemma wp_stamp_and_count:
  assumes rows: "map uncharged (jobs d2) = map uncharged (jobs d1)" "agent_rows d2 = agent_rows d1"
    and k: "find_job job d1 = Some k" "settled_at k = None" "completed_at k \<noteq> None" "sound_rows d1"
  shows "wp (bindE (mark_settled e job) (\<lambda>_. update_call_stats e agent l ok price))
     (\<lambda>_ d3. step_row e job (job_state k) (output_payload k) d3 \<and> (ledger_ok d2 \<longrightarrow> ledger_ok d3) \<and>
        (\<forall>w. balance_of w d3 = balance_of w d2) \<and> transactions d3 = transactions d2 \<and> sound_rows d3)
     (\<lambda>_ _. False) d2"
proof -
  obtain i where i: "find_job job d2 = Some i" "job_id i = job" and cols: "job_state i = job_state k" "output_payload i = output_payload k"
      "completed_at i \<noteq> None" "settled_at i = None" using uncharged_row [OF rows(1) k(1)] k(2,3) by auto
  have sound: "sound_rows d2" by (rule sound_uncharged [OF rows k(4)])
  then have check: "\<forall>i\<in>set (jobs d2). job_check i" by (simp add: sound_rows_def)
  show ?thesis
    unfolding wp_bindE
  proof (rule wp_post_mono [OF wp_mark_unsettled [OF check, of i i, unfolded i(2)]])
    fix n d3 assume d3: "n \<and> find_job job d3 = Some (i\<lparr>settled_at := Some (now e)\<rparr>) \<and> wallets d3 = wallets d2 \<and>
       transactions d3 = transactions d2 \<and> disputes d3 = disputes d2 \<and> agent_rows d3 = agent_rows d2 \<and> (\<forall>i\<in>set (jobs d3). job_check i)"
    have agents: "\<forall>r\<in>set (agent_rows d3). agent_check r" using d3 sound by (simp add: sound_rows_def)
    have money: "ledger_ok d3 = ledger_ok d2" "\<And>w. balance_of w d3 = balance_of w d2" using same_money [of d3 d2] d3 by simp_all
    show "wp (update_call_stats e agent l ok price)
       (\<lambda>_ d4. step_row e job (job_state k) (output_payload k) d4 \<and> (ledger_ok d2 \<longrightarrow> ledger_ok d4) \<and>
          (\<forall>w. balance_of w d4 = balance_of w d2) \<and> transactions d4 = transactions d2 \<and> sound_rows d4)
       (\<lambda>_ _. False) d3"
      by (rule wp_post_mono [OF wp_count_call [OF agents]])
        (use d3 cols money in \<open>auto simp: aside_def step_row_def find_job_def sound_rows_def\<close>)
  qed (use i cols in simp_all)
qed

text \<open>
  The stages of a success, last first: the refund of unused units, the stamp, the payout. A step that is paid, complete and stamped
  stays so when pricing the reported units raises.
\<close>

definition step_closed :: "env \<Rightarrow> step_state \<Rightarrow> string \<Rightarrow> fields \<Rightarrow> db \<Rightarrow> db \<Rightarrow> bool" where
  "step_closed e st job out d d' \<longleftrightarrow> step_row e job Complete (Some (JObj out)) d' \<and> paid_step st d d' \<and> sound_rows d' \<and>
     (0 < dist_caller_charge_cents (st_distribution st) \<longrightarrow> related_in (st_charge_tx st) [Payout, Fee] (transactions d'))"

definition step_done :: "step_world \<Rightarrow> run_context \<Rightarrow> agent_row \<Rightarrow> fields \<Rightarrow> fields \<Rightarrow> step_state \<Rightarrow> string \<Rightarrow> db \<Rightarrow> db \<Rightarrow> bool" where
  "step_done w c a payload out st job d d' \<longleftrightarrow> step_row (settle_env w) job Complete (Some (JObj out)) d' \<and>
     (\<exists>d3 r. paid_step st d d3 \<and> refund_pricing_diff_for_step w c a payload out st d3 = (Inr r, d'))"

definition step_unpriced ::
  "step_world \<Rightarrow> run_context \<Rightarrow> agent_row \<Rightarrow> fields \<Rightarrow> fields \<Rightarrow> step_state \<Rightarrow> string \<Rightarrow> db \<Rightarrow> exn \<Rightarrow> db \<Rightarrow> bool" where
  "step_unpriced w c a payload out st job d ex d' \<longleftrightarrow> ex \<in> {OverflowError, InvalidOperation} \<and>
     step_closed (settle_env w) st job out d d' \<and> refund_pricing_diff_for_step w c a payload out st d' = (Inl ex, d')"

lemma step_open_shares:
  "step_open e st k d \<Longrightarrow> compute_success_distribution (PLATFORM_FEE_PCT e) (st_price st) (Some (PLATFORM_FEE_PCT e)) (Some ''caller'') =
     Inr (st_distribution st)"
  by (simp add: step_open_def)

lemma step_row_kept:
  assumes "step_row e job s out d" and "map uncharged (jobs d') = map uncharged (jobs d)"
  shows "step_row e job s out d'"
  using assms(1) uncharged_row [OF assms(2)] unfolding step_row_def by metis

lemma wp_step_refund:
  assumes st: "step_open (settle_env w) st k d" and d3: "step_closed (settle_env w) st job out d d3"
  shows "wp (bindE (refund_pricing_diff_for_step w c a payload out st) (\<lambda>_. ret ())) (\<lambda>_. step_done w c a payload out st job d)
    (step_unpriced w c a payload out st job d) d3"
proof -
  let ?refund = "refund_pricing_diff_for_step w c a payload out st"
  have "wp ?refund (\<lambda>_ d4. map uncharged (jobs d4) = map uncharged (jobs d3)) (\<lambda>_ d4. map uncharged (jobs d4) = map uncharged (jobs d3)) d3"
    unfolding refund_pricing_diff_for_step_def by (rule keeps_wp [OF job_table.keeps_usage_refund]) simp
  moreover have "wp ?refund (\<lambda>_ _. True) (\<lambda>ex d'. ex \<in> {OverflowError, InvalidOperation} \<and> d' = d3) d3"
    unfolding refund_pricing_diff_for_step_def by (rule wp_usage_refund) (use step_open_shares [OF st] in simp)
  ultimately show ?thesis
    unfolding wp_bindE wp_ret
    by (rule wp_mono [OF wp_conj])
      (use d3 step_row_kept [of "settle_env w" job Complete "Some (JObj out)" d3] in \<open>auto simp: step_done_def step_unpriced_def step_closed_def\<close>)
qed

lemma wp_step_stamped:
  assumes st: "step_open (settle_env w) st k d"
    and k1: "find_job job d1 = Some k1" "settled_at k1 = None" "completed_at k1 \<noteq> None" "job_state k1 = Complete"
      "output_payload k1 = Some (JObj out)" "sound_rows d1"
    and d2: "paid_step st d d2" "map uncharged (jobs d2) = map uncharged (jobs d1)" "agent_rows d2 = agent_rows d1"
      "0 < dist_caller_charge_cents (st_distribution st) \<longrightarrow> related_in (st_charge_tx st) [Payout, Fee] (transactions d2)"
  shows "wp (bindE (mark_settled (settle_env w) job) (\<lambda>_. bindE (update_call_stats (settle_env w) agent l True price) (\<lambda>_.
      bindE (refund_pricing_diff_for_step w c a payload out st) (\<lambda>_. ret ())))) (\<lambda>_. step_done w c a payload out st job d)
    (step_unpriced w c a payload out st job d) d2"
proof -
  from wp_stamp_and_count [OF d2(2,3) k1(1-3,6), of "settle_env w" agent l True price]
  have "wp (bindE (mark_settled (settle_env w) job) (\<lambda>_. update_call_stats (settle_env w) agent l True price))
     (\<lambda>_ d3. step_closed (settle_env w) st job out d d3) (\<lambda>_ _. False) d2"
    by (rule wp_post_mono) (use d2 k1 in \<open>simp_all add: step_closed_def paid_step_def\<close>)
  then have "wp (bindE (bindE (mark_settled (settle_env w) job) (\<lambda>_. update_call_stats (settle_env w) agent l True price))
      (\<lambda>_. bindE (refund_pricing_diff_for_step w c a payload out st) (\<lambda>_. ret ()))) (\<lambda>_. step_done w c a payload out st job d)
      (step_unpriced w c a payload out st job d) d2"
    unfolding wp_bindE [of "bindE (mark_settled _ _) _"]
    by (rule wp_post_mono) (erule wp_step_refund [OF st], simp)
  then show ?thesis unfolding bindE_assoc .
qed

lemma caller_pays_shares:
  "compute_success_distribution cfg price pct (Some ''caller'') = Inr s \<Longrightarrow>
     dist_caller_charge_cents s = dist_agent_payout_cents s + dist_platform_fee_cents s"
  by (auto simp: compute_success_distribution_def policy_defs Let_def split: sum.splits if_splits)

lemma wp_step_payout:
  assumes st: "step_open (settle_env w) st k d" and d1: "wallets d1 = wallets d" "transactions d1 = transactions d" "wallet_holds d1 = wallet_holds d"
  shows "wp (post_call_payout (settle_env w) (wallet_id (st_agent_wallet st)) (wallet_id (st_platform_wallet st)) (st_charge_tx st)
       (st_price st) agent (Some (PLATFORM_FEE_PCT (settle_env w))) (Some ''caller'') None None None)
     (\<lambda>_ d2. paid_step st d d2 \<and> map uncharged (jobs d2) = map uncharged (jobs d1) \<and> agent_rows d2 = agent_rows d1 \<and>
        (0 < dist_caller_charge_cents (st_distribution st) \<longrightarrow> related_in (st_charge_tx st) [Payout, Fee] (transactions d2)))
     (\<lambda>_ _. False) d1"
proof -
  let ?pay = "post_call_payout (settle_env w) (wallet_id (st_agent_wallet st)) (wallet_id (st_platform_wallet st)) (st_charge_tx st)
       (st_price st) agent (Some (PLATFORM_FEE_PCT (settle_env w))) (Some ''caller'') None None None"
  have "wp ?pay (\<lambda>_ d2. map uncharged (jobs d2) = map uncharged (jobs d1) \<and> agent_rows d2 = agent_rows d1)
     (\<lambda>_ d2. map uncharged (jobs d2) = map uncharged (jobs d1) \<and> agent_rows d2 = agent_rows d1) d1"
    by (rule keeps_wp [OF keeps_conj [OF job_table.keeps_payout agent_table.keeps_payout]]) simp
  moreover have "wp ?pay (\<lambda>_ d2. ledger_ok d2 \<and> (\<forall>w. balance_of w d2 = balance_of w d1 +
          (if w = wallet_id (st_agent_wallet st) then dist_agent_payout_cents (st_distribution st) else 0) +
          (if w = wallet_id (st_platform_wallet st) then dist_platform_fee_cents (st_distribution st) else 0)) \<and>
        (let held = hold_amount None None (dist_agent_payout_cents (st_distribution st)) None in
           held \<le> dist_agent_payout_cents (st_distribution st) \<and>
           (\<forall>w. active_held w d2 = active_held w d1 + (if w = wallet_id (st_agent_wallet st) then held else 0))) \<and>
        (0 < dist_agent_payout_cents (st_distribution st) \<or> 0 < dist_platform_fee_cents (st_distribution st) \<longrightarrow>
           related_in (st_charge_tx st) [Payout, Fee] (transactions d2))) (\<lambda>_ _. False) d1"
    by (rule wp_post_call_payout_marked [OF _ step_open_shares [OF st]];
        insert st [unfolded step_open_def] same_money [OF d1(1,2)] d1(3); simp add: or_empty_def no_hold_for_def)
  ultimately show ?thesis
    by (rule wp_post_mono [OF wp_conj])
      (use same_money(2) [OF d1(1,2)] caller_pays_shares [OF step_open_shares [OF st]] in \<open>auto simp: paid_step_def\<close>)
qed

lemma wp_settle_step_success:
  assumes st: "step_open (settle_env w) st k d"
  shows "wp (settle_step_success w c a payload out st) (\<lambda>_. step_done w c a payload out st (job_id k) d)
    (step_unpriced w c a payload out st (job_id k) d) d"
proof -
  let ?e = "settle_env w" and ?k = "status_updated_row (settle_env w) Complete (Some (JObj out)) None True (sign_output w a out) k"
  have pay: "wp (bindE (post_call_payout ?e (wallet_id (st_agent_wallet st)) (wallet_id (st_platform_wallet st)) (st_charge_tx st)
               (st_price st) (listed_agent_id a) (Some (PLATFORM_FEE_PCT ?e)) (Some ''caller'') None None None) (\<lambda>_.
      bindE (mark_settled ?e (job_id k)) (\<lambda>_. bindE (update_call_stats ?e (listed_agent_id a) (latency_ms w) True (Some (st_price st))) (\<lambda>_.
      bindE (refund_pricing_diff_for_step w c a payload out st) (\<lambda>_. ret ()))))) (\<lambda>_. step_done w c a payload out st (job_id k) d)
      (step_unpriced w c a payload out st (job_id k) d) d1"
    if d1: "find_job (job_id k) d1 = Some ?k" "\<forall>i\<in>set (jobs d1). job_check i" "wallets d1 = wallets d" "transactions d1 = transactions d"
      "wallet_holds d1 = wallet_holds d" "agent_rows d1 = agent_rows d" for d1
  proof -
    have row: "settled_at ?k = None" "sound_rows d1"
      using st d1(2,6) by (simp_all add: closed_columns step_open_def sound_rows_def)
    show ?thesis
      unfolding wp_bindE [of "post_call_payout _ _ _ _ _ _ _ _ _ _ _"]
      by (rule wp_post_mono [OF wp_step_payout [OF st d1(3-5)]])
        ((rule wp_step_stamped [OF st d1(1) row(1) _ _ _ row(2)]; simp add: closed_columns), simp)
  qed
  obtain j where j: "st_job st = Some j" "job_id j = job_id k" and k: "find_job (job_id k) d = Some k" "completed_at k = None"
    and checks: "\<forall>i\<in>set (jobs d). job_check i" using st by (auto simp: step_open_def)
  have complete: "parse_status ''complete'' = Some Complete" using parse_status_text [of Complete] by simp
  show ?thesis
    unfolding settle_step_success_def Let_def step_job_def j option.case wp_bindE [of "ret _"] wp_ret
      wp_bindE [of "update_job_status _ _ _ _ _ _ _"]
    by (rule wp_close_job [OF checks complete k]) (rule pay)
qed

text \<open>The failure of a step that is paid already changes no row of a job, no balance, and nobody is refunded.\<close>

lemma wp_close_closed:
  assumes "\<forall>i\<in>set (jobs d). job_check i" and "parse_status status = Some s" and "find_job job d = Some k" and "completed_at k \<noteq> None"
    and "\<And>d1. find_job job d1 = Some k \<Longrightarrow> wallets d1 = wallets d \<Longrightarrow> transactions d1 = transactions d \<Longrightarrow>
       agent_rows d1 = agent_rows d \<Longrightarrow> \<forall>i\<in>set (jobs d1). job_check i \<Longrightarrow> Q (Some k) d1"
  shows "wp (update_job_status e job status out err True g) Q E d"
proof -
  let ?p = "\<lambda>i. job_id i = job \<and> completed_at i = None" and ?f = "status_updated_row e s out err True g"
  let ?d = "d\<lparr>tx_failed := False, jobs := update_rows ?p ?f (jobs d)\<rparr>"
  have id: "job_id (?f i) = job_id i" for i by (simp add: status_updated_row_def signed_row_def Let_def)
  have found: "find (\<lambda>i. job_id i = job) (update_rows ?p ?f (jobs d)) = Some k"
    using assms(3,4) id by (auto simp: find_job_def find_update_same)
  have check: "\<forall>i\<in>set (update_rows ?p ?f (jobs d)). job_check i"
    using assms(1) by (simp add: ball_update_rows status_row_check)
  have post: "Q (Some k) ?d" using found check by (intro assms(5)) (simp_all add: find_job_def)
  have flag: "d\<lparr>tx_failed := False, jobs := js, tx_failed := False\<rparr> = d\<lparr>tx_failed := False, jobs := js\<rparr>" for js by simp
  show ?thesis
    using assms(1) post found
    by (simp add: update_job_status_def assms(2) wp_transact wp_bindE wp_update_stmt pg_failed_def wp_get_job status_row_check
        find_job_def flag)
qed

lemma wp_mark_stamped:
  assumes "\<forall>i\<in>set (jobs d). job_check i" and "find_job job d = Some k" and "settled_at k \<noteq> None"
  shows "wp (mark_settled e job) (\<lambda>_ d'. find_job job d' = Some k \<and> wallets d' = wallets d \<and> transactions d' = transactions d \<and>
     agent_rows d' = agent_rows d) (\<lambda>_ _. False) d"
proof -
  let ?p = "\<lambda>i. job_id i = job \<and> settled_at i = None" and ?f = "\<lambda>i. i\<lparr>settled_at := Some (now e)\<rparr>"
  have "find (\<lambda>i. job_id i = job) (update_rows ?p ?f (jobs d)) = Some k"
    using assms(2,3) by (auto simp: find_job_def find_update_same)
  moreover have "job_check (?f i) = job_check i" for i by (simp add: job_check_def)
  ultimately show ?thesis using assms(1) by (simp add: mark_settled_def wp_simps pg_failed_def find_job_def)
qed

lemma wp_refund_after_payment:
  assumes ok: "ledger_ok d" and p: "0 \<le> price" and c: "\<not> is_escrow_tx_id c"
    and paid: "0 < price \<longrightarrow> related_in c [Payout, Fee] (transactions d)"
  shows "wp (post_call_refund e cw c price agent) (\<lambda>_ d'. ledger_ok d' \<and> (\<forall>w. balance_of w d' = balance_of w d)) (\<lambda>_ _. False) d"
proof (cases "price = 0")
  case True
  then show ?thesis
    using ok c balance_of_nonneg [OF ok, of cw]
      by (simp add: post_call_refund_def wp_simps has_related_in Let_def posting_simps ledger_ok_post funded_nonneg tx_entry_def abort_tx_def)
next
  case False
  then show ?thesis using assms by (simp add: post_call_refund_def wp_simps has_related_in)
qed

lemma wp_failure_after_payment:
  assumes st: "step_open (settle_env w) st k d" and d3: "step_closed (settle_env w) st (job_id k) out d d3"
  shows "wp (settle_step_failure w a st)
    (\<lambda>_ d'. step_row (settle_env w) (job_id k) Complete (Some (JObj out)) d' \<and> paid_step st d d') (\<lambda>_ _. False) d3"
proof -
  let ?e = "settle_env w" and ?c = "st_charge_tx st" and ?price = "dist_caller_charge_cents (st_distribution st)"
  let ?R = "\<lambda>_ d'. step_row ?e (job_id k) Complete (Some (JObj out)) d' \<and> paid_step st d d'"
  obtain i where i: "find_job (job_id k) d3 = Some i" "job_state i = Complete" "output_payload i = Some (JObj out)" "completed_at i \<noteq> None"
    "settled_at i = Some (now ?e)" using d3 by (auto simp: step_closed_def step_row_def)
  have sound: "\<forall>i\<in>set (jobs d3). job_check i" and paid: "paid_step st d d3" using d3 by (simp_all add: step_closed_def sound_rows_def)
  have charge: "0 \<le> ?price" "\<not> is_escrow_tx_id ?c" using st charge_nonneg by (auto simp: step_open_def)
  obtain j where j: "st_job st = Some j" "job_id j = job_id k" using st by (auto simp: step_open_def)
  have stamped: "wp (bindE (mark_settled ?e (job_id k)) (\<lambda>_. update_call_stats ?e (listed_agent_id a) (latency_ms w) False (Some (st_price st))))
     ?R (\<lambda>_ _. False) d2"
    if d2: "map uncharged (jobs d2) = map uncharged (jobs d1)" "agent_rows d2 = agent_rows d1" "paid_step st d d2"
      and d1: "find_job (job_id k) d1 = Some i" "sound_rows d1" for d1 d2
  proof -
    obtain i2 where i2: "find_job (job_id k) d2 = Some i2" "job_state i2 = Complete" "output_payload i2 = Some (JObj out)"
        "completed_at i2 \<noteq> None" "settled_at i2 = Some (now ?e)"
      using uncharged_row [OF d2(1) d1(1)] i(2-5) by auto
    have rows: "\<forall>i\<in>set (jobs d2). job_check i" "\<forall>r\<in>set (agent_rows d2). agent_check r"
      using sound_uncharged [OF d2(1,2) d1(2)] by (simp_all add: sound_rows_def)
    have settled: "settled_at i2 \<noteq> None" using i2(5) by simp
    show ?thesis
      unfolding wp_bindE
    proof (rule wp_post_mono [OF wp_mark_stamped [OF rows(1) i2(1) settled]])
      fix n d4 assume d4: "find_job (job_id k) d4 = Some i2 \<and> wallets d4 = wallets d2 \<and> transactions d4 = transactions d2 \<and>
        agent_rows d4 = agent_rows d2"
      then have agents: "\<forall>r\<in>set (agent_rows d4). agent_check r" using rows(2) by simp
      have money: "ledger_ok d4 = ledger_ok d2" "\<And>w. balance_of w d4 = balance_of w d2" using same_money [of d4 d2] d4 by simp_all
      show "wp (update_call_stats ?e (listed_agent_id a) (latency_ms w) False (Some (st_price st))) ?R (\<lambda>_ _. False) d4"
        by (rule wp_post_mono [OF wp_count_call [OF agents]])
          (use d4 i2 money d2(3) in \<open>auto simp: aside_def step_row_def find_job_def paid_step_def\<close>)
    qed simp
  qed
  have refund: "wp (bindE (post_call_refund (uuids_from 7 ?e) (wallet_id (st_caller_wallet st)) ?c ?price (listed_agent_id a)) (\<lambda>_.
      bindE (mark_settled ?e (job_id k)) (\<lambda>_. update_call_stats ?e (listed_agent_id a) (latency_ms w) False (Some (st_price st)))))
     ?R (\<lambda>_ _. False) d1"
    if d1: "find_job (job_id k) d1 = Some i" "wallets d1 = wallets d3" "transactions d1 = transactions d3" "agent_rows d1 = agent_rows d3"
      "\<forall>i\<in>set (jobs d1). job_check i" for d1
    unfolding wp_bindE [of "post_call_refund _ _ _ _ _"]
  proof (rule wp_post_mono [OF wp_conj])
    let ?pay = "post_call_refund (uuids_from 7 ?e) (wallet_id (st_caller_wallet st)) ?c ?price (listed_agent_id a)"
    show "wp ?pay (\<lambda>_ d2. map uncharged (jobs d2) = map uncharged (jobs d1) \<and> agent_rows d2 = agent_rows d1)
       (\<lambda>_ d2. map uncharged (jobs d2) = map uncharged (jobs d1) \<and> agent_rows d2 = agent_rows d1) d1"
      by (rule keeps_wp [OF keeps_conj [OF job_table.keeps_refund agent_table.keeps_refund]]) simp
    show "wp ?pay (\<lambda>_ d2. ledger_ok d2 \<and> (\<forall>w. balance_of w d2 = balance_of w d1)) (\<lambda>_ _. False) d1"
      using d3 same_money [OF d1(2,3)] charge d1(3)
      by (intro wp_refund_after_payment) (simp_all add: step_closed_def paid_step_def)
    fix x d2
    assume d2: "(map uncharged (jobs d2) = map uncharged (jobs d1) \<and> agent_rows d2 = agent_rows d1) \<and> ledger_ok d2 \<and>
        (\<forall>w. balance_of w d2 = balance_of w d1)"
    then have "paid_step st d d2" using paid same_money(2) [OF d1(2,3)] by (simp add: paid_step_def)
    moreover have "sound_rows d1" using d1(4,5) d3 by (simp add: sound_rows_def step_closed_def)
    ultimately show "wp (bindE (mark_settled ?e (job_id k)) (\<lambda>_. update_call_stats ?e (listed_agent_id a) (latency_ms w) False (Some (st_price st))))
       ?R (\<lambda>_ _. False) d2"
      using d2 stamped [of d2 d1] d1(1) by simp
  qed simp
  show ?thesis
    unfolding settle_step_failure_def Let_def step_job_def j option.case wp_bindE [of "ret _"] wp_ret
      wp_bindE [of "update_job_status _ _ _ _ _ _ _"]
    by (rule wp_close_closed [OF sound parse_failed i(1,4)]) (rule refund)
qed

lemma wp_settle_step_failure:
  assumes st: "step_open (settle_env w) st k d"
  shows "wp (settle_step_failure w a st) (\<lambda>_ d'. step_row (settle_env w) (job_id k) Failed None d' \<and> refunded_step st d d') (\<lambda>_ _. False) d"
proof -
  let ?e = "settle_env w" and ?k = "status_updated_row (settle_env w) Failed None (Some ''Pipeline step failed.'') True no_signature k"
  note open_step = st [unfolded step_open_def]
  have charged: "0 \<le> dist_caller_charge_cents (st_distribution st)" using open_step charge_nonneg by blast
  have refund: "wp (bindE (post_call_refund (uuids_from 7 ?e) (wallet_id (st_caller_wallet st)) (st_charge_tx st)
               (dist_caller_charge_cents (st_distribution st)) (listed_agent_id a)) (\<lambda>_.
      bindE (mark_settled ?e (job_id k)) (\<lambda>_. update_call_stats ?e (listed_agent_id a) (latency_ms w) False (Some (st_price st)))))
     (\<lambda>_ d'. step_row ?e (job_id k) Failed None d' \<and> refunded_step st d d') (\<lambda>_ _. False) d1"
    if d1: "find_job (job_id k) d1 = Some ?k" "\<forall>i\<in>set (jobs d1). job_check i" "wallets d1 = wallets d" "transactions d1 = transactions d"
      "wallet_holds d1 = wallet_holds d" "agent_rows d1 = agent_rows d" for d1
    unfolding wp_bindE [of "post_call_refund _ _ _ _ _"]
  proof (rule wp_post_mono [OF wp_conj])
    let ?pay = "post_call_refund (uuids_from 7 ?e) (wallet_id (st_caller_wallet st)) (st_charge_tx st)
               (dist_caller_charge_cents (st_distribution st)) (listed_agent_id a)"
    show "wp ?pay (\<lambda>_ d2. map uncharged (jobs d2) = map uncharged (jobs d1) \<and> agent_rows d2 = agent_rows d1)
       (\<lambda>_ d2. map uncharged (jobs d2) = map uncharged (jobs d1) \<and> agent_rows d2 = agent_rows d1) d1"
      by (rule keeps_wp [OF keeps_conj [OF job_table.keeps_refund agent_table.keeps_refund]]) simp
    have un: "\<not> related_in (st_charge_tx st) [Payout, Fee] (transactions d1)" "unsettled (st_charge_tx st) Refund w' d1" for w'
      using open_step same_money [OF d1(3,4)] open_chargeD [of "st_charge_tx st" d1] by (simp_all add: has_related_in)
    show "wp ?pay (\<lambda>_ d2. ledger_ok d2 \<and> (\<forall>w. balance_of w d2 = balance_of w d1 +
         (if w = wallet_id (st_caller_wallet st) \<and> \<not> related_in (st_charge_tx st) [Payout, Fee] (transactions d1)
          then dist_caller_charge_cents (st_distribution st) else 0))) (\<lambda>_ _. False) d1"
      using open_step same_money [OF d1(3,4)] charged un by (intro wp_refund_of_call) simp_all
    fix x d2
    assume d2: "(map uncharged (jobs d2) = map uncharged (jobs d1) \<and> agent_rows d2 = agent_rows d1) \<and> ledger_ok d2 \<and>
        (\<forall>w. balance_of w d2 = balance_of w d1 +
         (if w = wallet_id (st_caller_wallet st) \<and> \<not> related_in (st_charge_tx st) [Payout, Fee] (transactions d1)
          then dist_caller_charge_cents (st_distribution st) else 0))"
    have sound: "sound_rows d1" using open_step d1(2,6) by (simp add: sound_rows_def)
    have row: "settled_at ?k = None" "completed_at ?k \<noteq> None" using open_step by (simp_all add: closed_columns)
    have paid: "refunded_step st d d2" using d2 un(1) same_money(2) [OF d1(3,4)] by (simp add: refunded_step_def)
    show "wp (bindE (mark_settled ?e (job_id k)) (\<lambda>_. update_call_stats ?e (listed_agent_id a) (latency_ms w) False (Some (st_price st))))
       (\<lambda>_ d'. step_row ?e (job_id k) Failed None d' \<and> refunded_step st d d') (\<lambda>_ _. False) d2"
      by (rule wp_post_mono [OF wp_stamp_and_count [OF _ _ d1(1) row sound]])
        (use d2 paid in \<open>simp_all add: closed_columns refunded_step_def\<close>)
  qed simp
  obtain j where j: "st_job st = Some j" "job_id j = job_id k" and k: "find_job (job_id k) d = Some k" "completed_at k = None"
    and checks: "\<forall>i\<in>set (jobs d). job_check i" using open_step by auto
  have failed: "parse_status ''failed'' = Some Failed" by (rule parse_failed)
  show ?thesis
    unfolding settle_step_failure_def Let_def step_job_def j option.case wp_bindE [of "ret _"] wp_ret
      wp_bindE [of "update_job_status _ _ _ _ _ _ _"]
    by (rule wp_close_job [OF checks failed k]) (rule refund)
qed

text \<open>
  C12. A charged step is settled exactly once. From any state in which the charge is open when the agent answers: if the
  answer is accepted, the step returns it, the job is complete and stamped, and the agent and the platform were credited their shares
  of the price before the refund of the difference gave back what was not used; if the agent fails, answers with an error or with a degraded
  result, that error comes out, the job is failed and stamped, the caller has the whole charge back, and nobody else was paid.
  One way out is left, and it settles the charge once too: the answer was accepted and paid, but pricing the units that it reports raises
  (they are infinite, or cost more than 28 digits); that error comes out of the step although its job stays complete, stamped
  and paid in full, and the failure handler that runs over it refunds nothing.
\<close>

theorem charged_step_settles_once:
  assumes "step_open (settle_env w) st k (meanwhile w d)"
  shows "wp (settle_step w c a payload st)
     (\<lambda>(out, charged_cents) d'. try_bind (agent_answer w a payload) (checked_answer a) = Inr out \<and>
        charged_cents = dist_caller_charge_cents (st_distribution st) \<and>
        step_row (settle_env w) (job_id k) Complete (Some (JObj out)) d' \<and>
        (\<exists>d3 r. paid_step st (meanwhile w d) d3 \<and> refund_pricing_diff_for_step w c a payload out st d3 = (Inr r, d')))
     (\<lambda>ex d'. try_bind (agent_answer w a payload) (checked_answer a) = Inl ex \<and>
        step_row (settle_env w) (job_id k) Failed None d' \<and> refunded_step st (meanwhile w d) d' \<or>
        (\<exists>out d3. try_bind (agent_answer w a payload) (checked_answer a) = Inr out \<and> ex \<in> {OverflowError, InvalidOperation} \<and>
           paid_step st (meanwhile w d) d3 \<and> refund_pricing_diff_for_step w c a payload out st d3 = (Inl ex, d3) \<and>
           step_row (settle_env w) (job_id k) Complete (Some (JObj out)) d' \<and> paid_step st (meanwhile w d) d')) d"
proof -
  have others: "wp (\<lambda>d. (Inr (), meanwhile w d)) Q E d = Q () (meanwhile w d)" for Q E by (simp add: wp_def)
  show ?thesis
  proof (cases "try_bind (agent_answer w a payload) (checked_answer a)")
    case (Inl ex)
    show ?thesis
      unfolding settle_step_def fetch_agent_output_def wp_catchE wp_bindE others wp_of_result Inl sum.case wp_throw
      by (rule wp_post_mono [OF wp_settle_step_failure [OF assms]]) simp_all
  next
    case (Inr out)
    show ?thesis
      unfolding settle_step_def fetch_agent_output_def wp_catchE wp_bindE others wp_of_result Inr sum.case wp_ret wp_throw
    proof (rule wp_post_mono [OF wp_settle_step_success [OF assms, of c a payload out]])
      fix ex d3 assume raised: "step_unpriced w c a payload out st (job_id k) (meanwhile w d) ex d3"
      show "wp (settle_step_failure w a st) (\<lambda>_ d'. Inr out = Inl ex \<and>
          step_row (settle_env w) (job_id k) Failed None d' \<and> refunded_step st (meanwhile w d) d' \<or>
          (\<exists>out' d3. Inr out = Inr out' \<and> ex \<in> {OverflowError, InvalidOperation} \<and>
           paid_step st (meanwhile w d) d3 \<and> refund_pricing_diff_for_step w c a payload out' st d3 = (Inl ex, d3) \<and>
           step_row (settle_env w) (job_id k) Complete (Some (JObj out')) d' \<and> paid_step st (meanwhile w d) d'))
         (\<lambda>ex d'. Inr out = Inl ex \<and> step_row (settle_env w) (job_id k) Failed None d' \<and> refunded_step st (meanwhile w d) d' \<or>
          (\<exists>out' d3. Inr out = Inr out' \<and> ex \<in> {OverflowError, InvalidOperation} \<and>
           paid_step st (meanwhile w d) d3 \<and> refund_pricing_diff_for_step w c a payload out' st d3 = (Inl ex, d3) \<and>
           step_row (settle_env w) (job_id k) Complete (Some (JObj out')) d' \<and> paid_step st (meanwhile w d) d')) d3"
        by (rule wp_post_mono [OF wp_failure_after_payment [OF assms, of out d3]])
          (use raised in \<open>auto simp: step_unpriced_def step_closed_def\<close>)
    qed (simp add: step_done_def)
  qed
qed

section \<open>A run in the small world\<close>

definition sample_context :: run_context where
  "sample_context = \<lparr>pricing_overlay = (\<lambda>_. None), claim_deadline_setting = None, current_origin = None, run_caller = ''user:alice'',
     run_caller_wallet = ''w1'', run_client = None, describe_error = (\<lambda>_. ''error'')\<rparr>"

definition sample_world :: step_world where
  "sample_world = \<lparr>charge_env = sample_env Postgres, settle_env = sample_env Postgres, resolve_artifact_refs = Inr,
     meanwhile = (\<lambda>d. d), agent_answer = (\<lambda>_ _. Inr (JObj [(''answer'', JNum 42)])), latency_ms = 200, sign_output = (\<lambda>_ _. no_signature)\<rparr>"

definition sample_open_job :: job where
  "sample_open_job = sample_late_job\<lparr>job_state := Pending, completed_at := None\<rparr>"

definition sample_step :: step_state where
  "sample_step = \<lparr>st_price = 100, st_estimate = sample_metered_estimate, st_distribution = sample_billed,
     st_caller_wallet = sample_caller, st_agent_wallet = sample_wallet ''w2'' ''agent:bob'' 0,
     st_platform_wallet = sample_wallet ''w3'' ''platform'' 0, st_charge_tx = ''t9'', st_job = Some sample_open_job\<rparr>"

lemma sample_step_open: "step_open (sample_env Postgres) sample_step sample_open_job (sample_db\<lparr>jobs := [sample_open_job]\<rparr>)"
proof -
  let ?d = "sample_db\<lparr>jobs := [sample_open_job]\<rparr>"
  have money: "wallets ?d = wallets sample_db" "transactions ?d = transactions sample_db" by simp_all
  have "job_check sample_open_job" by (simp add: sample_open_job_def sample_late_job_def sample_job_def job_check_def)
  moreover have "compute_success_distribution 10 100 (Some 10) (Some ''caller'') = Inr sample_billed"
    by (simp add: compute_success_distribution_def compute_platform_fee_cents_value effective_pct_def policy_defs sample_billed_def Let_def)
      (simp add: round_half_up_def floor_eq_iff)
  moreover have "open_charge ''t9'' ?d" "new_id (uuid (sample_env Postgres) n) ?d" for n
    by (simp_all add: same_money [OF money])
  moreover have "ledger_ok ?d" using sample_ledger_ok by (simp add: same_money [OF money])
  ultimately show ?thesis
    unfolding step_open_def
    by (simp add: sample_step_def sample_defs find_job_def has_wallet_def is_escrow_tx_id_def ESCROW_TX_PREFIX_def
        sample_open_job_def sample_late_job_def sample_job_def no_hold_for_def)
qed

lemma sample_step_unmetered: "refund_pricing_diff_for_step sample_world sample_context sample_agent payload out sample_step d = (Inr 0, d)"
  by (simp add: refund_pricing_diff_for_step_def maybe_refund_pricing_diff_def resolve_agent_pricing_def sample_context_def sample_agent_def
      ret_def split: list.split)

lemma charged_step_settles_once_witness:
  "wp (settle_step sample_world sample_context sample_agent [] sample_step)
     (\<lambda>(out, charged_cents) d'. out = [(''answer'', JNum 42)] \<and> charged_cents = 110 \<and>
        step_row (sample_env Postgres) ''j1'' Complete (Some (JObj out)) d') (\<lambda>_ _. False) (sample_db\<lparr>jobs := [sample_open_job]\<rparr>)"
proof -
  have answer: "try_bind (agent_answer sample_world sample_agent []) (checked_answer sample_agent) = Inr [(''answer'', JNum 42)]"
    by (auto simp: sample_world_def try_bind_def checked_answer_def output_has_error_def is_unchargeable_degraded_def sample_agent_def
        py_strip_def py_space_def Let_def split: if_splits)
  have sample: "dist_caller_charge_cents (st_distribution sample_step) = 110" "job_id sample_open_job = ''j1''"
    "settle_env sample_world = sample_env Postgres"
    by (simp_all add: sample_step_def sample_billed_def sample_open_job_def sample_late_job_def sample_job_def sample_world_def)
  have "step_open (settle_env sample_world) sample_step sample_open_job (meanwhile sample_world (sample_db\<lparr>jobs := [sample_open_job]\<rparr>))"
    by (simp add: sample_world_def sample_step_open)
  then show ?thesis
    by (rule wp_post_mono [OF charged_step_settles_once]) (auto simp: answer sample sample_step_unmetered)
qed

text \<open>A public pipeline of one node, started and run.\<close>

definition sample_workflow :: pipeline where
  "sample_workflow = sample_pipeline\<lparr>pipeline_definition := JObj [(''nodes'', JArr [JObj [(''id'', JStr ''a''), (''agent'', JStr ''agent'')]])]\<rparr>"

lemma pipeline_run_ends_witness:
  "wp (run_pipeline (\<lambda>_. []) (sample_env Postgres) sample_context (\<lambda>_. None) None None ''p1'' [])
     (\<lambda>s d'. wp (execute_run (\<lambda>_. []) (sample_env Postgres) (\<lambda>_. sample_world) sample_context (started_pipeline s) (started_run_id s)
          (started_workspace s) []) (\<lambda>_ d2. \<exists>r. find_run ''u'' d2 = Some r \<and> run_status r \<in> {''complete'', ''failed''}) (\<lambda>_ _. False) d')
     (\<lambda>_ d'. find_run ''u'' d' = None) (sample_db\<lparr>pipelines := [sample_workflow]\<rparr>)"
proof -
  have world: "run_undisturbed ''u'' sample_world" by (simp add: run_undisturbed_def sample_world_def)
  have id: "uuid (sample_env Postgres) 0 = ''u''" by (simp add: sample_env_def)
  have new: "find_run (uuid (sample_env Postgres) 0) (sample_db\<lparr>pipelines := [sample_workflow]\<rparr>) = None"
    "py_strip (uuid (sample_env Postgres) 0) = uuid (sample_env Postgres) 0"
    by (simp_all add: id find_run_def sample_db_def py_strip_def py_space_def)
  show ?thesis
  proof (rule wp_post_mono [OF pipeline_run_ends [OF new], unfolded id])
    fix s d'
    assume s: "started_run_id s = ''u'' \<and>
       (\<exists>plan. validate_definition (\<lambda>_. []) (pipeline_definition (started_pipeline s)) = Inr plan \<and>
         (\<forall>e' ws. (\<forall>i. run_undisturbed ''u'' (ws i)) \<longrightarrow>
            wp (execute_run (\<lambda>_. []) e' ws sample_context (started_pipeline s) (started_run_id s) (started_workspace s) [])
              (\<lambda>_ d2. \<exists>r. find_run ''u'' d2 = Some r \<and> run_ended plan r) (\<lambda>_ _. False) d'))"
    then obtain plan where "\<forall>e' ws. (\<forall>i. run_undisturbed ''u'' (ws i)) \<longrightarrow>
       wp (execute_run (\<lambda>_. []) e' ws sample_context (started_pipeline s) (started_run_id s) (started_workspace s) [])
         (\<lambda>_ d2. \<exists>r. find_run ''u'' d2 = Some r \<and> run_ended plan r) (\<lambda>_ _. False) d'" by auto
    from this [THEN spec, of "sample_env Postgres", THEN spec, of "\<lambda>_. sample_world"]
    have "wp (execute_run (\<lambda>_. []) (sample_env Postgres) (\<lambda>_. sample_world) sample_context (started_pipeline s) (started_run_id s)
        (started_workspace s) []) (\<lambda>_ d2. \<exists>r. find_run ''u'' d2 = Some r \<and> run_ended plan r) (\<lambda>_ _. False) d'"
      using world by simp
    then show "wp (execute_run (\<lambda>_. []) (sample_env Postgres) (\<lambda>_. sample_world) sample_context (started_pipeline s) (started_run_id s)
          (started_workspace s) []) (\<lambda>_ d2. \<exists>r. find_run ''u'' d2 = Some r \<and> run_status r \<in> {''complete'', ''failed''}) (\<lambda>_ _. False) d'"
      by (rule wp_post_mono) (auto simp: run_ended_def)
  qed (auto simp: stranded_def)
qed

end
