(* ===== verification/Spec2Isabelle.thy ===== *)
theory Spec2Isabelle
  imports Precall Dispute_Settlement Ledger_Audit Subwallets Job_Lifecycle Lease_Safety Dispute_History Judging Success_Settlement
    Worker_Leases Run_Outcomes
begin

text \<open>
  Verification library for the money, the jobs and the disputes of aztea, a marketplace on which callers
  hire agents by the call.

  \<^bold>\<open>The program and its parts.\<close> Every party has a wallet, and every movement of money is a row
  of an insert-only ledger. A call is charged before it runs; when its job ends, the charge is paid out
  to the agent and the platform, or refunded, and part of the payout may be held back for the window in
  which the caller can dispute. Workers claim jobs under leases and lose them when they crash. A job may end
  early by a condition of its caller, and then a queue settles it. Disputes lock the money of a settled job until
  judges decide. The server ties these together, fails the jobs below a failed one, and keeps statistics
  and health of the agents. Pipelines chain agents. All parts share one database, and a good deal of
  their interaction is through its tables.

  \<^bold>\<open>Theories, from the bottom up.\<close> Paths are below \<open>src/\<close>; a definition has the name of the function it
  models, up to a leading underscore, except where that name is taken.

    \<^item> \<open>Prelude\<close>: programs as state passing with Python exceptions as values, \<open>wp\<close> (weakest
      precondition for a return and for an exception) with the collections \<open>wp_simps\<close>, \<open>row_simps\<close> and
      \<open>op_defs\<close>, tables as lists of rows, Python's string operations, decimal rounding. \<open>Json_Values\<close>:
      reading JSON documents.
    \<^item> \<open>Database\<close> (\<open>core/db.py\<close> and the schemas in the \<open>init\<close> functions): a record per table, statements,
      transactions with rollback, and the state of a PostgreSQL transaction after an error, in which every
      statement fails. \<open>env\<close> holds what an operation gets from outside: backend, clock, fresh ids, settings.
      \<open>Sample\<close>: the small world of the witnesses.
    \<^item> \<open>Functional\<close>, \<open>Fees\<close> (\<open>core/functional.py\<close> and the arithmetic of \<open>core/payments/base.py\<close>): fees, shares,
      refunds. \<open>Payout_Curve\<close> (\<open>core/payout_curve.py\<close>).
    \<^item> \<open>Ledger\<close>, \<open>Wallets\<close>, \<open>Precall\<close>, \<open>Settlement\<close> (\<open>core/payments/base.py\<close> and \<open>variable_pricing.py\<close>
      beside it): postings, wallets, limits, payout, refund and partial settlement.
    \<^item> \<open>Reservations\<close>, \<open>Holds\<close>, \<open>Caller_Escrow\<close> (\<open>core/payments/holds.py\<close>, \<open>caller_escrow.py\<close>): the two
      tables of reserved money, whose active rows share the cache \<open>wallets.held_cents\<close>.
    \<^item> \<open>Subwallets\<close>, \<open>Ledger_Audit\<close> (\<open>core/payments/subwallets.py\<close>, \<open>action_escrow.py\<close>, \<open>audit.py\<close>).
    \<^item> \<open>Trust_Disputes\<close>, \<open>Dispute_Settlement\<close> (\<open>core/payments/trust_disputes.py\<close>): caller trust, deposits, the
      lock on disputed money, the settlement by outcome.
    \<^item> \<open>Jobs\<close>, \<open>Leases\<close>, \<open>Messaging\<close> (\<open>core/jobs\<close>), with \<open>Job_Lifecycle\<close> (the state machine of a row and its
      refinement) and \<open>Lease_Safety\<close> (what a worker may rely on).
    \<^item> \<open>Stop_Predicates\<close> (\<open>core/copilot_predicates.py\<close>) and \<open>Settlement_Runner\<close> (\<open>core/settlement_runner.py\<close>).
    \<^item> \<open>Dispute_Cases\<close>, \<open>Dispute_History\<close> (\<open>core/disputes.py\<close>), \<open>Judging\<close> (\<open>core/judges.py\<close>).
    \<^item> \<open>Job_Events\<close>, \<open>Agent_Stats\<close>, \<open>Agent_Health\<close> (\<open>core/registry/call_history.py\<close>, the parts of
      \<open>core/registry/agents_ops.py\<close> on calls and health, and \<open>server/application_parts/part_003.py\<close>, \<open>part_005.py\<close>).
    \<^item> \<open>Job_Settlement\<close> with \<open>Failure_Cascade\<close> and \<open>Success_Settlement\<close> (\<open>server/application_parts/part_005.py\<close>):
      how the server settles jobs and fails those below a failed one.
    \<^item> \<open>Worker_Leases\<close> (\<open>core/background_leases.py\<close>): the election of one background worker.
    \<^item> \<open>Variable_Pricing\<close> (\<open>core/registry/pricing.py\<close>, \<open>server/pricing_helpers.py\<close>).
    \<^item> \<open>Pipeline_Graph\<close>, \<open>Pipelines\<close>, \<open>Pipeline_Runs\<close> with \<open>Run_Outcomes\<close> (\<open>core/pipelines\<close>, \<open>core/recipes.py\<close>):
      the order of a pipeline, its tables, and the execution of a run with the money of its steps.

  \<^bold>\<open>Interfaces.\<close> \<open>posting_invariant\<close> and \<open>ledger_invariant\<close> (in \<open>Ledger\<close>) state what a fact about the ledger must
  survive to survive every money operation; they are interpreted by the balance of the ledger and by its being
  insert-only. \<open>reservation\<close> (in \<open>Reservations\<close>) is the contract of a table of reserved money with its cache,
  interpreted by agent holds and by caller escrows. \<open>decay_rule\<close> (in \<open>Agent_Stats\<close>) is a nightly sweep, interpreted for
  latency and reputation. \<open>untouched_table\<close> (in \<open>Settlement_Runner\<close>) is a part of the database that the money
  operations leave alone.

  \<^bold>\<open>What is shown.\<close> Money: the ledger balances and is insert-only under every operation; a charge keeps its
  limits; a settlement goes one way, once, with shares that add up; what a dispute's settlement adds to the sum of all balances
  is named outcome by outcome; the audit is exact; caches equal what they cache. Jobs: each operation refines the state
  machine of a row, reachable tables are well formed, claims exclude each other, stale tokens are fenced, a
  crashing job ends. Server: a successful job is paid once, a failed one takes with it exactly the jobs below that
  ask for it. Disputes: filing is guarded, history is kept, judging does not strand a case. Agents: prices
  are bounded where they can be computed, and the quantities for which they cannot are named; rings of samples round-trip; a
  suspension outlives every probe that began after it. Workers: one leader, replaced once its lease is over.
  Pipelines: accepted exactly when acyclic, and ordered; every run that starts ends, and each charged step is paid or
  refunded once, also when pricing what it used raises after the payment. Where the code does not do what it means to, the theorem says
  what it does instead.

  \<^bold>\<open>Bounds and fuel.\<close> \<open>settle_failed_job\<close> takes the depth of Python's stack as an argument; a depth above the
  number of open jobs is shown to be enough. \<open>drain_all\<close> runs over a list of passes; the bound on its length is
  the number of attempts left in the queue. The walks of predicates and graphs are functions with measures. Ids come
  from \<open>uuid e k\<close>, the \<open>k\<close>-th id that the operation draws, with hypotheses that they are new.

  \<^bold>\<open>How the code is read.\<close>

    \<^item> Ids and texts are ASCII strings. Times are whole microseconds, one reading of the clock per operation.
      Floats are the rationals of their decimal texts, products and quotients of floats or of \<open>Decimal\<close> are exact, and
      Python's integers are \<open>int\<close>. The prices of calls have the limits of these types: what is beyond the largest float is
      infinite or raises, and \<open>quantize\<close> raises at 29 digits; a JSON number beyond the largest float is taken to be written
      with an exponent. The other amounts (cents in columns, samples in the ring of calls) are taken to be finite. JSON columns hold documents; a listing's pricing terms their canonical record.
    \<^item> Operations are transactions that run one after the other, except those of \<open>Worker_Leases\<close>, whose statements
      interleave, the monitor of endpoints, which lists, probes and writes agent by agent, and the steps of a run; while these
      wait for an answer others may change the database. Reads \<open>FOR UPDATE\<close> that only lock are omitted.
    \<^item> The order of rows that \<open>ORDER BY\<close> leaves open is the table's; text is collated by character; \<open>LIKE\<close> folds
      case where the backend does; limits are clamped as in the code; a new message key is one above the
      largest, and the key the cursor reports on PostgreSQL is -1. \<open>transactions.wallet_id\<close> has no foreign key.
    \<^item> A failed settlement row records the exception. Where a result dictionary only repeats fields of a row, the
      row stands for it: \<open>get_or_create_wallet\<close> and \<open>ensure_builtin_recipes\<close> return less
      than the code does.
    \<^item> Parameters: SHA-256, JMESPath, the parsing of a payout curve, the pydantic body of a message, the answers of
      judges (hosted or not), endpoint probes, the overlay of built-in prices, the answers of agents and what others do meanwhile, \<open>str\<close> of JSON other than text, and the
      context variable that permits unscoped charges.
    \<^item> Predicates of the wrong JSON type count as empty, the confidence of judges is left out, generated reasonings
      are their constant part, an unreadable \<open>audit_log\<close> does not occur, and an agent is the columns that the
      modelled code reads. The server reads the verification status \<open>armed\<close> as \<open>not_required\<close>.

  \<^bold>\<open>Not modelled.\<close> Logging, metrics, mail, hooks, live delivery of messages and events, and receipts, because
  they change no table of the model; Stripe and the report on its withdrawals, the language models, browsers,
  sandboxes and the built-in agents, because they are services or libraries outside the repository's code; the HTTP
  layer, users and keys, the catalogue with its ranking, workspaces, hosted skills, listing review,
  reputation scores, SDKs, scripts and the code in other languages, because they lie beside the
  flow of money and jobs, and rest on embeddings, prompts or cryptography of libraries.
\<close>

end
